(* ===== verification/Vocal_Prelude.thy ===== *)
theory Vocal_Prelude
  imports Main "HOL-Library.Word"
begin

text \<open>
  Shared vocabulary of the development: machine integers and octets, the outcome type of
  code that can stop in an assertion, the network byte order conversions that the C++ code
  gets from \<open>htons\<close>, \<open>ntohs\<close>, \<open>htonl\<close>, \<open>ntohl\<close> together with \<open>memcpy\<close>, and the generic
  lemmas on words, lists and modular indices that several components use. The collections
  \<open>wire_simps\<close> (byte order) and \<open>outcome_simps\<close> (sequencing of fallible steps) carry the
  component proofs.
\<close>

unbundle bit_operations_syntax

named_theorems wire_simps \<open>network byte order round trips\<close>
named_theorems outcome_simps \<open>sequencing of steps that may abort\<close>

section \<open>Machine integers\<close>

type_synonym octet = "8 word"
type_synonym u16 = "16 word"
type_synonym u32 = "32 word"
type_synonym u64 = "64 word"

text \<open>Widening a 16-bit value and cutting it back.\<close>

lemma ucast_u16_u32_u16 [simp]: "ucast (ucast (w :: u16) :: u32) = w"
  by (rule bit_word_eqI) (auto simp: bit_simps)

lemma ucast_u32_u16_minus: "(ucast (x - y :: u32) :: u16) = ucast x - ucast y"
  by (simp add: word_uint_eq_iff unsigned_ucast_eq)
    (simp add: uint_word_ariths take_bit_eq_mod mod_simps unsigned_ucast_eq mod_mod_cancel)

lemma ucast_u32_u16_of_nat [simp]: "(ucast (word_of_nat n :: u32) :: u16) = word_of_nat n"
  by transfer simp

lemma unat_u16_of_nat: "n < 2 ^ 16 \<Longrightarrow> unat (word_of_nat n :: u16) = n"
  by (simp add: unsigned_of_nat take_bit_nat_eq_self)

section \<open>Outcomes of fallible code\<close>

text \<open>
  The ways a routine of the modelled code leaves without returning: a failed \<open>assert\<close>,
  an access through a null pointer, an array access outside the array, a division by zero.
  A routine that cannot fail returns its value; one that can returns \<open>abort + 'a\<close>.
\<close>

datatype abort = AssertFailed | NullDeref | OutOfBounds | DivByZero

type_synonym 'a outcome = "abort + 'a"

definition obind :: "'a outcome \<Rightarrow> ('a \<Rightarrow> 'b outcome) \<Rightarrow> 'b outcome" where
  "obind m f = (case m of Inl e \<Rightarrow> Inl e | Inr x \<Rightarrow> f x)"

definition oassert :: "bool \<Rightarrow> 'a outcome \<Rightarrow> 'a outcome" where
  "oassert b m = (if b then m else Inl AssertFailed)"

lemma obind_Inl [simp, outcome_simps]: "obind (Inl e) f = Inl e"
  by (simp add: obind_def)

lemma obind_Inr [simp, outcome_simps]: "obind (Inr x) f = f x"
  by (simp add: obind_def)

lemma obind_eq_Inr [outcome_simps]: "obind m f = Inr y \<longleftrightarrow> (\<exists>x. m = Inr x \<and> f x = Inr y)"
  by (cases m) (simp_all add: obind_def)

lemma obind_assoc: "obind (obind m f) g = obind m (\<lambda>x. obind (f x) g)"
  by (cases m) simp_all

lemma oassert_True [simp, outcome_simps]: "oassert True m = m"
  by (simp add: oassert_def)

lemma oassert_False [simp, outcome_simps]: "oassert False m = Inl AssertFailed"
  by (simp add: oassert_def)

lemma oassert_eq_Inr [outcome_simps]: "oassert b m = Inr x \<longleftrightarrow> b \<and> m = Inr x"
  by (simp add: oassert_def)

section \<open>Computations that may not return\<close>

text \<open>
  Code with a loop or a call cycle that need not end: \<open>None\<close> is a computation that does not
  return, \<open>Some\<close> gives the outcome of one that does.
\<close>

type_synonym 'a run = "'a outcome option"

definition rbind :: "'a run \<Rightarrow> ('a \<Rightarrow> 'b run) \<Rightarrow> 'b run" where
  "rbind m f = (case m of None \<Rightarrow> None | Some (Inl e) \<Rightarrow> Some (Inl e) | Some (Inr x) \<Rightarrow> f x)"

definition rassert :: "bool \<Rightarrow> 'a run \<Rightarrow> 'a run" where
  "rassert b m = (if b then m else Some (Inl AssertFailed))"

abbreviation ret :: "'a \<Rightarrow> 'a run" where
  "ret x \<equiv> Some (Inr x)"

abbreviation stop :: "abort \<Rightarrow> 'a run" where
  "stop e \<equiv> Some (Inl e)"

lemma rbind_None [simp, outcome_simps]: "rbind None f = None"
  by (simp add: rbind_def)

lemma rbind_stop [simp, outcome_simps]: "rbind (stop e) f = stop e"
  by (simp add: rbind_def)

lemma rbind_ret [simp, outcome_simps]: "rbind (ret x) f = f x"
  by (simp add: rbind_def)

lemma rbind_eq_ret [outcome_simps]: "rbind m f = ret y \<longleftrightarrow> (\<exists>x. m = ret x \<and> f x = ret y)"
  by (auto simp: rbind_def split: option.splits sum.splits)

lemma rbind_eq_None [outcome_simps]:
  "rbind m f = None \<longleftrightarrow> m = None \<or> (\<exists>x. m = ret x \<and> f x = None)"
  by (auto simp: rbind_def split: option.splits sum.splits)

lemma rbind_assoc: "rbind (rbind m f) g = rbind m (\<lambda>x. rbind (f x) g)"
  by (auto simp: rbind_def split: option.splits sum.splits)

lemma rassert_True [simp, outcome_simps]: "rassert True m = m"
  by (simp add: rassert_def)

lemma rassert_False [simp, outcome_simps]: "rassert False m = stop AssertFailed"
  by (simp add: rassert_def)

lemma rassert_eq_ret [outcome_simps]: "rassert b m = ret x \<longleftrightarrow> b \<and> m = ret x"
  by (simp add: rassert_def)

lemma rassert_eq_None [outcome_simps]: "rassert b m = None \<longleftrightarrow> b \<and> m = None"
  by (simp add: rassert_def)

definition returns :: "'a run \<Rightarrow> bool" where
  "returns m \<longleftrightarrow> m \<noteq> None"

lemma returns_simps [simp]:
  "returns (Some x)" "\<not> returns None"
  by (simp_all add: returns_def)

lemma returns_rbind [simp]:
  "returns (rbind m f) \<longleftrightarrow> returns m \<and> (\<forall>x. m = ret x \<longrightarrow> returns (f x))"
  by (auto simp: returns_def rbind_def split: option.splits sum.splits)

lemma returns_rassert [simp]: "returns (rassert b m) \<longleftrightarrow> (b \<longrightarrow> returns m)"
  by (simp add: rassert_def)

section \<open>Network byte order\<close>

text \<open>
  \<open>htons\<close> or \<open>htonl\<close> followed by \<open>memcpy\<close> stores an integer most significant octet
  first; \<open>memcpy\<close> followed by \<open>ntohs\<close> or \<open>ntohl\<close> reads it back.
\<close>

definition be16 :: "u16 \<Rightarrow> octet list" where
  "be16 w = [ucast (drop_bit 8 w), ucast w]"

definition be32 :: "u32 \<Rightarrow> octet list" where
  "be32 w = [ucast (drop_bit 24 w), ucast (drop_bit 16 w), ucast (drop_bit 8 w), ucast w]"

definition get16 :: "octet \<Rightarrow> octet \<Rightarrow> u16" where
  "get16 a b = push_bit 8 (ucast a) OR ucast b"

definition get32 :: "octet \<Rightarrow> octet \<Rightarrow> octet \<Rightarrow> octet \<Rightarrow> u32" where
  "get32 a b c d = push_bit 24 (ucast a) OR push_bit 16 (ucast b) OR push_bit 8 (ucast c) OR ucast d"

lemma length_be16 [simp]: "length (be16 w) = 2"
  by (simp add: be16_def)

lemma length_be32 [simp]: "length (be32 w) = 4"
  by (simp add: be32_def)

lemma get16_be16 [simp, wire_simps]: "get16 (ucast (drop_bit 8 w)) (ucast w) = w"
  by (rule bit_word_eqI) (auto simp: get16_def bit_simps)

lemma get32_be32 [simp, wire_simps]:
  "get32 (ucast (drop_bit 24 w)) (ucast (drop_bit 16 w)) (ucast (drop_bit 8 w)) (ucast w) = w"
proof (rule bit_word_eqI)
  fix n :: nat
  assume "n < LENGTH(32)"
  then consider "n < 8" | "8 \<le> n" "n < 16" | "16 \<le> n" "n < 24" | "24 \<le> n" "n < 32"
    by fastforce
  then show "bit (get32 (ucast (drop_bit 24 w)) (ucast (drop_bit 16 w)) (ucast (drop_bit 8 w))
      (ucast w)) n = bit w n"
    by cases (auto simp: get32_def bit_simps)
qed

lemma be16_get16 [simp, wire_simps]: "be16 (get16 a b) = [a, b]"
proof -
  have "ucast (drop_bit 8 (get16 a b)) = a"
    by (rule bit_word_eqI) (auto simp: get16_def bit_simps dest: bit_imp_le_length)
  moreover have "ucast (get16 a b) = b"
    by (rule bit_word_eqI) (auto simp: get16_def bit_simps)
  ultimately show ?thesis by (simp add: be16_def)
qed

lemma be32_get32 [simp, wire_simps]: "be32 (get32 a b c d) = [a, b, c, d]"
proof -
  have "ucast (drop_bit 24 (get32 a b c d)) = a"
    by (rule bit_word_eqI) (auto simp: get32_def bit_simps dest: bit_imp_le_length)
  moreover have "ucast (drop_bit 16 (get32 a b c d)) = b"
    by (rule bit_word_eqI) (auto simp: get32_def bit_simps dest: bit_imp_le_length)
  moreover have "ucast (drop_bit 8 (get32 a b c d)) = c"
    by (rule bit_word_eqI) (auto simp: get32_def bit_simps dest: bit_imp_le_length)
  moreover have "ucast (get32 a b c d) = d"
    by (rule bit_word_eqI) (auto simp: get32_def bit_simps)
  ultimately show ?thesis by (simp add: be32_def)
qed

section \<open>Bit fields of an octet\<close>

text \<open>
  A C bit field of \<open>n\<close> bits that starts at bit \<open>k\<close> of an octet. Assigning to it keeps the
  low \<open>n\<close> bits of the value and leaves the other bits alone.
\<close>

definition get_field :: "nat \<Rightarrow> nat \<Rightarrow> octet \<Rightarrow> octet" where
  "get_field k n b = take_bit n (drop_bit k b)"

definition put_field :: "nat \<Rightarrow> nat \<Rightarrow> octet \<Rightarrow> octet \<Rightarrow> octet" where
  "put_field k n v b = (b AND NOT (push_bit k (mask n))) OR push_bit k (take_bit n v)"

lemma get_put_field [simp]: "k + n \<le> 8 \<Longrightarrow> get_field k n (put_field k n v b) = take_bit n v"
  by (rule bit_word_eqI) (auto simp: get_field_def put_field_def bit_simps)

lemma get_put_field_other [simp]:
  "k + n \<le> j \<or> j + m \<le> k \<Longrightarrow> get_field j m (put_field k n v b) = get_field j m b"
  by (rule bit_word_eqI)
    (auto simp: get_field_def put_field_def bit_simps dest: bit_imp_le_length)

lemma put_put_field [simp]: "put_field k n v (put_field k n w b) = put_field k n v b"
  by (rule bit_word_eqI) (auto simp: put_field_def bit_simps)

lemma put_field_take_bit [simp]: "put_field k n (take_bit n v) b = put_field k n v b"
  by (simp add: put_field_def)

lemma put_field_mod_2 [simp]: "put_field k (Suc 0) (v mod 2) b = put_field k (Suc 0) v b"
  using put_field_take_bit [of k "Suc 0" v b] by (simp add: take_bit_Suc)

lemma put_get_field [simp]: "put_field k n (get_field k n b) b = b"
  by (rule bit_word_eqI) (auto simp: get_field_def put_field_def bit_simps)

section \<open>Copying into and out of a character array\<close>

text \<open>\<open>memcpy\<close> into or out of an array of known size; a copy that would leave the array is
  undefined behaviour in the source and is reported as such.\<close>

definition mem_write :: "nat \<Rightarrow> 'a list \<Rightarrow> 'a list \<Rightarrow> 'a list outcome" where
  "mem_write off bs xs =
     (if off + length bs \<le> length xs
      then Inr (take off xs @ bs @ drop (off + length bs) xs) else Inl OutOfBounds)"

definition mem_read :: "nat \<Rightarrow> nat \<Rightarrow> 'a list \<Rightarrow> 'a list outcome" where
  "mem_read off n xs = (if off + n \<le> length xs then Inr (take n (drop off xs)) else Inl OutOfBounds)"

lemma mem_write_ok: "off + length bs \<le> length xs \<Longrightarrow>
    mem_write off bs xs = Inr (take off xs @ bs @ drop (off + length bs) xs)"
  by (simp add: mem_write_def)

lemma mem_write_append:
  "n = length H \<Longrightarrow> length bs \<le> length R \<Longrightarrow> mem_write n bs (H @ R) = Inr (H @ bs @ drop (length bs) R)"
  by (simp add: mem_write_def)

lemma mem_read_ok: "off + n \<le> length xs \<Longrightarrow> mem_read off n xs = Inr (take n (drop off xs))"
  by (simp add: mem_read_def)

lemma mem_write_length: "mem_write off bs xs = Inr ys \<Longrightarrow> length ys = length xs"
  by (auto simp: mem_write_def split: if_splits)

lemma mem_read_write: "mem_write off bs xs = Inr ys \<Longrightarrow> mem_read off (length bs) ys = Inr bs"
  by (auto simp: mem_write_def mem_read_def split: if_splits)

lemma mem_write_nth_below: "mem_write off bs xs = Inr ys \<Longrightarrow> i < off \<Longrightarrow> ys ! i = xs ! i"
  by (auto simp: mem_write_def nth_append split: if_splits)

text \<open>A checking loop: every element must pass a test that may itself abort.\<close>

fun ocheck :: "('a \<Rightarrow> bool outcome) \<Rightarrow> 'a list \<Rightarrow> unit outcome" where
  "ocheck f [] = Inr ()"
| "ocheck f (x # xs) = obind (f x) (\<lambda>b. oassert b (ocheck f xs))"

lemma ocheck_total:
  assumes "\<And>x. x \<in> set xs \<Longrightarrow> f x = Inr (P x)"
  shows "ocheck f xs = (if \<forall>x \<in> set xs. P x then Inr () else Inl AssertFailed)"
  using assms by (induction xs) (auto simp: oassert_def)

text \<open>A loop over a list whose body may abort.\<close>

fun ofold :: "('x \<Rightarrow> 's \<Rightarrow> 's outcome) \<Rightarrow> 'x list \<Rightarrow> 's \<Rightarrow> 's outcome" where
  "ofold f [] s = Inr s"
| "ofold f (x # xs) s = obind (f x s) (ofold f xs)"

lemma ofold_map: "ofold g (map f xs) s = ofold (\<lambda>x. g (f x)) xs s"
  by (induction xs arbitrary: s) (auto simp: obind_def split: sum.splits)

text \<open>A step that may abort inside a loop that may not end.\<close>

definition odo :: "'a outcome \<Rightarrow> ('a \<Rightarrow> 'b outcome option) \<Rightarrow> 'b outcome option" where
  "odo m f = (case m of Inl e \<Rightarrow> Some (Inl e) | Inr x \<Rightarrow> f x)"

lemma odo_simps [simp, outcome_simps]: "odo (Inl e) f = Some (Inl e)" "odo (Inr x) f = f x"
  by (simp_all add: odo_def)

lemma odo_mono [partial_function_mono]:
  assumes "\<And>x. mono_option (\<lambda>g. f g x)"
  shows "mono_option (\<lambda>g. odo m (f g))"
  using assms by (cases m) (simp_all add: option.const_mono)

section \<open>C strings and C arithmetic\<close>

text \<open>The characters of a string literal.\<close>

definition cstr :: "string \<Rightarrow> octet list" where
  "cstr s = map of_char s"

text \<open>\<open>strlen\<close> on an array: without a terminating zero it runs past the end.\<close>

definition c_strlen :: "octet list \<Rightarrow> nat outcome" where
  "c_strlen v = (if 0 \<in> set v then Inr (length (takeWhile (\<lambda>b. b \<noteq> 0) v)) else Inl OutOfBounds)"

text \<open>The text stored in an array of characters.\<close>

definition c_text :: "octet list \<Rightarrow> octet list" where
  "c_text v = takeWhile (\<lambda>b. b \<noteq> 0) v"

lemma c_text_append [simp]: "0 \<notin> set bs \<Longrightarrow> c_text (bs @ 0 # v) = bs"
  unfolding c_text_def by (subst takeWhile_append2) auto

lemma c_strlen_text: "0 \<in> set v \<Longrightarrow> c_strlen v = Inr (length (c_text v))"
  by (simp add: c_strlen_def c_text_def)

lemma take_c_text: "take (length (c_text v)) v = c_text v"
  by (metis c_text_def takeWhile_eq_take)

lemma c_text_no_zero: "0 \<notin> set (c_text v)"
  by (metis (mono_tags, lifting) c_text_def set_takeWhileD)

text \<open>A value assigned to a variable of type \<open>int\<close>, and the division of two of them, which
  truncates towards zero.\<close>

definition int32 :: "int \<Rightarrow> int" where
  "int32 v = sint (word_of_int v :: u32)"

definition c_div :: "int \<Rightarrow> int \<Rightarrow> int" where
  "c_div a b = sgn a * sgn b * (\<bar>a\<bar> div \<bar>b\<bar>)"

lemma int32_mod: "int32 v = (v + 2 ^ 31) mod 2 ^ 32 - 2 ^ 31"
proof -
  have "int32 v = signed_take_bit 31 v" unfolding int32_def by (simp add: sint_sbintrunc')
  also have "\<dots> = (v + 2 ^ 31) mod 2 ^ 32 - 2 ^ 31" by (simp add: signed_take_bit_eq_take_bit_shift take_bit_eq_mod)
  finally show ?thesis .
qed

lemma int32_self: "- (2 ^ 31) \<le> v \<Longrightarrow> v < 2 ^ 31 \<Longrightarrow> int32 v = v"
  unfolding int32_mod by (simp add: mod_pos_pos_trivial)

lemma int32_bounds: "- (2 ^ 31) \<le> int32 v" "int32 v < 2 ^ 31"
  using pos_mod_bound [of "2 ^ 32" "v + 2 ^ 31"] pos_mod_sign [of "2 ^ 32" "v + 2 ^ 31"]
  unfolding int32_mod by simp_all

lemma c_div_nonneg: "0 \<le> a \<Longrightarrow> 0 < b \<Longrightarrow> c_div a b = a div b"
  by (cases "a = 0") (simp_all add: c_div_def)

section \<open>Bounded queues\<close>

text \<open>The last \<open>m\<close> elements of a list: what a queue of capacity \<open>m\<close> keeps.\<close>

definition lastn :: "nat \<Rightarrow> 'a list \<Rightarrow> 'a list" where
  "lastn m xs = drop (length xs - m) xs"

lemma lastn_short [simp]: "length xs \<le> m \<Longrightarrow> lastn m xs = xs"
  by (simp add: lastn_def)

lemma length_lastn [simp]: "length (lastn m xs) = min m (length xs)"
  by (simp add: lastn_def)

lemma lastn_lastn_append: "lastn m (lastn m xs @ ys) = lastn m (xs @ ys)"
  by (cases "length xs \<le> m") (simp_all add: lastn_def add.commute)

lemma lastn_snoc:
  "0 < m \<Longrightarrow> length xs \<le> m \<Longrightarrow> (if length xs = m then tl xs else xs) @ [x] = lastn m (xs @ [x])"
  by (simp add: lastn_def drop_Suc)

lemma nth_lastn: "i < min m (length xs) \<Longrightarrow> lastn m xs ! i = xs ! (length xs - m + i)"
  by (simp add: lastn_def)

text \<open>
  The contract of a queue of bounded capacity that forgets its oldest entry when it is full:
  an insertion that may abort does not, and the contents after it are the last \<open>cap\<close> entries
  of the contents before it with the new one behind.
\<close>

locale bounded_queue =
  fixes inv :: "'s \<Rightarrow> bool" and cap :: "'s \<Rightarrow> nat" and contents :: "'s \<Rightarrow> 'v list"
    and insert :: "'x \<Rightarrow> 's \<Rightarrow> 's outcome" and val :: "'x \<Rightarrow> 'v"
  assumes cap_pos: "inv s \<Longrightarrow> 0 < cap s"
    and cap_bound: "inv s \<Longrightarrow> length (contents s) \<le> cap s"
    and insert_ok: "inv s \<Longrightarrow> \<exists>s'. insert x s = Inr s' \<and> inv s' \<and> cap s' = cap s \<and>
      contents s' = lastn (cap s) (contents s @ [val x])"
begin

lemma insert_all:
  "inv s \<Longrightarrow> \<exists>s'. ofold insert xs s = Inr s' \<and> inv s' \<and> cap s' = cap s \<and>
     contents s' = lastn (cap s) (contents s @ map val xs)"
proof (induction xs arbitrary: s)
  case Nil
  then show ?case using cap_bound by simp
next
  case (Cons x xs)
  obtain t where t: "insert x s = Inr t" "inv t" "cap t = cap s"
    "contents t = lastn (cap s) (contents s @ [val x])"
    using insert_ok [OF Cons.prems] by blast
  obtain u where "ofold insert xs t = Inr u" "inv u" "cap u = cap t"
    "contents u = lastn (cap t) (contents t @ map val xs)"
    using Cons.IH [OF t(2)] by blast
  then show ?case using t lastn_lastn_append [of "cap s" "contents s @ [val x]" "map val xs"] by auto
qed

end

section \<open>Indices on a ring\<close>

lemma ring_inj:
  assumes "k < m" "j < (m :: nat)"
  shows "(p + k) mod m = (p + j) mod m \<longleftrightarrow> k = j"
proof
  assume "(p + k) mod m = (p + j) mod m"
  then have "k mod m = j mod m" by (simp add: nat_mod_eq_iff)
  with assms show "k = j" by simp
qed simp

lemma ring_surj:
  assumes "i < m" "p < (m :: nat)"
  obtains k where "k < m" "i = (p + k) mod m"
proof
  show "(i + m - p) mod m < m" using assms by simp
  show "i = (p + (i + m - p) mod m) mod m"
    using assms by (simp add: mod_add_right_eq)
qed

lemma ring_wrap: "x < 2 * (m :: nat) \<Longrightarrow> x mod m = (if x < m then x else x - m)"
  by (simp add: mod_if)

lemma ring_next:
  assumes "i < (m :: nat)"
  shows "(if Suc i \<ge> m then 0 else Suc i) = Suc i mod m"
proof (cases "Suc i = m")
  case False
  with assms show ?thesis by simp
qed simp

lemma ring_prev:
  assumes "i < (m :: nat)"
  shows "(if t mod m > i then m - (t mod m - i) else i - t mod m) = (i + m - t mod m) mod m"
proof -
  have t: "t mod m < m" using assms by simp
  show ?thesis
  proof (cases "t mod m > i")
    case True
    with assms have "i + m - t mod m < m" by linarith
    with True t show ?thesis by simp
  next
    case False
    with t have "i + m - t mod m = (i - t mod m) + m" by linarith
    then have "(i + m - t mod m) mod m = i - t mod m"
      using assms by (simp only: mod_add_self2) simp
    with False show ?thesis by simp
  qed
qed

end
