(* ===== verification/Rtp_Packet.thy ===== *)
theory Rtp_Packet
  imports Vocal_Prelude
begin

text \<open>
  \<open>rtp/RtpPacket.cxx\<close> and \<open>rtp/RtpPacket.hxx\<close>: the RTP data packet. The object owns an array
  \<open>packetData\<close> of \<open>RTP_MTU\<close> octets whose first octets are the header structure of
  \<open>rtp/rtpTypes.h\<close>, laid out as on a little-endian machine; \<open>header\<close> points at its start
  from the first \<open>clear\<close> on, so header fields are read and written in place. Sizes are
  C++ \<open>int\<close>s. Payload types are kept as numbers, since the code casts any 7-bit value to
  the enumeration.
\<close>

definition RTP_VERSION :: int where "RTP_VERSION = 2"
definition RTP_MTU :: nat where "RTP_MTU = 8129"

text \<open>The sizes of the header structure and of one source identifier.\<close>

definition sizeof_RtpHeader :: nat where "sizeof_RtpHeader = 16"
definition sizeof_RtpSrc :: nat where "sizeof_RtpSrc = 4"

definition rtpPayloadPCMU :: int where "rtpPayloadPCMU = 0"
definition rtpPayloadL16_mono :: int where "rtpPayloadL16_mono = 11"
definition rtpPayloadCN :: int where "rtpPayloadCN = 19"
definition rtpPayloadDTMF_RFC2833 :: int where "rtpPayloadDTMF_RFC2833 = 100"
definition rtpPayloadCiscoRtp :: int where "rtpPayloadCiscoRtp = 121"
definition rtpPayloadL16_8k_mono :: int where "rtpPayloadL16_8k_mono = 122"
definition rtpPayloadUndefined :: int where "rtpPayloadUndefined = 128"

lemmas rtp_consts = RTP_VERSION_def RTP_MTU_def sizeof_RtpHeader_def sizeof_RtpSrc_def
  rtpPayloadPCMU_def rtpPayloadL16_mono_def rtpPayloadCN_def rtpPayloadDTMF_RFC2833_def
  rtpPayloadCiscoRtp_def rtpPayloadL16_8k_mono_def rtpPayloadUndefined_def

record RtpPacket =
  sequenceSet :: bool
  timestampSet :: bool
  converted_to_nbo :: bool
  converted_to_hbo :: bool
  is_silence_fill :: bool
  npadSize :: int
  csrc_count :: int
  packetData :: "octet list"
  packetAlloc :: int
  unusedSize :: int

section \<open>Header fields\<close>

definition setVersion :: "int \<Rightarrow> RtpPacket \<Rightarrow> RtpPacket" where
  "setVersion i p = p\<lparr>packetData := (packetData p)[0 := put_field 6 2 (word_of_int i) (packetData p ! 0)]\<rparr>"

definition getVersion :: "RtpPacket \<Rightarrow> int" where
  "getVersion p = uint (get_field 6 2 (packetData p ! 0))"

definition setPaddingFlag :: "int \<Rightarrow> RtpPacket \<Rightarrow> RtpPacket" where
  "setPaddingFlag i p = p\<lparr>packetData := (packetData p)[0 := put_field 5 1 (word_of_int i) (packetData p ! 0)]\<rparr>"

definition getPaddingFlag :: "RtpPacket \<Rightarrow> int" where
  "getPaddingFlag p = uint (get_field 5 1 (packetData p ! 0))"

definition setExtFlag :: "int \<Rightarrow> RtpPacket \<Rightarrow> RtpPacket" where
  "setExtFlag i p = p\<lparr>packetData := (packetData p)[0 := put_field 4 1 (word_of_int i) (packetData p ! 0)]\<rparr>"

definition getExtFlag :: "RtpPacket \<Rightarrow> int" where
  "getExtFlag p = uint (get_field 4 1 (packetData p ! 0))"

definition setCSRCcount :: "int \<Rightarrow> RtpPacket \<Rightarrow> RtpPacket" where
  "setCSRCcount i p = p\<lparr>packetData := (packetData p)[0 := put_field 0 4 (word_of_int i) (packetData p ! 0)]\<rparr>"

definition getCSRCcount :: "RtpPacket \<Rightarrow> int" where
  "getCSRCcount p = uint (get_field 0 4 (packetData p ! 0))"

definition setMarkerFlag :: "int \<Rightarrow> RtpPacket \<Rightarrow> RtpPacket" where
  "setMarkerFlag i p = p\<lparr>packetData := (packetData p)[1 := put_field 7 1 (word_of_int i) (packetData p ! 1)]\<rparr>"

definition getMarkerFlag :: "RtpPacket \<Rightarrow> int" where
  "getMarkerFlag p = uint (get_field 7 1 (packetData p ! 1))"

text \<open>The bare assignment \<open>header->type = t\<close>, and \<open>setPayloadType\<close> with its range checks.\<close>

definition put_type :: "int \<Rightarrow> RtpPacket \<Rightarrow> RtpPacket" where
  "put_type t p = p\<lparr>packetData := (packetData p)[1 := put_field 0 7 (word_of_int t) (packetData p ! 1)]\<rparr>"

definition setPayloadType :: "int \<Rightarrow> RtpPacket \<Rightarrow> RtpPacket outcome" where
  "setPayloadType t p = oassert (t \<ge> 0) (oassert (t \<le> 127) (Inr (put_type t p)))"

definition getPayloadType :: "RtpPacket \<Rightarrow> int" where
  "getPayloadType p = uint (get_field 0 7 (packetData p ! 1))"

text \<open>Multi-octet fields; \<open>setSequence\<close> keeps the low 16 bits, as \<open>htons\<close> does.\<close>

definition put_sequence :: "u16 \<Rightarrow> RtpPacket \<Rightarrow> RtpPacket" where
  "put_sequence w p = p\<lparr>packetData := (packetData p)
     [2 := ucast (drop_bit 8 w), 3 := ucast w]\<rparr>"

definition setSequence :: "u32 \<Rightarrow> RtpPacket \<Rightarrow> RtpPacket" where
  "setSequence nseq p = put_sequence (ucast nseq) (p\<lparr>sequenceSet := True\<rparr>)"

definition getSequence :: "RtpPacket \<Rightarrow> u32" where
  "getSequence p = ucast (get16 (packetData p ! 2) (packetData p ! 3))"

definition put_timestamp :: "u32 \<Rightarrow> RtpPacket \<Rightarrow> RtpPacket" where
  "put_timestamp w p = p\<lparr>packetData := (packetData p)
     [4 := ucast (drop_bit 24 w), 5 := ucast (drop_bit 16 w), 6 := ucast (drop_bit 8 w), 7 := ucast w]\<rparr>"

definition setRtpTime :: "u32 \<Rightarrow> RtpPacket \<Rightarrow> RtpPacket" where
  "setRtpTime time p = put_timestamp time (p\<lparr>timestampSet := True\<rparr>)"

definition getRtpTime :: "RtpPacket \<Rightarrow> u32" where
  "getRtpTime p = get32 (packetData p ! 4) (packetData p ! 5) (packetData p ! 6) (packetData p ! 7)"

definition setSSRC :: "u32 \<Rightarrow> RtpPacket \<Rightarrow> RtpPacket" where
  "setSSRC w p = p\<lparr>packetData := (packetData p)
     [8 := ucast (drop_bit 24 w), 9 := ucast (drop_bit 16 w), 10 := ucast (drop_bit 8 w), 11 := ucast w]\<rparr>"

definition getSSRC :: "RtpPacket \<Rightarrow> u32" where
  "getSSRC p = get32 (packetData p ! 8) (packetData p ! 9) (packetData p ! 10) (packetData p ! 11)"

definition setCSRC :: "u32 \<Rightarrow> nat \<Rightarrow> RtpPacket \<Rightarrow> RtpPacket outcome" where
  "setCSRC w i p = oassert (i \<ge> 1) (oassert (int i \<le> getCSRCcount p)
     (let k = 12 + (i - 1) * sizeof_RtpSrc in
      Inr (p\<lparr>packetData := (packetData p)
        [k := ucast (drop_bit 24 w), k + 1 := ucast (drop_bit 16 w),
         k + 2 := ucast (drop_bit 8 w), k + 3 := ucast w]\<rparr>)))"

definition getCSRC :: "nat \<Rightarrow> RtpPacket \<Rightarrow> u32 outcome" where
  "getCSRC i p = oassert (i \<ge> 1) (oassert (int i \<le> getCSRCcount p)
     (let k = 12 + (i - 1) * sizeof_RtpSrc in
      Inr (get32 (packetData p ! k) (packetData p ! (k + 1))
        (packetData p ! (k + 2)) (packetData p ! (k + 3)))))"

section \<open>Sizes and locations\<close>

definition setPadbyteSize :: "int \<Rightarrow> RtpPacket \<Rightarrow> RtpPacket" where
  "setPadbyteSize sz p = p"

definition getPadbyteSize :: "RtpPacket \<Rightarrow> int" where
  "getPadbyteSize p = 0"

definition getPayloadLoc :: "RtpPacket \<Rightarrow> nat" where
  "getPayloadLoc p = sizeof_RtpHeader - sizeof_RtpSrc + nat (getCSRCcount p) * sizeof_RtpSrc"

definition getPayloadSize :: "RtpPacket \<Rightarrow> int" where
  "getPayloadSize p = packetAlloc p - int sizeof_RtpHeader + int sizeof_RtpSrc
     - getCSRCcount p * int sizeof_RtpSrc - getPadbyteSize p"

definition setPayloadUsage :: "int \<Rightarrow> RtpPacket \<Rightarrow> RtpPacket outcome" where
  "setPayloadUsage sz p =
     oassert (sz \<le> getPayloadSize p) (Inr (p\<lparr>unusedSize := getPayloadSize p - sz\<rparr>))"

definition getPayloadUsage :: "RtpPacket \<Rightarrow> int" where
  "getPayloadUsage p = getPayloadSize p - unusedSize p"

definition getPadbyteLoc :: "RtpPacket \<Rightarrow> int" where
  "getPadbyteLoc p = int (getPayloadLoc p) + getPayloadSize p"

definition setTotalUsage :: "int \<Rightarrow> RtpPacket \<Rightarrow> RtpPacket outcome" where
  "setTotalUsage sz p =
     oassert (sz \<le> packetAlloc p) (Inr (p\<lparr>unusedSize := packetAlloc p - sz\<rparr>))"

definition getTotalUsage :: "RtpPacket \<Rightarrow> int" where
  "getTotalUsage p = packetAlloc p - unusedSize p"

definition recalcPacketAlloc :: "int \<Rightarrow> RtpPacket \<Rightarrow> RtpPacket" where
  "recalcPacketAlloc newpayloadSize p = p\<lparr>packetAlloc :=
     int sizeof_RtpHeader - int sizeof_RtpSrc + csrc_count p * int sizeof_RtpSrc
     + newpayloadSize + npadSize p\<rparr>"

section \<open>Construction\<close>

definition zero_fill :: "int \<Rightarrow> RtpPacket \<Rightarrow> RtpPacket" where
  "zero_fill n p = p\<lparr>packetData := replicate (nat n) 0 @ drop (nat n) (packetData p)\<rparr>"

definition clear :: "RtpPacket \<Rightarrow> RtpPacket outcome" where
  "clear p =
     oassert (packetAlloc p < int RTP_MTU)
      (obind (setPayloadUsage 0 (zero_fill (packetAlloc p) p)) (\<lambda>p.
        Inr ((put_timestamp 0 (put_sequence 0 (put_type rtpPayloadUndefined (setMarkerFlag 0
          (setCSRCcount (csrc_count p) (setExtFlag 0
            (setPaddingFlag (if npadSize p > 0 then 1 else 0) (setVersion RTP_VERSION p))))))))
          \<lparr>sequenceSet := False, timestampSet := False,
           converted_to_nbo := False, converted_to_hbo := False\<rparr>)))"

text \<open>The constructor runs on uninitialised memory \<open>p0\<close>, whose array has \<open>RTP_MTU\<close> octets.\<close>

definition new_RtpPacket :: "RtpPacket \<Rightarrow> int \<Rightarrow> int \<Rightarrow> int \<Rightarrow> RtpPacket outcome" where
  "new_RtpPacket p0 newpayloadSize npad csrc =
     oassert (csrc \<ge> 0) (oassert (csrc \<le> 15)
      (oassert (newpayloadSize \<ge> 0) (oassert (npad \<ge> 0)
       (obind (clear (setPadbyteSize npad
           (recalcPacketAlloc newpayloadSize (p0\<lparr>csrc_count := csrc, npadSize := npad\<rparr>))))
         (\<lambda>p. oassert (unusedSize p = newpayloadSize) (Inr p))))))"

definition clone_RtpPacket :: "RtpPacket \<Rightarrow> RtpPacket \<Rightarrow> int \<Rightarrow> RtpPacket outcome" where
  "clone_RtpPacket p0 c newpayloadSize =
     (let alloc = int sizeof_RtpHeader - int sizeof_RtpSrc
        + getCSRCcount c * int sizeof_RtpSrc + newpayloadSize + getPadbyteSize c
      in oassert (alloc < int RTP_MTU)
       (obind (setPayloadUsage 0 (setPadbyteSize (getPadbyteSize c)
           (zero_fill alloc (p0\<lparr>packetAlloc := alloc\<rparr>)))) (\<lambda>p.
         oassert (unusedSize p = newpayloadSize)
          (obind (setPayloadType (getPayloadType c) (setMarkerFlag (getMarkerFlag c)
             (setCSRCcount (getCSRCcount c) (setExtFlag (getExtFlag c)
               (setPaddingFlag (getPaddingFlag c) (setVersion (getVersion c) p)))))) (\<lambda>p.
            let p = setRtpTime (getRtpTime c) (setSequence (getSequence c) p)
            in oassert (getSequence p = getSequence c)
                (Inr (p\<lparr>sequenceSet := False, timestampSet := False,
                  converted_to_nbo := False, converted_to_hbo := False\<rparr>)))))))"

definition isValid :: "RtpPacket \<Rightarrow> (bool \<times> RtpPacket) outcome" where
  "isValid p =
     (if getTotalUsage p \<le> 0 then Inr (False, p)
      else if getVersion p \<noteq> RTP_VERSION then Inr (False, p)
      else if getPayloadType p = 13
        then obind (setPayloadType rtpPayloadPCMU p) (\<lambda>p. Inr (True, p))
      else Inr (True, p))"

section \<open>Header fields as independent registers\<close>

text \<open>The storage a packet object is built on: an array of \<open>RTP_MTU\<close> octets.\<close>

definition wf_store :: "RtpPacket \<Rightarrow> bool" where
  "wf_store p \<longleftrightarrow> length (packetData p) = RTP_MTU"

lemma wf_store_nth [simp]:
  "wf_store p \<Longrightarrow> i < 8129 \<Longrightarrow> (packetData p)[i := v] ! i = v"
  by (simp add: wf_store_def RTP_MTU_def)

text \<open>
  A register of the header: what was written (cut to the width of the field) is what is read,
  a second write wins, and writing back what was read changes nothing.
\<close>

locale header_register =
  fixes get :: "RtpPacket \<Rightarrow> 'v" and put :: "'v \<Rightarrow> RtpPacket \<Rightarrow> RtpPacket" and cut :: "'v \<Rightarrow> 'v"
  assumes get_put: "wf_store p \<Longrightarrow> get (put v p) = cut v"
    and put_put: "wf_store p \<Longrightarrow> put v (put w p) = put v p"
    and put_cut: "put (cut v) p = put v p"
    and put_store: "wf_store (put v p) = wf_store p"
begin

lemma cut_cut: "wf_store p \<Longrightarrow> cut (cut v) = cut v"
  using get_put [of p "cut v"] get_put [of p v] by (simp add: put_cut)

lemma put_get_put: "wf_store p \<Longrightarrow> put (get (put v p)) p = put v p"
  by (simp add: get_put put_cut)

end

definition cut_bits :: "nat \<Rightarrow> int \<Rightarrow> int" where
  "cut_bits n i = uint (take_bit n (word_of_int i :: octet))"

lemma cut_bits_id:
  assumes "n \<le> 8" "0 \<le> i" "i < 2 ^ n"
  shows "cut_bits n i = i"
proof -
  have "(2 :: int) ^ n \<le> 2 ^ 8" using assms(1) by (intro power_increasing) simp_all
  then have "uint (word_of_int i :: octet) = i" using assms by (simp add: uint_word_of_int)
  then show ?thesis
    using assms by (simp add: cut_bits_def unsigned_take_bit_eq take_bit_int_eq_self)
qed

lemmas packet_fields =
  setVersion_def getVersion_def setPaddingFlag_def getPaddingFlag_def setExtFlag_def getExtFlag_def
  setCSRCcount_def getCSRCcount_def setMarkerFlag_def getMarkerFlag_def put_type_def
  getPayloadType_def put_sequence_def setSequence_def getSequence_def put_timestamp_def
  setRtpTime_def getRtpTime_def setSSRC_def getSSRC_def wf_store_def RTP_MTU_def cut_bits_def

interpretation version: header_register getVersion setVersion "cut_bits 2"
  by unfold_locales (simp_all add: packet_fields)

interpretation padding: header_register getPaddingFlag setPaddingFlag "cut_bits 1"
  by unfold_locales (simp_all add: packet_fields)

interpretation extension: header_register getExtFlag setExtFlag "cut_bits 1"
  by unfold_locales (simp_all add: packet_fields)

interpretation csrccount: header_register getCSRCcount setCSRCcount "cut_bits 4"
  by unfold_locales (simp_all add: packet_fields)

interpretation marker: header_register getMarkerFlag setMarkerFlag "cut_bits 1"
  by unfold_locales (simp_all add: packet_fields)

interpretation ptype: header_register getPayloadType put_type "cut_bits 7"
  by unfold_locales (simp_all add: packet_fields)

interpretation seqno: header_register getSequence setSequence "\<lambda>v. ucast (ucast v :: u16)"
  by unfold_locales (simp_all add: packet_fields list_update_swap)

interpretation timestamp: header_register getRtpTime setRtpTime "\<lambda>v. v"
  by unfold_locales (simp_all add: packet_fields list_update_swap)

interpretation ssrc: header_register getSSRC setSSRC "\<lambda>v. v"
  by unfold_locales (simp_all add: packet_fields list_update_swap)

text \<open>Writing one field leaves what is read from the others.\<close>

lemma header_frames [simp]:
  "wf_store p \<Longrightarrow> getVersion (setPaddingFlag i p) = getVersion p"
  "wf_store p \<Longrightarrow> getVersion (setExtFlag i p) = getVersion p"
  "wf_store p \<Longrightarrow> getVersion (setCSRCcount i p) = getVersion p"
  "getVersion (setMarkerFlag i p) = getVersion p"
  "getVersion (put_type t p) = getVersion p"
  "getVersion (setSequence s p) = getVersion p"
  "getVersion (setRtpTime w p) = getVersion p"
  "getVersion (setSSRC w p) = getVersion p"
  "wf_store p \<Longrightarrow> getCSRCcount (setVersion i p) = getCSRCcount p"
  "wf_store p \<Longrightarrow> getCSRCcount (setPaddingFlag i p) = getCSRCcount p"
  "wf_store p \<Longrightarrow> getCSRCcount (setExtFlag i p) = getCSRCcount p"
  "getCSRCcount (setMarkerFlag i p) = getCSRCcount p"
  "getCSRCcount (put_type t p) = getCSRCcount p"
  "getCSRCcount (setSequence s p) = getCSRCcount p"
  "getCSRCcount (setRtpTime w p) = getCSRCcount p"
  "getCSRCcount (setSSRC w p) = getCSRCcount p"
  "wf_store p \<Longrightarrow> getPayloadType (setMarkerFlag i p) = getPayloadType p"
  "getPayloadType (setSequence s p) = getPayloadType p"
  "getPayloadType (setRtpTime w p) = getPayloadType p"
  "getPayloadType (setSSRC w p) = getPayloadType p"
  "wf_store p \<Longrightarrow> getMarkerFlag (put_type t p) = getMarkerFlag p"
  "getSequence (put_type t p) = getSequence p"
  "getSequence (setMarkerFlag i p) = getSequence p"
  "getSequence (setRtpTime w p) = getSequence p"
  "getSequence (setSSRC w p) = getSequence p"
  "getRtpTime (put_type t p) = getRtpTime p"
  "getRtpTime (setMarkerFlag i p) = getRtpTime p"
  "getRtpTime (setSequence s p) = getRtpTime p"
  "getRtpTime (setSSRC w p) = getRtpTime p"
  "getSSRC (put_type t p) = getSSRC p"
  "getSSRC (setMarkerFlag i p) = getSSRC p"
  "getSSRC (setSequence s p) = getSSRC p"
  "getSSRC (setRtpTime w p) = getSSRC p"
  by (simp_all add: packet_fields)

lemma header_sizes [simp]:
  "packetAlloc (setVersion i p) = packetAlloc p" "packetAlloc (setPaddingFlag i p) = packetAlloc p"
  "packetAlloc (setExtFlag i p) = packetAlloc p" "packetAlloc (setCSRCcount i p) = packetAlloc p"
  "packetAlloc (setMarkerFlag i p) = packetAlloc p" "packetAlloc (put_type t p) = packetAlloc p"
  "packetAlloc (setSequence s p) = packetAlloc p" "packetAlloc (setRtpTime w p) = packetAlloc p"
  "packetAlloc (setSSRC w p) = packetAlloc p" "packetAlloc (zero_fill n p) = packetAlloc p"
  "packetAlloc (put_sequence x p) = packetAlloc p" "packetAlloc (put_timestamp w p) = packetAlloc p"
  "unusedSize (setVersion i p) = unusedSize p" "unusedSize (setPaddingFlag i p) = unusedSize p"
  "unusedSize (setExtFlag i p) = unusedSize p" "unusedSize (setCSRCcount i p) = unusedSize p"
  "unusedSize (setMarkerFlag i p) = unusedSize p" "unusedSize (put_type t p) = unusedSize p"
  "unusedSize (setSequence s p) = unusedSize p" "unusedSize (setRtpTime w p) = unusedSize p"
  "unusedSize (setSSRC w p) = unusedSize p" "unusedSize (put_sequence x p) = unusedSize p"
  "unusedSize (put_timestamp w p) = unusedSize p"
  by (simp_all add: packet_fields zero_fill_def)

section \<open>Sizes\<close>

lemma total_usage_split: "getTotalUsage p = 12 + 4 * getCSRCcount p + getPayloadUsage p"
  by (simp add: getTotalUsage_def getPayloadUsage_def getPayloadSize_def getPadbyteSize_def rtp_consts)

lemma getCSRCcount_bounds: "0 \<le> getCSRCcount p" "getCSRCcount p < 16"
proof -
  have "uint (get_field 0 4 b) < 2 ^ 4" for b :: octet
    using take_bit_int_less_exp [of 4 "uint b"] by (simp add: get_field_def unsigned_take_bit_eq)
  then show "getCSRCcount p < 16" by (simp add: getCSRCcount_def)
qed (simp add: getCSRCcount_def)

lemma getPayloadType_bounds: "0 \<le> getPayloadType p" "getPayloadType p \<le> 127"
proof -
  have "uint (get_field 0 7 b) < 2 ^ 7" for b :: octet
    using take_bit_int_less_exp [of 7 "uint b"] by (simp add: get_field_def unsigned_take_bit_eq)
  from this [of "packetData p ! 1"] show "getPayloadType p \<le> 127" by (simp add: getPayloadType_def)
qed (simp add: getPayloadType_def)

section \<open>Construction\<close>

text \<open>What \<open>clear\<close> leaves in the first twelve octets and in the size fields.\<close>

lemma clear_eq:
  assumes "wf_store p" "12 \<le> packetAlloc p" "packetAlloc p < int RTP_MTU"
  shows "clear p = Inr ((put_timestamp 0 (put_sequence 0 (put_type rtpPayloadUndefined (setMarkerFlag 0
          (setCSRCcount (csrc_count p) (setExtFlag 0
            (setPaddingFlag (if npadSize p > 0 then 1 else 0) (setVersion RTP_VERSION
              ((zero_fill (packetAlloc p) p)\<lparr>unusedSize := packetAlloc p - 12\<rparr>)))))))))
          \<lparr>sequenceSet := False, timestampSet := False,
           converted_to_nbo := False, converted_to_hbo := False\<rparr>)"
proof -
  have "nat (packetAlloc p) > 0" using assms by simp
  then have "getCSRCcount (zero_fill (packetAlloc p) p) = 0"
    by (simp add: getCSRCcount_def zero_fill_def get_field_def nth_append)
  then show ?thesis
    using assms by (simp add: clear_def setPayloadUsage_def getPayloadSize_def getPadbyteSize_def
        sizeof_RtpHeader_def sizeof_RtpSrc_def) (simp add: zero_fill_def)
qed

lemma new_RtpPacket_unused:
  assumes "wf_store p0" "0 \<le> csrc" "csrc \<le> 15" "0 \<le> n" "0 \<le> npad"
    and "12 + 4 * csrc + n + npad < int RTP_MTU"
  shows "new_RtpPacket p0 n npad csrc =
    (if csrc = 0 \<and> npad = 0
     then clear (p0\<lparr>csrc_count := 0, npadSize := 0, packetAlloc := 12 + n\<rparr>)
     else Inl AssertFailed)"
proof -
  let ?p = "p0\<lparr>csrc_count := csrc, npadSize := npad, packetAlloc := 12 + csrc * 4 + n + npad\<rparr>"
  have "wf_store ?p" "12 \<le> packetAlloc ?p" "packetAlloc ?p < int RTP_MTU"
    using assms by (simp_all add: wf_store_def)
  from clear_eq [OF this] show ?thesis
    using assms by (auto simp: new_RtpPacket_def setPadbyteSize_def recalcPacketAlloc_def
        sizeof_RtpHeader_def sizeof_RtpSrc_def algebra_simps)
qed

section \<open>Properties\<close>

lemma cut_bits_mod:
  assumes "n \<le> 8" shows "cut_bits n i = i mod 2 ^ n"
proof -
  have "(2 :: int) ^ n dvd 2 ^ 8" using assms by (intro le_imp_power_dvd)
  then show ?thesis
    by (simp add: cut_bits_def unsigned_take_bit_eq uint_word_of_int) (metis mod_mod_cancel take_bit_eq_mod)
qed

text \<open>The remaining pairs of fields, and what stands behind the header.\<close>

lemma header_frames_rest:
  "wf_store p \<Longrightarrow> getPaddingFlag (setVersion i p) = getPaddingFlag p"
  "wf_store p \<Longrightarrow> getPaddingFlag (setExtFlag i p) = getPaddingFlag p"
  "wf_store p \<Longrightarrow> getPaddingFlag (setCSRCcount i p) = getPaddingFlag p"
  "wf_store p \<Longrightarrow> getPaddingFlag (setMarkerFlag i p) = getPaddingFlag p"
  "wf_store p \<Longrightarrow> getPaddingFlag (put_type i p) = getPaddingFlag p"
  "wf_store p \<Longrightarrow> getPaddingFlag (setSequence s p) = getPaddingFlag p"
  "wf_store p \<Longrightarrow> getPaddingFlag (setRtpTime t p) = getPaddingFlag p"
  "wf_store p \<Longrightarrow> getPaddingFlag (setSSRC w p) = getPaddingFlag p"
  "wf_store p \<Longrightarrow> getExtFlag (setVersion i p) = getExtFlag p"
  "wf_store p \<Longrightarrow> getExtFlag (setPaddingFlag i p) = getExtFlag p"
  "wf_store p \<Longrightarrow> getExtFlag (setCSRCcount i p) = getExtFlag p"
  "wf_store p \<Longrightarrow> getExtFlag (setMarkerFlag i p) = getExtFlag p"
  "wf_store p \<Longrightarrow> getExtFlag (put_type i p) = getExtFlag p"
  "wf_store p \<Longrightarrow> getExtFlag (setSequence s p) = getExtFlag p"
  "wf_store p \<Longrightarrow> getExtFlag (setRtpTime t p) = getExtFlag p"
  "wf_store p \<Longrightarrow> getExtFlag (setSSRC w p) = getExtFlag p"
  "wf_store p \<Longrightarrow> getMarkerFlag (setVersion i p) = getMarkerFlag p"
  "wf_store p \<Longrightarrow> getMarkerFlag (setPaddingFlag i p) = getMarkerFlag p"
  "wf_store p \<Longrightarrow> getMarkerFlag (setExtFlag i p) = getMarkerFlag p"
  "wf_store p \<Longrightarrow> getMarkerFlag (setCSRCcount i p) = getMarkerFlag p"
  "wf_store p \<Longrightarrow> getMarkerFlag (setSequence s p) = getMarkerFlag p"
  "wf_store p \<Longrightarrow> getMarkerFlag (setRtpTime t p) = getMarkerFlag p"
  "wf_store p \<Longrightarrow> getMarkerFlag (setSSRC w p) = getMarkerFlag p"
  "wf_store p \<Longrightarrow> getPayloadType (setVersion i p) = getPayloadType p"
  "wf_store p \<Longrightarrow> getPayloadType (setPaddingFlag i p) = getPayloadType p"
  "wf_store p \<Longrightarrow> getPayloadType (setExtFlag i p) = getPayloadType p"
  "wf_store p \<Longrightarrow> getPayloadType (setCSRCcount i p) = getPayloadType p"
  "wf_store p \<Longrightarrow> getSequence (setVersion i p) = getSequence p"
  "wf_store p \<Longrightarrow> getSequence (setPaddingFlag i p) = getSequence p"
  "wf_store p \<Longrightarrow> getSequence (setExtFlag i p) = getSequence p"
  "wf_store p \<Longrightarrow> getSequence (setCSRCcount i p) = getSequence p"
  "wf_store p \<Longrightarrow> getRtpTime (setVersion i p) = getRtpTime p"
  "wf_store p \<Longrightarrow> getRtpTime (setPaddingFlag i p) = getRtpTime p"
  "wf_store p \<Longrightarrow> getRtpTime (setExtFlag i p) = getRtpTime p"
  "wf_store p \<Longrightarrow> getRtpTime (setCSRCcount i p) = getRtpTime p"
  "wf_store p \<Longrightarrow> getSSRC (setVersion i p) = getSSRC p"
  "wf_store p \<Longrightarrow> getSSRC (setPaddingFlag i p) = getSSRC p"
  "wf_store p \<Longrightarrow> getSSRC (setExtFlag i p) = getSSRC p"
  "wf_store p \<Longrightarrow> getSSRC (setCSRCcount i p) = getSSRC p"
  by (simp_all add: packet_fields)

lemma header_setters_rest:
  "drop 12 (packetData (setVersion i p)) = drop 12 (packetData p)"
  "drop 12 (packetData (setPaddingFlag i p)) = drop 12 (packetData p)"
  "drop 12 (packetData (setExtFlag i p)) = drop 12 (packetData p)"
  "drop 12 (packetData (setCSRCcount i p)) = drop 12 (packetData p)"
  "drop 12 (packetData (setMarkerFlag i p)) = drop 12 (packetData p)"
  "drop 12 (packetData (put_type i p)) = drop 12 (packetData p)"
  "drop 12 (packetData (setSequence s p)) = drop 12 (packetData p)"
  "drop 12 (packetData (setRtpTime t p)) = drop 12 (packetData p)"
  "drop 12 (packetData (setSSRC w p)) = drop 12 (packetData p)"
  by (simp_all add: packet_fields drop_update_cancel)

text \<open>The header as RFC 1889 lays it out, read off the octets: version, padding, extension and
  number of contributing sources in the first octet, marker and payload type in the second, then
  the sequence number, the timestamp and the source in network byte order.\<close>

record rtp_header =
  hd_version :: int
  hd_padding :: int
  hd_extension :: int
  hd_sources :: int
  hd_marker :: int
  hd_type :: int
  hd_sequence :: int
  hd_time :: int
  hd_ssrc :: int
  hd_rest :: "octet list"

primrec network_order :: "octet list \<Rightarrow> int \<Rightarrow> int" where
  "network_order [] n = n"
| "network_order (b # bs) n = network_order bs (256 * n + uint b)"

definition wire_header :: "octet list \<Rightarrow> rtp_header" where
  "wire_header d = \<lparr>
     hd_version = uint (d ! 0) div 64, hd_padding = uint (d ! 0) div 32 mod 2,
     hd_extension = uint (d ! 0) div 16 mod 2, hd_sources = uint (d ! 0) mod 16,
     hd_marker = uint (d ! 1) div 128, hd_type = uint (d ! 1) mod 128,
     hd_sequence = network_order [d ! 2, d ! 3] 0,
     hd_time = network_order [d ! 4, d ! 5, d ! 6, d ! 7] 0,
     hd_ssrc = network_order [d ! 8, d ! 9, d ! 10, d ! 11] 0,
     hd_rest = drop 12 d \<rparr>"

lemma uint_div_mod:
  fixes w :: "'a :: len word"
  shows "uint w div k < n \<Longrightarrow> 0 \<le> k \<Longrightarrow> uint w div k mod n = uint w div k"
    "uint w < n \<Longrightarrow> uint w mod n = uint w"
  by (simp_all add: mod_pos_pos_trivial div_int_pos_iff)

lemma uint_take_length:
  fixes w :: "'a :: len word"
  shows "take_bit LENGTH('a) (uint w) = uint w" "take_bit 8 (uint (b :: octet)) = uint b"
  using take_bit_int_eq_self [OF uint_nonnegative uint_bounded [of w]]
    take_bit_int_eq_self [OF uint_nonnegative uint_bounded [of b]] by simp_all

lemma octet_parts:
  fixes b :: octet
  shows "uint (get_field 6 2 b) = uint b div 64" "uint (get_field 5 1 b) = uint b div 32 mod 2"
    "uint (get_field 4 1 b) = uint b div 16 mod 2" "uint (get_field 0 4 b) = uint b mod 16"
    "uint (get_field 7 1 b) = uint b div 128" "uint (get_field 0 7 b) = uint b mod 128"
proof -
  have "uint b < 256" using uint_bounded [of b] by simp
  then have top: "uint b div 64 < 4" "uint b div 128 < 2" by auto
  have "uint (get_field k n b) = take_bit n (drop_bit k (uint b))" for k n
    by (simp add: get_field_def unsigned_take_bit_eq unsigned_drop_bit_eq uint_take_length)
  then have f: "uint (get_field k n b) = uint b div 2 ^ k mod 2 ^ n" for k n
    by (simp add: take_bit_eq_mod drop_bit_eq_div)
  show "uint (get_field 6 2 b) = uint b div 64" "uint (get_field 5 1 b) = uint b div 32 mod 2"
    "uint (get_field 4 1 b) = uint b div 16 mod 2" "uint (get_field 0 4 b) = uint b mod 16"
    "uint (get_field 7 1 b) = uint b div 128" "uint (get_field 0 7 b) = uint b mod 128"
    using top by (simp_all add: f uint_div_mod)
qed

lemma uint16_top: "uint (w :: u16) div 256 mod 256 = uint w div 256" "uint w mod 65536 = uint w"
proof -
  have w: "uint w < 65536" using uint_bounded [of w] by simp
  then have "uint w div 256 < 256" by auto
  then show "uint w div 256 mod 256 = uint w div 256" by (simp add: uint_div_mod)
  show "uint w mod 65536 = uint w" using w by simp
qed

lemma uint32_top: "uint (w :: u32) div 16777216 mod 256 = uint w div 16777216"
proof -
  have "uint w < 4294967296" using uint_bounded [of w] by simp
  then have "uint w div 16777216 < 256" by auto
  then show ?thesis by (simp add: uint_div_mod)
qed

lemma uint_octet:
  fixes w :: "'a :: len word"
  shows "uint (ucast (drop_bit n w) :: octet) = uint w div 2 ^ n mod 256"
    "uint (ucast w :: octet) = uint w mod 256"
proof -
  have "uint (ucast v :: octet) = take_bit 8 (uint v)" for v :: "'a word"
    by (simp add: unsigned_ucast_eq)
  moreover have "uint (drop_bit n w) = drop_bit n (uint w)"
    by (simp add: unsigned_drop_bit_eq uint_take_length)
  ultimately show "uint (ucast (drop_bit n w) :: octet) = uint w div 2 ^ n mod 256"
    "uint (ucast w :: octet) = uint w mod 256"
    by (simp_all add: take_bit_eq_mod drop_bit_eq_div)
qed

lemma network_order_be:
  "network_order (be16 v) 0 = uint v" "network_order (be32 w) 0 = uint w"
proof -
  have g: "256 * (x div 256) + x mod 256 = x" for x :: int by simp
  have "network_order (be16 v) 0 = 256 * (uint v div 256) + uint v mod 256"
    unfolding be16_def network_order.simps uint_octet(1) uint_octet(2) [of v] using uint16_top(1) [of v] by simp
  then show "network_order (be16 v) 0 = uint v" by (simp only: g)
  define x where "x = uint w"
  have top: "x div 16777216 mod 256 = x div 16777216" using uint32_top [of w] by (simp add: x_def)
  have d: "x div 65536 = x div 256 div 256" "x div 16777216 = x div 256 div 256 div 256"
    using zdiv_zmult2_eq [of 256 x 256] zdiv_zmult2_eq [of 256 "x div 256" 256] zdiv_zmult2_eq [of 65536 x 256]
    by simp_all
  have "network_order (be32 w) 0 = 256 * (256 * (256 * (x div 16777216 mod 256) + x div 65536 mod 256) + x div 256 mod 256) + x mod 256"
    unfolding be32_def network_order.simps uint_octet(1) uint_octet(2) [of w] x_def by simp
  then show "network_order (be32 w) 0 = uint w"
    unfolding top unfolding d by (simp only: g x_def)
qed

lemma octets_in_order:
  "uint (ucast (get16 a b) :: u32) = network_order [a, b] 0"
  "uint (get32 a b c d) = network_order [a, b, c, d] 0"
proof -
  have "uint (get16 a b) < 4294967296" using uint_bounded [of "get16 a b"] by simp
  then have "uint (ucast (get16 a b) :: u32) = uint (get16 a b)"
    by (simp add: unsigned_ucast_eq take_bit_eq_mod uint_div_mod)
  then show "uint (ucast (get16 a b) :: u32) = network_order [a, b] 0"
    "uint (get32 a b c d) = network_order [a, b, c, d] 0"
    using network_order_be(1) [of "get16 a b"] network_order_be(2) [of "get32 a b c d"]
    unfolding be16_get16 be32_get32 by simp_all
qed

text \<open>The getters read the fields of that layout.\<close>

lemma wire_header_getters:
  "wire_header (packetData p) = \<lparr>
     hd_version = getVersion p, hd_padding = getPaddingFlag p, hd_extension = getExtFlag p,
     hd_sources = getCSRCcount p, hd_marker = getMarkerFlag p, hd_type = getPayloadType p,
     hd_sequence = uint (getSequence p), hd_time = uint (getRtpTime p), hd_ssrc = uint (getSSRC p),
     hd_rest = drop 12 (packetData p) \<rparr>"
  by (simp add: wire_header_def getVersion_def getPaddingFlag_def getExtFlag_def getCSRCcount_def
      getMarkerFlag_def getPayloadType_def getSequence_def getRtpTime_def getSSRC_def octets_in_order
      octet_parts [simplified])

text \<open>C32: The RTP header is written and read as RFC 1889 lays it out. On packet storage of the
  right size each of the nine setters changes exactly its own field of the octets, to the value
  cut to the width of the field, and leaves the other eight fields and everything behind the
  header as they were; and each of the nine getters reads its own field.\<close>

theorem header_fields_independent:
  assumes p: "wf_store p"
  shows "wire_header (packetData (setVersion i p)) = (wire_header (packetData p))\<lparr>hd_version := i mod 4\<rparr> \<and>
    wire_header (packetData (setPaddingFlag i p)) = (wire_header (packetData p))\<lparr>hd_padding := i mod 2\<rparr> \<and>
    wire_header (packetData (setExtFlag i p)) = (wire_header (packetData p))\<lparr>hd_extension := i mod 2\<rparr> \<and>
    wire_header (packetData (setCSRCcount i p)) = (wire_header (packetData p))\<lparr>hd_sources := i mod 16\<rparr> \<and>
    wire_header (packetData (setMarkerFlag i p)) = (wire_header (packetData p))\<lparr>hd_marker := i mod 2\<rparr> \<and>
    wire_header (packetData (put_type i p)) = (wire_header (packetData p))\<lparr>hd_type := i mod 128\<rparr> \<and>
    wire_header (packetData (setSequence s p)) = (wire_header (packetData p))\<lparr>hd_sequence := uint s mod 65536\<rparr> \<and>
    wire_header (packetData (setRtpTime t p)) = (wire_header (packetData p))\<lparr>hd_time := uint t\<rparr> \<and>
    wire_header (packetData (setSSRC w p)) = (wire_header (packetData p))\<lparr>hd_ssrc := uint w\<rparr> \<and>
    wire_header (packetData p) = \<lparr>
      hd_version = getVersion p, hd_padding = getPaddingFlag p, hd_extension = getExtFlag p,
      hd_sources = getCSRCcount p, hd_marker = getMarkerFlag p, hd_type = getPayloadType p,
      hd_sequence = uint (getSequence p), hd_time = uint (getRtpTime p), hd_ssrc = uint (getSSRC p),
      hd_rest = drop 12 (packetData p) \<rparr>"
proof -
  have "uint (ucast (ucast s :: u16) :: u32) = take_bit 16 (uint s)"
    by (simp add: unsigned_ucast_eq unsigned_take_bit_eq)
  then have s: "uint (ucast (ucast s :: u16) :: u32) = uint s mod 65536"
    by (simp add: take_bit_eq_mod)
  show ?thesis
    unfolding wire_header_getters
    using p by (simp add: version.get_put padding.get_put extension.get_put csrccount.get_put marker.get_put
        ptype.get_put seqno.get_put timestamp.get_put ssrc.get_put cut_bits_mod header_frames_rest
        header_setters_rest s)
qed

definition zero_packet :: RtpPacket where
  "zero_packet = \<lparr>sequenceSet = False, timestampSet = False, converted_to_nbo = False,
     converted_to_hbo = False, is_silence_fill = False, npadSize = 0, csrc_count = 0,
     packetData = replicate RTP_MTU 0, packetAlloc = 0, unusedSize = 0\<rparr>"

lemma zero_packet_store: "wf_store zero_packet"
  by (simp add: zero_packet_def wf_store_def)

theorem header_fields_independent_witness:
  "wire_header (packetData (setVersion 6 zero_packet)) = (wire_header (packetData zero_packet))\<lparr>hd_version := 6 mod 4\<rparr> \<and>
   wire_header (packetData (put_type 200 zero_packet)) = (wire_header (packetData zero_packet))\<lparr>hd_type := 200 mod 128\<rparr> \<and>
   wire_header (packetData (setSequence 70000 zero_packet)) = (wire_header (packetData zero_packet))\<lparr>hd_sequence := uint (70000 :: u32) mod 65536\<rparr>"
  using header_fields_independent [OF zero_packet_store, of 6] header_fields_independent [OF zero_packet_store, of 200]
    header_fields_independent [OF zero_packet_store, where s = 70000] by blast

text \<open>The constructor of \<open>RtpPacket\<close> with sizes that fit the storage succeeds exactly when no
  contributing sources and no padding are asked for; it then leaves a cleared packet whose whole
  payload is unused. With either of them it stops in its own assertion, because the payload size
  is taken before the number of sources is stored in the header.\<close>

theorem new_RtpPacket_succeeds_iff:
  assumes "wf_store p0" "0 \<le> csrc" "csrc \<le> 15" "0 \<le> n" "0 \<le> npad" "12 + 4 * csrc + n + npad < int RTP_MTU"
  shows "((\<exists>p. new_RtpPacket p0 n npad csrc = Inr p \<and> unusedSize p = n) \<longleftrightarrow> csrc = 0 \<and> npad = 0) \<and>
    (new_RtpPacket p0 n npad csrc = Inl AssertFailed \<longleftrightarrow> csrc > 0 \<or> npad > 0)"
proof -
  let ?p = "p0\<lparr>csrc_count := 0, npadSize := 0, packetAlloc := 12 + n\<rparr>"
  have "\<exists>p. clear ?p = Inr p \<and> unusedSize p = n" if "csrc = 0" "npad = 0"
    using clear_eq [of ?p] assms that by (simp add: wf_store_def)
  then show ?thesis
    unfolding new_RtpPacket_unused [OF assms] using assms(2,5) by auto
qed

theorem new_RtpPacket_succeeds_iff_witness:
  "((\<exists>p. new_RtpPacket zero_packet 160 0 1 = Inr p \<and> unusedSize p = 160) \<longleftrightarrow> (1 :: int) = 0 \<and> (0 :: int) = 0) \<and>
    (new_RtpPacket zero_packet 160 0 1 = Inl AssertFailed \<longleftrightarrow> (1 :: int) > 0 \<or> (0 :: int) > 0)"
  by (rule new_RtpPacket_succeeds_iff) (simp_all add: zero_packet_store RTP_MTU_def)

end
