(* ===== verification/Rtp_Tools.thy ===== *)
theory Rtp_Tools
  imports Vocal_Prelude
begin

text \<open>
  The sequence number and timestamp comparisons of \<open>rtp/rtpTools.cxx\<close>, with the constants of
  \<open>rtp/rtpTypes.h\<close>. \<open>RtpSeqNumber\<close> and \<open>RtpTime\<close> are 32-bit unsigned integers in the code,
  and so they are here; the difference is computed in unsigned arithmetic and converted to
  \<open>int\<close>, as the C++ does. The function \<open>seq_dist\<close> is the reference the comparison is
  measured against: the signed distance of two 16-bit counters on the circle.
\<close>

definition RTP_SEQ_MOD :: u32 where
  "RTP_SEQ_MOD = push_bit 16 1"

definition RTP_TIME_MOD :: u32 where
  "RTP_TIME_MOD = 0xFFFFFFFF"

definition RtpSeqDifference :: "u32 \<Rightarrow> u32 \<Rightarrow> int outcome" where
  "RtpSeqDifference a b =
     oassert (a \<le> RTP_SEQ_MOD) (oassert (b \<le> RTP_SEQ_MOD) (Inr
       (if a = b then 0
        else if b < a then
          (if drop_bit 1 RTP_SEQ_MOD < a - b
           then sint (- ((RTP_SEQ_MOD - a) + b))
           else sint (a - b))
        else
          (if drop_bit 1 RTP_SEQ_MOD < b - a
           then sint (a + (RTP_SEQ_MOD - b))
           else sint (- (b - a))))))"

definition RtpSeqGreater :: "u32 \<Rightarrow> u32 \<Rightarrow> bool outcome" where
  "RtpSeqGreater a b = obind (RtpSeqDifference a b) (\<lambda>d. Inr (0 < d))"

definition RtpTimeGreater :: "u32 \<Rightarrow> u32 \<Rightarrow> bool outcome" where
  "RtpTimeGreater a b =
     oassert (a \<le> RTP_TIME_MOD) (oassert (b \<le> RTP_TIME_MOD) (Inr
       (if a = b then False
        else if b < a then
          (if drop_bit 1 RTP_TIME_MOD < a - b then False else True)
        else
          (if drop_bit 1 RTP_TIME_MOD < b - a then True else False))))"

section \<open>The reference: signed distance of 16-bit counters\<close>

definition wrap16 :: "int \<Rightarrow> int" where
  "wrap16 d = (if 32768 < d then d - 65536 else if d < -32768 then d + 65536 else d)"

definition seq_dist :: "u16 \<Rightarrow> u16 \<Rightarrow> int" where
  "seq_dist a b = wrap16 (uint a - uint b)"

lemma uint16_bounds: "0 \<le> uint (a :: u16)" "uint (a :: u16) < 65536"
  using uint_bounded [of a] by simp_all

lemma uint32_bounds: "0 \<le> uint (a :: u32)" "uint (a :: u32) < 4294967296"
  using uint_bounded [of a] by simp_all

lemma wrap16_facts:
  assumes "0 \<le> x" "x < 65536" "0 \<le> y" "y < (65536 :: int)"
  shows "-32768 \<le> wrap16 (x - y)" "wrap16 (x - y) \<le> 32768"
    and "(y + wrap16 (x - y)) mod 65536 = x"
    and "wrap16 (x - y) = - wrap16 (y - x)"
    and "wrap16 (x - y) = 0 \<longleftrightarrow> x = y"
  using assms by (auto simp: wrap16_def)

lemma wrap16_ahead:
  assumes "0 \<le> y" "y < 65536" "0 \<le> k" "k < (32768 :: int)"
  shows "wrap16 ((y + k) mod 65536 - y) = k"
proof (cases "y + k < 65536")
  case True
  with assms show ?thesis by (simp add: wrap16_def)
next
  case False
  with assms have "(y + k) mod 65536 = y + k - 65536"
    using mod_pos_pos_trivial [of "y + k - 65536" 65536] by (simp add: minus_mod_self2)
  with assms False show ?thesis by (simp add: wrap16_def)
qed

lemmas seq_dist_facts =
  wrap16_facts [OF uint16_bounds uint16_bounds, folded seq_dist_def]

lemmas seq_dist_range = seq_dist_facts(1,2)
lemmas seq_dist_mod = seq_dist_facts(3)
lemmas seq_dist_antisym = seq_dist_facts(4)

lemma seq_dist_eq_0 [simp]: "seq_dist a b = 0 \<longleftrightarrow> a = b"
  by (simp add: seq_dist_facts(5) word_uint_eq_iff)

lemma uint_add_small16:
  "0 \<le> k \<Longrightarrow> uint (a + word_of_int k :: u16) = (uint a + k) mod 65536"
  by (simp add: uint_word_ariths uint_word_of_int mod_simps)

lemma seq_dist_ahead:
  assumes "0 \<le> k" "k < 32768"
  shows "seq_dist (a + word_of_int k) a = k"
  using assms wrap16_ahead [OF uint16_bounds assms] by (simp add: seq_dist_def uint_add_small16)

lemma seq_dist_step:
  assumes "0 \<le> seq_dist a b"
  shows "a = b + word_of_int (seq_dist a b)"
proof -
  have "uint a = uint (b + word_of_int (seq_dist a b))"
    unfolding uint_add_small16 [OF assms] by (rule seq_dist_mod [symmetric])
  then show ?thesis by (simp add: word_uint_eq_iff)
qed

section \<open>The code computes the reference\<close>

lemma sint32_of_int:
  assumes "-2147483648 \<le> k" "k < 2147483648"
  shows "sint (word_of_int k :: u32) = k"
proof -
  have "sint (word_of_int k :: u32) = signed_take_bit 31 k"
    by (simp add: signed_of_int)
  then show ?thesis
    using assms by (simp add: signed_take_bit_int_eq_self)
qed

lemma uint32_of_int: "0 \<le> k \<Longrightarrow> k < 4294967296 \<Longrightarrow> uint (word_of_int k :: u32) = k"
  by (simp add: uint_word_of_int)

lemma ucast16_of_int: "ucast (a :: u16) = (word_of_int (uint a) :: u32)"
  by (simp add: unsigned_ucast_eq word_of_int_uint)

lemma RTP_SEQ_MOD_eq: "RTP_SEQ_MOD = 65536" "drop_bit 1 RTP_SEQ_MOD = 32768"
  by (simp_all add: RTP_SEQ_MOD_def)

lemma word_of_int32_compare:
  assumes "0 \<le> x" "x < 4294967296" "0 \<le> y" "y < 4294967296"
  shows "(word_of_int x :: u32) = word_of_int y \<longleftrightarrow> x = y"
    and "(word_of_int x :: u32) < word_of_int y \<longleftrightarrow> x < y"
    and "(word_of_int x :: u32) \<le> word_of_int y \<longleftrightarrow> x \<le> y"
  using assms by (simp_all add: word_uint_eq_iff word_less_def word_le_def uint32_of_int)

lemma RtpSeqDifference_of_int:
  assumes x: "0 \<le> x" "x < 65536" and y: "0 \<le> y" "y < 65536"
  shows "RtpSeqDifference (word_of_int x) (word_of_int y) = Inr (wrap16 (x - y))"
proof -
  have le: "(word_of_int x :: u32) \<le> 65536" "(word_of_int y :: u32) \<le> 65536"
    using x y word_of_int32_compare(3) [of _ 65536] by simp_all
  have cmp: "(word_of_int x :: u32) = word_of_int y \<longleftrightarrow> x = y"
      "(word_of_int y :: u32) < word_of_int x \<longleftrightarrow> y < x"
    using x y by (simp_all add: word_of_int32_compare)
  have half: "(32768 < (word_of_int x - word_of_int y :: u32)) \<longleftrightarrow> 32768 < x - y" if "y < x"
    using that x y word_of_int32_compare(2) [of 32768 "x - y"] by simp
  have half': "(32768 < (word_of_int y - word_of_int x :: u32)) \<longleftrightarrow> 32768 < y - x" if "x < y"
    using that x y word_of_int32_compare(2) [of 32768 "y - x"] by simp
  have s: "sint (word_of_int x - word_of_int y :: u32) = x - y"
      "sint (word_of_int x - 65536 - word_of_int y :: u32) = x - 65536 - y"
      "sint (word_of_int x + (65536 - word_of_int y) :: u32) = x + (65536 - y)"
    using x y sint32_of_int [of "x - y"] sint32_of_int [of "x - 65536 - y"]
      sint32_of_int [of "x + (65536 - y)"] by simp_all
  consider "x = y" | "y < x" | "x < y" by linarith
  then show ?thesis
    by cases (auto simp: RtpSeqDifference_def RTP_SEQ_MOD_eq le cmp half half' s wrap16_def)
qed

lemma RtpSeqDifference_seq_dist [simp]:
  "RtpSeqDifference (ucast a) (ucast b) = Inr (seq_dist a b)"
  unfolding ucast16_of_int seq_dist_def by (rule RtpSeqDifference_of_int) (rule uint16_bounds)+

lemma RtpSeqGreater_seq_dist [simp]:
  "RtpSeqGreater (ucast a) (ucast b) = Inr (0 < seq_dist a b)"
  by (simp add: RtpSeqGreater_def)

section \<open>Timestamps\<close>

lemma RtpTimeGreater_iff:
  "RtpTimeGreater a b = Inr (a \<noteq> b \<and> (if b < a then uint (a - b) < 2 ^ 31 else 2 ^ 31 \<le> uint (b - a)))"
proof -
  have top: "x \<le> RTP_TIME_MOD" for x :: u32
    using uint32_bounds [of x] by (simp add: RTP_TIME_MOD_def word_le_def)
  have half: "drop_bit (Suc 0) RTP_TIME_MOD < x \<longleftrightarrow> 2 ^ 31 \<le> uint x" for x :: u32
    by (simp add: RTP_TIME_MOD_def word_less_def) linarith
  show ?thesis by (auto simp: RtpTimeGreater_def top half)
qed

lemma uint32_minus:
  assumes "0 < k" "k < 2 ^ 32"
  shows "uint (- word_of_int k :: u32) = 2 ^ 32 - k"
  using assms by (simp add: uint_word_ariths uint32_of_int zmod_zminus1_eq_if)

lemma RtpTimeGreater_ahead:
  assumes "0 < k" "k < 2 ^ 31"
  shows "RtpTimeGreater (b + word_of_int k) b = Inr True"
proof -
  let ?a = "b + word_of_int k"
  have "uint (?a - b) = k" "uint (b - ?a) = 2 ^ 32 - k"
    using assms by (simp_all add: uint32_of_int uint32_minus)
  moreover from this(1) assms have "?a \<noteq> b" by auto
  ultimately show ?thesis
    unfolding RtpTimeGreater_iff using assms by simp
qed

lemma RtpTimeGreater_not_ahead:
  assumes "0 \<le> k" "k < 2 ^ 31"
  shows "RtpTimeGreater b (b + word_of_int k) = Inr False"
proof (cases "k = 0")
  case False
  let ?a = "b + word_of_int k"
  have "uint (?a - b) = k" "uint (b - ?a) = 2 ^ 32 - k"
    using assms False by (simp_all add: uint32_of_int uint32_minus)
  then show ?thesis
    unfolding RtpTimeGreater_iff using assms by simp
qed (simp add: RtpTimeGreater_iff)

section \<open>Properties\<close>

text \<open>\<open>RtpSeqDifference\<close> and \<open>RtpSeqGreater\<close> on two 16-bit sequence numbers never fail an
  assertion; the difference is the signed distance on the circle of \<open>2 ^ 16\<close> numbers: adding it
  to the second number gives the first, its size is at most \<open>2 ^ 15\<close>, swapping the arguments
  negates it, and a number is greater exactly when the distance is positive.\<close>

theorem RtpSeqDifference_circle:
  "\<exists>d. RtpSeqDifference (ucast a) (ucast b) = Inr d \<and> RtpSeqDifference (ucast b) (ucast a) = Inr (- d) \<and>
     (a :: u16) = b + word_of_int d \<and> \<bar>d\<bar> \<le> 32768 \<and> RtpSeqGreater (ucast a) (ucast b) = Inr (0 < d)"
proof -
  let ?d = "seq_dist a b"
  have "a = b + word_of_int ?d"
  proof (cases "0 \<le> ?d")
    case True
    then show ?thesis by (rule seq_dist_step)
  next
    case False
    then have "0 \<le> seq_dist b a" using seq_dist_antisym [of b a] by simp
    then have "b = a + word_of_int (seq_dist b a)" by (rule seq_dist_step)
    then have "b = a - word_of_int ?d" using seq_dist_antisym [of b a] by simp
    then show ?thesis by (metis diff_add_cancel)
  qed
  moreover have "\<bar>?d\<bar> \<le> 32768" using seq_dist_range [of a b] by simp
  moreover have "RtpSeqDifference (ucast b) (ucast a) = Inr (- ?d)" using seq_dist_antisym [of a b] by simp
  ultimately show ?thesis by (intro exI [of _ ?d]) simp
qed

text \<open>\<open>RtpTimeGreater\<close> compares timestamps on the circle of \<open>2 ^ 32\<close>: a timestamp that lies less
  than half the circle ahead of another is greater than it, and the other is not greater, also
  when the counter wraps in between.\<close>

theorem RtpTimeGreater_circle:
  assumes "0 < k" "k < 2 ^ 31"
  shows "RtpTimeGreater (b + word_of_int k) b = Inr True \<and> RtpTimeGreater b (b + word_of_int k) = Inr False"
  using RtpTimeGreater_ahead [OF assms] RtpTimeGreater_not_ahead [of k b] assms by simp

theorem RtpTimeGreater_circle_witness:
  "RtpTimeGreater (4294967290 + word_of_int 160) 4294967290 = Inr True \<and>
   RtpTimeGreater 4294967290 (4294967290 + word_of_int 160) = Inr False"
  by (rule RtpTimeGreater_circle) simp_all

end
