(* ===== verification/Jitter_Buffer.thy ===== *)
theory Jitter_Buffer
  imports Rtp_Packet Rtp_Tools
begin

text \<open>
  The jitter buffer inside \<open>rtp/RtpReceiver.cxx\<close>: an array of \<open>JITTER_BUFFER_MAX\<close> pointers
  of which the first \<open>cur_max_jbs\<close> form a ring, written at \<open>inPos\<close> and played at
  \<open>playPos\<close>. The fields are a record of their own, which the receiver extends. Positions
  are natural numbers: they stay below \<open>cur_max_jbs\<close>, so the code's unsigned arithmetic on
  them never wraps. An access outside the array, a null pointer and the remainder by a zero
  buffer size are outcomes of the model.

  \<open>jb_inv\<close> is the consistency that \<open>verifyJbSanity\<close> asserts at run time, and \<open>jb_list\<close>
  reads the ring as the queue of entries from the next one to play to the last one received.
  The lemmas show what every operation does to that queue, and \<open>verifyJbSanity_iff\<close> that the
  run-time check succeeds exactly on the states with the invariant.
\<close>

section \<open>Entries\<close>

definition MAX_RTP_DATA :: nat where "MAX_RTP_DATA = 2048"
definition JITTER_BUFFER_MAX :: nat where "JITTER_BUFFER_MAX = 1024"

text \<open>
  The payload array is represented by its first \<open>len\<close> octets: nothing beyond them is ever
  read.
\<close>

record RtpData =
  rd_data :: "octet list"
  rd_silence_fill :: bool
  rd_in_use :: bool
  rtp_seq_no :: u32
  rtp_time :: u32

definition new_RtpData :: RtpData where
  "new_RtpData = \<lparr>rd_data = [], rd_silence_fill = False, rd_in_use = False,
     rtp_seq_no = 0, rtp_time = 0\<rparr>"

definition setData :: "octet list \<Rightarrow> RtpData \<Rightarrow> RtpData outcome" where
  "setData bs d = oassert (length bs \<le> MAX_RTP_DATA) (Inr (d\<lparr>rd_data := bs\<rparr>))"

section \<open>The ring\<close>

record JitterBuffer =
  inPos :: nat
  playPos :: nat
  cur_max_jbs :: nat
  jitterBuffer :: "RtpData option list"

definition jb_slot :: "'a JitterBuffer_scheme \<Rightarrow> nat \<Rightarrow> RtpData option outcome" where
  "jb_slot r i = (if i < length (jitterBuffer r) then Inr (jitterBuffer r ! i) else Inl OutOfBounds)"

definition jb_store :: "'a JitterBuffer_scheme \<Rightarrow> nat \<Rightarrow> RtpData \<Rightarrow> 'a JitterBuffer_scheme" where
  "jb_store r i d = r\<lparr>jitterBuffer := (jitterBuffer r)[i := Some d]\<rparr>"

definition slot_in_use :: "RtpData option \<Rightarrow> bool" where
  "slot_in_use s = (case s of None \<Rightarrow> False | Some d \<Rightarrow> rd_in_use d)"

definition clearJitterBuffer :: "'a JitterBuffer_scheme \<Rightarrow> 'a JitterBuffer_scheme" where
  "clearJitterBuffer r = r\<lparr>jitterBuffer := replicate JITTER_BUFFER_MAX None,
     inPos := 0, playPos := 0\<rparr>"

definition incrementInPos :: "'a JitterBuffer_scheme \<Rightarrow> 'a JitterBuffer_scheme" where
  "incrementInPos r = r\<lparr>inPos := (if Suc (inPos r) \<ge> cur_max_jbs r then 0 else Suc (inPos r))\<rparr>"

definition incrementPlayPos :: "'a JitterBuffer_scheme \<Rightarrow> 'a JitterBuffer_scheme" where
  "incrementPlayPos r = r\<lparr>playPos := (if Suc (playPos r) \<ge> cur_max_jbs r then 0 else Suc (playPos r))\<rparr>"

definition calculatePreviousInPos :: "int \<Rightarrow> 'a JitterBuffer_scheme \<Rightarrow> nat outcome" where
  "calculatePreviousInPos packets_ago r =
     (if cur_max_jbs r = 0 then Inl DivByZero
      else let tmp = nat (packets_ago mod 2 ^ 32) mod cur_max_jbs r in
        if tmp > inPos r then Inr (cur_max_jbs r - (tmp - inPos r))
        else Inr (inPos r - tmp))"

definition getJitterPktsInQueueCount :: "'a JitterBuffer_scheme \<Rightarrow> nat outcome" where
  "getJitterPktsInQueueCount r =
     (if inPos r = playPos r then
        obind (jb_slot r (inPos r)) (\<lambda>s. if slot_in_use s then Inr (cur_max_jbs r) else Inr 0)
      else if inPos r < playPos r then Inr ((cur_max_jbs r - playPos r) + inPos r)
      else Inr (inPos r - playPos r))"

definition getLastRtpData :: "'a JitterBuffer_scheme \<Rightarrow> RtpData option outcome" where
  "getLastRtpData r = obind (getJitterPktsInQueueCount r) (\<lambda>c.
     if c > 0 then obind (calculatePreviousInPos 1 r) (jb_slot r) else Inr None)"

text \<open>The octets of the payload, as \<open>memcpy\<close> reads them from the packet.\<close>

definition payload :: "RtpPacket \<Rightarrow> octet list outcome" where
  "payload pkt = mem_read (getPayloadLoc pkt) (nat (getPayloadUsage pkt)) (packetData pkt)"

definition fill_slot :: "RtpPacket \<Rightarrow> RtpData \<Rightarrow> RtpData outcome" where
  "fill_slot pkt d = obind (payload pkt) (\<lambda>bs. obind (setData bs d) (\<lambda>d.
     Inr (d\<lparr>rd_silence_fill := False, rd_in_use := True,
       rtp_time := getRtpTime pkt, rtp_seq_no := getSequence pkt\<rparr>)))"

definition setRtpData :: "RtpPacket \<Rightarrow> nat \<Rightarrow> 'a JitterBuffer_scheme \<Rightarrow> 'a JitterBuffer_scheme outcome" where
  "setRtpData pkt idx r =
     obind (jb_slot r idx) (\<lambda>s.
      let d = (case s of None \<Rightarrow> new_RtpData | Some d \<Rightarrow> d);
          r = jb_store r idx d in
      obind (if rd_in_use d then
               obind (getJitterPktsInQueueCount r) (\<lambda>c.
                 if c = cur_max_jbs r \<and> playPos r = idx then
                   (if rtp_seq_no d = getSequence pkt then Inr r else Inr (incrementPlayPos r))
                 else Inr r)
             else Inr r) (\<lambda>r.
      obind (fill_slot pkt d) (\<lambda>d. Inr (jb_store r idx d))))"

definition appendRtpData :: "RtpPacket \<Rightarrow> 'a JitterBuffer_scheme \<Rightarrow> 'a JitterBuffer_scheme outcome" where
  "appendRtpData pkt r = obind (setRtpData pkt (inPos r) r) (\<lambda>r. Inr (incrementInPos r))"

definition insertSilenceRtpData :: "u32 \<Rightarrow> u16 \<Rightarrow> 'a JitterBuffer_scheme \<Rightarrow> 'a JitterBuffer_scheme outcome" where
  "insertSilenceRtpData time seq r =
     obind (jb_slot r (inPos r)) (\<lambda>s.
      let d = (case s of None \<Rightarrow> new_RtpData | Some d \<Rightarrow> d);
          r = jb_store r (inPos r) d in
      obind (if rd_in_use d then
               obind (getJitterPktsInQueueCount r) (\<lambda>c.
                 if c = cur_max_jbs r then Inr (incrementPlayPos r) else Inr r)
             else Inr r) (\<lambda>r.
      Inr (incrementInPos (jb_store r (inPos r)
        (d\<lparr>rd_silence_fill := True, rd_in_use := True, rtp_time := time,
           rtp_seq_no := ucast seq\<rparr>)))))"

section \<open>The run-time check\<close>

definition jb_used :: "'a JitterBuffer_scheme \<Rightarrow> nat \<Rightarrow> bool outcome" where
  "jb_used r i = obind (jb_slot r i) (\<lambda>s. Inr (slot_in_use s))"

definition verifyJbSanity :: "'a JitterBuffer_scheme \<Rightarrow> unit outcome" where
  "verifyJbSanity r =
     obind (getJitterPktsInQueueCount r) (\<lambda>cnt.
      obind (if cnt > 0 then obind (jb_used r (playPos r)) (\<lambda>b. oassert b (Inr ())) else Inr ()) (\<lambda>_.
       if cnt = cur_max_jbs r then ocheck (jb_used r) [0..<cnt]
       else
         obind (ocheck (\<lambda>q.
             let i = int (inPos r) - int q - 1;
                 i = (if i < 0 then i + int (cur_max_jbs r) else i)
             in jb_used r (nat i)) [0..<cnt]) (\<lambda>_.
           ocheck (\<lambda>q.
             let i = inPos r + q;
                 i = (if i \<ge> cur_max_jbs r then i - cur_max_jbs r else i)
             in obind (jb_used r i) (\<lambda>b. Inr (\<not> b))) [0..<cur_max_jbs r - cnt])))"

section \<open>The invariant and the queue it represents\<close>

definition slot_used :: "'a JitterBuffer_scheme \<Rightarrow> nat \<Rightarrow> bool" where
  "slot_used r i = slot_in_use (jitterBuffer r ! i)"

definition ring_at :: "'a JitterBuffer_scheme \<Rightarrow> nat \<Rightarrow> nat" where
  "ring_at r k = (playPos r + k) mod cur_max_jbs r"

definition jb_count :: "'a JitterBuffer_scheme \<Rightarrow> nat" where
  "jb_count r =
     (if inPos r = playPos r then (if slot_used r (inPos r) then cur_max_jbs r else 0)
      else if inPos r < playPos r then (cur_max_jbs r - playPos r) + inPos r
      else inPos r - playPos r)"

definition jb_bounds :: "'a JitterBuffer_scheme \<Rightarrow> bool" where
  "jb_bounds r \<longleftrightarrow> 0 < cur_max_jbs r \<and> cur_max_jbs r \<le> JITTER_BUFFER_MAX \<and>
     length (jitterBuffer r) = JITTER_BUFFER_MAX \<and> inPos r < cur_max_jbs r \<and> playPos r < cur_max_jbs r"

definition jb_inv :: "'a JitterBuffer_scheme \<Rightarrow> bool" where
  "jb_inv r \<longleftrightarrow> jb_bounds r \<and> (\<forall>k<cur_max_jbs r. slot_used r (ring_at r k) \<longleftrightarrow> k < jb_count r)"

definition jb_list :: "'a JitterBuffer_scheme \<Rightarrow> RtpData list" where
  "jb_list r = map (\<lambda>k. the (jitterBuffer r ! ring_at r k)) [0..<jb_count r]"

lemma length_jb_list [simp]: "length (jb_list r) = jb_count r"
  by (simp add: jb_list_def)

lemma jb_list_nth: "k < jb_count r \<Longrightarrow> jb_list r ! k = the (jitterBuffer r ! ring_at r k)"
  by (simp add: jb_list_def)

lemma jb_list_eqI:
  assumes "length xs = jb_count r" "\<And>k. k < jb_count r \<Longrightarrow> the (jitterBuffer r ! ring_at r k) = xs ! k"
  shows "jb_list r = xs"
  using assms by (intro nth_equalityI) (simp_all add: jb_list_nth)

lemma ring_at_less [simp]: "jb_bounds r \<Longrightarrow> ring_at r k < cur_max_jbs r"
  by (simp add: jb_bounds_def ring_at_def)

lemma ring_at_length [simp]: "jb_bounds r \<Longrightarrow> ring_at r k < length (jitterBuffer r)"
  by (rule less_le_trans [OF ring_at_less]) (simp_all add: jb_bounds_def)

lemma ring_at_inj:
  "jb_bounds r \<Longrightarrow> k < cur_max_jbs r \<Longrightarrow> j < cur_max_jbs r \<Longrightarrow> ring_at r k = ring_at r j \<longleftrightarrow> k = j"
  by (simp add: ring_at_def ring_inj)

lemma ring_at_0 [simp]: "jb_bounds r \<Longrightarrow> ring_at r 0 = playPos r"
  by (simp add: ring_at_def jb_bounds_def)

lemma ring_at_surj:
  assumes "jb_bounds r" "i < cur_max_jbs r"
  obtains k where "k < cur_max_jbs r" "i = ring_at r k"
  using assms ring_surj [of i "cur_max_jbs r" "playPos r"] unfolding ring_at_def jb_bounds_def by metis

text \<open>The writing position is the ring position after the last entry.\<close>

lemma jb_count_inPos:
  assumes "jb_bounds r"
  shows "jb_count r \<le> cur_max_jbs r" "ring_at r (jb_count r) = inPos r"
  using assms by (auto simp: jb_count_def jb_bounds_def ring_at_def)

lemma jb_invI:
  assumes b: "jb_bounds r" and n: "n \<le> cur_max_jbs r" and i: "inPos r = ring_at r n"
    and u: "\<And>k. k < cur_max_jbs r \<Longrightarrow> slot_used r (ring_at r k) \<longleftrightarrow> k < n"
  shows "jb_inv r" "jb_count r = n"
proof -
  let ?m = "cur_max_jbs r" and ?p = "playPos r"
  have m: "0 < ?m" "?p < ?m" using b by (simp_all add: jb_bounds_def)
  show c: "jb_count r = n"
  proof (cases "n = 0 \<or> n = ?m")
    case True
    then have "inPos r = ?p" using i m by (auto simp: ring_at_def)
    with True u [of 0] m b show ?thesis by (auto simp: jb_count_def)
  next
    case False
    with n have n: "0 < n" "n < ?m" by simp_all
    show ?thesis
    proof (cases "?p + n < ?m")
      case True
      with i n show ?thesis by (simp add: jb_count_def ring_at_def)
    next
      case False
      with n m have "(?p + n) mod ?m = ?p + n - ?m" by (simp add: mod_if)
      with i n m False show ?thesis by (simp add: jb_count_def ring_at_def)
    qed
  qed
  show "jb_inv r" using b u by (simp add: jb_inv_def c)
qed

lemma jb_inv_bounds [dest]: "jb_inv r \<Longrightarrow> jb_bounds r"
  by (simp add: jb_inv_def)

lemma jb_inv_used:
  "jb_inv r \<Longrightarrow> k < cur_max_jbs r \<Longrightarrow> slot_used r (ring_at r k) \<longleftrightarrow> k < jb_count r"
  by (simp add: jb_inv_def)

lemma jb_bounds_slot [simp]: "jb_bounds r \<Longrightarrow> i < cur_max_jbs r \<Longrightarrow> jb_slot r i = Inr (jitterBuffer r ! i)"
  by (simp add: jb_slot_def jb_bounds_def)

lemma jb_used_eq: "jb_bounds r \<Longrightarrow> i < cur_max_jbs r \<Longrightarrow> jb_used r i = Inr (slot_used r i)"
  by (simp add: jb_used_def slot_used_def)

lemma getJitterPktsInQueueCount_eq [simp]:
  "jb_bounds r \<Longrightarrow> getJitterPktsInQueueCount r = Inr (jb_count r)"
proof -
  assume b: "jb_bounds r"
  then have "inPos r < cur_max_jbs r" by (simp add: jb_bounds_def)
  with b show ?thesis
    by (simp add: getJitterPktsInQueueCount_def jb_count_def slot_used_def)
qed

text \<open>A constructed or cleared buffer is the empty queue.\<close>

lemma cleared:
  assumes "0 < cur_max_jbs r" "cur_max_jbs r \<le> JITTER_BUFFER_MAX"
  shows "jb_inv (clearJitterBuffer r)" "jb_list (clearJitterBuffer r) = []"
proof -
  have "jb_inv (clearJitterBuffer r) \<and> jb_count (clearJitterBuffer r) = 0"
    using assms by (intro conjI jb_invI)
      (auto simp: clearJitterBuffer_def jb_bounds_def ring_at_def slot_used_def slot_in_use_def)
  then show "jb_inv (clearJitterBuffer r)" "jb_list (clearJitterBuffer r) = []"
    by (simp_all add: jb_list_def)
qed

section \<open>The run-time check tests the invariant\<close>

lemma ring_at_eq:
  "jb_bounds r \<Longrightarrow> k \<le> cur_max_jbs r \<Longrightarrow>
     ring_at r k = (if playPos r + k < cur_max_jbs r then playPos r + k else playPos r + k - cur_max_jbs r)"
  unfolding ring_at_def by (rule ring_wrap) (auto simp: jb_bounds_def)

lemma ring_at_before:
  assumes "jb_bounds r" "q < jb_count r"
  shows "nat (if int (inPos r) - int q - 1 < 0 then int (inPos r) - int q - 1 + int (cur_max_jbs r)
              else int (inPos r) - int q - 1) = ring_at r (jb_count r - 1 - q)"
  using assms jb_count_inPos [OF assms(1)] ring_at_eq [OF assms(1)]
  by (auto simp: jb_bounds_def split: if_splits)

lemma ring_at_after:
  assumes "jb_bounds r" "q < cur_max_jbs r - jb_count r"
  shows "(if inPos r + q \<ge> cur_max_jbs r then inPos r + q - cur_max_jbs r else inPos r + q)
    = ring_at r (jb_count r + q)"
  using assms jb_count_inPos [OF assms(1)] ring_at_eq [OF assms(1)]
  by (auto simp: jb_bounds_def split: if_splits)

lemma check_before:
  assumes b: "jb_bounds r"
  shows "ocheck (\<lambda>q.
             let i = int (inPos r) - int q - 1;
                 i = (if i < 0 then i + int (cur_max_jbs r) else i)
             in jb_used r (nat i)) [0..<jb_count r]
    = (if \<forall>k<jb_count r. slot_used r (ring_at r k) then Inr () else Inl AssertFailed)"
proof -
  have "(\<forall>q\<in>set [0..<jb_count r]. slot_used r (ring_at r (jb_count r - 1 - q)))
      \<longleftrightarrow> (\<forall>k<jb_count r. slot_used r (ring_at r k))"
    (is "?A \<longleftrightarrow> ?B")
  proof
    assume A: ?A
    show ?B
    proof (intro allI impI)
      fix k assume "k < jb_count r"
      then show "slot_used r (ring_at r k)"
        using A [rule_format, of "jb_count r - 1 - k"] by simp
    qed
  qed auto
  moreover have "(let i = int (inPos r) - int q - 1;
                 i = (if i < 0 then i + int (cur_max_jbs r) else i)
             in jb_used r (nat i)) = Inr (slot_used r (ring_at r (jb_count r - 1 - q)))"
    if "q \<in> set [0..<jb_count r]" for q
    using that b ring_at_before [OF b, of q] by (simp add: Let_def jb_used_eq)
  ultimately show ?thesis
    using ocheck_total [where xs = "[0..<jb_count r]"
        and P = "\<lambda>q. slot_used r (ring_at r (jb_count r - 1 - q))"] by simp
qed

lemma check_after:
  assumes b: "jb_bounds r"
  shows "ocheck (\<lambda>q.
             let i = inPos r + q;
                 i = (if i \<ge> cur_max_jbs r then i - cur_max_jbs r else i)
             in obind (jb_used r i) (\<lambda>b. Inr (\<not> b))) [0..<cur_max_jbs r - jb_count r]
    = (if \<forall>k<cur_max_jbs r. jb_count r \<le> k \<longrightarrow> \<not> slot_used r (ring_at r k)
       then Inr () else Inl AssertFailed)"
proof -
  have "(\<forall>q\<in>set [0..<cur_max_jbs r - jb_count r]. \<not> slot_used r (ring_at r (jb_count r + q)))
      \<longleftrightarrow> (\<forall>k<cur_max_jbs r. jb_count r \<le> k \<longrightarrow> \<not> slot_used r (ring_at r k))"
    (is "?A \<longleftrightarrow> ?B")
  proof
    assume A: ?A
    show ?B
    proof (intro allI impI)
      fix k assume "k < cur_max_jbs r" "jb_count r \<le> k"
      then show "\<not> slot_used r (ring_at r k)"
        using A [rule_format, of "k - jb_count r"] by simp
    qed
  qed auto
  moreover have "(let i = inPos r + q;
                 i = (if i \<ge> cur_max_jbs r then i - cur_max_jbs r else i)
             in obind (jb_used r i) (\<lambda>b. Inr (\<not> b))) = Inr (\<not> slot_used r (ring_at r (jb_count r + q)))"
    if "q \<in> set [0..<cur_max_jbs r - jb_count r]" for q
    using that b ring_at_after [OF b, of q] by (simp add: Let_def jb_used_eq)
  ultimately show ?thesis
    using ocheck_total [where xs = "[0..<cur_max_jbs r - jb_count r]"
        and P = "\<lambda>q. \<not> slot_used r (ring_at r (jb_count r + q))"] by simp
qed

lemma check_full:
  assumes b: "jb_bounds r" and c: "jb_count r = cur_max_jbs r"
  shows "ocheck (jb_used r) [0..<jb_count r] = (if jb_inv r then Inr () else Inl AssertFailed)"
proof -
  have "(\<forall>i\<in>set [0..<jb_count r]. slot_used r i) \<longleftrightarrow> jb_inv r"
    unfolding jb_inv_def using b c ring_at_surj [OF b] ring_at_less [OF b]
    by (auto simp: Ball_def)
  with b c show ?thesis
    using ocheck_total [of "[0..<jb_count r]" "jb_used r" "slot_used r"] by (simp add: jb_used_eq)
qed

lemma verifyJbSanity_iff:
  assumes b: "jb_bounds r"
  shows "verifyJbSanity r = (if jb_inv r then Inr () else Inl AssertFailed)"
proof (cases "jb_count r > 0 \<and> \<not> slot_used r (playPos r)")
  case True
  then have "\<not> jb_inv r" using jb_inv_used [of r 0] b by (auto simp: jb_bounds_def)
  with True b show ?thesis
    by (auto simp: verifyJbSanity_def jb_used_eq jb_bounds_def[of r])
next
  case False
  show ?thesis
  proof (cases "jb_count r = cur_max_jbs r")
    case True
    with False b check_full [OF b True] show ?thesis
      by (auto simp: verifyJbSanity_def jb_used_eq jb_bounds_def[of r])
  next
    case not_full: False
    have "jb_inv r \<longleftrightarrow> (\<forall>k<jb_count r. slot_used r (ring_at r k)) \<and>
        (\<forall>k<cur_max_jbs r. jb_count r \<le> k \<longrightarrow> \<not> slot_used r (ring_at r k))"
      unfolding jb_inv_def using b jb_count_inPos(1) [OF b] by (meson leD leI less_le_trans)
    with not_full False b check_before [OF b] check_after [OF b] show ?thesis
      by (auto simp: verifyJbSanity_def jb_used_eq jb_bounds_def[of r])
  qed
qed

section \<open>Effect of the operations on the queue\<close>

text \<open>
  The common shape of appending a packet and of inserting silence: the entry goes to the
  writing position; when the ring is full the entry to be played next is given up.
\<close>

definition jb_push :: "RtpData \<Rightarrow> 'a JitterBuffer_scheme \<Rightarrow> 'a JitterBuffer_scheme" where
  "jb_push d r = incrementInPos
     (jb_store (if jb_count r = cur_max_jbs r then incrementPlayPos r else r) (inPos r) d)"

lemma jb_push_fields [simp]:
  "cur_max_jbs (jb_push d r) = cur_max_jbs r"
  "length (jitterBuffer (jb_push d r)) = length (jitterBuffer r)"
  "JitterBuffer.more (jb_push d r) = JitterBuffer.more r"
  by (simp_all add: jb_push_def incrementInPos_def incrementPlayPos_def jb_store_def)

lemma increment_eq:
  "jb_bounds r \<Longrightarrow> incrementInPos r = r\<lparr>inPos := Suc (inPos r) mod cur_max_jbs r\<rparr>"
  "jb_bounds r \<Longrightarrow> incrementPlayPos r = r\<lparr>playPos := Suc (playPos r) mod cur_max_jbs r\<rparr>"
  unfolding incrementInPos_def incrementPlayPos_def
  by (subst ring_next; simp add: jb_bounds_def)+

lemma jb_bounds_updates [simp]:
  "jb_bounds r \<Longrightarrow> jb_bounds (r\<lparr>inPos := Suc i mod cur_max_jbs r\<rparr>)"
  "jb_bounds r \<Longrightarrow> jb_bounds (r\<lparr>playPos := Suc i mod cur_max_jbs r\<rparr>)"
  "jb_bounds (jb_store r i d) = jb_bounds r"
  by (simp_all add: jb_bounds_def jb_store_def)

lemma jb_push_positions:
  assumes "jb_bounds r"
  shows "inPos (jb_push d r) = Suc (inPos r) mod cur_max_jbs r"
    and "playPos (jb_push d r) =
      (if jb_count r = cur_max_jbs r then Suc (playPos r) mod cur_max_jbs r else playPos r)"
    and "jitterBuffer (jb_push d r) = (jitterBuffer r)[inPos r := Some d]"
    and "jb_bounds (jb_push d r)"
proof -
  let ?p = "if jb_count r = cur_max_jbs r then incrementPlayPos r else r"
  let ?s = "jb_store ?p (inPos r) d"
  have b: "jb_bounds ?p" using assms by (simp add: increment_eq)
  have push: "jb_push d r = ?s\<lparr>inPos := Suc (inPos ?s) mod cur_max_jbs ?s\<rparr>"
    unfolding jb_push_def using b by (intro increment_eq(1)) simp
  show "inPos (jb_push d r) = Suc (inPos r) mod cur_max_jbs r"
    and "playPos (jb_push d r) =
      (if jb_count r = cur_max_jbs r then Suc (playPos r) mod cur_max_jbs r else playPos r)"
    and "jitterBuffer (jb_push d r) = (jitterBuffer r)[inPos r := Some d]"
    using assms by (simp_all add: push increment_eq jb_store_def)
  show "jb_bounds (jb_push d r)"
    unfolding push using b by (intro jb_bounds_updates(1)) simp
qed

lemma ring_at_push:
  assumes "jb_bounds r"
  shows "ring_at (jb_push d r) k =
    (if jb_count r = cur_max_jbs r then ring_at r (Suc k) else ring_at r k)"
  using jb_push_positions(2) [OF assms, of d] by (simp add: ring_at_def mod_simps)

lemma jb_push_nth:
  assumes "jb_bounds r" "k < cur_max_jbs r"
  shows "jitterBuffer (jb_push d r) ! ring_at r k =
    (if ring_at r k = inPos r then Some d else jitterBuffer r ! ring_at r k)"
  using ring_at_length [OF assms(1), of k] jb_push_positions(3) [OF assms(1), of d]
  by (simp add: nth_list_update)

lemma jb_push_not_full:
  assumes inv: "jb_inv r" and c: "jb_count r < cur_max_jbs r" and d: "rd_in_use d"
  shows "jb_inv (jb_push d r)" "jb_list (jb_push d r) = jb_list r @ [d]"
proof -
  let ?r = "jb_push d r" and ?c = "jb_count r"
  have b: "jb_bounds r" using inv by blast
  have at: "ring_at ?r k = ring_at r k" for k
    using c by (simp add: ring_at_push [OF b])
  have nth: "jitterBuffer ?r ! ring_at r k = (if k = ?c then Some d else jitterBuffer r ! ring_at r k)"
    if "k < cur_max_jbs r" for k
    using that c b jb_push_nth [OF b that, of d] ring_at_inj [OF b that c] jb_count_inPos [OF b] by simp
  have in': "inPos ?r = ring_at ?r (Suc ?c)"
    using jb_push_positions(1) [OF b, of d] jb_count_inPos(2) [OF b]
    by (simp add: at) (simp add: ring_at_def mod_Suc_eq flip: mod_Suc_eq [of "playPos r + ?c"])
  have used: "slot_used ?r (ring_at ?r k) \<longleftrightarrow> k < Suc ?c" if "k < cur_max_jbs ?r" for k
    using that d jb_inv_used [OF inv, of k] nth [of k]
    by (auto simp: at slot_used_def slot_in_use_def)
  note I = jb_invI [OF jb_push_positions(4) [OF b] _ in' used]
  show "jb_inv ?r" using I(1) c by simp
  have "jb_count ?r = Suc ?c" using I(2) c by simp
  then show "jb_list ?r = jb_list r @ [d]"
    using c by (intro jb_list_eqI) (auto simp: at nth nth_append jb_list_nth less_Suc_eq)
qed

lemma jb_push_full:
  assumes inv: "jb_inv r" and c: "jb_count r = cur_max_jbs r" and d: "rd_in_use d"
  shows "jb_inv (jb_push d r)" "jb_list (jb_push d r) = tl (jb_list r) @ [d]"
proof -
  let ?r = "jb_push d r" and ?m = "cur_max_jbs r"
  have b: "jb_bounds r" using inv by blast
  then have m: "0 < ?m" by (simp add: jb_bounds_def)
  have at: "ring_at ?r k = ring_at r (Suc k)" for k
    using c by (simp add: ring_at_push [OF b])
  have in0: "inPos r = ring_at r 0"
    using c b jb_count_inPos(2) [OF b] by (simp add: ring_at_def)
  have nth: "jitterBuffer ?r ! ring_at r k = (if k = 0 then Some d else jitterBuffer r ! ring_at r k)"
    if "k < ?m" for k
    using that b m jb_push_nth [OF b that, of d] ring_at_inj [OF b that m] in0 by simp
  have wrap: "ring_at r ?m = ring_at r 0"
    by (simp add: ring_at_def)
  have in': "inPos ?r = ring_at ?r ?m"
    using jb_push_positions(1) [OF b, of d] b
    by (simp add: at in0) (simp add: ring_at_def flip: add_Suc)
  have used: "slot_used ?r (ring_at ?r k) \<longleftrightarrow> k < ?m" if "k < cur_max_jbs ?r" for k
    using that d m c jb_inv_used [OF inv, of "Suc k"] nth [of "Suc k"] nth [of 0] wrap
    by (cases "Suc k = ?m") (auto simp: at slot_used_def slot_in_use_def)
  note I = jb_invI [OF jb_push_positions(4) [OF b] _ in' used]
  show "jb_inv ?r" using I(1) by simp
  have c': "jb_count ?r = ?m" using I(2) by simp
  show "jb_list ?r = tl (jb_list r) @ [d]"
  proof (rule jb_list_eqI)
    show "length (tl (jb_list r) @ [d]) = jb_count ?r" using c c' m by simp
    fix k assume k: "k < jb_count ?r"
    show "the (jitterBuffer ?r ! ring_at ?r k) = (tl (jb_list r) @ [d]) ! k"
    proof (cases "Suc k = ?m")
      case True
      with nth [of 0] wrap m c show ?thesis by (auto simp: at nth_append)
    next
      case False
      with k c' c show ?thesis by (auto simp: at nth nth_append nth_tl jb_list_nth)
    qed
  qed
qed

lemma jb_push_queue:
  assumes "jb_inv r" "rd_in_use d"
  shows "jb_inv (jb_push d r)"
    and "jb_list (jb_push d r) =
      (if jb_count r = cur_max_jbs r then tl (jb_list r) else jb_list r) @ [d]"
proof -
  have "jb_count r = cur_max_jbs r \<or> jb_count r < cur_max_jbs r"
    using jb_count_inPos(1) [OF jb_inv_bounds [OF assms(1)]] by linarith
  then show "jb_inv (jb_push d r)"
    and "jb_list (jb_push d r) =
      (if jb_count r = cur_max_jbs r then tl (jb_list r) else jb_list r) @ [d]"
    using jb_push_full [OF assms(1) _ assms(2)] jb_push_not_full [OF assms(1) _ assms(2)] by auto
qed

subsection \<open>Reading the ring\<close>

lemma jb_inv_Some:
  "jb_inv r \<Longrightarrow> k < jb_count r \<Longrightarrow> jitterBuffer r ! ring_at r k = Some (jb_list r ! k)"
  using jb_inv_used [of r k] jb_count_inPos(1) [of r]
  by (fastforce simp: jb_list_nth slot_used_def slot_in_use_def split: option.splits)

lemma jb_list_in_use: "jb_inv r \<Longrightarrow> d \<in> set (jb_list r) \<Longrightarrow> rd_in_use d"
proof -
  assume inv: "jb_inv r" and "d \<in> set (jb_list r)"
  then obtain k where k: "k < jb_count r" "d = jb_list r ! k" by (auto simp: in_set_conv_nth)
  with inv jb_inv_used [OF inv, of k] jb_count_inPos(1) [of r] jb_inv_Some [OF inv k(1)]
  show ?thesis by (auto simp: slot_used_def slot_in_use_def)
qed

lemma calculatePreviousInPos_eq:
  assumes b: "jb_bounds r" and sd: "1 \<le> sd" "sd \<le> int (jb_count r)"
  shows "calculatePreviousInPos sd r = Inr (ring_at r (jb_count r - nat sd))"
proof -
  let ?m = "cur_max_jbs r" and ?c = "jb_count r"
  have m: "0 < ?m" "?m \<le> 1024" "inPos r < ?m" "?c \<le> ?m" "playPos r < ?m"
    using b jb_count_inPos(1) [OF b] by (simp_all add: jb_bounds_def JITTER_BUFFER_MAX_def)
  have "nat (sd mod 2 ^ 32) = nat sd" using sd m by simp
  then have "calculatePreviousInPos sd r = Inr (if nat sd mod ?m > inPos r
      then ?m - (nat sd mod ?m - inPos r) else inPos r - nat sd mod ?m)"
    using m(1) by (simp add: calculatePreviousInPos_def Let_def)
  also have "\<dots> = Inr ((inPos r + ?m - nat sd mod ?m) mod ?m)"
    by (simp only: ring_prev [OF m(3)])
  also have "(inPos r + ?m - nat sd mod ?m) mod ?m = ring_at r (?c - nat sd)"
  proof (cases "nat sd = ?m")
    case True
    with sd m have "?c = ?m" by linarith
    with True m jb_count_inPos(2) [OF b] show ?thesis by (simp add: ring_at_def)
  next
    case False
    then have "nat sd mod ?m = nat sd" using sd m by simp
    then show ?thesis
      using sd m jb_count_inPos(2) [OF b] ring_at_eq [OF b, of ?c] ring_at_eq [OF b, of "?c - nat sd"]
        ring_wrap [of "inPos r + ?m - nat sd" ?m]
      by (auto split: if_splits) linarith
  qed
  finally show ?thesis .
qed

lemma getLastRtpData_eq:
  assumes inv: "jb_inv r"
  shows "getLastRtpData r = Inr (if jb_list r = [] then None else Some (last (jb_list r)))"
proof (cases "jb_count r = 0")
  case True
  with inv show ?thesis by (auto simp: getLastRtpData_def jb_list_def)
next
  case False
  have b: "jb_bounds r" using inv by blast
  have "jb_list r \<noteq> []" using False by (auto simp flip: length_0_conv)
  moreover have "calculatePreviousInPos 1 r = Inr (ring_at r (jb_count r - 1))"
    using calculatePreviousInPos_eq [OF b, of 1] False by simp
  moreover have "jitterBuffer r ! ring_at r (jb_count r - 1) = Some (last (jb_list r))"
    using jb_inv_Some [OF inv, of "jb_count r - 1"] False \<open>jb_list r \<noteq> []\<close> by (simp add: last_conv_nth)
  ultimately show ?thesis
    using False b by (simp add: getLastRtpData_def jb_slot_def)
qed

lemma used_inPos:
  assumes inv: "jb_inv r"
  shows "slot_used r (inPos r) \<longleftrightarrow> jb_count r = cur_max_jbs r"
proof -
  have b: "jb_bounds r" using inv by blast
  have "jb_count r \<le> cur_max_jbs r" "inPos r = ring_at r (jb_count r)"
    using jb_count_inPos [OF b] by simp_all
  moreover have "ring_at r (cur_max_jbs r) = ring_at r 0" by (simp add: ring_at_def)
  moreover have "slot_used r (ring_at r 0) \<longleftrightarrow> 0 < jb_count r" "0 < cur_max_jbs r"
    using b jb_inv_used [OF inv, of 0] by (simp_all add: jb_bounds_def)
  moreover have "jb_count r < cur_max_jbs r \<Longrightarrow> \<not> slot_used r (ring_at r (jb_count r))"
    using jb_inv_used [OF inv, of "jb_count r"] by simp
  ultimately show ?thesis by (metis le_neq_implies_less)
qed

subsection \<open>Writing packets\<close>

definition packet_fits :: "RtpPacket \<Rightarrow> bool" where
  "packet_fits pkt \<longleftrightarrow> getPayloadLoc pkt + nat (getPayloadUsage pkt) \<le> length (packetData pkt) \<and>
     nat (getPayloadUsage pkt) \<le> MAX_RTP_DATA"

definition entry_of :: "RtpPacket \<Rightarrow> RtpData" where
  "entry_of pkt = \<lparr>rd_data = take (nat (getPayloadUsage pkt)) (drop (getPayloadLoc pkt) (packetData pkt)),
     rd_silence_fill = False, rd_in_use = True,
     rtp_seq_no = getSequence pkt, rtp_time = getRtpTime pkt\<rparr>"

lemma entry_of_simps [simp]:
  "rd_silence_fill (entry_of pkt) = False" "rd_in_use (entry_of pkt)"
  "rtp_seq_no (entry_of pkt) = getSequence pkt" "rtp_time (entry_of pkt) = getRtpTime pkt"
  by (simp_all add: entry_of_def)

lemma fill_slot_eq [simp]: "packet_fits pkt \<Longrightarrow> fill_slot pkt d = Inr (entry_of pkt)"
  by (simp add: packet_fits_def fill_slot_def payload_def mem_read_def setData_def entry_of_def min_def)

definition silence_entry :: "u32 \<Rightarrow> u16 \<Rightarrow> 'a JitterBuffer_scheme \<Rightarrow> RtpData" where
  "silence_entry time seq r =
     (case jitterBuffer r ! inPos r of None \<Rightarrow> new_RtpData | Some d \<Rightarrow> d)
       \<lparr>rd_silence_fill := True, rd_in_use := True, rtp_time := time, rtp_seq_no := ucast seq\<rparr>"

lemma silence_entry_simps [simp]:
  "rd_silence_fill (silence_entry time seq r)" "rd_in_use (silence_entry time seq r)"
  "rtp_seq_no (silence_entry time seq r) = ucast seq" "rtp_time (silence_entry time seq r) = time"
  by (simp_all add: silence_entry_def)

lemma jb_store_store [simp]: "jb_store (jb_store r i d) i e = jb_store r i e"
  by (simp add: jb_store_def)

lemma jb_store_same: "jitterBuffer r ! i = Some d \<Longrightarrow> jb_store r i d = r"
  by (metis JitterBuffer.surjective JitterBuffer.update_convs(4) jb_store_def list_update_id)

lemma increment_jb_store [simp]:
  "inPos (jb_store r i d) = inPos r" "playPos (jb_store r i d) = playPos r"
  "cur_max_jbs (jb_store r i d) = cur_max_jbs r"
  "incrementPlayPos (jb_store r i d) = jb_store (incrementPlayPos r) i d"
  "inPos (incrementPlayPos r) = inPos r" "cur_max_jbs (incrementPlayPos r) = cur_max_jbs r"
  by (simp_all add: jb_store_def incrementPlayPos_def)

lemma not_used_not_in_use:
  "\<not> slot_used r i \<Longrightarrow> \<not> rd_in_use (case jitterBuffer r ! i of None \<Rightarrow> new_RtpData | Some d \<Rightarrow> d)"
  by (auto simp: slot_used_def slot_in_use_def new_RtpData_def split: option.splits)

lemma appendRtpData_eq:
  assumes inv: "jb_inv r" and fits: "packet_fits pkt"
    and fresh: "jb_count r = cur_max_jbs r \<Longrightarrow> rtp_seq_no (hd (jb_list r)) \<noteq> getSequence pkt"
  shows "appendRtpData pkt r = Inr (jb_push (entry_of pkt) r)"
proof -
  have b: "jb_bounds r" and i: "inPos r < cur_max_jbs r" using inv by (auto simp: jb_bounds_def)
  show ?thesis
  proof (cases "jb_count r = cur_max_jbs r")
    case True
    then have p: "playPos r = inPos r"
      using b jb_count_inPos(2) [OF b] by (simp add: ring_at_def jb_bounds_def)
    have h: "jitterBuffer r ! inPos r = Some (hd (jb_list r))"
      using jb_inv_Some [OF inv, of 0] True b p by (simp add: hd_conv_nth jb_bounds_def flip: length_0_conv)
    moreover have "rd_in_use (hd (jb_list r))"
      using h used_inPos [OF inv] True by (simp add: slot_used_def slot_in_use_def)
    ultimately show ?thesis
      using True fresh fits b i p
      by (simp add: appendRtpData_def setRtpData_def Let_def jb_store_same jb_push_def)
  next
    case False
    then have "\<not> slot_used r (inPos r)" using used_inPos [OF inv] by simp
    with False fits b i not_used_not_in_use [of r "inPos r"] show ?thesis
      by (simp add: appendRtpData_def setRtpData_def Let_def jb_push_def)
  qed
qed

lemma insertSilenceRtpData_eq:
  assumes inv: "jb_inv r"
  shows "insertSilenceRtpData time seq r = Inr (jb_push (silence_entry time seq r) r)"
proof -
  have b: "jb_bounds r" and i: "inPos r < cur_max_jbs r" using inv by (auto simp: jb_bounds_def)
  show ?thesis
  proof (cases "jb_count r = cur_max_jbs r")
    case True
    then have "slot_used r (inPos r)" using used_inPos [OF inv] by simp
    then obtain d where d: "jitterBuffer r ! inPos r = Some d" "rd_in_use d"
      by (auto simp: slot_used_def slot_in_use_def split: option.splits)
    with True b i show ?thesis
      by (simp add: insertSilenceRtpData_def Let_def jb_store_same jb_push_def silence_entry_def)
  next
    case False
    then have "\<not> slot_used r (inPos r)" using used_inPos [OF inv] by simp
    with False b i not_used_not_in_use [of r "inPos r"] show ?thesis
      by (simp add: insertSilenceRtpData_def Let_def jb_push_def silence_entry_def)
  qed
qed

subsection \<open>Writing a late packet into its place\<close>

lemma jb_store_queue:
  assumes inv: "jb_inv r" and k: "k < jb_count r" and d: "rd_in_use d"
  shows "jb_inv (jb_store r (ring_at r k) d)"
    and "jb_list (jb_store r (ring_at r k) d) = (jb_list r)[k := d]"
proof -
  let ?r = "jb_store r (ring_at r k) d"
  have b: "jb_bounds r" using inv by blast
  then have c: "jb_count r \<le> cur_max_jbs r" by (rule jb_count_inPos)
  have at: "ring_at ?r j = ring_at r j" for j
    by (simp add: ring_at_def)
  have nth: "jitterBuffer ?r ! ring_at r j = (if j = k then Some d else jitterBuffer r ! ring_at r j)"
    if "j < cur_max_jbs r" for j
    using that k c b ring_at_inj [OF b that, of k] by (auto simp: jb_store_def nth_list_update)
  have used: "slot_used ?r (ring_at ?r j) \<longleftrightarrow> j < jb_count r" if "j < cur_max_jbs ?r" for j
    using that d k jb_inv_used [OF inv, of j] nth [of j] by (auto simp: at slot_used_def slot_in_use_def)
  have in': "inPos ?r = ring_at ?r (jb_count r)"
    using jb_count_inPos(2) [OF b] by (simp add: at)
  have b': "jb_bounds ?r" using b by simp
  note I = jb_invI [OF b' _ in' used]
  show "jb_inv ?r" using I(1) c by simp
  have "jb_count ?r = jb_count r" using I(2) c by simp
  then show "jb_list ?r = (jb_list r)[k := d]"
    using k c by (intro jb_list_eqI) (auto simp: at nth nth_list_update jb_list_nth)
qed

lemma setRtpData_eq:
  assumes inv: "jb_inv r" and fits: "packet_fits pkt" and k: "k < jb_count r"
    and ok: "k = 0 \<Longrightarrow> jb_count r = cur_max_jbs r \<Longrightarrow> rtp_seq_no (hd (jb_list r)) = getSequence pkt"
  shows "setRtpData pkt (ring_at r k) r = Inr (jb_store r (ring_at r k) (entry_of pkt))"
proof -
  have b: "jb_bounds r" using inv by blast
  have S: "jitterBuffer r ! ring_at r k = Some (jb_list r ! k)" by (rule jb_inv_Some [OF inv k])
  have u: "rd_in_use (jb_list r ! k)" using jb_list_in_use [OF inv] k by simp
  have "jb_count r \<le> cur_max_jbs r" by (rule jb_count_inPos [OF b])
  then have "playPos r = ring_at r k \<longleftrightarrow> k = 0"
    using ring_at_inj [OF b, of 0 k] k b by (auto simp: jb_bounds_def)
  moreover have "k = 0 \<Longrightarrow> jb_list r ! k = hd (jb_list r)"
    using k by (simp add: hd_conv_nth flip: length_0_conv)
  ultimately show ?thesis
    using S u fits b ok by (auto simp: setRtpData_def jb_slot_def Let_def jb_store_same)
qed

text \<open>
  The remaining case: the ring is full and a late packet belongs into the place of the entry
  to be played next, which holds another sequence number. The code moves \<open>playPos\<close> on as if
  the packet were appended, and the entry it then writes lies outside the queue.
\<close>

lemma setRtpData_displaces:
  assumes inv: "jb_inv r" and fits: "packet_fits pkt"
    and full: "jb_count r = cur_max_jbs r" and two: "1 < cur_max_jbs r"
    and other: "rtp_seq_no (hd (jb_list r)) \<noteq> getSequence pkt"
  shows "\<exists>r'. setRtpData pkt (ring_at r 0) r = Inr r' \<and> verifyJbSanity r' = Inl AssertFailed"
proof -
  let ?r = "jb_store (incrementPlayPos r) (playPos r) (entry_of pkt)"
  have b: "jb_bounds r" using inv by blast
  have p: "inPos r = playPos r"
    using full b jb_count_inPos(2) [OF b] by (simp add: ring_at_def jb_bounds_def)
  have S: "jitterBuffer r ! playPos r = Some (hd (jb_list r))"
    using jb_inv_Some [OF inv, of 0] full b by (simp add: hd_conv_nth jb_bounds_def flip: length_0_conv)
  have u: "rd_in_use (hd (jb_list r))"
    using S used_inPos [OF inv] full p by (simp add: slot_used_def slot_in_use_def)
  have "setRtpData pkt (ring_at r 0) r = Inr ?r"
    using S u fits b full other by (simp add: setRtpData_def jb_slot_def Let_def jb_store_same)
      (simp add: jb_bounds_def)
  moreover have b': "jb_bounds ?r" using b by (simp add: increment_eq)
  moreover have "\<not> jb_inv ?r"
  proof
    assume inv': "jb_inv ?r"
    have "slot_used ?r (inPos ?r)"
      using b p by (simp add: slot_used_def slot_in_use_def jb_store_def incrementPlayPos_def jb_bounds_def)
    then have "jb_count ?r = cur_max_jbs ?r" using used_inPos [OF inv'] by simp
    moreover have "playPos ?r = Suc (inPos ?r) mod cur_max_jbs ?r" "inPos ?r < cur_max_jbs ?r"
      using b p by (simp_all add: increment_eq jb_bounds_def)
    ultimately show False
      using jb_count_inPos(2) [OF b'] two by (simp add: ring_at_def mod_Suc split: if_splits)
  qed
  ultimately show ?thesis using verifyJbSanity_iff [OF b'] by auto
qed

section \<open>Properties\<close>

text \<open>C19: The run-time check \<open>verifyJbSanity\<close> tests exactly the invariant of the ring: with positions
  inside the ring it succeeds when precisely the slots from the play position to the write
  position are in use, and stops the program otherwise.\<close>

theorem verifyJbSanity_decides:
  assumes "jb_bounds r"
  shows "verifyJbSanity r = (if jb_inv r then Inr () else Inl AssertFailed)"
  by (rule verifyJbSanity_iff [OF assms])

definition example_ring :: JitterBuffer where
  "example_ring = \<lparr>inPos = 1, playPos = 0, cur_max_jbs = 2, jitterBuffer = replicate JITTER_BUFFER_MAX None\<rparr>"

theorem verifyJbSanity_decides_witness:
  "verifyJbSanity example_ring = (if jb_inv example_ring then Inr () else Inl AssertFailed)"
  by (rule verifyJbSanity_decides) (simp add: example_ring_def jb_bounds_def JITTER_BUFFER_MAX_def)

end
