(* ===== verification/Rtp_Event.thy ===== *)
theory Rtp_Event
  imports Jitter_Buffer
begin

text \<open>
  \<open>rtp/RtpEventReceiver.cxx\<close>: detection of DTMF key presses in received RTP events. The
  callback object is the pair of a flag that says whether one is registered and the list of
  \<open>sendDTMF\<close> calls made on it. The event structures of \<open>rtp/rtpTypes.h\<close> are bit fields laid
  over the payload, as on a little-endian machine.
\<close>

datatype DTMFEvent =
  DTMFEventNULL | DTMFEventDigit0 | DTMFEventDigit1 | DTMFEventDigit2 | DTMFEventDigit3
| DTMFEventDigit4 | DTMFEventDigit5 | DTMFEventDigit6 | DTMFEventDigit7 | DTMFEventDigit8
| DTMFEventDigit9 | DTMFEventDigitStar | DTMFEventDigitHash

datatype KeyEvent = KeyEventNULL | KeyEventOn | KeyEventEdge | KeyEventOff

record RtpEventReceiver = JitterBuffer +
  DTMFInterface_set :: bool
  DTMF_sent :: "(DTMFEvent \<times> nat) list"
  keyEvent :: KeyEvent
  DTMFEvent_last :: DTMFEvent

text \<open>The fields the constructor of \<open>RtpEventReceiver\<close> sets.\<close>

definition new_RtpEventReceiver :: "'a RtpEventReceiver_scheme \<Rightarrow> 'a RtpEventReceiver_scheme" where
  "new_RtpEventReceiver r = r\<lparr>DTMFInterface_set := False, DTMF_sent := [],
     keyEvent := KeyEventNULL, DTMFEvent_last := DTMFEventNULL\<rparr>"

definition DTMFToEvent :: "int \<Rightarrow> DTMFEvent" where
  "DTMFToEvent event =
     (if event = 0 then DTMFEventDigit0 else if event = 1 then DTMFEventDigit1
      else if event = 2 then DTMFEventDigit2 else if event = 3 then DTMFEventDigit3
      else if event = 4 then DTMFEventDigit4 else if event = 5 then DTMFEventDigit5
      else if event = 6 then DTMFEventDigit6 else if event = 7 then DTMFEventDigit7
      else if event = 8 then DTMFEventDigit8 else if event = 9 then DTMFEventDigit9
      else if event = 10 then DTMFEventDigitStar else if event = 11 then DTMFEventDigitHash
      else DTMFEventNULL)"

definition sendToDTMFInterface :: "DTMFEvent \<Rightarrow> nat \<Rightarrow> 'a RtpEventReceiver_scheme \<Rightarrow> 'a RtpEventReceiver_scheme" where
  "sendToDTMFInterface e duration r =
     (if DTMFInterface_set r then r\<lparr>DTMF_sent := DTMF_sent r @ [(e, duration)]\<rparr> else r)"

text \<open>The octet at offset \<open>i\<close> of the payload.\<close>

definition payload_octet :: "RtpPacket \<Rightarrow> nat \<Rightarrow> octet" where
  "payload_octet pkt i = packetData pkt ! (getPayloadLoc pkt + i)"

text \<open>Fields of \<open>RtpEventDTMFRFC2833\<close>; the duration is read in host order.\<close>

definition rfc2833_event :: "RtpPacket \<Rightarrow> int" where
  "rfc2833_event pkt = uint (payload_octet pkt 0)"

definition rfc2833_edge :: "RtpPacket \<Rightarrow> octet" where
  "rfc2833_edge pkt = get_field 7 1 (payload_octet pkt 1)"

definition rfc2833_duration :: "RtpPacket \<Rightarrow> nat" where
  "rfc2833_duration pkt = unat (get16 (payload_octet pkt 3) (payload_octet pkt 2))"

text \<open>Fields of \<open>RtpEventDTMFCiscoRtp\<close>.\<close>

definition cisco_digitType :: "RtpPacket \<Rightarrow> octet" where
  "cisco_digitType pkt = get_field 5 3 (payload_octet pkt 2)"

definition cisco_edge :: "RtpPacket \<Rightarrow> octet" where
  "cisco_edge pkt = get_field 0 5 (payload_octet pkt 2)"

definition cisco_digitCode :: "RtpPacket \<Rightarrow> int" where
  "cisco_digitCode pkt = uint (get_field 0 5 (payload_octet pkt 3))"

definition recvEventRFC2833 :: "RtpPacket \<Rightarrow> 'a RtpEventReceiver_scheme \<Rightarrow> 'a RtpEventReceiver_scheme outcome" where
  "recvEventRFC2833 pkt r =
     oassert (getPayloadType pkt = rtpPayloadDTMF_RFC2833) (oassert (getPayloadUsage pkt \<noteq> 0) (Inr
       (if rfc2833_edge pkt = 1 then
          (if keyEvent r = KeyEventOn then
             (sendToDTMFInterface (DTMFEvent_last r) (rfc2833_duration pkt) r)\<lparr>keyEvent := KeyEventNULL\<rparr>
           else r)
        else
          (if keyEvent r = KeyEventNULL then
             r\<lparr>keyEvent := KeyEventOn, DTMFEvent_last := DTMFToEvent (rfc2833_event pkt)\<rparr>
           else r))))"

definition recvEventCiscoRTP :: "RtpPacket \<Rightarrow> 'a RtpEventReceiver_scheme \<Rightarrow> 'a RtpEventReceiver_scheme outcome" where
  "recvEventCiscoRTP pkt r =
     oassert (getPayloadType pkt = rtpPayloadCiscoRtp) (Inr
       (if keyEvent r \<noteq> KeyEventOn \<and> cisco_digitType pkt = 1 then
          r\<lparr>keyEvent := KeyEventOn, DTMFEvent_last := DTMFToEvent (cisco_digitCode pkt)\<rparr>
        else if keyEvent r = KeyEventOn \<and> cisco_digitType pkt = 0 \<and> cisco_edge pkt = 0 then
          (sendToDTMFInterface (DTMFEvent_last r) 20 r)\<lparr>keyEvent := KeyEventNULL\<rparr>
        else r))"

definition recvEvent :: "RtpPacket \<Rightarrow> 'a RtpEventReceiver_scheme \<Rightarrow> 'a RtpEventReceiver_scheme outcome" where
  "recvEvent pkt r =
     (if \<not> DTMFInterface_set r then Inr r
      else if getPayloadType pkt = rtpPayloadDTMF_RFC2833 then recvEventRFC2833 pkt r
      else if getPayloadType pkt = rtpPayloadCiscoRtp then recvEventCiscoRTP pkt r
      else Inr r)"

section \<open>A key press is reported once\<close>

fun recvEvents :: "RtpPacket list \<Rightarrow> 'a RtpEventReceiver_scheme \<Rightarrow> 'a RtpEventReceiver_scheme outcome" where
  "recvEvents [] r = Inr r"
| "recvEvents (p # ps) r = obind (recvEvent p r) (recvEvents ps)"

lemma recvEvents_append: "recvEvents (ps @ qs) r = obind (recvEvents ps r) (recvEvents qs)"
  by (induction ps arbitrary: r) (auto simp: obind_def split: sum.splits)

definition rfc2833_packet :: "RtpPacket \<Rightarrow> bool" where
  "rfc2833_packet pkt \<longleftrightarrow> getPayloadType pkt = rtpPayloadDTMF_RFC2833 \<and> getPayloadUsage pkt \<noteq> 0"

text \<open>
  One press on the wire: a packet that starts the event, further packets while the key is
  held, the packet with the end bit, and its retransmissions.
\<close>

record key_press =
  press_start :: RtpPacket
  press_held :: "RtpPacket list"
  press_end :: RtpPacket
  press_repeats :: "RtpPacket list"

definition press_packets :: "key_press \<Rightarrow> RtpPacket list" where
  "press_packets k = press_start k # press_held k @ press_end k # press_repeats k"

definition wf_press :: "key_press \<Rightarrow> bool" where
  "wf_press k \<longleftrightarrow> (\<forall>p \<in> set (press_packets k). rfc2833_packet p) \<and>
     rfc2833_edge (press_start k) \<noteq> 1 \<and> (\<forall>p \<in> set (press_held k). rfc2833_edge p \<noteq> 1) \<and>
     rfc2833_edge (press_end k) = 1 \<and> (\<forall>p \<in> set (press_repeats k). rfc2833_edge p = 1)"

definition press_report :: "key_press \<Rightarrow> DTMFEvent \<times> nat" where
  "press_report k = (DTMFToEvent (rfc2833_event (press_start k)), rfc2833_duration (press_end k))"

lemma recvEvent_rfc2833:
  "DTMFInterface_set r \<Longrightarrow> rfc2833_packet p \<Longrightarrow> recvEvent p r = recvEventRFC2833 p r"
  by (simp add: recvEvent_def rfc2833_packet_def)

lemma held_ignored:
  "DTMFInterface_set r \<Longrightarrow> keyEvent r = KeyEventOn \<Longrightarrow>
   \<forall>p \<in> set ps. rfc2833_packet p \<and> rfc2833_edge p \<noteq> 1 \<Longrightarrow> recvEvents ps r = Inr r"
  by (induction ps) (auto simp: recvEvent_rfc2833 recvEventRFC2833_def rfc2833_packet_def)

lemma repeats_ignored:
  "DTMFInterface_set r \<Longrightarrow> keyEvent r = KeyEventNULL \<Longrightarrow>
   \<forall>p \<in> set ps. rfc2833_packet p \<and> rfc2833_edge p = 1 \<Longrightarrow> recvEvents ps r = Inr r"
  by (induction ps) (auto simp: recvEvent_rfc2833 recvEventRFC2833_def rfc2833_packet_def)

lemma press_reported:
  assumes r: "DTMFInterface_set r" "keyEvent r = KeyEventNULL" and k: "wf_press k"
  shows "recvEvents (press_packets k) r = Inr (r\<lparr>DTMF_sent := DTMF_sent r @ [press_report k],
     keyEvent := KeyEventNULL, DTMFEvent_last := fst (press_report k)\<rparr>)"
proof -
  let ?on = "r\<lparr>keyEvent := KeyEventOn, DTMFEvent_last := DTMFToEvent (rfc2833_event (press_start k))\<rparr>"
  have k': "rfc2833_packet (press_start k)" "rfc2833_packet (press_end k)"
    "\<forall>p \<in> set (press_held k). rfc2833_packet p \<and> rfc2833_edge p \<noteq> 1"
    "\<forall>p \<in> set (press_repeats k). rfc2833_packet p \<and> rfc2833_edge p = 1"
    "rfc2833_edge (press_start k) \<noteq> 1" "rfc2833_edge (press_end k) = 1"
    using k by (auto simp: wf_press_def press_packets_def)
  have "recvEvent (press_start k) r = Inr ?on"
    using k' r by (simp add: recvEvent_rfc2833 recvEventRFC2833_def rfc2833_packet_def)
  moreover have "recvEvents (press_held k) ?on = Inr ?on"
    using k' r by (intro held_ignored) simp_all
  moreover have "recvEvent (press_end k) ?on = Inr (?on\<lparr>DTMF_sent := DTMF_sent r @ [press_report k],
      keyEvent := KeyEventNULL\<rparr>)"
    using k' r by (simp add: recvEvent_rfc2833 recvEventRFC2833_def rfc2833_packet_def
        sendToDTMFInterface_def press_report_def)
  ultimately show ?thesis
    using k' r by (simp add: press_packets_def recvEvents_append repeats_ignored press_report_def)
qed

lemma presses_reported:
  assumes "DTMFInterface_set r" "keyEvent r = KeyEventNULL" "\<forall>k \<in> set ks. wf_press k"
  shows "\<exists>r'. recvEvents (concat (map press_packets ks)) r = Inr r' \<and>
    DTMF_sent r' = DTMF_sent r @ map press_report ks \<and> keyEvent r' = KeyEventNULL"
  using assms
proof (induction ks arbitrary: r)
  case (Cons k ks)
  let ?r = "r\<lparr>DTMF_sent := DTMF_sent r @ [press_report k],
     keyEvent := KeyEventNULL, DTMFEvent_last := fst (press_report k)\<rparr>"
  have "recvEvents (press_packets k) r = Inr ?r"
    using Cons.prems by (intro press_reported) simp_all
  moreover obtain r' where "recvEvents (concat (map press_packets ks)) ?r = Inr r'"
    "DTMF_sent r' = DTMF_sent ?r @ map press_report ks" "keyEvent r' = KeyEventNULL"
    using Cons.IH [of ?r] Cons.prems by auto
  ultimately show ?case by (simp add: recvEvents_append)
qed simp

section \<open>Properties\<close>

text \<open>C31: With a DTMF callback registered, a sequence of key presses sent as RFC 2833 events, each
  with any number of packets while the key is held and any number of retransmissions of its end
  packet, is reported key by key, each exactly once and in order, with the digit of its first and
  the duration field of its first end packet.\<close>

theorem key_presses_reported_once:
  assumes "DTMFInterface_set r" "keyEvent r = KeyEventNULL" "\<forall>k \<in> set ks. wf_press k"
  shows "\<exists>r'. recvEvents (concat (map press_packets ks)) r = Inr r' \<and>
    DTMF_sent r' = DTMF_sent r @ map press_report ks \<and> keyEvent r' = KeyEventNULL"
  by (rule presses_reported [OF assms])

definition event_packet :: "octet \<Rightarrow> octet \<Rightarrow> RtpPacket" where
  "event_packet digit flags = \<lparr>sequenceSet = False, timestampSet = False, converted_to_nbo = False,
     converted_to_hbo = False, is_silence_fill = False, npadSize = 0, csrc_count = 0,
     packetData = [0x80, 100, 0, 1, 0, 0, 0, 0, 0, 0, 0, 9, digit, flags, 0, 160] @ replicate 8113 0,
     packetAlloc = 1036, unusedSize = 1020\<rparr>"

definition example_press :: key_press where
  "example_press = \<lparr>press_start = event_packet 5 0, press_held = [event_packet 5 0],
     press_end = event_packet 5 128, press_repeats = [event_packet 5 128, event_packet 5 128]\<rparr>"

definition example_event_receiver :: RtpEventReceiver where
  "example_event_receiver = \<lparr>inPos = 0, playPos = 0, cur_max_jbs = 4, jitterBuffer = [],
     DTMFInterface_set = True, DTMF_sent = [], keyEvent = KeyEventNULL, DTMFEvent_last = DTMFEventNULL\<rparr>"

lemma event_packet_fields:
  "rfc2833_packet (event_packet 5 f)" "rfc2833_edge (event_packet 5 0) = 0" "rfc2833_edge (event_packet 5 128) = 1"
proof -
  have c: "getCSRCcount (event_packet 5 f) = 0" for f
    by (simp add: getCSRCcount_def event_packet_def get_field_def)
  show "rfc2833_packet (event_packet 5 f)"
    using c by (simp add: rfc2833_packet_def getPayloadUsage_def getPayloadSize_def getPadbyteSize_def rtp_consts)
      (simp add: event_packet_def getPayloadType_def get_field_def)
  show "rfc2833_edge (event_packet 5 0) = 0" "rfc2833_edge (event_packet 5 128) = 1"
    using c by (simp_all add: rfc2833_edge_def payload_octet_def getPayloadLoc_def rtp_consts)
      (simp_all add: event_packet_def get_field_def)
qed

theorem key_presses_reported_once_witness:
  "\<exists>r'. recvEvents (concat (map press_packets [example_press, example_press])) example_event_receiver = Inr r' \<and>
    DTMF_sent r' = DTMF_sent example_event_receiver @ map press_report [example_press, example_press] \<and>
    keyEvent r' = KeyEventNULL"
  by (rule key_presses_reported_once)
    (simp_all add: example_event_receiver_def wf_press_def example_press_def press_packets_def event_packet_fields)

end
