(* ===== verification/Ntp_Time.thy ===== *)
theory Ntp_Time
  imports Vocal_Prelude
begin

text \<open>
  \<open>rtp/NtpTime.cxx\<close> and \<open>rtp/NtpTime.hxx\<close>: NTP timestamps as two 32-bit words, seconds and
  a binary fraction. All arithmetic is the code's 32-bit unsigned arithmetic, including the
  millisecond difference, whose value is widened to 64 bits only after it was computed.
  \<open>ntp_value\<close> reads a timestamp as the 64-bit number it stands for; the lemmas relate the
  operators to arithmetic on that number. Timestamps are ordered by \<open>operator<\<close>, which makes
  them a linear order.
\<close>

datatype NtpTime = NtpTime (seconds: u32) (fractional: u32)

section \<open>Operators\<close>

definition ntp_plus :: "NtpTime \<Rightarrow> u32 \<Rightarrow> NtpTime" where
  "ntp_plus lhs msec =
     (let delayFrac = (msec mod 1000) * 4294967;
          s = seconds lhs + (msec div 1000);
          f = fractional lhs + delayFrac
      in NtpTime (if fractional lhs > f \<and> delayFrac > f then s + 1 else s) f)"

definition ntp_minus :: "NtpTime \<Rightarrow> u32 \<Rightarrow> NtpTime" where
  "ntp_minus lhs msec =
     (let delayFrac = (msec mod 1000) * 4294967 in
      if seconds lhs > msec div 1000 then
        (let s = seconds lhs - (msec div 1000) in
         NtpTime (if delayFrac > fractional lhs then s - 1 else s) (fractional lhs - delayFrac))
      else
        NtpTime 0 (if delayFrac \<ge> fractional lhs then 0 else fractional lhs - delayFrac))"

definition ntp_eq :: "NtpTime \<Rightarrow> NtpTime \<Rightarrow> bool" where
  "ntp_eq rhs lhs =
     (if seconds rhs = seconds lhs then fractional rhs = fractional lhs else seconds rhs = seconds lhs)"

definition ntp_less :: "NtpTime \<Rightarrow> NtpTime \<Rightarrow> bool" where
  "ntp_less rhs lhs =
     (if seconds rhs = seconds lhs then fractional rhs < fractional lhs else seconds rhs < seconds lhs)"

definition ntp_greater :: "NtpTime \<Rightarrow> NtpTime \<Rightarrow> bool" where
  "ntp_greater rhs lhs =
     (if seconds rhs = seconds lhs then fractional rhs > fractional lhs else seconds rhs > seconds lhs)"

text \<open>
  The difference in milliseconds. The operands of the final sum are 32-bit unsigned, so the
  sum, and in the second case its negation, are taken modulo \<open>2 ^ 32\<close> before they are
  converted to the 64-bit result.
\<close>

definition ntp_diff :: "NtpTime \<Rightarrow> NtpTime \<Rightarrow> int" where
  "ntp_diff lhs rhs =
     (if ntp_eq lhs rhs then 0
      else if ntp_greater lhs rhs then
        (let s = seconds lhs - seconds rhs;
             (s, f) = (if fractional lhs > fractional rhs then (s, fractional lhs - fractional rhs)
                       else if fractional lhs < fractional rhs
                         then (s - 1, fractional lhs - fractional rhs)
                       else (s, 0))
         in uint (s * 1000 + f div 4294967))
      else
        (let s = seconds rhs - seconds lhs;
             (s, f) = (if fractional rhs \<ge> fractional lhs then (s, fractional rhs - fractional lhs)
                       else if fractional rhs < fractional lhs
                         then (s - 1, fractional rhs - fractional lhs)
                       else (s, 0))
         in uint (- (s * 1000 + f div 4294967))))"

definition getUs :: "NtpTime \<Rightarrow> u64" where
  "getUs t = ucast (seconds t) * 1000000 + ucast (fractional t div 4294)"

definition getMs :: "NtpTime \<Rightarrow> u64" where
  "getMs t = ucast (seconds t) * 1000 + ucast (fractional t div 4294967)"

text \<open>The clock reading \<open>getNtpTime\<close> makes of the seconds and microseconds of \<open>gettimeofday\<close>.\<close>

definition ntp_of_timeval :: "u32 \<Rightarrow> u32 \<Rightarrow> NtpTime" where
  "ntp_of_timeval tv_sec tv_usec = NtpTime tv_sec (tv_usec * 4294)"

section \<open>Timestamps are linearly ordered\<close>

definition ntp_value :: "NtpTime \<Rightarrow> nat" where
  "ntp_value t = unat (seconds t) * 2 ^ 32 + unat (fractional t)"

lemma unat32_bound: "unat (w :: u32) < 4294967296"
  using unsigned_less [of w, where ?'a = nat] by simp

lemma pair_less_iff:
  assumes "f < M" "g < (M :: nat)"
  shows "s * M + f < t * M + g \<longleftrightarrow> s < t \<or> s = t \<and> f < g"
proof -
  have *: "s * M + f < t * M + g" if "s < t" "f < M" for s t f g :: nat
  proof -
    have "s * M + f < Suc s * M" using that by simp
    also have "\<dots> \<le> t * M" using that by (intro mult_le_mono1) simp
    finally show ?thesis by simp
  qed
  show ?thesis using * [of s t f g] * [of t s g f] assms by (cases s t rule: linorder_cases) auto
qed

lemma ntp_value_bound: "ntp_value t < 2 ^ 64"
  using pair_less_iff [of "unat (fractional t)" "2 ^ 32" 0 "unat (seconds t)" "2 ^ 32"]
    unat32_bound [of "seconds t"] unat32_bound [of "fractional t"] by (simp add: ntp_value_def)

lemma ntp_value_inject: "ntp_value a = ntp_value b \<longleftrightarrow> a = b"
proof
  assume eq: "ntp_value a = ntp_value b"
  have "unat (seconds t) = ntp_value t div 2 ^ 32" "unat (fractional t) = ntp_value t mod 2 ^ 32" for t
    using unat32_bound [of "fractional t"] by (simp_all add: ntp_value_def)
  with eq show "a = b" by (metis NtpTime.expand word_unat_eq_iff)
qed simp

lemma ntp_less_value: "ntp_less a b \<longleftrightarrow> ntp_value a < ntp_value b"
  unfolding ntp_value_def
  by (subst pair_less_iff)
    (auto simp: unat32_bound ntp_less_def word_less_nat_alt word_unat_eq_iff)

lemma ntp_greater_value: "ntp_greater a b \<longleftrightarrow> ntp_value b < ntp_value a"
  unfolding ntp_value_def
  by (subst pair_less_iff)
    (auto simp: unat32_bound ntp_greater_def word_less_nat_alt word_unat_eq_iff)

lemma ntp_eq_value: "ntp_eq a b \<longleftrightarrow> a = b"
  by (cases a, cases b) (auto simp: ntp_eq_def)

instantiation NtpTime :: linorder
begin

definition less_NtpTime :: "NtpTime \<Rightarrow> NtpTime \<Rightarrow> bool" where
  "less_NtpTime a b = ntp_less a b"

definition less_eq_NtpTime :: "NtpTime \<Rightarrow> NtpTime \<Rightarrow> bool" where
  "less_eq_NtpTime a b = (ntp_less a b \<or> ntp_eq a b)"

instance
  by standard
    (auto simp: less_NtpTime_def less_eq_NtpTime_def ntp_less_value ntp_eq_value
      simp flip: ntp_value_inject)

end

lemma less_NtpTime_value: "a < b \<longleftrightarrow> ntp_value a < ntp_value b" for a b :: NtpTime
  by (simp add: less_NtpTime_def ntp_less_value)

section \<open>Adding and subtracting milliseconds\<close>

text \<open>The fraction that stands for \<open>k\<close> milliseconds below one second.\<close>

definition ms_fraction :: "u32 \<Rightarrow> nat" where
  "ms_fraction msec = unat msec div 1000 * 2 ^ 32 + unat msec mod 1000 * 4294967"

lemma unat_delayFrac: "unat ((msec mod 1000) * 4294967 :: u32) = unat msec mod 1000 * 4294967"
proof -
  have "unat msec mod 1000 * 4294967 < 2 ^ 32"
    using mod_less_divisor [of 1000 "unat msec"] by simp
  then show ?thesis by (simp add: unat_word_ariths unat_mod)
qed

lemma wrap_carry:
  fixes x y :: u32
  shows "x > x + y \<longleftrightarrow> 2 ^ 32 \<le> unat x + unat y" "y > x + y \<longleftrightarrow> 2 ^ 32 \<le> unat x + unat y"
  using unat32_bound [of x] unat32_bound [of y]
  by (auto simp: word_less_nat_alt unat_word_ariths mod_if)

lemma pair_mod:
  assumes "g < 2 ^ 32"
  shows "(a * 2 ^ 32 + g) mod 2 ^ 64 = (a mod 2 ^ 32) * 2 ^ 32 + (g :: nat)"
proof -
  have "(a * 2 ^ 32 + g) mod (2 ^ 32 * 2 ^ 32) =
      2 ^ 32 * ((a * 2 ^ 32 + g) div 2 ^ 32 mod 2 ^ 32) + (a * 2 ^ 32 + g) mod 2 ^ 32"
    by (rule mod_mult2_eq)
  with assms show ?thesis by simp
qed

lemma ntp_plus_value:
  "ntp_value (ntp_plus t msec) = (ntp_value t + ms_fraction msec) mod 2 ^ 64"
proof -
  let ?d = "(msec mod 1000) * 4294967"
  let ?s = "unat (seconds t)" and ?f = "unat (fractional t)" and ?c = "unat msec div 1000"
  let ?n = "unat msec mod 1000 * 4294967"
  have sum: "ntp_value t + ms_fraction msec = (?s + ?c) * 2 ^ 32 + (?f + ?n)"
    by (simp add: ntp_value_def ms_fraction_def algebra_simps)
  have n: "?n < 2 ^ 32" using unat32_bound [of ?d] by (simp add: unat_delayFrac)
  show ?thesis
  proof (cases "2 ^ 32 \<le> ?f + ?n")
    case True
    then have "ntp_value (ntp_plus t msec) = (?s + ?c + 1) mod 2 ^ 32 * 2 ^ 32 + (?f + ?n - 2 ^ 32)"
      using n unat32_bound [of "fractional t"]
      by (simp add: ntp_plus_def Let_def wrap_carry unat_delayFrac ntp_value_def unat_word_ariths
          unat_div mod_simps ring_wrap)
    also have "\<dots> = ((?s + ?c + 1) * 2 ^ 32 + (?f + ?n - 2 ^ 32)) mod 2 ^ 64"
      using n unat32_bound [of "fractional t"] by (subst pair_mod) auto
    also have "(?s + ?c + 1) * 2 ^ 32 + (?f + ?n - 2 ^ 32) = ntp_value t + ms_fraction msec"
      unfolding sum using True by (simp add: algebra_simps)
    finally show ?thesis .
  next
    case False
    then have "ntp_value (ntp_plus t msec) = (?s + ?c) mod 2 ^ 32 * 2 ^ 32 + (?f + ?n)"
      by (simp add: ntp_plus_def Let_def wrap_carry unat_delayFrac ntp_value_def unat_word_ariths
          unat_div mod_simps)
    with False show ?thesis unfolding sum by (subst pair_mod) auto
  qed
qed

section \<open>Differences\<close>

text \<open>The exact distance of two timestamps in milliseconds, from the 64-bit values.\<close>

definition ntp_distance :: "NtpTime \<Rightarrow> NtpTime \<Rightarrow> nat" where
  "ntp_distance a b =
     (let d = ntp_value a - ntp_value b in d div 2 ^ 32 * 1000 + d mod 2 ^ 32 div 4294967)"

lemma pair_div_mod:
  assumes "v = x * 2 ^ 32 + g" "g < (2 :: nat) ^ 32"
  shows "v div 2 ^ 32 = x" "v mod 2 ^ 32 = g"
  using assms by simp_all

lemma ntp_borrow:
  assumes "ntp_value b \<le> ntp_value a"
  shows "unat (if fractional a < fractional b then seconds a - seconds b - 1 else seconds a - seconds b)
      = (ntp_value a - ntp_value b) div 2 ^ 32"
    and "unat (fractional a - fractional b) = (ntp_value a - ntp_value b) mod 2 ^ 32"
proof -
  let ?sa = "unat (seconds a)" and ?sb = "unat (seconds b)"
  let ?fa = "unat (fractional a)" and ?fb = "unat (fractional b)"
  have bnd: "?fa < 2 ^ 32" "?fb < 2 ^ 32" "?sa < 2 ^ 32"
    using unat32_bound by simp_all
  have le: "?sb < ?sa \<or> ?sb = ?sa \<and> ?fb \<le> ?fa"
    using assms pair_less_iff [OF bnd(1,2), of ?sa ?sb] by (auto simp: ntp_value_def not_less)
  show "unat (if fractional a < fractional b then seconds a - seconds b - 1 else seconds a - seconds b)
      = (ntp_value a - ntp_value b) div 2 ^ 32"
    and "unat (fractional a - fractional b) = (ntp_value a - ntp_value b) mod 2 ^ 32"
  proof (atomize(full), cases "?fa < ?fb")
    case True
    with le have s: "?sb < ?sa" by simp
    then have "ntp_value a - ntp_value b = (?sa - ?sb - 1) * 2 ^ 32 + (2 ^ 32 + ?fa - ?fb)"
      using True bnd by (simp add: ntp_value_def algebra_simps diff_mult_distrib)
    note dm = pair_div_mod [OF this]
    have "2 ^ 32 + ?fa - ?fb < 2 ^ 32" using True bnd by simp
    note dm = dm [OF this]
    have "unat (seconds a - seconds b) = ?sa - ?sb"
      using s by (simp add: unat_sub_if_size word_size)
    then have "unat (seconds a - seconds b - 1) = ?sa - ?sb - 1"
      using s by (simp add: unat_sub_if_size [of "seconds a - seconds b"] word_size)
    moreover have "unat (fractional a - fractional b) = 2 ^ 32 + ?fa - ?fb"
      using True by (simp add: unat_sub_if_size word_size)
    ultimately show "unat (if fractional a < fractional b then seconds a - seconds b - 1 else seconds a - seconds b)
      = (ntp_value a - ntp_value b) div 2 ^ 32 \<and>
      unat (fractional a - fractional b) = (ntp_value a - ntp_value b) mod 2 ^ 32"
      using True unfolding dm word_less_nat_alt by simp
  next
    case False
    with le have s: "?sb \<le> ?sa" by auto
    then have "ntp_value a - ntp_value b = (?sa - ?sb) * 2 ^ 32 + (?fa - ?fb)"
      using False by (simp add: ntp_value_def algebra_simps diff_mult_distrib)
    note dm = pair_div_mod [OF this]
    have "?fa - ?fb < 2 ^ 32" using bnd by simp
    note dm = dm [OF this]
    show "unat (if fractional a < fractional b then seconds a - seconds b - 1 else seconds a - seconds b)
      = (ntp_value a - ntp_value b) div 2 ^ 32 \<and>
      unat (fractional a - fractional b) = (ntp_value a - ntp_value b) mod 2 ^ 32"
      using False s unfolding dm word_less_nat_alt by (simp add: unat_sub_if_size)
  qed
qed

lemma ms_word:
  fixes s f :: u32
  assumes "unat s = x" "unat f = y"
  shows "uint (s * 1000 + f div 4294967) = int ((x * 1000 + y div 4294967) mod 2 ^ 32)"
    and "uint (- (s * 1000 + f div 4294967)) = (- int (x * 1000 + y div 4294967)) mod 2 ^ 32"
proof -
  have "unat (s * 1000 + f div 4294967) = (x * 1000 + y div 4294967) mod 2 ^ 32"
    using assms by (simp add: unat_word_ariths unat_div mod_simps)
  then show e: "uint (s * 1000 + f div 4294967) = int ((x * 1000 + y div 4294967) mod 2 ^ 32)"
    by (simp only: uint_nat)
  have "uint (- w) = (- uint w) mod 2 ^ 32" for w :: u32
    by (simp add: uint_word_ariths)
  then show "uint (- (s * 1000 + f div 4294967)) = (- int (x * 1000 + y div 4294967)) mod 2 ^ 32"
    by (simp only: e zmod_int) (simp add: mod_simps)
qed

lemma ntp_diff_greater:
  assumes "ntp_value b < ntp_value a"
  shows "ntp_diff a b = int (ntp_distance a b mod 2 ^ 32)"
proof -
  let ?s = "if fractional a < fractional b then seconds a - seconds b - 1 else seconds a - seconds b"
  have "ntp_diff a b = uint (?s * 1000 + (fractional a - fractional b) div 4294967)"
    using assms by (auto simp: ntp_diff_def ntp_eq_value ntp_greater_value Let_def)
  then show ?thesis
    unfolding ntp_distance_def Let_def
    using ms_word(1) [OF ntp_borrow] assms by (metis less_imp_le)
qed

lemma ntp_diff_less:
  assumes "ntp_value a < ntp_value b"
  shows "ntp_diff a b = (- int (ntp_distance b a)) mod 2 ^ 32"
proof -
  let ?s = "if fractional b < fractional a then seconds b - seconds a - 1 else seconds b - seconds a"
  have "ntp_diff a b = uint (- (?s * 1000 + (fractional b - fractional a) div 4294967))"
    using assms by (auto simp: ntp_diff_def ntp_eq_value ntp_greater_value Let_def)
  then show ?thesis
    unfolding ntp_distance_def Let_def
    using ms_word(2) [OF ntp_borrow] assms by (metis less_imp_le)
qed

section \<open>Properties\<close>

text \<open>Adding milliseconds to an NTP timestamp is exact 64-bit arithmetic on the pair of words:
  the carry out of the fraction is detected in all cases, and the sum wraps only at \<open>2 ^ 64\<close>.\<close>

theorem ntp_plus_exact:
  "ntp_value (ntp_plus t msec) =
     (ntp_value t + (unat msec div 1000 * 2 ^ 32 + unat msec mod 1000 * 4294967)) mod 2 ^ 64"
  using ntp_plus_value unfolding ms_fraction_def .

text \<open>The millisecond difference of two NTP timestamps is exact (modulo \<open>2 ^ 32\<close>) when the first is
  the later one; when it is the earlier one and they are between one millisecond and 49 days
  apart the result is not the negative distance but \<open>2 ^ 32\<close> minus it, a large positive number.\<close>

theorem ntp_diff_sign:
  assumes "0 < ntp_distance b a" "ntp_distance b a < 2 ^ 32" "ntp_value a < ntp_value b"
  shows "ntp_diff b a = int (ntp_distance b a) \<and> ntp_diff a b = 2 ^ 32 - int (ntp_distance b a)"
proof -
  have "(- int (ntp_distance b a)) mod 2 ^ 32 = 2 ^ 32 - int (ntp_distance b a)"
    using assms(1,2) by (subst zmod_zminus1_eq_if) simp
  then show ?thesis
    using ntp_diff_greater [OF assms(3)] ntp_diff_less [OF assms(3)] assms(2) by simp
qed

theorem ntp_diff_sign_witness:
  "ntp_diff (NtpTime 12 0) (NtpTime 10 0) = int (ntp_distance (NtpTime 12 0) (NtpTime 10 0)) \<and>
   ntp_diff (NtpTime 10 0) (NtpTime 12 0) = 2 ^ 32 - int (ntp_distance (NtpTime 12 0) (NtpTime 10 0))"
  by (rule ntp_diff_sign) (simp_all add: ntp_distance_def ntp_value_def)

end
