(* ===== verification/Rtp_Receiver.thy ===== *)
theory Rtp_Receiver
  imports Jitter_Buffer Rtp_Event Ntp_Time
begin

text \<open>
  \<open>rtp/RtpReceiver.cxx\<close>: the receiving side of an RTP session. A datagram is checked, its
  source is admitted or put on probation, and its payload is placed in the jitter buffer;
  \<open>retrieve\<close> plays from it. The part of \<open>rtp/RtcpReceiver.cxx\<close> that keeps the list of known
  transmitters is here too, because receiver and list call each other. The build is the one
  without \<open>USE_LANFORGE\<close>.

  The network and the clock are arguments: \<open>rx\<close> is what \<open>receiveFrom\<close> returned, and
  \<open>clk 0 .. clk 3\<close> are the readings of \<open>getNtpTime\<close> in the order the code can make them.
  The silence patching loop is a partial function whose value \<open>None\<close> means that it does not
  return; the lemmas show that it does.
\<close>

section \<open>State\<close>

datatype RtpReceiverError = recv_success | recv_bufferEmpty | recv_lostPacket | recv_notGoTime

text \<open>The source description of a transmitter: seven arrays of 256 characters.\<close>

record SDESdata =
  sdes_cname :: "octet list"
  sdes_name :: "octet list"
  sdes_email :: "octet list"
  sdes_phone :: "octet list"
  sdes_loc :: "octet list"
  sdes_tool :: "octet list"
  sdes_note :: "octet list"

text \<open>An entry of the transmitter list; \<open>recv_attached\<close> says that \<open>recv\<close> is not null.\<close>

record RtpTranInfo =
  recv_attached :: bool
  tran_ssrc :: u32
  expectedPrior :: int
  receivedPrior :: int
  SDESInfo :: SDESdata
  lastSRTimestamp :: u32
  recvLastSRTimestamp :: NtpTime

text \<open>
  \<open>new RtpTranInfo()\<close> with the assignments that follow it in \<open>addTranInfo\<close>. The arrays are
  zero, because the object is value-initialised. The time in \<open>recvLastSRTimestamp\<close> is only read
  when \<open>lastSRTimestamp\<close> is not 0, and the two are set together, so its first value does not
  matter.
\<close>

definition blank_SDES :: SDESdata where
  "blank_SDES = \<lparr>sdes_cname = replicate 256 0, sdes_name = replicate 256 0, sdes_email = replicate 256 0,
     sdes_phone = replicate 256 0, sdes_loc = replicate 256 0, sdes_tool = replicate 256 0, sdes_note = replicate 256 0\<rparr>"

definition new_RtpTranInfo :: "u32 \<Rightarrow> bool \<Rightarrow> RtpTranInfo" where
  "new_RtpTranInfo src recv =
     \<lparr>recv_attached = recv, tran_ssrc = src, expectedPrior = 0, receivedPrior = 0, SDESInfo = blank_SDES,
      lastSRTimestamp = 0, recvLastSRTimestamp = NtpTime 0 0\<rparr>"

lemma new_RtpTranInfo_fields [simp]:
  "recv_attached (new_RtpTranInfo src recv) = recv" "tran_ssrc (new_RtpTranInfo src recv) = src"
  "expectedPrior (new_RtpTranInfo src recv) = 0" "receivedPrior (new_RtpTranInfo src recv) = 0"
  "SDESInfo (new_RtpTranInfo src recv) = blank_SDES" "lastSRTimestamp (new_RtpTranInfo src recv) = 0"
  by (simp_all add: new_RtpTranInfo_def)

record RtpReceiver = RtpEventReceiver +
  invalidPldSize :: u64
  sidPktsRcvd :: u64
  receiverError :: RtpReceiverError
  seq_loss_max :: int
  sourceSet :: bool
  ssrc :: u32
  probationSet :: bool
  srcProbation :: u32
  probation :: int
  seedSeq :: u32
  seedNtpTime :: NtpTime
  seedRtpTime :: u32
  packetReceived :: int
  payloadReceived :: int
  realPrevSeqRecv :: u16
  recv_cycles :: u32
  comfortNoiseDropped :: u32
  lastTransit_ms :: u64
  jitter :: int
  rtcpRecv :: "(u32 \<rightharpoonup> RtpTranInfo) option"
  format :: int
  sampleSize :: int
  perSampleSize :: int
  clockRate :: int
  tmpPkt :: RtpPacket
  readRealVoiceAlready :: bool

definition constructRtpReceiver :: "int \<Rightarrow> int \<Rightarrow> int \<Rightarrow> int \<Rightarrow> int \<Rightarrow> RtpReceiver \<Rightarrow> RtpReceiver outcome" where
  "constructRtpReceiver fmt clockrate per_sample_size samplesize jitter_buffer_sz r =
     oassert (samplesize < 1472) (Inr (r\<lparr>
       invalidPldSize := 0, sidPktsRcvd := 0, inPos := 0, playPos := 0,
       cur_max_jbs := nat (jitter_buffer_sz mod 2 ^ 32),
       jitterBuffer := replicate JITTER_BUFFER_MAX None,
       readRealVoiceAlready := False, comfortNoiseDropped := 0, format := fmt,
       clockRate := clockrate, perSampleSize := per_sample_size, sampleSize := samplesize,
       seq_loss_max := 100, sourceSet := False, ssrc := 0, probationSet := False,
       srcProbation := 0, probation := -2, rtcpRecv := None,
       realPrevSeqRecv := 0, recv_cycles := 0\<rparr>))"

text \<open>The constructor: base class, \<open>tmpPkt(1024)\<close>, then \<open>constructRtpReceiver\<close>.\<close>

definition new_RtpReceiver :: "int \<Rightarrow> int \<Rightarrow> int \<Rightarrow> int \<Rightarrow> int \<Rightarrow> RtpReceiver \<Rightarrow> RtpReceiver outcome" where
  "new_RtpReceiver fmt clockrate per_sample_size samplesize jitter_buffer_sz r =
     obind (new_RtpPacket (tmpPkt r) 1024 0 0) (\<lambda>p.
       constructRtpReceiver fmt clockrate per_sample_size samplesize jitter_buffer_sz
         ((new_RtpEventReceiver r)\<lparr>tmpPkt := p\<rparr>))"

definition setRTCPrecv :: "(u32 \<rightharpoonup> RtpTranInfo) option \<Rightarrow> RtpReceiver \<Rightarrow> RtpReceiver" where
  "setRTCPrecv s r = r\<lparr>rtcpRecv := s\<rparr>"

definition setFormat :: "int \<Rightarrow> RtpReceiver \<Rightarrow> RtpReceiver" where
  "setFormat newtype r = r\<lparr>format := newtype\<rparr>"

section \<open>The transmitter list of the RTCP receiver\<close>

definition addTranFinal :: "RtpTranInfo \<Rightarrow> (u32 \<rightharpoonup> RtpTranInfo) \<Rightarrow> int \<times> (u32 \<rightharpoonup> RtpTranInfo)" where
  "addTranFinal s l = (if l (tran_ssrc s) \<noteq> None then (1, l) else (0, l(tran_ssrc s \<mapsto> s)))"

definition addTranInfo :: "u32 \<Rightarrow> u32 option \<Rightarrow> (u32 \<rightharpoonup> RtpTranInfo) \<Rightarrow> (u32 \<rightharpoonup> RtpTranInfo) outcome" where
  "addTranInfo src recv l =
     oassert (case recv of None \<Rightarrow> True | Some recv_ssrc \<Rightarrow> src = recv_ssrc)
      (let s = new_RtpTranInfo src (recv \<noteq> None);
           (found, l) = addTranFinal s l in
       if found \<noteq> 0 then
         (case l src of
            None \<Rightarrow> Inl NullDeref
          | Some t \<Rightarrow> oassert (\<not> recv_attached t) (Inr (l(src \<mapsto> t\<lparr>recv_attached := (recv \<noteq> None)\<rparr>))))
       else Inr l)"

definition findTranInfo :: "u32 \<Rightarrow> (u32 \<rightharpoonup> RtpTranInfo) \<Rightarrow> (RtpTranInfo option \<times> (u32 \<rightharpoonup> RtpTranInfo)) outcome" where
  "findTranInfo src l =
     (case l src of
        None \<Rightarrow> obind (addTranInfo src None l) (\<lambda>l. Inr (l src, l))
      | Some info \<Rightarrow> Inr (Some info, l))"

text \<open>
  \<open>removeSource\<close> calls \<open>removeTranInfo\<close> with the flag 1, and \<open>removeTranInfo\<close> calls
  \<open>removeSource\<close> with the flag 1 when its own flag is 0, so neither call comes back.
  \<open>dropTranInfo\<close> is \<open>removeTranInfo\<close> with the flag 1.
\<close>

definition dropTranInfo :: "u32 \<Rightarrow> (u32 \<rightharpoonup> RtpTranInfo) \<Rightarrow> (u32 \<rightharpoonup> RtpTranInfo) outcome" where
  "dropTranInfo src l = oassert (l src \<noteq> None) (Inr (l(src := None)))"

definition removeSource :: "u32 \<Rightarrow> bool \<Rightarrow> RtpReceiver \<Rightarrow> RtpReceiver outcome" where
  "removeSource s flag r =
     (let r = r\<lparr>probationSet := True, srcProbation := s, sourceSet := False, ssrc := 0, probation := -2\<rparr> in
      case rtcpRecv r of
        None \<Rightarrow> Inr r
      | Some l \<Rightarrow> if flag then Inr r else obind (dropTranInfo s l) (\<lambda>l. Inr (r\<lparr>rtcpRecv := Some l\<rparr>)))"

definition removeTranInfo :: "u32 \<Rightarrow> bool \<Rightarrow> RtpReceiver \<Rightarrow> RtpReceiver outcome" where
  "removeTranInfo src flag r =
     (case rtcpRecv r of
        None \<Rightarrow> Inl NullDeref
      | Some l \<Rightarrow>
        (case l src of
           None \<Rightarrow> Inl AssertFailed
         | Some info \<Rightarrow>
           obind (if recv_attached info \<and> \<not> flag then removeSource (tran_ssrc info) True r else Inr r)
             (\<lambda>r. Inr (r\<lparr>rtcpRecv := Some (l(src := None))\<rparr>))))"

text \<open>The sources named in a BYE packet, in order.\<close>

definition readBYE :: "u32 list \<Rightarrow> RtpReceiver \<Rightarrow> RtpReceiver outcome" where
  "readBYE srcs r = ofold (\<lambda>src. removeTranInfo src False) srcs r"

section \<open>Sources\<close>

definition initSource :: "NtpTime \<Rightarrow> RtpPacket \<Rightarrow> RtpReceiver \<Rightarrow> RtpReceiver outcome" where
  "initSource now pkt r =
     oassert (ssrc r = getSSRC pkt)
      (Inr ((clearJitterBuffer (r\<lparr>seedSeq := getSequence pkt, seedNtpTime := now,
               seedRtpTime := getRtpTime pkt\<rparr>))
         \<lparr>readRealVoiceAlready := False, lastTransit_ms := 0, jitter := 0\<rparr>))"

definition addSource :: "NtpTime \<Rightarrow> RtpPacket \<Rightarrow> RtpReceiver \<Rightarrow> (int \<times> RtpReceiver) outcome" where
  "addSource now pkt r =
     (if sourceSet r \<and> probation r < 4 then Inr (1, r\<lparr>probation := probation r + 1\<rparr>)
      else
        obind (if sourceSet r then removeSource (ssrc r) False r else Inr r) (\<lambda>r.
        if sourceSet r \<and> getSSRC pkt = srcProbation r \<and> probationSet r then Inr (1, r)
        else
          let r = r\<lparr>sourceSet := True, ssrc := getSSRC pkt, probation := 0,
                     packetReceived := 0, payloadReceived := 0,
                     realPrevSeqRecv := 0, recv_cycles := 0\<rparr> in
          obind (case rtcpRecv r of
                   None \<Rightarrow> Inr r
                 | Some l \<Rightarrow> obind (addTranInfo (ssrc r) (Some (ssrc r)) l)
                     (\<lambda>l. Inr (r\<lparr>rtcpRecv := Some l\<rparr>))) (\<lambda>r.
          obind (initSource now pkt r) (\<lambda>r. Inr (0, r)))))"

definition checkCycle :: "u16 \<Rightarrow> RtpReceiver \<Rightarrow> RtpReceiver" where
  "checkCycle ts r =
     (if realPrevSeqRecv r > ts \<and> uint (realPrevSeqRecv r) > uint ts + 10000
      then r\<lparr>recv_cycles := recv_cycles r + 1\<rparr> else r)\<lparr>realPrevSeqRecv := ts\<rparr>"

definition updateSource :: "(nat \<Rightarrow> NtpTime) \<Rightarrow> RtpPacket \<Rightarrow> RtpReceiver \<Rightarrow> (int \<times> RtpReceiver) outcome" where
  "updateSource clk pkt r =
     (if sourceSet r \<and> getSSRC pkt = srcProbation r \<and> probationSet r then Inr (1, r)
      else
        obind (if \<not> sourceSet r \<or> getSSRC pkt \<noteq> ssrc r then addSource (clk 0) pkt r else Inr (0, r))
         (\<lambda>(rejected, r).
           if rejected \<noteq> 0 then Inr (1, r)
           else
             let r = checkCycle (ucast (getSequence pkt)) r in
             oassert (probation r \<ge> 0)
              (if getPayloadType pkt = rtpPayloadCN \<or> getPayloadType pkt = 13
               then Inr (1, r\<lparr>comfortNoiseDropped := comfortNoiseDropped r + 1\<rparr>)
               else if getPayloadType pkt \<noteq> format r
               then obind (initSource (clk 1) pkt r) (\<lambda>r. Inr (0, r))
               else Inr (0, r))))"

section \<open>Reading a datagram\<close>

text \<open>What \<open>receiveFrom\<close> gives: a datagram, cut to the buffer, or a value that is not positive.\<close>

datatype rx = Received "octet list" | NotReceived int

definition EINVAL :: int where "EINVAL = 22"

definition receiveFrom :: "rx \<Rightarrow> RtpPacket \<Rightarrow> (int \<times> RtpPacket) outcome" where
  "receiveFrom rx pkt =
     (case rx of
        NotReceived n \<Rightarrow> Inr (n, pkt)
      | Received bs \<Rightarrow>
          let bs = take (nat (packetAlloc pkt)) bs in
          obind (mem_write 0 bs (packetData pkt)) (\<lambda>d. Inr (int (length bs), pkt\<lparr>packetData := d\<rparr>)))"

definition getPacket :: "rx \<Rightarrow> (nat \<Rightarrow> NtpTime) \<Rightarrow> RtpPacket \<Rightarrow> RtpReceiver \<Rightarrow> (int \<times> RtpPacket \<times> RtpReceiver) outcome" where
  "getPacket rx clk pkt r =
     obind (receiveFrom rx pkt) (\<lambda>(len, pkt).
      if len = 0 then Inr (0, pkt, r)
      else
        obind (setTotalUsage len pkt) (\<lambda>pkt.
        obind (isValid pkt) (\<lambda>(valid, pkt).
        if \<not> valid then Inr (- EINVAL, pkt, r)
        else if getPayloadType pkt = rtpPayloadDTMF_RFC2833 \<or> getPayloadType pkt = rtpPayloadCiscoRtp then
          (if DTMFInterface_set r then obind (recvEvent pkt r) (\<lambda>r. Inr (0, pkt, r))
           else Inr (len, pkt, r))
        else
          obind (updateSource clk pkt r) (\<lambda>(discard, r).
          if discard \<noteq> 0 then Inr (- EINVAL, pkt, r) else Inr (len, pkt, r)))))"

text \<open>Byte order of 16-bit samples: \<open>rtp/rtpCodec.cxx\<close> on a little-endian machine.\<close>

fun swap_pairs :: "'a list \<Rightarrow> 'a list" where
  "swap_pairs (a # b # xs) = b # a # swap_pairs xs"
| "swap_pairs xs = xs"

definition swap_samples :: "RtpPacket \<Rightarrow> RtpPacket outcome" where
  "swap_samples p =
     (if getPayloadType p = rtpPayloadL16_mono then
        let n = 2 * ((nat (getPayloadUsage p) + 1) div 2) in
        obind (mem_read (getPayloadLoc p) n (packetData p)) (\<lambda>bs.
        obind (mem_write (getPayloadLoc p) (swap_pairs bs) (packetData p)) (\<lambda>d.
        Inr (p\<lparr>packetData := d\<rparr>)))
      else Inr p)"

definition rtp_htonl :: "RtpPacket \<Rightarrow> RtpPacket outcome" where
  "rtp_htonl p = obind (swap_samples p) (\<lambda>p. Inr (p\<lparr>converted_to_nbo := True\<rparr>))"

definition rtp_ntohl :: "RtpPacket \<Rightarrow> RtpPacket outcome" where
  "rtp_ntohl p = obind (swap_samples p) (\<lambda>p. Inr (p\<lparr>converted_to_hbo := True\<rparr>))"

section \<open>Placing a packet in the jitter buffer\<close>

text \<open>Conversion of an unsigned count to \<open>int\<close>.\<close>

definition c_int :: "nat \<Rightarrow> int" where
  "c_int n = sint (word_of_nat n :: u32)"

definition earlyPacket :: "RtpData option \<Rightarrow> RtpPacket \<Rightarrow> RtpReceiver \<Rightarrow> bool outcome" where
  "earlyPacket lastPkt pkt r =
     (case lastPkt of
        None \<Rightarrow> Inr False
      | Some d \<Rightarrow> obind (RtpSeqDifference (getSequence pkt) (rtp_seq_no d))
          (\<lambda>diff. Inr (diff > c_int (cur_max_jbs r))))"

text \<open>An empty buffer is primed with silence up to half its size, then gets the packet.\<close>

definition primeAndAppend :: "RtpPacket \<Rightarrow> RtpReceiver \<Rightarrow> RtpReceiver outcome" where
  "primeAndAppend pkt r =
     (let p = int (cur_max_jbs r div 2) - 1 in
      obind (ofold (\<lambda>numprev. insertSilenceRtpData
                 (getRtpTime pkt - word_of_int (sampleSize r * int numprev))
                 (ucast (getSequence pkt - word_of_nat numprev)))
               (rev [1..<Suc (nat p)]) r)
        (appendRtpData pkt))"

text \<open>The loop that fills the gap before a packet that is ahead of its predecessor.\<close>

partial_function (option) silencePatch ::
    "u32 \<Rightarrow> u32 \<Rightarrow> int \<Rightarrow> u16 \<Rightarrow> u32 \<Rightarrow> RtpReceiver \<Rightarrow> RtpReceiver outcome option" where
  "silencePatch pktTime seq ss prevSeqRecv prevPacketRtpTime r =
     odo (RtpTimeGreater (pktTime - word_of_int ss) prevPacketRtpTime) (\<lambda>greater.
      if \<not> greater then Some (Inr r)
      else odo (RtpSeqDifference seq (ucast prevSeqRecv)) (\<lambda>tmp.
        if tmp \<le> 1 then Some (Inr r)
        else odo (insertSilenceRtpData (prevPacketRtpTime + word_of_int ss) (prevSeqRecv + 1) r) (\<lambda>r.
          odo (getLastRtpData r) (\<lambda>lastPkt.
            case lastPkt of
              None \<Rightarrow> Some (Inl NullDeref)
            | Some d \<Rightarrow> silencePatch pktTime seq ss (ucast (rtp_seq_no d)) (rtp_time d) r))))"

definition placeLate :: "RtpData \<Rightarrow> RtpPacket \<Rightarrow> RtpReceiver \<Rightarrow> RtpReceiver outcome" where
  "placeLate lastPkt pkt r =
     obind (RtpSeqDifference (rtp_seq_no lastPkt) (getSequence pkt)) (\<lambda>sd.
     obind (getJitterPktsInQueueCount r) (\<lambda>c.
       if sd + 1 > c_int c then Inr r
       else obind (calculatePreviousInPos (sd + 1) r) (\<lambda>idx. setRtpData pkt idx r)))"

definition insertPacket :: "RtpPacket \<Rightarrow> RtpReceiver \<Rightarrow> RtpReceiver outcome option" where
  "insertPacket pkt r =
     odo (getLastRtpData r) (\<lambda>lastPkt.
     odo (earlyPacket lastPkt pkt r) (\<lambda>early.
      if early \<or> lastPkt = None
      then Some (primeAndAppend pkt (if early then clearJitterBuffer r else r))
      else odo (getLastRtpData r) (\<lambda>lastPkt.
        case lastPkt of
          None \<Rightarrow> Some (Inl AssertFailed)
        | Some d \<Rightarrow>
          odo (RtpSeqGreater (getSequence pkt) (ucast (ucast (rtp_seq_no d) :: u16))) (\<lambda>greater.
            if greater then
              map_option (\<lambda>out. obind out (appendRtpData pkt))
                (silencePatch (getRtpTime pkt) (getSequence pkt) (sampleSize r)
                   (ucast (rtp_seq_no d)) (rtp_time d) r)
            else Some (placeLate d pkt r)))))"

section \<open>Interarrival jitter\<close>

definition rtp2ntp :: "u32 \<Rightarrow> RtpReceiver \<Rightarrow> NtpTime outcome" where
  "rtp2ntp rtpTime r =
     (if (word_of_int (clockRate r) :: u32) = 0 then Inl DivByZero
      else Inr (ntp_plus (seedNtpTime r) ((rtpTime - seedRtpTime r) * 1000 div word_of_int (clockRate r))))"

definition updateJitter :: "NtpTime \<Rightarrow> NtpTime \<Rightarrow> RtpPacket \<Rightarrow> RtpReceiver \<Rightarrow> RtpReceiver outcome" where
  "updateJitter now later pkt r =
     obind (rtp2ntp (getRtpTime pkt) r) (\<lambda>tmpntp.
      let transit = ntp_diff now tmpntp;
          delay = sint (ucast (word_of_int transit - lastTransit_ms r) :: u32);
          (transit, delay, r) =
            (if delay > 500000 \<or> delay < -500000
             then (0, 0, r\<lparr>seedNtpTime := later, seedRtpTime := getRtpTime pkt\<rparr>)
             else (transit, delay, r))
      in Inr (r\<lparr>lastTransit_ms := word_of_int transit,
                jitter := int32 (jitter r + (\<bar>delay\<bar> - int32 (jitter r + 8) div 16))\<rparr>))"

section \<open>Receiving and playing\<close>

definition readNetwork :: "rx \<Rightarrow> (nat \<Rightarrow> NtpTime) \<Rightarrow> RtpReceiver \<Rightarrow> (int \<times> RtpReceiver) outcome option" where
  "readNetwork rx clk r =
     odo (clear (tmpPkt r)) (\<lambda>pkt.
     odo (getPacket rx clk pkt r) (\<lambda>(rv, pkt, r).
      let r = r\<lparr>tmpPkt := pkt\<rparr> in
      if rv \<le> 0 then Some (Inr (rv, r))
      else if probation r < 0 then Some (Inr (-1, r))
      else odo (rtp_ntohl pkt) (\<lambda>pkt.
        let r = r\<lparr>tmpPkt := pkt\<rparr>; len = getPayloadUsage pkt in
        if len \<le> 0 \<or> len > 1012 then Some (Inr (-2, r\<lparr>invalidPldSize := invalidPldSize r + 1\<rparr>))
        else
          map_option (\<lambda>out.
            obind out (\<lambda>r.
            obind (verifyJbSanity r) (\<lambda>_.
            obind (updateJitter (clk 2) (clk 3) pkt (r\<lparr>packetReceived := int32 (packetReceived r + 1),
                     payloadReceived := int32 (payloadReceived r + len)\<rparr>)) (\<lambda>r.
            Inr (0, r)))))
           (insertPacket pkt r))))"

definition slot_at :: "nat \<Rightarrow> 'a JitterBuffer_scheme \<Rightarrow> RtpData outcome" where
  "slot_at i r = obind (jb_slot r i) (\<lambda>s. case s of None \<Rightarrow> Inl NullDeref | Some d \<Rightarrow> Inr d)"

definition release :: "nat \<Rightarrow> RtpData \<Rightarrow> 'a JitterBuffer_scheme \<Rightarrow> 'a JitterBuffer_scheme" where
  "release i d r = incrementPlayPos (jb_store r i (d\<lparr>rd_in_use := False\<rparr>))"

text \<open>The entry to play: a silence is skipped when the buffer is more than half full.\<close>

definition nextToPlay :: "'a JitterBuffer_scheme \<Rightarrow> (RtpData \<times> 'a JitterBuffer_scheme) outcome" where
  "nextToPlay r =
     obind (slot_at (playPos r) r) (\<lambda>jbp.
     oassert (rd_in_use jbp)
      (obind (getJitterPktsInQueueCount r) (\<lambda>c.
       obind (if rd_silence_fill jbp \<and> cur_max_jbs r \<ge> 2 \<and> c > cur_max_jbs r div 2 + 1
              then let r = release (playPos r) jbp r in
                obind (slot_at (playPos r) r) (\<lambda>jbp. Inr (jbp, r))
              else Inr (jbp, r)) (\<lambda>(jbp, r).
       oassert (rd_in_use jbp) (Inr (jbp, r))))))"

definition fillPacket :: "RtpData \<Rightarrow> RtpReceiver \<Rightarrow> RtpPacket \<Rightarrow> RtpPacket outcome" where
  "fillPacket jbp r pkt =
     obind (mem_write (getPayloadLoc pkt) (rd_data jbp) (packetData pkt)) (\<lambda>d.
     obind (setPayloadType (format r)
         (setSSRC (ssrc r) (pkt\<lparr>packetData := d, is_silence_fill := rd_silence_fill jbp\<rparr>))) (\<lambda>pkt.
     obind (setPayloadUsage (int (length (rd_data jbp))) pkt) (\<lambda>pkt.
     Inr (setSequence (rtp_seq_no jbp) (setRtpTime (rtp_time jbp) pkt)))))"

definition notePlayed :: "RtpPacket \<Rightarrow> RtpReceiver \<Rightarrow> RtpReceiver" where
  "notePlayed pkt r =
     (let r = (if is_silence_fill pkt then r else r\<lparr>readRealVoiceAlready := True\<rparr>);
          r = (if probation r > 0 then r\<lparr>probation := probation r - 1\<rparr> else r)
      in r\<lparr>receiverError := recv_success\<rparr>)"

definition retrieve :: "RtpPacket \<Rightarrow> RtpReceiver \<Rightarrow> (int \<times> RtpPacket \<times> RtpReceiver) outcome" where
  "retrieve pkt r =
     obind (getJitterPktsInQueueCount r) (\<lambda>c.
      if c = 0 then Inr (1, pkt\<lparr>is_silence_fill := True\<rparr>, r\<lparr>receiverError := recv_bufferEmpty\<rparr>)
      else
        obind (clear pkt) (\<lambda>pkt.
        obind (nextToPlay r) (\<lambda>(jbp, r).
        obind (fillPacket jbp r pkt) (\<lambda>pkt.
        let r = release (playPos r) jbp (notePlayed pkt r) in
        obind (verifyJbSanity r) (\<lambda>_. Inr (int (length (rd_data jbp)), pkt, r))))))"

end
