(* ===== verification/Playout.thy ===== *)
theory Playout
  imports Rtp_Receiver
begin

text \<open>
  What the jitter buffer of \<open>rtp/RtpReceiver.cxx\<close> promises, and the proof that the receiver
  keeps it. The specification counts the packets of a stream by their position, an unbounded
  integer, so that neither sequence numbers nor timestamps wrap in it: its state is the
  position that is played next and the list of payloads waiting, with \<open>None\<close> for a silence
  that stands in for a packet not yet received. \<open>represents\<close> relates a receiver to such a
  state; \<open>insertPacket\<close> and \<open>retrieve\<close> refine \<open>arrive\<close> and \<open>play\<close>.
\<close>

section \<open>The ring as a bounded queue of stamped payloads\<close>

definition heard :: "RtpData \<Rightarrow> octet list option" where
  "heard d = (if rd_silence_fill d then None else Some (rd_data d))"

definition entry_view :: "RtpData \<Rightarrow> u32 \<times> u32 \<times> octet list option" where
  "entry_view d = (rtp_seq_no d, rtp_time d, heard d)"

definition jb_view :: "'a JitterBuffer_scheme \<Rightarrow> (u32 \<times> u32 \<times> octet list option) list" where
  "jb_view r = map entry_view (jb_list r)"

lemma length_jb_view [simp]: "length (jb_view r) = jb_count r"
  by (simp add: jb_view_def)

text \<open>Every object in the array, in use or not, holds a payload that a packet can carry.\<close>

definition wf_entry :: "RtpData \<Rightarrow> bool" where
  "wf_entry d \<longleftrightarrow> length (rd_data d) \<le> 1012 \<and> rtp_seq_no d < RTP_SEQ_MOD"

definition slots_ok :: "'a JitterBuffer_scheme \<Rightarrow> bool" where
  "slots_ok r \<longleftrightarrow> (\<forall>d. Some d \<in> set (jitterBuffer r) \<longrightarrow> wf_entry d)"

definition jb_ok :: "'a JitterBuffer_scheme \<Rightarrow> bool" where
  "jb_ok r \<longleftrightarrow> jb_inv r \<and> slots_ok r"

lemma ucast16_less_mod: "(ucast (w :: u16) :: u32) < RTP_SEQ_MOD"
proof -
  have "uint (ucast w :: u32) = uint w"
    unfolding ucast16_of_int using uint16_bounds [of w] by (intro uint32_of_int) simp_all
  then show ?thesis using uint16_bounds [of w] by (simp add: RTP_SEQ_MOD_eq word_less_def)
qed

lemma seq_no_cut:
  assumes "w < RTP_SEQ_MOD" shows "ucast (ucast w :: u16) = w"
proof -
  have "unat w < 65536" using assms by (simp add: RTP_SEQ_MOD_eq word_less_nat_alt)
  then have "unat (ucast (ucast w :: u16) :: u32) = unat w"
    by (simp add: unsigned_ucast_eq unsigned_take_bit_eq take_bit_nat_eq_self)
  then show ?thesis by (simp add: word_unat_eq_iff)
qed

lemma slots_ok_update:
  "slots_ok r \<Longrightarrow> wf_entry d \<Longrightarrow> set (jitterBuffer r') \<subseteq> insert (Some d) (set (jitterBuffer r)) \<Longrightarrow> slots_ok r'"
  by (auto simp: slots_ok_def)

lemma slots_ok_push: "slots_ok r \<Longrightarrow> jb_bounds r \<Longrightarrow> wf_entry d \<Longrightarrow> slots_ok (jb_push d r)"
  using set_update_subset_insert [of "jitterBuffer r" "inPos r" "Some d"]
  by (simp add: slots_ok_update [of r d] jb_push_positions)

lemma slots_ok_store: "slots_ok r \<Longrightarrow> wf_entry d \<Longrightarrow> slots_ok (jb_store r i d)"
  using set_update_subset_insert [of "jitterBuffer r" i "Some d"]
  by (simp add: slots_ok_update [of r d] jb_store_def)

lemma slots_ok_list: "jb_ok r \<Longrightarrow> d \<in> set (jb_list r) \<Longrightarrow> wf_entry d"
proof -
  assume ok: "jb_ok r" and "d \<in> set (jb_list r)"
  then obtain k where k: "k < jb_count r" "d = jb_list r ! k" by (auto simp: in_set_conv_nth)
  have inv: "jb_inv r" and b: "jb_bounds r" using ok by (auto simp: jb_ok_def)
  then have "Some d \<in> set (jitterBuffer r)"
    using jb_inv_Some [OF inv k(1)] k(2) ring_at_length [OF b, of k] by (metis nth_mem)
  with ok show ?thesis by (simp add: jb_ok_def slots_ok_def)
qed

lemma push_keeps [simp]:
  "cur_max_jbs (jb_push d r) = cur_max_jbs r" "JitterBuffer.more (jb_push d r) = JitterBuffer.more r"
  by (simp_all add: jb_push_def incrementInPos_def incrementPlayPos_def jb_store_def)

lemma push_view:
  assumes ok: "jb_ok r" and d: "rd_in_use d" "wf_entry d"
  shows "jb_ok (jb_push d r)" "jb_view (jb_push d r) = lastn (cur_max_jbs r) (jb_view r @ [entry_view d])"
proof -
  have inv: "jb_inv r" and b: "jb_bounds r" and s: "slots_ok r" using ok by (auto simp: jb_ok_def)
  show "jb_ok (jb_push d r)"
    using jb_push_queue(1) [OF inv d(1)] slots_ok_push [OF s b d(2)] by (simp add: jb_ok_def)
  have "jb_view (jb_push d r) =
      (if length (jb_view r) = cur_max_jbs r then tl (jb_view r) else jb_view r) @ [entry_view d]"
    using jb_push_queue(2) [OF inv d(1)] by (simp add: jb_view_def map_tl)
  also have "\<dots> = lastn (cur_max_jbs r) (jb_view r @ [entry_view d])"
    using b jb_count_inPos(1) [OF b] by (intro lastn_snoc) (simp_all add: jb_bounds_def)
  finally show "jb_view (jb_push d r) = lastn (cur_max_jbs r) (jb_view r @ [entry_view d])" .
qed

lemma silence_entry_wf:
  assumes "jb_ok r" shows "wf_entry (silence_entry time seq r)"
proof -
  have b: "jb_bounds r" and s: "slots_ok r" using assms by (auto simp: jb_ok_def)
  then have "inPos r < length (jitterBuffer r)" by (simp add: jb_bounds_def)
  then have "jitterBuffer r ! inPos r \<in> set (jitterBuffer r)" by (rule nth_mem)
  then have "length (rd_data (case jitterBuffer r ! inPos r of None \<Rightarrow> new_RtpData | Some d \<Rightarrow> d)) \<le> 1012"
    using s by (auto simp: slots_ok_def wf_entry_def new_RtpData_def split: option.splits)
  then show ?thesis by (simp add: silence_entry_def wf_entry_def ucast16_less_mod)
qed

lemma insertSilenceRtpData_view:
  assumes ok: "jb_ok r"
  shows "\<exists>r'. insertSilenceRtpData time seq r = Inr r' \<and>
    (jb_ok r' \<and> JitterBuffer.more r' = JitterBuffer.more r) \<and> cur_max_jbs r' = cur_max_jbs r \<and>
    jb_view r' = lastn (cur_max_jbs r) (jb_view r @ [(ucast seq, time, None)])"
proof -
  let ?d = "silence_entry time seq r"
  have "jb_inv r" using ok by (simp add: jb_ok_def)
  from insertSilenceRtpData_eq [OF this] show ?thesis
    using push_view [OF ok, of ?d] silence_entry_wf [OF ok, of time seq]
    by (simp add: entry_view_def heard_def)
qed

interpretation silence: bounded_queue
  "\<lambda>r. jb_ok r \<and> JitterBuffer.more r = w" cur_max_jbs jb_view
  "\<lambda>(time, seq). insertSilenceRtpData time seq" "\<lambda>(time, seq). (ucast seq, time, None)"
  for w :: 'a
proof
  fix s :: "'a JitterBuffer_scheme" assume "jb_ok s \<and> JitterBuffer.more s = w"
  then have b: "jb_bounds s" by (auto simp: jb_ok_def)
  then show "0 < cur_max_jbs s" by (simp add: jb_bounds_def)
  show "length (jb_view s) \<le> cur_max_jbs s" using jb_count_inPos(1) [OF b] by simp
next
  fix s :: "'a JitterBuffer_scheme" and x :: "u32 \<times> u16"
  assume "jb_ok s \<and> JitterBuffer.more s = w"
  then show "\<exists>s'. (case x of (time, seq) \<Rightarrow> insertSilenceRtpData time seq) s = Inr s' \<and>
      (jb_ok s' \<and> JitterBuffer.more s' = w) \<and> cur_max_jbs s' = cur_max_jbs s \<and>
      jb_view s' = lastn (cur_max_jbs s) (jb_view s @ [case x of (time, seq) \<Rightarrow> (ucast seq, time, None)])"
    using insertSilenceRtpData_view [of s "fst x" "snd x"] by (auto simp: case_prod_beta)
qed

text \<open>Packets as entries.\<close>

definition pkt_ok :: "RtpPacket \<Rightarrow> bool" where
  "pkt_ok pkt \<longleftrightarrow> length (packetData pkt) = RTP_MTU \<and> 0 < getPayloadUsage pkt \<and> getPayloadUsage pkt \<le> 1012"

definition pkt_payload :: "RtpPacket \<Rightarrow> octet list" where
  "pkt_payload pkt = take (nat (getPayloadUsage pkt)) (drop (getPayloadLoc pkt) (packetData pkt))"

lemma getPayloadLoc_bound: "getPayloadLoc pkt \<le> 72"
  using getCSRCcount_bounds [of pkt] by (simp add: getPayloadLoc_def sizeof_RtpHeader_def sizeof_RtpSrc_def)

lemma pkt_ok_fits: "pkt_ok pkt \<Longrightarrow> packet_fits pkt"
  using getPayloadLoc_bound [of pkt] by (auto simp: pkt_ok_def packet_fits_def RTP_MTU_def MAX_RTP_DATA_def)

lemma entry_of_view: "entry_view (entry_of pkt) = (getSequence pkt, getRtpTime pkt, Some (pkt_payload pkt))"
  by (simp add: entry_view_def heard_def) (simp add: entry_of_def pkt_payload_def)

lemma entry_of_wf: "pkt_ok pkt \<Longrightarrow> wf_entry (entry_of pkt)"
  by (auto simp: pkt_ok_def wf_entry_def entry_of_def getSequence_def ucast16_less_mod)

lemma hd_jb_view: "0 < jb_count r \<Longrightarrow> hd (jb_view r) = entry_view (hd (jb_list r))"
  by (simp add: jb_view_def hd_map flip: length_0_conv)

lemma appendRtpData_view:
  assumes ok: "jb_ok r" and pkt: "pkt_ok pkt"
    and fresh: "jb_count r = cur_max_jbs r \<Longrightarrow> fst (hd (jb_view r)) \<noteq> getSequence pkt"
  shows "\<exists>r'. appendRtpData pkt r = Inr r' \<and>
    (jb_ok r' \<and> JitterBuffer.more r' = JitterBuffer.more r) \<and> cur_max_jbs r' = cur_max_jbs r \<and>
    jb_view r' = lastn (cur_max_jbs r)
      (jb_view r @ [(getSequence pkt, getRtpTime pkt, Some (pkt_payload pkt))])"
proof -
  have inv: "jb_inv r" using ok by (simp add: jb_ok_def)
  then have "0 < cur_max_jbs r" by (auto simp: jb_bounds_def)
  then have "jb_count r = cur_max_jbs r \<Longrightarrow> rtp_seq_no (hd (jb_list r)) \<noteq> getSequence pkt"
    using fresh hd_jb_view [of r] by (simp add: entry_view_def)
  from appendRtpData_eq [OF inv pkt_ok_fits [OF pkt] this] show ?thesis
    using push_view [OF ok, of "entry_of pkt"] entry_of_wf [OF pkt] by (simp add: entry_of_view)
qed

lemma setRtpData_view:
  assumes ok: "jb_ok r" and pkt: "pkt_ok pkt" and k: "k < jb_count r"
    and same: "fst (jb_view r ! k) = getSequence pkt"
  shows "\<exists>r'. setRtpData pkt (ring_at r k) r = Inr r' \<and>
    (jb_ok r' \<and> JitterBuffer.more r' = JitterBuffer.more r) \<and> cur_max_jbs r' = cur_max_jbs r \<and>
    jb_view r' = (jb_view r)[k := (getSequence pkt, getRtpTime pkt, Some (pkt_payload pkt))]"
proof -
  have inv: "jb_inv r" and s: "slots_ok r" using ok by (simp_all add: jb_ok_def)
  have "rtp_seq_no (jb_list r ! k) = getSequence pkt"
    using same k by (simp add: jb_view_def entry_view_def)
  then have "k = 0 \<Longrightarrow> rtp_seq_no (hd (jb_list r)) = getSequence pkt"
    using k by (simp add: hd_conv_nth flip: length_0_conv)
  then have "setRtpData pkt (ring_at r k) r = Inr (jb_store r (ring_at r k) (entry_of pkt))"
    using setRtpData_eq [OF inv pkt_ok_fits [OF pkt] k] by blast
  then show ?thesis
    using jb_store_queue [OF inv k, of "entry_of pkt"] slots_ok_store [OF s entry_of_wf [OF pkt]]
    by (simp add: jb_ok_def jb_view_def map_update entry_of_view) (simp add: jb_store_def)
qed

section \<open>Streams and the specification of the buffer\<close>

text \<open>
  A sender that starts at some sequence number and timestamp and advances the timestamp by a
  fixed step per packet. The packet at position \<open>j\<close> carries \<open>seq_at j\<close> and \<open>time_at j\<close>.
\<close>

record rtp_stream =
  stream_seq :: u16
  stream_time :: u32
  stream_step :: int

definition seq_at :: "rtp_stream \<Rightarrow> int \<Rightarrow> u16" where
  "seq_at st j = stream_seq st + word_of_int j"

definition time_at :: "rtp_stream \<Rightarrow> int \<Rightarrow> u32" where
  "time_at st j = stream_time st + word_of_int (j * stream_step st)"

definition wf_stream :: "rtp_stream \<Rightarrow> bool" where
  "wf_stream st \<longleftrightarrow> 0 < stream_step st \<and> stream_step st < 1472"

definition packet_at :: "rtp_stream \<Rightarrow> int \<Rightarrow> RtpPacket \<Rightarrow> bool" where
  "packet_at st j pkt \<longleftrightarrow> getSequence pkt = ucast (seq_at st j) \<and> getRtpTime pkt = time_at st j"

definition stamp :: "rtp_stream \<Rightarrow> int \<Rightarrow> 'v \<Rightarrow> u32 \<times> u32 \<times> 'v" where
  "stamp st j x = (ucast (seq_at st j), time_at st j, x)"

primrec stamped :: "rtp_stream \<Rightarrow> int \<Rightarrow> 'v list \<Rightarrow> (u32 \<times> u32 \<times> 'v) list" where
  "stamped st k [] = []"
| "stamped st k (x # xs) = stamp st k x # stamped st (k + 1) xs"

record playout =
  play_at :: int
  waiting :: "octet list option list"

text \<open>
  The arrival of the packet at position \<open>j\<close> with payload \<open>bs\<close> at a buffer of size \<open>m\<close>: an
  empty buffer, or one whose last entry is more than \<open>m\<close> positions behind, starts over with
  \<open>m div 2 - 1\<close> silences before the packet; a packet ahead of the last entry is appended
  behind as many silences as positions are missing, and the oldest entries make room; a
  packet whose position is in the buffer takes its place there; an older one is dropped.
\<close>

definition arrive :: "nat \<Rightarrow> int \<Rightarrow> octet list \<Rightarrow> playout \<Rightarrow> playout" where
  "arrive m j bs q =
     (let xs = waiting q; newest = play_at q + int (length xs) - 1 in
      if xs = [] \<or> j - newest > int m then
        \<lparr>play_at = j - int (m div 2 - 1), waiting = replicate (m div 2 - 1) None @ [Some bs]\<rparr>
      else if j > newest then
        let ys = xs @ replicate (nat (j - newest - 1)) None @ [Some bs] in
        \<lparr>play_at = play_at q + int (length ys - m), waiting = lastn m ys\<rparr>
      else if j \<ge> play_at q then q\<lparr>waiting := xs[nat (j - play_at q) := Some bs]\<rparr>
      else q)"

definition represents :: "rtp_stream \<Rightarrow> RtpReceiver \<Rightarrow> playout \<Rightarrow> bool" where
  "represents st r q \<longleftrightarrow> jb_ok r \<and> sampleSize r = stream_step st \<and>
     jb_view r = stamped st (play_at q) (waiting q)"

lemma length_stamped [simp]: "length (stamped st k xs) = length xs"
  by (induction xs arbitrary: k) simp_all

lemma stamped_append: "stamped st k (xs @ ys) = stamped st k xs @ stamped st (k + int (length xs)) ys"
  by (induction xs arbitrary: k) (simp_all add: algebra_simps)

lemma stamped_last:
  assumes "xs \<noteq> []"
  shows "stamped st k xs = stamped st k (butlast xs) @ [stamp st (k + int (length xs) - 1) (last xs)]"
  using assms by (cases xs rule: rev_cases) (simp_all add: stamped_append)

lemma stamped_drop: "drop n (stamped st k xs) = stamped st (k + int (min n (length xs))) (drop n xs)"
proof (induction xs arbitrary: k n)
  case (Cons x xs)
  then show ?case by (cases n) (simp_all add: algebra_simps)
qed simp

lemma stamped_lastn: "lastn m (stamped st k xs) = stamped st (k + int (length xs - m)) (lastn m xs)"
  by (simp add: lastn_def stamped_drop)

lemma stamped_nth: "i < length xs \<Longrightarrow> stamped st k xs ! i = stamp st (k + int i) (xs ! i)"
proof (induction xs arbitrary: k i)
  case (Cons x xs)
  then show ?case by (cases i) (simp_all add: algebra_simps)
qed simp

lemma stamped_update: "(stamped st k xs)[i := stamp st (k + int i) x] = stamped st k (xs[i := x])"
proof (induction xs arbitrary: k i)
  case (Cons y xs)
  then show ?case using Cons.IH [of "k + 1" "i - 1"] by (cases i) (simp_all add: add.assoc)
qed simp

subsection \<open>Sequence numbers and timestamps of a stream\<close>

lemma seq_at_dist:
  assumes "\<bar>j - i\<bar> < 32768"
  shows "seq_dist (seq_at st j) (seq_at st i) = j - i"
proof -
  have *: "seq_dist (seq_at st b) (seq_at st a) = b - a" if "a \<le> b" "b - a < 32768" for a b
  proof -
    have "seq_at st b = seq_at st a + word_of_int (b - a)" by (simp add: seq_at_def)
    then show ?thesis using that seq_dist_ahead [of "b - a" "seq_at st a"] by simp
  qed
  show ?thesis
  proof (cases "i \<le> j")
    case True
    then show ?thesis using * [of i j] assms by simp
  next
    case False
    then show ?thesis
      using * [of j i] assms seq_dist_antisym [of "seq_at st j" "seq_at st i"] by simp
  qed
qed

lemma seq_at_next: "seq_at st j + 1 = seq_at st (j + 1)"
  by (simp add: seq_at_def)

lemma time_at_next: "time_at st j + word_of_int (stream_step st) = time_at st (j + 1)"
  by (simp add: time_at_def algebra_simps)

lemma time_at_back: "time_at st j - word_of_int (n * stream_step st) = time_at st (j - n)"
  by (simp add: time_at_def algebra_simps)

lemma RtpTimeGreater_time_at:
  assumes st: "wf_stream st" and ij: "i \<le> j" "j - i \<le> 1024"
  shows "RtpTimeGreater (time_at st j) (time_at st i) = Inr (i < j)"
proof (cases "i = j")
  case True
  then show ?thesis by (simp add: RtpTimeGreater_iff)
next
  case False
  let ?k = "(j - i) * stream_step st"
  have k: "0 < ?k" using st False ij by (simp add: wf_stream_def)
  have "?k \<le> 1024 * 1472" using st ij by (intro mult_mono) (auto simp: wf_stream_def)
  then have k': "?k < 2 ^ 31" by simp
  have "time_at st j = time_at st i + word_of_int ?k" by (simp add: time_at_def algebra_simps)
  with RtpTimeGreater_ahead [OF k k', of "time_at st i"] False ij show ?thesis by simp
qed

lemma seq_at_cut [simp]: "ucast (ucast (seq_at st j) :: u32) = seq_at st j"
  by simp

subsection \<open>The last entry\<close>

lemma last_jb_list:
  assumes "jb_view r = xs @ [(s, t, x)]"
  shows "jb_list r \<noteq> []" "rtp_seq_no (last (jb_list r)) = s" "rtp_time (last (jb_list r)) = t"
proof -
  show ne: "jb_list r \<noteq> []" using assms by (auto simp: jb_view_def)
  have "entry_view (last (jb_list r)) = (s, t, x)"
    using assms ne last_map [of "jb_list r" entry_view] by (simp add: jb_view_def)
  then show "rtp_seq_no (last (jb_list r)) = s" "rtp_time (last (jb_list r)) = t"
    by (simp_all add: entry_view_def)
qed

lemma getLastRtpData_view:
  assumes "jb_ok r" "jb_view r = xs @ [(s, t, x)]"
  obtains d where "getLastRtpData r = Inr (Some d)" "rtp_seq_no d = s" "rtp_time d = t"
  using getLastRtpData_eq [of r] last_jb_list [OF assms(2)] assms(1) by (auto simp: jb_ok_def)

lemma lastn_snoc_view:
  assumes "0 < m" obtains ys where "lastn m (xs @ [x]) = ys @ [x]"
proof
  show "lastn m (xs @ [x]) = drop (Suc (length xs) - m) xs @ [x]"
    using assms by (simp add: lastn_def)
qed

section \<open>Inserting refines arriving\<close>

lemma jb_view_short: "jb_ok r \<Longrightarrow> lastn (cur_max_jbs r) (jb_view r) = jb_view r"
  using jb_count_inPos(1) [of r] by (auto simp: jb_ok_def)

lemma cap_pos: "jb_ok r \<Longrightarrow> 0 < cur_max_jbs r" "jb_ok r \<Longrightarrow> cur_max_jbs r \<le> 1024"
  by (auto simp: jb_ok_def jb_inv_def jb_bounds_def JITTER_BUFFER_MAX_def)

lemma silencePatch_fills:
  assumes "wf_stream st" "jb_ok r" "jb_view r = xs @ [stamp st i x]" "n \<le> 1023"
  shows "\<exists>r'. silencePatch (time_at st (i + int n + 1)) (ucast (seq_at st (i + int n + 1))) (stream_step st)
      (seq_at st i) (time_at st i) r = Some (Inr r') \<and>
    (jb_ok r' \<and> JitterBuffer.more r' = JitterBuffer.more r) \<and> cur_max_jbs r' = cur_max_jbs r \<and>
    jb_view r' = lastn (cur_max_jbs r) (jb_view r @ stamped st (i + 1) (replicate n None))"
  using assms
proof (induction n arbitrary: i r xs x)
  case 0
  then have "lastn (cur_max_jbs r) (jb_view r) = jb_view r" by (intro jb_view_short)
  with 0 show ?case
    using RtpTimeGreater_time_at [of st i i] time_at_back [of st "i + 1" 1]
    by (subst silencePatch.simps) simp
next
  case (Suc n)
  let ?j = "i + int (Suc n) + 1" and ?m = "cur_max_jbs r"
  obtain r1 where r1: "insertSilenceRtpData (time_at st (i + 1)) (seq_at st (i + 1)) r = Inr r1"
    "jb_ok r1" "JitterBuffer.more r1 = JitterBuffer.more r" "cur_max_jbs r1 = ?m"
    "jb_view r1 = lastn ?m (jb_view r @ [stamp st (i + 1) None])"
    using insertSilenceRtpData_view [OF Suc.prems(2)] by (auto simp: stamp_def)
  obtain ys where v1: "jb_view r1 = ys @ [stamp st (i + 1) None]"
    using lastn_snoc_view [OF cap_pos(1) [OF Suc.prems(2)]] r1(5) by metis
  obtain d where d: "getLastRtpData r1 = Inr (Some d)" "rtp_seq_no d = ucast (seq_at st (i + 1))"
    "rtp_time d = time_at st (i + 1)"
    using getLastRtpData_view [OF r1(2)] v1 by (metis stamp_def)
  have greater: "RtpTimeGreater (time_at st (?j - 1)) (time_at st i) = Inr True"
    using RtpTimeGreater_time_at [OF Suc.prems(1), of i "?j - 1"] Suc.prems(4) by simp
  have dist: "seq_dist (seq_at st ?j) (seq_at st i) = int n + 2"
    using seq_at_dist [of ?j i st] Suc.prems(4) by simp
  obtain r' where r': "silencePatch (time_at st ?j) (ucast (seq_at st ?j)) (stream_step st)
      (seq_at st (i + 1)) (time_at st (i + 1)) r1 = Some (Inr r')"
    "jb_ok r'" "JitterBuffer.more r' = JitterBuffer.more r1" "cur_max_jbs r' = cur_max_jbs r1"
    "jb_view r' = lastn (cur_max_jbs r1) (jb_view r1 @ stamped st (i + 1 + 1) (replicate n None))"
    using Suc.IH [OF Suc.prems(1) r1(2) v1] Suc.prems(4) by (auto simp: algebra_simps)
  have "silencePatch (time_at st ?j) (ucast (seq_at st ?j)) (stream_step st)
      (seq_at st i) (time_at st i) r = Some (Inr r')"
    using greater dist r1(1) d r'(1) time_at_back [of st ?j 1]
    by (subst silencePatch.simps) (simp add: time_at_next seq_at_next)
  moreover have "jb_view r' = lastn ?m (jb_view r @ stamped st (i + 1) (replicate (Suc n) None))"
    using r'(5) lastn_lastn_append [of ?m "jb_view r @ [stamp st (i + 1) None]"] r1(4,5) by simp
  ultimately show ?case using r'(2-4) r1(3,4) by auto
qed

text \<open>The timestamp and sequence number of the silence \<open>numprev\<close> positions before a packet.\<close>

definition before_packet :: "RtpPacket \<Rightarrow> int \<Rightarrow> nat \<Rightarrow> u32 \<times> u16" where
  "before_packet pkt ss numprev =
     (getRtpTime pkt - word_of_int (ss * int numprev), ucast (getSequence pkt - word_of_nat numprev))"

lemma before_packet_stamp:
  assumes "packet_at st j pkt"
  shows "before_packet pkt (stream_step st) n = (time_at st (j - int n), seq_at st (j - int n))"
  using assms time_at_back [of st j "int n"]
  by (simp add: before_packet_def packet_at_def ucast_u32_u16_minus mult.commute)
    (simp add: seq_at_def)

lemma priming_stamps:
  assumes "packet_at st j pkt"
  shows "map (\<lambda>n. (\<lambda>(time, seq). (ucast seq, time, None)) (before_packet pkt (stream_step st) n)) (rev [1..<Suc p])
    = stamped st (j - int p) (replicate p None)"
proof (rule nth_equalityI)
  fix i assume "i < length (map (\<lambda>n. (\<lambda>(time, seq). (ucast seq, time, None))
    (before_packet pkt (stream_step st) n)) (rev [1..<Suc p]))"
  then have i: "i < p" by (simp del: upt_Suc)
  then have at: "rev [1..<Suc p] ! i = p - i"
    by (simp add: rev_nth del: upt_Suc)
  show "map (\<lambda>n. (\<lambda>(time, seq). (ucast seq, time, None)) (before_packet pkt (stream_step st) n)) (rev [1..<Suc p]) ! i
    = stamped st (j - int p) (replicate p None) ! i"
    using i at by (simp add: stamped_nth stamp_def before_packet_stamp [OF assms] of_nat_diff algebra_simps del: upt_Suc)
qed (simp del: upt_Suc)

lemma sampleSize_more: "JitterBuffer.more r = JitterBuffer.more r' \<Longrightarrow> sampleSize r = sampleSize r'"
  by (cases r, cases r') simp

lemma more_clear [simp]:
  "JitterBuffer.more (clearJitterBuffer r) = JitterBuffer.more r"
  "cur_max_jbs (clearJitterBuffer r) = cur_max_jbs r"
  by (simp_all add: clearJitterBuffer_def)

lemma jb_ok_clear: "jb_ok r \<Longrightarrow> jb_ok (clearJitterBuffer r) \<and> jb_view (clearJitterBuffer r) = []"
  using cleared [of r] cap_pos [of r]
  by (auto simp: jb_ok_def jb_view_def slots_ok_def JITTER_BUFFER_MAX_def clearJitterBuffer_def)

lemma primeAndAppend_refines:
  assumes ok: "jb_ok r" and empty: "jb_view r = []" and pkt: "pkt_ok pkt" "packet_at st j pkt"
    and ss: "sampleSize r = stream_step st"
  shows "\<exists>r'. primeAndAppend pkt r = Inr r' \<and>
    (jb_ok r' \<and> JitterBuffer.more r' = JitterBuffer.more r) \<and> cur_max_jbs r' = cur_max_jbs r \<and>
    jb_view r' = stamped st (j - int (cur_max_jbs r div 2 - 1))
      (replicate (cur_max_jbs r div 2 - 1) None @ [Some (pkt_payload pkt)])"
proof -
  let ?p = "cur_max_jbs r div 2 - 1" and ?ss = "stream_step st"
  let ?xs = "map (before_packet pkt ?ss) (rev [1..<Suc ?p])"
  let ?S = "stamped st (j - int ?p) (replicate ?p (None :: octet list option))"
  have cap: "0 < cur_max_jbs r" using cap_pos [OF ok] by simp
  obtain r1 where r1: "ofold (\<lambda>(time, seq). insertSilenceRtpData time seq) ?xs r = Inr r1"
    "jb_ok r1" "JitterBuffer.more r1 = JitterBuffer.more r" "cur_max_jbs r1 = cur_max_jbs r"
    "jb_view r1 = lastn (cur_max_jbs r) (jb_view r @ map (\<lambda>(time, seq). (ucast seq, time, None)) ?xs)"
    using silence.insert_all [of r "JitterBuffer.more r" ?xs] ok by blast
  have v1: "jb_view r1 = ?S"
    using r1(5) empty priming_stamps [OF pkt(2), of ?p] by (simp add: o_def del: upt_Suc)
  have "jb_count r1 \<noteq> cur_max_jbs r1"
    using v1 length_jb_view [of r1] r1(4) cap by simp
  then obtain r' where r': "appendRtpData pkt r1 = Inr r'"
    "jb_ok r'" "JitterBuffer.more r' = JitterBuffer.more r1" "cur_max_jbs r' = cur_max_jbs r1"
    "jb_view r' = lastn (cur_max_jbs r1) (jb_view r1 @ [(getSequence pkt, getRtpTime pkt, Some (pkt_payload pkt))])"
    using appendRtpData_view [OF r1(2) pkt(1)] by auto
  have step: "(\<lambda>numprev. insertSilenceRtpData (getRtpTime pkt - word_of_int (sampleSize r * int numprev))
           (ucast (getSequence pkt - word_of_nat numprev)))
      = (\<lambda>n. (\<lambda>(time, seq). insertSilenceRtpData time seq) (before_packet pkt ?ss n))"
    by (simp add: before_packet_def ss)
  have count: "nat (int (cur_max_jbs r div 2) - 1) = ?p" by linarith
  have "primeAndAppend pkt r = Inr r'"
    unfolding primeAndAppend_def Let_def step count using r1(1) r'(1) by (simp only: ofold_map obind_Inr)
  moreover have "jb_view r' = stamped st (j - int ?p) (replicate ?p None @ [Some (pkt_payload pkt)])"
    using r'(5) v1 r1(4) pkt(2) cap by (simp add: stamped_append stamp_def packet_at_def)
  ultimately show ?thesis using r'(2-4) r1(3,4) by auto
qed

lemma represents_last:
  assumes rep: "represents st r q" and ne: "waiting q \<noteq> []"
  obtains d where "getLastRtpData r = Inr (Some d)"
    "rtp_seq_no d = ucast (seq_at st (play_at q + int (length (waiting q)) - 1))"
    "rtp_time d = time_at st (play_at q + int (length (waiting q)) - 1)"
    "jb_view r = stamped st (play_at q) (butlast (waiting q)) @
       [stamp st (play_at q + int (length (waiting q)) - 1) (last (waiting q))]"
proof -
  have ok: "jb_ok r" using rep by (simp add: represents_def)
  have v: "jb_view r = stamped st (play_at q) (butlast (waiting q)) @
       [stamp st (play_at q + int (length (waiting q)) - 1) (last (waiting q))]"
    using rep stamped_last [OF ne] by (simp add: represents_def)
  from getLastRtpData_view [OF ok v [unfolded stamp_def]] v show thesis
    using that by (metis stamp_def)
qed

lemma c_int_small: "n < 2147483648 \<Longrightarrow> c_int n = int n"
  using sint32_of_int [of "int n"] by (simp add: c_int_def)

text \<open>A packet ahead of the last entry.\<close>

lemma ahead_refines:
  assumes st: "wf_stream st" and ok: "jb_ok r" and v: "jb_view r = stamped st k xs"
    and ne: "xs \<noteq> []" and pkt: "pkt_ok pkt" "packet_at st (k + int (length xs) + int n) pkt"
    and n: "int n < int (cur_max_jbs r)"
  shows "\<exists>r'. map_option (\<lambda>out. obind out (appendRtpData pkt))
      (silencePatch (getRtpTime pkt) (getSequence pkt) (stream_step st)
        (seq_at st (k + int (length xs) - 1)) (time_at st (k + int (length xs) - 1)) r) = Some (Inr r') \<and>
    (jb_ok r' \<and> JitterBuffer.more r' = JitterBuffer.more r) \<and> cur_max_jbs r' = cur_max_jbs r \<and>
    jb_view r' = lastn (cur_max_jbs r) (stamped st k (xs @ replicate n None @ [Some (pkt_payload pkt)]))"
proof -
  let ?m = "cur_max_jbs r" and ?i = "k + int (length xs) - 1"
  have m: "0 < ?m" "?m \<le> 1024" using cap_pos [OF ok] by simp_all
  have vl: "jb_view r = stamped st k (butlast xs) @ [stamp st ?i (last xs)]"
    using v stamped_last [OF ne] by simp
  have j: "?i + int n + 1 = k + int (length xs) + int n" by simp
  obtain r1 where r1: "silencePatch (getRtpTime pkt) (getSequence pkt) (stream_step st)
      (seq_at st ?i) (time_at st ?i) r = Some (Inr r1)"
    "jb_ok r1" "JitterBuffer.more r1 = JitterBuffer.more r" "cur_max_jbs r1 = ?m"
    "jb_view r1 = lastn ?m (jb_view r @ stamped st (?i + 1) (replicate n None))"
    using silencePatch_fills [OF st ok vl, of n] n m pkt(2) unfolding packet_at_def j by auto
  have v1: "jb_view r1 = stamped st (k + int (length xs + n - ?m)) (lastn ?m (xs @ replicate n None))"
    using r1(5) v stamped_append [of st k xs "replicate n None"]
      stamped_lastn [of ?m st k "xs @ replicate n None"] by simp
  have fresh: "fst (hd (jb_view r1)) \<noteq> getSequence pkt" if "jb_count r1 = cur_max_jbs r1"
  proof -
    let ?a = "k + int (length xs + n - ?m)" and ?b = "k + int (length xs) + int n"
    have len: "length (lastn ?m (xs @ replicate n None)) = ?m"
      using that v1 length_jb_view [of r1] r1(4) by simp
    then have "lastn ?m (xs @ replicate n None) \<noteq> []" using m by (metis length_0_conv less_irrefl)
    then have "hd (jb_view r1) = stamp st ?a (hd (lastn ?m (xs @ replicate n None)))"
      unfolding v1 by (cases "lastn ?m (xs @ replicate n None)") simp_all
    moreover have "?m \<le> length xs + n" using len by simp
    then have "seq_dist (seq_at st ?b) (seq_at st ?a) = int ?m"
      using seq_at_dist [of ?b ?a st] m by simp
    then have "seq_at st ?a \<noteq> seq_at st ?b" using m seq_dist_eq_0 [of "seq_at st ?b" "seq_at st ?a"] by auto
    then have "(ucast (seq_at st ?a) :: u32) \<noteq> ucast (seq_at st ?b)" by (metis ucast_u16_u32_u16)
    ultimately show ?thesis using pkt(2) by (simp add: packet_at_def stamp_def)
  qed
  obtain r' where r': "appendRtpData pkt r1 = Inr r'"
    "jb_ok r'" "JitterBuffer.more r' = JitterBuffer.more r1" "cur_max_jbs r' = cur_max_jbs r1"
    "jb_view r' = lastn (cur_max_jbs r1) (jb_view r1 @ [(getSequence pkt, getRtpTime pkt, Some (pkt_payload pkt))])"
    using appendRtpData_view [OF r1(2) pkt(1) fresh] by auto
  have "(getSequence pkt, getRtpTime pkt, Some (pkt_payload pkt))
      = stamp st (k + int (length xs + n)) (Some (pkt_payload pkt))"
    using pkt(2) by (simp add: packet_at_def stamp_def algebra_simps)
  then have "jb_view r' = lastn ?m (stamped st k (xs @ replicate n None @ [Some (pkt_payload pkt)]))"
    using r'(5) r1(4,5) v by (simp add: lastn_lastn_append stamped_append algebra_simps)
  then show ?thesis using r1 r' by simp
qed

text \<open>A packet at or before the last entry.\<close>

lemma late_refines:
  assumes ok: "jb_ok r" and v: "jb_view r = stamped st k xs" and ne: "xs \<noteq> []"
    and pkt: "pkt_ok pkt" "packet_at st j pkt"
    and j: "j \<le> k + int (length xs) - 1" "k + int (length xs) - 1 - j < 32768"
    and d: "rtp_seq_no d = ucast (seq_at st (k + int (length xs) - 1))"
  shows "\<exists>r'. placeLate d pkt r = Inr r' \<and>
    (jb_ok r' \<and> JitterBuffer.more r' = JitterBuffer.more r) \<and> cur_max_jbs r' = cur_max_jbs r \<and>
    jb_view r' = stamped st k (if k \<le> j then xs[nat (j - k) := Some (pkt_payload pkt)] else xs)"
proof -
  let ?i = "k + int (length xs) - 1"
  have inv: "jb_inv r" and b: "jb_bounds r" using ok by (auto simp: jb_ok_def)
  have c: "jb_count r = length xs" using v length_jb_view [of r] by simp
  have "jb_count r \<le> 1024" using jb_count_inPos(1) [OF b] cap_pos(2) [OF ok] by simp
  then have ci: "c_int (jb_count r) = int (length xs)" using c_int_small [of "jb_count r"] c by simp
  have dist: "RtpSeqDifference (rtp_seq_no d) (getSequence pkt) = Inr (?i - j)"
    using seq_at_dist [of ?i j st] j d pkt(2) by (simp add: packet_at_def)
  show ?thesis
  proof (cases "k \<le> j")
    case False
    then show ?thesis using b v ok dist ci by (simp add: placeLate_def)
  next
    case True
    let ?n = "nat (j - k)"
    have n: "?n < jb_count r" using True j c ne by (cases xs) auto
    have "jb_count r - nat (?i - j + 1) = ?n" using True j c by simp
    then have idx: "calculatePreviousInPos (?i - j + 1) r = Inr (ring_at r ?n)"
      using calculatePreviousInPos_eq [OF b, of "?i - j + 1"] True j c by simp
    have st: "(getSequence pkt, getRtpTime pkt, Some (pkt_payload pkt)) = stamp st (k + int ?n) (Some (pkt_payload pkt))"
      using True pkt(2) by (simp add: packet_at_def stamp_def)
    have "fst (jb_view r ! ?n) = getSequence pkt"
      using n c True pkt(2) unfolding v by (simp add: stamped_nth stamp_def packet_at_def)
    then obtain r' where r': "setRtpData pkt (ring_at r ?n) r = Inr r'"
      "jb_ok r'" "JitterBuffer.more r' = JitterBuffer.more r" "cur_max_jbs r' = cur_max_jbs r"
      "jb_view r' = (jb_view r)[?n := stamp st (k + int ?n) (Some (pkt_payload pkt))]"
      using setRtpData_view [OF ok pkt(1) n] unfolding st by blast
    then have "placeLate d pkt r = Inr r'"
      using b dist ci idx True by (simp add: placeLate_def)
    with r' True show ?thesis unfolding v stamped_update by simp
  qed
qed

lemma insertPacket_refines:
  assumes st: "wf_stream st" and rep: "represents st r q"
    and pkt: "pkt_ok pkt" "packet_at st j pkt"
    and near: "waiting q \<noteq> [] \<Longrightarrow> \<bar>j - (play_at q + int (length (waiting q)) - 1)\<bar> < 32768"
  shows "\<exists>r'. insertPacket pkt r = Some (Inr r') \<and>
    represents st r' (arrive (cur_max_jbs r) j (pkt_payload pkt) q) \<and>
    JitterBuffer.more r' = JitterBuffer.more r \<and> cur_max_jbs r' = cur_max_jbs r"
proof -
  let ?xs = "waiting q" and ?k = "play_at q" and ?m = "cur_max_jbs r"
  let ?i = "?k + int (length ?xs) - 1"
  have ok: "jb_ok r" and ss: "sampleSize r = stream_step st" and v: "jb_view r = stamped st ?k ?xs"
    using rep by (simp_all add: represents_def)
  have mi: "c_int ?m = int ?m" using c_int_small cap_pos(2) [OF ok] by simp
  show ?thesis
  proof (cases "?xs = []")
    case True
    have "getLastRtpData r = Inr None"
      using ok v True getLastRtpData_eq [of r] by (simp add: jb_ok_def jb_view_def)
    moreover obtain r' where "primeAndAppend pkt r = Inr r'" "jb_ok r'"
      "JitterBuffer.more r' = JitterBuffer.more r" "cur_max_jbs r' = ?m"
      "jb_view r' = stamped st (j - int (?m div 2 - 1)) (replicate (?m div 2 - 1) None @ [Some (pkt_payload pkt)])"
      using primeAndAppend_refines [OF ok _ pkt ss] v True by auto
    ultimately show ?thesis
      using True ss sampleSize_more [of r' r]
      by (simp add: insertPacket_def earlyPacket_def represents_def arrive_def)
  next
    case False
    obtain d where d: "getLastRtpData r = Inr (Some d)" "rtp_seq_no d = ucast (seq_at st ?i)"
      "rtp_time d = time_at st ?i"
      using represents_last [OF rep False] by blast
    have near: "\<bar>j - ?i\<bar> < 32768" by (rule near [OF False])
    have early: "earlyPacket (Some d) pkt r = Inr (j - ?i > int ?m)"
      using d(2) pkt(2) seq_at_dist [OF near] mi by (simp add: earlyPacket_def packet_at_def)
    have greater: "RtpSeqGreater (getSequence pkt) (ucast (ucast (rtp_seq_no d) :: u16)) = Inr (?i < j)"
      using d(2) pkt(2) seq_at_dist [OF near] by (simp add: packet_at_def)
    consider (early) "j - ?i > int ?m" | (ahead) "j - ?i \<le> int ?m" "j > ?i" | (late) "j \<le> ?i" by linarith
    then show ?thesis
    proof cases
      case early': early
      obtain r' where "primeAndAppend pkt (clearJitterBuffer r) = Inr r'" "jb_ok r'"
        "JitterBuffer.more r' = JitterBuffer.more r" "cur_max_jbs r' = ?m"
        "jb_view r' = stamped st (j - int (?m div 2 - 1)) (replicate (?m div 2 - 1) None @ [Some (pkt_payload pkt)])"
        using primeAndAppend_refines [of "clearJitterBuffer r", OF _ _ pkt] jb_ok_clear [OF ok]
          ss sampleSize_more [of "clearJitterBuffer r" r] by auto
      then show ?thesis
        using early' early d(1) ss sampleSize_more [of r' r]
        by (simp add: insertPacket_def represents_def arrive_def Let_def)
    next
      case ahead
      have n: "j = ?k + int (length ?xs) + int (nat (j - ?i - 1))" using ahead by simp
      obtain r' where r': "map_option (\<lambda>out. obind out (appendRtpData pkt))
          (silencePatch (getRtpTime pkt) (getSequence pkt) (stream_step st)
            (seq_at st ?i) (time_at st ?i) r) = Some (Inr r')"
        "jb_ok r'" "JitterBuffer.more r' = JitterBuffer.more r" "cur_max_jbs r' = ?m"
        "jb_view r' = lastn ?m (stamped st ?k (?xs @ replicate (nat (j - ?i - 1)) None @ [Some (pkt_payload pkt)]))"
        using ahead_refines [OF st ok v False pkt(1), of "nat (j - ?i - 1)"] pkt(2) n ahead by auto
      have "insertPacket pkt r = Some (Inr r')"
        using early ahead d greater r'(1) ss by (simp add: insertPacket_def)
      then show ?thesis
        using r' ss False ahead sampleSize_more [of r' r]
        by (simp add: represents_def arrive_def Let_def stamped_lastn)
    next
      case late
      obtain r' where r': "placeLate d pkt r = Inr r'"
        "jb_ok r'" "JitterBuffer.more r' = JitterBuffer.more r" "cur_max_jbs r' = ?m"
        "jb_view r' = stamped st ?k (if ?k \<le> j then ?xs[nat (j - ?k) := Some (pkt_payload pkt)] else ?xs)"
        using late_refines [OF ok v False pkt late _ d(2)] near late by auto
      have "insertPacket pkt r = Some (Inr r')"
        using early late d greater r'(1) by (simp add: insertPacket_def)
      then show ?thesis
        using r' ss False late sampleSize_more [of r' r]
        by (simp add: represents_def arrive_def Let_def)
    qed
  qed
qed

section \<open>Playing\<close>

text \<open>
  The next entry is played, but a silence is skipped when more than half of the buffer and
  one entry are waiting: the buffer then works off the delay it has built up.
\<close>

definition play :: "nat \<Rightarrow> playout \<Rightarrow> (int \<times> octet list option) option \<times> playout" where
  "play m q =
     (case waiting q of
        [] \<Rightarrow> (None, q)
      | x # xs \<Rightarrow>
          if x = None \<and> 2 \<le> m \<and> m div 2 + 1 < length (waiting q)
          then (Some (play_at q + 1, hd xs), \<lparr>play_at = play_at q + 2, waiting = tl xs\<rparr>)
          else (Some (play_at q, x), \<lparr>play_at = play_at q + 1, waiting = xs\<rparr>))"

subsection \<open>Releasing the front of the ring\<close>

lemma release_front:
  assumes inv: "jb_inv r" and c: "0 < jb_count r"
  shows "jb_inv (release (playPos r) d r)" "jb_list (release (playPos r) d r) = tl (jb_list r)"
    "cur_max_jbs (release (playPos r) d r) = cur_max_jbs r"
    "JitterBuffer.more (release (playPos r) d r) = JitterBuffer.more r"
    "set (jitterBuffer (release (playPos r) d r)) \<subseteq> insert (Some (d\<lparr>rd_in_use := False\<rparr>)) (set (jitterBuffer r))"
proof -
  let ?r = "release (playPos r) d r" and ?m = "cur_max_jbs r"
  have b: "jb_bounds r" using inv by blast
  have m: "0 < ?m" "playPos r < ?m" "jb_count r \<le> ?m"
    using b jb_count_inPos(1) [OF b] by (simp_all add: jb_bounds_def)
  have eq: "?r = (jb_store r (playPos r) (d\<lparr>rd_in_use := False\<rparr>))\<lparr>playPos := Suc (playPos r) mod ?m\<rparr>"
    unfolding release_def using b by (simp add: increment_eq) (simp add: jb_store_def)
  then show cap: "cur_max_jbs ?r = ?m" "JitterBuffer.more ?r = JitterBuffer.more r"
    by (simp_all add: jb_store_def)
  show "set (jitterBuffer ?r) \<subseteq> insert (Some (d\<lparr>rd_in_use := False\<rparr>)) (set (jitterBuffer r))"
    unfolding eq by (simp add: jb_store_def set_update_subset_insert)
  have at: "ring_at ?r k = ring_at r (Suc k)" for k
    unfolding eq by (simp add: ring_at_def jb_store_def mod_simps)
  have b': "jb_bounds ?r" using b m unfolding eq by (simp add: jb_bounds_def jb_store_def)
  have nth: "jitterBuffer ?r ! ring_at r k = (if k = 0 then Some (d\<lparr>rd_in_use := False\<rparr>) else jitterBuffer r ! ring_at r k)"
    if "k < ?m" for k
    using that b m ring_at_inj [OF b that m(1)] unfolding eq
    by (auto simp: jb_store_def nth_list_update jb_bounds_def)
  have wrap: "ring_at r ?m = ring_at r 0" by (simp add: ring_at_def)
  have in': "inPos ?r = ring_at ?r (jb_count r - 1)"
    using jb_count_inPos(2) [OF b] c unfolding at by (simp add: eq)
  have used: "slot_used ?r (ring_at ?r k) \<longleftrightarrow> k < jb_count r - 1" if "k < cur_max_jbs ?r" for k
    using that m c cap jb_inv_used [OF inv, of "Suc k"] nth [of "Suc k"] nth [of 0] wrap
    by (cases "Suc k = ?m") (auto simp: at slot_used_def slot_in_use_def)
  note I = jb_invI [OF b' _ in' used]
  show "jb_inv ?r" using I(1) m cap by simp
  have "jb_count ?r = jb_count r - 1" using I(2) m cap by simp
  then show "jb_list ?r = tl (jb_list r)"
    using m by (intro jb_list_eqI) (auto simp: at nth nth_tl jb_list_nth)
qed

lemma release_view:
  assumes ok: "jb_ok r" and v: "jb_view r = stamped st k (x # xs)"
  obtains d where "slot_at (playPos r) r = Inr d" "rd_in_use d" "wf_entry d" "entry_view d = stamp st k x"
    "jb_ok (release (playPos r) d r)" "jb_view (release (playPos r) d r) = stamped st (k + 1) xs"
    "cur_max_jbs (release (playPos r) d r) = cur_max_jbs r"
    "JitterBuffer.more (release (playPos r) d r) = JitterBuffer.more r"
proof
  let ?d = "hd (jb_list r)"
  have inv: "jb_inv r" and b: "jb_bounds r" using ok by (auto simp: jb_ok_def)
  have c: "0 < jb_count r" using v length_jb_view [of r] by simp
  then have ne: "jb_list r \<noteq> []" by (simp flip: length_0_conv)
  show u: "rd_in_use ?d" "wf_entry ?d"
    using jb_list_in_use [OF inv] slots_ok_list [OF ok] hd_in_set [OF ne] by simp_all
  show "slot_at (playPos r) r = Inr ?d"
    using jb_inv_Some [OF inv c] b ne by (simp add: slot_at_def hd_conv_nth jb_slot_def)
      (simp add: jb_bounds_def)
  show "entry_view ?d = stamp st k x" using hd_jb_view [OF c] v by simp
  note rel = release_front [OF inv c, of ?d]
  show "cur_max_jbs (release (playPos r) ?d r) = cur_max_jbs r"
    "JitterBuffer.more (release (playPos r) ?d r) = JitterBuffer.more r" using rel by simp_all
  have "wf_entry (?d\<lparr>rd_in_use := False\<rparr>)" using u(2) by (simp add: wf_entry_def)
  then show "jb_ok (release (playPos r) ?d r)"
    using ok rel(1) slots_ok_update [OF _ _ rel(5)] by (simp add: jb_ok_def)
  show "jb_view (release (playPos r) ?d r) = stamped st (k + 1) xs"
    using rel(2) v by (simp add: jb_view_def map_tl)
qed

subsection \<open>The entry to play and the packet it becomes\<close>

lemma nextToPlay_refines:
  assumes ok: "jb_ok r" and v: "jb_view r = stamped st (play_at q) (waiting q)" and ne: "waiting q \<noteq> []"
  obtains d r1 j x q' where "play (cur_max_jbs r) q = (Some (j, x), q')"
    "nextToPlay r = Inr (d, r1)" "wf_entry d" "entry_view d = stamp st j x"
    "jb_ok (release (playPos r1) d r1)"
    "jb_view (release (playPos r1) d r1) = stamped st (play_at q') (waiting q')"
    "cur_max_jbs (release (playPos r1) d r1) = cur_max_jbs r" "JitterBuffer.more r1 = JitterBuffer.more r"
    "jb_ok r1"
proof -
  obtain x xs where w: "waiting q = x # xs" using ne by (cases "waiting q") auto
  obtain d where d: "slot_at (playPos r) r = Inr d" "rd_in_use d" "wf_entry d" "entry_view d = stamp st (play_at q) x"
    "jb_ok (release (playPos r) d r)" "jb_view (release (playPos r) d r) = stamped st (play_at q + 1) xs"
    "cur_max_jbs (release (playPos r) d r) = cur_max_jbs r"
    "JitterBuffer.more (release (playPos r) d r) = JitterBuffer.more r"
    using release_view [OF ok v [unfolded w]] .
  have silent: "rd_silence_fill d \<longleftrightarrow> x = None" using d(4) by (auto simp: entry_view_def stamp_def heard_def split: if_splits)
  have count: "getJitterPktsInQueueCount r = Inr (length (waiting q))"
    using ok v length_jb_view [of r] by (auto simp: jb_ok_def)
  show thesis
  proof (cases "x = None \<and> 2 \<le> cur_max_jbs r \<and> cur_max_jbs r div 2 + 1 < length (waiting q)")
    case False
    have "nextToPlay r = Inr (d, r)"
      using False d(1,2) count silent by (auto simp: nextToPlay_def)
    moreover have "play (cur_max_jbs r) q = (Some (play_at q, x), \<lparr>play_at = play_at q + 1, waiting = xs\<rparr>)"
      using False w by (simp add: play_def)
    ultimately show thesis using that d(3-8) ok by fastforce
  next
    case True
    let ?r = "release (playPos r) d r"
    obtain y ys where xs: "xs = y # ys" using True w by (cases xs) auto
    obtain e where e: "slot_at (playPos ?r) ?r = Inr e" "rd_in_use e" "wf_entry e" "entry_view e = stamp st (play_at q + 1) y"
      "jb_ok (release (playPos ?r) e ?r)" "jb_view (release (playPos ?r) e ?r) = stamped st (play_at q + 1 + 1) ys"
      "cur_max_jbs (release (playPos ?r) e ?r) = cur_max_jbs ?r"
      "JitterBuffer.more (release (playPos ?r) e ?r) = JitterBuffer.more ?r"
      using release_view [OF d(5) d(6) [unfolded xs]] .
    have "nextToPlay r = Inr (e, ?r)"
      using True d(1,2) e(1,2) count silent by (auto simp: nextToPlay_def Let_def)
    moreover have "play (cur_max_jbs r) q = (Some (play_at q + 1, y), \<lparr>play_at = play_at q + 2, waiting = ys\<rparr>)"
      using True w xs by (simp add: play_def)
    ultimately show thesis using that [of "play_at q + 1" y _ e ?r] e(3-7) d(5,7,8) by (simp add: add.commute)
  qed
qed

text \<open>A packet object that an application passes to \<open>retrieve\<close>: constructed without sources
  and padding, with room for the largest payload the buffer stores.\<close>

definition holder :: "RtpPacket \<Rightarrow> bool" where
  "holder pkt \<longleftrightarrow> wf_store pkt \<and> csrc_count pkt = 0 \<and>
     1024 \<le> packetAlloc pkt \<and> packetAlloc pkt < int RTP_MTU"

lemma clear_holder:
  assumes "holder pkt"
  obtains p where "clear pkt = Inr p" "wf_store p" "getCSRCcount p = 0" "packetAlloc p = packetAlloc pkt"
    "csrc_count p = 0"
proof -
  have h: "wf_store pkt" "12 \<le> packetAlloc pkt" "packetAlloc pkt < int RTP_MTU" "csrc_count pkt = 0"
    using assms by (auto simp: holder_def)
  let ?z = "(zero_fill (packetAlloc pkt) pkt)\<lparr>unusedSize := packetAlloc pkt - 12\<rparr>"
  have z: "length (packetData ?z) = 8129" using h by (auto simp: zero_fill_def wf_store_def RTP_MTU_def)
  show thesis
    by (rule that [OF clear_eq [OF h(1-3)]]) (use h z in \<open>simp_all add: packet_fields zero_fill_def\<close>)
qed

lemma fillPacket_eq:
  assumes p: "wf_store p" "getCSRCcount p = 0" "1024 \<le> packetAlloc p" "csrc_count p = 0"
    and d: "wf_entry d" "rtp_seq_no d = ucast (s :: u16)" and f: "0 \<le> format r" "format r \<le> 127"
  obtains p' where "fillPacket d r p = Inr p'" "is_silence_fill p' = rd_silence_fill d"
    "getSequence p' = ucast s" "getRtpTime p' = rtp_time d" "pkt_payload p' = rd_data d"
    "getPayloadType p' = format r" "getSSRC p' = ssrc r" "packetAlloc p' = packetAlloc p"
    "wf_store p'" "csrc_count p' = 0"
proof -
  let ?bs = "rd_data d" and ?D = "packetData p"
  let ?M = "take 12 ?D @ ?bs @ drop (12 + length ?bs) ?D"
  let ?q = "p\<lparr>packetData := ?M, is_silence_fill := rd_silence_fill d\<rparr>"
  let ?t = "put_type (format r) (setSSRC (ssrc r) ?q)"
  let ?u = "?t\<lparr>unusedSize := packetAlloc p - 12 - int (length ?bs)\<rparr>"
  have len: "length ?D = 8129" "length ?bs \<le> 1012" using p d by (simp_all add: wf_store_def RTP_MTU_def wf_entry_def)
  have q: "wf_store ?q" using len by (simp add: wf_store_def RTP_MTU_def)
  have loc: "getPayloadLoc p = 12" using p by (simp add: getPayloadLoc_def sizeof_RtpHeader_def sizeof_RtpSrc_def)
  have c: "getCSRCcount ?t = 0"
    using p len q by (simp add: getCSRCcount_def) (simp add: packet_fields nth_append)
  let ?v = "setSequence (rtp_seq_no d) (setRtpTime (rtp_time d) ?u)"
  have "fillPacket d r p = Inr ?v"
    using loc len f p c by (simp add: fillPacket_def mem_write_def setPayloadType_def setPayloadUsage_def
        getPayloadSize_def getPadbyteSize_def sizeof_RtpHeader_def sizeof_RtpSrc_def)
  moreover have "wf_store ?u" using len by (simp add: packet_fields)
  then have "getSequence ?v = ucast s" "getRtpTime ?v = rtp_time d"
    using d len by (simp_all add: seqno.get_put timestamp.get_put timestamp.put_store)
  moreover have "getPayloadType ?v = format r" "getSSRC ?v = ssrc r"
    using len cut_bits_id [of 7 "format r"] f by (simp_all add: packet_fields)
  moreover have "pkt_payload ?v = ?bs"
    using len c by (simp add: pkt_payload_def getPayloadLoc_def getPayloadUsage_def getPayloadSize_def
        getPadbyteSize_def sizeof_RtpHeader_def sizeof_RtpSrc_def) (simp add: packet_fields)
  moreover have "is_silence_fill ?v = rd_silence_fill d" "packetAlloc ?v = packetAlloc p" "wf_store ?v"
    "csrc_count ?v = 0"
    using len p by (simp_all add: packet_fields)
  ultimately show thesis using that by blast
qed

subsection \<open>Retrieving refines playing\<close>

text \<open>The buffer is a function of the fields of the jitter buffer alone.\<close>

lemma jb_truncate:
  "jb_ok (JitterBuffer.truncate r) = jb_ok r" "jb_view (JitterBuffer.truncate r) = jb_view r"
  by (simp_all add: JitterBuffer.defs jb_ok_def jb_inv_def jb_bounds_def slots_ok_def jb_view_def jb_list_def
      jb_count_def ring_at_def slot_used_def)

lemma jb_same:
  "JitterBuffer.truncate r = JitterBuffer.truncate r' \<Longrightarrow> jb_ok r = jb_ok r' \<and> jb_view r = jb_view r'"
  by (metis jb_truncate)

definition carries :: "rtp_stream \<Rightarrow> int \<Rightarrow> octet list option \<Rightarrow> RtpPacket \<Rightarrow> bool" where
  "carries st j x pkt \<longleftrightarrow> packet_at st j pkt \<and> is_silence_fill pkt = (x = None) \<and>
     (\<forall>bs. x = Some bs \<longrightarrow> pkt_payload pkt = bs)"

text \<open>What playing leaves of the receiver's state about its source.\<close>

definition keeps_source :: "RtpReceiver \<Rightarrow> RtpReceiver \<Rightarrow> bool" where
  "keeps_source r r' \<longleftrightarrow> sourceSet r' = sourceSet r \<and> ssrc r' = ssrc r \<and> probationSet r' = probationSet r \<and>
     srcProbation r' = srcProbation r \<and> format r' = format r \<and> clockRate r' = clockRate r \<and>
     tmpPkt r' = tmpPkt r \<and> (0 \<le> probation r \<longrightarrow> 0 \<le> probation r')"

lemma keeps_source_more: "JitterBuffer.more r' = JitterBuffer.more r \<Longrightarrow> keeps_source r r'"
  by (cases r, cases r') (simp add: keeps_source_def)

lemma keeps_source_trans: "keeps_source r r' \<Longrightarrow> keeps_source r' r'' \<Longrightarrow> keeps_source r r''"
  by (simp add: keeps_source_def)

lemma retrieve_refines:
  assumes rep: "represents st r q" and pkt: "holder pkt" and f: "0 \<le> format r" "format r \<le> 127"
  shows "\<exists>n pkt' r'. retrieve pkt r = Inr (n, pkt', r') \<and>
    represents st r' (snd (play (cur_max_jbs r) q)) \<and> holder pkt' \<and>
    cur_max_jbs r' = cur_max_jbs r \<and> keeps_source r r' \<and>
    (case fst (play (cur_max_jbs r) q) of
       None \<Rightarrow> n = 1 \<and> is_silence_fill pkt'
     | Some (j, x) \<Rightarrow> carries st j x pkt' \<and> getPayloadType pkt' = format r \<and> getSSRC pkt' = ssrc r)"
proof -
  have ok: "jb_ok r" and ss: "sampleSize r = stream_step st" and v: "jb_view r = stamped st (play_at q) (waiting q)"
    using rep by (simp_all add: represents_def)
  have count: "getJitterPktsInQueueCount r = Inr (length (waiting q))"
    using ok v length_jb_view [of r] by (auto simp: jb_ok_def)
  show ?thesis
  proof (cases "waiting q = []")
    case True
    let ?r = "r\<lparr>receiverError := recv_bufferEmpty\<rparr>"
    have "jb_ok ?r = jb_ok r \<and> jb_view ?r = jb_view r" by (rule jb_same) (simp add: JitterBuffer.defs)
    then have "represents st ?r q" using rep by (simp add: represents_def)
    with True count pkt show ?thesis by (simp add: retrieve_def play_def holder_def wf_store_def keeps_source_def)
  next
    case False
    obtain p where p: "clear pkt = Inr p" "wf_store p" "getCSRCcount p = 0" "packetAlloc p = packetAlloc pkt"
      "csrc_count p = 0"
      using clear_holder [OF pkt] .
    obtain d r1 j x q' where n: "play (cur_max_jbs r) q = (Some (j, x), q')"
      "nextToPlay r = Inr (d, r1)" "wf_entry d" "entry_view d = stamp st j x"
      "jb_ok (release (playPos r1) d r1)"
      "jb_view (release (playPos r1) d r1) = stamped st (play_at q') (waiting q')"
      "cur_max_jbs (release (playPos r1) d r1) = cur_max_jbs r" "JitterBuffer.more r1 = JitterBuffer.more r"
      "jb_ok r1"
      using nextToPlay_refines [OF ok v False] .
    have d: "rtp_seq_no d = ucast (seq_at st j)" "rtp_time d = time_at st j" "heard d = x"
      using n(4) by (simp_all add: entry_view_def stamp_def)
    have rest: "format r1 = format r" "ssrc r1 = ssrc r" "sampleSize r1 = sampleSize r"
      using n(8) by (cases r, cases r1, simp)+
    have f1: "0 \<le> format r1" "format r1 \<le> 127" "1024 \<le> packetAlloc p"
      using f rest pkt p by (simp_all add: holder_def)
    obtain p' where p': "fillPacket d r1 p = Inr p'" "is_silence_fill p' = rd_silence_fill d"
      "getSequence p' = ucast (seq_at st j)" "getRtpTime p' = rtp_time d" "pkt_payload p' = rd_data d"
      "getPayloadType p' = format r1" "getSSRC p' = ssrc r1" "packetAlloc p' = packetAlloc p"
      "wf_store p'" "csrc_count p' = 0"
      using fillPacket_eq [OF p(2,3) f1(3) p(5) n(3) d(1) f1(1,2)] .
    let ?r = "release (playPos r1) d (notePlayed p' r1)"
    have "JitterBuffer.truncate ?r = JitterBuffer.truncate (release (playPos r1) d r1)"
      by (simp add: JitterBuffer.defs release_def incrementPlayPos_def jb_store_def notePlayed_def Let_def)
    from jb_same [OF this] n(5,6)
    have r': "jb_ok ?r" "jb_view ?r = stamped st (play_at q') (waiting q')" by simp_all
    have "keeps_source r1 ?r"
      by (simp add: keeps_source_def release_def incrementPlayPos_def jb_store_def notePlayed_def Let_def)
    then have kept: "keeps_source r ?r" using keeps_source_more [OF n(8)] keeps_source_trans by blast
    have keep: "sampleSize ?r = stream_step st" "cur_max_jbs ?r = cur_max_jbs r"
      using n(7) rest ss by (simp_all add: release_def incrementPlayPos_def jb_store_def notePlayed_def Let_def)
    have "verifyJbSanity ?r = Inr ()"
      using r'(1) verifyJbSanity_iff [of ?r] by (auto simp: jb_ok_def)
    then have "retrieve pkt r = Inr (int (length (rd_data d)), p', ?r)"
      using False count p(1) n(2) p'(1) by (simp add: retrieve_def)
    moreover have "represents st ?r q'" using r' keep by (simp add: represents_def)
    moreover have "carries st j x p'"
      using p' d by (auto simp: carries_def packet_at_def heard_def split: if_splits)
    moreover have "holder p'" using p' p pkt by (simp add: holder_def)
    ultimately show ?thesis
      using n(1) keep kept p'(6,7) rest by auto
  qed
qed

end
