(* ===== verification/Rtp_Session.thy ===== *)
theory Rtp_Session
  imports Playout
begin

text \<open>
  From datagrams to what is heard. \<open>rtp_wire\<close> is the RTP datagram of RFC 1889 without
  contributing sources, padding and extension; \<open>readNetwork\<close> on such a datagram of the
  current source, or of the first source, refines \<open>arrive\<close>. A session interleaves arriving
  datagrams and played packets in any order.
\<close>

section \<open>Datagrams\<close>

definition rtp_wire :: "bool \<Rightarrow> octet \<Rightarrow> u16 \<Rightarrow> u32 \<Rightarrow> u32 \<Rightarrow> octet list \<Rightarrow> octet list" where
  "rtp_wire mark fmt seq time src bs =
     [0x80, (if mark then 128 + fmt else fmt)] @ be16 seq @ be32 time @ be32 src @ bs"

lemma length_rtp_wire [simp]: "length (rtp_wire mark fmt seq time src bs) = 12 + length bs"
  by (simp add: rtp_wire_def)

text \<open>The packet object after \<open>receiveFrom\<close> and \<open>setTotalUsage\<close>.\<close>

definition loaded :: "octet list \<Rightarrow> RtpPacket \<Rightarrow> RtpPacket" where
  "loaded ds p = p\<lparr>packetData := ds @ drop (length ds) (packetData p), unusedSize := packetAlloc p - int (length ds)\<rparr>"

lemma fmt_field:
  assumes "fmt < (128 :: octet)"
  shows "take_bit 7 (if mark then 128 + fmt else fmt) = fmt"
proof -
  have u: "uint fmt < 128" using assms by (simp add: word_less_def)
  then have "uint (128 + fmt) = 128 + uint fmt" by (simp add: uint_word_ariths)
  then have "uint (take_bit 7 (128 + fmt)) = uint fmt"
    using u by (simp add: unsigned_take_bit_eq) (simp add: take_bit_eq_mod)
  moreover have "uint (take_bit 7 fmt) = uint fmt"
    using u by (simp add: unsigned_take_bit_eq take_bit_int_eq_self)
  ultimately show ?thesis by (simp add: word_uint_eq_iff)
qed

lemma loaded_wire:
  fixes mark fmt seq time src bs p
  defines "q \<equiv> loaded (rtp_wire mark fmt seq time src bs) p"
  assumes fmt: "fmt < 128" and p: "wf_store p" "int (length bs) + 12 \<le> packetAlloc p"
    "packetAlloc p < int RTP_MTU"
  shows "getVersion q = RTP_VERSION" "getCSRCcount q = 0" "getPayloadType q = uint fmt"
    "getSequence q = ucast seq" "getRtpTime q = time" "getSSRC q = src"
    "getPayloadUsage q = int (length bs)" "pkt_payload q = bs" "getTotalUsage q = 12 + int (length bs)"
    "wf_store q"
proof -
  let ?w = "rtp_wire mark fmt seq time src bs"
  have d: "packetData q = ?w @ drop (length ?w) (packetData p)" by (simp add: q_def loaded_def)
  have n: "packetData q ! i = ?w ! i" if "i < 12" for i
    using that unfolding d by (simp add: nth_append)
  show "getVersion q = RTP_VERSION" "getSequence q = ucast seq" "getRtpTime q = time" "getSSRC q = src"
    by (simp_all add: getVersion_def getSequence_def getRtpTime_def getSSRC_def n RTP_VERSION_def)
      (simp_all add: rtp_wire_def be16_def be32_def get_field_def)
  show c: "getCSRCcount q = 0"
    by (simp add: getCSRCcount_def n) (simp add: rtp_wire_def get_field_def)
  show "getPayloadType q = uint fmt"
    using fmt_field [OF fmt, of mark] by (simp add: getPayloadType_def n) (simp add: rtp_wire_def get_field_def)
  show u: "getPayloadUsage q = int (length bs)"
    using c by (simp add: getPayloadUsage_def getPayloadSize_def getPadbyteSize_def sizeof_RtpHeader_def
        sizeof_RtpSrc_def) (simp add: q_def loaded_def)
  show "getTotalUsage q = 12 + int (length bs)" by (simp add: getTotalUsage_def q_def loaded_def)
  show "pkt_payload q = bs"
    using u c d by (simp add: pkt_payload_def getPayloadLoc_def sizeof_RtpHeader_def sizeof_RtpSrc_def rtp_wire_def)
  show "wf_store q"
    using p d by (simp add: wf_store_def RTP_MTU_def)
qed

lemma getPacket_wire:
  fixes mark seq time src
  assumes fmt: "fmt < 128" "uint fmt \<notin> {13, rtpPayloadDTMF_RFC2833, rtpPayloadCiscoRtp}"
    and p: "wf_store p" "int (length bs) + 12 \<le> packetAlloc p" "packetAlloc p < int RTP_MTU"
  defines "q \<equiv> loaded (rtp_wire mark fmt seq time src bs) p"
  shows "getPacket (Received (rtp_wire mark fmt seq time src bs)) clk p r =
    obind (updateSource clk q r) (\<lambda>(discard, r).
      if discard \<noteq> 0 then Inr (- EINVAL, q, r) else Inr (12 + int (length bs), q, r))"
proof -
  let ?w = "rtp_wire mark fmt seq time src bs"
  note w = loaded_wire [OF fmt(1) p, where mark = mark and seq = seq and time = time and src = src, folded q_def]
  have "receiveFrom (Received ?w) p = Inr (12 + int (length bs), p\<lparr>packetData := packetData q\<rparr>)"
    using p by (simp add: receiveFrom_def Let_def mem_write_def wf_store_def q_def loaded_def RTP_MTU_def)
  moreover have "setTotalUsage (12 + int (length bs)) (p\<lparr>packetData := packetData q\<rparr>) = Inr q"
    using p by (simp add: setTotalUsage_def q_def loaded_def)
  moreover have "isValid q = Inr (True, q)"
    using w fmt by (simp add: isValid_def)
  ultimately show ?thesis
    using w(3) fmt by (simp add: getPacket_def)
qed

section \<open>Reading a datagram refines its arrival\<close>

lemma represents_same:
  assumes "represents st r q" "JitterBuffer.truncate r' = JitterBuffer.truncate r" "sampleSize r' = sampleSize r"
  shows "represents st r' q"
  using assms jb_same [OF assms(2)] by (simp add: represents_def)

lemma hbo_fields [simp]:
  "getPayloadUsage (p\<lparr>converted_to_hbo := b\<rparr>) = getPayloadUsage p"
  "getSequence (p\<lparr>converted_to_hbo := b\<rparr>) = getSequence p"
  "getRtpTime (p\<lparr>converted_to_hbo := b\<rparr>) = getRtpTime p"
  "pkt_payload (p\<lparr>converted_to_hbo := b\<rparr>) = pkt_payload p"
  "pkt_ok (p\<lparr>converted_to_hbo := b\<rparr>) = pkt_ok p"
  "packet_at st j (p\<lparr>converted_to_hbo := b\<rparr>) = packet_at st j p"
  "holder (p\<lparr>converted_to_hbo := b\<rparr>) = holder p"
  by (simp_all add: getPayloadUsage_def getPayloadSize_def getPadbyteSize_def getCSRCcount_def getSequence_def
      getRtpTime_def pkt_payload_def pkt_ok_def packet_at_def getPayloadLoc_def holder_def wf_store_def)

definition clock_ok :: "RtpReceiver \<Rightarrow> bool" where
  "clock_ok r \<longleftrightarrow> (word_of_int (clockRate r) :: u32) \<noteq> 0"

text \<open>What the receiver keeps from one datagram of its source to the next.\<close>

definition listening :: "u32 \<Rightarrow> octet \<Rightarrow> RtpReceiver \<Rightarrow> bool" where
  "listening src fmt r \<longleftrightarrow> sourceSet r \<and> ssrc r = src \<and> \<not> (probationSet r \<and> srcProbation r = src) \<and>
     probation r \<ge> 0 \<and> format r = uint fmt \<and> clock_ok r \<and> holder (tmpPkt r)"

definition voice_format :: "octet \<Rightarrow> bool" where
  "voice_format fmt \<longleftrightarrow> fmt < 128 \<and> uint fmt \<notin>
     {13, rtpPayloadCN, rtpPayloadDTMF_RFC2833, rtpPayloadCiscoRtp, rtpPayloadL16_mono}"

lemma updateJitter_fields:
  assumes "clock_ok r"
  shows "\<exists>a b c d. updateJitter now later pkt r =
    Inr (r\<lparr>seedNtpTime := a, seedRtpTime := b, lastTransit_ms := c, jitter := d\<rparr>)"
proof -
  obtain t where t: "rtp2ntp (getRtpTime pkt) r = Inr t"
    using assms by (simp add: rtp2ntp_def clock_ok_def)
  let ?delay = "sint (ucast (word_of_int (ntp_diff now t) - lastTransit_ms r) :: u32)"
  show ?thesis
  proof (cases "?delay > 500000 \<or> ?delay < -500000")
    case True
    then show ?thesis
      using t by (intro exI [of _ later] exI [of _ "getRtpTime pkt"] exI [of _ 0] exI)
        (simp add: updateJitter_def)
  next
    case False
    then show ?thesis
      using t by (intro exI [of _ "seedNtpTime r"] exI [of _ "seedRtpTime r"]
          exI [of _ "word_of_int (ntp_diff now t)"]
          exI [of _ "int32 (jitter r + (\<bar>?delay\<bar> - int32 (jitter r + 8) div 16))"])
        (simp add: updateJitter_def Let_def)
  qed
qed

lemma updateJitter_keeps:
  assumes "clock_ok r"
  obtains r' where "updateJitter now later pkt r = Inr r'" "JitterBuffer.truncate r' = JitterBuffer.truncate r"
    "sampleSize r' = sampleSize r" "cur_max_jbs r' = cur_max_jbs r"
    "\<And>src fmt. listening src fmt r \<Longrightarrow> listening src fmt r'"
proof -
  obtain a b c d where e: "updateJitter now later pkt r =
      Inr (r\<lparr>seedNtpTime := a, seedRtpTime := b, lastTransit_ms := c, jitter := d\<rparr>)"
    using updateJitter_fields [OF assms] by blast
  show thesis
    by (rule that [OF e]) (simp_all add: listening_def clock_ok_def JitterBuffer.defs)
qed

lemma listening_more:
  "JitterBuffer.more r = JitterBuffer.more r' \<Longrightarrow> listening src fmt r = listening src fmt r'"
  by (cases r, cases r') (simp add: listening_def clock_ok_def)

lemma readNetwork_accepts:
  assumes st: "wf_stream st"
    and get: "clear (tmpPkt r) = Inr p" "getPacket rx clk p r = Inr (n, pkt, r1)" "0 < n"
    and l: "listening src fmt (r1\<lparr>tmpPkt := pkt\<rparr>)"
    and pkt: "pkt_ok pkt" "packet_at st j pkt" "getPayloadType pkt \<noteq> rtpPayloadL16_mono"
    and rep: "represents st r1 q"
    and near: "waiting q \<noteq> [] \<Longrightarrow> \<bar>j - (play_at q + int (length (waiting q)) - 1)\<bar> < 32768"
  shows "\<exists>r'. readNetwork rx clk r = Some (Inr (0, r')) \<and> listening src fmt r' \<and>
    represents st r' (arrive (cur_max_jbs r1) j (pkt_payload pkt) q) \<and> cur_max_jbs r' = cur_max_jbs r1"
proof -
  let ?pkt = "pkt\<lparr>converted_to_hbo := True\<rparr>" and ?r1 = "r1\<lparr>tmpPkt := pkt\<lparr>converted_to_hbo := True\<rparr>\<rparr>"
  have rep1: "represents st ?r1 q" by (rule represents_same [OF rep]) (simp_all add: JitterBuffer.defs)
  obtain r2 where r2: "insertPacket ?pkt ?r1 = Some (Inr r2)"
    "represents st r2 (arrive (cur_max_jbs r1) j (pkt_payload pkt) q)"
    "JitterBuffer.more r2 = JitterBuffer.more ?r1" "cur_max_jbs r2 = cur_max_jbs r1"
    using insertPacket_refines [OF st rep1, of ?pkt j] pkt near by auto
  have "listening src fmt ?r1" using l by (simp add: listening_def clock_ok_def)
  then have l2: "listening src fmt r2" using listening_more [OF r2(3)] by simp
  let ?r3 = "r2\<lparr>packetReceived := int32 (packetReceived r2 + 1), payloadReceived := int32 (payloadReceived r2 + getPayloadUsage pkt)\<rparr>"
  have l3: "listening src fmt ?r3" "clock_ok ?r3" using l2 by (simp_all add: listening_def clock_ok_def)
  obtain r' where r': "updateJitter (clk 2) (clk 3) ?pkt ?r3 = Inr r'"
    "JitterBuffer.truncate r' = JitterBuffer.truncate ?r3" "sampleSize r' = sampleSize ?r3"
    "cur_max_jbs r' = cur_max_jbs ?r3" "listening src fmt r'"
    using updateJitter_keeps [OF l3(2)] l3(1) by metis
  have "represents st r' (arrive (cur_max_jbs r1) j (pkt_payload pkt) q)"
    by (rule represents_same [OF r2(2)]) (use r' in \<open>simp_all add: JitterBuffer.defs\<close>)
  moreover have "verifyJbSanity r2 = Inr ()"
    using r2(2) verifyJbSanity_iff [of r2] by (auto simp: represents_def jb_ok_def)
  then have "readNetwork rx clk r = Some (Inr (0, r'))"
    using get l pkt r2(1) r'(1)
    by (simp add: readNetwork_def rtp_ntohl_def swap_samples_def Let_def listening_def pkt_ok_def)
  ultimately show ?thesis using r' r2(4) by simp
qed

lemma checkCycle_fields: "\<exists>c. checkCycle ts r = r\<lparr>recv_cycles := c, realPrevSeqRecv := ts\<rparr>"
proof (cases "realPrevSeqRecv r > ts \<and> uint (realPrevSeqRecv r) > uint ts + 10000")
  case False
  then show ?thesis by (intro exI [of _ "recv_cycles r"]) (simp add: checkCycle_def)
qed (auto simp: checkCycle_def)

lemma wire_pkt_ok:
  fixes mark st j src
  assumes fmt: "fmt < 128" and p: "holder p" and bs: "0 < length bs" "length bs \<le> 1012"
  defines "pkt \<equiv> loaded (rtp_wire mark fmt (seq_at st j) (time_at st j) src bs) p"
  shows "pkt_ok pkt" "packet_at st j pkt" "pkt_payload pkt = bs" "getSSRC pkt = src"
    "getPayloadType pkt = uint fmt" "holder pkt"
proof -
  have h: "wf_store p" "int (length bs) + 12 \<le> packetAlloc p" "packetAlloc p < int RTP_MTU"
    using p bs by (simp_all add: holder_def)
  note w = loaded_wire [OF fmt h, of mark "seq_at st j" "time_at st j" src, folded pkt_def]
  show "pkt_ok pkt" "packet_at st j pkt" "pkt_payload pkt = bs" "getSSRC pkt = src"
    "getPayloadType pkt = uint fmt"
    using w bs by (simp_all add: pkt_ok_def packet_at_def wf_store_def)
  show "holder pkt" using w(10) p by (simp add: holder_def pkt_def loaded_def)
qed

lemma cleared_holder:
  assumes "holder (tmpPkt r)"
  obtains p where "clear (tmpPkt r) = Inr p" "holder p"
  using clear_holder [OF assms] assms by (metis holder_def)

text \<open>A datagram of the source the receiver listens to.\<close>

lemma readNetwork_known:
  assumes st: "wf_stream st" and rep: "represents st r q" and l: "listening src fmt r"
    and fmt: "voice_format fmt" and bs: "0 < length bs" "length bs \<le> 1012"
    and near: "waiting q \<noteq> [] \<Longrightarrow> \<bar>j - (play_at q + int (length (waiting q)) - 1)\<bar> < 32768"
  shows "\<exists>r'. readNetwork (Received (rtp_wire mark fmt (seq_at st j) (time_at st j) src bs)) clk r = Some (Inr (0, r')) \<and>
    listening src fmt r' \<and> represents st r' (arrive (cur_max_jbs r) j bs q) \<and> cur_max_jbs r' = cur_max_jbs r"
proof -
  obtain p where p: "clear (tmpPkt r) = Inr p" "holder p"
    using l cleared_holder by (auto simp: listening_def)
  let ?pkt = "loaded (rtp_wire mark fmt (seq_at st j) (time_at st j) src bs) p"
  have f: "fmt < 128" "uint fmt \<notin> {13, rtpPayloadDTMF_RFC2833, rtpPayloadCiscoRtp}" "uint fmt \<noteq> rtpPayloadCN"
    "uint fmt \<noteq> rtpPayloadL16_mono"
    using fmt by (auto simp: voice_format_def)
  have h: "wf_store p" "int (length bs) + 12 \<le> packetAlloc p" "packetAlloc p < int RTP_MTU"
    using p bs by (simp_all add: holder_def)
  note w = wire_pkt_ok [OF f(1) p(2) bs, where mark = mark and st = st and j = j and src = src]
  obtain c where c: "checkCycle (ucast (getSequence ?pkt)) r = r\<lparr>recv_cycles := c, realPrevSeqRecv := ucast (getSequence ?pkt)\<rparr>"
    using checkCycle_fields by blast
  let ?r1 = "r\<lparr>recv_cycles := c, realPrevSeqRecv := ucast (getSequence ?pkt)\<rparr>"
  have "updateSource clk ?pkt r = Inr (0, ?r1)"
    using l w f c by (auto simp: updateSource_def listening_def Let_def)
  then have get: "getPacket (Received (rtp_wire mark fmt (seq_at st j) (time_at st j) src bs)) clk p r
      = Inr (12 + int (length bs), ?pkt, ?r1)"
    using getPacket_wire [OF f(1,2) h] by simp
  have l1: "listening src fmt (?r1\<lparr>tmpPkt := ?pkt\<rparr>)" using l w(6) by (simp add: listening_def clock_ok_def)
  have rep1: "represents st ?r1 q" by (rule represents_same [OF rep]) (simp_all add: JitterBuffer.defs)
  have "getPayloadType ?pkt \<noteq> rtpPayloadL16_mono" using w(5) f(4) by simp
  from readNetwork_accepts [OF st p(1) get _ l1 w(1,2) this rep1 near] w(3) show ?thesis by simp
qed

text \<open>The first datagram: the receiver has no source yet and takes this one.\<close>

definition idle :: "u32 \<Rightarrow> octet \<Rightarrow> RtpReceiver \<Rightarrow> bool" where
  "idle src fmt r \<longleftrightarrow> \<not> sourceSet r \<and> \<not> (probationSet r \<and> srcProbation r = src) \<and>
     format r = uint fmt \<and> clock_ok r \<and> holder (tmpPkt r) \<and>
     (\<forall>l t. rtcpRecv r = Some l \<longrightarrow> l src = Some t \<longrightarrow> \<not> recv_attached t)"

lemma addTranInfo_fresh:
  "(\<And>t. l src = Some t \<Longrightarrow> \<not> recv_attached t) \<Longrightarrow> \<exists>l'. addTranInfo src (Some src) l = Inr l'"
  by (auto simp: addTranInfo_def addTranFinal_def Let_def split: option.splits)

lemma addSource_idle:
  assumes i: "idle src fmt r" and pkt: "getSSRC pkt = src" and ok: "jb_ok r"
  obtains r' where "addSource now pkt r = Inr (0, r')" "jb_ok r'" "jb_view r' = []"
    "sampleSize r' = sampleSize r" "cur_max_jbs r' = cur_max_jbs r"
    "sourceSet r'" "ssrc r' = src" "\<not> (probationSet r' \<and> srcProbation r' = src)" "probation r' = 0"
    "format r' = uint fmt" "clock_ok r'"
proof -
  let ?a = "r\<lparr>sourceSet := True, ssrc := src, probation := 0, packetReceived := 0, payloadReceived := 0,
    realPrevSeqRecv := 0, recv_cycles := 0\<rparr>"
  obtain t where t: "(case rtcpRecv ?a of None \<Rightarrow> Inr ?a
      | Some l \<Rightarrow> obind (addTranInfo (ssrc ?a) (Some (ssrc ?a)) l) (\<lambda>l. Inr (?a\<lparr>rtcpRecv := Some l\<rparr>)))
      = Inr (?a\<lparr>rtcpRecv := t\<rparr>)"
  proof (cases "rtcpRecv r")
    case None
    then show thesis using that [of None] by simp
  next
    case (Some l)
    then obtain l' where "addTranInfo src (Some src) l = Inr l'"
      using i addTranInfo_fresh [of l src] by (auto simp: idle_def)
    with Some show thesis using that [of "Some l'"] by simp
  qed
  let ?b = "(?a\<lparr>rtcpRecv := t\<rparr>)\<lparr>seedSeq := getSequence pkt, seedNtpTime := now, seedRtpTime := getRtpTime pkt\<rparr>"
  let ?r = "(clearJitterBuffer ?b)\<lparr>readRealVoiceAlready := False, lastTransit_ms := 0, jitter := 0\<rparr>"
  have e: "addSource now pkt r = Inr (0, ?r)"
    using i pkt t by (simp add: addSource_def idle_def initSource_def)
  have "jb_ok ?b" using jb_same [of ?b r] ok by (simp add: JitterBuffer.defs)
  moreover have "jb_ok ?r = jb_ok (clearJitterBuffer ?b) \<and> jb_view ?r = jb_view (clearJitterBuffer ?b)"
    by (rule jb_same) (simp add: JitterBuffer.defs)
  ultimately have "jb_ok ?r" "jb_view ?r = []" using jb_ok_clear [of ?b] by simp_all
  moreover have "\<not> (probationSet r \<and> srcProbation r = src)" "format r = uint fmt" "clock_ok r"
    using i by (simp_all add: idle_def)
  then have "sampleSize ?r = sampleSize r" "cur_max_jbs ?r = cur_max_jbs r" "sourceSet ?r" "ssrc ?r = src"
    "\<not> (probationSet ?r \<and> srcProbation ?r = src)" "probation ?r = 0" "format ?r = uint fmt" "clock_ok ?r"
    by (simp_all add: clearJitterBuffer_def clock_ok_def)
  ultimately show thesis by (rule that [OF e])
qed

lemma readNetwork_first:
  assumes st: "wf_stream st" and ok: "jb_ok r" and ss: "sampleSize r = stream_step st" and i: "idle src fmt r"
    and fmt: "voice_format fmt" and bs: "0 < length bs" "length bs \<le> 1012"
  shows "\<exists>r'. readNetwork (Received (rtp_wire mark fmt (seq_at st j) (time_at st j) src bs)) clk r = Some (Inr (0, r')) \<and>
    listening src fmt r' \<and> represents st r' (arrive (cur_max_jbs r) j bs \<lparr>play_at = 0, waiting = []\<rparr>) \<and>
    cur_max_jbs r' = cur_max_jbs r"
proof -
  obtain p where p: "clear (tmpPkt r) = Inr p" "holder p"
    using i cleared_holder by (auto simp: idle_def)
  let ?pkt = "loaded (rtp_wire mark fmt (seq_at st j) (time_at st j) src bs) p"
  have f: "fmt < 128" "uint fmt \<notin> {13, rtpPayloadDTMF_RFC2833, rtpPayloadCiscoRtp}" "uint fmt \<noteq> rtpPayloadCN"
    "uint fmt \<noteq> rtpPayloadL16_mono"
    using fmt by (auto simp: voice_format_def)
  have h: "wf_store p" "int (length bs) + 12 \<le> packetAlloc p" "packetAlloc p < int RTP_MTU"
    using p bs by (simp_all add: holder_def)
  note w = wire_pkt_ok [OF f(1) p(2) bs, where mark = mark and st = st and j = j and src = src]
  obtain a where a: "addSource (clk 0) ?pkt r = Inr (0, a)" "jb_ok a" "jb_view a = []"
    "sampleSize a = sampleSize r" "cur_max_jbs a = cur_max_jbs r"
    "sourceSet a" "ssrc a = src" "\<not> (probationSet a \<and> srcProbation a = src)" "probation a = 0"
    "format a = uint fmt" "clock_ok a"
    using addSource_idle [OF i w(4) ok] .
  obtain c where c: "checkCycle (ucast (getSequence ?pkt)) a = a\<lparr>recv_cycles := c, realPrevSeqRecv := ucast (getSequence ?pkt)\<rparr>"
    using checkCycle_fields by blast
  let ?r1 = "a\<lparr>recv_cycles := c, realPrevSeqRecv := ucast (getSequence ?pkt)\<rparr>"
  have "updateSource clk ?pkt r = Inr (0, ?r1)"
    using i a w f c by (simp add: updateSource_def idle_def)
  then have get: "getPacket (Received (rtp_wire mark fmt (seq_at st j) (time_at st j) src bs)) clk p r
      = Inr (12 + int (length bs), ?pkt, ?r1)"
    using getPacket_wire [OF f(1,2) h] by simp
  have l1: "listening src fmt (?r1\<lparr>tmpPkt := ?pkt\<rparr>)" using a w(6) by (simp add: listening_def clock_ok_def)
  have "represents st a \<lparr>play_at = 0, waiting = []\<rparr>" using a ss by (simp add: represents_def)
  then have rep1: "represents st ?r1 \<lparr>play_at = 0, waiting = []\<rparr>"
    by (rule represents_same) (simp_all add: JitterBuffer.defs)
  have "getPayloadType ?pkt \<noteq> rtpPayloadL16_mono" using w(5) f(4) by simp
  from readNetwork_accepts [OF st p(1) get _ l1 w(1,2) this rep1] w(3) a(5) show ?thesis by simp
qed

section \<open>Sessions\<close>

text \<open>
  A session from the first datagram on: datagrams of one stream arrive, in any order and with
  gaps and repetitions, and the application plays packets in between. Each arrival has its
  own clock readings. The packets played are collected.
\<close>

datatype event = Arrive "nat \<Rightarrow> NtpTime" bool int "octet list" | Play

fun session :: "rtp_stream \<Rightarrow> u32 \<Rightarrow> octet \<Rightarrow> event list \<Rightarrow> RtpPacket \<Rightarrow> RtpReceiver \<Rightarrow>
    (RtpPacket list \<times> RtpReceiver) outcome option" where
  "session st src fmt [] pkt r = Some (Inr ([], r))"
| "session st src fmt (Arrive clk mark j bs # es) pkt r =
     (case readNetwork (Received (rtp_wire mark fmt (seq_at st j) (time_at st j) src bs)) clk r of
        None \<Rightarrow> None
      | Some out \<Rightarrow> odo out (\<lambda>(n, r). session st src fmt es pkt r))"
| "session st src fmt (Play # es) pkt r =
     odo (retrieve pkt r) (\<lambda>(n, pkt', r).
      map_option (\<lambda>out. obind out (\<lambda>(ps, r). Inr (pkt' # ps, r))) (session st src fmt es pkt' r))"

fun spec_session :: "nat \<Rightarrow> event list \<Rightarrow> playout \<Rightarrow> (int \<times> octet list option) option list \<times> playout" where
  "spec_session m [] q = ([], q)"
| "spec_session m (Arrive clk mark j bs # es) q = spec_session m es (arrive m j bs q)"
| "spec_session m (Play # es) q =
     (let (out, q) = play m q; (outs, q) = spec_session m es q in (out # outs, q))"

text \<open>
  Arrivals carry a payload of a size the receiver takes, and are within half the range of
  sequence numbers of the newest entry.
\<close>

fun plausible :: "nat \<Rightarrow> event list \<Rightarrow> playout \<Rightarrow> bool" where
  "plausible m [] q = True"
| "plausible m (Arrive clk mark j bs # es) q \<longleftrightarrow> bs \<noteq> [] \<and> length bs \<le> 1012 \<and>
     (waiting q = [] \<or> \<bar>j - (play_at q + int (length (waiting q)) - 1)\<bar> < 32768) \<and>
     plausible m es (arrive m j bs q)"
| "plausible m (Play # es) q = plausible m es (snd (play m q))"

definition plays_as :: "rtp_stream \<Rightarrow> u32 \<Rightarrow> octet \<Rightarrow> (int \<times> octet list option) option \<Rightarrow> RtpPacket \<Rightarrow> bool" where
  "plays_as st src fmt out pkt =
     (case out of
        None \<Rightarrow> is_silence_fill pkt
      | Some (j, x) \<Rightarrow> carries st j x pkt \<and> getPayloadType pkt = uint fmt \<and> getSSRC pkt = src)"

lemma listening_kept:
  "listening src fmt r \<Longrightarrow> keeps_source r r' \<Longrightarrow> listening src fmt r'"
  by (simp add: listening_def keeps_source_def clock_ok_def)

lemma session_refines:
  assumes "wf_stream st" "voice_format fmt" "represents st r q" "listening src fmt r" "holder pkt"
    "plausible (cur_max_jbs r) es q"
  shows "\<exists>ps r'. session st src fmt es pkt r = Some (Inr (ps, r')) \<and>
    represents st r' (snd (spec_session (cur_max_jbs r) es q)) \<and>
    list_all2 (plays_as st src fmt) (fst (spec_session (cur_max_jbs r) es q)) ps"
  using assms
proof (induction es arbitrary: r q pkt)
  case (Cons e es)
  show ?case
  proof (cases e)
    case (Arrive clk mark j bs)
    obtain r1 where "readNetwork (Received (rtp_wire mark fmt (seq_at st j) (time_at st j) src bs)) clk r = Some (Inr (0, r1))"
      "listening src fmt r1" "represents st r1 (arrive (cur_max_jbs r) j bs q)" "cur_max_jbs r1 = cur_max_jbs r"
      using readNetwork_known [OF Cons.prems(1,3,4,2), of bs j] Cons.prems(6) Arrive by auto
    then show ?thesis
      using Cons.IH [of r1 "arrive (cur_max_jbs r) j bs q" pkt] Cons.prems Arrive by simp
  next
    case Play
    have "format r = uint fmt" "ssrc r = src" "fmt < 128"
      using Cons.prems(2,4) by (simp_all add: listening_def voice_format_def)
    moreover from this(3) have "uint fmt \<le> 127" by (simp add: word_less_def)
    ultimately obtain n p1 r1 where r1: "retrieve pkt r = Inr (n, p1, r1)"
      "represents st r1 (snd (play (cur_max_jbs r) q))" "holder p1" "cur_max_jbs r1 = cur_max_jbs r"
      "keeps_source r r1" "plays_as st src fmt (fst (play (cur_max_jbs r) q)) p1"
      using retrieve_refines [OF Cons.prems(3,5)] by (auto simp: plays_as_def split: option.splits)
    have "listening src fmt r1" using listening_kept [OF Cons.prems(4) r1(5)] .
    from Cons.IH [OF Cons.prems(1,2) r1(2) this r1(3)] Cons.prems(6) r1(4) Play
    obtain ps r' where "session st src fmt es p1 r1 = Some (Inr (ps, r'))"
      "represents st r' (snd (spec_session (cur_max_jbs r) es (snd (play (cur_max_jbs r) q))))"
      "list_all2 (plays_as st src fmt) (fst (spec_session (cur_max_jbs r) es (snd (play (cur_max_jbs r) q)))) ps"
      by auto
    then show ?thesis using r1(1,6) Play by (simp add: case_prod_beta Let_def)
  qed
qed simp

section \<open>A receiver from its construction on\<close>

lemma new_RtpReceiver_idle:
  assumes mem: "wf_store (tmpPkt r0)" and fmt: "fmt < 128" and m: "0 < m" "m \<le> 1024"
    and rate: "0 < clockrate" "clockrate < 2 ^ 31" and ss: "ss < 1472"
  obtains r where "new_RtpReceiver (uint fmt) clockrate per_sample_size ss (int m) r0 = Inr r"
    "jb_ok r" "sampleSize r = ss" "cur_max_jbs r = m" "idle src fmt r"
proof -
  let ?p = "(tmpPkt r0)\<lparr>csrc_count := 0, npadSize := 0, packetAlloc := 12 + 1024\<rparr>"
  have "holder ?p" using mem by (simp add: holder_def wf_store_def RTP_MTU_def)
  then obtain p where p: "clear ?p = Inr p" "wf_store p" "packetAlloc p = packetAlloc ?p" "csrc_count p = 0"
    using clear_holder by metis
  have new: "new_RtpPacket (tmpPkt r0) 1024 0 0 = Inr p"
    using new_RtpPacket_unused [OF mem, of 0 1024 0] p(1) by (simp add: RTP_MTU_def)
  have hp: "holder p" using p by (simp add: holder_def RTP_MTU_def)
  have rt: "(word_of_int clockrate :: u32) \<noteq> 0"
    using rate word_of_int32_compare(1) [of clockrate 0] by simp
  have sz: "nat (int m mod 4294967296) = m" using m by simp
  obtain r where r: "new_RtpReceiver (uint fmt) clockrate per_sample_size ss (int m) r0 = Inr r"
    using new ss by (simp add: new_RtpReceiver_def constructRtpReceiver_def)
  have j: "jb_bounds r" "inPos r = 0" "playPos r = 0" "jitterBuffer r = replicate JITTER_BUFFER_MAX None"
    using r m new ss sz
    by (auto simp: new_RtpReceiver_def constructRtpReceiver_def jb_bounds_def JITTER_BUFFER_MAX_def)
  have "jb_inv r" by (rule jb_invI(1) [OF j(1), of 0])
    (use j in \<open>simp_all add: slot_used_def slot_in_use_def jb_bounds_def ring_at_def\<close>)
  then have "jb_ok r" using j(4) by (simp add: jb_ok_def slots_ok_def JITTER_BUFFER_MAX_def)
  moreover have "sampleSize r = ss" "cur_max_jbs r = m" "idle src fmt r"
    using r new ss sz hp rt by (auto simp: new_RtpReceiver_def constructRtpReceiver_def idle_def clock_ok_def)
  ultimately show thesis using that r by blast
qed

definition silent :: playout where
  "silent = \<lparr>play_at = 0, waiting = []\<rparr>"

lemma session_from_construction:
  assumes st: "wf_stream st" and fmt: "voice_format fmt" and m: "0 < m" "m \<le> 1024"
    and rate: "0 < clockrate" "clockrate < 2 ^ 31" and mem: "wf_store (tmpPkt r0)" and pkt: "holder pkt"
    and es: "es = Arrive clk mark j bs # es'" "plausible m es silent"
  shows "\<exists>r ps r'. new_RtpReceiver (uint fmt) clockrate per_sample_size (stream_step st) (int m) r0 = Inr r \<and>
    session st src fmt es pkt r = Some (Inr (ps, r')) \<and>
    list_all2 (plays_as st src fmt) (fst (spec_session m es silent)) ps"
proof -
  have f: "fmt < 128" "stream_step st < 1472" using st fmt by (simp_all add: wf_stream_def voice_format_def)
  obtain r where r: "new_RtpReceiver (uint fmt) clockrate per_sample_size (stream_step st) (int m) r0 = Inr r"
    "jb_ok r" "sampleSize r = stream_step st" "cur_max_jbs r = m" "idle src fmt r"
    using new_RtpReceiver_idle [OF mem f(1) m rate f(2)] .
  obtain r1 where r1: "readNetwork (Received (rtp_wire mark fmt (seq_at st j) (time_at st j) src bs)) clk r = Some (Inr (0, r1))"
    "listening src fmt r1" "represents st r1 (arrive m j bs silent)" "cur_max_jbs r1 = m"
    using readNetwork_first [OF st r(2,3,5) fmt, where bs = bs and j = j and mark = mark and clk = clk] es r(4) by (auto simp: silent_def)
  obtain ps r' where "session st src fmt es' pkt r1 = Some (Inr (ps, r'))"
    "list_all2 (plays_as st src fmt) (fst (spec_session m es' (arrive m j bs silent))) ps"
    using session_refines [OF st fmt r1(3,2) pkt, of es'] es r1(4) by auto
  with r r1 es show ?thesis by auto
qed

section \<open>Consequences\<close>

text \<open>What waits in the buffer has arrived.\<close>

definition arrived_only :: "(int \<times> octet list) set \<Rightarrow> playout \<Rightarrow> bool" where
  "arrived_only S q \<longleftrightarrow> (\<forall>i bs. i < length (waiting q) \<longrightarrow> waiting q ! i = Some bs \<longrightarrow> (play_at q + int i, bs) \<in> S)"

definition arrivals :: "event list \<Rightarrow> (int \<times> octet list) set" where
  "arrivals es = {(j, bs). \<exists>clk mark. Arrive clk mark j bs \<in> set es}"

lemma arrive_cases:
  assumes "0 < m"
  obtains (restart) "arrive m j bs q = \<lparr>play_at = j - int (m div 2 - 1), waiting = replicate (m div 2 - 1) None @ [Some bs]\<rparr>"
      "waiting q = [] \<or> j - (play_at q + int (length (waiting q)) - 1) > int m"
  | (ahead) n where "j = play_at q + int (length (waiting q) + n)" "waiting q \<noteq> []" "n < m"
      "arrive m j bs q = \<lparr>play_at = play_at q + int (length (waiting q) + n + 1 - m),
         waiting = lastn m (waiting q @ replicate n None @ [Some bs])\<rparr>"
  | (late) n where "n < length (waiting q)" "j = play_at q + int n" "arrive m j bs q = q\<lparr>waiting := (waiting q)[n := Some bs]\<rparr>"
  | (old) "j < play_at q" "waiting q \<noteq> []" "arrive m j bs q = q"
proof -
  let ?newest = "play_at q + int (length (waiting q)) - 1"
  consider (a) "waiting q = [] \<or> j - ?newest > int m" | (b) "waiting q \<noteq> []" "j - ?newest \<le> int m" "j > ?newest"
    | (c) "waiting q \<noteq> []" "j \<le> ?newest" "play_at q \<le> j" | (d) "waiting q \<noteq> []" "j < play_at q" "j \<le> ?newest"
    by linarith
  then show thesis
  proof cases
    case a
    then show thesis using restart by (simp add: arrive_def Let_def)
  next
    case b
    let ?n = "nat (j - ?newest - 1)"
    show thesis by (rule ahead [of ?n]) (use b in \<open>simp_all add: arrive_def Let_def\<close>)
  next
    case c
    then show thesis using late [of "nat (j - play_at q)"] by (simp add: arrive_def Let_def)
  next
    case d
    then show thesis using old by (simp add: arrive_def Let_def)
  qed
qed

lemma arrived_only_arrive:
  assumes "0 < m" and S: "arrived_only S q" "(j, bs) \<in> S"
  shows "arrived_only S (arrive m j bs q)"
  using assms(1)
proof (cases rule: arrive_cases [of m j bs q])
  case restart
  then show ?thesis using S by (auto simp: arrived_only_def nth_append less_Suc_eq)
next
  case (ahead n)
  let ?ys = "waiting q @ replicate n None @ [Some bs]"
  have ys: "(play_at q + int i, cs) \<in> S" if "i < length ?ys" "?ys ! i = Some cs" for i cs
    using that S ahead(1) by (auto simp: arrived_only_def nth_append less_Suc_eq not_less split: if_splits)
  show ?thesis
    unfolding ahead(4) arrived_only_def
  proof (intro allI impI)
    fix i cs
    let ?q = "\<lparr>play_at = play_at q + int (length (waiting q) + n + 1 - m), waiting = lastn m ?ys\<rparr>"
    assume a: "i < length (waiting ?q)" "waiting ?q ! i = Some cs"
    then have "length ?ys - m + i < length ?ys" by auto
    with a show "(play_at ?q + int i, cs) \<in> S"
      using ys [of "length ?ys - m + i" cs] by (simp add: nth_lastn add.assoc)
  qed
next
  case (late n)
  then show ?thesis using S by (auto simp: arrived_only_def nth_list_update split: if_splits)
next
  case old
  then show ?thesis using S by simp
qed

lemma play_cases:
  obtains (empty) "waiting q = []" "play m q = (None, q)"
  | (skip) y ys where "waiting q = None # y # ys" "m div 2 + 1 < length (waiting q)"
      "play m q = (Some (play_at q + 1, y), \<lparr>play_at = play_at q + 2, waiting = ys\<rparr>)"
  | (front) x xs where "waiting q = x # xs" "play m q = (Some (play_at q, x), \<lparr>play_at = play_at q + 1, waiting = xs\<rparr>)"
proof (cases "waiting q")
  case Nil
  then show thesis using empty by (simp add: play_def)
next
  case (Cons x xs)
  show thesis
  proof (cases "x = None \<and> 2 \<le> m \<and> m div 2 + 1 < length (waiting q)")
    case True
    then obtain y ys where "xs = y # ys" using Cons by (cases xs) auto
    then show thesis using skip [of y ys] Cons True by (simp add: play_def)
  next
    case False
    then show thesis using front [of x xs] Cons by (simp add: play_def)
  qed
qed

lemma arrived_only_Cons:
  assumes "arrived_only S q" "waiting q = x # xs"
  shows "x = Some bs \<Longrightarrow> (play_at q, bs) \<in> S" "arrived_only S \<lparr>play_at = play_at q + 1, waiting = xs\<rparr>"
proof -
  have at: "(play_at q + int i, cs) \<in> S" if "i < Suc (length xs)" "(x # xs) ! i = Some cs" for i cs
    using assms that by (simp add: arrived_only_def)
  show "x = Some bs \<Longrightarrow> (play_at q, bs) \<in> S" using at [of 0] by simp
  show "arrived_only S \<lparr>play_at = play_at q + 1, waiting = xs\<rparr>"
    using at [of "Suc _"] by (simp add: arrived_only_def add.assoc)
qed

lemma arrived_only_play:
  assumes S: "arrived_only S q"
  shows "arrived_only S (snd (play m q))" "fst (play m q) = Some (j, Some bs) \<Longrightarrow> (j, bs) \<in> S"
proof -
  have "arrived_only S (snd (play m q)) \<and> (\<forall>j bs. fst (play m q) = Some (j, Some bs) \<longrightarrow> (j, bs) \<in> S)"
  proof (cases rule: play_cases [of q m])
    case (skip y ys)
    note t = arrived_only_Cons(2) [OF S skip(1)]
    show ?thesis using arrived_only_Cons [OF t] skip(3) by (simp add: add.assoc)
  qed (use S arrived_only_Cons [OF S] in simp_all)
  then show "arrived_only S (snd (play m q))" "fst (play m q) = Some (j, Some bs) \<Longrightarrow> (j, bs) \<in> S" by blast+
qed

lemma spec_session_arrived:
  assumes "0 < m" "arrived_only S q" "arrivals es \<subseteq> S" "Some (j, Some bs) \<in> set (fst (spec_session m es q))"
  shows "(j, bs) \<in> S"
  using assms(2-)
proof (induction es arbitrary: q)
  case (Cons e es)
  have sub: "arrivals es \<subseteq> S" using Cons.prems(2) by (auto simp: arrivals_def)
  show ?case
  proof (cases e)
    case (Arrive clk mark k cs)
    then have "(k, cs) \<in> S" using Cons.prems(2) by (auto simp: arrivals_def)
    then show ?thesis
      using Cons.IH [OF arrived_only_arrive [OF assms(1) Cons.prems(1)] sub] Cons.prems(3) Arrive by simp
  next
    case Play
    then show ?thesis
      using Cons.IH [OF arrived_only_play(1) [OF Cons.prems(1)] sub] arrived_only_play(2) [OF Cons.prems(1)]
        Cons.prems(3) by (auto simp: case_prod_beta Let_def)
  qed
qed simp

lemma plays_as_arrival:
  assumes s: "list_all2 (plays_as st src fmt) (fst (spec_session m es silent)) ps" and m: "0 < m"
    and p: "p \<in> set ps" "\<not> is_silence_fill p"
  obtains k cs where "(k, cs) \<in> arrivals es" "carries st k (Some cs) p" "getSSRC p = src"
proof -
  obtain out where out: "out \<in> set (fst (spec_session m es silent))" "plays_as st src fmt out p"
    using s p(1) by (metis in_set_conv_nth list_all2_conv_all_nth)
  with p(2) obtain k cs where k: "out = Some (k, Some cs)"
    by (auto simp: plays_as_def carries_def split: option.splits prod.splits)
  have "(k, cs) \<in> arrivals es"
    using out(1) k by (intro spec_session_arrived [OF m]) (auto simp: arrived_only_def silent_def)
  with out(2) k show thesis using that by (auto simp: plays_as_def)
qed

subsection \<open>Order\<close>

text \<open>A run in which the buffer never starts over.\<close>

fun steady :: "nat \<Rightarrow> event list \<Rightarrow> playout \<Rightarrow> bool" where
  "steady m [] q = True"
| "steady m (Arrive clk mark j bs # es) q \<longleftrightarrow> waiting q \<noteq> [] \<and>
     j - (play_at q + int (length (waiting q)) - 1) \<le> int m \<and> steady m es (arrive m j bs q)"
| "steady m (Play # es) q = steady m es (snd (play m q))"

definition positions :: "(int \<times> octet list option) option list \<Rightarrow> int list" where
  "positions outs = List.map_filter (map_option fst) outs"

lemma positions_simps [simp]:
  "positions [] = []" "positions (None # outs) = positions outs"
  "positions (Some (j, x) # outs) = j # positions outs"
  by (simp_all add: positions_def List.map_filter_def)

lemma play_at_arrive:
  assumes "0 < m" "waiting q \<noteq> []" "j - (play_at q + int (length (waiting q)) - 1) \<le> int m"
  shows "play_at q \<le> play_at (arrive m j bs q)"
  using assms by (cases rule: arrive_cases [of m j bs q]) auto

lemma steady_increasing:
  assumes "0 < m" "steady m es q"
  shows "sorted_wrt (<) (positions (fst (spec_session m es q))) \<and>
    (\<forall>j \<in> set (positions (fst (spec_session m es q))). play_at q \<le> j)"
  using assms(2)
proof (induction es arbitrary: q)
  case (Cons e es)
  show ?case
  proof (cases e)
    case (Arrive clk mark j bs)
    then show ?thesis
      using Cons.IH [of "arrive m j bs q"] Cons.prems play_at_arrive [OF assms(1), of q j bs] by fastforce
  next
    case Play
    then have IH: "sorted_wrt (<) (positions (fst (spec_session m es (snd (play m q)))))"
      "\<forall>j \<in> set (positions (fst (spec_session m es (snd (play m q))))). play_at (snd (play m q)) \<le> j"
      using Cons.IH [of "snd (play m q)"] Cons.prems by simp_all
    then show ?thesis
      using Play by (cases rule: play_cases [of q m]) (fastforce simp: case_prod_beta Let_def)+
  qed
qed simp

lemma positions_nth:
  "sorted_wrt (<) (positions outs) \<Longrightarrow> a < b \<Longrightarrow> b < length outs \<Longrightarrow>
    outs ! a = Some (i, x) \<Longrightarrow> outs ! b = Some (k, y) \<Longrightarrow> i < k"
proof (induction outs arbitrary: a b)
  case (Cons out outs)
  obtain b' where b: "b = Suc b'" using Cons.prems(2) by (cases b) auto
  have tl: "sorted_wrt (<) (positions outs)" using Cons.prems(1) by (cases out) auto
  show ?case
  proof (cases a)
    case 0
    have "k \<in> set (positions outs)"
      using Cons.prems(3,5) b nth_mem [of b' outs] by (force simp: positions_def List.map_filter_def)
    then show ?thesis using Cons.prems(1,4) 0 by auto
  next
    case (Suc a')
    then show ?thesis using Cons.IH [OF tl, of a' b'] Cons.prems b by simp
  qed
qed simp

lemma seq_at_difference:
  assumes "i < k" "k < i + 32768"
  shows "(uint (ucast (seq_at st k) :: u32) - uint (ucast (seq_at st i) :: u32)) mod 65536 \<in> {1..32767}"
proof -
  have u: "uint (ucast (seq_at st j) :: u32) = (uint (stream_seq st) + j) mod 65536" for j
    by (simp add: seq_at_def unsigned_ucast_eq take_bit_eq_mod uint_word_ariths uint_word_of_int mod_simps)
  have "(uint (ucast (seq_at st k) :: u32) - uint (ucast (seq_at st i) :: u32)) mod 65536 = (k - i) mod 65536"
    unfolding u mod_simps by simp
  with assms show ?thesis by simp
qed

lemma voice_numbers_increase:
  assumes s: "list_all2 (plays_as st src fmt) (fst (spec_session m es silent)) ps" and m: "0 < m"
    and inc: "sorted_wrt (<) (positions (fst (spec_session m es silent)))"
    and window: "fst ` arrivals es \<subseteq> {lo..<lo + 32768}"
  shows "\<forall>a b. a < b \<and> b < length ps \<and> \<not> is_silence_fill (ps ! a) \<and> \<not> is_silence_fill (ps ! b) \<longrightarrow>
      (uint (getSequence (ps ! b)) - uint (getSequence (ps ! a))) mod 65536 \<in> {1..32767}"
proof (intro allI impI)
  let ?outs = "fst (spec_session m es silent)"
  fix a b assume ab: "a < b \<and> b < length ps \<and> \<not> is_silence_fill (ps ! a) \<and> \<not> is_silence_fill (ps ! b)"
  have len: "length ?outs = length ps" using s by (rule list_all2_lengthD)
  have voice: "\<exists>k cs. ?outs ! n = Some (k, Some cs) \<and> k \<in> fst ` arrivals es \<and> getSequence (ps ! n) = ucast (seq_at st k)"
    if n: "n < length ps" "\<not> is_silence_fill (ps ! n)" for n
  proof -
    have "plays_as st src fmt (?outs ! n) (ps ! n)" using s n(1) by (simp add: list_all2_conv_all_nth)
    then obtain k cs where k: "?outs ! n = Some (k, Some cs)" "getSequence (ps ! n) = ucast (seq_at st k)"
      using n(2) by (auto simp: plays_as_def carries_def packet_at_def split: option.splits prod.splits)
    have "Some (k, Some cs) \<in> set ?outs" using nth_mem [of n ?outs] k(1) n(1) len by simp
    then have "(k, cs) \<in> arrivals es"
      by (intro spec_session_arrived [OF m, of _ silent es]) (auto simp: arrived_only_def silent_def)
    with k show ?thesis by force
  qed
  have "a < length ps" using ab by simp
  from voice [OF this] voice [of b] ab obtain i x k y where
    p: "?outs ! a = Some (i, Some x)" "i \<in> fst ` arrivals es" "getSequence (ps ! a) = ucast (seq_at st i)"
      "?outs ! b = Some (k, Some y)" "k \<in> fst ` arrivals es" "getSequence (ps ! b) = ucast (seq_at st k)"
    by blast
  have "i < k" using positions_nth [OF inc _ _ p(1,4)] ab len by simp
  moreover have "i \<in> {lo..<lo + 32768}" "k \<in> {lo..<lo + 32768}" using p(2,5) window by blast+
  then have "k < i + 32768" by simp
  ultimately show "(uint (getSequence (ps ! b)) - uint (getSequence (ps ! a))) mod 65536 \<in> {1..32767}"
    using p(3,6) seq_at_difference [of i k st] by simp
qed

subsection \<open>A regular stream is played with a constant delay\<close>

definition content :: "(int \<Rightarrow> octet list) \<Rightarrow> int \<Rightarrow> octet list option" where
  "content f j = (if j < 0 then None else Some (f j))"

text \<open>The packets \<open>i, i + 1, \<dots>\<close> arrive one by one, and one packet is played before each.\<close>

fun relay :: "(nat \<Rightarrow> NtpTime) \<Rightarrow> (int \<Rightarrow> octet list) \<Rightarrow> int \<Rightarrow> nat \<Rightarrow> event list" where
  "relay clk f i 0 = []"
| "relay clk f i (Suc n) = Play # Arrive clk False i (f i) # relay clk f (i + 1) n"

lemma relay_step:
  fixes m i p
  defines "p \<equiv> int (m div 2 - 1)"
  assumes m: "0 < m" and q: "q = \<lparr>play_at = i - p, waiting = map (content f) [i - p..i]\<rparr>" and i: "0 \<le> i"
  shows "fst (play m q) = Some (i - p, content f (i - p))"
    "arrive m (i + 1) (f (i + 1)) (snd (play m q)) =
      \<lparr>play_at = i + 1 - p, waiting = map (content f) [i + 1 - p..i + 1]\<rparr>"
proof -
  have p: "0 \<le> p" "p + 1 \<le> int m" using m by (auto simp: p_def)
  have split: "[i - p..i] = (i - p) # [i + 1 - p..i]" using p by (subst upto.simps) (simp add: algebra_simps)
  have len: "length [i - p..i] = nat (p + 1)" using p by simp
  have "\<not> m div 2 + 1 < nat (p + 1)" by (simp add: p_def)
  then have P: "play m q = (Some (i - p, content f (i - p)), \<lparr>play_at = i + 1 - p, waiting = map (content f) [i + 1 - p..i]\<rparr>)"
    using len unfolding q split by (simp add: play_def algebra_simps)
  then show "fst (play m q) = Some (i - p, content f (i - p))" by simp
  have c: "content f (i + 1) = Some (f (i + 1))" using i by (simp add: content_def)
  show "arrive m (i + 1) (f (i + 1)) (snd (play m q)) =
      \<lparr>play_at = i + 1 - p, waiting = map (content f) [i + 1 - p..i + 1]\<rparr>"
  proof (cases "p = 0")
    case True
    then have "m div 2 - 1 = 0" by (simp add: p_def)
    with True P c show ?thesis by (simp add: arrive_def)
  next
    case False
    have snoc: "[i + 1 - p..i + 1] = [i + 1 - p..i] @ [i + 1]" using p by (simp add: upto_rec2)
    have "[i + 1 - p..i] \<noteq> []" "length [i + 1 - p..i] = nat p" using p False by auto
    then show ?thesis
      using p P c False unfolding snoc by (simp add: arrive_def Let_def)
  qed
qed

lemma relay_outputs:
  fixes m i p
  defines "p \<equiv> int (m div 2 - 1)"
  assumes m: "0 < m" and q: "q = \<lparr>play_at = i - p, waiting = map (content f) [i - p..i]\<rparr>" and i: "0 \<le> i"
  shows "fst (spec_session m (relay clk f (i + 1) n) q) =
    map (\<lambda>k. Some (i - p + int k, content f (i - p + int k))) [0..<n]"
  using q i
proof (induction n arbitrary: i q)
  case (Suc n)
  note step = relay_step [OF m Suc.prems [unfolded p_def], folded p_def]
  have "fst (spec_session m (relay clk f (i + 1 + 1) n) (arrive m (i + 1) (f (i + 1)) (snd (play m q)))) =
      map (\<lambda>k. Some (i + 1 - p + int k, content f (i + 1 - p + int k))) [0..<n]"
    using Suc.IH [OF step(2)] Suc.prems by simp
  then show ?case
    using step(1) by (simp add: case_prod_beta Let_def upt_conv_Cons map_Suc_upt [symmetric] algebra_simps del: upt_Suc)
qed simp

lemma plausible_relay:
  assumes "0 < m" "\<And>j. f j \<noteq> [] \<and> length (f j) \<le> 1012"
    and q: "q = \<lparr>play_at = i - int (m div 2 - 1), waiting = map (content f) [i - int (m div 2 - 1)..i]\<rparr>" and i: "0 \<le> i"
  shows "plausible m (relay clk f (i + 1) n) q"
  using q i
proof (induction n arbitrary: i q)
  case (Suc n)
  let ?q = "snd (play m q)"
  note step = relay_step [OF assms(1) Suc.prems]
  have "waiting ?q = [] \<or> \<bar>i + 1 - (play_at ?q + int (length (waiting ?q)) - 1)\<bar> < 32768"
    by (cases rule: play_cases [of q m]) (use Suc.prems in \<open>auto dest!: arg_cong [where f = length]\<close>)
  then show ?case
    using Suc.IH [OF step(2)] Suc.prems assms(2) by simp
qed simp

section \<open>Storage for the examples\<close>

definition blank_packet :: RtpPacket where
  "blank_packet = \<lparr>sequenceSet = False, timestampSet = False, converted_to_nbo = False,
     converted_to_hbo = False, is_silence_fill = False, npadSize = 0, csrc_count = 0,
     packetData = replicate RTP_MTU 0, packetAlloc = 1036, unusedSize = 0\<rparr>"

definition blank_receiver :: RtpReceiver where
  "blank_receiver = \<lparr>inPos = 0, playPos = 0, cur_max_jbs = 0, jitterBuffer = [],
     DTMFInterface_set = False, DTMF_sent = [], keyEvent = KeyEventNULL, DTMFEvent_last = DTMFEventNULL,
     invalidPldSize = 0, sidPktsRcvd = 0, receiverError = recv_success, seq_loss_max = 0,
     sourceSet = False, ssrc = 0, probationSet = False, srcProbation = 0, probation = 0, seedSeq = 0,
     seedNtpTime = NtpTime 0 0, seedRtpTime = 0, packetReceived = 0, payloadReceived = 0,
     realPrevSeqRecv = 0, recv_cycles = 0, comfortNoiseDropped = 0, lastTransit_ms = 0, jitter = 0,
     rtcpRecv = None, format = 0, sampleSize = 0, perSampleSize = 0, clockRate = 0,
     tmpPkt = blank_packet, readRealVoiceAlready = False\<rparr>"

lemma blank_storage: "wf_store (tmpPkt blank_receiver)" "holder blank_packet"
  by (simp_all add: blank_receiver_def blank_packet_def wf_store_def holder_def RTP_MTU_def)

definition example_stream :: rtp_stream where
  "example_stream = \<lparr>stream_seq = 65534, stream_time = 4294967000, stream_step = 160\<rparr>"

lemma replicate_small: "replicate 3 x = [x, x, x]" "replicate 2 x = [x, x]"
  by (simp_all add: numeral_3_eq_3 numeral_2_eq_2)

lemma example_ok: "wf_stream example_stream" "voice_format 0"
  by (simp_all add: example_stream_def wf_stream_def voice_format_def rtp_consts)

section \<open>Properties\<close>

text \<open>C3: A receiver of RtpReceiver.cxx, from its constructor on, fed with the datagrams of a
  paced stream (any order, gaps, repetitions, wrapping sequence numbers and timestamps) and
  played in between, never aborts and never hangs: every \<open>readNetwork\<close> and \<open>retrieve\<close> returns,
  and the packets played are, one by one, those of the position-based specification.\<close>

theorem receiver_refines_playout:
  assumes "wf_stream st" "voice_format fmt" "0 < m" "m \<le> 1024" "0 < clockrate" "clockrate < 2 ^ 31"
    "wf_store (tmpPkt r0)" "holder pkt" "plausible m (Arrive clk mark j bs # es) silent"
  shows "\<exists>r ps r'. new_RtpReceiver (uint fmt) clockrate per_sample_size (stream_step st) (int m) r0 = Inr r \<and>
    session st src fmt (Arrive clk mark j bs # es) pkt r = Some (Inr (ps, r')) \<and>
    list_all2 (plays_as st src fmt) (fst (spec_session m (Arrive clk mark j bs # es) silent)) ps"
  by (rule session_from_construction [OF assms(1-8) refl assms(9)])

theorem receiver_refines_playout_witness:
  "\<exists>r ps r'. new_RtpReceiver (uint (0 :: octet)) 8000 1 (stream_step example_stream) (int 8) blank_receiver = Inr r \<and>
    session example_stream 7 0 [Arrive (\<lambda>_. NtpTime 9 0) False 0 [1, 2], Play,
      Arrive (\<lambda>_. NtpTime 9 0) False 3 [3], Arrive (\<lambda>_. NtpTime 9 0) False 1 [4], Play] blank_packet r = Some (Inr (ps, r')) \<and>
    list_all2 (plays_as example_stream 7 0) (fst (spec_session 8 [Arrive (\<lambda>_. NtpTime 9 0) False 0 [1, 2], Play,
      Arrive (\<lambda>_. NtpTime 9 0) False 3 [3], Arrive (\<lambda>_. NtpTime 9 0) False 1 [4], Play] silent)) ps"
  using example_ok blank_storage by (intro receiver_refines_playout)
    (simp_all add: silent_def arrive_def play_def Let_def lastn_def replicate_small)

text \<open>C27: Whatever the order of arrivals and plays, every packet that the receiver plays as
  voice carries the payload of a datagram that arrived, under that datagram's sequence number
  and timestamp.\<close>

theorem receiver_plays_only_arrivals:
  assumes "wf_stream st" "voice_format fmt" "0 < m" "m \<le> 1024" "0 < clockrate" "clockrate < 2 ^ 31"
    "wf_store (tmpPkt r0)" "holder pkt" "plausible m (Arrive clk mark j bs # es) silent"
  shows "\<exists>r ps r'. new_RtpReceiver (uint fmt) clockrate per_sample_size (stream_step st) (int m) r0 = Inr r \<and>
    session st src fmt (Arrive clk mark j bs # es) pkt r = Some (Inr (ps, r')) \<and>
    (\<forall>p \<in> set ps. \<not> is_silence_fill p \<longrightarrow> (\<exists>k cs. (k, cs) \<in> arrivals (Arrive clk mark j bs # es) \<and>
       getSequence p = ucast (seq_at st k) \<and> getRtpTime p = time_at st k \<and> pkt_payload p = cs \<and> getSSRC p = src))"
proof -
  let ?es = "Arrive clk mark j bs # es"
  obtain r ps r' where s: "new_RtpReceiver (uint fmt) clockrate per_sample_size (stream_step st) (int m) r0 = Inr r"
    "session st src fmt ?es pkt r = Some (Inr (ps, r'))"
    "list_all2 (plays_as st src fmt) (fst (spec_session m ?es silent)) ps"
    using session_from_construction [OF assms(1-8) refl assms(9)] by blast
  have "\<exists>k cs. (k, cs) \<in> arrivals ?es \<and> getSequence p = ucast (seq_at st k) \<and> getRtpTime p = time_at st k \<and>
      pkt_payload p = cs \<and> getSSRC p = src" if "p \<in> set ps" "\<not> is_silence_fill p" for p
    using plays_as_arrival [OF s(3) assms(3) that] by (auto simp: carries_def packet_at_def)
  with s show ?thesis by blast
qed

theorem receiver_plays_only_arrivals_witness:
  "\<exists>r ps r'. new_RtpReceiver (uint (0 :: octet)) 8000 1 (stream_step example_stream) (int 8) blank_receiver = Inr r \<and>
    session example_stream 7 0 [Arrive (\<lambda>_. NtpTime 9 0) False 0 [1, 2], Play] blank_packet r = Some (Inr (ps, r')) \<and>
    (\<forall>p \<in> set ps. \<not> is_silence_fill p \<longrightarrow> (\<exists>k cs. (k, cs) \<in> arrivals [Arrive (\<lambda>_. NtpTime 9 0) False 0 [1, 2], Play] \<and>
       getSequence p = ucast (seq_at example_stream k) \<and> getRtpTime p = time_at example_stream k \<and>
       pkt_payload p = cs \<and> getSSRC p = 7))"
  using example_ok blank_storage by (intro receiver_plays_only_arrivals)
    (simp_all add: silent_def arrive_def play_def)

text \<open>C28: Reordering, repetition and gaps in the network never show in what is played: while the
  buffer neither runs empty nor has to start over, and the datagrams of the session lie within
  32768 consecutive positions of the stream (so that 16 bits order them), every packet played
  as voice has a sequence number strictly ahead, modulo \<open>2 ^ 16\<close>, of the voice packets played
  before it. No datagram is played twice or behind a later one.\<close>

theorem receiver_plays_in_order:
  assumes "wf_stream st" "voice_format fmt" "0 < m" "m \<le> 1024" "0 < clockrate" "clockrate < 2 ^ 31"
    "wf_store (tmpPkt r0)" "holder pkt" "plausible m (Arrive clk mark j bs # es) silent"
    "steady m es (arrive m j bs silent)"
    "fst ` arrivals (Arrive clk mark j bs # es) \<subseteq> {lo..<lo + 32768}"
  shows "\<exists>r ps r'. new_RtpReceiver (uint fmt) clockrate per_sample_size (stream_step st) (int m) r0 = Inr r \<and>
    session st src fmt (Arrive clk mark j bs # es) pkt r = Some (Inr (ps, r')) \<and>
    (\<forall>a b. a < b \<and> b < length ps \<and> \<not> is_silence_fill (ps ! a) \<and> \<not> is_silence_fill (ps ! b) \<longrightarrow>
      (uint (getSequence (ps ! b)) - uint (getSequence (ps ! a))) mod 65536 \<in> {1..32767})"
proof -
  let ?es = "Arrive clk mark j bs # es"
  obtain r ps r' where s: "new_RtpReceiver (uint fmt) clockrate per_sample_size (stream_step st) (int m) r0 = Inr r"
    "session st src fmt ?es pkt r = Some (Inr (ps, r'))"
    "list_all2 (plays_as st src fmt) (fst (spec_session m ?es silent)) ps"
    using session_from_construction [OF assms(1-8) refl assms(9)] by blast
  have "sorted_wrt (<) (positions (fst (spec_session m ?es silent)))"
    using steady_increasing [OF assms(3,10)] by simp
  from voice_numbers_increase [OF s(3) assms(3) this assms(11)] s(1,2) show ?thesis by blast
qed

theorem receiver_plays_in_order_witness:
  "\<exists>r ps r'. new_RtpReceiver (uint (0 :: octet)) 8000 1 (stream_step example_stream) (int 8) blank_receiver = Inr r \<and>
    session example_stream 7 0 [Arrive (\<lambda>_. NtpTime 9 0) False 0 [1, 2], Play,
      Arrive (\<lambda>_. NtpTime 9 0) False 2 [3], Arrive (\<lambda>_. NtpTime 9 0) False 1 [4], Play] blank_packet r = Some (Inr (ps, r')) \<and>
    (\<forall>a b. a < b \<and> b < length ps \<and> \<not> is_silence_fill (ps ! a) \<and> \<not> is_silence_fill (ps ! b) \<longrightarrow>
      (uint (getSequence (ps ! b)) - uint (getSequence (ps ! a))) mod 65536 \<in> {1..32767})"
  using example_ok blank_storage by (intro receiver_plays_in_order [where lo = 0])
    (auto simp: silent_def arrive_def play_def Let_def lastn_def replicate_small arrivals_def)

text \<open>C29: A stream that arrives in order and is played at the pace it arrives is played without
  loss: the packet played at the k-th turn is the one at position \<open>k - d\<close> with the constant
  delay \<open>d = max (m / 2 - 1) 0\<close> for a jitter buffer of \<open>m\<close> packets, silences before position 0.\<close>

theorem receiver_constant_delay:
  assumes st: "wf_stream st" "voice_format fmt" "0 < m" "m \<le> 1024" "0 < clockrate" "clockrate < 2 ^ 31"
    "wf_store (tmpPkt r0)" "holder pkt" and f: "\<And>j. f j \<noteq> [] \<and> length (f j) \<le> 1012"
  shows "\<exists>r ps r'. new_RtpReceiver (uint fmt) clockrate per_sample_size (stream_step st) (int m) r0 = Inr r \<and>
    session st src fmt (Arrive clk False 0 (f 0) # relay clk f 1 n) pkt r = Some (Inr (ps, r')) \<and>
    length ps = n \<and>
    (\<forall>k<n. carries st (int k - int (m div 2 - 1)) (content f (int k - int (m div 2 - 1))) (ps ! k))"
proof -
  let ?p = "int (m div 2 - 1)" and ?es = "Arrive clk False 0 (f 0) # relay clk f 1 n"
  let ?q = "arrive m 0 (f 0) silent"
  have "replicate (m div 2 - 1) None = map (content f) [- ?p..-1]"
    by (rule nth_equalityI) (simp_all add: content_def)
  moreover have "[- ?p..0] = [- ?p..-1] @ [0]" by (subst upto_rec2) simp_all
  ultimately have q: "?q = \<lparr>play_at = 0 - ?p, waiting = map (content f) [0 - ?p..0]\<rparr>"
    by (simp add: arrive_def silent_def content_def)
  have "plausible m ?es silent"
    using f plausible_relay [OF assms(3) f q, of clk n] by (simp add: silent_def)
  from session_from_construction [OF st refl this]
  obtain r ps r' where s: "new_RtpReceiver (uint fmt) clockrate per_sample_size (stream_step st) (int m) r0 = Inr r"
    "session st src fmt ?es pkt r = Some (Inr (ps, r'))"
    "list_all2 (plays_as st src fmt) (fst (spec_session m ?es silent)) ps" by blast
  moreover have "fst (spec_session m ?es silent) = map (\<lambda>k. Some (int k - ?p, content f (int k - ?p))) [0..<n]"
    using relay_outputs [OF assms(3) q, of clk n] by simp
  ultimately have "length ps = n \<and> (\<forall>k<n. carries st (int k - ?p) (content f (int k - ?p)) (ps ! k))"
    by (auto simp: list_all2_conv_all_nth plays_as_def)
  with s show ?thesis by blast
qed

theorem receiver_constant_delay_witness:
  "\<exists>r ps r'. new_RtpReceiver (uint (0 :: octet)) 8000 1 (stream_step example_stream) (int 8) blank_receiver = Inr r \<and>
    session example_stream 7 0 (Arrive (\<lambda>_. NtpTime 9 0) False 0 [word_of_int 0] # relay (\<lambda>_. NtpTime 9 0) (\<lambda>j. [word_of_int j]) 1 20)
      blank_packet r = Some (Inr (ps, r')) \<and> length ps = 20 \<and>
    (\<forall>k<20. carries example_stream (int k - int (8 div 2 - 1)) (content (\<lambda>j. [word_of_int j]) (int k - int (8 div 2 - 1))) (ps ! k))"
  using receiver_constant_delay [OF example_ok, of 8 8000 blank_receiver blank_packet "\<lambda>j. [word_of_int j]" 1 7 "\<lambda>_. NtpTime 9 0" 20]
    blank_storage by simp

end
