(* ===== verification/Rtp_Robustness.thy ===== *)
theory Rtp_Robustness
  imports Rtp_Session
begin

text \<open>
  The receiver under arbitrary input: whatever a datagram contains, \<open>readNetwork\<close> returns, since
  the silence patching loop comes one sequence number closer to the packet in every round;
  and the one way in which a datagram of an admitted source can stop the program, a late
  packet for the oldest place of a full buffer whose sequence numbers have a gap.
\<close>

section \<open>The silence patching loop ends\<close>

lemma seq_dist_pred:
  assumes "1 \<le> seq_dist a b"
  shows "seq_dist a (b + 1) = seq_dist a b - 1"
proof -
  let ?d = "seq_dist a b"
  have "a = b + word_of_int ?d" using seq_dist_step [of a b] assms by simp
  then have "a = (b + 1) + word_of_int (?d - 1)" by simp
  moreover have "?d - 1 < 32768" using seq_dist_range(2) [of a b] by simp
  ultimately show ?thesis using seq_dist_ahead [of "?d - 1" "b + 1"] assms by simp
qed

lemma silencePatch_returns:
  "jb_ok r \<Longrightarrow> nat (seq_dist seq prevSeq) = n \<Longrightarrow> \<exists>out. silencePatch t (ucast seq) ss prevSeq prevTime r = Some out"
proof (induction n arbitrary: r prevSeq prevTime)
  case 0
  then show ?case by (subst silencePatch.simps) (simp add: RtpTimeGreater_iff)
next
  case (Suc n)
  obtain g where g: "RtpTimeGreater (t - word_of_int ss) prevTime = Inr g" by (simp add: RtpTimeGreater_iff)
  obtain r1 where r1: "insertSilenceRtpData (prevTime + word_of_int ss) (prevSeq + 1) r = Inr r1" "jb_ok r1"
    "jb_view r1 = lastn (cur_max_jbs r) (jb_view r @ [(ucast (prevSeq + 1), prevTime + word_of_int ss, None)])"
    using insertSilenceRtpData_view [OF Suc.prems(1)] by blast
  obtain ys where "jb_view r1 = ys @ [(ucast (prevSeq + 1), prevTime + word_of_int ss, None)]"
    using lastn_snoc_view [OF cap_pos(1) [OF Suc.prems(1)]] r1(3) by metis
  then obtain d where d: "getLastRtpData r1 = Inr (Some d)" "rtp_seq_no d = ucast (prevSeq + 1)"
    using getLastRtpData_view [OF r1(2)] by metis
  have "nat (seq_dist seq (prevSeq + 1)) = n" using seq_dist_pred [of seq prevSeq] Suc.prems(2) by simp
  then obtain out where "silencePatch t (ucast seq) ss (prevSeq + 1) (rtp_time d) r1 = Some out"
    using Suc.IH [OF r1(2)] by blast
  then show ?case
    using g r1(1) d by (subst silencePatch.simps) simp
qed

lemma insertPacket_returns:
  assumes "jb_ok r" shows "\<exists>out. insertPacket pkt r = Some out"
proof -
  obtain s where s: "getSequence pkt = ucast (s :: u16)" by (simp add: getSequence_def)
  have odo: "\<exists>out. odo m f = Some out" if "\<And>x. m = Inr x \<Longrightarrow> \<exists>out. f x = Some out"
    for m :: "'x outcome" and f :: "'x \<Rightarrow> RtpReceiver outcome option"
    using that by (cases m) auto
  have patch: "\<exists>out. silencePatch (getRtpTime pkt) (getSequence pkt) (sampleSize r) p t r = Some out" for p t
    unfolding s using silencePatch_returns [OF assms, of s p] by blast
  show ?thesis
    unfolding insertPacket_def
    by (intro odo) (use patch in \<open>auto intro!: odo split: option.splits\<close>)
qed

section \<open>Reading leaves a consistent buffer to the insertion\<close>

lemma removeSource_jb: "removeSource s f r = Inr r' \<Longrightarrow> JitterBuffer.truncate r' = JitterBuffer.truncate r"
  by (auto simp: removeSource_def Let_def JitterBuffer.defs obind_eq_Inr split: option.splits if_splits)

lemma clear_truncate: "JitterBuffer.truncate a = JitterBuffer.truncate r \<Longrightarrow>
    JitterBuffer.truncate (clearJitterBuffer a) = JitterBuffer.truncate (clearJitterBuffer r)"
  by (simp add: JitterBuffer.defs clearJitterBuffer_def)

lemma jb_ok_same: "jb_ok r \<Longrightarrow> JitterBuffer.truncate r' = JitterBuffer.truncate r \<Longrightarrow> jb_ok r'"
  using jb_same [of r' r] by simp

lemma initSource_jb:
  assumes "jb_ok r" "initSource now pkt r = Inr r'"
  shows "jb_ok r'"
proof -
  let ?b = "r\<lparr>seedSeq := getSequence pkt, seedNtpTime := now, seedRtpTime := getRtpTime pkt\<rparr>"
  have r': "r' = (clearJitterBuffer ?b)\<lparr>readRealVoiceAlready := False, lastTransit_ms := 0, jitter := 0\<rparr>"
    using assms(2) by (simp add: initSource_def oassert_def split: if_splits)
  have "jb_ok ?b" by (rule jb_ok_same [OF assms(1)]) (simp add: JitterBuffer.defs)
  then show ?thesis using jb_ok_clear [of ?b] unfolding r' by (auto intro: jb_ok_same simp: JitterBuffer.defs)
qed

lemma addSource_jb:
  assumes ok: "jb_ok r" and add: "addSource now pkt r = Inr (d, r')"
  shows "jb_ok r'"
proof (cases "sourceSet r \<and> probation r < 4")
  case True
  with add have "r' = r\<lparr>probation := probation r + 1\<rparr>" by (simp add: addSource_def)
  then show ?thesis using jb_ok_same [OF ok, of r'] by (simp add: JitterBuffer.defs)
next
  case False
  then obtain a where a: "(if sourceSet r then removeSource (ssrc r) False r else Inr r) = Inr a"
    using add by (auto simp: addSource_def obind_eq_Inr)
  then have "jb_ok a" using jb_ok_same [OF ok, of a] removeSource_jb [of "ssrc r" False r a] by (auto split: if_splits)
  moreover from \<open>jb_ok a\<close> have "jb_ok (a\<lparr>sourceSet := True, ssrc := getSSRC pkt, probation := 0, packetReceived := 0,
      payloadReceived := 0, realPrevSeqRecv := 0, recv_cycles := 0, rtcpRecv := l\<rparr>)" for l
    by (rule jb_ok_same) (simp add: JitterBuffer.defs)
  moreover from \<open>jb_ok a\<close> have "jb_ok (a\<lparr>sourceSet := True, ssrc := getSSRC pkt, probation := 0, packetReceived := 0,
      payloadReceived := 0, realPrevSeqRecv := 0, recv_cycles := 0\<rparr>)"
    by (rule jb_ok_same) (simp add: JitterBuffer.defs)
  ultimately show ?thesis
    using False a add
    by (auto simp: addSource_def obind_eq_Inr Let_def split: option.splits if_splits dest!: initSource_jb [rotated])
qed

lemma updateSource_jb:
  assumes ok: "jb_ok r" and up: "updateSource clk pkt r = Inr (d, r')"
  shows "jb_ok r'"
proof (cases "sourceSet r \<and> getSSRC pkt = srcProbation r \<and> probationSet r")
  case True
  with up ok show ?thesis by (simp add: updateSource_def)
next
  case False
  then obtain e a where a: "(if \<not> sourceSet r \<or> getSSRC pkt \<noteq> ssrc r then addSource (clk 0) pkt r else Inr (0, r)) = Inr (e, a)"
    using up by (auto simp: updateSource_def obind_eq_Inr)
  then have ok': "jb_ok a" using ok addSource_jb [OF ok] by (auto split: if_splits)
  let ?c = "checkCycle (ucast (getSequence pkt)) a"
  have c: "jb_ok ?c" using checkCycle_fields [of "ucast (getSequence pkt)" a]
    by (auto intro: jb_ok_same [OF ok'] simp: JitterBuffer.defs)
  then have "jb_ok (?c\<lparr>comfortNoiseDropped := x\<rparr>)" for x by (rule jb_ok_same) (simp add: JitterBuffer.defs)
  then show ?thesis
    using False a up ok' c initSource_jb [OF c]
    by (auto simp: updateSource_def Let_def oassert_eq_Inr obind_eq_Inr split: if_splits)
qed

lemma recvEvent_jb: "recvEvent pkt r = Inr r' \<Longrightarrow> JitterBuffer.truncate r' = JitterBuffer.truncate r"
  by (auto simp: recvEvent_def recvEventRFC2833_def recvEventCiscoRTP_def sendToDTMFInterface_def JitterBuffer.defs
      oassert_eq_Inr split: if_splits)

lemma getPacket_jb:
  assumes ok: "jb_ok r" and get: "getPacket rx clk pkt r = Inr (n, pkt', r')"
  shows "jb_ok r'"
proof -
  have "r' = r \<or> (\<exists>p. recvEvent p r = Inr r') \<or> (\<exists>p d. updateSource clk p r = Inr (d, r'))"
    using get by (auto simp: getPacket_def obind_eq_Inr split: if_splits)
  then show ?thesis
    using ok updateSource_jb [OF ok] recvEvent_jb [of _ r r'] jb_ok_same [OF ok, of r'] by blast
qed

section \<open>A late packet at a full buffer with a gap\<close>

lemma full_gap_aborts:
  assumes ok: "jb_ok r" and pkt: "pkt_ok pkt" "getSequence pkt = ucast (s :: u16)"
    and full: "jb_count r = cur_max_jbs r" "1 < cur_max_jbs r"
    and late: "rtp_seq_no (last (jb_list r)) = ucast (s + of_nat (cur_max_jbs r - 1))"
    and gap: "rtp_seq_no (hd (jb_list r)) \<noteq> getSequence pkt"
  shows "\<exists>r'. insertPacket pkt r = Some (Inr r') \<and> verifyJbSanity r' = Inl AssertFailed"
proof -
  let ?m = "cur_max_jbs r" and ?d = "last (jb_list r)" and ?l = "s + of_nat (cur_max_jbs r - 1)"
  have inv: "jb_inv r" and b: "jb_bounds r" using ok by (auto simp: jb_ok_def)
  have m: "?m \<le> 1024" by (rule cap_pos(2) [OF ok])
  have ne: "jb_list r \<noteq> []" using full by (simp flip: length_greater_0_conv)
  have last: "getLastRtpData r = Inr (Some ?d)" using getLastRtpData_eq [OF inv] ne by simp
  have "?l = s + word_of_int (int (?m - 1))" by simp
  then have dist: "seq_dist ?l s = int ?m - 1" "seq_dist s ?l = 1 - int ?m"
    using seq_dist_ahead [of "int (?m - 1)" s] m full seq_dist_antisym [of s ?l] by (simp_all add: of_nat_diff)
  have ci: "c_int ?m = int ?m" using c_int_small m by simp
  have idx: "calculatePreviousInPos (int ?m) r = Inr (ring_at r 0)"
    using calculatePreviousInPos_eq [OF b, of "int ?m"] full by simp
  obtain r' where r': "setRtpData pkt (ring_at r 0) r = Inr r'" "verifyJbSanity r' = Inl AssertFailed"
    using setRtpData_displaces [OF inv pkt_ok_fits [OF pkt(1)] full gap] by blast
  have "placeLate ?d pkt r = Inr r'"
    using b late pkt(2) dist ci full idx r'(1) by (simp add: placeLate_def)
  then have "insertPacket pkt r = Some (Inr r')"
    using last late pkt(2) dist ci full by (simp add: insertPacket_def earlyPacket_def)
  with r'(2) show ?thesis by blast
qed

section \<open>Properties\<close>

text \<open>C17: \<open>RtpReceiver::readNetwork\<close> returns for every datagram, every clock and every state with a
  consistent jitter buffer: no input, paced or not, of the right source or not, valid or not,
  keeps its silence patching loop running.\<close>

theorem readNetwork_returns:
  assumes "jb_ok r"
  shows "\<exists>out. readNetwork rx clk r = Some out"
proof -
  have ok: "jb_ok (a\<lparr>tmpPkt := p\<rparr>)" if "jb_ok a" for a p
    by (rule jb_ok_same [OF that]) (simp add: JitterBuffer.defs)
  show ?thesis
  proof (cases "clear (tmpPkt r)")
    case (Inr pkt)
    show ?thesis
    proof (cases "getPacket rx clk pkt r")
      case got: (Inr x)
      obtain n p a where x: "x = (n, p, a)" by (cases x)
      have a: "jb_ok a" using getPacket_jb [OF assms] got x by blast
      show ?thesis
      proof (cases "rtp_ntohl p")
        case h: (Inr q)
        obtain out where "insertPacket q (a\<lparr>tmpPkt := q\<rparr>) = Some out"
          using insertPacket_returns [OF ok [OF a]] by blast
        then show ?thesis using Inr got x h by (simp add: readNetwork_def Let_def)
      qed (use Inr got x in \<open>simp add: readNetwork_def Let_def\<close>)
    qed (use Inr in \<open>simp add: readNetwork_def\<close>)
  qed (simp add: readNetwork_def)
qed

definition gap_buffer :: RtpReceiver where
  "gap_buffer = blank_receiver\<lparr>cur_max_jbs := 2, jitterBuffer :=
     Some \<lparr>rd_data = [1], rd_silence_fill = False, rd_in_use = True, rtp_seq_no = 10, rtp_time = 0\<rparr> #
     Some \<lparr>rd_data = [2], rd_silence_fill = False, rd_in_use = True, rtp_seq_no = 12, rtp_time = 160\<rparr> #
     replicate 1022 None\<rparr>"

definition late_packet :: RtpPacket where
  "late_packet = (setSequence 11 blank_packet)\<lparr>unusedSize := 1014\<rparr>"

lemma gap_buffer_count: "jb_count gap_buffer = 2" "jb_list gap_buffer =
    [\<lparr>rd_data = [1], rd_silence_fill = False, rd_in_use = True, rtp_seq_no = 10, rtp_time = 0\<rparr>,
     \<lparr>rd_data = [2], rd_silence_fill = False, rd_in_use = True, rtp_seq_no = 12, rtp_time = 160\<rparr>]"
  by (simp_all add: gap_buffer_def blank_receiver_def jb_count_def slot_used_def slot_in_use_def jb_list_def
      ring_at_def upt_conv_Cons numeral_2_eq_2)

lemma gap_buffer_ok: "jb_ok gap_buffer"
proof -
  have b: "jb_bounds gap_buffer"
    by (simp add: jb_bounds_def gap_buffer_def blank_receiver_def JITTER_BUFFER_MAX_def)
  have "slot_used gap_buffer (ring_at gap_buffer k)" if "k < 2" for k
  proof -
    have "k = 0 \<or> k = 1" using that by auto
    then show ?thesis
      by (auto simp: slot_used_def slot_in_use_def ring_at_def gap_buffer_def blank_receiver_def)
  qed
  then have "jb_inv gap_buffer" using b by (simp add: jb_inv_def gap_buffer_count) (simp add: gap_buffer_def)
  moreover have "slots_ok gap_buffer"
    by (auto simp: slots_ok_def gap_buffer_def wf_entry_def RTP_SEQ_MOD_eq)
  ultimately show ?thesis by (simp add: jb_ok_def)
qed

lemma late_packet_fields: "pkt_ok late_packet" "getSequence late_packet = ucast (11 :: u16)"
proof -
  have w: "wf_store blank_packet" by (simp add: blank_packet_def wf_store_def)
  have "getSequence (setSequence 11 blank_packet) = 11" using seqno.get_put [OF w, of 11] by simp
  then show "getSequence late_packet = ucast (11 :: u16)"
    by (simp add: late_packet_def getSequence_def)
  have "getCSRCcount blank_packet = 0"
    by (simp add: getCSRCcount_def get_field_def blank_packet_def RTP_MTU_def)
  then have "getCSRCcount (setSequence 11 blank_packet) = 0" by simp
  then show "pkt_ok late_packet"
    using w by (simp add: late_packet_def pkt_ok_def getPayloadUsage_def getPayloadSize_def getPadbyteSize_def
        getCSRCcount_def sizeof_RtpHeader_def sizeof_RtpSrc_def wf_store_def)
      (simp add: blank_packet_def setSequence_def put_sequence_def)
qed

theorem readNetwork_returns_witness: "\<exists>out. readNetwork (Received [0x80, 0, 0, 11]) (\<lambda>_. NtpTime 9 0) gap_buffer = Some out"
  by (rule readNetwork_returns [OF gap_buffer_ok])

text \<open>C30: A late packet stops the program when the jitter buffer is full, the packet belongs by its
  distance to the last entry into the oldest place, and that place holds another sequence number
  (the buffer has a gap in its sequence numbers, as after a packet whose timestamp shows no gap):
  \<open>setRtpData\<close> moves the play position on although the packet replaces an entry, and the
  consistency check at the end of \<open>readNetwork\<close> fails.\<close>

theorem late_packet_aborts:
  assumes "jb_ok r" "pkt_ok pkt" "getSequence pkt = ucast (s :: u16)"
    "jb_count r = cur_max_jbs r" "1 < cur_max_jbs r"
    "rtp_seq_no (last (jb_list r)) = ucast (s + of_nat (cur_max_jbs r - 1))"
    "rtp_seq_no (hd (jb_list r)) \<noteq> getSequence pkt"
  shows "\<exists>r'. insertPacket pkt r = Some (Inr r') \<and> verifyJbSanity r' = Inl AssertFailed"
  by (rule full_gap_aborts [OF assms])

theorem late_packet_aborts_witness:
  "\<exists>r'. insertPacket late_packet gap_buffer = Some (Inr r') \<and> verifyJbSanity r' = Inl AssertFailed"
proof (rule late_packet_aborts [OF gap_buffer_ok late_packet_fields])
  have c: "cur_max_jbs gap_buffer = 2" by (simp add: gap_buffer_def)
  show "jb_count gap_buffer = cur_max_jbs gap_buffer" "1 < cur_max_jbs gap_buffer"
    "rtp_seq_no (last (jb_list gap_buffer)) = ucast (11 + of_nat (cur_max_jbs gap_buffer - 1) :: u16)"
    "rtp_seq_no (hd (jb_list gap_buffer)) \<noteq> getSequence late_packet"
    by (simp_all add: c gap_buffer_count late_packet_fields)
qed

end
