(* ===== verification/Rtp_Sources.thy ===== *)
theory Rtp_Sources
  imports Rtp_Session
begin

text \<open>
  Which transmitter a receiver of \<open>rtp/RtpReceiver.cxx\<close> listens to, and how that agrees with
  the transmitter list of \<open>rtp/RtcpReceiver.cxx\<close>. \<open>tran_inv\<close> is the agreement of the two; every
  operation that changes one of them keeps it and does not abort, except a BYE for a source
  that is not in the list.
\<close>

section \<open>Agreement of receiver and transmitter list\<close>

text \<open>
  A list entry is stored under its own source and is attached to the receiver exactly when it
  is the receiver's current source; the current source is in the list.
\<close>

definition tran_ok :: "bool \<Rightarrow> u32 \<Rightarrow> (u32 \<rightharpoonup> RtpTranInfo) \<Rightarrow> bool" where
  "tran_ok active current l \<longleftrightarrow>
     (\<forall>s t. l s = Some t \<longrightarrow> tran_ssrc t = s \<and> (recv_attached t \<longleftrightarrow> active \<and> s = current)) \<and>
     (active \<longrightarrow> l current \<noteq> None)"

definition tran_inv :: "RtpReceiver \<Rightarrow> bool" where
  "tran_inv r \<longleftrightarrow> (\<exists>l. rtcpRecv r = Some l \<and> tran_ok (sourceSet r) (ssrc r) l) \<and> (sourceSet r \<longleftrightarrow> 0 \<le> probation r)"

lemma tran_invI:
  "rtcpRecv r = Some l \<Longrightarrow> tran_ok (sourceSet r) (ssrc r) l \<Longrightarrow> (sourceSet r \<longleftrightarrow> 0 \<le> probation r) \<Longrightarrow> tran_inv r"
  by (simp add: tran_inv_def)

lemma tran_invE:
  assumes "tran_inv r"
  obtains l where "rtcpRecv r = Some l" "tran_ok (sourceSet r) (ssrc r) l" "sourceSet r \<longleftrightarrow> 0 \<le> probation r"
  using assms by (auto simp: tran_inv_def)

lemma removeSource_inv:
  assumes "tran_inv r" "sourceSet r"
  shows "\<exists>r'. removeSource (ssrc r) False r = Inr r' \<and> tran_inv r' \<and> \<not> sourceSet r' \<and>
    probationSet r' \<and> srcProbation r' = ssrc r"
  using assms(1)
proof (rule tran_invE)
  fix l assume "rtcpRecv r = Some l" "tran_ok (sourceSet r) (ssrc r) l"
  with assms(2) show ?thesis
    by (auto simp: removeSource_def dropTranInfo_def tran_inv_def tran_ok_def Let_def)
qed

lemma addTranInfo_inv:
  assumes "tran_ok False c l"
  shows "\<exists>l'. addTranInfo src (Some src) l = Inr l' \<and> tran_ok True src l'"
proof (cases "l src")
  case None
  with assms show ?thesis by (auto simp: addTranInfo_def addTranFinal_def tran_ok_def)
next
  case (Some t)
  with assms show ?thesis by (auto simp: addTranInfo_def addTranFinal_def tran_ok_def)
qed

definition source_fields :: "RtpReceiver \<Rightarrow> _" where
  "source_fields r = (rtcpRecv r, sourceSet r, ssrc r, probation r, probationSet r, srcProbation r, format r)"

lemma initSource_fields:
  assumes "ssrc r = getSSRC pkt"
  obtains r' where "initSource now pkt r = Inr r'" "source_fields r' = source_fields r"
    "JitterBuffer.truncate r' = JitterBuffer.truncate (clearJitterBuffer r)"
proof -
  let ?r = "(clearJitterBuffer (r\<lparr>seedSeq := getSequence pkt, seedNtpTime := now,
      seedRtpTime := getRtpTime pkt\<rparr>))\<lparr>readRealVoiceAlready := False, lastTransit_ms := 0, jitter := 0\<rparr>"
  have "initSource now pkt r = Inr ?r" using assms by (simp add: initSource_def)
  moreover have "source_fields ?r = source_fields r" by (simp add: source_fields_def clearJitterBuffer_def)
  moreover have "JitterBuffer.truncate ?r = JitterBuffer.truncate (clearJitterBuffer r)"
    by (simp add: clearJitterBuffer_def JitterBuffer.defs)
  ultimately show thesis using that by blast
qed

lemma tran_inv_fields: "source_fields r' = source_fields r \<Longrightarrow> tran_inv r' = tran_inv r"
  by (simp add: source_fields_def tran_inv_def)

lemma addSource_free:
  assumes inv: "tran_inv r" and free: "\<not> sourceSet r"
  shows "\<exists>r'. addSource now pkt r = Inr (0, r') \<and> tran_inv r' \<and> sourceSet r' \<and> ssrc r' = getSSRC pkt \<and>
    probation r' = 0 \<and> probationSet r' = probationSet r \<and> srcProbation r' = srcProbation r \<and> format r' = format r"
proof -
  obtain l where l: "rtcpRecv r = Some l" "tran_ok False (ssrc r) l" using inv free by (auto elim: tran_invE)
  obtain l' where l': "addTranInfo (getSSRC pkt) (Some (getSSRC pkt)) l = Inr l'" "tran_ok True (getSSRC pkt) l'"
    using addTranInfo_inv [OF l(2)] by blast
  let ?a = "r\<lparr>sourceSet := True, ssrc := getSSRC pkt, probation := 0, packetReceived := 0, payloadReceived := 0,
    realPrevSeqRecv := 0, recv_cycles := 0, rtcpRecv := Some l'\<rparr>"
  obtain r' where r': "initSource now pkt ?a = Inr r'" "source_fields r' = source_fields ?a"
    using initSource_fields [of ?a pkt now] by auto
  have "addSource now pkt r = Inr (0, r')"
    using free l(1) l'(1) r'(1) by (simp add: addSource_def)
  moreover have "tran_inv ?a" using l'(2) by (intro tran_invI [of _ l']) simp_all
  ultimately show ?thesis
    using r'(2) tran_inv_fields [OF r'(2)] by (simp add: source_fields_def)
qed

lemma addSource_inv:
  assumes "tran_inv r"
  shows "\<exists>d r'. addSource now pkt r = Inr (d, r') \<and> tran_inv r' \<and> sourceSet r' \<and>
    (d = 0 \<longrightarrow> ssrc r' = getSSRC pkt)"
proof (cases "sourceSet r \<and> probation r < 4")
  case True
  then have "tran_inv (r\<lparr>probation := probation r + 1\<rparr>)" using assms by (auto simp: tran_inv_def)
  with True show ?thesis by (simp add: addSource_def)
next
  case False
  show ?thesis
  proof (cases "sourceSet r")
    case True
    then obtain r1 where r1: "removeSource (ssrc r) False r = Inr r1" "tran_inv r1" "\<not> sourceSet r1"
      using removeSource_inv [OF assms] by blast
    have "addSource now pkt r = addSource now pkt r1"
      using True False r1 by (simp add: addSource_def)
    then show ?thesis using addSource_free [OF r1(2,3), of now pkt] by auto
  next
    case False
    then show ?thesis using addSource_free [OF assms, of now pkt] by auto
  qed
qed

lemma checkCycle_source: "source_fields (checkCycle ts r) = source_fields r"
  using checkCycle_fields [of ts r] by (auto simp: source_fields_def)

lemma updateSource_inv:
  assumes "tran_inv r"
  shows "\<exists>d r'. updateSource clk pkt r = Inr (d, r') \<and> tran_inv r'"
proof (cases "sourceSet r \<and> getSSRC pkt = srcProbation r \<and> probationSet r")
  case True
  then show ?thesis using assms by (simp add: updateSource_def)
next
  case False
  have "\<exists>d r1. (if \<not> sourceSet r \<or> getSSRC pkt \<noteq> ssrc r then addSource (clk 0) pkt r else Inr (0, r)) = Inr (d, r1) \<and>
      tran_inv r1 \<and> sourceSet r1 \<and> (d = 0 \<longrightarrow> ssrc r1 = getSSRC pkt)"
    using addSource_inv [OF assms, of "clk 0" pkt] assms by auto
  then obtain d r1 where r1: "(if \<not> sourceSet r \<or> getSSRC pkt \<noteq> ssrc r then addSource (clk 0) pkt r else Inr (0, r)) = Inr (d, r1)"
    "tran_inv r1" "sourceSet r1" "d = 0 \<longrightarrow> ssrc r1 = getSSRC pkt" by blast
  show ?thesis
  proof (cases "d = 0")
    case True
    let ?c = "checkCycle (ucast (getSequence pkt)) r1"
    have "0 \<le> probation r1" using r1(2,3) by (simp add: tran_inv_def)
    then have c: "tran_inv ?c" "ssrc ?c = getSSRC pkt" "0 \<le> probation ?c"
      using tran_inv_fields [OF checkCycle_source, of "ucast (getSequence pkt)" r1] r1 True
        checkCycle_source [of "ucast (getSequence pkt)" r1] by (simp_all add: source_fields_def)
    obtain r2 where r2: "initSource (clk 1) pkt ?c = Inr r2" "source_fields r2 = source_fields ?c"
      using initSource_fields [OF c(2)] by metis
    have "tran_inv r2" using tran_inv_fields [OF r2(2)] c(1) by simp
    moreover have "tran_inv (?c\<lparr>comfortNoiseDropped := x\<rparr>)" for x
      using c(1) tran_inv_fields [of "?c\<lparr>comfortNoiseDropped := x\<rparr>" ?c] by (simp add: source_fields_def)
    ultimately show ?thesis
      using False r1(1) True c r2(1) assms by (simp add: updateSource_def Let_def)
  qed (use False r1 assms in \<open>simp add: updateSource_def\<close>)
qed

lemma removeTranInfo_inv:
  assumes "tran_inv r" "removeTranInfo src False r = Inr r'"
  shows "tran_inv r'"
  using assms(1)
proof (rule tran_invE)
  fix l assume l: "rtcpRecv r = Some l" "tran_ok (sourceSet r) (ssrc r) l" "sourceSet r \<longleftrightarrow> 0 \<le> probation r"
  then obtain t where t: "l src = Some t" using assms(2) by (auto simp: removeTranInfo_def split: option.splits)
  show ?thesis
  proof (cases "recv_attached t")
    case True
    then have "r' = r\<lparr>probationSet := True, srcProbation := src, sourceSet := False, ssrc := 0, probation := -2,
        rtcpRecv := Some (l(src := None))\<rparr>"
      using assms(2) l t by (auto simp: removeTranInfo_def removeSource_def tran_ok_def)
    with True l t show ?thesis by (auto simp: tran_inv_def tran_ok_def)
  next
    case False
    then have "r' = r\<lparr>rtcpRecv := Some (l(src := None))\<rparr>"
      using assms(2) l t by (simp add: removeTranInfo_def)
    with False l t show ?thesis by (auto simp: tran_inv_def tran_ok_def)
  qed
qed

lemma findTranInfo_ok:
  assumes "tran_ok a c l" "findTranInfo src l = Inr (i, l')"
  shows "tran_ok a c l'"
proof (cases "l src")
  case None
  then have "l' = l(src \<mapsto> new_RtpTranInfo src False)"
    using assms(2) by (auto simp: findTranInfo_def addTranInfo_def addTranFinal_def)
  with assms(1) None show ?thesis by (auto simp: tran_ok_def)
qed (use assms in \<open>simp add: findTranInfo_def\<close>)

section \<open>Steps of receiver and list\<close>

text \<open>What happens to the two in a session: an RTP packet, an RTCP report or source description
  (which looks its sender up), an RTCP BYE that is processed, a packet that is played.\<close>

inductive source_step :: "RtpReceiver \<Rightarrow> RtpReceiver \<Rightarrow> bool" where
  packet: "updateSource clk pkt r = Inr (d, r') \<Longrightarrow> source_step r r'"
| report: "rtcpRecv r = Some l \<Longrightarrow> findTranInfo src l = Inr (i, l') \<Longrightarrow> source_step r (r\<lparr>rtcpRecv := Some l'\<rparr>)"
| bye: "removeTranInfo src False r = Inr r' \<Longrightarrow> source_step r r'"
| played: "source_step r (notePlayed pkt r)"

inductive_cases source_stepE: "source_step r r'"

lemma notePlayed_source:
  "rtcpRecv (notePlayed pkt r) = rtcpRecv r" "sourceSet (notePlayed pkt r) = sourceSet r"
  "ssrc (notePlayed pkt r) = ssrc r" "0 \<le> probation (notePlayed pkt r) \<longleftrightarrow> 0 \<le> probation r"
  by (simp_all add: notePlayed_def Let_def)

lemma source_step_inv: "source_step r r' \<Longrightarrow> tran_inv r \<Longrightarrow> tran_inv r'"
proof (induction rule: source_step.induct)
  case (packet clk pkt r d r')
  then show ?case using updateSource_inv [of r clk pkt] by auto
next
  case (report r l src i l')
  then have "tran_ok (sourceSet r) (ssrc r) l" "sourceSet r \<longleftrightarrow> 0 \<le> probation r"
    unfolding tran_inv_def by auto
  then show ?case using findTranInfo_ok [OF _ report(2)] by (intro tran_invI [of _ l']) simp_all
next
  case (bye src r r')
  then show ?case by (rule removeTranInfo_inv [rotated])
next
  case (played r pkt)
  then show ?case unfolding tran_inv_def notePlayed_source by assumption
qed

lemma source_steps_inv: "source_step\<^sup>*\<^sup>* r r' \<Longrightarrow> tran_inv r \<Longrightarrow> tran_inv r'"
  by (induction rule: rtranclp_induct) (auto intro: source_step_inv)

section \<open>Packets of another source\<close>

fun offers :: "(nat \<Rightarrow> NtpTime) \<Rightarrow> RtpPacket list \<Rightarrow> RtpReceiver \<Rightarrow> (int list \<times> RtpReceiver) outcome" where
  "offers clk [] r = Inr ([], r)"
| "offers clk (p # ps) r = obind (updateSource clk p r) (\<lambda>(d, r).
     obind (offers clk ps r) (\<lambda>(ds, r). Inr (d # ds, r)))"

lemma updateSource_reject:
  assumes "sourceSet r" "getSSRC pkt \<noteq> ssrc r" "\<not> (getSSRC pkt = srcProbation r \<and> probationSet r)" "probation r < 4"
  shows "updateSource clk pkt r = Inr (1, r\<lparr>probation := probation r + 1\<rparr>)"
  using assms by (auto simp: updateSource_def addSource_def)

lemma offers_rejected:
  assumes "sourceSet r" "\<forall>p \<in> set ps. getSSRC p \<noteq> ssrc r \<and> \<not> (getSSRC p = srcProbation r \<and> probationSet r)"
    "probation r + int (length ps) \<le> 4"
  shows "offers clk ps r = Inr (replicate (length ps) 1, r\<lparr>probation := probation r + int (length ps)\<rparr>)"
  using assms
proof (induction ps arbitrary: r)
  case (Cons p ps)
  let ?r = "r\<lparr>probation := probation r + 1\<rparr>"
  have "updateSource clk p r = Inr (1, ?r)" using Cons.prems by (intro updateSource_reject) auto
  moreover have "offers clk ps ?r = Inr (replicate (length ps) 1, ?r\<lparr>probation := probation ?r + int (length ps)\<rparr>)"
    using Cons.prems by (intro Cons.IH) auto
  ultimately show ?case by (simp add: algebra_simps)
qed simp

lemma offers_append:
  "offers clk ps r = Inr (ds, r') \<Longrightarrow>
   offers clk (ps @ qs) r = obind (offers clk qs r') (\<lambda>(es, r). Inr (ds @ es, r))"
proof (induction ps arbitrary: r ds)
  case (Cons p ps)
  obtain d r1 es where 1: "updateSource clk p r = Inr (d, r1)" "offers clk ps r1 = Inr (es, r')" "ds = d # es"
    using Cons.prems by (auto simp: obind_eq_Inr)
  show ?case using 1 Cons.IH [OF 1(2)] by (auto simp: obind_def split: sum.splits)
qed (auto simp: obind_def split: sum.splits)

lemma replicate_four: "replicate 4 x = [x, x, x, x]"
  by (simp add: eval_nat_numeral)

section \<open>Properties\<close>

text \<open>C20: In every state that a receiver with an RTCP transmitter list reaches by RTP packets of
  any sources, RTCP reports, processed BYE packets and played packets, receiver and list agree
  on the current source, and \<open>updateSource\<close> handles any further packet without running into one
  of the assertions of \<open>updateSource\<close>, \<open>initSource\<close>, \<open>addTranInfo\<close> and \<open>removeTranInfo\<close>.\<close>

theorem source_admission_safe:
  assumes "tran_inv r0" "source_step\<^sup>*\<^sup>* r0 r"
  shows "tran_inv r \<and> (\<exists>d r'. updateSource clk pkt r = Inr (d, r') \<and> tran_inv r')"
  using source_steps_inv [OF assms(2,1)] updateSource_inv by blast

definition example_listener :: RtpReceiver where
  "example_listener = blank_receiver\<lparr>probation := -2, rtcpRecv := Some Map.empty, cur_max_jbs := 4,
     jitterBuffer := replicate JITTER_BUFFER_MAX None\<rparr>"

lemma example_listener_inv: "tran_inv example_listener"
  by (simp add: tran_inv_def tran_ok_def example_listener_def blank_receiver_def)

theorem source_admission_safe_witness:
  "tran_inv example_listener \<and>
   (\<exists>d r'. updateSource (\<lambda>_. NtpTime 9 0) blank_packet example_listener = Inr (d, r') \<and> tran_inv r')"
  using source_admission_safe [OF example_listener_inv rtranclp.rtrancl_refl, of "\<lambda>_. NtpTime 9 0" blank_packet] by blast

text \<open>C25: A transmitter other than the current source is turned away until its fifth packet in a
  row (nothing being played in between); the fifth takes over: the receiver leaves the old
  source, which goes on the probation list, and listens to the new one with an empty record of
  rejected packets. The numbers are what \<open>updateSource\<close> returns: 1 for a packet that is turned away
  and 0 for one that is let in, as \<open>readNetwork\<close> reads them; the comment on its declaration in
  \<open>RtpReceiver.hxx\<close> has them the other way round.\<close>

theorem takeover_after_five:
  assumes inv: "tran_inv r" and r: "sourceSet r" "probation r = 0"
    and ps: "length ps = 4" "\<forall>p \<in> set (ps @ [q]). getSSRC p = src"
    and src: "src \<noteq> ssrc r" "\<not> (src = srcProbation r \<and> probationSet r)"
    and q: "getPayloadType q \<noteq> rtpPayloadCN" "getPayloadType q \<noteq> 13"
  shows "\<exists>r'. offers clk (ps @ [q]) r = Inr ([1, 1, 1, 1, 0], r') \<and> sourceSet r' \<and> ssrc r' = src \<and>
    probation r' = 0 \<and> probationSet r' \<and> srcProbation r' = ssrc r"
proof -
  let ?r = "r\<lparr>probation := 4\<rparr>"
  have off: "offers clk ps r = Inr ([1, 1, 1, 1], ?r)"
    using offers_rejected [of r ps clk] r ps src by (simp add: replicate_four)
  have inv': "tran_inv ?r" using inv r by (auto simp: tran_inv_def)
  obtain a where a: "removeSource (ssrc ?r) False ?r = Inr a" "tran_inv a" "\<not> sourceSet a" "probationSet a"
    "srcProbation a = ssrc r"
    using removeSource_inv [OF inv'] r by auto
  obtain b where b: "addSource (clk 0) q a = Inr (0, b)" "sourceSet b" "ssrc b = src" "probation b = 0"
    "probationSet b" "srcProbation b = ssrc r"
    using addSource_free [OF a(2,3), of "clk 0" q] a ps by auto
  have ab: "addSource (clk 0) q ?r = Inr (0, b)" using a b(1) r by (simp add: addSource_def)
  let ?c = "checkCycle (ucast (getSequence q)) b"
  have c: "sourceSet ?c" "ssrc ?c = getSSRC q" "probation ?c = 0" "probationSet ?c" "srcProbation ?c = ssrc r"
    using checkCycle_source [of "ucast (getSequence q)" b] b ps by (simp_all add: source_fields_def)
  obtain d where d: "initSource (clk 1) q ?c = Inr d" "source_fields d = source_fields ?c"
    using initSource_fields [OF c(2)] by metis
  let ?d = "if getPayloadType q \<noteq> format ?c then d else ?c"
  have "updateSource clk q ?r = Inr (0, ?d)"
    using ab r ps src q c d(1) by (auto simp: updateSource_def Let_def)
  moreover have "source_fields ?d = source_fields ?c" using d(2) by simp
  ultimately show ?thesis
    using offers_append [OF off, of "[q]"] c ps by (auto simp: source_fields_def)
qed

definition example_engaged :: RtpReceiver where
  "example_engaged = example_listener\<lparr>sourceSet := True, ssrc := 9, probation := 0,
     rtcpRecv := Some [9 \<mapsto> new_RtpTranInfo 9 True]\<rparr>"

lemma example_engaged_fields:
  "tran_inv example_engaged" "sourceSet example_engaged" "probation example_engaged = 0" "ssrc example_engaged = 9"
  "\<not> probationSet example_engaged"
  by (simp_all add: example_engaged_def tran_inv_def tran_ok_def example_listener_def blank_receiver_def)

definition packet_from :: "u32 \<Rightarrow> RtpPacket" where
  "packet_from src = setSSRC src blank_packet"

lemma packet_from_fields [simp]: "getSSRC (packet_from src) = src" "getPayloadType (packet_from src) = 0"
  using ssrc.get_put [of blank_packet src] blank_storage(2)
  by (simp_all add: packet_from_def holder_def) (simp add: blank_packet_def getPayloadType_def get_field_def RTP_MTU_def)

theorem takeover_after_five_witness:
  "\<exists>r'. offers (\<lambda>_. NtpTime 9 0) ([packet_from 5, packet_from 5, packet_from 5, packet_from 5] @ [packet_from 5]) example_engaged
     = Inr ([1, 1, 1, 1, 0], r') \<and> sourceSet r' \<and> ssrc r' = 5 \<and>
    probation r' = 0 \<and> probationSet r' \<and> srcProbation r' = ssrc example_engaged"
  by (rule takeover_after_five) (simp_all add: example_engaged_fields rtpPayloadCN_def)

text \<open>An RTCP BYE that names a source which is not in the transmitter list stops the program
  in the assertion of \<open>removeTranInfo\<close>, whatever BYEs were processed before it: any host that can
  send RTCP to the port can do so.\<close>

theorem unknown_bye_aborts:
  assumes "rtcpRecv r = Some l" "l src = None" "set srcs \<subseteq> dom l" "distinct srcs"
  shows "readBYE (srcs @ [src]) r = Inl AssertFailed"
  using assms
proof (induction srcs arbitrary: r l)
  case Nil
  then show ?case by (simp add: readBYE_def removeTranInfo_def)
next
  case (Cons s srcs)
  then obtain t where t: "l s = Some t" by auto
  obtain r' where r': "removeTranInfo s False r = Inr r'" "rtcpRecv r' = Some (l(s := None))"
    using Cons.prems t by (cases "recv_attached t") (auto simp: removeTranInfo_def removeSource_def Let_def)
  have "readBYE (srcs @ [src]) r' = Inl AssertFailed"
    using Cons.prems r'(2) by (intro Cons.IH [of r' "l(s := None)"]) auto
  then show ?case using r'(1) by (simp add: readBYE_def)
qed

theorem unknown_bye_aborts_witness:
  "readBYE ([9] @ [1234]) example_engaged = Inl AssertFailed"
  by (rule unknown_bye_aborts [of _ "the (rtcpRecv example_engaged)"]) (simp_all add: example_engaged_def)

text \<open>A source that leaves with a BYE and sends again is accepted for one packet only: the
  packet makes it the current source once more, but the source is still on the probation list,
  and from then on every packet of it is discarded and leaves the receiver unchanged.\<close>

theorem rejoined_source_muted:
  assumes inv: "tran_inv r" "sourceSet r" and bye: "removeTranInfo (ssrc r) False r = Inr a"
    and p: "getSSRC p = ssrc r" "getPayloadType p \<noteq> rtpPayloadCN" "getPayloadType p \<noteq> 13"
    and q: "getSSRC q = ssrc r"
  shows "\<exists>b. updateSource clk p a = Inr (0, b) \<and> sourceSet b \<and> ssrc b = ssrc r \<and> updateSource clk' q b = Inr (1, b)"
proof -
  have a: "tran_inv a" by (rule removeTranInfo_inv [OF inv(1) bye])
  have a': "\<not> sourceSet a" "probationSet a" "srcProbation a = ssrc r"
    using inv bye by (auto elim!: tran_invE simp: removeTranInfo_def removeSource_def tran_ok_def Let_def
        split: option.splits if_splits)
  obtain b where b: "addSource (clk 0) p a = Inr (0, b)" "sourceSet b" "ssrc b = ssrc r" "probation b = 0"
    "probationSet b" "srcProbation b = ssrc r"
    using addSource_free [OF a a'(1), of "clk 0" p] a' p by auto
  let ?c = "checkCycle (ucast (getSequence p)) b"
  have c: "sourceSet ?c" "ssrc ?c = getSSRC p" "probation ?c = 0" "probationSet ?c" "srcProbation ?c = ssrc r"
    using checkCycle_source [of "ucast (getSequence p)" b] b p by (simp_all add: source_fields_def)
  obtain d where d: "initSource (clk 1) p ?c = Inr d" "source_fields d = source_fields ?c"
    using initSource_fields [OF c(2)] by metis
  let ?d = "if getPayloadType p \<noteq> format ?c then d else ?c"
  have "updateSource clk p a = Inr (0, ?d)"
    using b(1) a' p c d(1) by (simp add: updateSource_def Let_def)
  moreover have e: "source_fields ?d = source_fields ?c" using d(2) by simp
  then have "updateSource clk' q ?d = Inr (1, ?d)"
    using c q by (auto simp: updateSource_def source_fields_def)
  moreover have "sourceSet ?d" "ssrc ?d = ssrc r" using e c p by (auto simp: source_fields_def)
  ultimately show ?thesis by blast
qed

theorem rejoined_source_muted_witness:
  "\<exists>a. removeTranInfo (ssrc example_engaged) False example_engaged = Inr a \<and>
    (\<exists>b. updateSource (\<lambda>_. NtpTime 9 0) (packet_from 9) a = Inr (0, b) \<and> sourceSet b \<and> ssrc b = ssrc example_engaged \<and>
      updateSource (\<lambda>_. NtpTime 9 0) (packet_from 9) b = Inr (1, b))"
proof -
  obtain a where a: "removeTranInfo (ssrc example_engaged) False example_engaged = Inr a"
    by (simp add: example_engaged_def removeTranInfo_def removeSource_def)
  from rejoined_source_muted [OF example_engaged_fields(1,2) a] a show ?thesis
    by (simp add: example_engaged_fields rtpPayloadCN_def)
qed

text \<open>A packet of the current source whose payload type differs from the format the receiver
  was built with empties the jitter buffer, and leaves the format as it was: so does the next
  such packet, and a sender that changes its payload type is never played from a filled
  buffer.\<close>

theorem payload_change_empties_buffer:
  assumes ok: "jb_ok r" and r: "sourceSet r" "ssrc r = getSSRC p" "0 \<le> probation r"
      "\<not> (getSSRC p = srcProbation r \<and> probationSet r)"
    and p: "getPayloadType p \<noteq> format r" "getPayloadType p \<noteq> rtpPayloadCN" "getPayloadType p \<noteq> 13"
  shows "\<exists>r'. updateSource clk p r = Inr (0, r') \<and> jb_ok r' \<and> jb_list r' = [] \<and> format r' = format r \<and>
    getPayloadType p \<noteq> format r'"
proof -
  let ?c = "checkCycle (ucast (getSequence p)) r"
  have f: "source_fields ?c = source_fields r" by (rule checkCycle_source)
  then have c: "ssrc ?c = getSSRC p" "0 \<le> probation ?c" "format ?c = format r"
    using r by (simp_all add: source_fields_def)
  obtain d where d: "initSource (clk 1) p ?c = Inr d" "source_fields d = source_fields ?c"
    "JitterBuffer.truncate d = JitterBuffer.truncate (clearJitterBuffer ?c)"
    using initSource_fields [OF c(1)] .
  have "updateSource clk p r = Inr (0, d)"
    using r p c d(1) by (auto simp: updateSource_def Let_def)
  moreover have "JitterBuffer.truncate ?c = JitterBuffer.truncate r"
    using checkCycle_fields [of "ucast (getSequence p)" r] by (auto simp: JitterBuffer.defs)
  then have "jb_ok ?c" using jb_same [of ?c r] ok by simp
  then have "jb_ok d" "jb_view d = []" using jb_same [OF d(3)] jb_ok_clear [of ?c] by simp_all
  moreover have "format d = format r" using d(2) c(3) by (simp add: source_fields_def)
  ultimately show ?thesis using p(1) by (auto simp: jb_view_def)
qed

lemma example_engaged_ok: "jb_ok example_engaged"
proof -
  have b: "jb_bounds example_engaged"
    by (simp add: jb_bounds_def example_engaged_def example_listener_def blank_receiver_def JITTER_BUFFER_MAX_def)
  have "jb_inv example_engaged"
    by (rule jb_invI(1) [OF b, of 0]) (simp_all add: slot_used_def slot_in_use_def ring_at_def
        example_engaged_def example_listener_def blank_receiver_def JITTER_BUFFER_MAX_def)
  then show ?thesis
    by (simp add: jb_ok_def slots_ok_def example_engaged_def example_listener_def JITTER_BUFFER_MAX_def)
qed

theorem payload_change_empties_buffer_witness:
  "\<exists>r'. updateSource (\<lambda>_. NtpTime 9 0) (packet_from 9) (example_engaged\<lparr>format := 8\<rparr>) = Inr (0, r') \<and> jb_ok r' \<and>
     jb_list r' = [] \<and> format r' = format (example_engaged\<lparr>format := 8\<rparr>) \<and> getPayloadType (packet_from 9) \<noteq> format r'"
proof (rule payload_change_empties_buffer)
  show "jb_ok (example_engaged\<lparr>format := 8\<rparr>)"
    using jb_same [of "example_engaged\<lparr>format := 8\<rparr>" example_engaged] example_engaged_ok by (simp add: JitterBuffer.defs)
qed (simp_all add: example_engaged_fields rtpPayloadCN_def)

end
