(* ===== verification/Rtp_Transmitter.thy ===== *)
theory Rtp_Transmitter
  imports Rtp_Session
begin

text \<open>
  \<open>rtp/RtpTransmitter.cxx\<close>: the sending side of an RTP session. The UDP stack is represented by
  the list of datagrams queued for transmission, each with the address it goes to; the random
  numbers of \<open>generate32\<close> and \<open>generateSRC\<close> and the clock readings are arguments. Fields carry
  the prefix \<open>tx_\<close> where the receiver has one of the same name.
\<close>

record RtpTransmitter =
  tx_ssrc :: u32
  tx_seedNtpTime :: NtpTime
  tx_seedRtpTime :: u32
  prevRtpTime :: u32
  prevNtpTime :: NtpTime
  prevSequence :: u32
  packetSent :: int
  payloadSent :: int
  tx_format :: int
  codecString :: string
  tx_sampleSize :: int
  tx_perSampleSize :: int
  tx_clockRate :: int
  markerOnce :: bool
  remoteAddr :: string
  rtp_raw_tx_pkt :: RtpPacket
  queued :: "(octet list \<times> string) list"

definition initRtpTransmitter ::
    "int \<Rightarrow> int \<Rightarrow> int \<Rightarrow> int \<Rightarrow> u32 \<Rightarrow> NtpTime \<Rightarrow> u32 \<Rightarrow> u32 \<Rightarrow> RtpTransmitter \<Rightarrow> RtpTransmitter" where
  "initRtpTransmitter fmt clockrate per_sample_size samplesize src now rnd_time rnd_seq t =
     t\<lparr>tx_format := fmt, tx_clockRate := clockrate, tx_perSampleSize := per_sample_size,
       tx_sampleSize := samplesize, tx_ssrc := src, tx_seedNtpTime := now, tx_seedRtpTime := rnd_time,
       prevNtpTime := now, prevRtpTime := rnd_time, prevSequence := rnd_seq,
       packetSent := 0, payloadSent := 0, codecString := ''''\<rparr>"

definition setRemoteAddr :: "string \<Rightarrow> RtpTransmitter \<Rightarrow> RtpTransmitter" where
  "setRemoteAddr addr t = t\<lparr>remoteAddr := addr\<rparr>"

definition setMarkerOnce :: "RtpTransmitter \<Rightarrow> RtpTransmitter" where
  "setMarkerOnce t = t\<lparr>markerOnce := True\<rparr>"

definition setTxFormat :: "int \<Rightarrow> RtpTransmitter \<Rightarrow> RtpTransmitter" where
  "setTxFormat newtype t = t\<lparr>tx_format := newtype\<rparr>"

definition createPacket :: "RtpPacket \<Rightarrow> int \<Rightarrow> int \<Rightarrow> RtpTransmitter \<Rightarrow> RtpPacket outcome" where
  "createPacket p0 npad csrc t =
     obind (new_RtpPacket p0 1024 npad csrc) (\<lambda>p. setPayloadType (tx_format t) (setSSRC (tx_ssrc t) p))"

text \<open>The octets \<open>queueTransmitTo\<close> copies: as many as \<open>getTotalUsage\<close> says, from the header on.\<close>

definition datagram :: "RtpPacket \<Rightarrow> octet list outcome" where
  "datagram p = mem_read 0 (nat (getTotalUsage p)) (packetData p)"

definition transmit :: "NtpTime \<Rightarrow> bool \<Rightarrow> RtpPacket \<Rightarrow> RtpTransmitter \<Rightarrow> (int \<times> RtpPacket \<times> RtpTransmitter) outcome" where
  "transmit now eventFlag pkt t =
     obind (if converted_to_nbo pkt then Inr pkt else rtp_htonl pkt) (\<lambda>pkt.
      let pkt = (if timestampSet pkt then pkt else setRtpTime (prevRtpTime t + word_of_int (tx_sampleSize t)) pkt);
          pkt = (if sequenceSet pkt then pkt else setSequence (prevSequence t + 1) pkt)
      in if getPayloadUsage pkt < 0 then Inr (-1, pkt, t)
      else
        let pkt = (if markerOnce t then setMarkerFlag 1 pkt else pkt);
            t = t\<lparr>markerOnce := False\<rparr>;
            pkt = pkt\<lparr>timestampSet := False, sequenceSet := False\<rparr>
        in obind (datagram pkt) (\<lambda>bs.
          let t = t\<lparr>queued := queued t @ [(bs, remoteAddr t)], packetSent := int32 (packetSent t + 1),
                    prevSequence := getSequence pkt\<rparr>;
              t = (if eventFlag then t
                   else t\<lparr>payloadSent := int32 (payloadSent t + getPayloadUsage pkt), prevNtpTime := now,
                          prevRtpTime := getRtpTime pkt\<rparr>)
          in Inr (getPayloadUsage pkt, pkt, t)))"

definition transmitRaw :: "NtpTime \<Rightarrow> octet list \<Rightarrow> RtpTransmitter \<Rightarrow> (int \<times> RtpTransmitter) outcome" where
  "transmitRaw now bs t =
     obind (clear (rtp_raw_tx_pkt t)) (\<lambda>p.
     obind (setPayloadType (tx_format t) (setSSRC (tx_ssrc t) (recalcPacketAlloc (int (length bs)) p))) (\<lambda>p.
     obind (setPayloadUsage (int (length bs)) p) (\<lambda>p.
     obind (mem_write (getPayloadLoc p) bs (packetData p)) (\<lambda>d.
     obind (transmit now False (p\<lparr>packetData := d\<rparr>) t) (\<lambda>(result, p, t).
     Inr (result, t\<lparr>rtp_raw_tx_pkt := p\<rparr>))))))"

section \<open>The datagram of one call\<close>

text \<open>The packet object a transmitter reuses.\<close>

definition raw_ok :: "RtpPacket \<Rightarrow> bool" where
  "raw_ok p \<longleftrightarrow> wf_store p \<and> csrc_count p = 0 \<and> npadSize p = 0 \<and> 12 \<le> packetAlloc p \<and> packetAlloc p < int RTP_MTU"

definition raw_format :: "int \<Rightarrow> bool" where
  "raw_format f \<longleftrightarrow> 0 \<le> f \<and> f \<le> 127 \<and> f \<noteq> rtpPayloadL16_mono"

text \<open>What \<open>clear\<close> leaves: the fixed header octets and the flags.\<close>

lemma cleared_octets:
  "put_field 0 4 0 (put_field 4 (Suc 0) 0 (put_field 5 (Suc 0) 0 (put_field 6 2 2 0))) = 0x80"
  "put_field 0 7 128 (put_field 7 (Suc 0) 0 0) = 0"
  "replicate 12 (0 :: octet) = [0, 0, 0, 0, 0, 0, 0, 0, 0, 0, 0, 0]"
  by code_simp+

lemma clear_raw:
  assumes "raw_ok p"
  obtains q where "clear p = Inr q" "wf_store q"
    "take 12 (packetData q) = [0x80, 0, 0, 0, 0, 0, 0, 0, 0, 0, 0, 0]"
    "packetAlloc q = packetAlloc p" "csrc_count q = 0" "npadSize q = 0"
    "\<not> timestampSet q" "\<not> sequenceSet q" "\<not> converted_to_nbo q"
proof -
  have h: "wf_store p" "12 \<le> packetAlloc p" "packetAlloc p < int RTP_MTU" "csrc_count p = 0" "npadSize p = 0"
    using assms by (simp_all add: raw_ok_def)
  obtain q where q: "clear p = Inr q" using clear_eq [OF h(1-3)] by blast
  let ?z = "zero_fill (packetAlloc p) p"
  have n: "12 \<le> nat (packetAlloc p)" using h(2) by linarith
  then have z: "take 12 (packetData ?z) = [0, 0, 0, 0, 0, 0, 0, 0, 0, 0, 0, 0]"
    "packetData ?z ! 0 = 0" "packetData ?z ! 1 = 0"
    using cleared_octets(3) h(2) by (simp_all add: zero_fill_def nth_append min_def)
  have l: "length (packetData ?z) = 8129" using h by (simp add: zero_fill_def wf_store_def RTP_MTU_def)
  have q': "q = put_timestamp 0 (put_sequence 0 (put_type rtpPayloadUndefined (setMarkerFlag 0
          (setCSRCcount 0 (setExtFlag 0 (setPaddingFlag 0 (setVersion RTP_VERSION
              (?z\<lparr>unusedSize := packetAlloc p - 12\<rparr>))))))))
          \<lparr>sequenceSet := False, timestampSet := False, converted_to_nbo := False, converted_to_hbo := False\<rparr>"
    using clear_eq [OF h(1-3)] q h(4,5) by simp
  have "take 12 (packetData q) = [0x80, 0, 0, 0, 0, 0, 0, 0, 0, 0, 0, 0]"
    using z l cleared_octets(1,2) unfolding q'
    by (simp add: packet_fields take_update_swap rtpPayloadUndefined_def RTP_VERSION_def)
  moreover have "wf_store q" "packetAlloc q = packetAlloc p" "csrc_count q = 0" "npadSize q = 0"
    "\<not> timestampSet q" "\<not> sequenceSet q" "\<not> converted_to_nbo q"
    using l h(4,5) unfolding q' by (simp_all add: packet_fields) (simp_all add: zero_fill_def)
  ultimately show thesis using that q by blast
qed

lemma type_octet_table:
  "list_all (\<lambda>n. put_field 0 7 (word_of_nat n) 0 = word_of_nat n \<and>
     put_field 7 (Suc 0) 1 (word_of_nat n) = 128 + word_of_nat n) [0..<128]"
  by code_simp

lemma type_octet:
  assumes "0 \<le> f" "f \<le> 127"
  shows "put_field 0 7 (word_of_int f) 0 = word_of_int f"
    "put_field 7 (Suc 0) 1 (word_of_int f) = 128 + word_of_int f"
proof -
  have "nat f \<in> set [0..<128]" using assms by simp
  with type_octet_table have "put_field 0 7 (word_of_nat (nat f)) 0 = word_of_nat (nat f) \<and>
      put_field 7 (Suc 0) 1 (word_of_nat (nat f)) = 128 + word_of_nat (nat f)"
    unfolding list_all_iff by blast
  then show "put_field 0 7 (word_of_int f) 0 = word_of_int f"
    "put_field 7 (Suc 0) 1 (word_of_int f) = 128 + word_of_int f" using assms(1) by simp_all
qed

lemma no_sources_octet: "get_field 0 4 0x80 = 0"
  by code_simp

text \<open>The raw packet when \<open>transmitRaw\<close> hands it to \<open>transmit\<close>.\<close>

lemma raw_loaded:
  assumes p: "raw_ok (rtp_raw_tx_pkt t)" and f: "raw_format (tx_format t)" and bs: "length bs < 8117"
  obtains q R where "transmitRaw now bs t = obind (transmit now False q t) (\<lambda>(result, p, t). Inr (result, t\<lparr>rtp_raw_tx_pkt := p\<rparr>))"
    "packetData q = [0x80, word_of_int (tx_format t), 0, 0, 0, 0, 0, 0] @ be32 (tx_ssrc t) @ bs @ R"
    "length R = 8117 - length bs" "packetAlloc q = 12 + int (length bs)" "unusedSize q = 0"
    "csrc_count q = 0" "npadSize q = 0" "\<not> timestampSet q" "\<not> sequenceSet q" "\<not> converted_to_nbo q"
proof -
  obtain c where c: "clear (rtp_raw_tx_pkt t) = Inr c" "wf_store c"
    "take 12 (packetData c) = [0x80, 0, 0, 0, 0, 0, 0, 0, 0, 0, 0, 0]"
    "packetAlloc c = packetAlloc (rtp_raw_tx_pkt t)" "csrc_count c = 0" "npadSize c = 0"
    "\<not> timestampSet c" "\<not> sequenceSet c" "\<not> converted_to_nbo c"
    using clear_raw [OF p] .
  obtain R where D: "packetData c = [0x80, 0, 0, 0, 0, 0, 0, 0, 0, 0, 0, 0] @ R"
    using c(3) append_take_drop_id [of 12 "packetData c"] by metis
  have R: "length R = 8117" using c(2) D by (simp add: wf_store_def RTP_MTU_def)
  let ?f = "tx_format t" and ?n = "int (length bs)"
  let ?a = "setSSRC (tx_ssrc t) (recalcPacketAlloc ?n c)"
  let ?b = "(put_type ?f ?a)\<lparr>unusedSize := 0\<rparr>"
  let ?H = "[0x80, word_of_int ?f, 0, 0, 0, 0, 0, 0] @ be32 (tx_ssrc t)"
  have f': "0 \<le> ?f" "?f \<le> 127" using f by (simp_all add: raw_format_def)
  have bD: "packetData ?b = ?H @ R"
    using D type_octet(1) [OF f'] c(2) by (simp add: put_type_def setSSRC_def recalcPacketAlloc_def be32_def numeral_nat)
  have alloc: "packetAlloc ?b = 12 + ?n"
    using c(5,6) by (simp add: recalcPacketAlloc_def sizeof_RtpHeader_def sizeof_RtpSrc_def)
  have cnt: "getCSRCcount (put_type ?f ?a) = 0" "getCSRCcount ?b = 0"
    using bD no_sources_octet by (simp_all add: getCSRCcount_def)
  have usage: "setPayloadUsage ?n (put_type ?f ?a) = Inr ?b"
    using alloc cnt by (simp add: setPayloadUsage_def getPayloadSize_def getPadbyteSize_def sizeof_RtpHeader_def
        sizeof_RtpSrc_def)
  have wr: "mem_write (getPayloadLoc ?b) bs (packetData ?b) = Inr (?H @ bs @ drop (length bs) R)"
    unfolding bD using R bs cnt(2)
    by (intro mem_write_append) (simp_all add: getPayloadLoc_def sizeof_RtpHeader_def sizeof_RtpSrc_def)
  let ?q = "?b\<lparr>packetData := ?H @ bs @ drop (length bs) R\<rparr>"
  have e: "transmitRaw now bs t = obind (transmit now False ?q t) (\<lambda>(result, p, t). Inr (result, t\<lparr>rtp_raw_tx_pkt := p\<rparr>))"
    using c(1) f' usage wr by (simp add: transmitRaw_def setPayloadType_def)
  show thesis
    by (rule that [OF e, of "drop (length bs) R"])
      (use R alloc c in \<open>simp_all add: setSSRC_def put_type_def recalcPacketAlloc_def\<close>)
qed

lemma transmitRaw_wire:
  assumes p: "raw_ok (rtp_raw_tx_pkt t)" and f: "raw_format (tx_format t)" and bs: "length bs < 8117"
  obtains t' where "transmitRaw now bs t = Inr (int (length bs), t')"
    "queued t' = queued t @ [(rtp_wire (markerOnce t) (word_of_int (tx_format t)) (ucast (prevSequence t + 1))
       (prevRtpTime t + word_of_int (tx_sampleSize t)) (tx_ssrc t) bs, remoteAddr t)]"
    "prevSequence t' = ucast (ucast (prevSequence t + 1) :: u16)"
    "prevRtpTime t' = prevRtpTime t + word_of_int (tx_sampleSize t)"
    "packetSent t' = int32 (packetSent t + 1)" "payloadSent t' = int32 (payloadSent t + int (length bs))"
    "\<not> markerOnce t'" "raw_ok (rtp_raw_tx_pkt t')" "tx_format t' = tx_format t" "tx_sampleSize t' = tx_sampleSize t"
    "tx_ssrc t' = tx_ssrc t" "remoteAddr t' = remoteAddr t"
proof -
  obtain q R where q: "transmitRaw now bs t = obind (transmit now False q t) (\<lambda>(result, p, t). Inr (result, t\<lparr>rtp_raw_tx_pkt := p\<rparr>))"
    "packetData q = [0x80, word_of_int (tx_format t), 0, 0, 0, 0, 0, 0] @ be32 (tx_ssrc t) @ bs @ R"
    "length R = 8117 - length bs" "packetAlloc q = 12 + int (length bs)" "unusedSize q = 0"
    "csrc_count q = 0" "npadSize q = 0" "\<not> timestampSet q" "\<not> sequenceSet q" "\<not> converted_to_nbo q"
    using raw_loaded [OF assms] .
  have f': "0 \<le> tx_format t" "tx_format t \<le> 127" "tx_format t \<noteq> rtpPayloadL16_mono"
    using f by (simp_all add: raw_format_def)
  let ?time = "prevRtpTime t + word_of_int (tx_sampleSize t)" and ?seq = "prevSequence t + 1"
  let ?a = "setSequence ?seq (setRtpTime ?time (q\<lparr>converted_to_nbo := True\<rparr>))"
  let ?b = "(if markerOnce t then setMarkerFlag 1 ?a else ?a)\<lparr>timestampSet := False, sequenceSet := False\<rparr>"
  have store: "wf_store q" using q(2,3) bs by (simp add: wf_store_def RTP_MTU_def)
  have ptyp: "getPayloadType q = tx_format t"
    using q(2) f' cut_bits_id [of 7 "tx_format t"] by (simp add: getPayloadType_def get_field_def cut_bits_def)
  have aD: "packetData ?a = [0x80, word_of_int (tx_format t)] @ be16 (ucast ?seq) @ be32 ?time @ be32 (tx_ssrc t) @ bs @ R"
    using q(2) by (simp add: packet_fields be16_def be32_def numeral_nat)
  have bD: "packetData ?b = rtp_wire (markerOnce t) (word_of_int (tx_format t)) (ucast ?seq) ?time (tx_ssrc t) bs @ R"
    using aD type_octet(2) [OF f'(1,2)] by (simp add: setMarkerFlag_def rtp_wire_def)
  have usage: "getPayloadUsage ?b = int (length bs)" "getPayloadUsage ?a = int (length bs)"
    using aD bD q(4,5) no_sources_octet
    by (simp_all add: getPayloadUsage_def getPayloadSize_def getPadbyteSize_def getCSRCcount_def rtp_wire_def
        sizeof_RtpHeader_def sizeof_RtpSrc_def)
  have total: "getTotalUsage ?b = 12 + int (length bs)" using q(4,5) by (simp add: getTotalUsage_def)
  have dg: "datagram ?b = Inr (rtp_wire (markerOnce t) (word_of_int (tx_format t)) (ucast ?seq) ?time (tx_ssrc t) bs)"
    unfolding datagram_def mem_read_def total bD by (simp add: nat_add_distrib)
  have get: "getSequence ?b = ucast (ucast ?seq :: u16)" "getRtpTime ?b = ?time"
    unfolding getSequence_def getRtpTime_def bD by (simp_all add: rtp_wire_def be16_def be32_def)
  let ?t = "t\<lparr>markerOnce := False, queued := queued t @ [(rtp_wire (markerOnce t) (word_of_int (tx_format t))
      (ucast ?seq) ?time (tx_ssrc t) bs, remoteAddr t)], packetSent := int32 (packetSent t + 1),
    prevSequence := ucast (ucast ?seq :: u16), payloadSent := int32 (payloadSent t + int (length bs)),
    prevNtpTime := now, prevRtpTime := ?time\<rparr>"
  have x: "transmit now False q t = Inr (int (length bs), ?b, ?t)"
    using q(8-10) ptyp f'(3) usage dg get
    by (cases "markerOnce t") (simp_all add: transmit_def rtp_htonl_def swap_samples_def Let_def setRtpTime_def put_timestamp_def)
  have "raw_ok ?b"
    using q(3,4,6,7) bD bs by (simp add: raw_ok_def wf_store_def RTP_MTU_def) (simp add: packet_fields)
  then show thesis
    using that [of "?t\<lparr>rtp_raw_tx_pkt := ?b\<rparr>"] q(1) x by simp
qed

section \<open>A call after call is a paced stream\<close>

definition transmitAll :: "(NtpTime \<times> octet list) list \<Rightarrow> RtpTransmitter \<Rightarrow> RtpTransmitter outcome" where
  "transmitAll = ofold (\<lambda>(now, bs) t. obind (transmitRaw now bs t) (\<lambda>(_, t). Inr t))"

definition tx_stream :: "RtpTransmitter \<Rightarrow> rtp_stream" where
  "tx_stream t = \<lparr>stream_seq = ucast (prevSequence t + 1),
     stream_time = prevRtpTime t + word_of_int (tx_sampleSize t), stream_step = tx_sampleSize t\<rparr>"

definition tx_datagram :: "RtpTransmitter \<Rightarrow> nat \<Rightarrow> octet list \<Rightarrow> octet list" where
  "tx_datagram t i bs = rtp_wire (markerOnce t \<and> i = 0) (word_of_int (tx_format t))
     (seq_at (tx_stream t) (int i)) (time_at (tx_stream t) (int i)) (tx_ssrc t) bs"

lemma ucast_u32_u16_plus: "(ucast (x + y :: u32) :: u16) = ucast x + ucast y"
  using ucast_u32_u16_minus [of "x + y" y] by simp

lemma tx_stream_next:
  assumes "prevSequence t' = ucast (ucast (prevSequence t + 1) :: u16)"
    "prevRtpTime t' = prevRtpTime t + word_of_int (tx_sampleSize t)" "tx_sampleSize t' = tx_sampleSize t"
  shows "seq_at (tx_stream t') j = seq_at (tx_stream t) (j + 1)" "time_at (tx_stream t') j = time_at (tx_stream t) (j + 1)"
  using assms by (simp_all add: tx_stream_def seq_at_def time_at_def ucast_u32_u16_plus algebra_simps)

lemma transmitAll_wire:
  assumes "raw_ok (rtp_raw_tx_pkt t)" "raw_format (tx_format t)" "\<forall>d \<in> set ds. length (snd d) < 8117"
  shows "\<exists>t'. transmitAll ds t = Inr t' \<and> queued t' = queued t @
    map (\<lambda>i. (tx_datagram t i (snd (ds ! i)), remoteAddr t)) [0..<length ds]"
  using assms
proof (induction ds arbitrary: t)
  case (Cons d ds)
  have len: "length (snd d) < 8117" using Cons.prems(3) by simp
  obtain t1 where t1: "transmitRaw (fst d) (snd d) t = Inr (int (length (snd d)), t1)"
    "queued t1 = queued t @ [(rtp_wire (markerOnce t) (word_of_int (tx_format t)) (ucast (prevSequence t + 1))
       (prevRtpTime t + word_of_int (tx_sampleSize t)) (tx_ssrc t) (snd d), remoteAddr t)]"
    "prevSequence t1 = ucast (ucast (prevSequence t + 1) :: u16)"
    "prevRtpTime t1 = prevRtpTime t + word_of_int (tx_sampleSize t)"
    "packetSent t1 = int32 (packetSent t + 1)" "payloadSent t1 = int32 (payloadSent t + int (length (snd d)))"
    "\<not> markerOnce t1" "raw_ok (rtp_raw_tx_pkt t1)" "tx_format t1 = tx_format t" "tx_sampleSize t1 = tx_sampleSize t"
    "tx_ssrc t1 = tx_ssrc t" "remoteAddr t1 = remoteAddr t"
    using transmitRaw_wire [OF Cons.prems(1,2) len] .
  note shift = tx_stream_next [OF t1(3,4,10)]
  have dg: "tx_datagram t1 i bs = tx_datagram t (Suc i) bs" for i bs
    using t1(7,9,11) by (simp add: tx_datagram_def shift add.commute)
  obtain t' where "transmitAll ds t1 = Inr t'"
    "queued t' = queued t1 @ map (\<lambda>i. (tx_datagram t1 i (snd (ds ! i)), remoteAddr t1)) [0..<length ds]"
    using Cons.IH [of t1] Cons.prems t1(8,9) by auto
  moreover have "queued t1 = queued t @ [(tx_datagram t 0 (snd d), remoteAddr t)]"
    using t1(2) by (simp add: tx_datagram_def tx_stream_def seq_at_def time_at_def)
  ultimately show ?case
    using t1(1,12) by (simp add: transmitAll_def case_prod_beta dg upt_conv_Cons map_Suc_upt [symmetric] del: upt_Suc)
qed (simp add: transmitAll_def)

section \<open>From the transmitter to the receiver\<close>

text \<open>
  The network delivers datagrams of the transmitter's queue, by index, in any order, any of
  them never or several times, while the application on the other side plays.
\<close>

datatype net_event = Deliver "nat \<Rightarrow> NtpTime" nat | PlayNow

fun transport :: "octet list list \<Rightarrow> net_event list \<Rightarrow> RtpPacket \<Rightarrow> RtpReceiver \<Rightarrow>
    (RtpPacket list \<times> RtpReceiver) outcome option" where
  "transport ds [] pkt r = Some (Inr ([], r))"
| "transport ds (Deliver clk i # es) pkt r =
     (case readNetwork (Received (ds ! i)) clk r of
        None \<Rightarrow> None
      | Some out \<Rightarrow> odo out (\<lambda>(n, r). transport ds es pkt r))"
| "transport ds (PlayNow # es) pkt r =
     odo (retrieve pkt r) (\<lambda>(n, pkt', r).
      map_option (\<lambda>out. obind out (\<lambda>(ps, r). Inr (pkt' # ps, r))) (transport ds es pkt' r))"

definition as_event :: "RtpTransmitter \<Rightarrow> octet list list \<Rightarrow> net_event \<Rightarrow> event" where
  "as_event t bss e = (case e of Deliver clk i \<Rightarrow> Arrive clk (markerOnce t \<and> i = 0) (int i) (bss ! i) | PlayNow \<Rightarrow> Play)"

lemma as_event_simps [simp]:
  "as_event t bss (Deliver clk i) = Arrive clk (markerOnce t \<and> i = 0) (int i) (bss ! i)"
  "as_event t bss PlayNow = Play"
  by (simp_all add: as_event_def)

definition delivers_below :: "nat \<Rightarrow> net_event list \<Rightarrow> bool" where
  "delivers_below n es \<longleftrightarrow> (\<forall>clk i. Deliver clk i \<in> set es \<longrightarrow> i < n)"

lemma delivers_below_Cons:
  "delivers_below n (e # es) \<longleftrightarrow> (case e of Deliver clk i \<Rightarrow> i < n | PlayNow \<Rightarrow> True) \<and> delivers_below n es"
  by (auto simp: delivers_below_def split: net_event.splits)

lemma transport_session:
  assumes "delivers_below (length bss) es" "word_of_int (tx_format t) = fmt"
    "ds = map (\<lambda>i. tx_datagram t i (bss ! i)) [0..<length bss]"
  shows "transport ds es pkt r = session (tx_stream t) (tx_ssrc t) fmt (map (as_event t bss) es) pkt r"
  using assms(1)
proof (induction es arbitrary: pkt r)
  case (Cons e es)
  then show ?case
  proof (cases e)
    case (Deliver clk i)
    with Cons.prems have "i < length bss" "delivers_below (length bss) es" by (simp_all add: delivers_below_Cons)
    moreover have "ds ! i = tx_datagram t i (bss ! i)" using \<open>i < length bss\<close> assms(3) by simp
    moreover have "transport ds es p = session (tx_stream t) (tx_ssrc t) fmt (map (as_event t bss) es) p" for p
      using Cons.IH \<open>delivers_below (length bss) es\<close> by (intro ext) simp
    ultimately show ?thesis
      using Deliver assms(2) by (simp add: tx_datagram_def split: option.split)
  qed (simp add: delivers_below_Cons)
qed simp

text \<open>The newest position in the buffer is one that was delivered.\<close>

definition newest_below :: "int \<Rightarrow> playout \<Rightarrow> bool" where
  "newest_below n q \<longleftrightarrow> waiting q = [] \<or>
     0 \<le> play_at q + int (length (waiting q)) - 1 \<and> play_at q + int (length (waiting q)) - 1 < n"

lemma newest_below_arrive:
  assumes "0 < m" "newest_below n q" "0 \<le> j" "j < n"
  shows "newest_below n (arrive m j bs q)"
  using assms(1)
proof (cases rule: arrive_cases [of m j bs q])
  case (ahead k)
  let ?ys = "waiting q @ replicate k None @ [Some bs]"
  have "length (lastn m ?ys) = min m (length (waiting q) + k + 1)" by simp
  then have "play_at q + int (length (waiting q) + k + 1 - m) + int (length (lastn m ?ys)) - 1 = j"
    using ahead(1) by linarith
  then show ?thesis using assms(3,4) ahead(4) by (simp add: newest_below_def)
qed (use assms in \<open>auto simp: newest_below_def\<close>)

lemma newest_below_play: "newest_below n q \<Longrightarrow> newest_below n (snd (play m q))"
  by (cases rule: play_cases [of q m]) (auto simp: newest_below_def)

lemma plausible_deliveries:
  assumes "0 < m" "length bss \<le> 32768" "\<forall>bs \<in> set bss. bs \<noteq> [] \<and> length bs \<le> 1012"
    "delivers_below (length bss) es" "newest_below (int (length bss)) q"
  shows "plausible m (map (as_event t bss) es) q"
  using assms(4,5)
proof (induction es arbitrary: q)
  case (Cons e es)
  show ?case
  proof (cases e)
    case (Deliver clk i)
    then have i: "i < length bss" "delivers_below (length bss) es" using Cons.prems by (simp_all add: delivers_below_Cons)
    have "plausible m (map (as_event t bss) es) (arrive m (int i) (bss ! i) q)"
      using Cons.IH [OF i(2) newest_below_arrive [OF assms(1) Cons.prems(2)]] i(1) by simp
    moreover have "waiting q = [] \<or> \<bar>int i - (play_at q + int (length (waiting q)) - 1)\<bar> < 32768"
      using Cons.prems(2) i(1) assms(2) by (auto simp: newest_below_def)
    ultimately show ?thesis using Deliver i(1) assms(3) by simp
  next
    case PlayNow
    then show ?thesis
      using Cons.IH [of "snd (play m q)"] Cons.prems newest_below_play [of "int (length bss)" q m]
      by (simp add: delivers_below_Cons)
  qed
qed simp

section \<open>Properties\<close>

text \<open>C1: From \<open>RtpTransmitter::transmitRaw\<close> to \<open>RtpReceiver::retrieve\<close>: the transmitter turns a
  sequence of payloads into datagrams; the network delivers them in any order, loses and
  repeats them; the receiver, from its constructor on, neither aborts nor hangs, and every
  packet it plays as voice is the payload of one of the transmitter's calls, delivered under
  that call's datagram and with its timestamp.\<close>

theorem transmitter_to_receiver:
  assumes t: "raw_ok (rtp_raw_tx_pkt t)" "voice_format fmt" "tx_format t = uint fmt" "queued t = []"
      "0 < tx_sampleSize t" "tx_sampleSize t < 1472"
    and data: "length ds \<le> 32768" "\<forall>d \<in> set ds. snd d \<noteq> [] \<and> length (snd d) \<le> 1012"
    and r: "0 < m" "m \<le> 1024" "0 < clockrate" "clockrate < 2 ^ 31" "wf_store (tmpPkt r0)" "holder pkt"
    and es: "delivers_below (length ds) (Deliver clk i # es)"
  shows "\<exists>t' r ps r'. transmitAll ds t = Inr t' \<and>
    new_RtpReceiver (uint fmt) clockrate per_sample_size (tx_sampleSize t) (int m) r0 = Inr r \<and>
    transport (map fst (queued t')) (Deliver clk i # es) pkt r = Some (Inr (ps, r')) \<and>
    (\<forall>p \<in> set ps. \<not> is_silence_fill p \<longrightarrow>
       (\<exists>k<length ds. (\<exists>c. Deliver c k \<in> set (Deliver clk i # es)) \<and> pkt_payload p = snd (ds ! k) \<and>
          getRtpTime p = prevRtpTime t + word_of_int ((int k + 1) * tx_sampleSize t)))"
proof -
  let ?bss = "map snd ds" and ?es = "Deliver clk i # es" and ?st = "tx_stream t"
  have f: "raw_format (tx_format t)" "fmt < 128"
    using t(2,3) by (auto simp: raw_format_def voice_format_def word_less_def)
  obtain t' where t': "transmitAll ds t = Inr t'"
    "queued t' = queued t @ map (\<lambda>i. (tx_datagram t i (snd (ds ! i)), remoteAddr t)) [0..<length ds]"
    using transmitAll_wire [OF t(1) f(1), of ds] data(2) by fastforce
  then have q: "map fst (queued t') = map (\<lambda>i. tx_datagram t i (?bss ! i)) [0..<length ?bss]"
    using t(4) by simp
  have st: "wf_stream ?st" using t(5,6) by (simp add: wf_stream_def tx_stream_def)
  have pl: "plausible m (map (as_event t ?bss) ?es) silent"
    using es data by (intro plausible_deliveries [OF r(1)]) (auto simp: newest_below_def silent_def)
  obtain clk' mark j bs where e: "map (as_event t ?bss) ?es = Arrive clk' mark j bs # map (as_event t ?bss) es"
    by simp
  obtain r ps r' where s: "new_RtpReceiver (uint fmt) clockrate per_sample_size (stream_step ?st) (int m) r0 = Inr r"
    "session ?st (tx_ssrc t) fmt (map (as_event t ?bss) ?es) pkt r = Some (Inr (ps, r'))"
    "list_all2 (plays_as ?st (tx_ssrc t) fmt) (fst (spec_session m (map (as_event t ?bss) ?es) silent)) ps"
    using session_from_construction [OF st t(2) r e pl] by blast
  have "\<exists>k<length ds. (\<exists>c. Deliver c k \<in> set ?es) \<and> pkt_payload p = snd (ds ! k) \<and>
      getRtpTime p = prevRtpTime t + word_of_int ((int k + 1) * tx_sampleSize t)"
    if p: "p \<in> set ps" "\<not> is_silence_fill p" for p
  proof -
    obtain j cs where j: "(j, cs) \<in> arrivals (map (as_event t ?bss) ?es)" "carries ?st j (Some cs) p"
      using plays_as_arrival [OF s(3) r(1) p] by blast
    then obtain c0 mk where "Arrive c0 mk j cs \<in> as_event t ?bss ` set ?es"
      unfolding arrivals_def set_map by blast
    then obtain x where "Arrive c0 mk j cs = as_event t ?bss x" "x \<in> set ?es" by (rule imageE)
    then obtain c k where k: "Deliver c k \<in> set ?es" "j = int k" "cs = ?bss ! k" by (cases x) auto
    moreover have "k < length ds" using es k(1) by (auto simp: delivers_below_def)
    ultimately show ?thesis
      using j(2) by (intro exI [of _ k]) (auto simp: carries_def packet_at_def time_at_def tx_stream_def algebra_simps)
  qed
  moreover have "transport (map fst (queued t')) ?es pkt r = Some (Inr (ps, r'))"
    using transport_session [OF _ _ q, of ?es fmt pkt r] es t(3) s(2) by simp
  moreover have "stream_step ?st = tx_sampleSize t" by (simp add: tx_stream_def)
  ultimately show ?thesis using t'(1) s(1) by auto
qed

definition example_transmitter :: RtpTransmitter where
  "example_transmitter = \<lparr>tx_ssrc = 77, tx_seedNtpTime = NtpTime 9 0, tx_seedRtpTime = 4294967000,
     prevRtpTime = 4294967000, prevNtpTime = NtpTime 9 0, prevSequence = 65533, packetSent = 0, payloadSent = 0,
     tx_format = 0, codecString = '''', tx_sampleSize = 160, tx_perSampleSize = 1, tx_clockRate = 8000,
     markerOnce = True, remoteAddr = ''peer'', rtp_raw_tx_pkt = blank_packet, queued = []\<rparr>"

lemma example_transmitter_ok: "raw_ok (rtp_raw_tx_pkt example_transmitter)"
  by (simp add: example_transmitter_def blank_packet_def raw_ok_def wf_store_def RTP_MTU_def)

theorem transmitter_to_receiver_witness:
  "\<exists>t' r ps r'. transmitAll [(NtpTime 9 0, [1, 2]), (NtpTime 9 0, [3, 4])] example_transmitter = Inr t' \<and>
    new_RtpReceiver (uint (0 :: octet)) 8000 1 (tx_sampleSize example_transmitter) (int 4) blank_receiver = Inr r \<and>
    transport (map fst (queued t')) [Deliver (\<lambda>_. NtpTime 9 0) 1, Deliver (\<lambda>_. NtpTime 9 0) 0, PlayNow] blank_packet r = Some (Inr (ps, r')) \<and>
    (\<forall>p \<in> set ps. \<not> is_silence_fill p \<longrightarrow>
       (\<exists>k<length [(NtpTime 9 0, [1, 2]), (NtpTime 9 0, [3, 4 :: octet])].
          (\<exists>c. Deliver c k \<in> set [Deliver (\<lambda>_. NtpTime 9 0) 1, Deliver (\<lambda>_. NtpTime 9 0) 0, PlayNow]) \<and>
          pkt_payload p = snd ([(NtpTime 9 0, [1, 2]), (NtpTime 9 0, [3, 4])] ! k) \<and>
          getRtpTime p = prevRtpTime example_transmitter + word_of_int ((int k + 1) * tx_sampleSize example_transmitter)))"
  using example_transmitter_ok example_ok(2) blank_storage
  by (intro transmitter_to_receiver [where fmt = 0])
    (simp_all add: example_transmitter_def delivers_below_def)

text \<open>\<open>RtpTransmitter::transmitRaw\<close> queues exactly one datagram for the remote address: the
  twelve header octets of RFC 1889 in network byte order (version 2, the marker bit once when
  requested, the payload type, the next sequence number, the next timestamp, the source)
  followed by the payload, and it advances the sequence number by one modulo \<open>2 ^ 16\<close> and the
  timestamp by the sample size modulo \<open>2 ^ 32\<close>.\<close>

theorem transmitRaw_datagram:
  assumes "raw_ok (rtp_raw_tx_pkt t)" "raw_format (tx_format t)" "length bs < 8117"
  shows "\<exists>t'. transmitRaw now bs t = Inr (int (length bs), t') \<and>
    queued t' = queued t @ [([0x80, (if markerOnce t then 128 + word_of_int (tx_format t) else word_of_int (tx_format t))]
       @ be16 (ucast (prevSequence t + 1)) @ be32 (prevRtpTime t + word_of_int (tx_sampleSize t))
       @ be32 (tx_ssrc t) @ bs, remoteAddr t)] \<and>
    prevSequence t' = ucast (ucast (prevSequence t + 1) :: u16) \<and>
    prevRtpTime t' = prevRtpTime t + word_of_int (tx_sampleSize t) \<and>
    packetSent t' = int32 (packetSent t + 1) \<and> payloadSent t' = int32 (payloadSent t + int (length bs)) \<and> \<not> markerOnce t' \<and>
    raw_ok (rtp_raw_tx_pkt t')"
  using transmitRaw_wire [OF assms] unfolding rtp_wire_def by metis

theorem transmitRaw_datagram_witness:
  "\<exists>t'. transmitRaw (NtpTime 9 0) [1, 2, 3] example_transmitter = Inr (int (length [1, 2, 3 :: octet]), t') \<and>
    queued t' = queued example_transmitter @ [([0x80, (if markerOnce example_transmitter then 128 + word_of_int (tx_format example_transmitter) else word_of_int (tx_format example_transmitter))]
       @ be16 (ucast (prevSequence example_transmitter + 1)) @ be32 (prevRtpTime example_transmitter + word_of_int (tx_sampleSize example_transmitter))
       @ be32 (tx_ssrc example_transmitter) @ [1, 2, 3], remoteAddr example_transmitter)] \<and>
    prevSequence t' = ucast (ucast (prevSequence example_transmitter + 1) :: u16) \<and>
    prevRtpTime t' = prevRtpTime example_transmitter + word_of_int (tx_sampleSize example_transmitter) \<and>
    packetSent t' = int32 (packetSent example_transmitter + 1) \<and>
    payloadSent t' = int32 (payloadSent example_transmitter + int (length [1, 2, 3 :: octet])) \<and> \<not> markerOnce t' \<and>
    raw_ok (rtp_raw_tx_pkt t')"
  using example_transmitter_ok by (intro transmitRaw_datagram)
    (simp_all add: example_transmitter_def raw_format_def rtpPayloadL16_mono_def)

end
