(* ===== verification/Rtcp_Packet.thy ===== *)
theory Rtcp_Packet
  imports Rtp_Sources Rtp_Transmitter
begin

text \<open>
  \<open>rtp/RtcpPacket.cxx\<close> and the RTCP structures of \<open>rtp/rtpTypes.h\<close>: a compound packet is an array
  of 2048 octets that is filled from the front. A pointer into the array is an offset; the
  header bit-fields are laid out as a little-endian machine does. \<open>allocData\<close> first moves the
  boundary and then clears as many octets behind it, as the code does. \<open>packet_of D T\<close> is
  the packet that is filled with \<open>D\<close>, has the octets \<open>T\<close> in the free area behind and is zero
  from there on; the lemmas give the effect of every operation in these terms.
\<close>

section \<open>Packet memory\<close>

definition RTCP_PACKETSIZE :: nat where "RTCP_PACKETSIZE = 2048"

record RtcpPacket =
  rtcp_data :: "octet list"
  rtcp_alloc :: int
  rtcp_unused :: int

definition new_RtcpPacket :: RtcpPacket where
  "new_RtcpPacket = \<lparr>rtcp_data = replicate RTCP_PACKETSIZE 0, rtcp_alloc = int RTCP_PACKETSIZE,
     rtcp_unused = int RTCP_PACKETSIZE\<rparr>"

definition freeData :: "RtcpPacket \<Rightarrow> nat" where
  "freeData p = nat (rtcp_alloc p - rtcp_unused p)"

definition allocData :: "int \<Rightarrow> RtcpPacket \<Rightarrow> (int \<times> RtcpPacket) outcome" where
  "allocData s p =
     (if rtcp_unused p < s then Inl AssertFailed
      else
        let p = p\<lparr>rtcp_unused := rtcp_unused p - s\<rparr> in
        obind (mem_write (freeData p) (replicate (nat s) 0) (rtcp_data p)) (\<lambda>d. Inr (s, p\<lparr>rtcp_data := d\<rparr>)))"

definition rtcp_setTotalUsage :: "int \<Rightarrow> RtcpPacket \<Rightarrow> RtcpPacket outcome" where
  "rtcp_setTotalUsage sz p = oassert (sz \<le> rtcp_alloc p) (Inr (p\<lparr>rtcp_unused := rtcp_alloc p - sz\<rparr>))"

definition rtcp_getTotalUsage :: "RtcpPacket \<Rightarrow> int" where
  "rtcp_getTotalUsage p = rtcp_alloc p - rtcp_unused p"

section \<open>Structures in the packet\<close>

datatype RtcpType = rtcpTypeSR | rtcpTypeRR | rtcpTypeSDES | rtcpTypeBYE | rtcpTypeAPP

fun rtcp_code :: "RtcpType \<Rightarrow> octet" where
  "rtcp_code rtcpTypeSR = 200"
| "rtcp_code rtcpTypeRR = 201"
| "rtcp_code rtcpTypeSDES = 202"
| "rtcp_code rtcpTypeBYE = 203"
| "rtcp_code rtcpTypeAPP = 204"

datatype RtcpSDESType =
    rtcpSdesEnd | rtcpSdesCname | rtcpSdesName | rtcpSdesEmail | rtcpSdesPhone | rtcpSdesLoc
  | rtcpSdesTool | rtcpSdesNote | rtcpSdesPriv

fun sdes_code :: "RtcpSDESType \<Rightarrow> octet" where
  "sdes_code rtcpSdesEnd = 0"
| "sdes_code rtcpSdesCname = 1"
| "sdes_code rtcpSdesName = 2"
| "sdes_code rtcpSdesEmail = 3"
| "sdes_code rtcpSdesPhone = 4"
| "sdes_code rtcpSdesLoc = 5"
| "sdes_code rtcpSdesTool = 6"
| "sdes_code rtcpSdesNote = 7"
| "sdes_code rtcpSdesPriv = 8"

definition sizeof_RtcpHeader :: nat where "sizeof_RtcpHeader = 4"
definition sizeof_RtcpSender :: nat where "sizeof_RtcpSender = 24"
definition sizeof_RtcpReport :: nat where "sizeof_RtcpReport = 24"
definition sizeof_RtcpSDESItem :: nat where "sizeof_RtcpSDESItem = 3"
definition sizeof_RtcpBye :: nat where "sizeof_RtcpBye = 2"

lemmas rtcp_sizes [simp] = sizeof_RtcpHeader_def sizeof_RtcpSender_def sizeof_RtcpReport_def
  sizeof_RtcpSDESItem_def sizeof_RtcpBye_def sizeof_RtpSrc_def

text \<open>Reading an octet and a 32-bit number in network order through a pointer.\<close>

definition octet_at :: "octet list \<Rightarrow> nat \<Rightarrow> octet outcome" where
  "octet_at d i = (if i < length d then Inr (d ! i) else Inl OutOfBounds)"

definition u32_at :: "octet list \<Rightarrow> nat \<Rightarrow> u32 outcome" where
  "u32_at d i = obind (mem_read i 4 d) (\<lambda>bs. Inr (get32 (bs ! 0) (bs ! 1) (bs ! 2) (bs ! 3)))"

text \<open>The fields of the header structure at offset \<open>h\<close>.\<close>

definition header_count :: "octet list \<Rightarrow> nat \<Rightarrow> nat outcome" where
  "header_count d h = obind (octet_at d h) (\<lambda>b. Inr (unat (get_field 0 5 b)))"

definition header_padding :: "octet list \<Rightarrow> nat \<Rightarrow> bool outcome" where
  "header_padding d h = obind (octet_at d h) (\<lambda>b. Inr (get_field 5 1 b \<noteq> 0))"

definition header_version :: "octet list \<Rightarrow> nat \<Rightarrow> int outcome" where
  "header_version d h = obind (octet_at d h) (\<lambda>b. Inr (uint (get_field 6 2 b)))"

definition header_type :: "octet list \<Rightarrow> nat \<Rightarrow> octet outcome" where
  "header_type d h = octet_at d (h + 1)"

definition header_length :: "octet list \<Rightarrow> nat \<Rightarrow> nat outcome" where
  "header_length d h = obind (mem_read (h + 2) 2 d) (\<lambda>bs. Inr (unat (get16 (bs ! 0) (bs ! 1))))"

definition rtcp_getVersion :: "RtcpPacket \<Rightarrow> int outcome" where
  "rtcp_getVersion p = header_version (rtcp_data p) 0"

definition rtcp_getPadbyteFlag :: "RtcpPacket \<Rightarrow> bool outcome" where
  "rtcp_getPadbyteFlag p = header_padding (rtcp_data p) 0"

definition rtcp_getCount :: "RtcpPacket \<Rightarrow> nat outcome" where
  "rtcp_getCount p = header_count (rtcp_data p) 0"

definition rtcp_getPayloadType :: "RtcpPacket \<Rightarrow> octet outcome" where
  "rtcp_getPayloadType p = header_type (rtcp_data p) 0"

definition rtcp_getLength :: "RtcpPacket \<Rightarrow> nat outcome" where
  "rtcp_getLength p = header_length (rtcp_data p) 0"

text \<open>Assignments through a pointer into the packet, to whole octets and to a bit-field.\<close>

definition put_at :: "nat \<Rightarrow> octet list \<Rightarrow> RtcpPacket \<Rightarrow> RtcpPacket outcome" where
  "put_at i bs p = obind (mem_write i bs (rtcp_data p)) (\<lambda>d. Inr (p\<lparr>rtcp_data := d\<rparr>))"

definition put_bits :: "nat \<Rightarrow> nat \<Rightarrow> octet \<Rightarrow> nat \<Rightarrow> RtcpPacket \<Rightarrow> RtcpPacket outcome" where
  "put_bits k n v i p = obind (octet_at (rtcp_data p) i) (\<lambda>b. put_at i [put_field k n v b] p)"

text \<open>The first assignments to a header: version, padding flag, count and type.\<close>

definition put_header :: "nat \<Rightarrow> bool \<Rightarrow> int \<Rightarrow> RtcpType \<Rightarrow> RtcpPacket \<Rightarrow> RtcpPacket outcome" where
  "put_header h pad count type p =
     obind (put_bits 6 2 (word_of_int RTP_VERSION) h p) (\<lambda>p.
     obind (put_bits 5 1 (if pad then 1 else 0) h p) (\<lambda>p.
     obind (put_bits 0 5 (word_of_int count) h p) (\<lambda>p.
     put_at (h + 1) [rtcp_code type] p)))"

definition put_length :: "nat \<Rightarrow> int \<Rightarrow> RtcpPacket \<Rightarrow> RtcpPacket outcome" where
  "put_length h usage p = put_at (h + 2) (be16 (word_of_int (usage div 4 - 1))) p"

section \<open>Filling a packet\<close>

named_theorems packet_simps \<open>the effect of packet operations on the contents\<close>

definition packet_of :: "octet list \<Rightarrow> octet list \<Rightarrow> RtcpPacket" where
  "packet_of D T = \<lparr>rtcp_data = D @ T @ replicate (RTCP_PACKETSIZE - length D - length T) 0,
     rtcp_alloc = int RTCP_PACKETSIZE, rtcp_unused = int RTCP_PACKETSIZE - int (length D)\<rparr>"

lemma new_RtcpPacket_of: "new_RtcpPacket = packet_of [] []"
  by (simp add: new_RtcpPacket_def packet_of_def)

lemma packet_of_usage [packet_simps]:
  "freeData (packet_of D T) = length D" "rtcp_getTotalUsage (packet_of D T) = int (length D)"
  by (simp_all add: freeData_def packet_of_def rtcp_getTotalUsage_def)

lemma length_packet_of [packet_simps]:
  "length D + length T \<le> 2048 \<Longrightarrow> length (rtcp_data (packet_of D T)) = 2048"
  by (simp add: packet_of_def RTCP_PACKETSIZE_def)

text \<open>An allocation hands out octets that are zero, and clears as many behind them.\<close>

lemma allocData_fresh [packet_simps]:
  assumes "length D + 2 * n \<le> 2048"
  shows "allocData (int n) (packet_of D []) = Inr (int n, packet_of (D @ replicate n 0) [])"
proof -
  have "replicate (2048 - length D) (0 :: octet) = replicate n 0 @ replicate (2048 - length D - n) 0"
    using assms by (simp flip: replicate_add)
  then show ?thesis
    using assms
    by (simp add: allocData_def packet_of_def RTCP_PACKETSIZE_def freeData_def Let_def mem_write_def
        flip: replicate_add)
qed

text \<open>The octets of a text that was copied in before its space is allocated stay.\<close>

lemma allocData_text [packet_simps]:
  assumes "length D + 2 * length T \<le> 2048" "n = length T"
  shows "allocData (int n) (packet_of D T) = Inr (int n, packet_of (D @ T) [])"
  using assms
  by (simp add: allocData_def packet_of_def RTCP_PACKETSIZE_def freeData_def Let_def mem_write_def nat_int_add
      flip: replicate_add)

lemma put_at_of [packet_simps]:
  assumes "k + length bs \<le> length B" "length D + length B + length T \<le> 2048"
  shows "put_at (length D + k) bs (packet_of (D @ B) T) =
    Inr (packet_of (D @ take k B @ bs @ drop (k + length bs) B) T)"
  using assms by (simp add: put_at_def mem_write_def packet_of_def RTCP_PACKETSIZE_def)

lemma put_at_text [packet_simps]:
  assumes "length D + length bs \<le> 2048"
  shows "put_at (length D) bs (packet_of D []) = Inr (packet_of D bs)"
  using assms
  by (simp add: put_at_def mem_write_def packet_of_def RTCP_PACKETSIZE_def min_def)

lemma put_bits_of [packet_simps]:
  assumes "i < length B" "length D + length B + length T \<le> 2048"
  shows "put_bits k n v (length D + i) (packet_of (D @ B) T) =
    Inr (packet_of (D @ B[i := put_field k n v (B ! i)]) T)"
proof -
  have "octet_at (rtcp_data (packet_of (D @ B) T)) (length D + i) = Inr (B ! i)"
    using assms by (simp add: octet_at_def packet_of_def nth_append)
  then show ?thesis
    using assms put_at_of [of i "[put_field k n v (B ! i)]" B D T] by (simp add: put_bits_def upd_conv_take_nth_drop)
qed

text \<open>A header as it is on the wire.\<close>

definition header_wire :: "nat \<Rightarrow> RtcpType \<Rightarrow> u16 \<Rightarrow> octet list" where
  "header_wire count type len = [0x80 OR take_bit 5 (word_of_nat count), rtcp_code type] @ be16 len"

lemma length_header_wire [simp]: "length (header_wire count type len) = 4"
  by (simp add: header_wire_def)

text \<open>The first octet holds version 2, no padding and the low five bits of the count.\<close>

lemma first_octet_table:
  "list_all (\<lambda>n. let w = word_of_nat n :: octet in
     put_field 0 5 w (put_field 5 (Suc 0) 0 (put_field 6 2 2 0)) = 0x80 OR w \<and>
     get_field 0 5 (0x80 OR w) = w \<and> get_field 5 (Suc 0) (0x80 OR w) = 0 \<and> get_field 6 2 (0x80 OR w) = 2) [0..<32]"
  by code_simp

lemma first_octet:
  fixes v :: octet
  shows "put_field 0 5 v (put_field 5 (Suc 0) 0 (put_field 6 2 2 0)) = 0x80 OR take_bit 5 v"
    "get_field 0 5 (0x80 OR take_bit 5 v) = take_bit 5 v" "get_field 5 (Suc 0) (0x80 OR take_bit 5 v) = 0"
    "get_field 6 2 (0x80 OR take_bit 5 v) = 2"
proof -
  let ?n = "unat (take_bit 5 v)"
  have "?n < 32"
    using take_bit_nat_less_exp [of 5 "unat v"] by (simp add: unsigned_take_bit_eq)
  then have "(let w = word_of_nat ?n :: octet in
     put_field 0 5 w (put_field 5 (Suc 0) 0 (put_field 6 2 2 0)) = 0x80 OR w \<and>
     get_field 0 5 (0x80 OR w) = w \<and> get_field 5 (Suc 0) (0x80 OR w) = 0 \<and> get_field 6 2 (0x80 OR w) = 2)"
    using first_octet_table unfolding list_all_iff by fastforce
  then show "put_field 0 5 v (put_field 5 (Suc 0) 0 (put_field 6 2 2 0)) = 0x80 OR take_bit 5 v"
    "get_field 0 5 (0x80 OR take_bit 5 v) = take_bit 5 v" "get_field 5 (Suc 0) (0x80 OR take_bit 5 v) = 0"
    "get_field 6 2 (0x80 OR take_bit 5 v) = 2"
    by (simp_all add: Let_def)
qed

lemma put_header_of:
  assumes "length D + 4 \<le> 2048"
  shows "put_header (length D) False (int c) type (packet_of (D @ [0, 0, 0, 0]) []) =
    Inr (packet_of (D @ header_wire c type 0) [])"
  using assms put_bits_of [where i = 0 and D = D and T = "[]"]
    put_at_of [where k = 1 and D = D and T = "[]" and bs = "[rtcp_code type]"]
  by (simp add: put_header_def header_wire_def first_octet RTP_VERSION_def be16_def)

lemma put_length_of:
  assumes "length D + 4 + length B \<le> 2048"
  shows "put_length (length D) usage (packet_of (D @ header_wire c type l @ B) []) =
    Inr (packet_of (D @ header_wire c type (word_of_int (usage div 4 - 1)) @ B) [])"
  using assms put_at_of [where k = 2 and D = D and T = "[]" and B = "header_wire c type l @ B"]
  by (simp add: put_length_def header_wire_def)

text \<open>What is read from a header that stands behind the octets \<open>D\<close>.\<close>

lemma octet_at_append [simp]: "i < length B \<Longrightarrow> octet_at (D @ B) (length D + i) = Inr (B ! i)"
  by (simp add: octet_at_def)

lemma mem_read_behind [simp]: "mem_read (length D + k) n (D @ B) = mem_read k n B"
  by (simp add: mem_read_def)

lemma u32_at_behind [simp]: "u32_at (D @ B) (length D + k) = u32_at B k"
  by (simp add: u32_at_def)

lemma header_of_wire:
  fixes D B :: "octet list" and c :: nat and type :: RtcpType and len :: u16
  defines "d \<equiv> D @ header_wire c type len @ B"
  shows "header_count d (length D) = Inr (c mod 32)" "header_padding d (length D) = Inr False"
    "header_version d (length D) = Inr 2" "header_type d (length D) = Inr (rtcp_code type)"
    "header_length d (length D) = Inr (unat len)"
proof -
  have o: "octet_at d (length D) = Inr (0x80 OR take_bit 5 (word_of_nat c))"
    using octet_at_append [of 0 "header_wire c type len @ B" D] by (simp add: d_def header_wire_def)
  have "unat (take_bit 5 (word_of_nat c :: octet)) = c mod 32"
    by (simp add: unsigned_take_bit_eq unsigned_of_nat take_bit_eq_mod unat_mod mod_mod_cancel)
  then show "header_count d (length D) = Inr (c mod 32)" "header_padding d (length D) = Inr False"
    "header_version d (length D) = Inr 2"
    using o by (simp_all add: header_count_def header_padding_def header_version_def first_octet)
  show "header_type d (length D) = Inr (rtcp_code type)"
    using octet_at_append [of 1 "header_wire c type len @ B" D] by (simp add: d_def header_type_def header_wire_def)
  show "header_length d (length D) = Inr (unat len)"
    using mem_read_behind [of D 2 2 "header_wire c type len @ B"]
    by (simp add: d_def header_length_def header_wire_def mem_read_def be16_def)
qed

end
