(* ===== verification/Rtcp_Receiver.thy ===== *)
theory Rtcp_Receiver
  imports Rtcp_Packet
begin

text \<open>
  \<open>rtp/RtcpReceiver.cxx\<close>: a compound RTCP packet is received, checked and read. The list of
  known transmitters is kept with the RTP receiver it refers to (theory \<open>Rtp_Receiver\<close>), which
  is the field \<open>rtp_recv\<close> here; in a session without an RTP receiver no entry of the list is
  attached. Offsets stand for pointers into the packet; a read outside the array of 2048 octets
  is \<open>OutOfBounds\<close>. \<open>clk b\<close> is the reading of \<open>getNtpTime\<close> while the part at offset \<open>b\<close> is read.
  The counters are \<open>int\<close> variables and wrap.
\<close>

section \<open>State\<close>

record RtcpReceiver =
  rtp_recv :: RtpReceiver
  rtcp_packetReceived :: int
  accumOneWayDelay :: int
  avgOneWayDelay :: int
  accumRoundTripDelay :: int
  avgRoundTripDelay :: int

text \<open>The constructor; the transmitter list of the new object is empty.\<close>

definition constructRtcpReceiver :: "RtpReceiver \<Rightarrow> RtcpReceiver" where
  "constructRtcpReceiver r =
     \<lparr>rtp_recv = setRTCPrecv (Some Map.empty) r, rtcp_packetReceived = 0, accumOneWayDelay = 0, avgOneWayDelay = 0,
      accumRoundTripDelay = 0, avgRoundTripDelay = 0\<rparr>"

definition tranInfoList :: "RtcpReceiver \<Rightarrow> (u32 \<rightharpoonup> RtpTranInfo)" where
  "tranInfoList rr = (case rtcpRecv (rtp_recv rr) of None \<Rightarrow> Map.empty | Some l \<Rightarrow> l)"

definition set_tranInfoList :: "(u32 \<rightharpoonup> RtpTranInfo) \<Rightarrow> RtcpReceiver \<Rightarrow> RtcpReceiver" where
  "set_tranInfoList l rr = rr\<lparr>rtp_recv := (rtp_recv rr)\<lparr>rtcpRecv := Some l\<rparr>\<rparr>"

text \<open>The entry that \<open>findTranInfo\<close> returns, changed in place.\<close>

definition with_tranInfo ::
    "u32 \<Rightarrow> (RtpTranInfo \<Rightarrow> RtpTranInfo outcome) \<Rightarrow> RtcpReceiver \<Rightarrow> RtcpReceiver outcome" where
  "with_tranInfo src f rr =
     obind (findTranInfo src (tranInfoList rr)) (\<lambda>(info, l).
      case info of
        None \<Rightarrow> Inl NullDeref
      | Some s \<Rightarrow> obind (f s) (\<lambda>s. Inr (set_tranInfoList (l(src \<mapsto> s)) rr)))"

text \<open>A \<open>std::map\<close> is walked in the order of its keys.\<close>

definition tran_keys :: "(u32 \<rightharpoonup> RtpTranInfo) \<Rightarrow> u32 list" where
  "tran_keys l = sorted_list_of_set (dom l)"

definition getTranInfoCount :: "RtcpReceiver \<Rightarrow> int" where
  "getTranInfoCount rr = int (length (tran_keys (tranInfoList rr)))"

definition getTranInfoList :: "int \<Rightarrow> RtcpReceiver \<Rightarrow> (u32 \<times> RtpTranInfo) outcome" where
  "getTranInfoList index rr =
     oassert (index \<ge> 0) (oassert (index < getTranInfoCount rr)
      (let src = tran_keys (tranInfoList rr) ! nat index in
       case tranInfoList rr src of None \<Rightarrow> Inl AssertFailed | Some s \<Rightarrow> Inr (src, s)))"

section \<open>Receiving a packet\<close>

definition rtcp_receiveFrom :: "rx \<Rightarrow> RtcpPacket \<Rightarrow> (int \<times> RtcpPacket) outcome" where
  "rtcp_receiveFrom rx pkt =
     (case rx of
        NotReceived n \<Rightarrow> Inr (n, pkt)
      | Received bs \<Rightarrow>
          let bs = take (nat (rtcp_alloc pkt)) bs in
          obind (put_at 0 bs pkt) (\<lambda>pkt. Inr (int (length bs), pkt)))"

text \<open>The loop over the headers of a compound packet: where it ends.\<close>

function header_walk :: "octet list \<Rightarrow> nat \<Rightarrow> nat \<Rightarrow> nat outcome" where
  "header_walk d beg fin =
     (if beg + sizeof_RtcpHeader \<le> fin then
        obind (header_version d beg) (\<lambda>version.
        if version = RTP_VERSION then
          obind (header_length d beg) (\<lambda>len. header_walk d (beg + (len + 1) * 4) fin)
        else Inr beg)
      else Inr beg)"
  by pat_completeness auto
termination by (relation "measure (\<lambda>(d, b, e). e - b)") auto

declare header_walk.simps [simp del]

definition rtcp_isValid :: "RtcpPacket \<Rightarrow> bool outcome" where
  "rtcp_isValid p =
     (let d = rtcp_data p; fin = nat (rtcp_getTotalUsage p) in
      obind (header_type d 0) (\<lambda>type.
      if type \<noteq> rtcp_code rtcpTypeSR \<and> type \<noteq> rtcp_code rtcpTypeRR then Inr False
      else
        obind (header_padding d 0) (\<lambda>padding.
        if padding then Inr False
        else obind (header_walk d 0 fin) (\<lambda>beg. Inr (beg = fin)))))"

definition rtcp_getPacket :: "rx \<Rightarrow> RtcpPacket \<Rightarrow> (int \<times> RtcpPacket) outcome" where
  "rtcp_getPacket rx pkt =
     obind (rtcp_receiveFrom rx pkt) (\<lambda>(len, pkt).
      if len \<le> 0 then Inr (len, pkt)
      else
        obind (rtcp_setTotalUsage len pkt) (\<lambda>pkt.
        obind (rtcp_isValid pkt) (\<lambda>valid.
        Inr (if valid then len else - EINVAL, pkt))))"

section \<open>Reports\<close>

text \<open>The difference of two times in milliseconds, as an \<open>int\<close>.\<close>

definition ms_difference :: "u64 \<Rightarrow> u64 \<Rightarrow> int" where
  "ms_difference now earlier =
     (if now < earlier then int32 (- sint (ucast (earlier - now) :: u32)) else sint (ucast (now - earlier) :: u32))"

definition readSender :: "NtpTime \<Rightarrow> octet list \<Rightarrow> nat \<Rightarrow> RtcpReceiver \<Rightarrow> (nat \<times> RtcpReceiver) outcome" where
  "readSender nowNtp d head rr =
     (let senderBlock = head + sizeof_RtcpHeader in
      obind (u32_at d senderBlock) (\<lambda>src.
      obind (u32_at d (senderBlock + 4)) (\<lambda>nts.
      obind (u32_at d (senderBlock + 8)) (\<lambda>ntf.
      obind (with_tranInfo src (\<lambda>s. Inr (s\<lparr>lastSRTimestamp := push_bit 16 nts OR (drop_bit 16 ntf AND 0xFFFF),
                                           recvLastSRTimestamp := nowNtp\<rparr>)) rr) (\<lambda>rr.
      let rr = rr\<lparr>rtcp_packetReceived := int32 (rtcp_packetReceived rr + 1)\<rparr>;
          diff = ms_difference (getMs nowNtp) (getMs (NtpTime nts ntf));
          rr = rr\<lparr>accumOneWayDelay := int32 (accumOneWayDelay rr + diff)\<rparr>
      in if rtcp_packetReceived rr = 0 then Inl DivByZero
         else Inr (head + sizeof_RtcpHeader + sizeof_RtcpSender,
                rr\<lparr>avgOneWayDelay := c_div (accumOneWayDelay rr) (rtcp_packetReceived rr)\<rparr>))))))"

definition readReport :: "NtpTime \<Rightarrow> octet list \<Rightarrow> nat \<Rightarrow> RtcpReceiver \<Rightarrow> RtcpReceiver outcome" where
  "readReport nowNtp d block rr =
     obind (u32_at d (block + 16)) (\<lambda>srt.
     obind (u32_at d (block + 20)) (\<lambda>ld.
      let thenNtp = NtpTime (drop_bit 16 srt AND 0xFFFF) (push_bit 16 srt);
          nowNtp1 = NtpTime (seconds nowNtp AND 0x0000FFFF) (fractional nowNtp AND 0xFFFF0000);
          nowN = getMs nowNtp1;
          thenN = getMs thenNtp;
          diff = ms_difference nowN thenN
      in if thenN \<noteq> 0 then
           let diff = int32 (diff - uint (ld div 65));
               rr = rr\<lparr>accumRoundTripDelay := int32 (accumRoundTripDelay rr + diff)\<rparr>
           in if rtcp_packetReceived rr = 0 then Inl DivByZero
              else Inr (rr\<lparr>avgRoundTripDelay := c_div (accumRoundTripDelay rr) (rtcp_packetReceived rr)\<rparr>)
         else Inr rr))"

fun readReports :: "NtpTime \<Rightarrow> octet list \<Rightarrow> nat \<Rightarrow> nat \<Rightarrow> RtcpReceiver \<Rightarrow> RtcpReceiver outcome" where
  "readReports nowNtp d 0 block rr = Inr rr"
| "readReports nowNtp d (Suc i) block rr =
     obind (readReport nowNtp d block rr) (readReports nowNtp d i (block + sizeof_RtcpReport))"

definition readSR :: "NtpTime \<Rightarrow> octet list \<Rightarrow> nat \<Rightarrow> RtcpReceiver \<Rightarrow> RtcpReceiver outcome" where
  "readSR nowNtp d head rr =
     obind (header_type d head) (\<lambda>type.
     obind (if type = rtcp_code rtcpTypeSR then readSender nowNtp d head rr
            else Inr (head + sizeof_RtcpHeader + sizeof_RtpSrc,
                   rr\<lparr>rtcp_packetReceived := int32 (rtcp_packetReceived rr + 1)\<rparr>)) (\<lambda>(middle, rr).
     obind (header_count d head) (\<lambda>count. readReports nowNtp d count middle rr)))"

section \<open>Source descriptions\<close>

text \<open>\<open>strncpy\<close> of at most \<open>n\<close> characters from offset \<open>i\<close> of \<open>d\<close> to the front of an array.\<close>

definition c_strncpy :: "octet list \<Rightarrow> nat \<Rightarrow> nat \<Rightarrow> octet list \<Rightarrow> octet list outcome" where
  "c_strncpy d i n dest =
     (let s = take n (drop i d); bs = c_text s in
      if length d < i + n \<and> 0 \<notin> set s then Inl OutOfBounds
      else mem_write 0 (bs @ replicate (n - length bs) 0) dest)"

text \<open>The member of the description that an item type names is replaced; another type is only
  logged.\<close>

definition sdes_store :: "octet \<Rightarrow> (octet list \<Rightarrow> octet list outcome) \<Rightarrow> SDESdata \<Rightarrow> SDESdata outcome" where
  "sdes_store type f s =
     (if type = sdes_code rtcpSdesCname then obind (f (sdes_cname s)) (\<lambda>v. Inr (s\<lparr>sdes_cname := v\<rparr>))
      else if type = sdes_code rtcpSdesName then obind (f (sdes_name s)) (\<lambda>v. Inr (s\<lparr>sdes_name := v\<rparr>))
      else if type = sdes_code rtcpSdesEmail then obind (f (sdes_email s)) (\<lambda>v. Inr (s\<lparr>sdes_email := v\<rparr>))
      else if type = sdes_code rtcpSdesPhone then obind (f (sdes_phone s)) (\<lambda>v. Inr (s\<lparr>sdes_phone := v\<rparr>))
      else if type = sdes_code rtcpSdesLoc then obind (f (sdes_loc s)) (\<lambda>v. Inr (s\<lparr>sdes_loc := v\<rparr>))
      else if type = sdes_code rtcpSdesTool then obind (f (sdes_tool s)) (\<lambda>v. Inr (s\<lparr>sdes_tool := v\<rparr>))
      else if type = sdes_code rtcpSdesNote then obind (f (sdes_note s)) (\<lambda>v. Inr (s\<lparr>sdes_note := v\<rparr>))
      else Inr s)"

definition addSDESItem :: "octet list \<Rightarrow> u32 \<Rightarrow> nat \<Rightarrow> RtcpReceiver \<Rightarrow> RtcpReceiver outcome" where
  "addSDESItem d src item rr =
     with_tranInfo src (\<lambda>s.
       obind (octet_at d item) (\<lambda>type.
       obind (octet_at d (item + 1)) (\<lambda>len.
       obind (sdes_store type (c_strncpy d (item + 2) (unat len + 1)) (SDESInfo s)) (\<lambda>info.
       Inr (s\<lparr>SDESInfo := info\<rparr>))))) rr"

text \<open>The items of one chunk: the loop ends at an item of type 0, whose offset is returned.\<close>

function readItems :: "octet list \<Rightarrow> u32 \<Rightarrow> nat \<Rightarrow> RtcpReceiver \<Rightarrow> (nat \<times> RtcpReceiver) outcome" where
  "readItems d src item rr =
     (if item < length d then
        if d ! item = 0 then Inr (item, rr)
        else
          obind (addSDESItem d src item rr) (\<lambda>rr.
          obind (octet_at d (item + 1)) (\<lambda>len.
          readItems d src (item + (sizeof_RtcpSDESItem - 1) + unat len) rr))
      else Inl OutOfBounds)"
  by pat_completeness auto
termination by (relation "measure (\<lambda>(d, src, item, rr). length d - item)") auto

declare readItems.simps [simp del]

fun readChunks :: "octet list \<Rightarrow> nat \<Rightarrow> nat \<Rightarrow> RtcpReceiver \<Rightarrow> RtcpReceiver outcome" where
  "readChunks d 0 middle rr = Inr rr"
| "readChunks d (Suc i) middle rr =
     obind (u32_at d middle) (\<lambda>src.
     obind (readItems d src (middle + 4) rr) (\<lambda>(item, rr). readChunks d i item rr))"

definition readSDES :: "octet list \<Rightarrow> nat \<Rightarrow> RtcpReceiver \<Rightarrow> RtcpReceiver outcome" where
  "readSDES d head rr =
     obind (header_count d head) (\<lambda>count. readChunks d count (head + sizeof_RtcpHeader) rr)"

section \<open>Leaving sources and the compound packet\<close>

fun readLeaving :: "octet list \<Rightarrow> nat \<Rightarrow> nat \<Rightarrow> RtpReceiver \<Rightarrow> RtpReceiver outcome" where
  "readLeaving d 0 src r = Inr r"
| "readLeaving d (Suc i) src r =
     obind (u32_at d src) (\<lambda>s. obind (removeTranInfo s False r) (readLeaving d i (src + sizeof_RtpSrc)))"

definition readBYE_head :: "octet list \<Rightarrow> nat \<Rightarrow> RtcpReceiver \<Rightarrow> (int \<times> RtcpReceiver) outcome" where
  "readBYE_head d head rr =
     obind (header_count d head) (\<lambda>count.
     obind (readLeaving d count (head + sizeof_RtcpHeader) (rtp_recv rr)) (\<lambda>r. Inr (0, rr\<lparr>rtp_recv := r\<rparr>)))"

definition readAPP :: "octet list \<Rightarrow> nat \<Rightarrow> RtcpReceiver \<Rightarrow> RtcpReceiver outcome" where
  "readAPP d head rr = Inl AssertFailed"

text \<open>The \<open>switch\<close> of \<open>readRTCP\<close> for the part at offset \<open>beg\<close>.\<close>

definition readPart :: "NtpTime \<Rightarrow> octet list \<Rightarrow> nat \<Rightarrow> int \<Rightarrow> RtcpReceiver \<Rightarrow> (int \<times> RtcpReceiver) outcome" where
  "readPart now d beg rv rr =
     obind (header_type d beg) (\<lambda>type.
      if type = rtcp_code rtcpTypeSR \<or> type = rtcp_code rtcpTypeRR
      then obind (readSR now d beg rr) (\<lambda>rr. Inr (rv, rr))
      else if type = rtcp_code rtcpTypeSDES then obind (readSDES d beg rr) (\<lambda>rr. Inr (rv, rr))
      else if type = rtcp_code rtcpTypeBYE
      then obind (readBYE_head d beg rr) (\<lambda>(result, rr). Inr (if result = 0 then 1 else rv, rr))
      else if type = rtcp_code rtcpTypeAPP then obind (readAPP d beg rr) (\<lambda>rr. Inr (rv, rr))
      else Inr (rv, rr))"

function readParts ::
    "(nat \<Rightarrow> NtpTime) \<Rightarrow> octet list \<Rightarrow> nat \<Rightarrow> nat \<Rightarrow> int \<Rightarrow> RtcpReceiver \<Rightarrow> (int \<times> RtcpReceiver) outcome" where
  "readParts clk d beg fin rv rr =
     (if beg < fin then
        obind (readPart (clk beg) d beg rv rr) (\<lambda>(rv, rr).
        obind (header_length d beg) (\<lambda>len. readParts clk d (beg + (len + 1) * 4) fin rv rr))
      else Inr (rv, rr))"
  by pat_completeness auto
termination by (relation "measure (\<lambda>(clk, d, b, e, rv, rr). e - b)") auto

declare readParts.simps [simp del]

definition readRTCP :: "(nat \<Rightarrow> NtpTime) \<Rightarrow> RtcpPacket \<Rightarrow> RtcpReceiver \<Rightarrow> (int \<times> RtcpReceiver) outcome" where
  "readRTCP clk p rr = readParts clk (rtcp_data p) 0 (nat (rtcp_getTotalUsage p)) 0 rr"

text \<open>The first part of a given type.\<close>

function findPart :: "octet list \<Rightarrow> RtcpType \<Rightarrow> nat \<Rightarrow> nat \<Rightarrow> nat option outcome" where
  "findPart d type beg fin =
     (if beg < fin then
        obind (header_type d beg) (\<lambda>t.
        if rtcp_code type = t then Inr (Some beg)
        else obind (header_length d beg) (\<lambda>len. findPart d type (beg + (len + 1) * 4) fin))
      else Inr None)"
  by pat_completeness auto
termination by (relation "measure (\<lambda>(d, type, b, e). e - b)") auto

declare findPart.simps [simp del]

definition findRTCP :: "RtcpPacket \<Rightarrow> RtcpType \<Rightarrow> nat option outcome" where
  "findRTCP p type = findPart (rtcp_data p) type 0 (nat (rtcp_getTotalUsage p))"

definition readSR_packet :: "NtpTime \<Rightarrow> RtcpPacket \<Rightarrow> RtcpReceiver \<Rightarrow> (int \<times> RtcpReceiver) outcome" where
  "readSR_packet now p rr =
     obind (findRTCP p rtcpTypeSR) (\<lambda>head.
     obind (if head = None then findRTCP p rtcpTypeRR else Inr head) (\<lambda>head.
     case head of
       None \<Rightarrow> Inr (-1, rr)
     | Some h \<Rightarrow> obind (readSR now (rtcp_data p) h rr) (\<lambda>rr. Inr (0, rr))))"

definition readSDES_packet :: "RtcpPacket \<Rightarrow> RtcpReceiver \<Rightarrow> (int \<times> RtcpReceiver) outcome" where
  "readSDES_packet p rr =
     obind (findRTCP p rtcpTypeSDES) (\<lambda>head.
     case head of
       None \<Rightarrow> Inr (-1, rr)
     | Some h \<Rightarrow> obind (readSDES (rtcp_data p) h rr) (\<lambda>rr. Inr (0, rr)))"

definition readBYE_packet :: "RtcpPacket \<Rightarrow> RtcpReceiver \<Rightarrow> (int \<times> RtcpReceiver) outcome" where
  "readBYE_packet p rr =
     obind (findRTCP p rtcpTypeBYE) (\<lambda>head.
     case head of
       None \<Rightarrow> Inr (-1, rr)
     | Some h \<Rightarrow> obind (readBYE_head (rtcp_data p) h rr) (\<lambda>(result, rr). Inr (0, rr)))"

definition readAPP_packet :: "RtcpPacket \<Rightarrow> RtcpReceiver \<Rightarrow> (int \<times> RtcpReceiver) outcome" where
  "readAPP_packet p rr =
     obind (findRTCP p rtcpTypeAPP) (\<lambda>head.
     case head of
       None \<Rightarrow> Inr (-1, rr)
     | Some h \<Rightarrow> obind (readAPP (rtcp_data p) h rr) (\<lambda>rr. Inr (0, rr)))"

end
