(* ===== verification/Rtcp_Transmitter.thy ===== *)
theory Rtcp_Transmitter
  imports Rtcp_Receiver
begin

text \<open>
  \<open>rtp/RtcpTransmitter.cxx\<close> and the RTCP operations of \<open>rtp/RtpSession.cxx\<close>: the parts of a
  compound packet are written into the packet one after the other, at the offsets and in the
  order of the code. The objects that the transmitter points to, the RTP transmitter \<open>tran\<close> and
  the RTCP receiver \<open>rr\<close>, are arguments; \<open>None\<close> is the null pointer. The value of \<open>rand\<close>, the
  clock, the process number and the host name are arguments too. Arithmetic on \<open>int\<close> wraps.
\<close>

section \<open>State and intervals\<close>

record RtcpTransmitter =
  nextInterval :: NtpTime
  tx_SDESInfo :: "SDESdata option"
  rtcp_remoteAddr :: string
  rtcp_queued :: "(octet list \<times> string) list"

definition RTCP_INTERVAL :: int where "RTCP_INTERVAL = 5000"

definition updateInterval :: "int \<Rightarrow> int \<Rightarrow> RtcpTransmitter \<Rightarrow> RtcpTransmitter" where
  "updateInterval RAND_MAX rand t =
     (let delayMs = c_div (RTCP_INTERVAL * (500 + c_div rand (c_div RAND_MAX 1000))) 1000 in
      t\<lparr>nextInterval := ntp_plus (nextInterval t) (word_of_int delayMs)\<rparr>)"

definition checkInterval :: "int \<Rightarrow> int \<Rightarrow> NtpTime \<Rightarrow> RtcpTransmitter \<Rightarrow> int \<times> RtcpTransmitter" where
  "checkInterval RAND_MAX rand now t =
     (if ntp_greater now (nextInterval t) then (1, updateInterval RAND_MAX rand t) else (0, t))"

definition constructRtcpTransmitter :: "int \<Rightarrow> int \<Rightarrow> NtpTime \<Rightarrow> RtcpTransmitter \<Rightarrow> RtcpTransmitter" where
  "constructRtcpTransmitter RAND_MAX rand now t =
     updateInterval RAND_MAX rand (t\<lparr>tx_SDESInfo := None, nextInterval := now\<rparr>)"

definition rtcp_setRemoteAddr :: "string \<Rightarrow> RtcpTransmitter \<Rightarrow> RtcpTransmitter" where
  "rtcp_setRemoteAddr addr t = t\<lparr>rtcp_remoteAddr := addr\<rparr>"

text \<open>The datagram is given to the UDP stack; \<open>udp\<close> says what \<open>queueTransmitTo\<close> answers to it: its length,
  when it was sent or waits in the stack, or a negative error number.\<close>

definition rtcp_transmit :: "(octet list \<Rightarrow> int) \<Rightarrow> RtcpPacket \<Rightarrow> RtcpTransmitter \<Rightarrow> (int \<times> RtcpTransmitter) outcome" where
  "rtcp_transmit udp p t =
     obind (mem_read 0 (nat (rtcp_getTotalUsage p)) (rtcp_data p)) (\<lambda>bs.
     Inr (udp bs, t\<lparr>rtcp_queued := rtcp_queued t @ [(bs, rtcp_remoteAddr t)]\<rparr>))"

section \<open>Sender and receiver reports\<close>

definition lost_expected :: "RtpReceiver \<Rightarrow> u32" where
  "lost_expected r = (recv_cycles r + ucast (realPrevSeqRecv r)) - seedSeq r + 1"

definition calcLostFrac :: "RtpReceiver \<Rightarrow> RtpTranInfo \<Rightarrow> u32 \<times> RtpTranInfo" where
  "calcLostFrac r s =
     (let expected = lost_expected r;
          expected_interval = expected - word_of_int (expectedPrior s);
          received_interval = word_of_int (packetReceived r - receivedPrior s) :: u32;
          s = s\<lparr>expectedPrior := sint expected, receivedPrior := packetReceived r\<rparr>;
          lost_interval = expected_interval - received_interval
      in (if expected_interval = 0 \<or> lost_interval \<le> 0 then 0 else push_bit 8 lost_interval div expected_interval, s))"

definition calcLostCount :: "RtpReceiver \<Rightarrow> RtpTranInfo \<Rightarrow> u32" where
  "calcLostCount r s = lost_expected r - word_of_int (packetReceived r)"

text \<open>The time since the last sender report in units of 1/65536 seconds, 65 for a millisecond.\<close>

definition lastSRDelay :: "NtpTime \<Rightarrow> RtpTranInfo \<Rightarrow> u32" where
  "lastSRDelay nowNtp s =
     (if lastSRTimestamp s = 0 then 0
      else if ntp_greater nowNtp (recvLastSRTimestamp s)
      then ucast (getMs nowNtp - getMs (recvLastSRTimestamp s)) * 65 else 0)"

text \<open>The fields of the report block at offset \<open>b\<close>, in the order of the assignments.\<close>

definition put_report ::
    "nat \<Rightarrow> NtpTime \<Rightarrow> RtpReceiver \<Rightarrow> RtpTranInfo \<Rightarrow> RtcpPacket \<Rightarrow> (RtpTranInfo \<times> RtcpPacket) outcome" where
  "put_report b nowNtp r s p =
     obind (put_at b (be32 (ssrc r)) p) (\<lambda>p.
     let (frac, s) = calcLostFrac r s in
     obind (put_at (b + 4) [ucast frac] p) (\<lambda>p.
     let lost = calcLostCount r s AND 0xffffff in
     obind (put_at (b + 7) [ucast (lost AND 0xff)] p) (\<lambda>p.
     obind (put_at (b + 6) [ucast (drop_bit 8 (lost AND 0xff00))] p) (\<lambda>p.
     obind (put_at (b + 5) [ucast (drop_bit 16 (lost AND 0xff0000))] p) (\<lambda>p.
     obind (put_at (b + 8) (be16 (ucast (recv_cycles r))) p) (\<lambda>p.
     obind (put_at (b + 10) (be16 (realPrevSeqRecv r)) p) (\<lambda>p.
     obind (put_at (b + 12) (be32 (word_of_int (jitter r div 16))) p) (\<lambda>p.
     obind (put_at (b + 16) (be32 (lastSRTimestamp s)) p) (\<lambda>p.
     obind (put_at (b + 20) (be32 (lastSRDelay nowNtp s)) p) (\<lambda>p.
     Inr (s, p)))))))))))"

definition addReport ::
    "nat \<Rightarrow> NtpTime \<Rightarrow> int \<Rightarrow> int \<times> RtcpPacket \<times> RtcpReceiver \<Rightarrow> (int \<times> RtcpPacket \<times> RtcpReceiver) outcome" where
  "addReport header nowNtp i = (\<lambda>(usage, p, rr).
     obind (getTranInfoList i rr) (\<lambda>(src, s).
      let r = rtp_recv rr in
      if \<not> recv_attached s then Inr (usage, p, rr)
      else if probation r < 0 then Inr (usage, p, rr)
      else
        let b = freeData p in
        obind (allocData (int sizeof_RtcpReport) p) (\<lambda>(n, p).
        obind (put_report b nowNtp r s p) (\<lambda>(s, p).
        obind (header_count (rtcp_data p) header) (\<lambda>count.
        obind (put_bits 0 5 (word_of_nat (count + 1)) header p) (\<lambda>p.
        Inr (usage + n, p, set_tranInfoList ((tranInfoList rr)(src \<mapsto> s)) rr)))))))"

text \<open>The RTP time of the report: the milliseconds since the transmitter was made, in samples.\<close>

definition report_rtpTime :: "NtpTime \<Rightarrow> RtpTransmitter \<Rightarrow> u32" where
  "report_rtpTime nowNtp t =
     (let diffNtp = (if ntp_greater nowNtp (tx_seedNtpTime t) then int32 (ntp_diff nowNtp (tx_seedNtpTime t))
                     else if ntp_greater (tx_seedNtpTime t) nowNtp then int32 (ntp_diff (tx_seedNtpTime t) nowNtp)
                     else 0);
          diffRtp = word_of_int (c_div (int32 (diffNtp * tx_clockRate t)) 1000) :: u32
      in tx_seedRtpTime t + diffRtp)"

definition addSender :: "NtpTime \<Rightarrow> RtpTransmitter option \<Rightarrow> RtcpPacket \<Rightarrow> (int \<times> RtcpPacket) outcome" where
  "addSender nowNtp tran p =
     (let b = freeData p in
      case tran of
        Some t \<Rightarrow>
          obind (allocData (int sizeof_RtcpSender) p) (\<lambda>(n, p).
          obind (put_at b (be32 (tx_ssrc t)) p) (\<lambda>p.
          obind (put_at (b + 4) (be32 (seconds nowNtp)) p) (\<lambda>p.
          obind (put_at (b + 8) (be32 (fractional nowNtp)) p) (\<lambda>p.
          obind (put_at (b + 12) (be32 (report_rtpTime nowNtp t)) p) (\<lambda>p.
          obind (put_at (b + 16) (be32 (word_of_int (packetSent t))) p) (\<lambda>p.
          obind (put_at (b + 20) (be32 (word_of_int (payloadSent t))) p) (\<lambda>p.
          Inr (n, p))))))))
      | None \<Rightarrow>
          obind (allocData (int sizeof_RtpSrc) p) (\<lambda>(n, p).
          obind (put_at b [0, 0, 0, 0] p) (\<lambda>p. Inr (n, p))))"

definition addReports ::
    "nat \<Rightarrow> NtpTime \<Rightarrow> int \<times> RtcpPacket \<times> RtcpReceiver option \<Rightarrow> (int \<times> RtcpPacket \<times> RtcpReceiver option) outcome" where
  "addReports header nowNtp = (\<lambda>(usage, p, rr).
     case rr of
       None \<Rightarrow> Inr (usage, p, None)
     | Some rr \<Rightarrow>
         obind (ofold (addReport header nowNtp) [0..getTranInfoCount rr - 1] (usage, p, rr))
           (\<lambda>(usage, p, rr). Inr (usage, p, Some rr)))"

definition addSR ::
    "NtpTime \<Rightarrow> int \<Rightarrow> RtpTransmitter option \<Rightarrow> RtcpReceiver option \<Rightarrow> RtcpPacket \<Rightarrow>
     (int \<times> RtcpPacket \<times> RtcpReceiver option) outcome" where
  "addSR nowNtp npad tran rr p =
     (let header = freeData p in
      obind (allocData (int sizeof_RtcpHeader) p) (\<lambda>(usage, p).
      obind (put_header header (npad > 0) 0 (if tran \<noteq> None then rtcpTypeSR else rtcpTypeRR) p) (\<lambda>p.
      obind (addSender nowNtp tran p) (\<lambda>(n, p).
      obind (addReports header nowNtp (usage + n, p, rr)) (\<lambda>(usage, p, rr).
      oassert (\<not> npad > 0)
       (oassert (usage mod 4 = 0)
        (obind (put_length header usage p) (\<lambda>p. Inr (usage, p, rr)))))))))"

section \<open>Source descriptions\<close>

text \<open>The array of an item, as the seven \<open>getSdes\<close> functions give it.\<close>

fun getSdes :: "RtcpSDESType \<Rightarrow> SDESdata \<Rightarrow> octet list option" where
  "getSdes rtcpSdesCname s = Some (sdes_cname s)"
| "getSdes rtcpSdesName s = Some (sdes_name s)"
| "getSdes rtcpSdesEmail s = Some (sdes_email s)"
| "getSdes rtcpSdesPhone s = Some (sdes_phone s)"
| "getSdes rtcpSdesLoc s = Some (sdes_loc s)"
| "getSdes rtcpSdesTool s = Some (sdes_tool s)"
| "getSdes rtcpSdesNote s = Some (sdes_note s)"
| "getSdes rtcpSdesPriv s = None"
| "getSdes rtcpSdesEnd s = None"

definition cpy_str :: "nat \<Rightarrow> octet list \<Rightarrow> RtcpPacket \<Rightarrow> RtcpPacket outcome" where
  "cpy_str item src p =
     obind (c_strlen src) (\<lambda>len.
     obind (put_at (item + 2) (take len src) p) (\<lambda>p.
     put_at (item + 1) [word_of_nat len] p))"

definition addItem :: "SDESdata \<Rightarrow> RtcpSDESType \<Rightarrow> int \<times> RtcpPacket \<Rightarrow> (int \<times> RtcpPacket) outcome" where
  "addItem info type = (\<lambda>(usage, p).
     let item = freeData p in
     obind (allocData (int sizeof_RtcpSDESItem - 1) p) (\<lambda>(n, p).
     obind (case getSdes type info of None \<Rightarrow> Inl AssertFailed | Some v \<Rightarrow> cpy_str item v p) (\<lambda>p.
     obind (put_at item [sdes_code type] p) (\<lambda>p.
     obind (octet_at (rtcp_data p) (item + 1)) (\<lambda>len.
     obind (allocData (int (unat len)) p) (\<lambda>(m, p).
     Inr (usage + n + m, p)))))))"

text \<open>The loop over an array that ends with \<open>rtcpSdesEnd\<close>.\<close>

fun addItems :: "SDESdata \<Rightarrow> RtcpSDESType list \<Rightarrow> int \<times> RtcpPacket \<Rightarrow> (int \<times> RtcpPacket) outcome" where
  "addItems info [] up = Inl OutOfBounds"
| "addItems info (type # SDESlist) up =
     (if type = rtcpSdesEnd then Inr up else obind (addItem info type up) (addItems info SDESlist))"

text \<open>The octets that fill a packet up to a multiple of four.\<close>

definition fill_up :: "int \<times> RtcpPacket \<Rightarrow> (int \<times> RtcpPacket) outcome" where
  "fill_up = (\<lambda>(usage, p).
     if usage mod 4 \<noteq> 0 then obind (allocData (4 - usage mod 4) p) (\<lambda>(n, p). Inr (usage + n, p))
     else Inr (usage, p))"

definition addSDES_list ::
    "RtcpSDESType list \<Rightarrow> int \<Rightarrow> RtpTransmitter option \<Rightarrow> RtcpTransmitter \<Rightarrow> RtcpPacket \<Rightarrow> (int \<times> RtcpPacket) outcome" where
  "addSDES_list SDESlist npad tran t p =
     (case tran of
        None \<Rightarrow> Inr (-1, p)
      | Some rt \<Rightarrow>
          let header = freeData p in
          obind (allocData (int sizeof_RtcpHeader) p) (\<lambda>(usage, p).
          obind (put_header header (npad > 0) 1 rtcpTypeSDES p) (\<lambda>p.
          let chunk = freeData p in
          obind (allocData (int sizeof_RtpSrc) p) (\<lambda>(n, p).
          obind (put_at chunk (be32 (tx_ssrc rt)) p) (\<lambda>p.
          case tx_SDESInfo t of
            None \<Rightarrow> Inl NullDeref
          | Some info \<Rightarrow>
              obind (addItems info SDESlist (usage + n, p)) (\<lambda>(usage, p).
              let item = freeData p in
              obind (allocData (int sizeof_RtcpSDESItem - 1) p) (\<lambda>(n, p).
              obind (put_at item [sdes_code rtcpSdesEnd] p) (\<lambda>p.
              obind (put_at (item + 1) [0] p) (\<lambda>p.
              oassert (\<not> npad > 0)
               (obind (fill_up (usage + n, p)) (\<lambda>(usage, p).
                obind (put_length header usage p) (\<lambda>p. Inr (usage, p)))))))))))))"

definition addSDES_item ::
    "RtcpSDESType \<Rightarrow> int \<Rightarrow> RtpTransmitter option \<Rightarrow> RtcpTransmitter \<Rightarrow> RtcpPacket \<Rightarrow> (int \<times> RtcpPacket) outcome" where
  "addSDES_item item npad tran t p =
     (if tran = None then Inr (-1, p) else addSDES_list [item, rtcpSdesEnd] npad tran t p)"

text \<open>The items whose text is not empty, in the order of their types.\<close>

fun known_items :: "SDESdata \<Rightarrow> RtcpSDESType list \<Rightarrow> RtcpSDESType list outcome" where
  "known_items info [] = Inr [rtcpSdesEnd]"
| "known_items info (type # rest) =
     obind (case getSdes type info of None \<Rightarrow> Inl AssertFailed | Some v \<Rightarrow> c_strlen v) (\<lambda>len.
     obind (known_items info rest) (\<lambda>ts. Inr (if len > 0 then type # ts else ts)))"

definition sdes_types :: "RtcpSDESType list" where
  "sdes_types = [rtcpSdesCname, rtcpSdesName, rtcpSdesEmail, rtcpSdesPhone, rtcpSdesLoc, rtcpSdesTool, rtcpSdesNote]"

definition addSDES ::
    "int \<Rightarrow> RtpTransmitter option \<Rightarrow> RtcpTransmitter \<Rightarrow> RtcpPacket \<Rightarrow> (int \<times> RtcpPacket) outcome" where
  "addSDES npad tran t p =
     (if tran = None then Inr (-1, p)
      else
        case tx_SDESInfo t of
          None \<Rightarrow> Inl NullDeref
        | Some info \<Rightarrow> obind (known_items info sdes_types) (\<lambda>SDESlist. addSDES_list SDESlist npad tran t p))"

text \<open>Decimal digits, as \<open>%d\<close> prints them.\<close>

fun decimal :: "nat \<Rightarrow> octet list" where
  "decimal n = (if n < 10 then [word_of_nat (48 + n)] else decimal (n div 10) @ [word_of_nat (48 + n mod 10)])"

declare decimal.simps [simp del]

text \<open>The user name at the host: \<open>snprintf\<close> stores at most 147 characters.\<close>

definition setSdesCname :: "nat \<Rightarrow> octet list \<Rightarrow> SDESdata \<Rightarrow> SDESdata" where
  "setSdesCname pid host s =
     (let cnameres = take 147 (cstr ''unknown_user'' @ cstr ''.'' @ decimal pid @ cstr ''@'' @ host) in
      s\<lparr>sdes_cname := cnameres @ replicate (256 - length cnameres) 0\<rparr>)"

text \<open>\<open>strcpy\<close> of a text into one of the arrays, after the check of its length.\<close>

definition sdes_strcpy :: "nat \<Rightarrow> octet list \<Rightarrow> octet list \<Rightarrow> octet list outcome" where
  "sdes_strcpy limit str dest = oassert (length str < limit) (mem_write 0 (str @ [0]) dest)"

definition setSdesName :: "octet list \<Rightarrow> SDESdata \<Rightarrow> SDESdata outcome" where
  "setSdesName str s = obind (sdes_strcpy 255 str (sdes_name s)) (\<lambda>v. Inr (s\<lparr>sdes_name := v\<rparr>))"

definition setSdesEmail :: "octet list \<Rightarrow> SDESdata \<Rightarrow> SDESdata outcome" where
  "setSdesEmail str s = obind (sdes_strcpy 255 str (sdes_email s)) (\<lambda>v. Inr (s\<lparr>sdes_email := v\<rparr>))"

definition setSdesPhone :: "octet list \<Rightarrow> SDESdata \<Rightarrow> SDESdata outcome" where
  "setSdesPhone str s = obind (sdes_strcpy 256 str (sdes_phone s)) (\<lambda>v. Inr (s\<lparr>sdes_phone := v\<rparr>))"

definition setSdesLoc :: "octet list \<Rightarrow> SDESdata \<Rightarrow> SDESdata outcome" where
  "setSdesLoc str s = obind (sdes_strcpy 255 str (sdes_loc s)) (\<lambda>v. Inr (s\<lparr>sdes_loc := v\<rparr>))"

definition setSdesTool :: "octet list \<Rightarrow> SDESdata \<Rightarrow> SDESdata outcome" where
  "setSdesTool str s = obind (sdes_strcpy 255 str (sdes_tool s)) (\<lambda>v. Inr (s\<lparr>sdes_tool := v\<rparr>))"

definition setSdesNote :: "octet list \<Rightarrow> SDESdata \<Rightarrow> SDESdata outcome" where
  "setSdesNote str s = obind (sdes_strcpy 255 str (sdes_note s)) (\<lambda>v. Inr (s\<lparr>sdes_note := v\<rparr>))"

text \<open>\<open>setRTPtran\<close> allocates the description; \<open>fresh\<close> is what the new memory holds.\<close>

definition setRTPtran :: "SDESdata \<Rightarrow> RtcpTransmitter \<Rightarrow> RtcpTransmitter" where
  "setRTPtran fresh t = (if tx_SDESInfo t = None then t\<lparr>tx_SDESInfo := Some fresh\<rparr> else t)"

section \<open>Leaving\<close>

fun addLeaving :: "u32 list \<Rightarrow> int \<times> RtcpPacket \<Rightarrow> (int \<times> RtcpPacket) outcome" where
  "addLeaving [] up = Inr up"
| "addLeaving (src # lst) (usage, p) =
     (let s = freeData p in
      obind (allocData (int sizeof_RtpSrc) p) (\<lambda>(n, p).
      obind (put_at s (be32 src) p) (\<lambda>p. addLeaving lst (usage + n, p))))"

definition addReason :: "octet list option \<Rightarrow> int \<times> RtcpPacket \<Rightarrow> (int \<times> RtcpPacket) outcome" where
  "addReason reason = (\<lambda>(usage, p).
     case reason of
       None \<Rightarrow> Inr (usage, p)
     | Some str \<Rightarrow>
         let b = freeData p in
         obind (allocData (int sizeof_RtcpBye - 1) p) (\<lambda>(n, p).
         obind (put_at b [word_of_nat (length str)] p) (\<lambda>p.
         obind (octet_at (rtcp_data p) b) (\<lambda>len.
         obind (put_at (b + 1) (take (unat len) str) p) (\<lambda>p.
         obind (allocData (int (unat len)) p) (\<lambda>(m, p). Inr (usage + n + m, p)))))))"

definition addBYE_list :: "u32 list \<Rightarrow> octet list option \<Rightarrow> int \<Rightarrow> RtcpPacket \<Rightarrow> (int \<times> RtcpPacket) outcome" where
  "addBYE_list lst reason npad p =
     oassert (lst \<noteq> [])
      (let header = freeData p in
       obind (allocData (int sizeof_RtcpHeader) p) (\<lambda>(usage, p).
       obind (put_header header (npad > 0) (int (length lst)) rtcpTypeBYE p) (\<lambda>p.
       obind (addLeaving lst (usage, p)) (\<lambda>up.
       obind (addReason reason up) (\<lambda>up.
       oassert (\<not> npad > 0)
        (obind (fill_up up) (\<lambda>(usage, p).
         obind (put_length header usage p) (\<lambda>p. Inr (usage, p)))))))))"

definition addBYE ::
    "octet list option \<Rightarrow> int \<Rightarrow> RtpTransmitter option \<Rightarrow> RtcpPacket \<Rightarrow> (int \<times> RtcpPacket) outcome" where
  "addBYE reason npad tran p =
     (case tran of None \<Rightarrow> Inr (-1, p) | Some rt \<Rightarrow> addBYE_list [tx_ssrc rt] reason npad p)"

definition addAPP :: "int \<Rightarrow> RtcpPacket \<Rightarrow> (int \<times> RtcpPacket) outcome" where
  "addAPP npad p = Inl AssertFailed"

end
