(* ===== verification/Session_Control.thy ===== *)
theory Session_Control
  imports Rtcp_Transmitter
begin

text \<open>
  \<open>rtp/RtpSession.cxx\<close>: the object that holds the two directions of a media stream, its RTP
  transmitter and receiver and the RTCP counterparts, and guards their use by the state of the
  session. \<open>s_rr\<close> holds the RTP receiver (field \<open>rtp_recv\<close>) and the RTCP receiver; the flags
  \<open>has_recv\<close> and \<open>has_rtcpRecv\<close> say whether the pointers \<open>recv\<close> and \<open>rtcpRecv\<close> are set. The
  function-local counters \<open>pkt_sent\<close> are arguments that are returned. Clock readings are given
  in the order the code makes them.
\<close>

datatype RtpSessionState =
    rtp_session_undefined | rtp_session_inactive | rtp_session_sendonly | rtp_session_recvonly
  | rtp_session_sendrecv

datatype RtpSessionError = session_success | session_wrongState

record RtpSession =
  sessionState :: RtpSessionState
  sessionError :: RtpSessionError
  s_tran :: "RtpTransmitter option"
  s_rtcpTran :: "RtcpTransmitter option"
  has_recv :: bool
  has_rtcpRecv :: bool
  s_rr :: RtcpReceiver

definition s_recv :: "RtpSession \<Rightarrow> RtpReceiver option" where
  "s_recv s = (if has_recv s then Some (rtp_recv (s_rr s)) else None)"

definition s_rtcpRecv :: "RtpSession \<Rightarrow> RtcpReceiver option" where
  "s_rtcpRecv s = (if has_rtcpRecv s then Some (s_rr s) else None)"

definition can_send :: "RtpSession \<Rightarrow> bool" where
  "can_send s \<longleftrightarrow> sessionState s = rtp_session_sendrecv \<or> sessionState s = rtp_session_sendonly"

definition can_receive :: "RtpSession \<Rightarrow> bool" where
  "can_receive s \<longleftrightarrow> sessionState s = rtp_session_sendrecv \<or> sessionState s = rtp_session_recvonly"

section \<open>Statistics\<close>

definition getPacketSent :: "RtpSession \<Rightarrow> int" where
  "getPacketSent s = (case s_tran s of Some t \<Rightarrow> packetSent t | None \<Rightarrow> 0)"

definition getByteSent :: "RtpSession \<Rightarrow> int" where
  "getByteSent s = (case s_tran s of Some t \<Rightarrow> payloadSent t | None \<Rightarrow> 0)"

definition getPacketReceived :: "RtpSession \<Rightarrow> int" where
  "getPacketReceived s = (case s_recv s of Some r \<Rightarrow> packetReceived r | None \<Rightarrow> 0)"

definition getByteReceived :: "RtpSession \<Rightarrow> int" where
  "getByteReceived s = (case s_recv s of Some r \<Rightarrow> payloadReceived r | None \<Rightarrow> 0)"

text \<open>\<open>calcLostCount\<close> goes through the pointer \<open>recv\<close> of the entry without looking at it.\<close>

definition lostCountOf :: "RtcpReceiver \<Rightarrow> int \<Rightarrow> int \<Rightarrow> int outcome" where
  "lostCountOf rr i lost =
     obind (getTranInfoList i rr) (\<lambda>(src, t).
     if recv_attached t then Inr (int32 (lost + uint (calcLostCount (rtp_recv rr) t))) else Inl NullDeref)"

definition getPacketLost :: "RtpSession \<Rightarrow> int outcome" where
  "getPacketLost s =
     (case (s_rtcpTran s, s_rtcpRecv s) of
        (Some _, Some rr) \<Rightarrow> ofold (lostCountOf rr) [0..getTranInfoCount rr - 1] 0
      | _ \<Rightarrow> Inr 0)"

definition receiver_getJitter :: "RtpReceiver \<Rightarrow> int" where
  "receiver_getJitter r = jitter r div 16"

definition getJitter :: "RtpSession \<Rightarrow> int" where
  "getJitter s = (case s_recv s of Some r \<Rightarrow> receiver_getJitter r div 16 | None \<Rightarrow> 0)"

definition getLatency :: "RtpSession \<Rightarrow> int" where
  "getLatency s = (case s_rtcpRecv s of Some rr \<Rightarrow> avgOneWayDelay rr | None \<Rightarrow> 0)"

section \<open>RTCP\<close>

definition checkIntervalRTCP :: "int \<Rightarrow> int \<Rightarrow> NtpTime \<Rightarrow> RtpSession \<Rightarrow> (int \<times> RtpSession) outcome" where
  "checkIntervalRTCP RAND_MAX rand now s =
     (case s_rtcpTran s of
        None \<Rightarrow> Inl AssertFailed
      | Some t \<Rightarrow> let (due, t) = checkInterval RAND_MAX rand now t in Inr (due, s\<lparr>s_rtcpTran := Some t\<rparr>))"

text \<open>The session after the report was written: the receiver's priors have changed.\<close>

definition keep_rr :: "RtcpReceiver option \<Rightarrow> RtpSession \<Rightarrow> RtpSession" where
  "keep_rr rr s = (case rr of None \<Rightarrow> s | Some r \<Rightarrow> s\<lparr>s_rr := r\<rparr>)"

definition transmitRTCP :: "(octet list \<Rightarrow> int) \<Rightarrow> NtpTime \<Rightarrow> RtpSession \<Rightarrow> (int \<times> RtpSession) outcome" where
  "transmitRTCP udp now s =
     (if \<not> can_send s then Inr (-1, s\<lparr>sessionError := session_wrongState\<rparr>)
      else
        case s_rtcpTran s of
          None \<Rightarrow> Inl AssertFailed
        | Some t \<Rightarrow>
            obind (addSR now 0 (s_tran s) (s_rtcpRecv s) new_RtcpPacket) (\<lambda>(_, p, rr).
            obind (if s_tran s \<noteq> None then addSDES 0 (s_tran s) t p else Inr (0, p)) (\<lambda>(_, p).
            obind (rtcp_transmit udp p t) (\<lambda>(rv, t).
            Inr (rv, (keep_rr rr s)\<lparr>s_rtcpTran := Some t\<rparr>)))))"

definition transmitRTCPBYE :: "(octet list \<Rightarrow> int) \<Rightarrow> NtpTime \<Rightarrow> RtpSession \<Rightarrow> (int \<times> RtpSession) outcome" where
  "transmitRTCPBYE udp now s =
     (case s_rtcpTran s of
        None \<Rightarrow> Inl AssertFailed
      | Some t \<Rightarrow>
          obind (addSR now 0 (s_tran s) (s_rtcpRecv s) new_RtcpPacket) (\<lambda>(_, p, rr).
          obind (if s_tran s \<noteq> None then addSDES_item rtcpSdesCname 0 (s_tran s) t p else Inr (0, p)) (\<lambda>(_, p).
          obind (if s_tran s \<noteq> None then addBYE (Some (cstr ''Program Ended.'')) 0 (s_tran s) p else Inr (0, p))
            (\<lambda>(_, p).
          obind (rtcp_transmit udp p t) (\<lambda>(rv, t).
          Inr (rv, (keep_rr rr s)\<lparr>s_rtcpTran := Some t\<rparr>))))))"

definition receiveRTCP :: "rx \<Rightarrow> (nat \<Rightarrow> NtpTime) \<Rightarrow> RtpSession \<Rightarrow> (int \<times> RtpSession) outcome" where
  "receiveRTCP rx clk s =
     (if \<not> has_rtcpRecv s then Inl NullDeref
      else
        obind (rtcp_getPacket rx new_RtcpPacket) (\<lambda>(len, pkt).
        if \<not> can_receive s then
          Inr (-1, if len > 0 then s\<lparr>sessionError := session_wrongState\<rparr> else s)
        else if len > 0 then
          obind (readRTCP clk pkt (s_rr s)) (\<lambda>(left, rr). Inr (if left = 1 then 1 else 2, s\<lparr>s_rr := rr\<rparr>))
        else Inr (-1, s)))"

text \<open>\<open>clk 0\<close> and \<open>clk 1\<close> are the times of the check and of the report, \<open>rclk\<close> those of reading.\<close>

definition sendDueRTCP :: "(octet list \<Rightarrow> int) \<Rightarrow> int \<Rightarrow> int \<Rightarrow> (nat \<Rightarrow> NtpTime) \<Rightarrow> RtpSession \<Rightarrow> RtpSession outcome" where
  "sendDueRTCP udp RAND_MAX rand clk s =
     (if s_rtcpTran s = None then Inr s
      else
        obind (checkIntervalRTCP RAND_MAX rand (clk 0) s) (\<lambda>(due, s).
        if due \<noteq> 0 then obind (transmitRTCP udp (clk 1) s) (\<lambda>(_, s). Inr s) else Inr s))"

definition processRTCP ::
    "(octet list \<Rightarrow> int) \<Rightarrow> int \<Rightarrow> int \<Rightarrow> (nat \<Rightarrow> NtpTime) \<Rightarrow> rx \<Rightarrow> (nat \<Rightarrow> NtpTime) \<Rightarrow> RtpSession \<Rightarrow> RtpSession outcome" where
  "processRTCP udp RAND_MAX rand clk rx rclk s =
     obind (sendDueRTCP udp RAND_MAX rand clk s) (\<lambda>s.
     if has_rtcpRecv s then obind (receiveRTCP rx rclk s) (\<lambda>(_, s). Inr s) else Inr s)"

section \<open>RTP\<close>

definition session_transmit :: "NtpTime \<Rightarrow> RtpPacket \<Rightarrow> RtpSession \<Rightarrow> (int \<times> RtpPacket \<times> RtpSession) outcome" where
  "session_transmit now pkt s =
     (if \<not> can_send s then Inr (-1, pkt, s\<lparr>sessionError := session_wrongState\<rparr>)
      else
        case s_tran s of
          None \<Rightarrow> Inl AssertFailed
        | Some t \<Rightarrow> obind (transmit now False pkt t) (\<lambda>(rv, pkt, t).
            Inr (rv, pkt, s\<lparr>sessionError := session_success, s_tran := Some t\<rparr>)))"

text \<open>Every eighth packet, counted over all sessions, looks whether a report is due.\<close>

definition session_transmitRaw ::
    "(octet list \<Rightarrow> int) \<Rightarrow> int \<Rightarrow> int \<Rightarrow> (nat \<Rightarrow> NtpTime) \<Rightarrow> octet list \<Rightarrow> int \<Rightarrow> RtpSession \<Rightarrow> (int \<times> int \<times> RtpSession) outcome" where
  "session_transmitRaw udp RAND_MAX rand clk bs pkt_sent s =
     (if \<not> can_send s then Inr (-1, pkt_sent, s\<lparr>sessionError := session_wrongState\<rparr>)
      else
        obind (if pkt_sent mod 8 = 0 then sendDueRTCP udp RAND_MAX rand clk s else Inr s) (\<lambda>s.
        case s_tran s of
          None \<Rightarrow> Inl AssertFailed
        | Some t \<Rightarrow> obind (transmitRaw (clk 2) bs t) (\<lambda>(rv, t).
            Inr (rv, int32 (pkt_sent + 1), s\<lparr>sessionError := session_success, s_tran := Some t\<rparr>))))"

definition notifyVADSuppression ::
    "(octet list \<Rightarrow> int) \<Rightarrow> int \<Rightarrow> int \<Rightarrow> (nat \<Rightarrow> NtpTime) \<Rightarrow> int \<Rightarrow> RtpSession \<Rightarrow> (int \<times> int \<times> RtpSession) outcome" where
  "notifyVADSuppression udp RAND_MAX rand clk pkt_sent s =
     (if \<not> can_send s then Inr (-1, pkt_sent, s\<lparr>sessionError := session_wrongState\<rparr>)
      else
        obind (if pkt_sent mod 8 = 0 then sendDueRTCP udp RAND_MAX rand clk s else Inr s) (\<lambda>s.
        oassert (s_tran s \<noteq> None) (Inr (0, int32 (pkt_sent + 1), s\<lparr>sessionError := session_success\<rparr>))))"

text \<open>
  The payload of a DTMF event: the event number, the octet with edge, reserved bit and volume,
  and the duration in the order of a little-endian machine. \<open>memory\<close> is what the heap holds
  where the packet object is allocated.
\<close>

definition put_event :: "int \<Rightarrow> RtpPacket \<Rightarrow> RtpPacket outcome" where
  "put_event event p =
     obind (mem_write (getPayloadLoc p) [word_of_int event] (packetData p)) (\<lambda>d.
     obind (mem_read (getPayloadLoc p + 1) 1 d) (\<lambda>b.
     obind (mem_write (getPayloadLoc p + 1) [put_field 7 1 0 (put_field 6 1 0 (put_field 0 6 0x0A (b ! 0)))] d) (\<lambda>d.
     obind (mem_write (getPayloadLoc p + 2) (rev (be16 0x00A0)) d) (\<lambda>d. Inr (p\<lparr>packetData := d\<rparr>)))))"

definition put_edge :: "RtpPacket \<Rightarrow> RtpPacket outcome" where
  "put_edge p =
     obind (mem_read (getPayloadLoc p + 1) 1 (packetData p)) (\<lambda>b.
     obind (mem_write (getPayloadLoc p + 1) [put_field 7 1 1 (b ! 0)] (packetData p)) (\<lambda>d.
     Inr (p\<lparr>packetData := d\<rparr>)))"

definition transmitEvent :: "(nat \<Rightarrow> NtpTime) \<Rightarrow> RtpPacket \<Rightarrow> int \<Rightarrow> RtpSession \<Rightarrow> (int \<times> RtpSession) outcome" where
  "transmitEvent clk memory event s =
     (if \<not> can_send s then Inr (-1, s\<lparr>sessionError := session_wrongState\<rparr>)
      else
        case s_tran s of
          None \<Rightarrow> Inl AssertFailed
        | Some t \<Rightarrow>
            obind (createPacket memory 0 0 t) (\<lambda>p.
            obind (setPayloadType rtpPayloadDTMF_RFC2833 p) (\<lambda>p.
            obind (setPayloadUsage 4 p) (\<lambda>p.
            obind (put_event event p) (\<lambda>p.
            obind (transmit (clk 0) True p t) (\<lambda>(_, p, t).
            obind (put_edge p) (\<lambda>p.
            obind (transmit (clk 1) True p t) (\<lambda>(_, p, t).
            obind (setPayloadUsage 0 p) (\<lambda>p.
            obind (transmit (clk 2) True p t) (\<lambda>(_, p, t).
            Inr (0, s\<lparr>sessionError := session_success, s_tran := Some t\<rparr>)))))))))))"

definition session_retrieve :: "RtpPacket \<Rightarrow> RtpSession \<Rightarrow> (int \<times> RtpPacket \<times> RtpSession) outcome" where
  "session_retrieve pkt s =
     (if \<not> has_recv s then Inl NullDeref
      else obind (retrieve pkt (rtp_recv (s_rr s))) (\<lambda>(rv, pkt, r).
        Inr (rv, pkt, s\<lparr>s_rr := (s_rr s)\<lparr>rtp_recv := r\<rparr>\<rparr>)))"

text \<open>The RTP receiver reads one datagram.\<close>

definition read_rtp :: "rx \<Rightarrow> (nat \<Rightarrow> NtpTime) \<Rightarrow> RtpSession \<Rightarrow> RtpSession outcome option" where
  "read_rtp rx clk s =
     map_option (\<lambda>out. obind out (\<lambda>(_, r). Inr (s\<lparr>s_rr := (s_rr s)\<lparr>rtp_recv := r\<rparr>\<rparr>)))
       (readNetwork rx clk (rtp_recv (s_rr s)))"

text \<open>
  \<open>readNetwork\<close> of the session: \<open>fds\<close> is \<open>None\<close> for a null pointer, otherwise it says whether
  the RTCP and the RTP socket are in the set.
\<close>

definition session_readNetwork ::
    "(bool \<times> bool) option \<Rightarrow> rx \<Rightarrow> (nat \<Rightarrow> NtpTime) \<Rightarrow> rx \<Rightarrow> (nat \<Rightarrow> NtpTime) \<Rightarrow> RtpSession \<Rightarrow>
     (int \<times> RtpSession) outcome option" where
  "session_readNetwork fds rtcp_rx rclk rx clk s =
     (if \<not> can_receive s then
        if has_recv s then
          map_option (\<lambda>out. obind out (\<lambda>s. Inr (- EINVAL, s\<lparr>sessionError := session_wrongState\<rparr>)))
            (case fds of
               Some (_, True) \<Rightarrow> read_rtp rx clk s
             | _ \<Rightarrow> Some (Inr s))
        else Some (Inr (- EINVAL, s))
      else
        odo (if has_rtcpRecv s \<and> (case fds of None \<Rightarrow> True | Some (rtcp_set, _) \<Rightarrow> rtcp_set)
             then obind (receiveRTCP rtcp_rx rclk s) (\<lambda>(_, s). Inr s) else Inr s) (\<lambda>s.
        let s = s\<lparr>sessionError := session_success\<rparr> in
        map_option (\<lambda>out. obind out (\<lambda>s. Inr (0, s)))
          (case fds of
             None \<Rightarrow> Some (Inr s)
           | Some (_, rtp_set) \<Rightarrow>
               if \<not> has_recv s then Some (Inl NullDeref)
               else if rtp_set then read_rtp rx clk s else Some (Inr s))))"

section \<open>Set-up\<close>

text \<open>The description a new session gives itself: a canonical name, everything else empty.\<close>

definition session_sdes :: "nat \<Rightarrow> octet list \<Rightarrow> SDESdata \<Rightarrow> SDESdata outcome" where
  "session_sdes pid host info =
     obind (setSdesName [] (setSdesCname pid host info)) (\<lambda>info.
     obind (setSdesEmail [] info) (\<lambda>info.
     obind (setSdesPhone [] info) (\<lambda>info.
     obind (setSdesLoc [] info) (\<lambda>info.
     obind (setSdesTool [] info) (\<lambda>info.
     setSdesNote [] info)))))"

text \<open>
  The description and the state, at the end of \<open>constructRtpSession\<close>; \<open>fresh\<close> is what the memory
  of a new description holds. The links between the objects are part of the representation: the
  list of the RTCP receiver is the one its RTP receiver refers to.
\<close>

definition link_session :: "SDESdata \<Rightarrow> nat \<Rightarrow> octet list \<Rightarrow> RtpSession \<Rightarrow> RtpSession outcome" where
  "link_session fresh pid host s =
     obind (case (s_rtcpTran s, s_tran s) of
              (Some t, Some _) \<Rightarrow>
                let t = setRTPtran fresh t in
                (case tx_SDESInfo t of
                   None \<Rightarrow> Inl NullDeref
                 | Some info \<Rightarrow> obind (session_sdes pid host info) (\<lambda>info.
                     Inr (s\<lparr>s_rtcpTran := Some (t\<lparr>tx_SDESInfo := Some info\<rparr>)\<rparr>)))
            | _ \<Rightarrow> Inr s) (\<lambda>s.
      Inr (s\<lparr>sessionState :=
            (if s_tran s \<noteq> None \<and> has_recv s then rtp_session_sendrecv
             else if s_tran s \<noteq> None then rtp_session_sendonly
             else if has_recv s then rtp_session_recvonly
             else rtp_session_undefined)\<rparr>))"

end
