(* ===== verification/Rtcp_Wire.thy ===== *)
theory Rtcp_Wire
  imports Session_Control
begin

text \<open>
  What the parts of a compound packet look like on the wire, and that the transmitter writes
  exactly that: one lemma per \<open>add\<close> operation, in terms of the octets the packet holds before
  and after. The room that an operation needs is a bound on the octets before.
\<close>

section \<open>Reports\<close>

definition sender_wire :: "NtpTime \<Rightarrow> RtpTransmitter \<Rightarrow> octet list" where
  "sender_wire now t = be32 (tx_ssrc t) @ be32 (seconds now) @ be32 (fractional now) @ be32 (report_rtpTime now t) @
     be32 (word_of_int (packetSent t)) @ be32 (word_of_int (payloadSent t))"

definition report_wire :: "NtpTime \<Rightarrow> RtpReceiver \<Rightarrow> RtpTranInfo \<Rightarrow> octet list" where
  "report_wire now r s = be32 (ssrc r) @ [ucast (fst (calcLostFrac r s))] @
     drop 1 (be32 (calcLostCount r s)) @ be16 (ucast (recv_cycles r)) @ be16 (realPrevSeqRecv r) @
     be32 (word_of_int (jitter r div 16)) @ be32 (lastSRTimestamp s) @ be32 (lastSRDelay now s)"

lemma length_wires [simp]: "length (sender_wire now t) = 24" "length (report_wire now r s) = 24"
  by (simp_all add: sender_wire_def report_wire_def)

text \<open>
  A structure that is being filled in: behind \<open>D\<close>, its first octets are \<open>A\<close> and the remaining
  \<open>n\<close> are still zero.
\<close>

definition filling :: "octet list \<Rightarrow> octet list \<Rightarrow> nat \<Rightarrow> RtcpPacket" where
  "filling D A n = packet_of (D @ A @ replicate n 0) []"

lemma put_filling:
  assumes "k = length A" "length bs \<le> n" "length D + length A + n \<le> 2048"
  shows "put_at (length D + k) bs (filling D A n) = Inr (filling D (A @ bs) (n - length bs))"
proof -
  have "replicate n (0 :: octet) = replicate (length bs) 0 @ replicate (n - length bs) 0"
    using assms by (simp flip: replicate_add)
  then show ?thesis
    using assms put_at_of [where D = D and k = k and bs = bs and T = "[]" and B = "A @ replicate n 0"]
    by (simp add: filling_def flip: replicate_add)
qed

lemma put_filling_first:
  "length bs \<le> n \<Longrightarrow> length D + n \<le> 2048 \<Longrightarrow> put_at (length D) bs (filling D [] n) = Inr (filling D bs (n - length bs))"
  using put_filling [of 0 "[]" bs n D] by simp

lemma allocData_filling:
  "length D + 2 * n \<le> 2048 \<Longrightarrow> allocData (int n) (packet_of D []) = Inr (int n, filling D [] n)"
  by (simp add: allocData_fresh filling_def)

lemma filled: "filling D A 0 = packet_of (D @ A) []"
  by (simp add: filling_def)

lemma addSender_wire:
  assumes "length D + 48 \<le> 2048"
  shows "addSender now (Some t) (packet_of D []) = Inr (24, packet_of (D @ sender_wire now t) [])"
proof -
  have a: "allocData 24 (packet_of D []) = Inr (24, filling D [] 24)"
    using allocData_filling [of D 24] assms by simp
  show ?thesis
    using assms by (simp add: addSender_def packet_of_usage a put_filling put_filling_first filled sender_wire_def Let_def)
qed

lemma octet_of_masked:
  fixes w :: u32
  shows "ucast (w AND 0xff) = (ucast w :: octet)" "ucast (w AND 0xffff) = (ucast w :: octet)"
    "ucast (w AND 0xffffff) = (ucast w :: octet)"
proof -
  have m: "(0xff :: u32) = mask 8" "(0xffff :: u32) = mask 16" "(0xffffff :: u32) = mask 24"
    by (simp_all add: mask_eq_exp_minus_1)
  show "ucast (w AND 0xff) = (ucast w :: octet)" "ucast (w AND 0xffff) = (ucast w :: octet)"
    "ucast (w AND 0xffffff) = (ucast w :: octet)"
    unfolding m by (rule bit_word_eqI; auto simp: bit_simps)+
qed

text \<open>The cumulative loss is stored from its last octet to its first.\<close>

lemma put_reversed:
  assumes "length A = k" "length D + k + n \<le> 2048" "3 \<le> n"
  shows "obind (put_at (length D + (k + 2)) [z] (filling D A n)) (\<lambda>p.
     obind (put_at (length D + (k + 1)) [y] p) (\<lambda>p.
     obind (put_at (length D + k) [x] p) f)) = f (filling D (A @ [x, y, z]) (n - 3))"
proof -
  obtain m where n: "n = 3 + m" using assms(3) le_Suc_ex by blast
  have r: "replicate n (0 :: octet) = [0, 0, 0] @ replicate m 0"
    unfolding n replicate_add by (simp add: eval_nat_numeral)
  have p: "put_at (length D + (k + i)) [v] (packet_of (D @ A @ B @ replicate m 0) []) =
      Inr (packet_of (D @ A @ B[i := v] @ replicate m 0) [])" if "length B = 3" "i < 3" for i v and B :: "octet list"
    using that assms n put_at_of [where D = D and k = "k + i" and bs = "[v]" and T = "[]" and B = "A @ B @ replicate m 0"]
    by (simp add: upd_conv_take_nth_drop)
  show ?thesis
    using p [of "[0, 0, 0]" 2 z] p [of "[0, 0, z]" 1 y] p [of "[0, y, z]" 0 x]
    by (simp add: filling_def r [unfolded n] n)
qed

lemma header_octet_update:
  "put_field 0 5 v (0x80 OR take_bit 5 w) = 0x80 OR take_bit 5 v" for v w :: octet
  by (simp flip: first_octet(1))

lemma rtcp_data_of: "rtcp_data (packet_of D T) = D @ T @ replicate (2048 - length D - length T) 0"
  by (simp add: packet_of_def RTCP_PACKETSIZE_def)

lemma count_header:
  assumes "length H + 4 + length B \<le> 2048"
  shows "obind (header_count (rtcp_data (packet_of (H @ header_wire c type l @ B) [])) (length H)) (\<lambda>n.
      put_bits 0 5 (word_of_nat (n + 1)) (length H) (packet_of (H @ header_wire c type l @ B) [])) =
    Inr (packet_of (H @ header_wire (c mod 32 + 1) type l @ B) [])"
proof -
  have "header_count (rtcp_data (packet_of (H @ header_wire c type l @ B) [])) (length H) = Inr (c mod 32)"
    using header_of_wire(1) [of H c type l "B @ replicate (2048 - (length H + (4 + length B))) 0"]
    by (simp add: rtcp_data_of)
  moreover have "put_bits 0 5 v (length H) (packet_of (H @ header_wire c type l @ B) []) =
      Inr (packet_of (H @ ([0x80 OR take_bit 5 v, rtcp_code type] @ be16 l) @ B) [])" for v
    using assms put_bits_of [where i = 0 and D = H and T = "[]" and B = "header_wire c type l @ B" and k = 0 and n = 5 and v = v]
    by (simp add: header_wire_def header_octet_update)
  ultimately show ?thesis by (simp add: header_wire_def)
qed

text \<open>The receiver after a report about the entry under \<open>src\<close>.\<close>

definition reported :: "u32 \<Rightarrow> RtpTranInfo \<Rightarrow> RtcpReceiver \<Rightarrow> RtcpReceiver" where
  "reported src s rr = set_tranInfoList ((tranInfoList rr)(src \<mapsto> snd (calcLostFrac (rtp_recv rr) s))) rr"

lemma calcLostFrac_entry [simp]:
  "recv_attached (snd (calcLostFrac r s)) = recv_attached s" "tran_ssrc (snd (calcLostFrac r s)) = tran_ssrc s"
  "lastSRTimestamp (snd (calcLostFrac r s)) = lastSRTimestamp s" "SDESInfo (snd (calcLostFrac r s)) = SDESInfo s"
  "calcLostCount r (snd (calcLostFrac r s)) = calcLostCount r s"
  "lastSRDelay now (snd (calcLostFrac r s)) = lastSRDelay now s"
  by (simp_all add: calcLostFrac_def Let_def calcLostCount_def lastSRDelay_def)

lemma addReport_skips:
  assumes "getTranInfoList i rr = Inr (src, s)" "\<not> recv_attached s \<or> probation (rtp_recv rr) < 0"
  shows "addReport header now i (usage, p, rr) = Inr (usage, p, rr)"
  using assms by (auto simp: addReport_def Let_def)

lemma put_report_wire:
  assumes "length D + 24 \<le> 2048"
  shows "put_report (length D) now r s (filling D [] 24) =
    Inr (snd (calcLostFrac r s), packet_of (D @ report_wire now r s) [])"
proof -
  obtain frac s' where f: "calcLostFrac r s = (frac, s')" by fastforce
  then have f': "snd (calcLostFrac r s) = s'" "fst (calcLostFrac r s) = frac" by simp_all
  let ?A = "be32 (ssrc r) @ [ucast frac]"
  have rev: "obind (put_at (length D + 7) [z] (filling D ?A 19)) (\<lambda>p.
     obind (put_at (length D + 6) [y] p) (\<lambda>p.
     obind (put_at (length D + 5) [x] p) g)) = g (filling D (?A @ [x, y, z]) 16)"
    for x y z and g :: "_ \<Rightarrow> (RtpTranInfo \<times> RtcpPacket) outcome"
    using put_reversed [of ?A 5 D 19 z y x g] assms by simp
  have l: "drop (Suc 0) (be32 w) = [ucast (drop_bit 16 w), ucast (drop_bit 8 w), ucast w]" for w
    by (simp add: be32_def)
  show ?thesis
    using assms rev calcLostFrac_entry [where r = r and s = s] f'
    by (simp add: put_report_def f put_filling put_filling_first filled report_wire_def octet_of_masked l)
qed

lemma addReport_wire:
  assumes i: "getTranInfoList i rr = Inr (src, s)" and s: "recv_attached s" "\<not> probation (rtp_recv rr) < 0"
    and room: "length H + length B + 52 \<le> 2048"
  shows "addReport (length H) now i (usage, packet_of (H @ header_wire c type l @ B) [], rr) =
    Inr (usage + 24, packet_of (H @ header_wire (c mod 32 + 1) type l @ B @ report_wire now (rtp_recv rr) s) [], reported src s rr)"
proof -
  let ?D = "H @ header_wire c type l @ B" and ?r = "rtp_recv rr"
  have a: "allocData 24 (packet_of ?D []) = Inr (24, filling ?D [] 24)"
    using allocData_filling [of ?D 24] room by simp
  have w: "put_report (length H + (4 + length B)) now ?r s (filling ?D [] 24) =
      Inr (snd (calcLostFrac ?r s), packet_of (?D @ report_wire now ?r s) [])"
    using put_report_wire [of ?D now ?r s] room by (simp add: algebra_simps)
  have c: "obind (header_count (rtcp_data (packet_of (?D @ report_wire now ?r s) [])) (length H)) (\<lambda>count.
      obind (put_bits 0 5 (word_of_nat (count + 1)) (length H) (packet_of (?D @ report_wire now ?r s) [])) g) =
      g (packet_of (H @ header_wire (c mod 32 + 1) type l @ B @ report_wire now ?r s) [])"
    for g :: "_ \<Rightarrow> (int \<times> RtcpPacket \<times> RtcpReceiver) outcome"
    using count_header [of H "B @ report_wire now ?r s" c type l] room by (simp flip: obind_assoc)
  show ?thesis
    using i s a w c by (simp add: addReport_def packet_of_usage Let_def reported_def)
qed

text \<open>Walking the list of transmitters by index visits every key once.\<close>

lemma tran_keys_set: "set (tran_keys l) = dom l" "distinct (tran_keys l)"
  by (simp_all add: tran_keys_def)

lemma getTranInfoList_nth:
  assumes "i < length (tran_keys (tranInfoList rr))" "tranInfoList rr (tran_keys (tranInfoList rr) ! i) = Some s"
  shows "getTranInfoList (int i) rr = Inr (tran_keys (tranInfoList rr) ! i, s)"
  using assms by (simp add: getTranInfoList_def getTranInfoCount_def)

lemma index_list: "[0..int n - 1] = map int [0..<n]"
proof (induction n)
  case (Suc n)
  have "[0..int (Suc n) - 1] = [0..int n - 1] @ [int n]" using upto_rec2 [of 0 "int n"] by simp
  then show ?case using Suc by simp
qed simp

lemma ofold_append: "ofold f (xs @ ys) s = obind (ofold f xs s) (ofold f ys)"
  by (induction xs arbitrary: s) (auto simp: obind_def split: sum.splits)

lemma ofold_unchanged: "\<forall>x \<in> set xs. f x s = Inr s \<Longrightarrow> ofold f xs s = Inr s"
  by (induction xs) auto

lemma set_tranInfoList_simps [simp]:
  "tranInfoList (set_tranInfoList l rr) = l" "rtp_recv (set_tranInfoList l rr) = (rtp_recv rr)\<lparr>rtcpRecv := Some l\<rparr>"
  by (simp_all add: set_tranInfoList_def tranInfoList_def)

lemma reported_keys:
  "tranInfoList rr src = Some s \<Longrightarrow> tran_keys (tranInfoList (reported src s rr)) = tran_keys (tranInfoList rr)"
  by (simp add: reported_def tran_keys_def insert_absorb domI)

text \<open>
  The current source is the only one that is attached to the receiver, so there is at most one
  report block. \<open>current_entry\<close> is its list entry.
\<close>

definition current_entry :: "RtcpReceiver \<Rightarrow> RtpTranInfo" where
  "current_entry rr = the (tranInfoList rr (ssrc (rtp_recv rr)))"

definition report_blocks :: "NtpTime \<Rightarrow> RtcpReceiver option \<Rightarrow> octet list list" where
  "report_blocks now rr =
     (case rr of
        None \<Rightarrow> []
      | Some rr \<Rightarrow> if sourceSet (rtp_recv rr) then [report_wire now (rtp_recv rr) (current_entry rr)] else [])"

definition after_report :: "RtcpReceiver option \<Rightarrow> RtcpReceiver option" where
  "after_report rr =
     map_option (\<lambda>rr. if sourceSet (rtp_recv rr) then reported (ssrc (rtp_recv rr)) (current_entry rr) rr else rr) rr"

definition rtcp_inv :: "RtcpReceiver \<Rightarrow> bool" where
  "rtcp_inv rr \<longleftrightarrow> tran_inv (rtp_recv rr)"

lemma rtcp_invD:
  assumes "rtcp_inv rr"
  shows "rtcpRecv (rtp_recv rr) = Some (tranInfoList rr)"
    "tranInfoList rr s = Some t \<Longrightarrow> tran_ssrc t = s \<and> (recv_attached t \<longleftrightarrow> sourceSet (rtp_recv rr) \<and> s = ssrc (rtp_recv rr))"
    "sourceSet (rtp_recv rr) \<longleftrightarrow> 0 \<le> probation (rtp_recv rr)"
    "sourceSet (rtp_recv rr) \<Longrightarrow> tranInfoList rr (ssrc (rtp_recv rr)) = Some (current_entry rr)"
  using assms by (auto simp: rtcp_inv_def tran_inv_def tran_ok_def tranInfoList_def current_entry_def)

lemma addReports_silent:
  assumes inv: "rtcp_inv rr" and no: "\<not> sourceSet (rtp_recv rr)"
  shows "addReports h now (usage, p, Some rr) = Inr (usage, p, Some rr)"
proof -
  let ?k = "tran_keys (tranInfoList rr)"
  have "addReport h now (int i) (usage, p, rr) = Inr (usage, p, rr)" if i: "i < length ?k" for i
  proof -
    obtain s where "tranInfoList rr (?k ! i) = Some s"
      using nth_mem [OF i] by (auto simp: tran_keys_set)
    then show ?thesis
      using getTranInfoList_nth [OF i] rtcp_invD(2) [OF inv] no by (intro addReport_skips) auto
  qed
  then show ?thesis
    by (simp add: addReports_def getTranInfoCount_def index_list ofold_map ofold_unchanged)
qed

lemma addReports_current:
  assumes inv: "rtcp_inv rr" and yes: "sourceSet (rtp_recv rr)" and room: "length H + length B + 52 \<le> 2048"
  shows "addReports (length H) now (usage, packet_of (H @ header_wire 0 type l @ B) [], Some rr) =
    Inr (usage + 24, packet_of (H @ header_wire 1 type l @ B @ report_wire now (rtp_recv rr) (current_entry rr)) [],
      Some (reported (ssrc (rtp_recv rr)) (current_entry rr) rr))"
proof -
  let ?k = "tran_keys (tranInfoList rr)" and ?src = "ssrc (rtp_recv rr)" and ?s = "current_entry rr"
  let ?rr = "reported ?src ?s rr"
  have e: "tranInfoList rr ?src = Some ?s" by (rule rtcp_invD(4) [OF inv yes])
  then obtain j where j: "j < length ?k" "?k ! j = ?src"
    by (metis domI in_set_conv_nth tran_keys_set(1))
  have others: "addReport h now (int i) (u, p, r) = Inr (u, p, r)"
    if h: "i < length ?k" "i \<noteq> j" "r = rr \<or> r = ?rr" for i h u p r
  proof -
    have ne: "?k ! i \<noteq> ?src" using h j tran_keys_set(2) nth_eq_iff_index_eq by metis
    obtain s where s: "tranInfoList rr (?k ! i) = Some s"
      using nth_mem [OF h(1)] by (auto simp: tran_keys_set)
    moreover have "tranInfoList r (?k ! i) = Some s" "tran_keys (tranInfoList r) = ?k"
      using h(3) ne s reported_keys [OF e] by (auto simp: reported_def)
    ultimately show ?thesis
      using getTranInfoList_nth [of i r s] h(1) rtcp_invD(2) [OF inv s] ne by (intro addReport_skips) auto
  qed
  have a: "recv_attached ?s" "\<not> probation (rtp_recv rr) < 0"
    using rtcp_invD(2) [OF inv e] rtcp_invD(3) [OF inv] yes by auto
  note this_one = addReport_wire [OF _ a room, of "int j" ?src now usage 0 type l]
  have g: "getTranInfoList (int j) rr = Inr (?src, ?s)" using getTranInfoList_nth [OF j(1)] j(2) e by simp
  have split: "[0..<length ?k] = [0..<j] @ [j] @ [Suc j..<length ?k]"
    using j(1) upt_add_eq_append [of 0 j "length ?k - j"] upt_conv_Cons [of j "length ?k"] by simp
  have b: "ofold (\<lambda>i. addReport h now (int i)) [0..<j] (u, p, rr) = Inr (u, p, rr)" for h u p
    using others j(1) by (intro ofold_unchanged) auto
  have c: "ofold (\<lambda>i. addReport h now (int i)) [Suc j..<length ?k] (u, p, ?rr) = Inr (u, p, ?rr)" for h u p
    using others by (intro ofold_unchanged) auto
  show ?thesis
    using this_one [OF g] by (simp add: addReports_def getTranInfoCount_def index_list ofold_map split ofold_append b c)
qed

definition sr_wire :: "NtpTime \<Rightarrow> RtpTransmitter option \<Rightarrow> RtcpReceiver option \<Rightarrow> octet list" where
  "sr_wire now tran rr =
     (let blocks = report_blocks now rr in
      (case tran of
         Some t \<Rightarrow> header_wire (length blocks) rtcpTypeSR (word_of_nat (6 + 6 * length blocks)) @ sender_wire now t
       | None \<Rightarrow> header_wire (length blocks) rtcpTypeRR (word_of_nat (1 + 6 * length blocks)) @ [0, 0, 0, 0]) @
      concat blocks)"

lemma allocData_zeros:
  "length D + 2 * n \<le> 2048 \<Longrightarrow> allocData (int n) (packet_of D []) = Inr (int n, packet_of (D @ replicate n 0) [])"
  by (simp add: allocData_fresh)

lemma zeros_4: "replicate 4 (0 :: octet) = [0, 0, 0, 0]"
  by (simp add: eval_nat_numeral)

lemma addSender_none:
  assumes "length D + 8 \<le> 2048"
  shows "addSender now None (packet_of D []) = Inr (4, packet_of (D @ [0, 0, 0, 0]) [])"
  using assms allocData_filling [of D 4] put_filling_first [of "[0, 0, 0, 0]" 4 D]
  by (simp add: addSender_def packet_of_usage filled Let_def)

lemma alloc_header:
  assumes "length D + 8 \<le> 2048"
  shows "allocData 4 (packet_of D []) = Inr (4, packet_of (D @ [0, 0, 0, 0]) [])"
  using assms allocData_zeros [of D 4] by (simp add: zeros_4)

lemma addSR_wire:
  assumes inv: "\<forall>r. rr = Some r \<longrightarrow> rtcp_inv r" and room: "length D + 76 \<le> 2048"
  shows "addSR now 0 tran rr (packet_of D []) =
    Inr (int (length (sr_wire now tran rr)), packet_of (D @ sr_wire now tran rr) [], after_report rr)"
proof -
  let ?type = "if tran \<noteq> None then rtcpTypeSR else rtcpTypeRR"
  let ?S = "case tran of Some t \<Rightarrow> sender_wire now t | None \<Rightarrow> [0, 0, 0, 0]"
  have S: "addSender now tran (packet_of (D @ header_wire 0 ?type 0) []) =
      Inr (int (length ?S), packet_of (D @ header_wire 0 ?type 0 @ ?S) [])"
    using room addSender_wire [of "D @ header_wire 0 ?type 0" now] addSender_none [of "D @ header_wire 0 ?type 0" now]
    by (cases tran) simp_all
  have lS: "length ?S \<le> 24" by (cases tran) simp_all
  let ?n = "length (report_blocks now rr)"
  have R: "addReports (length D) now (u, packet_of (D @ header_wire 0 ?type 0 @ ?S) [], rr) =
      Inr (u + 24 * int ?n, packet_of (D @ header_wire ?n ?type 0 @ ?S @ concat (report_blocks now rr)) [], after_report rr)" for u
  proof (cases rr)
    case None
    then show ?thesis by (simp add: addReports_def report_blocks_def after_report_def)
  next
    case (Some r)
    then have r: "rtcp_inv r" using inv by simp
    show ?thesis
    proof (cases "sourceSet (rtp_recv r)")
      case True
      then show ?thesis
        using addReports_current [OF r True, of D ?S now u ?type 0] room lS Some
        by (simp add: report_blocks_def after_report_def)
    next
      case False
      then show ?thesis
        using addReports_silent [OF r False] Some by (simp add: report_blocks_def after_report_def)
    qed
  qed
  have n: "?n \<le> 1" "length (concat (report_blocks now rr)) = 24 * ?n"
    by (auto simp: report_blocks_def split: option.splits)
  have L: "put_length (length D) u (packet_of (D @ header_wire ?n ?type 0 @ ?S @ concat (report_blocks now rr)) []) =
      Inr (packet_of (D @ header_wire ?n ?type (word_of_int (u div 4 - 1)) @ ?S @ concat (report_blocks now rr)) [])" for u
    using put_length_of [of D "?S @ concat (report_blocks now rr)"] room lS n by simp
  have "(4 + int (length ?S) + 24 * int ?n) mod 4 = 0" by (cases tran) simp_all
  moreover have "(4 + int (length ?S) + 24 * int ?n) div 4 - 1 = int (length ?S div 4 + 6 * ?n)"
    by (cases tran) simp_all
  then have "(word_of_int ((4 + int (length ?S) + 24 * int ?n) div 4 - 1) :: u16) =
      word_of_nat (length ?S div 4 + 6 * ?n)"
    by (simp only: of_int_of_nat_eq)
  ultimately show ?thesis
    using room S R L n(2) alloc_header [of D] put_header_of [of D 0 ?type]
    by (cases tran) (simp_all add: addSR_def packet_of_usage Let_def sr_wire_def)
qed

section \<open>Source descriptions\<close>

definition item_wire :: "RtcpSDESType \<Rightarrow> octet list \<Rightarrow> octet list" where
  "item_wire type str = [sdes_code type, word_of_nat (length str)] @ str"

definition sdes_text :: "SDESdata \<Rightarrow> RtcpSDESType \<Rightarrow> octet list" where
  "sdes_text info type = (case getSdes type info of None \<Rightarrow> [] | Some v \<Rightarrow> c_text v)"

definition items_wire :: "SDESdata \<Rightarrow> RtcpSDESType list \<Rightarrow> octet list" where
  "items_wire info ts = concat (map (\<lambda>type. item_wire type (sdes_text info type)) ts)"

text \<open>The arrays of a description: each holds a text that ends and whose length fits its octet.\<close>

definition sdes_array :: "octet list \<Rightarrow> bool" where
  "sdes_array v \<longleftrightarrow> length v = 256 \<and> 0 \<in> set v"

lemma c_text_bound: "sdes_array v \<Longrightarrow> length (c_text v) \<le> 255"
proof -
  assume v: "sdes_array v"
  have "length (c_text v) < length v"
  proof (rule ccontr)
    assume "\<not> length (c_text v) < length v"
    moreover have "length (c_text v) \<le> length v" by (simp add: c_text_def length_takeWhile_le)
    ultimately have "take (length (c_text v)) v = v" by simp
    then show False using take_c_text [of v] c_text_no_zero [of v] v by (simp add: sdes_array_def)
  qed
  then show ?thesis using v by (simp add: sdes_array_def)
qed

definition described :: "SDESdata \<Rightarrow> RtcpSDESType list \<Rightarrow> bool" where
  "described info ts \<longleftrightarrow> (\<forall>type \<in> set ts. \<exists>v. getSdes type info = Some v \<and> sdes_array v)"

lemma addItem_wire:
  assumes v: "getSdes type info = Some v" "sdes_array v" and room: "length D + 2 + 2 * length (c_text v) \<le> 2048" "length D + 4 \<le> 2048"
  shows "addItem info type (usage, packet_of D []) =
    Inr (usage + int (length (item_wire type (c_text v))), packet_of (D @ item_wire type (c_text v)) [])"
proof -
  let ?t = "c_text v"
  have l: "length ?t \<le> 255" by (rule c_text_bound [OF v(2)])
  have a: "allocData 2 (packet_of D []) = Inr (2, packet_of (D @ [0, 0]) [])"
    using allocData_zeros [of D 2] room(2) by (simp add: eval_nat_numeral)
  have "put_at (length D + 2) ?t (packet_of (D @ [0, 0]) []) = Inr (packet_of (D @ [0, 0]) ?t)"
    using put_at_text [of "D @ [0, 0]" ?t] room by simp
  moreover have "put_at (length D + 1) [x] (packet_of (D @ [0, 0]) ?t) = Inr (packet_of (D @ [0, x]) ?t)" for x
    using put_at_of [where D = D and k = 1 and bs = "[x]" and B = "[0, 0]" and T = ?t] room by simp
  moreover have "put_at (length D) [x] (packet_of (D @ [0, y]) ?t) = Inr (packet_of (D @ [x, y]) ?t)" for x y
    using put_at_of [where D = D and k = 0 and bs = "[x]" and B = "[0, y]" and T = ?t] room by simp
  moreover have "octet_at (rtcp_data (packet_of (D @ [x, y]) ?t)) (length D + 1) = Inr y" for x y
    using octet_at_append [of 1 "x # y # ?t @ replicate (2048 - (length D + 2) - length ?t) 0" D]
    by (simp add: rtcp_data_of)
  moreover have "uint (word_of_nat (length ?t) :: octet) = int (length ?t)" using l by (simp add: unsigned_of_nat take_bit_nat_eq_self)
  moreover have "allocData (int (length ?t)) (packet_of (D @ [x, y]) ?t) = Inr (int (length ?t), packet_of (D @ [x, y] @ ?t) [])" for x y
    using allocData_text [of "D @ [x, y]" ?t] room by simp
  moreover have "c_strlen v = Inr (length ?t)" using v(2) by (simp add: sdes_array_def c_strlen_text)
  ultimately show ?thesis
    using v(1) a by (simp add: addItem_def cpy_str_def packet_of_usage item_wire_def take_c_text Let_def)
qed

lemma addItems_wire:
  assumes "described info ts" "rtcpSdesEnd \<notin> set ts" "length D + length (items_wire info ts) + 258 \<le> 2048"
  shows "addItems info (ts @ [rtcpSdesEnd]) (usage, packet_of D []) =
    Inr (usage + int (length (items_wire info ts)), packet_of (D @ items_wire info ts) [])"
  using assms
proof (induction ts arbitrary: D usage)
  case (Cons type ts)
  obtain v where v: "getSdes type info = Some v" "sdes_array v" using Cons.prems(1) by (auto simp: described_def)
  have i: "items_wire info (type # ts) = item_wire type (c_text v) @ items_wire info ts"
    using v by (simp add: items_wire_def sdes_text_def)
  have l: "length (item_wire type (c_text v)) = 2 + length (c_text v)" by (simp add: item_wire_def)
  have "addItem info type (usage, packet_of D []) =
      Inr (usage + int (length (item_wire type (c_text v))), packet_of (D @ item_wire type (c_text v)) [])"
    using Cons.prems(3) c_text_bound [OF v(2)] i l by (intro addItem_wire [OF v]) simp_all
  moreover have "described info ts" "type \<noteq> rtcpSdesEnd" "rtcpSdesEnd \<notin> set ts"
    using Cons.prems by (auto simp: described_def)
  ultimately show ?case
    using Cons.IH [of "D @ item_wire type (c_text v)"] Cons.prems(3) i by simp
qed (simp add: items_wire_def)

text \<open>The zeros that end a part on a multiple of four octets.\<close>

definition padding :: "nat \<Rightarrow> octet list" where
  "padding n = replicate ((4 - n mod 4) mod 4) 0"

lemma length_padding [simp]: "length (padding n) = (4 - n mod 4) mod 4"
  by (simp add: padding_def)

lemma padding_aligned: "(n + length (padding n)) mod 4 = 0" "length (padding n) \<le> 3"
proof -
  have "n mod 4 < 4" by simp
  then consider "n mod 4 = 0" | "n mod 4 = 1" | "n mod 4 = 2" | "n mod 4 = 3" by linarith
  then have "(n mod 4 + (4 - n mod 4) mod 4) mod 4 = 0" by cases simp_all
  then show "(n + length (padding n)) mod 4 = 0" by (simp add: mod_add_left_eq)
  show "length (padding n) \<le> 3" using mod_less_divisor [of 4 "4 - n mod 4"] by simp
qed

lemma padding_shift: "padding (4 + n) = padding n"
  by (simp add: padding_def)

lemma fill_up_wire:
  assumes "usage = int n" "length D + 6 \<le> 2048"
  shows "fill_up (usage, packet_of D []) = Inr (int (n + length (padding n)), packet_of (D @ padding n) [])"
proof (cases "n mod 4 = 0")
  case True
  then have "int (n mod 4) = 0" by simp
  then have "int n mod 4 = 0" unfolding of_nat_mod by simp
  with True assms show ?thesis by (simp add: fill_up_def padding_def)
next
  case False
  let ?k = "4 - n mod 4"
  have k: "n mod 4 < 4" by simp
  have "4 - int n mod 4 = int ?k" using k by (simp add: of_nat_diff zmod_int)
  moreover have "?k < 4" "0 < ?k" using k False by linarith+
  moreover from this have "?k mod 4 = ?k" by (intro mod_less)
  ultimately have m: "int n mod 4 \<noteq> 0" "4 - int n mod 4 = int ?k" "?k mod 4 = ?k" "?k \<le> 3" by linarith+
  have "allocData (int ?k) (packet_of D []) = Inr (int ?k, packet_of (D @ replicate ?k 0) [])"
    using assms m(4) by (intro allocData_zeros) linarith
  with m assms show ?thesis by (simp add: fill_up_def padding_def)
qed

definition sdes_wire :: "u32 \<Rightarrow> SDESdata \<Rightarrow> RtcpSDESType list \<Rightarrow> octet list" where
  "sdes_wire src info ts =
     (let body = be32 src @ items_wire info ts @ [0, 0]; body = body @ padding (length body) in
      header_wire 1 rtcpTypeSDES (word_of_nat (length body div 4)) @ body)"

lemma wire_length_field:
  assumes "n mod 4 = 0"
  shows "(word_of_int (int (4 + n) div 4 - 1) :: u16) = word_of_nat (n div 4)"
proof -
  have "int (4 + n) div 4 - 1 = int (n div 4)" using assms by presburger
  then show ?thesis by (simp only: of_int_of_nat_eq)
qed

lemma addSDES_list_wire:
  assumes info: "tx_SDESInfo t = Some info" "described info ts" "rtcpSdesEnd \<notin> set ts"
    and room: "length D + length (items_wire info ts) + 266 \<le> 2048"
  shows "addSDES_list (ts @ [rtcpSdesEnd]) 0 (Some rt) t (packet_of D []) =
    Inr (int (length (sdes_wire (tx_ssrc rt) info ts)), packet_of (D @ sdes_wire (tx_ssrc rt) info ts) [])"
proof -
  let ?h = "header_wire 1 rtcpTypeSDES 0" and ?I = "items_wire info ts" and ?s = "be32 (tx_ssrc rt)"
  let ?B = "?s @ ?I @ [0, 0]" and ?P = "padding (length (be32 (tx_ssrc rt) @ items_wire info ts @ [0, 0]))"
  have h: "allocData 4 (packet_of D []) = Inr (4, packet_of (D @ [0, 0, 0, 0]) [])"
    "put_header (length D) False 1 rtcpTypeSDES (packet_of (D @ [0, 0, 0, 0]) []) = Inr (packet_of (D @ ?h) [])"
    using alloc_header [of D] put_header_of [of D 1 rtcpTypeSDES] room by simp_all
  have c: "allocData 4 (packet_of (D @ ?h) []) = Inr (4, packet_of (D @ ?h @ [0, 0, 0, 0]) [])"
    "put_at (length D + 4) ?s (packet_of (D @ ?h @ [0, 0, 0, 0]) []) = Inr (packet_of (D @ ?h @ ?s) [])"
    using alloc_header [of "D @ ?h"] put_at_of [where D = "D @ ?h" and k = 0 and bs = ?s and B = "[0, 0, 0, 0]" and T = "[]"] room
    by simp_all
  have i: "addItems info (ts @ [rtcpSdesEnd]) (8, packet_of (D @ ?h @ ?s) []) =
      Inr (8 + int (length ?I), packet_of (D @ ?h @ ?s @ ?I) [])"
    using addItems_wire [OF info(2,3), of "D @ ?h @ ?s" 8] room by simp
  let ?E = "D @ ?h @ ?s @ ?I"
  have e: "allocData 2 (packet_of ?E []) = Inr (2, packet_of (?E @ [0, 0]) [])"
    using allocData_zeros [of ?E 2] room by (simp add: eval_nat_numeral)
  have p: "put_at (length D + (8 + length ?I)) [0] (packet_of (?E @ [0, 0]) []) = Inr (packet_of (?E @ [0, 0]) [])"
    "put_at (length D + (9 + length ?I)) [0] (packet_of (?E @ [0, 0]) []) = Inr (packet_of (?E @ [0, 0]) [])"
    using put_at_of [where D = ?E and k = 0 and bs = "[0]" and B = "[0, 0]" and T = "[]"]
      put_at_of [where D = ?E and k = 1 and bs = "[0]" and B = "[0, 0]" and T = "[]"] room
    by (simp_all add: algebra_simps)
  have f: "fill_up (10 + int (length ?I), packet_of (?E @ [0, 0]) []) =
      Inr (int (4 + length (?B @ ?P)), packet_of (D @ ?h @ ?B @ ?P) [])"
    using fill_up_wire [of "10 + int (length ?I)" "4 + length ?B" "?E @ [0, 0]"] room
    unfolding padding_shift by simp
  have l: "length (?B @ ?P) mod 4 = 0" using padding_aligned(1) [of "length ?B"] by (simp only: length_append)
  have "put_length (length D) (int (4 + length (?B @ ?P))) (packet_of (D @ ?h @ ?B @ ?P) []) =
      Inr (packet_of (D @ header_wire 1 rtcpTypeSDES (word_of_nat (length (?B @ ?P) div 4)) @ ?B @ ?P) [])"
    using put_length_of [of D "?B @ ?P" "int (4 + length (?B @ ?P))" 1 rtcpTypeSDES 0] room padding_aligned(2) [of "length ?B"]
    unfolding wire_length_field [OF l] by simp
  then show ?thesis
    using info(1) h c i e p f by (simp add: addSDES_list_def packet_of_usage Let_def sdes_wire_def algebra_simps)
qed

text \<open>A description that was set through the \<open>setSdes\<close> functions.\<close>

definition sdes_ok :: "SDESdata \<Rightarrow> bool" where
  "sdes_ok info \<longleftrightarrow>
     described info sdes_types \<and> length (c_text (sdes_cname info)) \<le> 147 \<and> length (c_text (sdes_name info)) \<le> 254 \<and>
     length (c_text (sdes_email info)) \<le> 254 \<and> length (c_text (sdes_phone info)) \<le> 255 \<and>
     length (c_text (sdes_loc info)) \<le> 254 \<and> length (c_text (sdes_tool info)) \<le> 254 \<and> length (c_text (sdes_note info)) \<le> 254"

definition known_types :: "SDESdata \<Rightarrow> RtcpSDESType list" where
  "known_types info = filter (\<lambda>type. sdes_text info type \<noteq> []) sdes_types"

lemma known_items_types:
  assumes "described info ts"
  shows "known_items info ts = Inr (filter (\<lambda>type. sdes_text info type \<noteq> []) ts @ [rtcpSdesEnd])"
  using assms
proof (induction ts)
  case (Cons type ts)
  then obtain v where v: "getSdes type info = Some v" "sdes_array v" by (auto simp: described_def)
  then have "c_strlen v = Inr (length (sdes_text info type))"
    by (simp add: sdes_array_def c_strlen_text sdes_text_def)
  moreover have "described info ts" using Cons.prems by (simp add: described_def)
  ultimately show ?case using Cons.IH v(1) by simp
qed simp

lemma known_types_ok:
  assumes "sdes_ok info"
  shows "described info (known_types info)" "rtcpSdesEnd \<notin> set (known_types info)"
    "length (items_wire info (known_types info)) \<le> 1686"
proof -
  show "described info (known_types info)"
    using assms by (auto simp: sdes_ok_def described_def known_types_def)
  show "rtcpSdesEnd \<notin> set (known_types info)" by (auto simp: known_types_def sdes_types_def)
  have f: "length (items_wire info (filter P ts)) \<le> length (items_wire info ts)" for P ts
    by (induction ts) (auto simp: items_wire_def)
  have "length (items_wire info sdes_types) \<le> 1686"
    using assms by (simp add: items_wire_def item_wire_def sdes_types_def sdes_text_def sdes_ok_def)
  with f [of _ sdes_types] show "length (items_wire info (known_types info)) \<le> 1686"
    unfolding known_types_def using order_trans by blast
qed

lemma addSDES_wire:
  assumes "tx_SDESInfo t = Some info" "sdes_ok info" "length D \<le> 96"
  shows "addSDES 0 (Some rt) t (packet_of D []) =
    Inr (int (length (sdes_wire (tx_ssrc rt) info (known_types info))),
      packet_of (D @ sdes_wire (tx_ssrc rt) info (known_types info)) [])"
  using assms known_types_ok [OF assms(2)] addSDES_list_wire [OF assms(1), of "known_types info" D rt]
    known_items_types [of info sdes_types]
  by (simp add: addSDES_def sdes_ok_def known_types_def)

lemma addSDES_item_wire:
  assumes "tx_SDESInfo t = Some info" "sdes_ok info" "length D \<le> 96"
  shows "addSDES_item rtcpSdesCname 0 (Some rt) t (packet_of D []) =
    Inr (int (length (sdes_wire (tx_ssrc rt) info [rtcpSdesCname])),
      packet_of (D @ sdes_wire (tx_ssrc rt) info [rtcpSdesCname]) [])"
  using assms addSDES_list_wire [OF assms(1), of "[rtcpSdesCname]" D rt]
  by (simp add: addSDES_item_def sdes_ok_def described_def sdes_types_def items_wire_def item_wire_def sdes_text_def)

section \<open>Leaving\<close>

definition bye_wire :: "u32 \<Rightarrow> octet list \<Rightarrow> octet list" where
  "bye_wire src reason =
     (let body = be32 src @ [word_of_nat (length reason)] @ reason; body = body @ padding (length body) in
      header_wire 1 rtcpTypeBYE (word_of_nat (length body div 4)) @ body)"

lemma addReason_wire:
  assumes "length reason \<le> 255" "length D + 1 + 2 * length reason \<le> 2048" "length D + 2 \<le> 2048"
  shows "addReason (Some reason) (usage, packet_of D []) =
    Inr (usage + 1 + int (length reason), packet_of (D @ [word_of_nat (length reason)] @ reason) [])"
proof -
  let ?l = "word_of_nat (length reason) :: octet"
  have "allocData 1 (packet_of D []) = Inr (1, packet_of (D @ [0]) [])"
    using allocData_zeros [of D 1] assms(3) by simp
  moreover have "put_at (length D) [?l] (packet_of (D @ [0]) []) = Inr (packet_of (D @ [?l]) [])"
    using put_at_of [where D = D and k = 0 and bs = "[?l]" and B = "[0]" and T = "[]"] assms(3) by simp
  moreover have "octet_at (rtcp_data (packet_of (D @ [?l]) [])) (length D) = Inr ?l"
    using octet_at_append [of 0 "?l # replicate (2048 - (length D + 1)) 0" D] by (simp add: rtcp_data_of)
  moreover have u: "unat ?l = length reason" "uint ?l = int (length reason)"
    using assms(1) by (simp_all add: unsigned_of_nat take_bit_nat_eq_self)
  moreover have "put_at (length D + 1) reason (packet_of (D @ [?l]) []) = Inr (packet_of (D @ [?l]) reason)"
    using put_at_text [of "D @ [?l]" reason] assms by simp
  moreover have "allocData (int (length reason)) (packet_of (D @ [?l]) reason) =
      Inr (int (length reason), packet_of (D @ [?l] @ reason) [])"
    using allocData_text [of "D @ [?l]" reason] assms by simp
  ultimately show ?thesis by (simp add: addReason_def packet_of_usage Let_def)
qed

lemma addBYE_wire:
  assumes "length reason \<le> 255" "length D + 600 \<le> 2048"
  shows "addBYE (Some reason) 0 (Some rt) (packet_of D []) =
    Inr (int (length (bye_wire (tx_ssrc rt) reason)), packet_of (D @ bye_wire (tx_ssrc rt) reason) [])"
proof -
  let ?h = "header_wire 1 rtcpTypeBYE 0" and ?s = "be32 (tx_ssrc rt)" and ?R = "[word_of_nat (length reason)] @ reason"
  let ?B = "?s @ ?R"
  let ?P = "padding (length (be32 (tx_ssrc rt) @ [word_of_nat (length reason)] @ reason))"
  have h: "allocData 4 (packet_of D []) = Inr (4, packet_of (D @ [0, 0, 0, 0]) [])"
    "put_header (length D) False 1 rtcpTypeBYE (packet_of (D @ [0, 0, 0, 0]) []) = Inr (packet_of (D @ ?h) [])"
    using alloc_header [of D] put_header_of [of D 1 rtcpTypeBYE] assms by simp_all
  have c: "allocData 4 (packet_of (D @ ?h) []) = Inr (4, packet_of (D @ ?h @ [0, 0, 0, 0]) [])"
    "put_at (length D + 4) ?s (packet_of (D @ ?h @ [0, 0, 0, 0]) []) = Inr (packet_of (D @ ?h @ ?s) [])"
    using alloc_header [of "D @ ?h"] put_at_of [where D = "D @ ?h" and k = 0 and bs = ?s and B = "[0, 0, 0, 0]" and T = "[]"] assms
    by simp_all
  have r: "addReason (Some reason) (8, packet_of (D @ ?h @ ?s) []) =
      Inr (9 + int (length reason), packet_of (D @ ?h @ ?B) [])"
    using addReason_wire [of reason "D @ ?h @ ?s" 8] assms by simp
  have f: "fill_up (9 + int (length reason), packet_of (D @ ?h @ ?B) []) =
      Inr (int (4 + length (?B @ ?P)), packet_of (D @ ?h @ ?B @ ?P) [])"
    using fill_up_wire [of "9 + int (length reason)" "4 + length ?B" "D @ ?h @ ?B"] assms
    unfolding padding_shift by simp
  have l: "length (?B @ ?P) mod 4 = 0" using padding_aligned(1) [of "length ?B"] by (simp only: length_append)
  have "put_length (length D) (int (4 + length (?B @ ?P))) (packet_of (D @ ?h @ ?B @ ?P) []) =
      Inr (packet_of (D @ header_wire 1 rtcpTypeBYE (word_of_nat (length (?B @ ?P) div 4)) @ ?B @ ?P) [])"
    using put_length_of [of D "?B @ ?P" "int (4 + length (?B @ ?P))" 1 rtcpTypeBYE 0] assms padding_aligned(2) [of "length ?B"]
    unfolding wire_length_field [OF l] by simp
  then show ?thesis
    using h c r f by (simp add: addBYE_def addBYE_list_def packet_of_usage Let_def bye_wire_def algebra_simps)
qed

section \<open>Compound packets\<close>

lemma length_sr_wire: "length (sr_wire now tran rr) \<le> 52" "length (sr_wire now tran rr) mod 4 = 0"
proof -
  have "length (concat (report_blocks now rr)) = 24 * length (report_blocks now rr)" "length (report_blocks now rr) \<le> 1"
    by (auto simp: report_blocks_def split: option.splits)
  then show "length (sr_wire now tran rr) \<le> 52" "length (sr_wire now tran rr) mod 4 = 0"
    by (cases tran; simp add: sr_wire_def Let_def; presburger)+
qed

lemma rtcp_transmit_of:
  "length D \<le> 2048 \<Longrightarrow> rtcp_transmit udp (packet_of D []) t =
    Inr (udp D, t\<lparr>rtcp_queued := rtcp_queued t @ [(D, rtcp_remoteAddr t)]\<rparr>)"
  by (simp add: rtcp_transmit_def packet_of_usage mem_read_def rtcp_data_of)

end
