(* ===== verification/Rtcp_Exchange.thy ===== *)
theory Rtcp_Exchange
  imports Rtcp_Wire
begin

text \<open>
  A compound packet from its transmitter to its receiver. A packet that consists of well-formed
  parts passes the checks of the receiver, and each part is read in turn; what the parts of
  this transmitter do to the list of the receiver is stated per part and then put together.
\<close>

section \<open>Walking the parts\<close>

definition part_ok :: "octet list \<Rightarrow> bool" where
  "part_ok c \<longleftrightarrow> (\<exists>count type len body. c = header_wire count type len @ body \<and> length c = 4 * (unat len + 1))"

lemma part_ok_length: "part_ok c \<Longrightarrow> 0 < length c" "part_ok c \<Longrightarrow> length c mod 4 = 0"
  unfolding part_ok_def by (elim exE conjE; simp only: mult.commute mult_Suc_right mod_mult_self2_is_0; simp)+

lemma header_walk_parts:
  assumes "\<forall>c \<in> set cs. part_ok c"
  shows "header_walk (D @ concat cs @ Z) (length D) (length D + length (concat cs)) = Inr (length D + length (concat cs))"
  using assms
proof (induction cs arbitrary: D)
  case Nil
  then show ?case by (simp add: header_walk.simps)
next
  case (Cons c cs)
  then obtain count type len body where c: "c = header_wire count type len @ body" "length c = 4 * (unat len + 1)"
    by (auto simp: part_ok_def)
  have h: "header_version (D @ concat (c # cs) @ Z) (length D) = Inr 2"
    "header_length (D @ concat (c # cs) @ Z) (length D) = Inr (unat len)"
    using header_of_wire(3,5) [of D count type len "body @ concat cs @ Z"] c(1) by simp_all
  have "header_walk (D @ concat (c # cs) @ Z) (length D + length c) (length D + length (concat (c # cs))) =
      Inr (length D + length (concat (c # cs)))"
    using Cons.IH [of "D @ c"] Cons.prems by (simp add: add.assoc)
  moreover have "length D + (unat len + 1) * 4 = length D + length c" using c(2) by simp
  moreover have "4 \<le> length (concat (c # cs))" using c(1) by simp
  ultimately show ?case
    using h by (subst header_walk.simps) (simp add: RTP_VERSION_def)
qed

lemma readParts_part:
  assumes c: "part_ok c" and e: "length D < e"
  shows "readParts clk (D @ c @ Z) (length D) e rv rr =
    obind (readPart (clk (length D)) (D @ c @ Z) (length D) rv rr) (\<lambda>(rv, rr).
      readParts clk ((D @ c) @ Z) (length (D @ c)) e rv rr)"
proof -
  obtain count type len body where h: "c = header_wire count type len @ body" "length c = 4 * (unat len + 1)"
    using c by (auto simp: part_ok_def)
  have "header_length (D @ c @ Z) (length D) = Inr (unat len)"
    using header_of_wire(5) [of D count type len "body @ Z"] h(1) by simp
  moreover have "length D + (unat len + 1) * 4 = length (D @ c)" using h(2) by simp
  ultimately show ?thesis using e by (subst readParts.simps) (simp add: split_def)
qed

lemma readParts_end: "e \<le> b \<Longrightarrow> readParts clk d b e rv rr = Inr (rv, rr)"
  by (subst readParts.simps) simp

text \<open>A datagram of well-formed parts that starts with a report is accepted.\<close>

lemma getPacket_parts:
  assumes parts: "\<forall>c \<in> set cs. part_ok c" and first: "cs = (header_wire count type len @ body) # cs'"
    and type: "type \<in> {rtcpTypeSR, rtcpTypeRR}" and l: "length (concat cs) \<le> 2048"
  shows "rtcp_getPacket (Received (concat cs)) new_RtcpPacket = Inr (int (length (concat cs)), packet_of (concat cs) [])"
proof -
  let ?w = "concat cs" and ?Z = "replicate (2048 - length (concat cs)) (0 :: octet)"
  have "rtcp_receiveFrom (Received ?w) new_RtcpPacket = Inr (int (length ?w), packet_of [] ?w)"
    using put_at_text [of "[]" ?w] l unfolding rtcp_receiveFrom_def new_RtcpPacket_of
    by (simp add: Let_def) (simp add: packet_of_def RTCP_PACKETSIZE_def)
  moreover have "rtcp_setTotalUsage (int (length ?w)) (packet_of [] ?w) = Inr (packet_of ?w [])"
    using l by (simp add: rtcp_setTotalUsage_def packet_of_def RTCP_PACKETSIZE_def)
  moreover have d: "rtcp_data (packet_of ?w []) = ?w @ ?Z" by (simp add: rtcp_data_of)
  have "header_type (?w @ ?Z) 0 = Inr (rtcp_code type)" "header_padding (?w @ ?Z) 0 = Inr False"
    using header_of_wire(2,4) [of "[]" count type len "body @ concat cs' @ ?Z"] first by simp_all
  moreover have "header_walk (?w @ ?Z) 0 (length ?w) = Inr (length ?w)"
    using header_walk_parts [OF parts, of "[]" ?Z] by simp
  ultimately have "rtcp_isValid (packet_of ?w []) = Inr True"
    using d type by (auto simp: rtcp_isValid_def packet_of_usage Let_def)
  moreover have "0 < length ?w" using first by simp
  ultimately show ?thesis
    using \<open>rtcp_receiveFrom (Received ?w) new_RtcpPacket = _\<close> \<open>rtcp_setTotalUsage _ _ = _\<close>
    by (auto simp: rtcp_getPacket_def)
qed

section \<open>Entries of the transmitter list\<close>

definition entry :: "u32 \<Rightarrow> RtcpReceiver \<Rightarrow> RtpTranInfo" where
  "entry src rr = (case tranInfoList rr src of None \<Rightarrow> new_RtpTranInfo src False | Some s \<Rightarrow> s)"

definition upd :: "u32 \<Rightarrow> (RtpTranInfo \<Rightarrow> RtpTranInfo) \<Rightarrow> RtcpReceiver \<Rightarrow> RtcpReceiver" where
  "upd src f rr = set_tranInfoList ((tranInfoList rr)(src \<mapsto> f (entry src rr))) rr"

lemma entry_known: "tranInfoList rr src = Some s \<Longrightarrow> entry src rr = s"
  by (simp add: entry_def)

lemma upd_simps [simp]:
  "entry src (upd src f rr) = f (entry src rr)" "tranInfoList (upd src f rr) src = Some (f (entry src rr))"
  "tranInfoList (upd src f rr) = (tranInfoList rr)(src \<mapsto> f (entry src rr))"
  by (simp_all add: entry_def upd_def)

lemma set_tranInfoList_twice [simp]: "set_tranInfoList l (set_tranInfoList l' rr) = set_tranInfoList l rr"
  by (simp add: set_tranInfoList_def)

lemma upd_upd [simp]: "upd src g (upd src f rr) = upd src (g \<circ> f) rr"
  by (simp add: upd_def entry_def)

lemma with_tranInfo_upd:
  assumes "f (entry src rr) = Inr (g (entry src rr))"
  shows "with_tranInfo src f rr = Inr (upd src g rr)"
proof (cases "tranInfoList rr src")
  case None
  then have "findTranInfo src (tranInfoList rr) =
      Inr (Some (new_RtpTranInfo src False), (tranInfoList rr)(src \<mapsto> new_RtpTranInfo src False))"
    by (simp add: findTranInfo_def addTranInfo_def addTranFinal_def)
  with None assms show ?thesis by (simp add: with_tranInfo_def upd_def entry_def)
next
  case (Some s)
  with assms show ?thesis by (simp add: with_tranInfo_def findTranInfo_def upd_def entry_def)
qed

lemma upd_inv:
  assumes "rtcp_inv rr" "\<And>s. tran_ssrc (f s) = tran_ssrc s \<and> recv_attached (f s) = recv_attached s"
  shows "rtcp_inv (upd src f rr)"
proof -
  have e: "tran_ssrc (entry src rr) = src"
    "recv_attached (entry src rr) \<longleftrightarrow> sourceSet (rtp_recv rr) \<and> src = ssrc (rtp_recv rr)"
    using rtcp_invD(2,4) [OF assms(1)] by (auto simp: entry_def split: option.splits)
  show ?thesis
    using assms e by (auto simp: rtcp_inv_def tran_inv_def tran_ok_def upd_def tranInfoList_def set_tranInfoList_def)
qed

section \<open>Reports are read\<close>

lemma u32_at_be32 [simp]: "u32_at (be32 w @ B) 0 = Inr w"
  by (simp add: u32_at_def mem_read_def be32_def)

lemma u32_at_skip: "length A \<le> k \<Longrightarrow> u32_at (A @ B) k = u32_at B (k - length A)"
  using u32_at_behind [of A B "k - length A"] by simp

lemma u32_at_behind_left [simp]: "u32_at (D @ B) (k + length D) = u32_at B k"
  using u32_at_behind [of D B k] by (simp add: add.commute)

text \<open>The counters of a receiver that has read fewer than \<open>2 ^ 31 - 1\<close> reports.\<close>

definition counting :: "RtcpReceiver \<Rightarrow> bool" where
  "counting rr \<longleftrightarrow> 0 \<le> rtcp_packetReceived rr \<and> rtcp_packetReceived rr < 2 ^ 31 - 1"

lemma counting_step: "counting rr \<Longrightarrow> int32 (rtcp_packetReceived rr + 1) = rtcp_packetReceived rr + 1"
  by (rule int32_self) (auto simp: counting_def)

text \<open>What the sender part of a report leaves: the time it carries, the time it arrived, and the
  delay between them.\<close>

definition sr_stamp :: "NtpTime \<Rightarrow> u32" where
  "sr_stamp t = push_bit 16 (seconds t) OR (drop_bit 16 (fractional t) AND 0xFFFF)"

definition note_sender :: "NtpTime \<Rightarrow> NtpTime \<Rightarrow> u32 \<Rightarrow> RtcpReceiver \<Rightarrow> RtcpReceiver" where
  "note_sender sent now src rr =
     (let rr = upd src (\<lambda>s. s\<lparr>lastSRTimestamp := sr_stamp sent, recvLastSRTimestamp := now\<rparr>) rr;
          n = rtcp_packetReceived rr + 1;
          total = int32 (accumOneWayDelay rr + ms_difference (getMs now) (getMs sent))
      in rr\<lparr>rtcp_packetReceived := n, accumOneWayDelay := total, avgOneWayDelay := c_div total n\<rparr>)"

lemma counters_upd [simp]:
  "rtcp_packetReceived (upd src f rr) = rtcp_packetReceived rr" "accumOneWayDelay (upd src f rr) = accumOneWayDelay rr"
  "accumRoundTripDelay (upd src f rr) = accumRoundTripDelay rr" "avgRoundTripDelay (upd src f rr) = avgRoundTripDelay rr"
  "avgOneWayDelay (upd src f rr) = avgOneWayDelay rr"
  by (simp_all add: upd_def set_tranInfoList_def)

lemma readSender_wire:
  assumes "counting rr"
  shows "readSender now (D @ header_wire c type len @ sender_wire sent t @ Z) (length D) rr =
    Inr (length D + 28, note_sender sent now (tx_ssrc t) rr)"
proof -
  let ?d = "D @ header_wire c type len @ sender_wire sent t @ Z"
  have "u32_at ?d (length D + 4) = Inr (tx_ssrc t)" "u32_at ?d (length D + 8) = Inr (seconds sent)"
    "u32_at ?d (length D + 12) = Inr (fractional sent)"
    by (simp_all add: u32_at_skip sender_wire_def)
  moreover have "with_tranInfo src (\<lambda>s. Inr (f s)) rr = Inr (upd src f rr)" for src f
    by (rule with_tranInfo_upd) simp
  moreover have "rtcp_packetReceived rr + 1 \<noteq> 0" using assms by (simp add: counting_def)
  ultimately show ?thesis
    using counting_step [OF assms] assms
    by (simp add: readSender_def Let_def note_sender_def sr_stamp_def)
qed

lemma readPart_SR:
  assumes "counting rr" "part = header_wire c rtcpTypeSR len @ sender_wire sent t @ B" "c < 32"
  shows "readPart now (D @ part @ Z) (length D) rv rr =
    obind (readReports now (D @ part @ Z) c (length D + 28) (note_sender sent now (tx_ssrc t) rr)) (\<lambda>rr. Inr (rv, rr))"
  using assms header_of_wire(1,4) [of D c rtcpTypeSR len "sender_wire sent t @ B @ Z"]
    readSender_wire [OF assms(1), of now D c rtcpTypeSR len sent t "B @ Z"]
  by (simp add: readPart_def readSR_def)

text \<open>A report block: the measured round-trip delay is the time since the report was sent, less
  the time the other side took to answer, both cut to 1/65536 of a second.\<close>

definition short_ms :: "u32 \<Rightarrow> u64" where
  "short_ms w = getMs (NtpTime (drop_bit 16 w AND 0xFFFF) (push_bit 16 w))"

definition round_trip :: "NtpTime \<Rightarrow> u32 \<Rightarrow> u32 \<Rightarrow> int" where
  "round_trip now lsr dlsr =
     int32 (ms_difference (getMs (NtpTime (seconds now AND 0xFFFF) (fractional now AND 0xFFFF0000))) (short_ms lsr) - uint (dlsr div 65))"

definition note_round_trip :: "NtpTime \<Rightarrow> u32 \<Rightarrow> u32 \<Rightarrow> RtcpReceiver \<Rightarrow> RtcpReceiver" where
  "note_round_trip now lsr dlsr rr =
     (if short_ms lsr = 0 then rr
      else
        let total = int32 (accumRoundTripDelay rr + round_trip now lsr dlsr) in
        rr\<lparr>accumRoundTripDelay := total, avgRoundTripDelay := c_div total (rtcp_packetReceived rr)\<rparr>)"

lemma readReport_wire:
  assumes "rtcp_packetReceived rr \<noteq> 0"
  shows "readReport now (D @ report_wire sent r s @ Z) (length D) rr =
    Inr (note_round_trip now (lastSRTimestamp s) (lastSRDelay sent s) rr)"
proof -
  let ?d = "D @ report_wire sent r s @ Z"
  obtain A where A: "report_wire sent r s = A @ be32 (lastSRTimestamp s) @ be32 (lastSRDelay sent s)" "length A = 16"
    by (simp add: report_wire_def)
  have "u32_at ?d (length D + 16) = Inr (lastSRTimestamp s)" "u32_at ?d (length D + 20) = Inr (lastSRDelay sent s)"
    using A(2) unfolding A(1) by (simp_all add: u32_at_skip)
  then show ?thesis
    using assms by (simp add: readReport_def Let_def note_round_trip_def round_trip_def short_ms_def)
qed

section \<open>Source descriptions are read\<close>

fun set_sdes :: "RtcpSDESType \<Rightarrow> octet list \<Rightarrow> SDESdata \<Rightarrow> SDESdata" where
  "set_sdes rtcpSdesCname v s = s\<lparr>sdes_cname := v\<rparr>"
| "set_sdes rtcpSdesName v s = s\<lparr>sdes_name := v\<rparr>"
| "set_sdes rtcpSdesEmail v s = s\<lparr>sdes_email := v\<rparr>"
| "set_sdes rtcpSdesPhone v s = s\<lparr>sdes_phone := v\<rparr>"
| "set_sdes rtcpSdesLoc v s = s\<lparr>sdes_loc := v\<rparr>"
| "set_sdes rtcpSdesTool v s = s\<lparr>sdes_tool := v\<rparr>"
| "set_sdes rtcpSdesNote v s = s\<lparr>sdes_note := v\<rparr>"
| "set_sdes rtcpSdesPriv v s = s"
| "set_sdes rtcpSdesEnd v s = s"

definition sdes_item :: "RtcpSDESType \<Rightarrow> SDESdata \<Rightarrow> octet list" where
  "sdes_item type s = the (getSdes type s)"

lemma sdes_item_set:
  assumes "type \<in> set sdes_types"
  shows "sdes_item type (set_sdes type v s) = v" "u \<noteq> type \<Longrightarrow> sdes_item u (set_sdes type v s) = sdes_item u s"
  using assms by (auto simp: sdes_item_def sdes_types_def) (cases u; simp)+

lemma sdes_store_type:
  "type \<in> set sdes_types \<Longrightarrow> sdes_store (sdes_code type) f s = obind (f (sdes_item type s)) (\<lambda>v. Inr (set_sdes type v s))"
  by (cases type) (simp_all add: sdes_store_def sdes_item_def sdes_types_def)

text \<open>
  \<open>strncpy\<close> with one character more than the text has: the octet behind the text is stored too.
\<close>

definition overwrite :: "octet list \<Rightarrow> octet \<Rightarrow> octet list \<Rightarrow> octet list" where
  "overwrite str x dest = str @ [x] @ drop (length str + 1) dest"

lemma c_strncpy_one_more:
  assumes "0 \<notin> set str" "length str < length dest"
  shows "c_strncpy (D @ str @ x # Z) (length D) (length str + 1) dest = Inr (overwrite str x dest)"
proof -
  have "take (length str + 1) (drop (length D) (D @ str @ x # Z)) = str @ [x]" by simp
  moreover have "c_text (str @ [x]) = (if x = 0 then str else str @ [x])"
    using assms(1) by (induction str) (auto simp: c_text_def)
  ultimately show ?thesis
    using assms(2) by (simp add: c_strncpy_def Let_def mem_write_def overwrite_def)
qed

text \<open>The description after the items \<open>ts\<close> of a description \<open>info\<close> were read into it.\<close>

fun next_code :: "RtcpSDESType list \<Rightarrow> octet" where
  "next_code [] = 0"
| "next_code (type # ts) = sdes_code type"

fun store_items :: "SDESdata \<Rightarrow> RtcpSDESType list \<Rightarrow> SDESdata \<Rightarrow> SDESdata" where
  "store_items info [] s = s"
| "store_items info (type # ts) s =
     store_items info ts (set_sdes type (overwrite (sdes_text info type) (next_code ts) (sdes_item type s)) s)"

lemma items_wire_Cons: "items_wire info (type # ts) = item_wire type (sdes_text info type) @ items_wire info ts"
  by (simp add: items_wire_def)

lemma next_octet: "\<exists>B. items_wire info ts @ 0 # Z = next_code ts # B"
  by (cases ts) (simp_all add: items_wire_def item_wire_def)

definition sdes_sizes :: "SDESdata \<Rightarrow> bool" where
  "sdes_sizes s \<longleftrightarrow> (\<forall>type \<in> set sdes_types. length (sdes_item type s) = 256)"

lemma sdes_sizes_blank: "sdes_sizes blank_SDES"
  by (simp add: sdes_sizes_def sdes_types_def sdes_item_def blank_SDES_def)

lemma overwrite_size: "length str < length dest \<Longrightarrow> length (overwrite str x dest) = length dest"
  by (simp add: overwrite_def)

lemma sdes_sizes_set:
  assumes "sdes_sizes s" "type \<in> set sdes_types" "length v = 256"
  shows "sdes_sizes (set_sdes type v s)"
proof -
  have "length (sdes_item u (set_sdes type v s)) = 256" if "u \<in> set sdes_types" for u
    using assms that sdes_item_set [OF assms(2)] by (cases "u = type") (auto simp: sdes_sizes_def)
  then show ?thesis by (simp add: sdes_sizes_def)
qed

lemma described_text:
  assumes "described info ts" "type \<in> set ts"
  shows "length (sdes_text info type) \<le> 255" "0 \<notin> set (sdes_text info type)"
  using assms c_text_bound c_text_no_zero by (auto simp: described_def sdes_text_def)

lemma addSDESItem_wire:
  assumes s: "tranInfoList rr src = Some s" "sdes_sizes (SDESInfo s)"
    and type: "type \<in> set sdes_types" and str: "length str \<le> 255" "0 \<notin> set str"
  shows "addSDESItem (D @ item_wire type str @ x # Z) src (length D) rr =
    Inr (upd src (\<lambda>s. s\<lparr>SDESInfo := set_sdes type (overwrite str x (sdes_item type (SDESInfo s))) (SDESInfo s)\<rparr>) rr)"
proof -
  let ?d = "D @ item_wire type str @ x # Z"
  have o: "octet_at ?d (length D) = Inr (sdes_code type)" "octet_at ?d (length D + 1) = Inr (word_of_nat (length str))"
    using octet_at_append [of 0 "item_wire type str @ x # Z" D] octet_at_append [of 1 "item_wire type str @ x # Z" D]
    by (simp_all add: item_wire_def)
  have u: "unat (word_of_nat (length str) :: octet) = length str"
    using str(1) by (simp add: unsigned_of_nat take_bit_nat_eq_self)
  have e: "entry src rr = s" using s(1) by (rule entry_known)
  have "length (sdes_item type (SDESInfo s)) = 256" using s(2) type by (simp add: sdes_sizes_def)
  then have "c_strncpy ?d (length D + 2) (length str + 1) (sdes_item type (SDESInfo s)) =
      Inr (overwrite str x (sdes_item type (SDESInfo s)))"
    using c_strncpy_one_more [OF str(2), of "sdes_item type (SDESInfo s)" "D @ [sdes_code type, word_of_nat (length str)]" x Z] str(1)
    by (simp add: item_wire_def)
  then show ?thesis
    unfolding addSDESItem_def using o u e sdes_store_type [OF type]
    by (intro with_tranInfo_upd) simp
qed

lemma readItems_wire:
  assumes "described info ts" "set ts \<subseteq> set sdes_types" "tranInfoList rr src = Some s" "sdes_sizes (SDESInfo s)"
  shows "readItems (D @ items_wire info ts @ 0 # Z) src (length D) rr =
    Inr (length D + length (items_wire info ts), upd src (\<lambda>s. s\<lparr>SDESInfo := store_items info ts (SDESInfo s)\<rparr>) rr)"
  using assms
proof (induction ts arbitrary: D rr s)
  case Nil
  have "upd src (\<lambda>s. s) rr = set_tranInfoList (tranInfoList rr) rr"
    using Nil(3) by (simp add: upd_def entry_def fun_upd_idem)
  moreover have "rtcpRecv (rtp_recv rr) = Some (tranInfoList rr)"
    using Nil(3) by (auto simp: tranInfoList_def split: option.splits)
  ultimately show ?case
    by (subst readItems.simps) (simp add: items_wire_def set_tranInfoList_def nth_append)
next
  case (Cons type ts)
  let ?str = "sdes_text info type"
  have t: "type \<in> set sdes_types" "sdes_code type \<noteq> 0" using Cons.prems(2) by (auto simp: sdes_types_def)
  have str: "length ?str \<le> 255" "0 \<notin> set ?str" using described_text [OF Cons.prems(1)] by simp_all
  obtain B where B: "items_wire info ts @ 0 # Z = next_code ts # B" using next_octet by blast
  let ?d = "D @ items_wire info (type # ts) @ 0 # Z"
  have d: "?d = D @ item_wire type ?str @ next_code ts # B" using B by (simp add: items_wire_Cons)
  let ?f = "\<lambda>s. s\<lparr>SDESInfo := set_sdes type (overwrite ?str (next_code ts) (sdes_item type (SDESInfo s))) (SDESInfo s)\<rparr>"
  have a: "addSDESItem ?d src (length D) rr = Inr (upd src ?f rr)"
    unfolding d by (rule addSDESItem_wire [OF Cons.prems(3,4) t(1) str])
  have l: "octet_at ?d (length D + 1) = Inr (word_of_nat (length ?str))" "?d ! length D = sdes_code type"
    unfolding d using octet_at_append [of 1 "item_wire type ?str @ next_code ts # B" D] by (simp_all add: item_wire_def nth_append)
  have u: "unat (word_of_nat (length ?str) :: octet) = length ?str"
    using str(1) by (simp add: unsigned_of_nat take_bit_nat_eq_self)
  have "length (sdes_item type (SDESInfo s)) = 256" using Cons.prems(4) t(1) by (simp add: sdes_sizes_def)
  then have z: "sdes_sizes (SDESInfo (?f s))"
    using Cons.prems(4) t(1) str(1) by (simp add: sdes_sizes_set overwrite_size)
  have "readItems ((D @ item_wire type ?str) @ items_wire info ts @ 0 # Z) src (length (D @ item_wire type ?str)) (upd src ?f rr) =
      Inr (length (D @ item_wire type ?str) + length (items_wire info ts),
        upd src (\<lambda>s. s\<lparr>SDESInfo := store_items info ts (SDESInfo s)\<rparr>) (upd src ?f rr))"
    using Cons.prems(1,2) z entry_known [OF Cons.prems(3)] by (intro Cons.IH [of _ "?f s"]) (auto simp: described_def)
  moreover have "length (item_wire type ?str) = Suc (Suc (length ?str))" by (simp add: item_wire_def)
  ultimately show ?case
    using a l u t(2) by (subst readItems.simps) (simp add: items_wire_Cons comp_def)
qed

lemma readPart_SDES:
  assumes ts: "described info ts" "set ts \<subseteq> set sdes_types" and s: "tranInfoList rr src = Some s" "sdes_sizes (SDESInfo s)"
  shows "readPart now (D @ sdes_wire src info ts @ Z) (length D) rv rr =
    Inr (rv, upd src (\<lambda>s. s\<lparr>SDESInfo := store_items info ts (SDESInfo s)\<rparr>) rr)"
proof -
  let ?body = "be32 src @ items_wire info ts @ [0, 0]"
  let ?len = "word_of_nat (length (?body @ padding (length ?body)) div 4) :: u16"
  let ?h = "header_wire 1 rtcpTypeSDES ?len"
  have w: "sdes_wire src info ts = ?h @ be32 src @ items_wire info ts @ 0 # 0 # padding (length ?body)"
    by (simp add: sdes_wire_def Let_def add.assoc)
  let ?d = "D @ sdes_wire src info ts @ Z"
  have h: "header_count ?d (length D) = Inr 1" "header_type ?d (length D) = Inr 202"
    using header_of_wire(1,4) [of D 1 rtcpTypeSDES ?len "be32 src @ items_wire info ts @ 0 # 0 # padding (length ?body) @ Z"]
    unfolding w by simp_all
  have "u32_at ?d (length D + 4) = Inr src" unfolding w by (simp add: u32_at_skip)
  moreover have "readItems ?d src (length D + 8) rr =
      Inr (length D + 8 + length (items_wire info ts), upd src (\<lambda>s. s\<lparr>SDESInfo := store_items info ts (SDESInfo s)\<rparr>) rr)"
    using readItems_wire [OF ts s, of "D @ ?h @ be32 src" "0 # padding (length ?body) @ Z"] unfolding w by simp
  ultimately show ?thesis
    using h by (simp add: readPart_def readSDES_def add.commute)
qed

section \<open>Leaving sources are read\<close>

lemma readPart_BYE:
  "readPart now (D @ bye_wire src reason @ Z) (length D) rv rr =
    obind (removeTranInfo src False (rtp_recv rr)) (\<lambda>r. Inr (1, rr\<lparr>rtp_recv := r\<rparr>))"
proof -
  let ?body = "be32 src @ [word_of_nat (length reason)] @ reason"
  let ?len = "word_of_nat (length (?body @ padding (length ?body)) div 4) :: u16"
  let ?h = "header_wire 1 rtcpTypeBYE ?len"
  have w: "bye_wire src reason = ?h @ be32 src @ [word_of_nat (length reason)] @ reason @ padding (length ?body)"
    by (simp add: bye_wire_def Let_def add.assoc)
  let ?d = "D @ bye_wire src reason @ Z"
  have h: "header_count ?d (length D) = Inr 1" "header_type ?d (length D) = Inr 203"
    using header_of_wire(1,4) [of D 1 rtcpTypeBYE ?len "be32 src @ [word_of_nat (length reason)] @ reason @ padding (length ?body) @ Z"]
    unfolding w by simp_all
  have "u32_at ?d (length D + 4) = Inr src" unfolding w by (simp add: u32_at_skip)
  then show ?thesis
    using h by (cases "removeTranInfo src False (rtp_recv rr)") (simp_all add: readPart_def readBYE_head_def)
qed

section \<open>The parts are well formed\<close>

lemma part_okI:
  assumes "length body mod 4 = 0" "length body < 200000"
  shows "part_ok (header_wire count type (word_of_nat (length body div 4)) @ body)"
proof -
  have "length body div 4 < 2 ^ 16" using assms(2) by simp
  then have "unat (word_of_nat (length body div 4) :: u16) = length body div 4" by (rule unat_u16_of_nat)
  moreover have "length body = 4 * (length body div 4)" using assms(1) by presburger
  ultimately show ?thesis unfolding part_ok_def
    by (intro exI [of _ count] exI [of _ type] exI [of _ "word_of_nat (length body div 4)"] exI [of _ body]) simp
qed

lemma sr_wire_parts:
  obtains len where "sr_wire now (Some t) rr =
    header_wire (length (report_blocks now rr)) rtcpTypeSR len @ sender_wire now t @ concat (report_blocks now rr)"
    "part_ok (sr_wire now (Some t) rr)"
proof -
  let ?body = "sender_wire now t @ concat (report_blocks now rr)"
  have n: "length (concat (report_blocks now rr)) = 24 * length (report_blocks now rr)" "length (report_blocks now rr) \<le> 1"
    by (auto simp: report_blocks_def split: option.splits)
  have d: "length ?body div 4 = 6 + 6 * length (report_blocks now rr)" "length ?body mod 4 = 0" "length ?body < 200000"
    using n by simp_all
  have "sr_wire now (Some t) rr =
      header_wire (length (report_blocks now rr)) rtcpTypeSR (word_of_nat (length ?body div 4)) @ ?body"
    unfolding d(1) by (simp add: sr_wire_def Let_def)
  then show thesis using that [of "word_of_nat (length ?body div 4)"] part_okI [OF d(2,3)] by simp
qed

lemma sdes_wire_part: "length (items_wire info ts) \<le> 2000 \<Longrightarrow> part_ok (sdes_wire src info ts)"
  unfolding sdes_wire_def Let_def using padding_aligned [of "length (be32 src @ items_wire info ts @ [0, 0])"]
  by (intro part_okI) (simp_all only: length_append, simp_all)

lemma bye_wire_part: "length reason \<le> 255 \<Longrightarrow> part_ok (bye_wire src reason)"
  unfolding bye_wire_def Let_def using padding_aligned [of "length (be32 src @ [word_of_nat (length reason)] @ reason)"]
  by (intro part_okI) (simp_all only: length_append, simp_all)

text \<open>The report blocks of a packet, at most one.\<close>

definition note_reports :: "NtpTime \<Rightarrow> NtpTime \<Rightarrow> RtcpReceiver option \<Rightarrow> RtcpReceiver \<Rightarrow> RtcpReceiver" where
  "note_reports sent now pr rr =
     (case pr of
        None \<Rightarrow> rr
      | Some r \<Rightarrow>
          if sourceSet (rtp_recv r)
          then note_round_trip now (lastSRTimestamp (current_entry r)) (lastSRDelay sent (current_entry r)) rr else rr)"

lemma readReports_blocks:
  assumes "rtcp_packetReceived rr \<noteq> 0"
  shows "readReports now (D @ concat (report_blocks sent pr) @ Z) (length (report_blocks sent pr)) (length D) rr =
    Inr (note_reports sent now pr rr)"
proof (cases "report_blocks sent pr")
  case Nil
  then show ?thesis by (auto simp: report_blocks_def note_reports_def split: option.splits if_splits)
next
  case (Cons b bs)
  then obtain r where r: "pr = Some r" "sourceSet (rtp_recv r)" "bs = []" "b = report_wire sent (rtp_recv r) (current_entry r)"
    by (auto simp: report_blocks_def split: option.splits if_splits)
  then show ?thesis
    using Cons readReport_wire [OF assms, of now D sent "rtp_recv r" "current_entry r" Z] by (simp add: note_reports_def)
qed

lemma note_reports_list [simp]:
  "rtp_recv (note_reports sent now pr rr) = rtp_recv rr" "tranInfoList (note_reports sent now pr rr) = tranInfoList rr"
  "rtcp_packetReceived (note_reports sent now pr rr) = rtcp_packetReceived rr"
  by (auto simp: note_reports_def note_round_trip_def tranInfoList_def Let_def split: option.splits)

lemma note_sender_list:
  "tranInfoList (note_sender sent now src rr) =
    (tranInfoList rr)(src \<mapsto> (entry src rr)\<lparr>lastSRTimestamp := sr_stamp sent, recvLastSRTimestamp := now\<rparr>)"
  "rtcp_packetReceived (note_sender sent now src rr) = rtcp_packetReceived rr + 1"
  "rtp_recv (note_sender sent now src rr) = (rtp_recv rr)\<lparr>rtcpRecv := Some (tranInfoList (note_sender sent now src rr))\<rparr>"
  by (simp_all add: note_sender_def Let_def tranInfoList_def upd_def set_tranInfoList_def)

lemma readPart_report:
  assumes "counting rr"
  shows "readPart now (D @ sr_wire sent (Some t) pr @ Z) (length D) rv rr =
    Inr (rv, note_reports sent now pr (note_sender sent now (tx_ssrc t) rr))"
proof -
  obtain len where w: "sr_wire sent (Some t) pr =
      header_wire (length (report_blocks sent pr)) rtcpTypeSR len @ sender_wire sent t @ concat (report_blocks sent pr)"
    by (rule sr_wire_parts)
  have n: "length (report_blocks sent pr) < 32" by (auto simp: report_blocks_def split: option.splits)
  let ?D = "D @ header_wire (length (report_blocks sent pr)) rtcpTypeSR len @ sender_wire sent t"
  have d: "D @ sr_wire sent (Some t) pr @ Z = ?D @ concat (report_blocks sent pr) @ Z" "length ?D = length D + 28"
    unfolding w by simp_all
  have "rtcp_packetReceived (note_sender sent now (tx_ssrc t) rr) \<noteq> 0"
    using assms by (simp add: note_sender_list counting_def)
  from readReports_blocks [OF this, of now ?D sent pr Z] show ?thesis
    using readPart_SR [OF assms w n, of now D Z rv] unfolding d by simp
qed

section \<open>A report from transmitter to receiver\<close>

definition understood ::
    "NtpTime \<Rightarrow> NtpTime \<Rightarrow> u32 \<Rightarrow> SDESdata \<Rightarrow> RtcpSDESType list \<Rightarrow> RtcpReceiver option \<Rightarrow> RtcpReceiver \<Rightarrow> RtcpReceiver" where
  "understood sent now src info ts pr rr =
     upd src (\<lambda>s. s\<lparr>SDESInfo := store_items info ts (SDESInfo s)\<rparr>) (note_reports sent now pr (note_sender sent now src rr))"

definition entries_sized :: "RtcpReceiver \<Rightarrow> bool" where
  "entries_sized rr \<longleftrightarrow> (\<forall>src s. tranInfoList rr src = Some s \<longrightarrow> sdes_sizes (SDESInfo s))"

lemma entry_sized: "entries_sized rr \<Longrightarrow> sdes_sizes (SDESInfo (entry src rr))"
  by (auto simp: entries_sized_def entry_def sdes_sizes_blank split: option.splits)

lemma readRTCP_report:
  assumes rr: "counting rr" "entries_sized rr" and ts: "described info ts" "set ts \<subseteq> set sdes_types" "length (items_wire info ts) \<le> 1900"
    and w: "w = sr_wire sent (Some t) pr @ sdes_wire (tx_ssrc t) info ts @ X" "length w \<le> 2048"
  shows "readRTCP clk (packet_of w []) rr =
    readParts clk (w @ replicate (2048 - length w) 0) (length w - length X) (length w) 0
      (understood sent (clk 0) (tx_ssrc t) info ts pr rr)"
proof -
  let ?a = "sr_wire sent (Some t) pr" and ?b = "sdes_wire (tx_ssrc t) info ts" and ?Z = "replicate (2048 - length w) (0 :: octet)"
  let ?rr = "note_reports sent (clk 0) pr (note_sender sent (clk 0) (tx_ssrc t) rr)"
  have a: "part_ok ?a" using sr_wire_parts by blast
  have b: "part_ok ?b" using ts(3) by (intro sdes_wire_part) simp
  have l: "0 < length ?a" "0 < length ?b"
    using part_ok_length(1) a b by blast+
  have "readParts clk (w @ ?Z) 0 (length w) 0 rr = readParts clk (?a @ ?b @ X @ ?Z) (length ?a) (length w) 0 ?rr"
    using readParts_part [OF a, of "[]" "length w" clk "?b @ X @ ?Z" 0 rr] l readPart_report [OF rr(1), of "clk 0" "[]" sent t pr "?b @ X @ ?Z" 0]
    unfolding w(1) by simp
  also have "\<dots> = readParts clk (w @ ?Z) (length w - length X) (length w) 0
      (upd (tx_ssrc t) (\<lambda>s. s\<lparr>SDESInfo := store_items info ts (SDESInfo s)\<rparr>) ?rr)"
  proof -
    have "tranInfoList ?rr (tx_ssrc t) = Some ((entry (tx_ssrc t) rr)\<lparr>lastSRTimestamp := sr_stamp sent, recvLastSRTimestamp := clk 0\<rparr>)"
      by (simp add: note_sender_list)
    moreover have "sdes_sizes (SDESInfo ((entry (tx_ssrc t) rr)\<lparr>lastSRTimestamp := sr_stamp sent, recvLastSRTimestamp := clk 0\<rparr>))"
      using entry_sized [OF rr(2)] by simp
    ultimately have "readPart (clk (length ?a)) (?a @ ?b @ X @ ?Z) (length ?a) 0 ?rr =
        Inr (0, upd (tx_ssrc t) (\<lambda>s. s\<lparr>SDESInfo := store_items info ts (SDESInfo s)\<rparr>) ?rr)"
      by (rule readPart_SDES [OF ts(1,2)])
    then show ?thesis
      using readParts_part [OF b, of ?a "length w" clk "X @ ?Z" 0 ?rr] l unfolding w(1) by simp
  qed
  finally show ?thesis by (simp add: readRTCP_def packet_of_usage rtcp_data_of understood_def)
qed

end
