(* ===== verification/Rtcp_Sessions.thy ===== *)
theory Rtcp_Sessions
  imports Rtcp_Exchange
begin

text \<open>
  Two sessions that exchange RTCP. \<open>reporting\<close> is what a sending session needs, \<open>attending\<close> what a
  receiving one needs; a report that the one transmits is understood by the other. The
  properties follow a report, a farewell, and a report with its answer, from which the first
  session measures the round-trip time.
\<close>

section \<open>The two sides\<close>

definition reporting :: "RtpSession \<Rightarrow> RtpTransmitter \<Rightarrow> RtcpTransmitter \<Rightarrow> SDESdata \<Rightarrow> bool" where
  "reporting s rt t info \<longleftrightarrow>
     s_tran s = Some rt \<and> s_rtcpTran s = Some t \<and> tx_SDESInfo t = Some info \<and> sdes_ok info \<and>
     (has_rtcpRecv s \<longrightarrow> rtcp_inv (s_rr s))"

definition attending :: "RtpSession \<Rightarrow> bool" where
  "attending p \<longleftrightarrow> can_receive p \<and> has_rtcpRecv p \<and> rtcp_inv (s_rr p) \<and> counting (s_rr p) \<and> entries_sized (s_rr p)"

definition report_packet :: "NtpTime \<Rightarrow> RtpSession \<Rightarrow> RtpTransmitter \<Rightarrow> SDESdata \<Rightarrow> octet list" where
  "report_packet now s rt info = sr_wire now (Some rt) (s_rtcpRecv s) @ sdes_wire (tx_ssrc rt) info (known_types info)"

definition bye_packet :: "NtpTime \<Rightarrow> RtpSession \<Rightarrow> RtpTransmitter \<Rightarrow> SDESdata \<Rightarrow> octet list" where
  "bye_packet now s rt info =
     sr_wire now (Some rt) (s_rtcpRecv s) @ sdes_wire (tx_ssrc rt) info [rtcpSdesCname] @
     bye_wire (tx_ssrc rt) (cstr ''Program Ended.'')"

definition sent_session :: "octet list \<Rightarrow> RtcpTransmitter \<Rightarrow> RtpSession \<Rightarrow> RtpSession" where
  "sent_session w t s = (keep_rr (after_report (s_rtcpRecv s)) s)
     \<lparr>s_rtcpTran := Some (t\<lparr>rtcp_queued := rtcp_queued t @ [(w, rtcp_remoteAddr t)]\<rparr>)\<rparr>"

lemma length_sdes_wire: "length (sdes_wire src info ts) \<le> length (items_wire info ts) + 13"
  using padding_aligned(2) [of "length (be32 src @ items_wire info ts @ [0, 0])"]
  by (simp only: sdes_wire_def Let_def length_append) simp

lemma transmitRTCP_wire:
  assumes "reporting s rt t info" "can_send s"
  shows "transmitRTCP udp now s = Inr (udp (report_packet now s rt info), sent_session (report_packet now s rt info) t s)"
    "length (report_packet now s rt info) \<le> 1751"
proof -
  have r: "s_tran s = Some rt" "s_rtcpTran s = Some t" "tx_SDESInfo t = Some info" "sdes_ok info"
    "\<forall>r. s_rtcpRecv s = Some r \<longrightarrow> rtcp_inv r"
    using assms(1) by (auto simp: reporting_def s_rtcpRecv_def)
  let ?a = "sr_wire now (Some rt) (s_rtcpRecv s)" and ?b = "sdes_wire (tx_ssrc rt) info (known_types info)"
  have a: "addSR now 0 (Some rt) (s_rtcpRecv s) new_RtcpPacket = Inr (int (length ?a), packet_of ?a [], after_report (s_rtcpRecv s))"
    using addSR_wire [OF r(5), of "[]" now "Some rt"] by (simp add: new_RtcpPacket_of)
  have b: "addSDES 0 (Some rt) t (packet_of ?a []) = Inr (int (length ?b), packet_of (?a @ ?b) [])"
    using addSDES_wire [OF r(3,4), of ?a rt] length_sr_wire(1) [of now "Some rt" "s_rtcpRecv s"] by simp
  show l: "length (report_packet now s rt info) \<le> 1751"
    using length_sr_wire(1) [of now "Some rt" "s_rtcpRecv s"] length_sdes_wire [of "tx_ssrc rt" info "known_types info"]
      known_types_ok(3) [OF r(4)] by (simp add: report_packet_def)
  show "transmitRTCP udp now s = Inr (udp (report_packet now s rt info), sent_session (report_packet now s rt info) t s)"
    using assms(2) r(1,2) a b l rtcp_transmit_of [of "?a @ ?b" udp t]
    by (simp add: transmitRTCP_def report_packet_def sent_session_def)
qed

lemma transmitRTCPBYE_wire:
  assumes "reporting s rt t info"
  shows "transmitRTCPBYE udp now s = Inr (udp (bye_packet now s rt info), sent_session (bye_packet now s rt info) t s)"
    "length (bye_packet now s rt info) \<le> 300"
proof -
  have r: "s_tran s = Some rt" "s_rtcpTran s = Some t" "tx_SDESInfo t = Some info" "sdes_ok info"
    "\<forall>r. s_rtcpRecv s = Some r \<longrightarrow> rtcp_inv r"
    using assms(1) by (auto simp: reporting_def s_rtcpRecv_def)
  let ?a = "sr_wire now (Some rt) (s_rtcpRecv s)" and ?b = "sdes_wire (tx_ssrc rt) info [rtcpSdesCname]"
    and ?c = "bye_wire (tx_ssrc rt) (cstr ''Program Ended.'')"
  have "length (items_wire info [rtcpSdesCname]) \<le> 149"
    using r(4) by (simp add: items_wire_def item_wire_def sdes_text_def sdes_ok_def)
  then have l: "length ?a \<le> 52" "length ?b \<le> 162" "length ?c = 24"
    using length_sr_wire(1) [of now "Some rt" "s_rtcpRecv s"] length_sdes_wire [of "tx_ssrc rt" info "[rtcpSdesCname]"]
    by (simp_all add: bye_wire_def cstr_def Let_def)
  have a: "addSR now 0 (Some rt) (s_rtcpRecv s) new_RtcpPacket = Inr (int (length ?a), packet_of ?a [], after_report (s_rtcpRecv s))"
    using addSR_wire [OF r(5), of "[]" now "Some rt"] by (simp add: new_RtcpPacket_of)
  have b: "addSDES_item rtcpSdesCname 0 (Some rt) t (packet_of ?a []) = Inr (int (length ?b), packet_of (?a @ ?b) [])"
    using addSDES_item_wire [OF r(3,4), of ?a rt] l by simp
  have c: "addBYE (Some (cstr ''Program Ended.'')) 0 (Some rt) (packet_of (?a @ ?b) []) =
      Inr (int (length ?c), packet_of (?a @ ?b @ ?c) [])"
    using addBYE_wire [of "cstr ''Program Ended.''" "?a @ ?b" rt] l by (simp add: cstr_def)
  show "length (bye_packet now s rt info) \<le> 300" using l by (simp add: bye_packet_def)
  show "transmitRTCPBYE udp now s = Inr (udp (bye_packet now s rt info), sent_session (bye_packet now s rt info) t s)"
    using r(1,2) a b c l rtcp_transmit_of [of "?a @ ?b @ ?c" udp t]
    by (simp add: transmitRTCPBYE_def bye_packet_def sent_session_def)
qed

lemma known_types_subset: "set (known_types info) \<subseteq> set sdes_types" "distinct (known_types info)"
  by (auto simp: known_types_def sdes_types_def)

lemma report_accepted:
  assumes "reporting s rt t info" "attending p"
  shows "receiveRTCP (Received (report_packet now s rt info)) clk p =
    Inr (2, p\<lparr>s_rr := understood now (clk 0) (tx_ssrc rt) info (known_types info) (s_rtcpRecv s) (s_rr p)\<rparr>)"
proof -
  let ?a = "sr_wire now (Some rt) (s_rtcpRecv s)" and ?b = "sdes_wire (tx_ssrc rt) info (known_types info)"
  let ?w = "report_packet now s rt info"
  have info: "sdes_ok info" using assms(1) by (simp add: reporting_def)
  have l: "length ?w \<le> 2048"
    using length_sr_wire(1) [of now "Some rt" "s_rtcpRecv s"] length_sdes_wire [of "tx_ssrc rt" info "known_types info"]
      known_types_ok(3) [OF info] by (simp add: report_packet_def)
  obtain len where a: "?a = header_wire (length (report_blocks now (s_rtcpRecv s))) rtcpTypeSR len @
      sender_wire now rt @ concat (report_blocks now (s_rtcpRecv s))" "part_ok ?a" by (rule sr_wire_parts)
  have b: "part_ok ?b" using known_types_ok(3) [OF info] by (intro sdes_wire_part) simp
  have w: "?w = concat [?a, ?b]" by (simp add: report_packet_def)
  have "rtcp_getPacket (Received ?w) new_RtcpPacket = Inr (int (length ?w), packet_of ?w [])"
    unfolding w by (rule getPacket_parts [where cs = "[?a, ?b]", OF _ arg_cong [OF a(1)]]) (use a(2) b l w in auto)
  moreover have "readRTCP clk (packet_of ?w []) (s_rr p) =
      Inr (0, understood now (clk 0) (tx_ssrc rt) info (known_types info) (s_rtcpRecv s) (s_rr p))"
    using readRTCP_report [of "s_rr p" info "known_types info" ?w now rt "s_rtcpRecv s" "[]" clk] assms(2) known_types_ok [OF info]
      known_types_subset(1) [of info] l by (simp add: attending_def report_packet_def readParts_end)
  moreover have "0 < length ?w" using part_ok_length(1) [OF b] by (simp add: report_packet_def)
  ultimately show ?thesis
    using assms(2) by (simp add: receiveRTCP_def attending_def)
qed

section \<open>What a report leaves in the list\<close>

lemma understood_entry:
  "tranInfoList (understood sent now src info ts pr rr) = (tranInfoList rr)(src \<mapsto>
     (entry src rr)\<lparr>lastSRTimestamp := sr_stamp sent, recvLastSRTimestamp := now,
       SDESInfo := store_items info ts (SDESInfo (entry src rr))\<rparr>)"
  by (simp add: understood_def note_sender_list entry_def)

lemma understood_rtp:
  "rtp_recv (understood sent now src info ts pr rr) = (rtp_recv rr)\<lparr>rtcpRecv := Some (tranInfoList (understood sent now src info ts pr rr))\<rparr>"
  "rtcp_packetReceived (understood sent now src info ts pr rr) = rtcp_packetReceived rr + 1"
  unfolding understood_entry by (simp_all add: understood_def upd_def note_sender_list entry_def)
    (simp add: set_tranInfoList_def note_sender_list)

lemma understood_inv:
  assumes "rtcp_inv rr"
  shows "rtcp_inv (understood sent now src info ts pr rr)"
proof -
  let ?l = "tranInfoList (understood sent now src info ts pr rr)"
  have r: "sourceSet (rtp_recv rr) \<longleftrightarrow> 0 \<le> probation (rtp_recv rr)" "tran_ok (sourceSet (rtp_recv rr)) (ssrc (rtp_recv rr)) (tranInfoList rr)"
    using assms by (auto simp: rtcp_inv_def tran_inv_def tranInfoList_def)
  have "tran_ok (sourceSet (rtp_recv rr)) (ssrc (rtp_recv rr)) ?l"
    using r(2) unfolding understood_entry tran_ok_def by (auto simp: entry_def split: option.splits)
  with r(1) show ?thesis unfolding rtcp_inv_def understood_rtp by (intro tran_invI [of _ ?l]) simp_all
qed

lemma store_items_sized:
  assumes "described info ts" "set ts \<subseteq> set sdes_types" "sdes_sizes s"
  shows "sdes_sizes (store_items info ts s)"
  using assms
proof (induction ts arbitrary: s)
  case (Cons type ts)
  have "length (sdes_text info type) \<le> 255" using described_text(1) [OF Cons.prems(1)] by simp
  moreover have "length (sdes_item type s) = 256" "type \<in> set sdes_types" using Cons.prems by (auto simp: sdes_sizes_def)
  ultimately have "sdes_sizes (set_sdes type (overwrite (sdes_text info type) (next_code ts) (sdes_item type s)) s)"
    using Cons.prems(3) by (intro sdes_sizes_set) (simp_all add: overwrite_size)
  then show ?case using Cons by (auto simp: described_def)
qed simp

lemma understood_sized:
  assumes "entries_sized rr" "sdes_ok info"
  shows "entries_sized (understood sent now src info (known_types info) pr rr)"
  using assms(1) store_items_sized [OF known_types_ok(1) [OF assms(2)] known_types_subset(1) entry_sized [OF assms(1)], of src]
  by (auto simp: entries_sized_def understood_entry)

lemma store_items_other:
  "set ts \<subseteq> set sdes_types \<Longrightarrow> type \<notin> set ts \<Longrightarrow> sdes_item type (store_items info ts s) = sdes_item type s"
  by (induction ts arbitrary: s) (auto simp: sdes_item_set(2))

lemma store_items_nth:
  assumes "distinct ts" "set ts \<subseteq> set sdes_types" "i < length ts"
  shows "sdes_item (ts ! i) (store_items info ts s) =
    overwrite (sdes_text info (ts ! i)) (next_code (drop (Suc i) ts)) (sdes_item (ts ! i) s)"
  using assms
proof (induction ts arbitrary: i s)
  case (Cons type ts)
  show ?case
  proof (cases i)
    case 0
    then show ?thesis using Cons.prems by (simp add: store_items_other sdes_item_set(1))
  next
    case (Suc j)
    then have "ts ! j \<noteq> type" using Cons.prems by (auto simp: in_set_conv_nth)
    then show ?thesis
      using Suc Cons.IH [of j] Cons.prems by (simp add: sdes_item_set(2))
  qed
qed simp

section \<open>Farewells\<close>

lemma removeTranInfo_known:
  assumes inv: "rtcp_inv rr" and s: "tranInfoList rr src = Some s"
  shows "\<exists>r. removeTranInfo src False (rtp_recv rr) = Inr r \<and> tran_inv r \<and> rtcpRecv r = Some ((tranInfoList rr)(src := None)) \<and>
    (sourceSet r \<longleftrightarrow> sourceSet (rtp_recv rr) \<and> ssrc (rtp_recv rr) \<noteq> src)"
proof -
  have l: "rtcpRecv (rtp_recv rr) = Some (tranInfoList rr)" by (rule rtcp_invD(1) [OF inv])
  have e: "tran_ssrc s = src" "recv_attached s \<longleftrightarrow> sourceSet (rtp_recv rr) \<and> src = ssrc (rtp_recv rr)"
    using rtcp_invD(2) [OF inv s] by auto
  obtain r where r: "removeTranInfo src False (rtp_recv rr) = Inr r"
    using l s by (cases "recv_attached s") (auto simp: removeTranInfo_def removeSource_def Let_def)
  have "tran_inv r" using inv removeTranInfo_inv [OF _ r] by (simp add: rtcp_inv_def)
  moreover have "rtcpRecv r = Some ((tranInfoList rr)(src := None))"
    "sourceSet r \<longleftrightarrow> sourceSet (rtp_recv rr) \<and> ssrc (rtp_recv rr) \<noteq> src"
    using r l s e by (auto simp: removeTranInfo_def removeSource_def Let_def split: if_splits)
  ultimately show ?thesis using r by blast
qed

lemma bye_accepted:
  fixes now :: NtpTime and clk :: "nat \<Rightarrow> NtpTime"
  assumes rep: "reporting s rt t info" and att: "attending p"
  defines "rr \<equiv> understood now (clk 0) (tx_ssrc rt) info [rtcpSdesCname] (s_rtcpRecv s) (s_rr p)"
  shows "receiveRTCP (Received (bye_packet now s rt info)) clk p =
    obind (removeTranInfo (tx_ssrc rt) False (rtp_recv rr)) (\<lambda>r. Inr (1, p\<lparr>s_rr := rr\<lparr>rtp_recv := r\<rparr>\<rparr>))"
proof -
  let ?a = "sr_wire now (Some rt) (s_rtcpRecv s)" and ?b = "sdes_wire (tx_ssrc rt) info [rtcpSdesCname]"
    and ?c = "bye_wire (tx_ssrc rt) (cstr ''Program Ended.'')"
  let ?w = "bye_packet now s rt info" and ?Z = "replicate (2048 - length (bye_packet now s rt info)) (0 :: octet)"
  have info: "described info [rtcpSdesCname]" "length (items_wire info [rtcpSdesCname]) \<le> 149"
    using rep by (auto simp: reporting_def sdes_ok_def described_def sdes_types_def items_wire_def item_wire_def sdes_text_def)
  have l: "length ?w \<le> 300" by (rule transmitRTCPBYE_wire(2) [OF rep])
  obtain len where a: "?a = header_wire (length (report_blocks now (s_rtcpRecv s))) rtcpTypeSR len @
      sender_wire now rt @ concat (report_blocks now (s_rtcpRecv s))" "part_ok ?a" by (rule sr_wire_parts)
  have b: "part_ok ?b" using info(2) by (intro sdes_wire_part) simp
  have c: "part_ok ?c" by (rule bye_wire_part) (simp add: cstr_def)
  have w: "?w = concat [?a, ?b, ?c]" "?w = ?a @ ?b @ ?c" by (simp_all add: bye_packet_def)
  have g: "rtcp_getPacket (Received ?w) new_RtcpPacket = Inr (int (length ?w), packet_of ?w [])"
    unfolding w(1) by (rule getPacket_parts [where cs = "[?a, ?b, ?c]", OF _ arg_cong [OF a(1)]]) (use a(2) b c l w in auto)
  have "readRTCP clk (packet_of ?w []) (s_rr p) = readParts clk (w_data @ ?Z) (length (?a @ ?b)) (length ?w) 0 rr"
    if "w_data = ?w" for w_data
    using readRTCP_report [of "s_rr p" info "[rtcpSdesCname]" ?w now rt "s_rtcpRecv s" ?c clk] att info l that w(2)
    by (simp add: attending_def sdes_types_def rr_def)
  from this [of "(?a @ ?b) @ ?c"] have
    "readRTCP clk (packet_of ?w []) (s_rr p) = readParts clk ((?a @ ?b) @ ?c @ ?Z) (length (?a @ ?b)) (length ?w) 0 rr"
    unfolding w(2) by simp
  also have "\<dots> = obind (removeTranInfo (tx_ssrc rt) False (rtp_recv rr)) (\<lambda>r. Inr (1, rr\<lparr>rtp_recv := r\<rparr>))"
    using readParts_part [OF c, of "?a @ ?b" "length ?w" clk ?Z 0 rr] part_ok_length(1) [OF c] unfolding w(2) readPart_BYE
    by (cases "removeTranInfo (tx_ssrc rt) False (rtp_recv rr)") (simp_all add: readParts_end)
  finally have r: "readRTCP clk (packet_of ?w []) (s_rr p) =
      obind (removeTranInfo (tx_ssrc rt) False (rtp_recv rr)) (\<lambda>r. Inr (1, rr\<lparr>rtp_recv := r\<rparr>))" .
  have "0 < length ?w" using part_ok_length(1) [OF c] by (simp add: bye_packet_def)
  then show ?thesis
    using g r att by (cases "removeTranInfo (tx_ssrc rt) False (rtp_recv rr)") (simp_all add: receiveRTCP_def attending_def)
qed

section \<open>The description of a new session\<close>

lemma c_text_zeros: "0 \<notin> set bs \<Longrightarrow> c_text (bs @ replicate n 0) = bs"
proof (cases n)
  case 0
  then show "0 \<notin> set bs \<Longrightarrow> ?thesis" by (auto simp: c_text_def takeWhile_eq_all_conv)
qed simp

lemma digit_octets: "list_all (\<lambda>k. (word_of_nat (48 + k) :: octet) \<noteq> 0) [0..<10]"
  by code_simp

lemma decimal_no_zero: "0 \<notin> set (decimal n)"
proof (induction n rule: decimal.induct)
  case (1 n)
  have "(word_of_nat (48 + k) :: octet) \<noteq> 0" if "k < 10" for k
    using digit_octets that unfolding list_all_iff by auto
  then show ?case using 1 by (subst decimal.simps) (auto dest: sym)
qed

lemma cname_no_zero: "0 \<notin> set (cstr ''unknown_user'')" "0 \<notin> set (cstr ''.'')" "0 \<notin> set (cstr ''@'')"
  by code_simp+

lemma sdes_strcpy_empty:
  assumes "length v = 256" "0 < limit"
  obtains u where "sdes_strcpy limit [] v = Inr u" "length u = 256" "c_text u = []" "0 \<in> set u"
  using assms that [of "0 # drop 1 v"] by (simp add: sdes_strcpy_def mem_write_def c_text_def)

lemma zero_filled:
  fixes bs :: "octet list"
  assumes "length bs \<le> 147"
  shows "length (bs @ replicate (256 - length bs) 0) = 256" "0 \<in> set (bs @ replicate (256 - length bs) 0)"
  using assms by simp_all

definition empty_item :: "octet list \<Rightarrow> bool" where
  "empty_item v \<longleftrightarrow> length v = 256 \<and> c_text v = [] \<and> 0 \<in> set v"

lemma sdes_cname_only:
  assumes "sdes_array (sdes_cname i)" "length (c_text (sdes_cname i)) \<le> 147" "c_text (sdes_cname i) \<noteq> []"
    "empty_item (sdes_name i)" "empty_item (sdes_email i)" "empty_item (sdes_phone i)" "empty_item (sdes_loc i)"
    "empty_item (sdes_tool i)" "empty_item (sdes_note i)"
  shows "sdes_ok i" "known_types i = [rtcpSdesCname]"
  using assms by (simp_all add: sdes_ok_def described_def sdes_types_def sdes_array_def empty_item_def known_types_def sdes_text_def)

lemma session_sdes_ok:
  assumes fresh: "sdes_sizes fresh" and host: "0 \<notin> set host"
  shows "\<exists>info. session_sdes pid host fresh = Inr info \<and> sdes_ok info \<and> known_types info = [rtcpSdesCname] \<and>
    c_text (sdes_cname info) = take 147 (cstr ''unknown_user'' @ cstr ''.'' @ decimal pid @ cstr ''@'' @ host)"
proof -
  define c where "c = take 147 (cstr ''unknown_user'' @ cstr ''.'' @ decimal pid @ cstr ''@'' @ host)"
  let ?cname = "c @ replicate (256 - length c) 0"
  have "0 \<notin> set (cstr ''unknown_user'' @ cstr ''.'' @ decimal pid @ cstr ''@'' @ host)"
    using decimal_no_zero [of pid] host cname_no_zero by (simp only: set_append Un_iff) simp
  then have z: "0 \<notin> set c" using in_set_takeD unfolding c_def by metis
  have l: "length c \<le> 147" "c \<noteq> []" by (simp_all add: c_def cstr_def)
  have t: "c_text ?cname = c" by (rule c_text_zeros [OF z])
  have c: "length ?cname = 256" "0 \<in> set ?cname" by (rule zero_filled [OF l(1)])+
  have len: "length (sdes_name fresh) = 256" "length (sdes_email fresh) = 256" "length (sdes_phone fresh) = 256"
    "length (sdes_loc fresh) = 256" "length (sdes_tool fresh) = 256" "length (sdes_note fresh) = 256"
    using fresh by (simp_all add: sdes_sizes_def sdes_types_def sdes_item_def)
  obtain v1 where v1: "sdes_strcpy 255 [] (sdes_name fresh) = Inr v1" "length v1 = 256" "c_text v1 = []" "0 \<in> set v1"
    using sdes_strcpy_empty [OF len(1), of 255] by auto
  obtain v2 where v2: "sdes_strcpy 255 [] (sdes_email fresh) = Inr v2" "length v2 = 256" "c_text v2 = []" "0 \<in> set v2"
    using sdes_strcpy_empty [OF len(2), of 255] by auto
  obtain v3 where v3: "sdes_strcpy 256 [] (sdes_phone fresh) = Inr v3" "length v3 = 256" "c_text v3 = []" "0 \<in> set v3"
    using sdes_strcpy_empty [OF len(3), of 256] by auto
  obtain v4 where v4: "sdes_strcpy 255 [] (sdes_loc fresh) = Inr v4" "length v4 = 256" "c_text v4 = []" "0 \<in> set v4"
    using sdes_strcpy_empty [OF len(4), of 255] by auto
  obtain v5 where v5: "sdes_strcpy 255 [] (sdes_tool fresh) = Inr v5" "length v5 = 256" "c_text v5 = []" "0 \<in> set v5"
    using sdes_strcpy_empty [OF len(5), of 255] by auto
  obtain v6 where v6: "sdes_strcpy 255 [] (sdes_note fresh) = Inr v6" "length v6 = 256" "c_text v6 = []" "0 \<in> set v6"
    using sdes_strcpy_empty [OF len(6), of 255] by auto
  let ?i = "fresh\<lparr>sdes_cname := ?cname, sdes_name := v1, sdes_email := v2, sdes_phone := v3, sdes_loc := v4,
    sdes_tool := v5, sdes_note := v6\<rparr>"
  have n: "setSdesCname pid host fresh = fresh\<lparr>sdes_cname := ?cname\<rparr>"
    unfolding setSdesCname_def Let_def c_def [symmetric] by (rule refl)
  have "session_sdes pid host fresh = Inr ?i"
    using n v1(1) v2(1) v3(1) v4(1) v5(1) v6(1)
    by (simp add: session_sdes_def setSdesName_def setSdesEmail_def setSdesPhone_def setSdesLoc_def setSdesTool_def setSdesNote_def)
  moreover have "sdes_ok ?i" "known_types ?i = [rtcpSdesCname]"
    using c t l v1 v2 v3 v4 v5 v6 by (intro sdes_cname_only; simp add: sdes_array_def empty_item_def)+
  moreover have "c_text (sdes_cname ?i) = c" using t by simp
  ultimately show ?thesis unfolding c_def [symmetric] by blast
qed

text \<open>The \<open>setSdes\<close> functions keep a description within its bounds.\<close>

lemma sdes_strcpy_text:
  assumes "sdes_strcpy limit str v = Inr u" "length v = 256" "0 \<notin> set str"
  shows "sdes_array u" "c_text u = str" "length str < limit"
  using assms by (auto simp: sdes_strcpy_def mem_write_def sdes_array_def oassert_def split: if_splits)

lemma setSdes_ok:
  assumes "sdes_ok info" "0 \<notin> set str"
  shows "setSdesName str info = Inr info' \<Longrightarrow> sdes_ok info'" "setSdesEmail str info = Inr info' \<Longrightarrow> sdes_ok info'"
    "setSdesPhone str info = Inr info' \<Longrightarrow> sdes_ok info'" "setSdesLoc str info = Inr info' \<Longrightarrow> sdes_ok info'"
    "setSdesTool str info = Inr info' \<Longrightarrow> sdes_ok info'" "setSdesNote str info = Inr info' \<Longrightarrow> sdes_ok info'"
    "sdes_ok (setSdesCname pid str info)"
proof -
  have d: "sdes_array (sdes_cname info)" "sdes_array (sdes_name info)" "sdes_array (sdes_email info)" "sdes_array (sdes_phone info)"
    "sdes_array (sdes_loc info)" "sdes_array (sdes_tool info)" "sdes_array (sdes_note info)"
    using assms(1) by (simp_all add: sdes_ok_def described_def sdes_types_def)
  note ok = sdes_ok_def described_def sdes_types_def
  show "setSdesName str info = Inr info' \<Longrightarrow> sdes_ok info'"
    using assms d sdes_strcpy_text [of 255 str "sdes_name info"] by (auto simp: setSdesName_def obind_eq_Inr ok sdes_array_def)
  show "setSdesEmail str info = Inr info' \<Longrightarrow> sdes_ok info'"
    using assms d sdes_strcpy_text [of 255 str "sdes_email info"] by (auto simp: setSdesEmail_def obind_eq_Inr ok sdes_array_def)
  show "setSdesPhone str info = Inr info' \<Longrightarrow> sdes_ok info'"
    using assms d sdes_strcpy_text [of 256 str "sdes_phone info"] by (auto simp: setSdesPhone_def obind_eq_Inr ok sdes_array_def)
  show "setSdesLoc str info = Inr info' \<Longrightarrow> sdes_ok info'"
    using assms d sdes_strcpy_text [of 255 str "sdes_loc info"] by (auto simp: setSdesLoc_def obind_eq_Inr ok sdes_array_def)
  show "setSdesTool str info = Inr info' \<Longrightarrow> sdes_ok info'"
    using assms d sdes_strcpy_text [of 255 str "sdes_tool info"] by (auto simp: setSdesTool_def obind_eq_Inr ok sdes_array_def)
  show "setSdesNote str info = Inr info' \<Longrightarrow> sdes_ok info'"
    using assms d sdes_strcpy_text [of 255 str "sdes_note info"] by (auto simp: setSdesNote_def obind_eq_Inr ok sdes_array_def)
  define c where "c = take 147 (cstr ''unknown_user'' @ cstr ''.'' @ decimal pid @ cstr ''@'' @ str)"
  have "0 \<notin> set (cstr ''unknown_user'' @ cstr ''.'' @ decimal pid @ cstr ''@'' @ str)"
    using decimal_no_zero [of pid] assms(2) cname_no_zero by (simp only: set_append Un_iff) simp
  then have z: "0 \<notin> set c" "length c \<le> 147" using in_set_takeD unfolding c_def by (metis, simp)
  have n: "setSdesCname pid str info = info\<lparr>sdes_cname := c @ replicate (256 - length c) 0\<rparr>"
    unfolding setSdesCname_def Let_def c_def [symmetric] by (rule refl)
  show "sdes_ok (setSdesCname pid str info)"
    unfolding n using assms(1) d zero_filled [OF z(2)] c_text_zeros [OF z(1)] z(2) by (simp add: ok sdes_array_def)
qed

lemma link_session_reporting:
  assumes link: "link_session fresh pid host s0 = Inr s" and s0: "s_tran s0 = Some rt" "s_rtcpTran s0 = Some t" "tx_SDESInfo t = None"
    and fresh: "sdes_sizes fresh" "0 \<notin> set host" and inv: "has_rtcpRecv s0 \<longrightarrow> rtcp_inv (s_rr s0)"
  obtains info where "reporting s rt (t\<lparr>tx_SDESInfo := Some info\<rparr>) info" "can_send s" "known_types info = [rtcpSdesCname]"
    "c_text (sdes_cname info) = take 147 (cstr ''unknown_user'' @ cstr ''.'' @ decimal pid @ cstr ''@'' @ host)"
    "has_rtcpRecv s = has_rtcpRecv s0" "s_rr s = s_rr s0"
proof -
  obtain info where info: "session_sdes pid host fresh = Inr info" "sdes_ok info" "known_types info = [rtcpSdesCname]"
    "c_text (sdes_cname info) = take 147 (cstr ''unknown_user'' @ cstr ''.'' @ decimal pid @ cstr ''@'' @ host)"
    using session_sdes_ok [OF fresh, of pid] by blast
  have "s = s0\<lparr>s_rtcpTran := Some (t\<lparr>tx_SDESInfo := Some info\<rparr>),
      sessionState := (if has_recv s0 then rtp_session_sendrecv else rtp_session_sendonly)\<rparr>"
    using link s0 info(1) by (auto simp: link_session_def setRTPtran_def Let_def)
  then show thesis
    using that [of info] info(2-4) s0(1) inv by (simp add: reporting_def can_send_def)
qed

lemma sent_session_fields:
  "s_rtcpTran (sent_session w t s) = Some (t\<lparr>rtcp_queued := rtcp_queued t @ [(w, rtcp_remoteAddr t)]\<rparr>)"
  "s_tran (sent_session w t s) = s_tran s" "has_rtcpRecv (sent_session w t s) = has_rtcpRecv s"
  "sessionState (sent_session w t s) = sessionState s"
  by (auto simp: sent_session_def keep_rr_def split: option.splits)

lemma reported_inv:
  assumes "rtcp_inv rr" "sourceSet (rtp_recv rr)"
  shows "rtcp_inv (reported (ssrc (rtp_recv rr)) (current_entry rr) rr)"
proof -
  have e: "entry (ssrc (rtp_recv rr)) rr = current_entry rr" by (rule entry_known [OF rtcp_invD(4) [OF assms]])
  have "reported (ssrc (rtp_recv rr)) (current_entry rr) rr = upd (ssrc (rtp_recv rr)) (\<lambda>s. snd (calcLostFrac (rtp_recv rr) s)) rr"
    using e by (simp add: reported_def upd_def)
  then show ?thesis using upd_inv [OF assms(1)] by simp
qed

lemma sent_session_inv:
  assumes "has_rtcpRecv s \<longrightarrow> rtcp_inv (s_rr s)"
  shows "has_rtcpRecv s \<longrightarrow> rtcp_inv (s_rr (sent_session w t s))"
  using assms reported_inv [of "s_rr s"]
  by (auto simp: sent_session_def keep_rr_def s_rtcpRecv_def after_report_def)

section \<open>Properties\<close>

text \<open>C7: A session that was just set up, whatever the memory of its description held, transmits a
  compound RTCP packet that any attending session accepts: the peer then has an entry for the
  sender's source with the middle 32 bits of the sender's clock, the time of arrival and the
  canonical name of the sender, cut to 147 characters.\<close>

theorem report_delivered:
  assumes link: "link_session fresh pid host s0 = Inr s" and s0: "s_tran s0 = Some rt" "s_rtcpTran s0 = Some t" "tx_SDESInfo t = None"
    and fresh: "sdes_sizes fresh" "0 \<notin> set host" and inv: "has_rtcpRecv s0 \<longrightarrow> rtcp_inv (s_rr s0)" and p: "attending p"
  shows "\<exists>w s' p' e. transmitRTCP udp now s = Inr (udp w, s') \<and>
    map_option rtcp_queued (s_rtcpTran s') = Some (rtcp_queued t @ [(w, rtcp_remoteAddr t)]) \<and>
    receiveRTCP (Received w) clk p = Inr (2, p') \<and> rtcp_inv (s_rr p') \<and>
    tranInfoList (s_rr p') (tx_ssrc rt) = Some e \<and>
    lastSRTimestamp e = push_bit 16 (seconds now) OR (drop_bit 16 (fractional now) AND 0xFFFF) \<and>
    recvLastSRTimestamp e = clk 0 \<and>
    c_text (sdes_cname (SDESInfo e)) = take 147 (cstr ''unknown_user'' @ cstr ''.'' @ decimal pid @ cstr ''@'' @ host)"
proof -
  obtain info where i: "reporting s rt (t\<lparr>tx_SDESInfo := Some info\<rparr>) info" "can_send s" "known_types info = [rtcpSdesCname]"
    "c_text (sdes_cname info) = take 147 (cstr ''unknown_user'' @ cstr ''.'' @ decimal pid @ cstr ''@'' @ host)"
    by (rule link_session_reporting [OF link s0 fresh inv])
  let ?w = "report_packet now s rt info" and ?rr = "understood now (clk 0) (tx_ssrc rt) info (known_types info) (s_rtcpRecv s) (s_rr p)"
  have "rtcp_inv ?rr" using p by (intro understood_inv) (simp add: attending_def)
  moreover obtain e where e: "tranInfoList ?rr (tx_ssrc rt) = Some e" "lastSRTimestamp e = sr_stamp now" "recvLastSRTimestamp e = clk 0"
    "SDESInfo e = store_items info [rtcpSdesCname] (SDESInfo (entry (tx_ssrc rt) (s_rr p)))"
    by (simp add: understood_entry i(3))
  have "c_text (sdes_cname (SDESInfo e)) = c_text (sdes_cname info)"
    by (simp add: e(4) overwrite_def sdes_text_def c_text_no_zero)
  ultimately show ?thesis
    using transmitRTCP_wire(1) [OF i(1,2), of udp now] report_accepted [OF i(1) p, of now clk] e i(4)
    by (intro exI [of _ ?w] exI [of _ "sent_session ?w (t\<lparr>tx_SDESInfo := Some info\<rparr>) s"] exI [of _ "p\<lparr>s_rr := ?rr\<rparr>"] exI [of _ e])
      (simp add: sent_session_fields sr_stamp_def)
qed

definition example_rtcpTran :: RtcpTransmitter where
  "example_rtcpTran = \<lparr>nextInterval = NtpTime 20 0, tx_SDESInfo = None, rtcp_remoteAddr = ''peer'', rtcp_queued = []\<rparr>"

definition example_session :: RtpSession where
  "example_session = \<lparr>sessionState = rtp_session_sendrecv, sessionError = session_success, s_tran = Some example_transmitter,
     s_rtcpTran = Some example_rtcpTran, has_recv = True, has_rtcpRecv = True, s_rr = constructRtcpReceiver example_listener\<rparr>"

lemma example_session_inv: "rtcp_inv (s_rr example_session)"
  by (simp add: example_session_def rtcp_inv_def tran_inv_def tran_ok_def constructRtcpReceiver_def setRTCPrecv_def
      example_listener_def blank_receiver_def)

lemma example_session_attending: "attending example_session"
  using example_session_inv
  by (simp add: attending_def can_receive_def counting_def entries_sized_def)
    (simp add: example_session_def constructRtcpReceiver_def tranInfoList_def setRTCPrecv_def)

theorem report_delivered_witness:
  "\<exists>s. link_session blank_SDES 17 (cstr ''host'') example_session = Inr s \<and>
    (\<exists>w s' p' e. transmitRTCP (\<lambda>bs. int (length bs)) (NtpTime 30 7) s = Inr (int (length w), s') \<and>
    map_option rtcp_queued (s_rtcpTran s') = Some (rtcp_queued example_rtcpTran @ [(w, rtcp_remoteAddr example_rtcpTran)]) \<and>
    receiveRTCP (Received w) (\<lambda>_. NtpTime 31 9) example_session = Inr (2, p') \<and> rtcp_inv (s_rr p') \<and>
    tranInfoList (s_rr p') (tx_ssrc example_transmitter) = Some e \<and>
    lastSRTimestamp e = push_bit 16 (seconds (NtpTime 30 7)) OR (drop_bit 16 (fractional (NtpTime 30 7)) AND 0xFFFF) \<and>
    recvLastSRTimestamp e = NtpTime 31 9 \<and>
    c_text (sdes_cname (SDESInfo e)) = take 147 (cstr ''unknown_user'' @ cstr ''.'' @ decimal 17 @ cstr ''@'' @ cstr ''host''))"
proof -
  have h: "0 \<notin> set (cstr ''host'')" by code_simp
  obtain info where "session_sdes 17 (cstr ''host'') blank_SDES = Inr info"
    using session_sdes_ok [OF sdes_sizes_blank h] by blast
  then obtain s where s: "link_session blank_SDES 17 (cstr ''host'') example_session = Inr s"
    by (simp add: link_session_def example_session_def example_rtcpTran_def setRTPtran_def Let_def)
  show ?thesis
    using s report_delivered [OF s _ _ _ sdes_sizes_blank h, of example_transmitter example_rtcpTran example_session "\<lambda>bs. int (length bs)" "NtpTime 30 7" "\<lambda>_. NtpTime 31 9"]
      example_session_inv example_session_attending
    by (simp add: example_session_def example_rtcpTran_def)
qed

text \<open>C15: The packet that a session sends when it ends, with a report, its canonical name and a BYE, is
  accepted by every attending session, also by one that never heard of the source: the
  assertion of \<open>removeTranInfo\<close> holds, the source is no longer in the list, the receiver has left
  it if it was the current one, and the list is otherwise as before.\<close>

theorem bye_delivered:
  assumes "reporting s rt t info" "attending p"
  shows "\<exists>w s' p'. transmitRTCPBYE udp now s = Inr (udp w, s') \<and>
    map_option rtcp_queued (s_rtcpTran s') = Some (rtcp_queued t @ [(w, rtcp_remoteAddr t)]) \<and>
    receiveRTCP (Received w) clk p = Inr (1, p') \<and> rtcp_inv (s_rr p') \<and>
    tranInfoList (s_rr p') = (tranInfoList (s_rr p))(tx_ssrc rt := None) \<and>
    (sourceSet (rtp_recv (s_rr p')) \<longleftrightarrow> sourceSet (rtp_recv (s_rr p)) \<and> ssrc (rtp_recv (s_rr p)) \<noteq> tx_ssrc rt)"
proof -
  let ?w = "bye_packet now s rt info"
  let ?rr = "understood now (clk 0) (tx_ssrc rt) info [rtcpSdesCname] (s_rtcpRecv s) (s_rr p)"
  have inv: "rtcp_inv ?rr" using assms(2) by (intro understood_inv) (simp add: attending_def)
  obtain e where e: "tranInfoList ?rr (tx_ssrc rt) = Some e" by (simp add: understood_entry)
  obtain r where r: "removeTranInfo (tx_ssrc rt) False (rtp_recv ?rr) = Inr r" "tran_inv r"
    "rtcpRecv r = Some ((tranInfoList ?rr)(tx_ssrc rt := None))"
    "sourceSet r \<longleftrightarrow> sourceSet (rtp_recv ?rr) \<and> ssrc (rtp_recv ?rr) \<noteq> tx_ssrc rt"
    using removeTranInfo_known [OF inv e] by blast
  have "receiveRTCP (Received ?w) clk p = Inr (1, p\<lparr>s_rr := ?rr\<lparr>rtp_recv := r\<rparr>\<rparr>)"
    using bye_accepted [OF assms, of now clk] r(1) by simp
  moreover have "tranInfoList (?rr\<lparr>rtp_recv := r\<rparr>) = (tranInfoList (s_rr p))(tx_ssrc rt := None)"
    using r(3) by (simp add: tranInfoList_def [of "_\<lparr>rtp_recv := _\<rparr>"] understood_entry)
  moreover have "sourceSet r \<longleftrightarrow> sourceSet (rtp_recv (s_rr p)) \<and> ssrc (rtp_recv (s_rr p)) \<noteq> tx_ssrc rt"
    using r(4) by (simp add: understood_rtp(1))
  ultimately show ?thesis
    using transmitRTCPBYE_wire(1) [OF assms(1), of udp now] r(2)
    by (intro exI [of _ ?w] exI [of _ "sent_session ?w t s"] exI [of _ "p\<lparr>s_rr := ?rr\<lparr>rtp_recv := r\<rparr>\<rparr>"])
      (simp add: sent_session_fields rtcp_inv_def)
qed

definition example_info :: SDESdata where
  "example_info = blank_SDES\<lparr>sdes_cname := [97, 64, 98] @ replicate 253 0\<rparr>"

definition reporting_session :: RtpSession where
  "reporting_session = example_session\<lparr>s_rtcpTran := Some (example_rtcpTran\<lparr>tx_SDESInfo := Some example_info\<rparr>)\<rparr>"

lemma blank_items:
  "c_text (replicate n 0) = []" "c_text ([97, 64, 98] @ replicate n 0) = [97, 64, 98]" "c_text (97 # 64 # 98 # replicate n 0) = [97, 64, 98]"
  using c_text_zeros [of "[]" n] c_text_zeros [of "[97, 64, 98]" n] by simp_all

lemma example_info_ok: "sdes_ok example_info" "known_types example_info = [rtcpSdesCname]"
  by (rule sdes_cname_only; simp add: example_info_def blank_SDES_def sdes_array_def empty_item_def blank_items)+

lemma reporting_session_ok:
  "reporting reporting_session example_transmitter (example_rtcpTran\<lparr>tx_SDESInfo := Some example_info\<rparr>) example_info"
  "can_send reporting_session"
  using example_session_inv example_info_ok(1)
  by (simp_all add: reporting_def reporting_session_def can_send_def) (simp_all add: example_session_def)

theorem bye_delivered_witness:
  "\<exists>w s' p'. transmitRTCPBYE (\<lambda>bs. int (length bs)) (NtpTime 30 7) reporting_session = Inr (int (length w), s') \<and>
    map_option rtcp_queued (s_rtcpTran s') = Some (rtcp_queued (example_rtcpTran\<lparr>tx_SDESInfo := Some example_info\<rparr>) @
      [(w, rtcp_remoteAddr (example_rtcpTran\<lparr>tx_SDESInfo := Some example_info\<rparr>))]) \<and>
    receiveRTCP (Received w) (\<lambda>_. NtpTime 31 9) example_session = Inr (1, p') \<and> rtcp_inv (s_rr p') \<and>
    tranInfoList (s_rr p') = (tranInfoList (s_rr example_session))(tx_ssrc example_transmitter := None) \<and>
    (sourceSet (rtp_recv (s_rr p')) \<longleftrightarrow> sourceSet (rtp_recv (s_rr example_session)) \<and>
      ssrc (rtp_recv (s_rr example_session)) \<noteq> tx_ssrc example_transmitter)"
  by (rule bye_delivered [OF reporting_session_ok(1) example_session_attending])

text \<open>C21: The compound packets fit into the 2048 octets of a packet object: with any texts that the
  \<open>setSdes\<close> functions let through, neither a report nor a farewell runs into the assertion of
  \<open>allocData\<close> or clears memory behind the packet; the length is a multiple of four, and the
  session can go on reporting.\<close>

theorem rtcp_packets_fit:
  assumes "reporting s rt t info" "can_send s"
  shows "\<exists>w v s' s'' t'. transmitRTCP udp now s = Inr (udp w, s') \<and> map_option rtcp_queued (s_rtcpTran s') = Some (rtcp_queued t @ [(w, rtcp_remoteAddr t)]) \<and>
    transmitRTCPBYE udp now s = Inr (udp v, s'') \<and> map_option rtcp_queued (s_rtcpTran s'') = Some (rtcp_queued t @ [(v, rtcp_remoteAddr t)]) \<and>
    0 < length w \<and> length w \<le> 1751 \<and> length w mod 4 = 0 \<and> 0 < length v \<and> length v \<le> 300 \<and> length v mod 4 = 0 \<and> reporting s' rt t' info \<and> can_send s'"
proof -
  let ?w = "report_packet now s rt info" and ?v = "bye_packet now s rt info"
  let ?a = "sr_wire now (Some rt) (s_rtcpRecv s)" and ?b = "sdes_wire (tx_ssrc rt) info (known_types info)"
    and ?c = "sdes_wire (tx_ssrc rt) info [rtcpSdesCname]" and ?d = "bye_wire (tx_ssrc rt) (cstr ''Program Ended.'')"
  have info: "sdes_ok info" using assms(1) by (simp add: reporting_def)
  have i: "length (items_wire info [rtcpSdesCname]) \<le> 149"
    using info by (simp add: items_wire_def item_wire_def sdes_text_def sdes_ok_def)
  have "part_ok ?a" using sr_wire_parts by blast
  moreover have "part_ok ?b" using known_types_ok(3) [OF info] by (intro sdes_wire_part) simp
  moreover have "part_ok ?c" using i by (intro sdes_wire_part) simp
  moreover have "part_ok ?d" by (rule bye_wire_part) (simp add: cstr_def)
  ultimately have p: "4 dvd length ?a" "4 dvd length ?b" "4 dvd length ?c" "4 dvd length ?d" "0 < length ?a"
    using part_ok_length mod_eq_0_iff_dvd by blast+
  then have m: "length ?w mod 4 = 0" "length ?v mod 4 = 0" "0 < length ?w" "0 < length ?v"
    unfolding report_packet_def bye_packet_def length_append mod_eq_0_iff_dvd by (intro dvd_add; assumption | simp)+
  have "reporting (sent_session ?w t s) rt (t\<lparr>rtcp_queued := rtcp_queued t @ [(?w, rtcp_remoteAddr t)]\<rparr>) info"
    using assms(1) sent_session_inv [of s ?w t] by (simp add: reporting_def sent_session_fields)
  moreover have "can_send (sent_session ?w t s)" using assms(2) by (simp add: can_send_def sent_session_fields)
  ultimately show ?thesis
    using transmitRTCP_wire(1) [OF assms, of udp now] transmitRTCP_wire(2) [OF assms, of now]
      transmitRTCPBYE_wire(1) [OF assms(1), of udp now] transmitRTCPBYE_wire(2) [OF assms(1), of now] m
    by (intro exI [of _ ?w] exI [of _ ?v] exI [of _ "sent_session ?w t s"]
        exI [of _ "sent_session ?v t s"] exI [of _ "t\<lparr>rtcp_queued := rtcp_queued t @ [(?w, rtcp_remoteAddr t)]\<rparr>"])
      (simp add: sent_session_fields)
qed

theorem rtcp_packets_fit_witness:
  "\<exists>w v s' s'' t'. transmitRTCP (\<lambda>bs. int (length bs)) (NtpTime 30 7) reporting_session = Inr (int (length w), s') \<and>
    map_option rtcp_queued (s_rtcpTran s') = Some (rtcp_queued (example_rtcpTran\<lparr>tx_SDESInfo := Some example_info\<rparr>) @ [(w, rtcp_remoteAddr (example_rtcpTran\<lparr>tx_SDESInfo := Some example_info\<rparr>))]) \<and>
    transmitRTCPBYE (\<lambda>bs. int (length bs)) (NtpTime 30 7) reporting_session = Inr (int (length v), s'') \<and>
    map_option rtcp_queued (s_rtcpTran s'') = Some (rtcp_queued (example_rtcpTran\<lparr>tx_SDESInfo := Some example_info\<rparr>) @ [(v, rtcp_remoteAddr (example_rtcpTran\<lparr>tx_SDESInfo := Some example_info\<rparr>))]) \<and>
    0 < length w \<and> length w \<le> 1751 \<and> length w mod 4 = 0 \<and> 0 < length v \<and> length v \<le> 300 \<and> length v mod 4 = 0 \<and>
    reporting s' example_transmitter t' example_info \<and> can_send s'"
  by (rule rtcp_packets_fit [OF reporting_session_ok])

text \<open>C39: When a description has several texts, every one but the last arrives with a character too
  many: the receiver copies one octet more than the item has, which is the type of the next
  item. A peer that hears of the source for the first time stores the canonical name followed by
  the character 2, for instance, when the sender also has a name.\<close>

theorem sdes_text_runs_on:
  assumes rep: "reporting s rt t info" "can_send s" and att: "attending p" and new: "tranInfoList (s_rr p) (tx_ssrc rt) = None"
    and i: "Suc i < length (known_types info)"
  shows "\<exists>w s' p' e v. transmitRTCP udp now s = Inr (udp w, s') \<and>
    map_option rtcp_queued (s_rtcpTran s') = Some (rtcp_queued t @ [(w, rtcp_remoteAddr t)]) \<and> receiveRTCP (Received w) clk p = Inr (2, p') \<and>
    tranInfoList (s_rr p') (tx_ssrc rt) = Some e \<and> getSdes (known_types info ! i) (SDESInfo e) = Some v \<and>
    c_text v = sdes_text info (known_types info ! i) @ [sdes_code (known_types info ! Suc i)]"
proof -
  let ?ts = "known_types info" and ?rr = "understood now (clk 0) (tx_ssrc rt) info (known_types info) (s_rtcpRecv s) (s_rr p)"
  let ?str = "sdes_text info (?ts ! i)" and ?x = "sdes_code (?ts ! Suc i)"
  have info: "sdes_ok info" using rep(1) by (simp add: reporting_def)
  have types: "?ts ! i \<in> set sdes_types" "?ts ! Suc i \<in> set sdes_types" "?ts ! i \<in> set ?ts"
    using i known_types_subset(1) [of info] nth_mem [of _ ?ts] by (auto dest: Suc_lessD)
  obtain e where e: "tranInfoList ?rr (tx_ssrc rt) = Some e" "SDESInfo e = store_items info ?ts blank_SDES"
    using new by (simp add: understood_entry entry_def)
  have "next_code (drop (Suc i) ?ts) = ?x" using i by (simp add: Cons_nth_drop_Suc [symmetric])
  moreover have "sdes_item (?ts ! i) blank_SDES = replicate 256 0"
    using types(1) by (auto simp: sdes_types_def sdes_item_def blank_SDES_def)
  ultimately have v: "sdes_item (?ts ! i) (SDESInfo e) = ?str @ [?x] @ replicate (255 - length ?str) 0"
    using store_items_nth [OF known_types_subset(2,1), of i info info blank_SDES] i e(2) by (simp add: overwrite_def)
  have "?x \<noteq> 0" using types(2) by (auto simp: sdes_types_def)
  then have "c_text (?str @ [?x] @ replicate (255 - length ?str) 0) = ?str @ [?x]"
    using c_text_zeros [of "?str @ [?x]" "255 - length ?str"] described_text(2) [OF known_types_ok(1) [OF info] types(3)] by auto
  moreover have "\<exists>v. getSdes (?ts ! i) (SDESInfo e) = Some v \<and> v = sdes_item (?ts ! i) (SDESInfo e)"
    using types(1) by (auto simp: sdes_types_def sdes_item_def)
  ultimately show ?thesis
    using transmitRTCP_wire(1) [OF rep, of udp now] report_accepted [OF rep(1) att, of now clk] e(1) v
    by (intro exI [of _ "report_packet now s rt info"] exI [of _ "sent_session (report_packet now s rt info) t s"] exI [of _ "p\<lparr>s_rr := ?rr\<rparr>"] exI [of _ e] exI [of _ "sdes_item (?ts ! i) (SDESInfo e)"])
      (auto simp: sent_session_fields)
qed

definition named_info :: SDESdata where
  "named_info = example_info\<lparr>sdes_name := [97, 64, 98] @ replicate 253 0\<rparr>"

definition named_session :: RtpSession where
  "named_session = example_session\<lparr>s_rtcpTran := Some (example_rtcpTran\<lparr>tx_SDESInfo := Some named_info\<rparr>)\<rparr>"

lemma named_info_ok: "sdes_ok named_info" "known_types named_info = [rtcpSdesCname, rtcpSdesName]"
  by (simp_all add: sdes_ok_def described_def known_types_def sdes_types_def sdes_text_def sdes_array_def
      named_info_def example_info_def blank_SDES_def blank_items)

lemma named_session_ok:
  "reporting named_session example_transmitter (example_rtcpTran\<lparr>tx_SDESInfo := Some named_info\<rparr>) named_info"
  "can_send named_session"
  using example_session_inv named_info_ok(1)
  by (simp_all add: reporting_def named_session_def can_send_def) (simp_all add: example_session_def)

lemma example_session_list: "tranInfoList (s_rr example_session) = Map.empty"
  by (simp add: example_session_def constructRtcpReceiver_def tranInfoList_def setRTCPrecv_def)

theorem sdes_text_runs_on_witness:
  "\<exists>w s' p' e v. transmitRTCP (\<lambda>bs. int (length bs)) (NtpTime 30 7) named_session = Inr (int (length w), s') \<and>
    map_option rtcp_queued (s_rtcpTran s') = Some (rtcp_queued (example_rtcpTran\<lparr>tx_SDESInfo := Some named_info\<rparr>) @ [(w, rtcp_remoteAddr (example_rtcpTran\<lparr>tx_SDESInfo := Some named_info\<rparr>))]) \<and>
    receiveRTCP (Received w) (\<lambda>_. NtpTime 31 9) example_session = Inr (2, p') \<and> tranInfoList (s_rr p') (tx_ssrc example_transmitter) = Some e \<and>
    getSdes (known_types named_info ! 0) (SDESInfo e) = Some v \<and>
    c_text v = sdes_text named_info (known_types named_info ! 0) @ [sdes_code (known_types named_info ! Suc 0)]"
  by (rule sdes_text_runs_on [OF named_session_ok example_session_attending]) (simp_all add: example_session_list named_info_ok)

end
