(* ===== verification/Rtcp_Statistics.thy ===== *)
theory Rtcp_Statistics
  imports Rtcp_Sessions
begin

text \<open>
  What the numbers in RTCP reports mean: the round-trip time that a session measures from a
  report and its answer, the count of lost packets, the times at which reports are due, the RTP
  time in a sender report, and the statistics the session hands to the application.
\<close>

section \<open>Round-trip time\<close>

text \<open>A time cut to the middle 32 bits: 16 bits of seconds, 16 bits of fraction.\<close>

definition middle :: "NtpTime \<Rightarrow> NtpTime" where
  "middle t = NtpTime (seconds t AND 0xFFFF) (fractional t AND 0xFFFF0000)"

lemma mask_words:
  "(0xFFFF :: u32) = mask 16" "(0xFFFF0000 :: u32) = push_bit 16 (mask 16)"
  by (simp_all add: mask_eq_exp_minus_1 push_bit_eq_mult)

lemma stamp_middle: "short_ms (sr_stamp t) = getMs (middle t)"
proof -
  have "drop_bit 16 (sr_stamp t) AND 0xFFFF = seconds t AND 0xFFFF"
    unfolding sr_stamp_def mask_words by (rule bit_word_eqI) (auto simp: bit_simps)
  moreover have "push_bit 16 (sr_stamp t) = fractional t AND 0xFFFF0000"
    unfolding sr_stamp_def mask_words by (rule bit_word_eqI) (auto simp: bit_simps)
  ultimately show ?thesis by (simp add: short_ms_def middle_def)
qed

lemma unat_getMs: "unat (getMs t) = unat (seconds t) * 1000 + unat (fractional t) div 4294967"
proof -
  have b: "unat (seconds t) < 4294967296" "unat (fractional t) div 4294967 < 4294967296"
    using unat32_bound [of "seconds t"] unat32_bound [of "fractional t"] by simp_all
  have "unat (ucast (seconds t) * 1000 :: u64) = unat (seconds t) * 1000"
    using b(1) by (simp add: unat_word_ariths unsigned_ucast_eq take_bit_nat_eq_self)
  moreover have "unat (ucast (fractional t div 4294967) :: u64) = unat (fractional t) div 4294967"
    using b(2) by (simp add: unsigned_ucast_eq unat_div take_bit_nat_eq_self)
  ultimately show ?thesis
    using b by (simp add: getMs_def unat_word_ariths)
qed

definition ms :: "NtpTime \<Rightarrow> int" where
  "ms t = int (unat (getMs t))"

lemma ms_value: "ms t = uint (seconds t) * 1000 + uint (fractional t) div 4294967"
  unfolding ms_def unat_getMs by (simp add: zdiv_int)

lemma uint32_bound: "0 \<le> uint (w :: u32)" "uint (w :: u32) < 4294967296"
  using uint_lt2p [of w] by simp_all

lemma uint_middle:
  "uint (seconds (middle t)) = uint (seconds t) mod 65536"
  "uint (fractional (middle t)) = uint (fractional t) - uint (fractional t) mod 65536"
proof -
  have "seconds (middle t) = take_bit 16 (seconds t)" by (simp add: middle_def mask_words(1) take_bit_eq_mask)
  then show "uint (seconds (middle t)) = uint (seconds t) mod 65536"
    by (simp only: unsigned_take_bit_eq) (simp add: take_bit_eq_mod)
  have "fractional (middle t) = fractional t - take_bit 16 (fractional t)"
  proof -
    have "fractional t = fractional (middle t) OR take_bit 16 (fractional t)"
      unfolding middle_def NtpTime.sel mask_words by (rule bit_word_eqI) (auto simp: bit_simps)
    also have "\<dots> = fractional (middle t) + take_bit 16 (fractional t)"
      by (rule disjunctive_add_eq_or [symmetric])
        (unfold middle_def NtpTime.sel mask_words, rule bit_word_eqI, auto simp: bit_simps)
    finally show ?thesis by (simp add: algebra_simps)
  qed
  moreover have "uint (take_bit 16 (fractional t)) \<le> uint (fractional t)"
    by (simp only: unsigned_take_bit_eq) (simp add: take_bit_eq_mod zmod_le_nonneg_dividend)
  ultimately have "uint (fractional (middle t)) = uint (fractional t) - uint (take_bit 16 (fractional t))"
    by (simp add: uint_sub_if_size)
  then show "uint (fractional (middle t)) = uint (fractional t) - uint (fractional t) mod 65536"
    by (simp only: unsigned_take_bit_eq) (simp add: take_bit_eq_mod)
qed

lemma ms_middle:
  obtains \<delta> where "ms t = 65536000 * (uint (seconds t) div 65536) + ms (middle t) + \<delta>" "0 \<le> \<delta>" "\<delta> \<le> 1"
proof -
  let ?s = "uint (seconds t)" and ?f = "uint (fractional t)"
  have s: "?s * 1000 = 65536000 * (?s div 65536) + ?s mod 65536 * 1000"
    using mult_div_mod_eq [of 65536 ?s] by linarith
  have f: "(?f - ?f mod 65536) div 4294967 \<le> ?f div 4294967" "?f div 4294967 \<le> (?f - ?f mod 65536) div 4294967 + 1"
  proof -
    have m: "0 \<le> ?f mod 65536" "?f mod 65536 < 65536" by simp_all
    show "(?f - ?f mod 65536) div 4294967 \<le> ?f div 4294967" using m by (intro zdiv_mono1) simp_all
    have "?f div 4294967 \<le> (?f - ?f mod 65536 + 4294967) div 4294967" using m by (intro zdiv_mono1) simp_all
    then show "?f div 4294967 \<le> (?f - ?f mod 65536) div 4294967 + 1" by simp
  qed
  have "ms t = 65536000 * (?s div 65536) + ms (middle t) + (?f div 4294967 - (?f - ?f mod 65536) div 4294967)"
    unfolding ms_value uint_middle using s by linarith
  with f show thesis by (intro that [of "?f div 4294967 - (?f - ?f mod 65536) div 4294967"]) linarith+
qed

lemma ms_middle_bounds: "0 \<le> ms (middle t)" "ms (middle t) \<le> 65536000"
proof -
  have "uint (seconds (middle t)) \<le> 65535" unfolding uint_middle using pos_mod_bound [of 65536 "uint (seconds t)"] by simp
  moreover have "uint (fractional (middle t)) div 4294967 \<le> 1000"
    using zdiv_mono1 [of "uint (fractional (middle t))" 4294967295 4294967] uint32_bound(2) [of "fractional (middle t)"] by simp
  ultimately show "ms (middle t) \<le> 65536000" unfolding ms_value by linarith
qed (simp add: ms_def)

text \<open>A difference of times that fits an \<open>int\<close> is exact.\<close>

lemma sint_small:
  assumes "uint (w :: u64) < 2 ^ 31"
  shows "sint (ucast w :: u32) = uint w"
proof -
  have "uint (ucast w :: u32) = uint w" using assms by (simp add: unsigned_ucast_eq take_bit_int_eq_self)
  moreover have "signed_take_bit 31 (uint w) = uint w"
    using assms order_trans [of "- (2 ^ 31)" 0 "uint w"] by (intro signed_take_bit_int_eq_self) simp_all
  ultimately show ?thesis by (simp add: sint_uint)
qed

lemma ms_difference_exact:
  assumes "\<bar>uint a - uint b\<bar> < 2 ^ 31"
  shows "ms_difference a b = uint a - uint b"
proof (cases "a < b")
  case True
  then have "uint (b - a) = uint b - uint a" by (simp add: uint_sub_if_size word_less_def)
  moreover from this have "sint (ucast (b - a) :: u32) = uint b - uint a" using assms by (subst sint_small) simp_all
  ultimately show ?thesis using True assms by (simp add: ms_difference_def int32_self)
next
  case False
  then have "uint (a - b) = uint a - uint b" by (simp add: uint_sub_if_size word_less_def)
  then show ?thesis using False assms by (simp add: ms_difference_def sint_small)
qed

lemma ms_uint: "uint (getMs t) = ms t"
  by (simp add: ms_def)

lemma ms_mono:
  assumes "ntp_greater b a"
  shows "ms a \<le> ms b"
proof -
  have f: "uint (fractional a) div 4294967 \<le> 1000"
    using zdiv_mono1 [of "uint (fractional a)" 4294967295 4294967] uint32_bound(2) [of "fractional a"] by simp
  show ?thesis
  proof (cases "seconds a = seconds b")
    case True
    then have "uint (fractional a) \<le> uint (fractional b)" using assms by (simp add: ntp_greater_def word_less_def)
    then show ?thesis unfolding ms_value True by (intro add_left_mono zdiv_mono1) simp_all
  next
    case False
    then have "uint (seconds a) + 1 \<le> uint (seconds b)" using assms by (simp add: ntp_greater_def word_less_def)
    moreover have "0 \<le> uint (fractional b) div 4294967" by (simp add: pos_imp_zdiv_nonneg_iff)
    ultimately show ?thesis unfolding ms_value using f by linarith
  qed
qed

lemma lastSRDelay_ms:
  assumes "lastSRTimestamp s \<noteq> 0" "ntp_greater t (recvLastSRTimestamp s)" "(ms t - ms (recvLastSRTimestamp s)) * 65 < 2 ^ 32"
  shows "uint (lastSRDelay t s div 65) = ms t - ms (recvLastSRTimestamp s)"
proof -
  let ?d = "ms t - ms (recvLastSRTimestamp s)"
  have d: "0 \<le> ?d" using ms_mono [OF assms(2)] by simp
  then have "uint (getMs t - getMs (recvLastSRTimestamp s)) = ?d"
    by (simp add: uint_sub_if_size ms_uint)
  then have u: "uint (ucast (getMs t - getMs (recvLastSRTimestamp s)) :: u32) = ?d"
    using d assms(3) by (simp add: unsigned_ucast_eq take_bit_int_eq_self)
  have "uint (ucast (getMs t - getMs (recvLastSRTimestamp s)) * 65 :: u32) = ?d * 65"
    unfolding uint_word_ariths u using d assms(3) by (simp add: mod_pos_pos_trivial)
  then show ?thesis using assms(1,2) by (simp add: lastSRDelay_def uint_div)
qed

lemma round_trip_value:
  assumes "uint (d div 65) < 2 ^ 27"
  shows "round_trip t3 (sr_stamp t0) d = ms (middle t3) - ms (middle t0) - uint (d div 65)"
proof -
  have m: "NtpTime (seconds t3 AND 0xFFFF) (fractional t3 AND 0xFFFF0000) = middle t3" by (simp add: middle_def)
  have "ms_difference (getMs (middle t3)) (getMs (middle t0)) = ms (middle t3) - ms (middle t0)"
    using ms_middle_bounds [of t3] ms_middle_bounds [of t0]
    by (subst ms_difference_exact) (simp_all add: ms_uint abs_if)
  moreover have "int32 (ms (middle t3) - ms (middle t0) - uint (d div 65)) = ms (middle t3) - ms (middle t0) - uint (d div 65)"
    using assms ms_middle_bounds [of t3] ms_middle_bounds [of t0] uint32_bound(1) [of "d div 65"]
    by (intro int32_self; simp only: power_numeral_even power_numeral_odd power_one_right; simp; linarith)
  ultimately show ?thesis unfolding round_trip_def m stamp_middle by simp
qed

lemma round_trip_error:
  assumes "uint (d div 65) = \<Delta>" "\<Delta> < 2 ^ 27"
  shows "\<bar>round_trip t3 (sr_stamp t0) d -
    (ms t3 - ms t0 - \<Delta> - 65536000 * (uint (seconds t3) div 65536 - uint (seconds t0) div 65536))\<bar> \<le> 1"
proof -
  obtain x where x: "ms t3 = 65536000 * (uint (seconds t3) div 65536) + ms (middle t3) + x" "0 \<le> x" "x \<le> 1" by (rule ms_middle)
  obtain y where y: "ms t0 = 65536000 * (uint (seconds t0) div 65536) + ms (middle t0) + y" "0 \<le> y" "y \<le> 1" by (rule ms_middle)
  have "round_trip t3 (sr_stamp t0) d = ms (middle t3) - ms (middle t0) - \<Delta>"
    using round_trip_value assms by simp
  with x y show ?thesis by (simp add: algebra_simps)
qed

section \<open>A report and its answer\<close>

lemma sent_session_rr:
  "s_rr (sent_session w t s) = (if has_rtcpRecv s \<and> sourceSet (rtp_recv (s_rr s))
     then reported (ssrc (rtp_recv (s_rr s))) (current_entry (s_rr s)) (s_rr s) else s_rr s)"
  by (simp add: sent_session_def keep_rr_def s_rtcpRecv_def after_report_def)

lemma reported_counters [simp]:
  "rtcp_packetReceived (reported src e rr) = rtcp_packetReceived rr"
  "accumRoundTripDelay (reported src e rr) = accumRoundTripDelay rr"
  by (simp_all add: reported_def set_tranInfoList_def)

lemma sent_session_attending:
  assumes "attending s"
  shows "attending (sent_session w t s)" "accumRoundTripDelay (s_rr (sent_session w t s)) = accumRoundTripDelay (s_rr s)"
proof -
  have "entries_sized (s_rr (sent_session w t s))"
  proof (cases "sourceSet (rtp_recv (s_rr s))")
    case True
    have "tranInfoList (s_rr s) (ssrc (rtp_recv (s_rr s))) = Some (current_entry (s_rr s))"
      using assms True rtcp_invD(4) by (simp add: attending_def)
    then show ?thesis
      using assms True by (auto simp: attending_def entries_sized_def sent_session_rr reported_def)
  qed (use assms in \<open>simp add: attending_def sent_session_rr\<close>)
  moreover have "rtcp_inv (s_rr (sent_session w t s))"
    using assms sent_session_inv [of s w t] by (simp add: attending_def)
  moreover have "counting (s_rr (sent_session w t s))"
    using assms by (simp add: attending_def sent_session_rr counting_def)
  ultimately show "attending (sent_session w t s)"
    using assms by (simp add: attending_def can_receive_def sent_session_fields)
  show "accumRoundTripDelay (s_rr (sent_session w t s)) = accumRoundTripDelay (s_rr s)"
    by (simp add: sent_session_rr)
qed

lemma understood_delay:
  "accumRoundTripDelay (understood sent now src info ts pr rr) =
    (case pr of
       None \<Rightarrow> accumRoundTripDelay rr
     | Some r \<Rightarrow>
         if sourceSet (rtp_recv r) \<and> short_ms (lastSRTimestamp (current_entry r)) \<noteq> 0
         then int32 (accumRoundTripDelay rr + round_trip now (lastSRTimestamp (current_entry r)) (lastSRDelay sent (current_entry r)))
         else accumRoundTripDelay rr)"
proof -
  have "accumRoundTripDelay (note_sender sent now src rr) = accumRoundTripDelay rr"
    by (simp add: note_sender_def Let_def)
  then show ?thesis
    by (simp add: understood_def note_reports_def note_round_trip_def Let_def split: option.splits)
qed

definition engaged_with :: "u32 \<Rightarrow> RtpSession \<Rightarrow> bool" where
  "engaged_with src s \<longleftrightarrow> sourceSet (rtp_recv (s_rr s)) \<and> ssrc (rtp_recv (s_rr s)) = src"

text \<open>The state of the second session after it read a report of its current source.\<close>

lemma understood_current:
  assumes "engaged_with src b" "rr = understood sent now src info ts pr (s_rr b)"
  shows "sourceSet (rtp_recv rr)" "lastSRTimestamp (current_entry rr) = sr_stamp sent"
    "recvLastSRTimestamp (current_entry rr) = now"
  using assms by (simp_all add: engaged_with_def current_entry_def understood_rtp(1) understood_entry)

lemma round_trip_exchange:
  assumes a: "reporting a rta ta ia" "can_send a" "attending a"
    and b: "reporting b rtb tb ib" "can_send b" "attending b" "engaged_with (tx_ssrc rta) b"
    and t0: "ms (middle t0) \<noteq> 0" and t2: "ntp_greater t2 t1" "(ms t2 - ms t1) * 65 < 2 ^ 32"
  shows "\<exists>w a1 b1 v b2 a2 rtt. transmitRTCP udp t0 a = Inr (udp w, a1) \<and>
    map_option rtcp_queued (s_rtcpTran a1) = Some (rtcp_queued ta @ [(w, rtcp_remoteAddr ta)]) \<and>
    receiveRTCP (Received w) (\<lambda>_. t1) b = Inr (2, b1) \<and> transmitRTCP udp t2 b1 = Inr (udp v, b2) \<and>
    map_option rtcp_queued (s_rtcpTran b2) = Some (rtcp_queued tb @ [(v, rtcp_remoteAddr tb)]) \<and> receiveRTCP (Received v) (\<lambda>_. t3) a1 = Inr (2, a2) \<and>
    accumRoundTripDelay (s_rr a2) = int32 (accumRoundTripDelay (s_rr a) + rtt) \<and>
    \<bar>rtt - (ms t3 - ms t0 - (ms t2 - ms t1) - 65536000 * (uint (seconds t3) div 65536 - uint (seconds t0) div 65536))\<bar> \<le> 1"
proof -
  let ?w = "report_packet t0 a rta ia"
  let ?a1 = "sent_session ?w ta a"
  let ?rb = "understood t0 t1 (tx_ssrc rta) ia (known_types ia) (s_rtcpRecv a) (s_rr b)"
  let ?b1 = "b\<lparr>s_rr := ?rb\<rparr>" and ?e = "current_entry ?rb"
  let ?v = "report_packet t2 ?b1 rtb ib"
  let ?ra = "understood t2 t3 (tx_ssrc rtb) ib (known_types ib) (s_rtcpRecv ?b1) (s_rr ?a1)"
  have e: "sourceSet (rtp_recv ?rb)" "lastSRTimestamp ?e = sr_stamp t0" "recvLastSRTimestamp ?e = t1"
    using understood_current [OF b(4) refl] by simp_all
  have "rtcp_inv ?rb" using b(3) by (intro understood_inv) (simp add: attending_def)
  then have b1: "reporting ?b1 rtb tb ib" "can_send ?b1" using b(1,2) by (simp_all add: reporting_def can_send_def)
  have rr: "s_rtcpRecv ?b1 = Some ?rb" using b(3) by (simp add: s_rtcpRecv_def attending_def)
  have z: "short_ms (lastSRTimestamp ?e) \<noteq> 0" "lastSRTimestamp ?e \<noteq> 0"
  proof -
    show "short_ms (lastSRTimestamp ?e) \<noteq> 0" using t0 unfolding e(2) stamp_middle ms_def by auto
    moreover have "short_ms 0 = 0" by (simp add: short_ms_def getMs_def)
    ultimately show "lastSRTimestamp ?e \<noteq> 0" by auto
  qed
  have d: "uint (lastSRDelay t2 ?e div 65) = ms t2 - ms t1"
    using lastSRDelay_ms [of ?e t2] z(2) t2 e(3) by simp
  let ?rtt = "round_trip t3 (sr_stamp t0) (lastSRDelay t2 ?e)"
  have "accumRoundTripDelay ?ra = int32 (accumRoundTripDelay (s_rr a) + ?rtt)"
    unfolding understood_delay rr using e z sent_session_attending(2) [OF a(3), of ?w ta] by simp
  moreover have "\<bar>?rtt - (ms t3 - ms t0 - (ms t2 - ms t1) - 65536000 * (uint (seconds t3) div 65536 - uint (seconds t0) div 65536))\<bar> \<le> 1"
    using t2(2) by (intro round_trip_error [OF d]) simp
  moreover have "receiveRTCP (Received ?v) (\<lambda>_. t3) ?a1 = Inr (2, ?a1\<lparr>s_rr := ?ra\<rparr>)"
    using report_accepted [OF b1(1) sent_session_attending(1) [OF a(3), of ?w ta], of t2 "\<lambda>_. t3"] by simp
  ultimately show ?thesis
    using transmitRTCP_wire(1) [OF a(1,2), of udp t0] report_accepted [OF a(1) b(3), of t0 "\<lambda>_. t1"] transmitRTCP_wire(1) [OF b1, of udp t2]
    by (intro exI [of _ ?w] exI [of _ ?a1] exI [of _ ?b1] exI [of _ ?v] exI [of _ "sent_session ?v tb ?b1"]
        exI [of _ "?a1\<lparr>s_rr := ?ra\<rparr>"] exI [of _ ?rtt]) (simp add: sent_session_fields)
qed

text \<open>C14: From a report it sent at \<open>t0\<close>, which the peer read at \<open>t1\<close> and answered at \<open>t2\<close>, a session that
  reads the answer at \<open>t3\<close> adds to its round-trip total the time between \<open>t0\<close> and \<open>t3\<close> less the
  time the peer took, up to one millisecond; but for every multiple of 65536 seconds of the clock
  that was passed in between (one every 18 hours) the value is too small by 65536 seconds, since
  the 16 bits of seconds are not subtracted modulo their width.\<close>

theorem round_trip_measured:
  assumes a: "reporting a rta ta ia" "can_send a" "attending a"
    and b: "reporting b rtb tb ib" "can_send b" "attending b" "engaged_with (tx_ssrc rta) b"
    and t0: "ms (middle t0) \<noteq> 0" and t2: "ntp_greater t2 t1" "(ms t2 - ms t1) * 65 < 2 ^ 32"
  shows "\<exists>w a1 b1 v b2 a2 rtt. transmitRTCP udp t0 a = Inr (udp w, a1) \<and>
    map_option rtcp_queued (s_rtcpTran a1) = Some (rtcp_queued ta @ [(w, rtcp_remoteAddr ta)]) \<and>
    receiveRTCP (Received w) (\<lambda>_. t1) b = Inr (2, b1) \<and> transmitRTCP udp t2 b1 = Inr (udp v, b2) \<and>
    map_option rtcp_queued (s_rtcpTran b2) = Some (rtcp_queued tb @ [(v, rtcp_remoteAddr tb)]) \<and> receiveRTCP (Received v) (\<lambda>_. t3) a1 = Inr (2, a2) \<and>
    accumRoundTripDelay (s_rr a2) = int32 (accumRoundTripDelay (s_rr a) + rtt) \<and>
    \<bar>rtt - (ms t3 - ms t0 - (ms t2 - ms t1) - 65536000 * (uint (seconds t3) div 65536 - uint (seconds t0) div 65536))\<bar> \<le> 1"
  by (rule round_trip_exchange [OF assms])

definition answering_session :: RtpSession where
  "answering_session = reporting_session\<lparr>s_rr := constructRtcpReceiver (example_listener)
     \<lparr>rtp_recv := example_listener\<lparr>sourceSet := True, ssrc := 77, probation := 0,
        rtcpRecv := Some [77 \<mapsto> new_RtpTranInfo 77 True]\<rparr>\<rparr>\<rparr>"

lemma reporting_session_attending: "attending reporting_session"
  using example_session_attending by (simp add: attending_def reporting_session_def can_receive_def)

lemma answering_session_inv: "rtcp_inv (s_rr answering_session)"
  by (simp add: answering_session_def rtcp_inv_def tran_inv_def tran_ok_def)

lemma answering_session_ok:
  "reporting answering_session example_transmitter (example_rtcpTran\<lparr>tx_SDESInfo := Some example_info\<rparr>) example_info"
  "can_send answering_session" "attending answering_session" "engaged_with (tx_ssrc example_transmitter) answering_session"
proof -
  show "reporting answering_session example_transmitter (example_rtcpTran\<lparr>tx_SDESInfo := Some example_info\<rparr>) example_info"
    "can_send answering_session"
    using reporting_session_ok answering_session_inv by (simp_all add: reporting_def answering_session_def can_send_def)
  show "engaged_with (tx_ssrc example_transmitter) answering_session"
    by (simp add: engaged_with_def answering_session_def example_transmitter_def)
  have "tranInfoList (s_rr answering_session) = [77 \<mapsto> new_RtpTranInfo 77 True]"
    by (simp add: answering_session_def tranInfoList_def)
  then have "entries_sized (s_rr answering_session)" by (auto simp: entries_sized_def sdes_sizes_blank split: if_splits)
  moreover have "counting (s_rr answering_session)"
    by (simp add: counting_def answering_session_def constructRtcpReceiver_def)
  ultimately show "attending answering_session"
    using answering_session_inv reporting_session_attending by (simp add: attending_def answering_session_def can_receive_def)
qed

theorem round_trip_measured_witness:
  "\<exists>w a1 b1 v b2 a2 rtt. transmitRTCP (\<lambda>bs. int (length bs)) (NtpTime 30 0) reporting_session = Inr (int (length w), a1) \<and>
    map_option rtcp_queued (s_rtcpTran a1) = Some (rtcp_queued (example_rtcpTran\<lparr>tx_SDESInfo := Some example_info\<rparr>) @ [(w, rtcp_remoteAddr (example_rtcpTran\<lparr>tx_SDESInfo := Some example_info\<rparr>))]) \<and>
    receiveRTCP (Received w) (\<lambda>_. NtpTime 30 500000000) answering_session = Inr (2, b1) \<and>
    transmitRTCP (\<lambda>bs. int (length bs)) (NtpTime 32 0) b1 = Inr (int (length v), b2) \<and>
    map_option rtcp_queued (s_rtcpTran b2) = Some (rtcp_queued (example_rtcpTran\<lparr>tx_SDESInfo := Some example_info\<rparr>) @ [(v, rtcp_remoteAddr (example_rtcpTran\<lparr>tx_SDESInfo := Some example_info\<rparr>))]) \<and> receiveRTCP (Received v) (\<lambda>_. NtpTime 33 0) a1 = Inr (2, a2) \<and>
    accumRoundTripDelay (s_rr a2) = int32 (accumRoundTripDelay (s_rr reporting_session) + rtt) \<and>
    \<bar>rtt - (ms (NtpTime 33 0) - ms (NtpTime 30 0) - (ms (NtpTime 32 0) - ms (NtpTime 30 500000000)) -
      65536000 * (uint (seconds (NtpTime 33 0)) div 65536 - uint (seconds (NtpTime 30 0)) div 65536))\<bar> \<le> 1"
proof (rule round_trip_measured [OF reporting_session_ok reporting_session_attending answering_session_ok])
  show "ms (middle (NtpTime 30 0)) \<noteq> 0" unfolding ms_def middle_def by code_simp
  show "ntp_greater (NtpTime 32 0) (NtpTime 30 500000000)" by (simp add: ntp_greater_def)
  show "(ms (NtpTime 32 0) - ms (NtpTime 30 500000000)) * 65 < 2 ^ 32" unfolding ms_def by code_simp
qed

section \<open>Lost packets\<close>

text \<open>\<open>n\<close> packets with consecutive sequence numbers from \<open>seed\<close> on pass \<open>checkCycle\<close>.\<close>

definition in_sequence :: "nat \<Rightarrow> nat \<Rightarrow> u16 list" where
  "in_sequence seed n = map (\<lambda>i. word_of_nat (seed + i)) [0..<n]"

lemma checkCycle_next:
  assumes "realPrevSeqRecv r = word_of_nat k"
  shows "recv_cycles (checkCycle (word_of_nat (Suc k)) r) = recv_cycles r + (if Suc k mod 65536 = 0 then 1 else 0)"
    "realPrevSeqRecv (checkCycle (word_of_nat (Suc k)) r) = word_of_nat (Suc k)"
proof -
  have u: "unat (word_of_nat n :: u16) = n mod 65536" for n
    by (simp add: unsigned_of_nat take_bit_eq_mod)
  have "word_of_nat k > (word_of_nat (Suc k) :: u16) \<and> uint (word_of_nat k :: u16) > uint (word_of_nat (Suc k) :: u16) + 10000 \<longleftrightarrow>
      Suc k mod 65536 = 0"
    unfolding word_less_nat_alt uint_nat u by (auto simp: mod_Suc)
  then show "recv_cycles (checkCycle (word_of_nat (Suc k)) r) = recv_cycles r + (if Suc k mod 65536 = 0 then 1 else 0)"
    "realPrevSeqRecv (checkCycle (word_of_nat (Suc k)) r) = word_of_nat (Suc k)"
    using assms by (simp_all add: checkCycle_def del: of_nat_Suc)
qed

lemma checkCycle_sequence:
  assumes r: "realPrevSeqRecv r = 0" "recv_cycles r = 0" and seed: "seed < 65536"
  shows "recv_cycles (fold checkCycle (in_sequence seed (Suc n)) r) = word_of_nat ((seed + n) div 65536) \<and>
    realPrevSeqRecv (fold checkCycle (in_sequence seed (Suc n)) r) = word_of_nat (seed + n) \<and>
    seedSeq (fold checkCycle (in_sequence seed (Suc n)) r) = seedSeq r"
proof (induction n)
  case 0
  have "\<not> (0 :: u16) > word_of_nat seed" by simp
  then show ?case using r seed by (simp add: in_sequence_def checkCycle_def)
next
  case (Suc n)
  let ?r = "fold checkCycle (in_sequence seed (Suc n)) r"
  have step: "fold checkCycle (in_sequence seed (Suc (Suc n))) r = checkCycle (word_of_nat (Suc (seed + n))) ?r"
    by (simp add: in_sequence_def ac_simps)
  have "Suc (seed + n) div 65536 = (seed + n) div 65536 + (if Suc (seed + n) mod 65536 = 0 then 1 else 0)"
    by (simp add: div_Suc)
  then have "(word_of_nat (Suc (seed + n) div 65536) :: u32) =
      word_of_nat ((seed + n) div 65536) + (if Suc (seed + n) mod 65536 = 0 then 1 else 0)"
    by (simp only: of_nat_add) simp
  moreover have "seedSeq (checkCycle ts r) = seedSeq r" for ts r by (simp add: checkCycle_def)
  ultimately show ?case
    using Suc checkCycle_next [of ?r "seed + n"] unfolding step by (simp del: of_nat_Suc)
qed

text \<open>C38: The count of lost packets that goes into a report is 0 when consecutive packets arrived and
  their sequence numbers did not wrap; after \<open>k\<close> wraps the count of a stream without any loss is
  \<open>-65535 k\<close>, because the cycles are added to the sequence number and not shifted above it.\<close>

theorem loss_count_after_wrap:
  assumes "realPrevSeqRecv r = 0" "recv_cycles r = 0" "seed < 65536" "seedSeq r = word_of_nat seed"
  shows "calcLostCount ((fold checkCycle (in_sequence seed (Suc n)) r)\<lparr>packetReceived := int (Suc n)\<rparr>) s =
    word_of_int (- 65535 * int ((seed + n) div 65536))"
proof -
  let ?r = "(fold checkCycle (in_sequence seed (Suc n)) r)\<lparr>packetReceived := int (Suc n)\<rparr>" and ?k = "(seed + n) div 65536"
  have c: "recv_cycles ?r = word_of_nat ?k" "realPrevSeqRecv ?r = word_of_nat (seed + n)" "seedSeq ?r = word_of_nat seed"
    using checkCycle_sequence [OF assms(1-3), of n] assms(4) by simp_all
  have "(ucast (word_of_nat (seed + n) :: u16) :: u32) = word_of_nat ((seed + n) mod 65536)"
    by (simp only: unsigned_of_nat of_nat_numeral) (simp add: take_bit_eq_mod)
  then have "calcLostCount ?r s = word_of_nat ?k + word_of_nat ((seed + n) mod 65536) - word_of_nat seed + 1 - word_of_nat (Suc n)"
    using c by (simp add: calcLostCount_def lost_expected_def)
  also have "\<dots> = word_of_int (int ?k + int ((seed + n) mod 65536) - int seed + 1 - int (Suc n))" by simp
  also have "int ?k + int ((seed + n) mod 65536) - int seed + 1 - int (Suc n) = - 65535 * int ?k"
  proof -
    have "int (seed + n) = 65536 * int ?k + int ((seed + n) mod 65536)"
      by (metis mult_div_mod_eq of_nat_add of_nat_mult of_nat_numeral)
    then show ?thesis by simp
  qed
  finally show ?thesis .
qed

theorem loss_count_after_wrap_witness:
  "calcLostCount ((fold checkCycle (in_sequence 65534 (Suc 5)) (example_listener\<lparr>seedSeq := word_of_nat 65534\<rparr>))\<lparr>packetReceived := int (Suc 5)\<rparr>)
      (new_RtpTranInfo 9 True) = word_of_int (- 65535 * int ((65534 + 5) div 65536))"
  by (rule loss_count_after_wrap) (simp_all add: example_listener_def blank_receiver_def)

section \<open>Times of reports\<close>

definition rand_ok :: "int \<Rightarrow> int \<Rightarrow> bool" where
  "rand_ok RAND_MAX rand \<longleftrightarrow> 32767 \<le> RAND_MAX \<and> 0 \<le> rand \<and> rand \<le> RAND_MAX"

lemma interval_delay:
  assumes "rand_ok RAND_MAX rand"
  obtains d where "updateInterval RAND_MAX rand t = t\<lparr>nextInterval := ntp_plus (nextInterval t) (word_of_nat d)\<rparr>" "2500 \<le> d" "d \<le> 7655"
proof -
  let ?q = "RAND_MAX div 1000" and ?d = "rand div (RAND_MAX div 1000)"
  have q: "32 \<le> ?q" using assms zdiv_mono1 [of 32767 RAND_MAX 1000] by (simp add: rand_ok_def)
  have "RAND_MAX = 1000 * ?q + RAND_MAX mod 1000" "RAND_MAX mod 1000 < 1000" by simp_all
  then have "rand < 1032 * ?q" using assms q unfolding rand_ok_def by linarith
  moreover have "?q * ?d \<le> rand" using q mult_div_mod_eq [of ?q rand] pos_mod_sign [of ?q rand] by linarith
  ultimately have "?d < 1032" using q mult_left_mono [of 1032 ?d ?q] by linarith
  moreover have "0 \<le> ?d" using q assms by (simp add: rand_ok_def pos_imp_zdiv_nonneg_iff)
  moreover have "c_div RAND_MAX 1000 = ?q" "c_div rand ?q = ?d" using assms q by (simp_all add: c_div_nonneg rand_ok_def)
  moreover have "c_div (5000 * (500 + ?d)) 1000 = 2500 + 5 * ?d"
    using \<open>0 \<le> ?d\<close> by (simp add: c_div_nonneg)
  ultimately show thesis
    using that [of "nat (2500 + 5 * ?d)"] by (simp add: updateInterval_def RTCP_INTERVAL_def)
qed

fun check_all :: "int \<Rightarrow> (int \<times> NtpTime) list \<Rightarrow> RtcpTransmitter \<Rightarrow> int \<times> RtcpTransmitter" where
  "check_all RAND_MAX [] t = (0, t)"
| "check_all RAND_MAX ((rand, now) # calls) t =
     (let (due, t) = checkInterval RAND_MAX rand now t; (n, t) = check_all RAND_MAX calls t in (due + n, t))"

text \<open>2.5 and 8 seconds on the scale of \<open>ntp_value\<close>.\<close>

definition least_gap :: nat where "least_gap = 2 * 2 ^ 32 + 500 * 4294967"
definition largest_gap :: nat where "largest_gap = 8 * 2 ^ 32"

lemma ms_fraction_bounds:
  assumes "2500 \<le> d" "d \<le> 7655"
  shows "least_gap \<le> ms_fraction (word_of_nat d)" "ms_fraction (word_of_nat d) \<le> largest_gap"
proof -
  have u: "unat (word_of_nat d :: u32) = d" using assms by (simp add: unsigned_of_nat take_bit_nat_eq_self)
  have m: "ms_fraction (word_of_nat d) = d div 1000 * 2 ^ 32 + d mod 1000 * 4294967" unfolding ms_fraction_def u ..
  have r: "d = 1000 * (d div 1000) + d mod 1000" "d mod 1000 < 1000" by simp_all
  have "2 \<le> d div 1000" "d div 1000 \<le> 7" using assms div_le_mono [of 2000 d 1000] div_le_mono [of d 7999 1000] by simp_all
  moreover have "3 \<le> d div 1000 \<or> 500 \<le> d mod 1000" using assms(1) r by linarith
  ultimately show "least_gap \<le> ms_fraction (word_of_nat d)" "ms_fraction (word_of_nat d) \<le> largest_gap"
    using r(2) unfolding m least_gap_def largest_gap_def by (auto simp: algebra_simps)
qed

lemma checkInterval_step:
  assumes "rand_ok RAND_MAX rand" "ntp_value now \<le> T" "T + largest_gap < 2 ^ 64"
    and c: "checkInterval RAND_MAX rand now t = (due, t')"
  shows "(due = 0 \<and> t' = t \<and> ntp_value now \<le> ntp_value (nextInterval t)) \<or>
    (due = 1 \<and> ntp_value (nextInterval t) < T \<and>
     ntp_value (nextInterval t) + least_gap \<le> ntp_value (nextInterval t') \<and>
     ntp_value (nextInterval t') \<le> ntp_value (nextInterval t) + largest_gap)"
proof (cases "ntp_greater now (nextInterval t)")
  case True
  obtain d where d: "updateInterval RAND_MAX rand t = t\<lparr>nextInterval := ntp_plus (nextInterval t) (word_of_nat d)\<rparr>" "2500 \<le> d" "d \<le> 7655"
    by (rule interval_delay [OF assms(1)])
  have l: "ntp_value (nextInterval t) < T" using True assms(2) by (simp add: ntp_greater_value)
  have "t' = t\<lparr>nextInterval := ntp_plus (nextInterval t) (word_of_nat d)\<rparr>"
    using c True unfolding d(1) [symmetric] by (simp add: checkInterval_def)
  then have "ntp_value (nextInterval t') = ntp_value (nextInterval t) + ms_fraction (word_of_nat d)"
    using l ms_fraction_bounds(2) [OF d(2,3)] assms(3) by (simp add: ntp_plus_value)
  then show ?thesis using c True l ms_fraction_bounds [OF d(2,3)] by (auto simp: checkInterval_def)
next
  case False
  then show ?thesis using c by (auto simp: checkInterval_def ntp_greater_value)
qed

lemma check_all_gap:
  assumes "\<forall>(rand, now) \<in> set calls. rand_ok RAND_MAX rand \<and> ntp_value now \<le> T" "T + largest_gap < 2 ^ 64"
    and "check_all RAND_MAX calls t = (n, t')"
  shows "0 \<le> n \<and> int (ntp_value (nextInterval t)) + n * int least_gap \<le> int (ntp_value (nextInterval t')) \<and>
    int (ntp_value (nextInterval t')) \<le> int (ntp_value (nextInterval t)) + n * int largest_gap \<and>
    (n = 0 \<or> ntp_value (nextInterval t') < T + largest_gap) \<and>
    (n = 0 \<or> int (ntp_value (nextInterval t)) + (n - 1) * int least_gap < int T)"
  using assms(1,3)
proof (induction calls arbitrary: t n)
  case (Cons c calls)
  obtain rand now where c: "c = (rand, now)" by fastforce
  obtain due u where u: "checkInterval RAND_MAX rand now t = (due, u)" by fastforce
  obtain m where m: "check_all RAND_MAX calls u = (m, t')" "n = due + m"
    using Cons.prems(2) by (auto simp: c u Let_def split: prod.splits)
  have s: "rand_ok RAND_MAX rand" "ntp_value now \<le> T" using Cons.prems(1) by (auto simp: c)
  have IH: "0 \<le> m \<and> int (ntp_value (nextInterval u)) + m * int least_gap \<le> int (ntp_value (nextInterval t')) \<and>
    int (ntp_value (nextInterval t')) \<le> int (ntp_value (nextInterval u)) + m * int largest_gap \<and>
    (m = 0 \<or> ntp_value (nextInterval t') < T + largest_gap) \<and>
    (m = 0 \<or> int (ntp_value (nextInterval u)) + (m - 1) * int least_gap < int T)"
    using Cons.prems(1) by (intro Cons.IH m(1)) auto
  from checkInterval_step [OF s assms(2) u] show ?case
  proof (elim disjE conjE)
    assume "due = 0" "u = t"
    then show ?thesis using IH m(2) by simp
  next
    assume a: "due = 1" "ntp_value (nextInterval t) < T" "ntp_value (nextInterval t) + least_gap \<le> ntp_value (nextInterval u)"
      "ntp_value (nextInterval u) \<le> ntp_value (nextInterval t) + largest_gap"
    have n: "n * int g = int g + m * int g" for g using m(2) a(1) by (simp add: algebra_simps)
    have "m = 0 \<Longrightarrow> t' = t' \<and> ntp_value (nextInterval t') < T + largest_gap" using IH a by auto
    moreover have "m = 0 \<or> int (ntp_value (nextInterval t)) + m * int least_gap < int T"
      using IH a by (auto simp: algebra_simps)
    ultimately show ?thesis using IH a m(2) n [of least_gap] n [of largest_gap] by auto
  qed
qed simp

text \<open>C26: However often \<open>checkInterval\<close> is called, the times at which reports become due are between 2.5
  and 8 seconds apart, whatever \<open>rand\<close> returns: after \<open>n\<close> due reports the next one is due at least
  \<open>2.5 n\<close> and at most \<open>8 n\<close> seconds after the first due time, and up to any time \<open>T\<close> at most one
  report more than one every 2.5 seconds was due.\<close>

theorem reports_bounded:
  assumes "\<forall>(rand, now) \<in> set calls. 32767 \<le> RAND_MAX \<and> 0 \<le> rand \<and> rand \<le> RAND_MAX \<and> ntp_value now \<le> T" "T + 8 * 2 ^ 32 < 2 ^ 64"
    and "check_all RAND_MAX calls t = (n, t')"
  shows "0 \<le> n \<and> int (ntp_value (nextInterval t)) + n * (2 * 2 ^ 32 + 500 * 4294967) \<le> int (ntp_value (nextInterval t')) \<and>
    int (ntp_value (nextInterval t')) \<le> int (ntp_value (nextInterval t)) + n * (8 * 2 ^ 32) \<and>
    (n \<noteq> 0 \<longrightarrow> int (ntp_value (nextInterval t)) + (n - 1) * (2 * 2 ^ 32 + 500 * 4294967) < int T)"
proof -
  have "T + largest_gap < 2 ^ 64" using assms(2) by (simp add: largest_gap_def)
  from check_all_gap [OF _ this assms(3)] show ?thesis
    using assms(1) by (auto simp: least_gap_def largest_gap_def rand_ok_def)
qed

theorem reports_bounded_witness:
  "\<exists>n t'. check_all 2147483647 [(7, NtpTime 30 0), (2147483647, NtpTime 31 0)] example_rtcpTran = (n, t') \<and>
    0 \<le> n \<and> int (ntp_value (nextInterval example_rtcpTran)) + n * (2 * 2 ^ 32 + 500 * 4294967) \<le> int (ntp_value (nextInterval t')) \<and>
    int (ntp_value (nextInterval t')) \<le> int (ntp_value (nextInterval example_rtcpTran)) + n * (8 * 2 ^ 32) \<and>
    (n \<noteq> 0 \<longrightarrow> int (ntp_value (nextInterval example_rtcpTran)) + (n - 1) * (2 * 2 ^ 32 + 500 * 4294967) < int (2 ^ 40))"
proof -
  obtain n t' where c: "check_all 2147483647 [(7, NtpTime 30 0), (2147483647, NtpTime 31 0)] example_rtcpTran = (n, t')" by fastforce
  show ?thesis
    using c reports_bounded [OF _ _ c, of "2 ^ 40"] by (simp add: ntp_value_def)
qed

section \<open>The RTP time in a report\<close>

lemma report_elapsed:
  assumes "ntp_value (tx_seedNtpTime t) < ntp_value now" "ntp_distance now (tx_seedNtpTime t) < 2 ^ 31"
  shows "report_rtpTime now t =
    tx_seedRtpTime t + word_of_int (c_div (int32 (int (ntp_distance now (tx_seedNtpTime t)) * tx_clockRate t)) 1000)"
proof -
  have "ntp_diff now (tx_seedNtpTime t) = int (ntp_distance now (tx_seedNtpTime t))"
    using ntp_diff_greater [OF assms(1)] assms(2) by simp
  moreover have "int32 (int (ntp_distance now (tx_seedNtpTime t))) = int (ntp_distance now (tx_seedNtpTime t))"
    using assms(2) by (intro int32_self) simp_all
  ultimately show ?thesis
    using assms(1) by (simp add: report_rtpTime_def ntp_greater_value Let_def)
qed

text \<open>The RTP time in a sender report is the start time plus the elapsed milliseconds in samples as
  long as their product with the clock rate is below \<open>2 ^ 31\<close>, which for 8000 samples a second is
  4 minutes and 28 seconds; from then on the product overflows, and for as long again the time in
  the reports lies before the start of the transmission.\<close>

theorem report_time_overflows:
  assumes "ntp_value (tx_seedNtpTime t) < ntp_value now" "0 < tx_clockRate t" "e = int (ntp_distance now (tx_seedNtpTime t))"
    "e * tx_clockRate t < 2 ^ 32" "e < 2 ^ 31"
  shows "report_rtpTime now t =
    (if e * tx_clockRate t < 2 ^ 31 then tx_seedRtpTime t + word_of_int (e * tx_clockRate t div 1000)
     else tx_seedRtpTime t - word_of_int ((2 ^ 32 - e * tx_clockRate t) div 1000))"
proof -
  let ?p = "e * tx_clockRate t"
  have r: "report_rtpTime now t = tx_seedRtpTime t + word_of_int (c_div (int32 ?p) 1000)"
    using report_elapsed [OF assms(1)] assms(3,5) by simp
  have p: "0 \<le> ?p" using assms(2,3) by simp
  show ?thesis
  proof (cases "?p < 2 ^ 31")
    case True
    then have "int32 ?p = ?p" using p by (intro int32_self) simp_all
    then show ?thesis using r p True by (simp add: c_div_nonneg)
  next
    case False
    have "(?p + 2 ^ 31) mod 2 ^ 32 = (?p + 2 ^ 31 - 2 ^ 32) mod 2 ^ 32" by (rule minus_mod_self2 [symmetric])
    also have "\<dots> = ?p + 2 ^ 31 - 2 ^ 32" using False assms(4) by (intro mod_pos_pos_trivial) simp_all
    finally have m: "int32 ?p = ?p - 2 ^ 32" unfolding int32_mod by simp
    have "c_div (?p - 2 ^ 32) 1000 = - ((2 ^ 32 - ?p) div 1000)"
      using assms(4) by (simp add: c_div_def abs_if sgn_if)
    then show ?thesis using r m False by simp
  qed
qed

theorem report_time_overflows_witness:
  "report_rtpTime (NtpTime 309 0) example_transmitter =
    (if 300000 * tx_clockRate example_transmitter < 2 ^ 31
     then tx_seedRtpTime example_transmitter + word_of_int (300000 * tx_clockRate example_transmitter div 1000)
     else tx_seedRtpTime example_transmitter - word_of_int ((2 ^ 32 - 300000 * tx_clockRate example_transmitter) div 1000))"
  by (rule report_time_overflows) (simp_all add: example_transmitter_def ntp_value_def ntp_distance_def)

section \<open>Statistics for the application\<close>

lemma ofold_fails:
  assumes "\<forall>x \<in> set xs. \<forall>s. f x s = Inl e \<or> (\<exists>s'. f x s = Inr s')" "\<exists>x \<in> set xs. \<forall>s. f x s = Inl e"
  shows "ofold f xs s = Inl e"
  using assms
proof (induction xs arbitrary: s)
  case (Cons x xs)
  have "f x s = Inl e \<or> (\<exists>s'. f x s = Inr s')" using Cons.prems(1) by simp
  then consider "f x s = Inl e" | s' where "f x s = Inr s'" by blast
  then show ?case
  proof cases
    case 2
    then have "\<exists>y \<in> set xs. \<forall>s. f y s = Inl e" using Cons.prems(2) by (metis Inl_Inr_False set_ConsD)
    then show ?thesis using 2 Cons.IH [of s'] Cons.prems(1) by simp
  qed simp
qed simp

lemma lost_count_null:
  assumes "tranInfoList rr src = Some e" "\<not> recv_attached e"
  shows "ofold (lostCountOf rr) [0..getTranInfoCount rr - 1] n = Inl NullDeref"
proof -
  let ?k = "tran_keys (tranInfoList rr)"
  have each: "lostCountOf rr (int i) n = (if recv_attached s then Inr (int32 (n + uint (calcLostCount (rtp_recv rr) s))) else Inl NullDeref)"
    if "i < length ?k" "tranInfoList rr (?k ! i) = Some s" for i n s
    using getTranInfoList_nth [OF that] by (simp add: lostCountOf_def)
  obtain j where j: "j < length ?k" "?k ! j = src"
    using assms(1) by (metis domI in_set_conv_nth tran_keys_set(1))
  have "\<exists>s. tranInfoList rr (?k ! i) = Some s" if "i < length ?k" for i
    using nth_mem [OF that] by (auto simp: tran_keys_set)
  then have "lostCountOf rr (int i) n = Inl NullDeref \<or> (\<exists>s'. lostCountOf rr (int i) n = Inr s')" if "i < length ?k" for i n
    using each [OF that] that by (metis (full_types))
  moreover have "lostCountOf rr (int j) n = Inl NullDeref" for n using each [OF j(1)] j(2) assms by simp
  ultimately show ?thesis
    unfolding getTranInfoCount_def index_list ofold_map
    by (intro ofold_fails bexI [of _ j]) (use j(1) in auto)
qed

text \<open>Once a session has read a report of a source from which it takes no RTP packets, asking it for
  the number of lost packets goes through a null pointer: \<open>getPacketLost\<close> does not look whether an
  entry of the transmitter list has a receiver, as \<open>addSR\<close> does.\<close>

theorem packet_lost_null:
  assumes rep: "reporting s rt t info" "can_send s" and att: "attending p" "s_rtcpTran p \<noteq> None"
    and other: "\<not> (sourceSet (rtp_recv (s_rr p)) \<and> ssrc (rtp_recv (s_rr p)) = tx_ssrc rt)"
  shows "\<exists>w s' p'. transmitRTCP udp now s = Inr (udp w, s') \<and> receiveRTCP (Received w) clk p = Inr (2, p') \<and>
    getPacketLost p' = Inl NullDeref"
proof -
  let ?w = "report_packet now s rt info"
  let ?rr = "understood now (clk 0) (tx_ssrc rt) info (known_types info) (s_rtcpRecv s) (s_rr p)"
  have inv: "rtcp_inv ?rr" using att(1) by (intro understood_inv) (simp add: attending_def)
  obtain e where e: "tranInfoList ?rr (tx_ssrc rt) = Some e" by (simp add: understood_entry)
  have "\<not> recv_attached e"
    using rtcp_invD(2) [OF inv e] other by (simp add: understood_rtp(1)) auto
  then have "getPacketLost (p\<lparr>s_rr := ?rr\<rparr>) = Inl NullDeref"
    using lost_count_null [OF e] att by (auto simp: getPacketLost_def s_rtcpRecv_def attending_def)
  then show ?thesis
    using transmitRTCP_wire(1) [OF rep, of udp now] report_accepted [OF rep(1) att(1), of now clk] by blast
qed

theorem packet_lost_null_witness:
  "\<exists>w s' p'. transmitRTCP (\<lambda>bs. int (length bs)) (NtpTime 30 7) reporting_session = Inr (int (length w), s') \<and>
    receiveRTCP (Received w) (\<lambda>_. NtpTime 31 9) example_session = Inr (2, p') \<and> getPacketLost p' = Inl NullDeref"
proof (rule packet_lost_null [OF reporting_session_ok example_session_attending])
  show "s_rtcpTran example_session \<noteq> None" by (simp add: example_session_def)
  show "\<not> (sourceSet (rtp_recv (s_rr example_session)) \<and> ssrc (rtp_recv (s_rr example_session)) = tx_ssrc example_transmitter)"
    by (simp add: example_session_def constructRtcpReceiver_def setRTCPrecv_def example_listener_def blank_receiver_def)
qed

section \<open>Datagrams of any origin\<close>

text \<open>A receiver report without blocks, followed by an application-defined part.\<close>

definition app_datagram :: "u32 \<Rightarrow> nat \<Rightarrow> octet list" where
  "app_datagram src count = header_wire 0 rtcpTypeRR 1 @ be32 src @ header_wire count rtcpTypeAPP 0"

text \<open>A valid compound packet with an application-defined part, which RFC 1889 allows, stops the
  program in the assertion of \<open>readAPP\<close>: twelve octets from any host that can reach the RTCP port
  are enough.\<close>

theorem app_part_aborts:
  assumes "attending p"
  shows "receiveRTCP (Received (app_datagram src count)) clk p = Inl AssertFailed"
proof -
  let ?a = "header_wire 0 rtcpTypeRR 1 @ be32 src" and ?b = "header_wire count rtcpTypeAPP 0 @ []"
  let ?w = "app_datagram src count" and ?Z = "replicate 2036 (0 :: octet)"
  have a: "part_ok ?a" and b: "part_ok ?b"
    unfolding part_ok_def by (rule exI [of _ 0], rule exI [of _ rtcpTypeRR], rule exI [of _ 1], rule exI [of _ "be32 src"], simp)
      (rule exI [of _ count], rule exI [of _ rtcpTypeAPP], rule exI [of _ 0], rule exI [of _ "[]"], simp)
  have w: "?w = concat [?a, ?b]" "length ?w = 12" by (simp_all add: app_datagram_def)
  have g: "rtcp_getPacket (Received ?w) new_RtcpPacket = Inr (12, packet_of ?w [])"
    using getPacket_parts [of "[?a, ?b]" 0 rtcpTypeRR 1 "be32 src" "[?b]"] a b w by simp
  have d: "rtcp_data (packet_of ?w []) = ?a @ ?b @ ?Z"
    by (simp add: rtcp_data_of w(2)) (simp add: app_datagram_def)
  have "header_type (?a @ ?b @ ?Z) 0 = Inr 201" "header_count (?a @ ?b @ ?Z) 0 = Inr 0"
    using header_of_wire(1,4) [of "[]" 0 rtcpTypeRR 1 "be32 src @ ?b @ ?Z"] by simp_all
  then have "readPart (clk 0) (?a @ ?b @ ?Z) 0 0 rr = Inr (0, rr\<lparr>rtcp_packetReceived := int32 (rtcp_packetReceived rr + 1)\<rparr>)" for rr
    by (simp add: readPart_def readSR_def)
  moreover have "header_type (?a @ ?b @ ?Z) 8 = Inr 204"
    using header_of_wire(4) [of ?a count rtcpTypeAPP 0 ?Z] by simp
  then have "readPart (clk 8) (?a @ ?b @ ?Z) 8 rv rr = Inl AssertFailed" for rv rr
    by (simp add: readPart_def readAPP_def)
  ultimately have "readRTCP clk (packet_of ?w []) rr = Inl AssertFailed" for rr
    using readParts_part [OF a, of "[]" 12 clk "?b @ ?Z" 0 rr] readParts_part [OF b, of ?a 12 clk ?Z]
    by (simp add: readRTCP_def packet_of_usage d w(2))
  then show ?thesis using g assms by (simp add: receiveRTCP_def attending_def)
qed

theorem app_part_aborts_witness:
  "receiveRTCP (Received (app_datagram 5 0)) (\<lambda>_. NtpTime 31 9) example_session = Inl AssertFailed"
  by (rule app_part_aborts [OF example_session_attending])

end
