(* ===== verification/Session_Setup.thy ===== *)
theory Session_Setup
  imports Rtcp_Sessions
begin

text \<open>
  The rest of \<open>rtp/RtpSession.cxx\<close> that does not open sockets: the parameters of the two directions
  and \<open>setTransmiter\<close>, which directs a session at another peer or gives it its first transmitter.
  The addresses are made by the parameter \<open>address\<close> from host and port; the numbers that a
  transmitter starts with, the clock and the contents of new memory are arguments. The property
  is about the description that \<open>setTransmiter\<close> leaves.
\<close>

section \<open>Parameters of a session\<close>

definition on_tran :: "(RtpTransmitter \<Rightarrow> RtpTransmitter) \<Rightarrow> RtpSession \<Rightarrow> RtpSession" where
  "on_tran f s = s\<lparr>s_tran := map_option f (s_tran s)\<rparr>"

definition on_recv :: "(RtpReceiver \<Rightarrow> RtpReceiver) \<Rightarrow> RtpSession \<Rightarrow> RtpSession" where
  "on_recv f s = (if has_recv s then s\<lparr>s_rr := (s_rr s)\<lparr>rtp_recv := f (rtp_recv (s_rr s))\<rparr>\<rparr> else s)"

definition session_setFormat :: "int \<Rightarrow> int \<Rightarrow> int \<Rightarrow> int \<Rightarrow> RtpSession \<Rightarrow> RtpSession" where
  "session_setFormat type clockrate per_sample_size samplesize s =
     on_recv (\<lambda>r. (setFormat type r)\<lparr>clockRate := clockrate, perSampleSize := per_sample_size, sampleSize := samplesize\<rparr>)
      (on_tran (\<lambda>t. (setTxFormat type t)\<lparr>tx_clockRate := clockrate, tx_perSampleSize := per_sample_size,
                                        tx_sampleSize := samplesize\<rparr>) s)"

definition session_setSampleSize :: "int \<Rightarrow> RtpSession \<Rightarrow> RtpSession" where
  "session_setSampleSize no_samples s =
     on_recv (\<lambda>r. r\<lparr>sampleSize := no_samples\<rparr>) (on_tran (\<lambda>t. t\<lparr>tx_sampleSize := no_samples\<rparr>) s)"

definition session_getSampleSize :: "RtpSession \<Rightarrow> int" where
  "session_getSampleSize s = (case s_tran s of Some t \<Rightarrow> tx_sampleSize t | None \<Rightarrow> 0)"

definition session_createPacket :: "RtpPacket \<Rightarrow> int \<Rightarrow> int \<Rightarrow> RtpSession \<Rightarrow> RtpPacket outcome" where
  "session_createPacket memory npad csrc s =
     (case s_tran s of None \<Rightarrow> Inl AssertFailed | Some t \<Rightarrow> createPacket memory npad csrc t)"

definition session_getPrevSequence :: "RtpSession \<Rightarrow> u32 outcome" where
  "session_getPrevSequence s = (case s_tran s of None \<Rightarrow> Inl AssertFailed | Some t \<Rightarrow> Inr (prevSequence t))"

definition session_getPrevRtpTime :: "RtpSession \<Rightarrow> u32 outcome" where
  "session_getPrevRtpTime s = (case s_tran s of None \<Rightarrow> Inl AssertFailed | Some t \<Rightarrow> Inr (prevRtpTime t))"

definition session_setMarkerOnce :: "RtpSession \<Rightarrow> RtpSession" where
  "session_setMarkerOnce s = on_tran setMarkerOnce s"

text \<open>Whether the pointer to the interface that takes telephone events is set.\<close>

definition session_setDTMFInterface :: "RtpSession \<Rightarrow> RtpSession" where
  "session_setDTMFInterface s = on_recv (\<lambda>r. r\<lparr>DTMFInterface_set := True\<rparr>) s"

definition session_unsetDTMFInterface :: "RtpSession \<Rightarrow> RtpSession" where
  "session_unsetDTMFInterface s = on_recv (\<lambda>r. r\<lparr>DTMFInterface_set := False\<rparr>) s"

section \<open>A transmitter for a session\<close>

text \<open>The numbers that \<open>initRtpTransmitter\<close> draws: source, clock, RTP time and sequence.\<close>

type_synonym tran_seed = "u32 \<times> NtpTime \<times> u32 \<times> u32"

definition new_RtpTransmitter ::
    "string \<Rightarrow> int \<Rightarrow> int \<Rightarrow> int \<Rightarrow> int \<Rightarrow> tran_seed \<Rightarrow> RtpTransmitter \<Rightarrow> RtpTransmitter outcome" where
  "new_RtpTransmitter addr fmt clockrate per_sample_size samplesize = (\<lambda>(src, now, rnd_time, rnd_seq) memory.
     obind (new_RtpPacket (rtp_raw_tx_pkt memory) 1012 0 0) (\<lambda>p.
     Inr (initRtpTransmitter fmt clockrate per_sample_size samplesize src now rnd_time rnd_seq
            (memory\<lparr>remoteAddr := addr, rtp_raw_tx_pkt := p, queued := []\<rparr>))))"

definition direct_tran ::
    "string \<Rightarrow> int \<Rightarrow> int \<Rightarrow> int \<Rightarrow> int \<Rightarrow> tran_seed \<Rightarrow> RtpTransmitter \<Rightarrow> RtpSession \<Rightarrow> RtpSession outcome" where
  "direct_tran addr fmt clockrate per_sample_size samplesize seed memory s =
     (case s_tran s of
        Some t \<Rightarrow>
          let (src, now, rnd_time, rnd_seq) = seed in
          Inr (s\<lparr>s_tran := Some (initRtpTransmitter fmt clockrate per_sample_size samplesize src now rnd_time rnd_seq
                                   (setRemoteAddr addr t))\<rparr>)
      | None \<Rightarrow>
          obind (new_RtpTransmitter addr fmt clockrate per_sample_size samplesize seed memory)
            (\<lambda>t. Inr (s\<lparr>s_tran := Some t\<rparr>)))"

definition new_RtcpTransmitter :: "string \<Rightarrow> int \<Rightarrow> int \<Rightarrow> NtpTime \<Rightarrow> RtcpTransmitter \<Rightarrow> RtcpTransmitter" where
  "new_RtcpTransmitter addr RAND_MAX rand now memory =
     constructRtcpTransmitter RAND_MAX rand now (memory\<lparr>rtcp_remoteAddr := addr, rtcp_queued := []\<rparr>)"

definition direct_rtcpTran ::
    "string \<Rightarrow> int \<Rightarrow> int \<Rightarrow> NtpTime \<Rightarrow> RtcpTransmitter \<Rightarrow> RtpSession \<Rightarrow> RtpSession" where
  "direct_rtcpTran addr RAND_MAX rand now memory s =
     s\<lparr>s_rtcpTran := Some (case s_rtcpTran s of
                            Some t \<Rightarrow> rtcp_setRemoteAddr addr t
                          | None \<Rightarrow> new_RtcpTransmitter addr RAND_MAX rand now memory)\<rparr>"

text \<open>The description: the canonical name and five of the six other texts are set.\<close>

definition transmiter_sdes :: "nat \<Rightarrow> octet list \<Rightarrow> SDESdata \<Rightarrow> SDESdata outcome" where
  "transmiter_sdes pid host info =
     obind (setSdesEmail [] (setSdesCname pid host info)) (\<lambda>info.
     obind (setSdesPhone [] info) (\<lambda>info.
     obind (setSdesLoc [] info) (\<lambda>info.
     obind (setSdesTool [] info) (\<lambda>info.
     setSdesNote [] info))))"

definition link_transmiter :: "SDESdata \<Rightarrow> nat \<Rightarrow> octet list \<Rightarrow> RtpSession \<Rightarrow> RtpSession outcome" where
  "link_transmiter fresh pid host s =
     (case (s_rtcpTran s, s_tran s) of
        (Some t, Some _) \<Rightarrow>
          let t = setRTPtran fresh t in
          (case tx_SDESInfo t of
             None \<Rightarrow> Inl NullDeref
           | Some info \<Rightarrow> obind (transmiter_sdes pid host info) (\<lambda>info.
               Inr (s\<lparr>s_rtcpTran := Some (t\<lparr>tx_SDESInfo := Some info\<rparr>)\<rparr>)))
      | _ \<Rightarrow> Inr s)"

record setup_env =
  address :: "string \<Rightarrow> int \<Rightarrow> string"
  seed :: tran_seed
  tran_memory :: RtpTransmitter
  rand_max :: int
  rand_value :: int
  rtcp_clock :: NtpTime
  rtcp_memory :: RtcpTransmitter
  sdes_memory :: SDESdata
  process :: nat
  hostname :: "octet list"

definition setTransmiter ::
    "setup_env \<Rightarrow> string \<Rightarrow> int \<Rightarrow> int \<Rightarrow> int \<Rightarrow> int \<Rightarrow> int \<Rightarrow> int \<Rightarrow> RtpSession \<Rightarrow> (int \<times> RtpSession) outcome" where
  "setTransmiter env remoteHost remotePort rtcpRemotePort fmt clockrate per_sample_size samplesize s =
     (if \<not> can_send s then Inr (-1, s)
      else
        obind (if remotePort \<noteq> 0
               then direct_tran (address env remoteHost remotePort) fmt clockrate per_sample_size samplesize (seed env)
                      (tran_memory env) s
               else Inr s) (\<lambda>s.
        let s = (if rtcpRemotePort \<noteq> 0
                 then direct_rtcpTran (address env remoteHost rtcpRemotePort) (rand_max env) (rand_value env)
                        (rtcp_clock env) (rtcp_memory env) s
                 else s)
        in obind (link_transmiter (sdes_memory env) (process env) (hostname env) s) (\<lambda>s. Inr (0, s))))"

section \<open>The description that is left\<close>

lemma sdes_strcpy_nil: "length v = 256 \<Longrightarrow> 0 < limit \<Longrightarrow> sdes_strcpy limit [] v = Inr (0 # drop 1 v)"
  by (simp add: sdes_strcpy_def mem_write_def)

lemma empty_item_nil: "length v = 256 \<Longrightarrow> empty_item (0 # drop 1 v)"
  by (simp add: empty_item_def c_text_def)

lemma transmiter_sdes_name:
  assumes fresh: "sdes_sizes fresh" and host: "0 \<notin> set host"
    and name: "0 \<in> set (sdes_name fresh)" "c_text (sdes_name fresh) \<noteq> []" "length (c_text (sdes_name fresh)) \<le> 254"
  obtains info where "transmiter_sdes pid host fresh = Inr info" "sdes_ok info"
    "known_types info = [rtcpSdesCname, rtcpSdesName]" "sdes_name info = sdes_name fresh"
proof -
  define c where "c = take 147 (cstr ''unknown_user'' @ cstr ''.'' @ decimal pid @ cstr ''@'' @ host)"
  let ?cname = "c @ replicate (256 - length c) 0"
  have "0 \<notin> set (cstr ''unknown_user'' @ cstr ''.'' @ decimal pid @ cstr ''@'' @ host)"
    using decimal_no_zero [of pid] host cname_no_zero by (simp only: set_append Un_iff) simp
  then have z: "0 \<notin> set c" using in_set_takeD unfolding c_def by metis
  have l: "length c \<le> 147" "c \<noteq> []" by (simp_all add: c_def cstr_def)
  have t: "c_text ?cname = c" by (rule c_text_zeros [OF z])
  have c: "length ?cname = 256" "0 \<in> set ?cname" by (rule zero_filled [OF l(1)])+
  have len: "length (sdes_name fresh) = 256" "length (sdes_email fresh) = 256" "length (sdes_phone fresh) = 256"
    "length (sdes_loc fresh) = 256" "length (sdes_tool fresh) = 256" "length (sdes_note fresh) = 256"
    using fresh by (simp_all add: sdes_sizes_def sdes_types_def sdes_item_def)
  have n: "setSdesCname pid host fresh = fresh\<lparr>sdes_cname := ?cname\<rparr>"
    unfolding setSdesCname_def Let_def c_def [symmetric] by (rule refl)
  define info where "info = fresh\<lparr>sdes_cname := ?cname, sdes_email := 0 # drop 1 (sdes_email fresh),
    sdes_phone := 0 # drop 1 (sdes_phone fresh), sdes_loc := 0 # drop 1 (sdes_loc fresh),
    sdes_tool := 0 # drop 1 (sdes_tool fresh), sdes_note := 0 # drop 1 (sdes_note fresh)\<rparr>"
  have "transmiter_sdes pid host fresh = Inr info"
    using len unfolding transmiter_sdes_def n info_def
    by (simp add: setSdesEmail_def setSdesPhone_def setSdesLoc_def setSdesTool_def setSdesNote_def sdes_strcpy_nil)
  moreover have "empty_item (sdes_email info)" "empty_item (sdes_phone info)" "empty_item (sdes_loc info)"
    "empty_item (sdes_tool info)" "empty_item (sdes_note info)"
    using len [THEN empty_item_nil] by (simp_all add: info_def)
  moreover have "sdes_cname info = ?cname" "sdes_name info = sdes_name fresh" by (simp_all add: info_def)
  ultimately show thesis
    using that [of info] c t l len(1) name
    by (simp add: sdes_ok_def described_def sdes_types_def sdes_array_def empty_item_def known_types_def sdes_text_def)
qed

lemma direct_tran_returns:
  assumes "wf_store (rtp_raw_tx_pkt memory)"
  obtains rt where "direct_tran addr fmt clockrate per_sample_size samplesize sd memory s = Inr (s\<lparr>s_tran := Some rt\<rparr>)"
    "tx_ssrc rt = fst sd"
proof -
  obtain src now rnd_time rnd_seq where sd: "sd = (src, now, rnd_time, rnd_seq)" by (cases sd)
  have "\<exists>p. new_RtpPacket (rtp_raw_tx_pkt memory) 1012 0 0 = Inr p"
    using new_RtpPacket_unused [OF assms, of 0 1012 0]
      clear_eq [of "(rtp_raw_tx_pkt memory)\<lparr>csrc_count := 0, npadSize := 0, packetAlloc := 1024\<rparr>"] assms
    by (simp add: RTP_MTU_def wf_store_def)
  then show thesis
    using that by (cases "s_tran s") (auto simp: direct_tran_def new_RtpTransmitter_def initRtpTransmitter_def setRemoteAddr_def sd)
qed

text \<open>C40: \<open>setTransmiter\<close>, unlike the constructor, does not set the name in the description that it
  allocates: when a session gets its RTCP transmitter this way, the next report carries as the
  name of the user whatever text the memory of the new description held, and the peer stores it.\<close>

theorem memory_sent_as_name:
  assumes s: "can_send s" "s_rtcpTran s = None" "has_rtcpRecv s \<longrightarrow> rtcp_inv (s_rr s)" and ports: "remotePort \<noteq> 0" "rtcpRemotePort \<noteq> 0"
    and mem: "wf_store (rtp_raw_tx_pkt (tran_memory env))" "sdes_sizes (sdes_memory env)" "0 \<notin> set (hostname env)"
    and name: "0 \<in> set (sdes_name (sdes_memory env))" "c_text (sdes_name (sdes_memory env)) \<noteq> []"
      "length (c_text (sdes_name (sdes_memory env))) \<le> 254"
    and p: "attending p" "tranInfoList (s_rr p) (fst (seed env)) = None"
  shows "\<exists>s' w s'' p' e.
    setTransmiter env remoteHost remotePort rtcpRemotePort fmt clockrate per_sample_size samplesize s = Inr (0, s') \<and>
    transmitRTCP udp now s' = Inr (udp w, s'') \<and>
    map_option rtcp_queued (s_rtcpTran s'') = Some [(w, address env remoteHost rtcpRemotePort)] \<and> receiveRTCP (Received w) clk p = Inr (2, p') \<and>
    tranInfoList (s_rr p') (fst (seed env)) = Some e \<and>
    c_text (sdes_name (SDESInfo e)) = c_text (sdes_name (sdes_memory env))"
proof -
  let ?addr = "address env remoteHost" and ?name = "c_text (sdes_name (sdes_memory env))"
  obtain rt where rt: "direct_tran (?addr remotePort) fmt clockrate per_sample_size samplesize (seed env) (tran_memory env) s =
      Inr (s\<lparr>s_tran := Some rt\<rparr>)" "tx_ssrc rt = fst (seed env)"
    by (rule direct_tran_returns [OF mem(1)])
  obtain info where info: "transmiter_sdes (process env) (hostname env) (sdes_memory env) = Inr info" "sdes_ok info"
    "known_types info = [rtcpSdesCname, rtcpSdesName]" "sdes_name info = sdes_name (sdes_memory env)"
    by (rule transmiter_sdes_name [OF mem(2,3) name])
  define t where "t = (new_RtcpTransmitter (?addr rtcpRemotePort) (rand_max env) (rand_value env) (rtcp_clock env)
    (rtcp_memory env))\<lparr>tx_SDESInfo := Some info\<rparr>"
  define s' where "s' = s\<lparr>s_tran := Some rt, s_rtcpTran := Some t\<rparr>"
  have "setTransmiter env remoteHost remotePort rtcpRemotePort fmt clockrate per_sample_size samplesize s = Inr (0, s')"
    using s(1,2) ports rt(1) info(1)
    by (simp add: setTransmiter_def direct_rtcpTran_def link_transmiter_def setRTPtran_def new_RtcpTransmitter_def
        constructRtcpTransmitter_def updateInterval_def Let_def s'_def t_def)
  moreover have rep: "reporting s' rt t info" "can_send s'"
    using s info(2) by (simp_all add: reporting_def s'_def can_send_def) (simp add: t_def)
  let ?w = "report_packet now s' rt info" and ?rr = "understood now (clk 0) (tx_ssrc rt) info (known_types info) (s_rtcpRecv s') (s_rr p)"
  obtain e where e: "tranInfoList ?rr (tx_ssrc rt) = Some e" "SDESInfo e = store_items info [rtcpSdesCname, rtcpSdesName] blank_SDES"
    using p(2) rt(2) info(3) by (simp add: understood_entry entry_def)
  have "sdes_item rtcpSdesName (SDESInfo e) = overwrite ?name 0 (sdes_item rtcpSdesName blank_SDES)"
    using store_items_nth [of "[rtcpSdesCname, rtcpSdesName]" 1 info blank_SDES] e(2) info(4)
    by (simp add: sdes_types_def sdes_text_def)
  then have "c_text (sdes_name (SDESInfo e)) = ?name"
    by (simp add: sdes_item_def overwrite_def c_text_no_zero)
  ultimately show ?thesis
    using transmitRTCP_wire(1) [OF rep, of udp now] report_accepted [OF rep(1) p(1), of now clk] e(1) rt(2)
    by (intro exI [of _ s'] exI [of _ ?w] exI [of _ "sent_session ?w t s'"] exI [of _ "p\<lparr>s_rr := ?rr\<rparr>"] exI [of _ e])
      (simp add: sent_session_fields t_def new_RtcpTransmitter_def constructRtcpTransmitter_def updateInterval_def Let_def)
qed

definition leftover :: SDESdata where
  "leftover = blank_SDES\<lparr>sdes_name := [97, 64, 98] @ replicate 253 0\<rparr>"

definition example_env :: setup_env where
  "example_env = \<lparr>address = (\<lambda>host port. host), seed = (4711, NtpTime 10 0, 160, 7), tran_memory = example_transmitter,
     rand_max = 2147483647, rand_value = 12345, rtcp_clock = NtpTime 10 0, rtcp_memory = example_rtcpTran,
     sdes_memory = leftover, process = 17, hostname = [104]\<rparr>"

lemma leftover_facts: "sdes_sizes leftover" "c_text (sdes_name leftover) = [97, 64, 98]" "0 \<in> set (sdes_name leftover)"
  by (simp_all add: leftover_def sdes_sizes_def sdes_types_def sdes_item_def blank_SDES_def blank_items)

theorem memory_sent_as_name_witness:
  "\<exists>s' w s'' p' e.
    setTransmiter example_env ''peer'' 5004 5005 0 8000 1 160 (example_session\<lparr>s_tran := None, s_rtcpTran := None\<rparr>) = Inr (0, s') \<and>
    transmitRTCP (\<lambda>bs. int (length bs)) (NtpTime 30 7) s' = Inr (int (length w), s'') \<and>
    map_option rtcp_queued (s_rtcpTran s'') = Some [(w, address example_env ''peer'' 5005)] \<and>
    receiveRTCP (Received w) (\<lambda>_. NtpTime 31 9) example_session = Inr (2, p') \<and>
    tranInfoList (s_rr p') (fst (seed example_env)) = Some e \<and>
    c_text (sdes_name (SDESInfo e)) = c_text (sdes_name (sdes_memory example_env))"
proof (rule memory_sent_as_name [OF _ _ _ _ _ _ _ _ _ _ _ example_session_attending])
  show "wf_store (rtp_raw_tx_pkt (tran_memory example_env))"
    using example_transmitter_ok by (simp add: example_env_def raw_ok_def)
qed (use example_session_inv leftover_facts in
    \<open>simp_all add: example_env_def example_session_list can_send_def\<close>, simp_all add: example_session_def)

end
