(* ===== verification/Event_Exchange.thy ===== *)
theory Event_Exchange
  imports Rtcp_Sessions
begin

text \<open>
  A key press from one session to another: \<open>transmitEvent\<close> of \<open>rtp/RtpSession.cxx\<close> on the one side,
  \<open>readNetwork\<close> with \<open>RtpEventReceiver\<close> on the other. \<open>event_pkt\<close> describes the one packet object
  that the sender uses three times, \<open>event_sent\<close> what a transmission leaves of the transmitter.
\<close>

section \<open>The packet of an event\<close>

definition event_pkt :: "bool \<Rightarrow> u32 \<Rightarrow> octet list \<Rightarrow> nat \<Rightarrow> RtpPacket \<Rightarrow> bool" where
  "event_pkt m src P n q \<longleftrightarrow>
     (\<exists>S. packetData q = [0x80, if m then 228 else 100] @ S @ be32 src @ P \<and> length S = 6) \<and>
     packetAlloc q = 1036 \<and> unusedSize q = 1024 - int n \<and> \<not> timestampSet q \<and> \<not> sequenceSet q"

definition event_sent :: "octet list \<Rightarrow> RtpTransmitter \<Rightarrow> RtpTransmitter" where
  "event_sent w t = t\<lparr>markerOnce := False, queued := queued t @ [(w, remoteAddr t)], packetSent := int32 (packetSent t + 1),
     prevSequence := ucast (ucast (prevSequence t + 1) :: u16)\<rparr>"

lemma event_octets:
  "get_field 0 7 100 = 100" "get_field 0 7 228 = 100" "put_field 7 (Suc 0) 1 100 = 228" "put_field 7 (Suc 0) 1 228 = 228"
  "put_field 7 (Suc 0) 1 0x0A = 0x8A" "put_field 0 7 100 0 = 100" "get_field 7 (Suc 0) 0x0A = 0" "get_field 7 (Suc 0) 0x8A = 1"
  by code_simp+

lemma event_volume_table:
  "list_all (\<lambda>n. put_field 7 (Suc 0) 0 (put_field 6 (Suc 0) 0 (put_field 0 6 0x0A (word_of_nat n))) = 0x0A) [0..<256]"
  by code_simp

lemma event_volume: "put_field 7 (Suc 0) 0 (put_field 6 (Suc 0) 0 (put_field 0 6 0x0A b)) = 0x0A"
proof -
  have "unat b \<in> set [0..<256]" using unsigned_less [of b] by simp
  moreover have "word_of_nat (unat b) = b" by simp
  ultimately show ?thesis using event_volume_table unfolding list_all_iff by metis
qed

lemma transmit_event:
  assumes q: "event_pkt m src P n q" and n: "n \<le> length P"
  obtains q' where "transmit now True q t = Inr (int n, q', event_sent (rtp_wire (m \<or> markerOnce t) 100
      (ucast (prevSequence t + 1)) (prevRtpTime t + word_of_int (tx_sampleSize t)) src (take n P)) t)"
    "event_pkt (m \<or> markerOnce t) src P n q'"
proof -
  let ?time = "prevRtpTime t + word_of_int (tx_sampleSize t)" and ?seq = "prevSequence t + 1"
  let ?m = "m \<or> markerOnce t"
  obtain S where S: "packetData q = [0x80, if m then 228 else 100] @ S @ be32 src @ P" "length S = 6"
    and f: "packetAlloc q = 1036" "unusedSize q = 1024 - int n" "\<not> timestampSet q" "\<not> sequenceSet q"
    using q by (auto simp: event_pkt_def)
  obtain a b c d e g where S': "S = [a, b, c, d, e, g]" using S(2) by (auto simp: length_Suc_conv eval_nat_numeral)
  define q1 where "q1 = q\<lparr>converted_to_nbo := True\<rparr>"
  let ?a = "setSequence ?seq (setRtpTime ?time q1)"
  let ?b = "(if markerOnce t then setMarkerFlag 1 ?a else ?a)\<lparr>timestampSet := False, sequenceSet := False\<rparr>"
  have ptyp: "getPayloadType q = 100" using S(1) event_octets(1,2) by (simp add: getPayloadType_def)
  have c: "(if converted_to_nbo q then Inr q else rtp_htonl q) = Inr q1"
    using ptyp by (auto simp: q1_def rtp_htonl_def swap_samples_def rtp_consts)
  have aD: "packetData ?a = [0x80, if m then 228 else 100] @ be16 (ucast ?seq) @ be32 ?time @ be32 src @ P"
    using S(1) unfolding S' q1_def by (simp add: packet_fields be16_def be32_def numeral_nat)
  have bD: "packetData ?b = rtp_wire ?m 100 (ucast ?seq) ?time src P"
    using aD event_octets(3,4) by (simp add: setMarkerFlag_def rtp_wire_def)
  have sizes: "packetAlloc ?b = 1036" "unusedSize ?b = 1024 - int n" "packetAlloc ?a = 1036" "unusedSize ?a = 1024 - int n"
    using f(1,2) by (simp_all add: packet_fields q1_def)
  have usage: "getPayloadUsage ?b = int n" "getPayloadUsage ?a = int n"
    using aD bD sizes no_sources_octet
    by (simp_all add: getPayloadUsage_def getPayloadSize_def getPadbyteSize_def getCSRCcount_def rtp_wire_def
        sizeof_RtpHeader_def sizeof_RtpSrc_def)
  have total: "nat (getTotalUsage ?b) = 12 + n" using sizes by (simp add: getTotalUsage_def)
  have "take (12 + n) (rtp_wire ?m 100 (ucast ?seq) ?time src P) = rtp_wire ?m 100 (ucast ?seq) ?time src (take n P)"
    by (simp add: rtp_wire_def be16_def be32_def eval_nat_numeral)
  then have dg: "datagram ?b = Inr (rtp_wire ?m 100 (ucast ?seq) ?time src (take n P))"
    unfolding datagram_def mem_read_def total bD using n by simp
  have get: "getSequence ?b = ucast (ucast ?seq :: u16)"
    unfolding getSequence_def bD by (simp add: rtp_wire_def be16_def be32_def)
  have "event_pkt ?m src P n ?b"
    unfolding event_pkt_def bD using sizes
    by (auto simp: rtp_wire_def intro!: exI [of _ "be16 (ucast ?seq) @ be32 ?time"])
  moreover have "transmit now True q t = Inr (int n, ?b, event_sent (rtp_wire ?m 100 (ucast ?seq) ?time src (take n P)) t)"
    using f(3,4) usage dg get unfolding transmit_def c
    by (cases "markerOnce t") (simp_all add: Let_def setRtpTime_def put_timestamp_def event_sent_def q1_def)
  ultimately show thesis using that by blast
qed

lemma event_pkt_payload:
  assumes "event_pkt m src P n q"
  shows "getCSRCcount q = 0" "getPayloadLoc q = 12" "packetData q = take 12 (packetData q) @ P"
proof -
  obtain S where S: "packetData q = [0x80, if m then 228 else 100] @ S @ be32 src @ P" "length S = 6"
    using assms by (auto simp: event_pkt_def)
  show c: "getCSRCcount q = 0" using S(1) no_sources_octet by (simp add: getCSRCcount_def)
  show "getPayloadLoc q = 12" using c by (simp add: getPayloadLoc_def sizeof_RtpHeader_def sizeof_RtpSrc_def)
  show "packetData q = take 12 (packetData q) @ P" using S by (simp add: be32_def eval_nat_numeral length_Suc_conv) auto
qed

lemma event_pkt_replace:
  assumes "event_pkt m src P n q"
  shows "event_pkt m src Q n (q\<lparr>packetData := take 12 (packetData q) @ Q\<rparr>)"
proof -
  obtain S where S: "packetData q = [0x80, if m then 228 else 100] @ S @ be32 src @ P" "length S = 6"
    using assms by (auto simp: event_pkt_def)
  then have "take 12 (packetData q) = [0x80, if m then 228 else 100] @ S @ be32 src"
    by (simp add: be32_def eval_nat_numeral length_Suc_conv) auto
  then show ?thesis using assms S(2) by (auto simp: event_pkt_def)
qed

lemma setUsage_event:
  assumes "event_pkt m src P n q" "k \<le> 1024"
  obtains q' where "setPayloadUsage (int k) q = Inr q'" "event_pkt m src P k q'"
proof -
  have "getPayloadSize q = 1024"
    using event_pkt_payload(1) [OF assms(1)] assms(1)
    by (simp add: event_pkt_def getPayloadSize_def getPadbyteSize_def sizeof_RtpHeader_def sizeof_RtpSrc_def)
  moreover have "event_pkt m src P k (q\<lparr>unusedSize := 1024 - int k\<rparr>)" using assms(1) by (simp add: event_pkt_def)
  ultimately show thesis using that assms(2) by (simp add: setPayloadUsage_def)
qed

text \<open>Writing the event structure, and setting its edge bit.\<close>

lemma put_event_pkt:
  assumes q: "event_pkt m src P n q" and P: "length P = 8117"
  obtains q' where "put_event event q = Inr q'" "event_pkt m src ([word_of_int event, 0x0A, 0xA0, 0] @ drop 4 P) n q'"
proof -
  let ?H = "take 12 (packetData q)"
  have d: "packetData q = ?H @ P" by (rule event_pkt_payload(3) [OF q])
  have H: "length ?H = 12" using q by (auto simp: event_pkt_def)
  have "4 \<le> length P" using P by simp
  then obtain a b c e R where P': "P = a # b # c # e # R" by (auto simp: Suc_le_length_iff numeral_eq_Suc)
  let ?x = "word_of_int event :: octet"
  have w: "mem_write 12 [?x] (?H @ P) = Inr (?H @ ?x # b # c # e # R)"
    "mem_write 13 [0x0A] (?H @ ?x # b # c # e # R) = Inr (?H @ ?x # 0x0A # c # e # R)"
    "mem_write 14 (rev (be16 0x00A0)) (?H @ ?x # 0x0A # c # e # R) = Inr (?H @ ?x # 0x0A # 0xA0 # 0 # R)"
    "mem_read 13 1 (?H @ ?x # b # c # e # R) = Inr [b]"
    using H by (simp_all add: mem_write_def mem_read_def P' be16_def)
  show thesis
  proof (rule that)
    show "put_event event q = Inr (q\<lparr>packetData := ?H @ [?x, 0x0A, 0xA0, 0] @ drop 4 P\<rparr>)"
      using w event_volume [of b] unfolding put_event_def event_pkt_payload(2) [OF q] by (subst d) (simp add: P')
    show "event_pkt m src ([?x, 0x0A, 0xA0, 0] @ drop 4 P) n (q\<lparr>packetData := ?H @ [?x, 0x0A, 0xA0, 0] @ drop 4 P\<rparr>)"
      by (rule event_pkt_replace [OF q])
  qed
qed

lemma put_edge_pkt:
  assumes q: "event_pkt m src (x # 0x0A # R) n q"
  obtains q' where "put_edge q = Inr q'" "event_pkt m src (x # 0x8A # R) n q'"
proof -
  let ?H = "take 12 (packetData q)"
  have d: "packetData q = ?H @ x # 0x0A # R" by (rule event_pkt_payload(3) [OF q])
  have H: "length ?H = 12" using q by (auto simp: event_pkt_def)
  have w: "mem_read 13 1 (?H @ x # 0x0A # R) = Inr [0x0A]" "mem_write 13 [0x8A] (?H @ x # 0x0A # R) = Inr (?H @ x # 0x8A # R)"
    using H by (simp_all add: mem_write_def mem_read_def)
  show thesis
  proof (rule that)
    show "put_edge q = Inr (q\<lparr>packetData := ?H @ x # 0x8A # R\<rparr>)"
      using w event_octets(5) d unfolding put_edge_def event_pkt_payload(2) [OF q] by simp
    show "event_pkt m src (x # 0x8A # R) n (q\<lparr>packetData := ?H @ x # 0x8A # R\<rparr>)" by (rule event_pkt_replace [OF q])
  qed
qed

lemma event_type_table: "list_all (\<lambda>n. put_field 0 7 100 (word_of_nat n) = 100) [0..<128]"
  by code_simp

lemma event_type: "0 \<le> f \<Longrightarrow> f \<le> 127 \<Longrightarrow> put_field 0 7 100 (word_of_int f) = 100"
proof -
  assume f: "0 \<le> f" "f \<le> 127"
  then have "nat f \<in> set [0..<128]" by simp
  with event_type_table have "put_field 0 7 100 (word_of_nat (nat f)) = 100" unfolding list_all_iff by blast
  then show ?thesis using f(1) by simp
qed

lemma new_event_pkt:
  assumes mem: "wf_store memory" and f: "0 \<le> tx_format t" "tx_format t \<le> 127"
  obtains p q P where "createPacket memory 0 0 t = Inr p" "setPayloadType rtpPayloadDTMF_RFC2833 p = Inr q"
    "length P = 8117" "event_pkt False (tx_ssrc t) P (nat (1024 - unusedSize q)) q" "unusedSize q \<le> 1024"
proof -
  let ?p0 = "memory\<lparr>csrc_count := 0, npadSize := 0, packetAlloc := 1036\<rparr>"
  have ok: "raw_ok ?p0" using mem by (simp add: raw_ok_def wf_store_def RTP_MTU_def)
  obtain c where c: "clear ?p0 = Inr c" "wf_store c" "take 12 (packetData c) = [0x80, 0, 0, 0, 0, 0, 0, 0, 0, 0, 0, 0]"
    "packetAlloc c = packetAlloc ?p0" "csrc_count c = 0" "npadSize c = 0" "\<not> timestampSet c" "\<not> sequenceSet c"
    using clear_raw [OF ok] by metis
  have u: "unusedSize c = 1024" using clear_eq [of ?p0] c(1) ok by (auto simp: raw_ok_def)
  have new: "new_RtpPacket memory 1024 0 0 = Inr c"
    using new_RtpPacket_unused [OF mem, of 0 1024 0] c(1) by (simp add: RTP_MTU_def)
  obtain R where D: "packetData c = [0x80, 0, 0, 0, 0, 0, 0, 0, 0, 0, 0, 0] @ R"
    using c(3) append_take_drop_id [of 12 "packetData c"] by metis
  have R: "length R = 8117" using c(2) D by (simp add: wf_store_def RTP_MTU_def)
  let ?q = "put_type 100 (put_type (tx_format t) (setSSRC (tx_ssrc t) c))"
  have "packetData ?q = [0x80, 100] @ [0, 0, 0, 0, 0, 0] @ be32 (tx_ssrc t) @ R"
    using D type_octet(1) [OF f] event_type [OF f] by (simp add: put_type_def setSSRC_def be32_def numeral_nat)
  then have "event_pkt False (tx_ssrc t) R 0 ?q"
    using c(4,7,8) u by (auto simp: event_pkt_def put_type_def setSSRC_def intro!: exI [of _ "[0, 0, 0, 0, 0, 0]"])
  moreover have "unusedSize ?q = 1024" using u by (simp add: put_type_def setSSRC_def)
  ultimately show thesis
    using that [OF _ _ R, of _ ?q] new f by (simp add: createPacket_def setPayloadType_def rtpPayloadDTMF_RFC2833_def)
qed

section \<open>What is sent\<close>

text \<open>The datagram of an event packet: all of them have the time of the next voice packet.\<close>

definition event_datagram :: "RtpTransmitter \<Rightarrow> u16 \<Rightarrow> octet list \<Rightarrow> octet list" where
  "event_datagram t i bs = rtp_wire (markerOnce t) 100 (ucast (prevSequence t) + i)
     (prevRtpTime t + word_of_int (tx_sampleSize t)) (tx_ssrc t) bs"

lemma transmitEvent_wire:
  assumes s: "s_tran s = Some t" "can_send s" and mem: "wf_store memory" and f: "0 \<le> tx_format t" "tx_format t \<le> 127"
  obtains s' t' where "transmitEvent clk memory event s = Inr (0, s')" "s_tran s' = Some t'"
    "queued t' = queued t @ [(event_datagram t 1 [word_of_int event, 0x0A, 0xA0, 0], remoteAddr t),
       (event_datagram t 2 [word_of_int event, 0x8A, 0xA0, 0], remoteAddr t), (event_datagram t 3 [], remoteAddr t)]"
    "prevRtpTime t' = prevRtpTime t" "payloadSent t' = payloadSent t"
proof -
  let ?src = "tx_ssrc t" and ?x = "word_of_int event :: octet" and ?m = "markerOnce t"
  obtain p q P where p: "createPacket memory 0 0 t = Inr p" "setPayloadType rtpPayloadDTMF_RFC2833 p = Inr q"
    "length P = 8117" "event_pkt False ?src P (nat (1024 - unusedSize q)) q"
    by (rule new_event_pkt [OF mem f])
  obtain a where a: "setPayloadUsage 4 q = Inr a" "event_pkt False ?src P 4 a"
    using setUsage_event [OF p(4), of 4] by auto
  let ?R = "0xA0 # 0 # drop 4 P"
  obtain b where b: "put_event event a = Inr b" "event_pkt False ?src (?x # 0x0A # ?R) 4 b"
    using put_event_pkt [OF a(2) p(3), of event] by auto
  let ?w1 = "event_datagram t 1 [?x, 0x0A, 0xA0, 0]"
  obtain c where c: "transmit (clk 0) True b t = Inr (4, c, event_sent ?w1 t)" "event_pkt ?m ?src (?x # 0x0A # ?R) 4 c"
    using transmit_event [OF b(2), of "clk 0" t] by (auto simp: event_datagram_def ucast_u32_u16_plus)
  obtain d where d: "put_edge c = Inr d" "event_pkt ?m ?src (?x # 0x8A # ?R) 4 d" by (rule put_edge_pkt [OF c(2)])
  let ?w2 = "event_datagram t 2 [?x, 0x8A, 0xA0, 0]" and ?t1 = "event_sent ?w1 t"
  obtain e where e: "transmit (clk 1) True d ?t1 = Inr (4, e, event_sent ?w2 ?t1)" "event_pkt ?m ?src (?x # 0x8A # ?R) 4 e"
    using transmit_event [OF d(2), of "clk 1" ?t1] by (auto simp: event_datagram_def ucast_u32_u16_plus event_sent_def add.assoc)
  obtain g where g: "setPayloadUsage 0 e = Inr g" "event_pkt ?m ?src (?x # 0x8A # ?R) 0 g"
    using setUsage_event [OF e(2), of 0] by auto
  let ?w3 = "event_datagram t 3 []" and ?t2 = "event_sent ?w2 ?t1"
  obtain h where h: "transmit (clk 2) True g ?t2 = Inr (0, h, event_sent ?w3 ?t2)"
    using transmit_event [OF g(2), of "clk 2" ?t2] by (auto simp: event_datagram_def ucast_u32_u16_plus event_sent_def add.assoc)
  show thesis
    using that [of "s\<lparr>sessionError := session_success, s_tran := Some (event_sent ?w3 ?t2)\<rparr>" "event_sent ?w3 ?t2"]
      s p(1,2) a(1) b(1) c(1) d(1) e(1) g(1) h
    by (simp add: transmitEvent_def) (simp add: event_sent_def)
qed

section \<open>What is received\<close>

text \<open>A receiver that reports telephone events.\<close>

definition attentive :: "RtpReceiver \<Rightarrow> bool" where
  "attentive r \<longleftrightarrow> DTMFInterface_set r \<and> holder (tmpPkt r)"

lemma getPacket_event:
  fixes mark seq time src
  assumes p: "wf_store p" "int (length bs) + 12 \<le> packetAlloc p" "packetAlloc p < int RTP_MTU" and r: "DTMFInterface_set r"
  defines "q \<equiv> loaded (rtp_wire mark 100 seq time src bs) p"
  shows "getPacket (Received (rtp_wire mark 100 seq time src bs)) clk p r = obind (recvEventRFC2833 q r) (\<lambda>r. Inr (0, q, r))"
proof -
  let ?w = "rtp_wire mark 100 seq time src bs"
  have w: "getVersion q = RTP_VERSION" "getPayloadType q = uint (100 :: octet)" "getTotalUsage q = 12 + int (length bs)"
    using loaded_wire [of 100 p bs mark seq time src] p unfolding q_def by simp_all
  have "receiveFrom (Received ?w) p = Inr (12 + int (length bs), p\<lparr>packetData := packetData q\<rparr>)"
    using p by (simp add: receiveFrom_def Let_def mem_write_def wf_store_def q_def loaded_def RTP_MTU_def)
  moreover have "setTotalUsage (12 + int (length bs)) (p\<lparr>packetData := packetData q\<rparr>) = Inr q"
    using p by (simp add: setTotalUsage_def q_def loaded_def)
  moreover have "isValid q = Inr (True, q)" using w by (simp add: isValid_def)
  ultimately show ?thesis using w(2) r by (simp add: getPacket_def recvEvent_def rtp_consts)
qed

lemma readNetwork_event:
  assumes r: "attentive r" and bs: "length bs \<le> 1012"
  obtains q where "readNetwork (Received (rtp_wire mark 100 seq time src bs)) clk r =
      odo (recvEventRFC2833 q r) (\<lambda>r. Some (Inr (0, r\<lparr>tmpPkt := q\<rparr>)))"
    "getPayloadType q = rtpPayloadDTMF_RFC2833" "getPayloadUsage q = int (length bs)"
    "\<forall>i < length bs. payload_octet q i = bs ! i" "holder q"
proof -
  obtain p where p: "clear (tmpPkt r) = Inr p" "holder p" using cleared_holder r by (auto simp: attentive_def)
  let ?q = "loaded (rtp_wire mark 100 seq time src bs) p"
  have p': "wf_store p" "int (length bs) + 12 \<le> packetAlloc p" "packetAlloc p < int RTP_MTU"
    using p(2) bs by (simp_all add: holder_def)
  have w: "getPayloadType ?q = rtpPayloadDTMF_RFC2833" "getPayloadUsage ?q = int (length bs)" "getCSRCcount ?q = 0" "wf_store ?q"
    using loaded_wire [of 100 p bs mark seq time src] p' by (simp_all add: rtp_consts)
  have "payload_octet ?q i = bs ! i" if "i < length bs" for i
    using that w(3) by (simp add: payload_octet_def getPayloadLoc_def sizeof_RtpHeader_def sizeof_RtpSrc_def loaded_def
        rtp_wire_def nth_append be16_def be32_def)
  moreover have "holder ?q" using p(2) w(4) by (simp add: holder_def) (simp add: loaded_def)
  moreover have "readNetwork (Received (rtp_wire mark 100 seq time src bs)) clk r =
      odo (recvEventRFC2833 ?q r) (\<lambda>r. Some (Inr (0, r\<lparr>tmpPkt := ?q\<rparr>)))"
    using p(1) getPacket_event [OF p'] r by (simp add: readNetwork_def attentive_def odo_def obind_def split: sum.splits)
  ultimately show thesis using that w(1,2) by blast
qed

lemma readNetwork_structure:
  assumes "attentive r"
  obtains q where "readNetwork (Received (event_datagram t i [a, b, c, d])) clk r =
      odo (recvEventRFC2833 q r) (\<lambda>r. Some (Inr (0, r\<lparr>tmpPkt := q\<rparr>)))"
    "getPayloadType q = rtpPayloadDTMF_RFC2833" "getPayloadUsage q = 4" "payload_octet q 0 = a" "payload_octet q (Suc 0) = b"
    "payload_octet q 2 = c" "payload_octet q 3 = d" "holder q"
proof -
  have l: "length [a, b, c, d] \<le> 1012" by simp
  obtain q where q: "readNetwork (Received (event_datagram t i [a, b, c, d])) clk r =
      odo (recvEventRFC2833 q r) (\<lambda>r. Some (Inr (0, r\<lparr>tmpPkt := q\<rparr>)))"
    "getPayloadType q = rtpPayloadDTMF_RFC2833" "getPayloadUsage q = int (length [a, b, c, d])"
    "\<forall>j < length [a, b, c, d]. payload_octet q j = [a, b, c, d] ! j" "holder q"
    unfolding event_datagram_def by (rule readNetwork_event [OF assms l])
  show thesis
    using that [OF q(1,2)] q(3,5) q(4) [rule_format, of 0] q(4) [rule_format, of 1] q(4) [rule_format, of 2]
      q(4) [rule_format, of 3] by simp
qed

section \<open>Property\<close>

text \<open>C22: \<open>transmitEvent\<close> hands three packets to the network, with the numbers that follow the last
  packet and the time of the next one. A peer with a DTMF interface reports the key once, with a
  duration of 160, after the first two of them; the third, which the code calls the off edge,
  has no payload and stops the peer in an assertion of \<open>recvEventRFC2833\<close>.\<close>

theorem key_press_ends_peer:
  assumes s: "s_tran s = Some t" "can_send s" and mem: "wf_store memory" and f: "0 \<le> tx_format t" "tx_format t \<le> 127"
    and event: "0 \<le> event" "event \<le> 255" and r: "attentive r" "keyEvent r = KeyEventNULL"
  shows "\<exists>s' t' d1 d2 d3 r1 r2. transmitEvent clk memory event s = Inr (0, s') \<and> s_tran s' = Some t' \<and>
    queued t' = queued t @ [(d1, remoteAddr t), (d2, remoteAddr t), (d3, remoteAddr t)] \<and> prevRtpTime t' = prevRtpTime t \<and>
    readNetwork (Received d1) clk1 r = Some (Inr (0, r1)) \<and> readNetwork (Received d2) clk2 r1 = Some (Inr (0, r2)) \<and>
    DTMF_sent r2 = DTMF_sent r @ [(DTMFToEvent event, 160)] \<and>
    readNetwork (Received d3) clk3 r2 = Some (Inl AssertFailed)"
proof -
  let ?x = "word_of_int event :: octet"
  let ?p1 = "[?x, 0x0A, 0xA0, 0]" and ?p2 = "[?x, 0x8A, 0xA0, 0]"
  obtain s' t' where send: "transmitEvent clk memory event s = Inr (0, s')" "s_tran s' = Some t'"
    "queued t' = queued t @ [(event_datagram t 1 ?p1, remoteAddr t), (event_datagram t 2 ?p2, remoteAddr t),
       (event_datagram t 3 [], remoteAddr t)]" "prevRtpTime t' = prevRtpTime t"
    by (rule transmitEvent_wire [OF s mem f])
  have x: "uint ?x = event" using event by (simp add: unsigned_of_int take_bit_int_eq_self)
  obtain q1 where q1: "readNetwork (Received (event_datagram t 1 ?p1)) clk1 r =
      odo (recvEventRFC2833 q1 r) (\<lambda>r. Some (Inr (0, r\<lparr>tmpPkt := q1\<rparr>)))"
    "getPayloadType q1 = rtpPayloadDTMF_RFC2833" "getPayloadUsage q1 = 4" "payload_octet q1 0 = ?x" "payload_octet q1 (Suc 0) = 0x0A" "holder q1"
    by (rule readNetwork_structure [OF r(1)])
  define r1 where "r1 = r\<lparr>keyEvent := KeyEventOn, DTMFEvent_last := DTMFToEvent event, tmpPkt := q1\<rparr>"
  have "recvEventRFC2833 q1 r = Inr (r\<lparr>keyEvent := KeyEventOn, DTMFEvent_last := DTMFToEvent event\<rparr>)"
    using q1(2-5) r(2) x event_octets(7) by (simp add: recvEventRFC2833_def rfc2833_edge_def rfc2833_event_def)
  then have first: "readNetwork (Received (event_datagram t 1 ?p1)) clk1 r = Some (Inr (0, r1))"
    using q1(1) by (simp add: r1_def)
  have a1: "attentive r1" using r(1) q1(6) by (simp add: attentive_def r1_def)
  obtain q2 where q2: "readNetwork (Received (event_datagram t 2 ?p2)) clk2 r1 =
      odo (recvEventRFC2833 q2 r1) (\<lambda>r. Some (Inr (0, r\<lparr>tmpPkt := q2\<rparr>)))"
    "getPayloadType q2 = rtpPayloadDTMF_RFC2833" "getPayloadUsage q2 = 4" "payload_octet q2 (Suc 0) = 0x8A" "payload_octet q2 2 = 0xA0"
    "payload_octet q2 3 = 0" "holder q2"
    by (rule readNetwork_structure [OF a1])
  define r2 where "r2 = r1\<lparr>DTMF_sent := DTMF_sent r1 @ [(DTMFEvent_last r1, 160)], keyEvent := KeyEventNULL, tmpPkt := q2\<rparr>"
  have "rfc2833_duration q2 = 160" using q2(5,6) by (simp add: rfc2833_duration_def get16_def)
  then have "recvEventRFC2833 q2 r1 = Inr (r1\<lparr>DTMF_sent := DTMF_sent r1 @ [(DTMFEvent_last r1, 160)], keyEvent := KeyEventNULL\<rparr>)"
    using q2(2-4) a1 event_octets(8)
    by (simp add: recvEventRFC2833_def rfc2833_edge_def sendToDTMFInterface_def attentive_def) (simp add: r1_def)
  then have second: "readNetwork (Received (event_datagram t 2 ?p2)) clk2 r1 = Some (Inr (0, r2))"
    using q2(1) by (simp add: r2_def)
  have a2: "attentive r2" using a1 q2(7) by (simp add: attentive_def r2_def)
  have l: "length ([] :: octet list) \<le> 1012" by simp
  obtain q3 where q3: "readNetwork (Received (event_datagram t 3 [])) clk3 r2 =
      odo (recvEventRFC2833 q3 r2) (\<lambda>r. Some (Inr (0, r\<lparr>tmpPkt := q3\<rparr>)))"
    "getPayloadType q3 = rtpPayloadDTMF_RFC2833" "getPayloadUsage q3 = int (length ([] :: octet list))"
    unfolding event_datagram_def by (rule readNetwork_event [OF a2 l])
  have "readNetwork (Received (event_datagram t 3 [])) clk3 r2 = Some (Inl AssertFailed)"
    using q3 by (simp add: recvEventRFC2833_def)
  moreover have "DTMF_sent r2 = DTMF_sent r @ [(DTMFToEvent event, 160)]" by (simp add: r2_def r1_def)
  ultimately show ?thesis using send first second by blast
qed

definition keypad_peer :: RtpReceiver where
  "keypad_peer = blank_receiver\<lparr>DTMFInterface_set := True\<rparr>"

theorem key_press_ends_peer_witness:
  "\<exists>s' t' d1 d2 d3 r1 r2. transmitEvent (\<lambda>_. NtpTime 30 0) zero_packet 5 example_session = Inr (0, s') \<and> s_tran s' = Some t' \<and>
    queued t' = queued example_transmitter @ [(d1, remoteAddr example_transmitter), (d2, remoteAddr example_transmitter),
      (d3, remoteAddr example_transmitter)] \<and> prevRtpTime t' = prevRtpTime example_transmitter \<and>
    readNetwork (Received d1) (\<lambda>_. NtpTime 30 0) keypad_peer = Some (Inr (0, r1)) \<and>
    readNetwork (Received d2) (\<lambda>_. NtpTime 30 0) r1 = Some (Inr (0, r2)) \<and>
    DTMF_sent r2 = DTMF_sent keypad_peer @ [(DTMFToEvent 5, 160)] \<and>
    readNetwork (Received d3) (\<lambda>_. NtpTime 30 0) r2 = Some (Inl AssertFailed)"
  using blank_storage(2) zero_packet_store
  by (intro key_press_ends_peer)
    (simp_all add: example_session_def can_send_def attentive_def keypad_peer_def blank_receiver_def example_transmitter_def)

end
