(* ===== verification/Stun_Message.thy ===== *)
theory Stun_Message
  imports Vocal_Prelude
begin

text \<open>
  STUN messages (\<open>src/stund/stun.h\<close>, first part of \<open>src/stund/stun.cxx\<close>): the structures of
  the header file as records, the attribute parsers and \<open>stunParseMessage\<close>, the attribute
  encoders and \<open>stunEncodeMessage\<close>.

  A \<open>char*\<close> into an array is modelled by the suffix of the array that starts there, so that
  \<open>body += n\<close> is \<open>drop n\<close> and a read past the end of the array is \<open>OutOfBounds\<close>. A parser
  gets the structure it fills and returns it together with the boolean the code returns: a
  parser that gives up has filled a part of the structure, and one caller goes on with it.
  The keyed hash of the OpenSSL library is a parameter \<open>hmac key input\<close>.
\<close>

section \<open>Constants and structures\<close>

definition STUN_MAX_STRING :: nat where "STUN_MAX_STRING = 256"
definition STUN_MAX_UNKNOWN_ATTRIBUTES :: nat where "STUN_MAX_UNKNOWN_ATTRIBUTES = 4"
definition STUN_MAX_MESSAGE_SIZE :: nat where "STUN_MAX_MESSAGE_SIZE = 2048"

definition IPv4Family :: octet where "IPv4Family = 1"
definition IPv6Family :: octet where "IPv6Family = 2"

definition ChangeIpFlag :: u32 where "ChangeIpFlag = 4"
definition ChangePortFlag :: u32 where "ChangePortFlag = 2"

definition MappedAddress :: u16 where "MappedAddress = 0x0001"
definition ResponseAddress :: u16 where "ResponseAddress = 0x0002"
definition ChangeRequest :: u16 where "ChangeRequest = 0x0003"
definition SourceAddress :: u16 where "SourceAddress = 0x0004"
definition ChangedAddress :: u16 where "ChangedAddress = 0x0005"
definition Username :: u16 where "Username = 0x0006"
definition Password :: u16 where "Password = 0x0007"
definition MessageIntegrity :: u16 where "MessageIntegrity = 0x0008"
definition ErrorCode :: u16 where "ErrorCode = 0x0009"
definition UnknownAttribute :: u16 where "UnknownAttribute = 0x000A"
definition ReflectedFrom :: u16 where "ReflectedFrom = 0x000B"

definition BindRequestMsg :: u16 where "BindRequestMsg = 0x0001"
definition BindResponseMsg :: u16 where "BindResponseMsg = 0x0101"
definition BindErrorResponseMsg :: u16 where "BindErrorResponseMsg = 0x0111"
definition SharedSecretRequestMsg :: u16 where "SharedSecretRequestMsg = 0x0002"
definition SharedSecretResponseMsg :: u16 where "SharedSecretResponseMsg = 0x0102"
definition SharedSecretErrorResponseMsg :: u16 where "SharedSecretErrorResponseMsg = 0x0112"

lemmas atr_types = MappedAddress_def ResponseAddress_def ChangeRequest_def SourceAddress_def
  ChangedAddress_def Username_def Password_def MessageIntegrity_def ErrorCode_def
  UnknownAttribute_def ReflectedFrom_def

lemmas msg_types = BindRequestMsg_def BindResponseMsg_def BindErrorResponseMsg_def
  SharedSecretRequestMsg_def SharedSecretResponseMsg_def SharedSecretErrorResponseMsg_def

record StunMsgHdr =
  msgType :: u16
  msgLength :: u16
  msgId :: "octet list"

record StunAddress4 =
  port :: u16
  addr :: u32

record StunAtrAddress4 =
  pad :: octet
  family :: octet
  ipv4 :: StunAddress4

record StunAtrChangeRequest =
  changeValue :: u32

record StunAtrError =
  errorPad :: u16
  errorClass :: octet
  number :: octet
  reason :: "octet list"
  sizeReason :: u16

record StunAtrUnknown =
  attrType :: "u16 list"
  numAttributes :: u16

record StunAtrString =
  strValue :: "octet list"
  sizeValue :: u16

record StunAtrIntegrity =
  hash :: "octet list"

record StunMessage =
  msgHdr :: StunMsgHdr
  hasMappedAddress :: bool
  mappedAddress :: StunAtrAddress4
  hasResponseAddress :: bool
  responseAddress :: StunAtrAddress4
  hasChangeRequest :: bool
  changeRequest :: StunAtrChangeRequest
  hasSourceAddress :: bool
  sourceAddress :: StunAtrAddress4
  hasChangedAddress :: bool
  changedAddress :: StunAtrAddress4
  hasUsername :: bool
  username :: StunAtrString
  hasPassword :: bool
  password :: StunAtrString
  hasMessageIntegrity :: bool
  messageIntegrity :: StunAtrIntegrity
  hasErrorCode :: bool
  errorCode :: StunAtrError
  hasUnknownAttributes :: bool
  unknownAttributes :: StunAtrUnknown
  hasReflectedFrom :: bool
  reflectedFrom :: StunAtrAddress4

text \<open>The sizes of the structures that the code asks for.\<close>

definition sizeof_StunMsgHdr :: nat where "sizeof_StunMsgHdr = 2 + 2 + 16"
definition sizeof_StunAtrError :: nat where "sizeof_StunAtrError = 2 + 1 + 1 + STUN_MAX_STRING + 2"
definition sizeof_StunAtrUnknown :: nat where
  "sizeof_StunAtrUnknown = 2 * STUN_MAX_UNKNOWN_ATTRIBUTES + 2"
definition sizeof_hash :: nat where "sizeof_hash = 20"

text \<open>\<open>memset (&msg, 0, sizeof msg)\<close> on the structures.\<close>

definition zero_address4 :: StunAddress4 where
  "zero_address4 = \<lparr> port = 0, addr = 0 \<rparr>"
definition zero_atr_address :: StunAtrAddress4 where
  "zero_atr_address = \<lparr> pad = 0, family = 0, ipv4 = zero_address4 \<rparr>"
definition zero_atr_string :: StunAtrString where
  "zero_atr_string = \<lparr> strValue = replicate STUN_MAX_STRING 0, sizeValue = 0 \<rparr>"
definition zero_atr_integrity :: StunAtrIntegrity where
  "zero_atr_integrity = \<lparr> hash = replicate sizeof_hash 0 \<rparr>"
definition zero_atr_error :: StunAtrError where
  "zero_atr_error = \<lparr> errorPad = 0, errorClass = 0, number = 0,
     reason = replicate STUN_MAX_STRING 0, sizeReason = 0 \<rparr>"
definition zero_atr_unknown :: StunAtrUnknown where
  "zero_atr_unknown = \<lparr> attrType = replicate STUN_MAX_UNKNOWN_ATTRIBUTES 0, numAttributes = 0 \<rparr>"

definition zero_message :: StunMessage where
  "zero_message = \<lparr> msgHdr = \<lparr> msgType = 0, msgLength = 0, msgId = replicate 16 0 \<rparr>,
     hasMappedAddress = False, mappedAddress = zero_atr_address,
     hasResponseAddress = False, responseAddress = zero_atr_address,
     hasChangeRequest = False, changeRequest = \<lparr> changeValue = 0 \<rparr>,
     hasSourceAddress = False, sourceAddress = zero_atr_address,
     hasChangedAddress = False, changedAddress = zero_atr_address,
     hasUsername = False, username = zero_atr_string,
     hasPassword = False, password = zero_atr_string,
     hasMessageIntegrity = False, messageIntegrity = zero_atr_integrity,
     hasErrorCode = False, errorCode = zero_atr_error,
     hasUnknownAttributes = False, unknownAttributes = zero_atr_unknown,
     hasReflectedFrom = False, reflectedFrom = zero_atr_address \<rparr>"

lemma zero_message_simps [simp]:
  "msgHdr zero_message = \<lparr> msgType = 0, msgLength = 0, msgId = replicate 16 0 \<rparr>"
  "\<not> hasMappedAddress zero_message" "mappedAddress zero_message = zero_atr_address"
  "\<not> hasResponseAddress zero_message" "responseAddress zero_message = zero_atr_address"
  "\<not> hasChangeRequest zero_message" "changeRequest zero_message = \<lparr> changeValue = 0 \<rparr>"
  "\<not> hasSourceAddress zero_message" "sourceAddress zero_message = zero_atr_address"
  "\<not> hasChangedAddress zero_message" "changedAddress zero_message = zero_atr_address"
  "\<not> hasUsername zero_message" "username zero_message = zero_atr_string"
  "\<not> hasPassword zero_message" "password zero_message = zero_atr_string"
  "\<not> hasMessageIntegrity zero_message" "messageIntegrity zero_message = zero_atr_integrity"
  "\<not> hasErrorCode zero_message" "errorCode zero_message = zero_atr_error"
  "\<not> hasUnknownAttributes zero_message" "unknownAttributes zero_message = zero_atr_unknown"
  "\<not> hasReflectedFrom zero_message" "reflectedFrom zero_message = zero_atr_address"
  by (simp_all add: zero_message_def)

section \<open>Attribute parsers\<close>

definition stunParseAtrAddress ::
    "octet list \<Rightarrow> nat \<Rightarrow> StunAtrAddress4 \<Rightarrow> (bool \<times> StunAtrAddress4) outcome" where
  "stunParseAtrAddress body hdrLen result =
     (if hdrLen \<noteq> 8 then Inr (False, result)
      else obind (mem_read 0 2 body) (\<lambda>h.
        let result = result\<lparr> pad := h ! 0, family := h ! 1 \<rparr> in
        if family result = IPv4Family
        then obind (mem_read 2 2 body) (\<lambda>p. obind (mem_read 4 4 body) (\<lambda>a.
          Inr (True, result\<lparr> ipv4 := \<lparr> port = get16 (p ! 0) (p ! 1),
                                       addr = get32 (a ! 0) (a ! 1) (a ! 2) (a ! 3) \<rparr> \<rparr>)))
        else Inr (False, result)))"

definition stunParseAtrChangeRequest ::
    "octet list \<Rightarrow> nat \<Rightarrow> StunAtrChangeRequest \<Rightarrow> (bool \<times> StunAtrChangeRequest) outcome" where
  "stunParseAtrChangeRequest body hdrLen result =
     (if hdrLen \<noteq> 4 then Inr (False, result)
      else obind (mem_read 0 4 body) (\<lambda>v.
        Inr (True, result\<lparr> changeValue := get32 (v ! 0) (v ! 1) (v ! 2) (v ! 3) \<rparr>)))"

text \<open>\<open>sizeReason\<close> is a 16-bit field, so \<open>hdrLen - 4\<close> wraps for a shorter attribute; the
  terminating zero goes to index \<open>sizeReason\<close> of the array of 256 characters.\<close>

definition stunParseAtrError ::
    "octet list \<Rightarrow> nat \<Rightarrow> StunAtrError \<Rightarrow> (bool \<times> StunAtrError) outcome" where
  "stunParseAtrError body hdrLen result =
     (if hdrLen \<ge> sizeof_StunAtrError then Inr (False, result)
      else obind (mem_read 0 4 body) (\<lambda>h.
        let sz = (word_of_nat hdrLen :: u16) - 4 in
        obind (mem_read 4 (unat sz) body) (\<lambda>text.
        obind (mem_write 0 text (reason result)) (\<lambda>r.
        obind (mem_write (unat sz) [0] r) (\<lambda>r.
          Inr (True, result\<lparr> errorPad := get16 (h ! 0) (h ! 1), errorClass := h ! 2,
                              number := h ! 3, reason := r, sizeReason := sz \<rparr>))))))"

fun stunParseUnknownLoop :: "nat \<Rightarrow> nat \<Rightarrow> octet list \<Rightarrow> u16 list \<Rightarrow> u16 list outcome" where
  "stunParseUnknownLoop 0 i body types = Inr types"
| "stunParseUnknownLoop (Suc n) i body types =
     obind (mem_read 0 2 body) (\<lambda>t.
     obind (mem_write i [get16 (t ! 0) (t ! 1)] types)
       (stunParseUnknownLoop n (i + 1) (drop 2 body)))"

definition stunParseAtrUnknown ::
    "octet list \<Rightarrow> nat \<Rightarrow> StunAtrUnknown \<Rightarrow> (bool \<times> StunAtrUnknown) outcome" where
  "stunParseAtrUnknown body hdrLen result =
     (if hdrLen \<ge> sizeof_StunAtrUnknown then Inr (False, result)
      else if hdrLen mod 4 \<noteq> 0 then Inr (False, result)
      else obind (stunParseUnknownLoop (hdrLen div 4) 0 body (attrType result)) (\<lambda>types.
        Inr (True, result\<lparr> attrType := types, numAttributes := word_of_nat (hdrLen div 4) \<rparr>)))"

definition stunParseAtrString ::
    "octet list \<Rightarrow> nat \<Rightarrow> StunAtrString \<Rightarrow> (bool \<times> StunAtrString) outcome" where
  "stunParseAtrString body hdrLen result =
     (if hdrLen \<ge> STUN_MAX_STRING then Inr (False, result)
      else if hdrLen mod 4 \<noteq> 0 then Inr (False, result)
      else obind (mem_read 0 hdrLen body) (\<lambda>text.
        obind (mem_write 0 text (strValue result)) (\<lambda>v.
        obind (mem_write hdrLen [0] v) (\<lambda>v.
          Inr (True, result\<lparr> sizeValue := word_of_nat hdrLen, strValue := v \<rparr>)))))"

definition stunParseAtrIntegrity ::
    "octet list \<Rightarrow> nat \<Rightarrow> StunAtrIntegrity \<Rightarrow> (bool \<times> StunAtrIntegrity) outcome" where
  "stunParseAtrIntegrity body hdrLen result =
     (if hdrLen \<noteq> 20 then Inr (False, result)
      else obind (mem_read 0 hdrLen body) (\<lambda>h.
        obind (mem_write 0 h (hash result)) (\<lambda>h'. Inr (True, result\<lparr> hash := h' \<rparr>))))"

section \<open>The message parser\<close>

text \<open>Storing what an attribute parser returns.\<close>

definition store_atr :: "(bool \<times> 'a) outcome \<Rightarrow> ('a \<Rightarrow> 'm) \<Rightarrow> (bool \<times> 'm) outcome" where
  "store_atr r put = obind r (\<lambda>(ok, a). Inr (ok, put a))"

text \<open>The \<open>switch\<close> on the attribute type. An unknown attribute is skipped when its type is
  above \<open>0x7FFF\<close> and refused otherwise.\<close>

definition stunParseAttribute ::
    "u16 \<Rightarrow> octet list \<Rightarrow> nat \<Rightarrow> StunMessage \<Rightarrow> (bool \<times> StunMessage) outcome" where
  "stunParseAttribute atrType body attrLen msg =
     (if atrType = MappedAddress then
        store_atr (stunParseAtrAddress body attrLen (mappedAddress msg))
          (\<lambda>a. msg\<lparr> hasMappedAddress := True, mappedAddress := a \<rparr>)
      else if atrType = ResponseAddress then
        store_atr (stunParseAtrAddress body attrLen (responseAddress msg))
          (\<lambda>a. msg\<lparr> hasResponseAddress := True, responseAddress := a \<rparr>)
      else if atrType = ChangeRequest then
        store_atr (stunParseAtrChangeRequest body attrLen (changeRequest msg))
          (\<lambda>a. msg\<lparr> hasChangeRequest := True, changeRequest := a \<rparr>)
      else if atrType = SourceAddress then
        store_atr (stunParseAtrAddress body attrLen (sourceAddress msg))
          (\<lambda>a. msg\<lparr> hasSourceAddress := True, sourceAddress := a \<rparr>)
      else if atrType = ChangedAddress then
        store_atr (stunParseAtrAddress body attrLen (changedAddress msg))
          (\<lambda>a. msg\<lparr> hasChangedAddress := True, changedAddress := a \<rparr>)
      else if atrType = Username then
        store_atr (stunParseAtrString body attrLen (username msg))
          (\<lambda>a. msg\<lparr> hasUsername := True, username := a \<rparr>)
      else if atrType = Password then
        store_atr (stunParseAtrString body attrLen (password msg))
          (\<lambda>a. msg\<lparr> hasPassword := True, password := a \<rparr>)
      else if atrType = MessageIntegrity then
        store_atr (stunParseAtrIntegrity body attrLen (messageIntegrity msg))
          (\<lambda>a. msg\<lparr> hasMessageIntegrity := True, messageIntegrity := a \<rparr>)
      else if atrType = ErrorCode then
        store_atr (stunParseAtrError body attrLen (errorCode msg))
          (\<lambda>a. msg\<lparr> hasErrorCode := True, errorCode := a \<rparr>)
      else if atrType = UnknownAttribute then
        store_atr (stunParseAtrUnknown body attrLen (unknownAttributes msg))
          (\<lambda>a. msg\<lparr> hasUnknownAttributes := True, unknownAttributes := a \<rparr>)
      else if atrType = ReflectedFrom then
        store_atr (stunParseAtrAddress body attrLen (reflectedFrom msg))
          (\<lambda>a. msg\<lparr> hasReflectedFrom := True, reflectedFrom := a \<rparr>)
      else Inr (\<not> atrType \<le> 0x7FFF, msg))"

text \<open>The loop over the attributes. The header of an attribute is read before the code knows
  that four octets are left; the comparison that follows refuses the message if they are not.\<close>

function stunParseAttributes ::
    "octet list \<Rightarrow> nat \<Rightarrow> StunMessage \<Rightarrow> (bool \<times> StunMessage) outcome" where
  "stunParseAttributes body sz msg =
     (if sz = 0 then Inr (True, msg)
      else obind (mem_read 0 4 body) (\<lambda>h.
        let atrType = get16 (h ! 0) (h ! 1); attrLen = unat (get16 (h ! 2) (h ! 3)) in
        if attrLen + 4 > sz then Inr (False, msg)
        else obind (stunParseAttribute atrType (drop 4 body) attrLen msg) (\<lambda>(ok, msg).
          if ok then stunParseAttributes (drop (4 + attrLen) body) (sz - 4 - attrLen) msg
          else Inr (False, msg))))"
  by pat_completeness auto
termination by (relation "measure (\<lambda>(body, sz, msg). sz)") auto

declare stunParseAttributes.simps [simp del]

definition stunParseMessage :: "octet list \<Rightarrow> nat \<Rightarrow> (bool \<times> StunMessage) outcome" where
  "stunParseMessage buf bufLen =
     (let msg = zero_message in
      if sizeof_StunMsgHdr > bufLen then Inr (False, msg)
      else obind (mem_read 0 sizeof_StunMsgHdr buf) (\<lambda>h.
        let hdr = \<lparr> msgType = get16 (h ! 0) (h ! 1), msgLength = get16 (h ! 2) (h ! 3),
                    msgId = drop 4 h \<rparr>;
            msg = msg\<lparr> msgHdr := hdr \<rparr> in
        if unat (msgLength hdr) + sizeof_StunMsgHdr \<noteq> bufLen then Inr (False, msg)
        else stunParseAttributes (drop sizeof_StunMsgHdr buf) (unat (msgLength hdr)) msg))"

section \<open>Attribute encoders\<close>

text \<open>An encoder returns the octets it appends; \<open>encode16\<close>, \<open>encode32\<close> and \<open>encode\<close> copy an
  integer in network order and a run of characters.\<close>

definition encode16 :: "u16 \<Rightarrow> octet list" where "encode16 data = be16 data"

definition encode32 :: "u32 \<Rightarrow> octet list" where "encode32 data = be32 data"

definition encode :: "octet list \<Rightarrow> nat \<Rightarrow> octet list outcome" where
  "encode data len = mem_read 0 len data"

definition encodeAtrAddress4 :: "u16 \<Rightarrow> StunAtrAddress4 \<Rightarrow> octet list outcome" where
  "encodeAtrAddress4 ty atr = Inr (encode16 ty @ encode16 8 @ [pad atr, IPv4Family] @
     encode16 (port (ipv4 atr)) @ encode32 (addr (ipv4 atr)))"

definition encodeAtrChangeRequest :: "StunAtrChangeRequest \<Rightarrow> octet list outcome" where
  "encodeAtrChangeRequest atr =
     Inr (encode16 ChangeRequest @ encode16 4 @ encode32 (changeValue atr))"

definition encodeAtrError :: "StunAtrError \<Rightarrow> octet list outcome" where
  "encodeAtrError atr =
     obind (encode (reason atr) (unat (sizeReason atr))) (\<lambda>text.
       Inr (encode16 ErrorCode @ encode16 (6 + sizeReason atr) @ encode16 (errorPad atr) @
         [errorClass atr, number atr] @ text))"

definition encodeAtrUnknown :: "StunAtrUnknown \<Rightarrow> octet list outcome" where
  "encodeAtrUnknown atr =
     obind (mem_read 0 (unat (numAttributes atr)) (attrType atr)) (\<lambda>types.
       Inr (encode16 UnknownAttribute @ encode16 (2 + 2 * numAttributes atr) @
         concat (map encode16 types)))"

definition encodeAtrString :: "u16 \<Rightarrow> StunAtrString \<Rightarrow> octet list outcome" where
  "encodeAtrString ty atr =
     oassert (unat (sizeValue atr) mod 4 = 0)
       (obind (encode (strValue atr) (unat (sizeValue atr))) (\<lambda>text.
         Inr (encode16 ty @ encode16 (sizeValue atr) @ text)))"

definition encodeAtrIntegrity :: "StunAtrIntegrity \<Rightarrow> octet list outcome" where
  "encodeAtrIntegrity atr =
     obind (encode (hash atr) sizeof_hash) (\<lambda>h. Inr (encode16 MessageIntegrity @ encode16 20 @ h))"

section \<open>The message encoder\<close>

text \<open>The octets written so far, followed by those of an attribute that may be absent.\<close>

definition put_atr :: "bool \<Rightarrow> octet list outcome \<Rightarrow> octet list \<Rightarrow> octet list outcome" where
  "put_atr has enc ptr = (if has then obind enc (\<lambda>bs. Inr (ptr @ bs)) else Inr ptr)"

text \<open>\<open>computeHmac\<close> leaves twenty octets; the key is the first \<open>sizeKey\<close> characters.\<close>

type_synonym hmac_fun = "octet list \<Rightarrow> octet list \<Rightarrow> octet list"

definition computeHmac :: "hmac_fun \<Rightarrow> octet list \<Rightarrow> octet list \<Rightarrow> octet list outcome" where
  "computeHmac hmac input key = oassert (length (hmac key input) = 20) (Inr (hmac key input))"

definition encode_attributes :: "StunMessage \<Rightarrow> octet list \<Rightarrow> octet list outcome" where
  "encode_attributes msg ptr =
     obind (put_atr (hasMappedAddress msg) (encodeAtrAddress4 MappedAddress (mappedAddress msg)) ptr) (\<lambda>ptr.
     obind (put_atr (hasResponseAddress msg) (encodeAtrAddress4 ResponseAddress (responseAddress msg)) ptr) (\<lambda>ptr.
     obind (put_atr (hasChangeRequest msg) (encodeAtrChangeRequest (changeRequest msg)) ptr) (\<lambda>ptr.
     obind (put_atr (hasSourceAddress msg) (encodeAtrAddress4 SourceAddress (sourceAddress msg)) ptr) (\<lambda>ptr.
     obind (put_atr (hasChangedAddress msg) (encodeAtrAddress4 ChangedAddress (changedAddress msg)) ptr) (\<lambda>ptr.
     obind (put_atr (hasUsername msg) (encodeAtrString Username (username msg)) ptr) (\<lambda>ptr.
     obind (put_atr (hasPassword msg) (encodeAtrString Password (password msg)) ptr) (\<lambda>ptr.
     obind (put_atr (hasErrorCode msg) (encodeAtrError (errorCode msg)) ptr) (\<lambda>ptr.
     obind (put_atr (hasUnknownAttributes msg) (encodeAtrUnknown (unknownAttributes msg)) ptr) (\<lambda>ptr.
     put_atr (hasReflectedFrom msg) (encodeAtrAddress4 ReflectedFrom (reflectedFrom msg)) ptr)))))))))"

definition encode_signature ::
    "hmac_fun \<Rightarrow> StunAtrString \<Rightarrow> octet list \<Rightarrow> octet list outcome" where
  "encode_signature hmac pw ptr =
     (if sizeValue pw > 0
      then obind (encode (strValue pw) (unat (sizeValue pw))) (\<lambda>key.
           obind (computeHmac hmac ptr key) (\<lambda>h. put_atr True (encodeAtrIntegrity \<lparr> hash = h \<rparr>) ptr))
      else Inr ptr)"

text \<open>
  The length field is zero while the attributes are written, and so it is zero in the text the
  keyed hash is taken of; it is filled in at the end. The result is the contents of the buffer
  up to the returned length. The code compares the size of the buffer with the header only;
  a message that does not fit is written past its end.
\<close>

definition stunEncodeMessage ::
    "hmac_fun \<Rightarrow> StunMessage \<Rightarrow> nat \<Rightarrow> StunAtrString \<Rightarrow> octet list outcome" where
  "stunEncodeMessage hmac msg bufLen pw =
     oassert (bufLen \<ge> sizeof_StunMsgHdr)
       (obind (encode (msgId (msgHdr msg)) 16) (\<lambda>mid.
        obind (encode_attributes msg (encode16 (msgType (msgHdr msg)) @ encode16 0 @ mid)) (\<lambda>ptr.
        obind (encode_signature hmac pw ptr) (\<lambda>ptr.
        if length ptr > bufLen then Inl OutOfBounds
        else mem_write 2 (encode16 (word_of_nat (length ptr - sizeof_StunMsgHdr))) ptr))))"

section \<open>One attribute through the wire\<close>

text \<open>The attribute values that the encoders write and the parsers give back unchanged: an
  address of the IPv4 family, a string whose size is a multiple of four below 256 and whose
  array is zero from there on, a hash of twenty octets.\<close>

definition canonical_address :: "StunAtrAddress4 \<Rightarrow> bool" where
  "canonical_address a \<longleftrightarrow> family a = IPv4Family"

definition canonical_string :: "StunAtrString \<Rightarrow> bool" where
  "canonical_string s \<longleftrightarrow> length (strValue s) = STUN_MAX_STRING \<and>
     unat (sizeValue s) < STUN_MAX_STRING \<and> unat (sizeValue s) mod 4 = 0 \<and>
     drop (unat (sizeValue s)) (strValue s) = replicate (STUN_MAX_STRING - unat (sizeValue s)) 0"

definition canonical_integrity :: "StunAtrIntegrity \<Rightarrow> bool" where
  "canonical_integrity h \<longleftrightarrow> length (hash h) = sizeof_hash"

definition address_octets :: "StunAtrAddress4 \<Rightarrow> octet list" where
  "address_octets a = [pad a, IPv4Family] @ be16 (port (ipv4 a)) @ be32 (addr (ipv4 a))"

definition string_octets :: "StunAtrString \<Rightarrow> octet list" where
  "string_octets s = take (unat (sizeValue s)) (strValue s)"

lemma length_address_octets [simp]: "length (address_octets a) = 8"
  by (simp add: address_octets_def)

lemma address_parse:
  assumes "canonical_address a"
  shows "stunParseAtrAddress (address_octets a @ rest) 8 r = Inr (True, a)"
  using assms
  by (simp add: stunParseAtrAddress_def address_octets_def mem_read_def be16_def be32_def
      canonical_address_def take_Cons' drop_Cons' nth_Cons')

lemma address_encode:
  "encodeAtrAddress4 ty a = Inr (encode16 ty @ encode16 8 @ address_octets a)"
  by (simp add: encodeAtrAddress4_def address_octets_def encode16_def encode32_def)

lemma length_string_octets [simp]:
  "canonical_string s \<Longrightarrow> length (string_octets s) = unat (sizeValue s)"
  by (simp add: string_octets_def canonical_string_def)

lemma string_parse:
  assumes "canonical_string s"
  shows "stunParseAtrString (string_octets s @ rest) (unat (sizeValue s)) zero_atr_string = Inr (True, s)"
proof -
  let ?n = "unat (sizeValue s)"
  have n: "?n < 256" "?n mod 4 = 0" and len: "length (strValue s) = 256"
    and zero: "drop ?n (strValue s) = replicate (256 - ?n) 0"
    using assms by (simp_all add: canonical_string_def STUN_MAX_STRING_def)
  obtain k where k: "256 - ?n = Suc k" using n by (cases "256 - ?n") auto
  have "take ?n (strValue s) @ 0 # replicate k 0 = strValue s"
    using zero append_take_drop_id [of ?n "strValue s"] by (simp add: k)
  moreover have "drop (Suc ?n) (take ?n (strValue s) @ replicate (256 - ?n) 0) = replicate k (0 :: octet)"
    using len n k by simp
  ultimately show ?thesis
    using n len by (simp add: stunParseAtrString_def string_octets_def mem_read_def mem_write_def
        zero_atr_string_def STUN_MAX_STRING_def)
qed

lemma string_encode:
  assumes "canonical_string s"
  shows "encodeAtrString ty s = Inr (encode16 ty @ encode16 (sizeValue s) @ string_octets s)"
  using assms by (simp add: encodeAtrString_def canonical_string_def encode_def mem_read_def
      string_octets_def)

text \<open>The loop, at octets \<open>bs\<close> with the structure \<open>m\<close>, gets past them with the structure \<open>m'\<close>.\<close>

definition parses :: "octet list \<Rightarrow> StunMessage \<Rightarrow> StunMessage \<Rightarrow> bool" where
  "parses bs m m' \<longleftrightarrow> (\<forall>rest k.
     stunParseAttributes (bs @ rest) (length bs + k) m = stunParseAttributes rest k m')"

lemma parses_Nil: "parses [] m m"
  by (simp add: parses_def)

lemma parses_append: "parses bs m m' \<Longrightarrow> parses cs m' m'' \<Longrightarrow> parses (bs @ cs) m m''"
  by (simp add: parses_def add.assoc)

lemma parses_all: "parses bs m m' \<Longrightarrow> stunParseAttributes (bs @ rest) (length bs) m = Inr (True, m')"
  by (drule parses_def [THEN iffD1, rule_format, where rest = rest and k = 0])
    (simp add: stunParseAttributes.simps [of _ 0])

lemma parses_attribute:
  assumes "stunParseAttribute ty (bs @ rest) (length bs) m = Inr (True, m')" "length bs < 2 ^ 16"
  shows "stunParseAttributes (encode16 ty @ encode16 (word_of_nat (length bs)) @ bs @ rest)
    (4 + length bs + k) m = stunParseAttributes rest k m'"
proof -
  have "unat (word_of_nat (length bs) :: u16) = length bs"
    by (rule unat_u16_of_nat [OF assms(2)])
  then show ?thesis
    using assms(1)
    by (subst stunParseAttributes.simps)
      (simp add: encode16_def be16_def mem_read_def take_Cons' drop_Cons' nth_Cons')
qed

text \<open>A part of the encoder that appends at most \<open>n\<close> octets, with which the parser goes from
  \<open>m\<close> to \<open>m'\<close>.\<close>

definition writes ::
    "(octet list \<Rightarrow> octet list outcome) \<Rightarrow> nat \<Rightarrow> StunMessage \<Rightarrow> StunMessage \<Rightarrow> bool" where
  "writes f n m m' \<longleftrightarrow> (\<forall>ptr. \<exists>bs. f ptr = Inr (ptr @ bs) \<and> length bs \<le> n \<and> parses bs m m')"

lemma writes_seq:
  assumes "writes f n m m'" "writes g k m' m''"
  shows "writes (\<lambda>ptr. obind (f ptr) g) (n + k) m m''"
  unfolding writes_def
proof
  fix ptr
  obtain bs where bs: "f ptr = Inr (ptr @ bs)" "length bs \<le> n" "parses bs m m'"
    using assms(1) by (auto simp: writes_def)
  obtain cs where "g (ptr @ bs) = Inr ((ptr @ bs) @ cs)" "length cs \<le> k" "parses cs m' m''"
    using assms(2) unfolding writes_def by blast
  with bs show "\<exists>cs. obind (f ptr) g = Inr (ptr @ cs) \<and> length cs \<le> n + k \<and> parses cs m m''"
    by (intro exI [of _ "bs @ cs"]) (auto intro: parses_append)
qed

lemma writes_absent: "writes (put_atr False enc) 0 m m"
  by (simp add: writes_def put_atr_def parses_Nil)

text \<open>
  What the loop over the attributes relies on: the encoder of an attribute writes its type, its
  length and its octets, and the \<open>switch\<close> on that type, given those octets, stores the same
  value in the field of the message, if the field has not been filled before. A message without
  the attribute has the field as \<open>memset\<close> left it.
\<close>

locale attribute_codec =
  fixes ty :: u16 and width :: nat and canon :: "'a \<Rightarrow> bool" and zero :: 'a
    and octets :: "'a \<Rightarrow> octet list" and enc :: "'a \<Rightarrow> octet list outcome"
    and fresh :: "StunMessage \<Rightarrow> bool" and put :: "bool \<Rightarrow> 'a \<Rightarrow> StunMessage \<Rightarrow> StunMessage"
  assumes enc_ok: "canon a \<Longrightarrow>
      enc a = Inr (encode16 ty @ encode16 (word_of_nat (length (octets a))) @ octets a)"
    and width: "canon a \<Longrightarrow> length (octets a) \<le> width" "width < 2 ^ 16"
    and parse_ok: "canon a \<Longrightarrow> fresh m \<Longrightarrow>
      stunParseAttribute ty (octets a @ rest) (length (octets a)) m = Inr (True, put True a m)"
    and put_absent: "fresh m \<Longrightarrow> put False zero m = m"
begin

lemma writes_atr:
  assumes "if has then canon a else a = zero" "fresh m"
  shows "writes (put_atr has (enc a)) (4 + width) m (put has a m)"
proof (cases has)
  case True
  with assms have a: "canon a" by simp
  let ?bs = "encode16 ty @ encode16 (word_of_nat (length (octets a))) @ octets a"
  have short: "length (octets a) < 2 ^ 16" using width(1) [OF a] width(2) by simp
  have "parses ?bs m (put True a m)"
    using parses_attribute [OF parse_ok [OF a assms(2)] short]
    unfolding parses_def by (simp add: encode16_def eval_nat_numeral)
  then show ?thesis
    using True enc_ok [OF a] width(1) [OF a] unfolding writes_def
    by (intro allI exI [of _ ?bs]) (simp add: put_atr_def encode16_def)
next
  case False
  then have "put_atr has (enc a) ptr = Inr ptr" "put has a m = m" for ptr
    using assms put_absent by (simp_all add: put_atr_def)
  then show ?thesis by (auto simp: writes_def parses_Nil)
qed

end

lemmas switch_simps = stunParseAttribute_def store_atr_def atr_types

interpretation mapped: attribute_codec MappedAddress 8 canonical_address zero_atr_address
  address_octets "encodeAtrAddress4 MappedAddress"
  "\<lambda>m. \<not> hasMappedAddress m \<and> mappedAddress m = zero_atr_address"
  "\<lambda>b a m. m\<lparr> hasMappedAddress := b, mappedAddress := a \<rparr>"
  by unfold_locales (simp_all add: address_encode address_parse switch_simps)

interpretation response: attribute_codec ResponseAddress 8 canonical_address zero_atr_address
  address_octets "encodeAtrAddress4 ResponseAddress"
  "\<lambda>m. \<not> hasResponseAddress m \<and> responseAddress m = zero_atr_address"
  "\<lambda>b a m. m\<lparr> hasResponseAddress := b, responseAddress := a \<rparr>"
  by unfold_locales (simp_all add: address_encode address_parse switch_simps)

interpretation source: attribute_codec SourceAddress 8 canonical_address zero_atr_address
  address_octets "encodeAtrAddress4 SourceAddress"
  "\<lambda>m. \<not> hasSourceAddress m \<and> sourceAddress m = zero_atr_address"
  "\<lambda>b a m. m\<lparr> hasSourceAddress := b, sourceAddress := a \<rparr>"
  by unfold_locales (simp_all add: address_encode address_parse switch_simps)

interpretation changed: attribute_codec ChangedAddress 8 canonical_address zero_atr_address
  address_octets "encodeAtrAddress4 ChangedAddress"
  "\<lambda>m. \<not> hasChangedAddress m \<and> changedAddress m = zero_atr_address"
  "\<lambda>b a m. m\<lparr> hasChangedAddress := b, changedAddress := a \<rparr>"
  by unfold_locales (simp_all add: address_encode address_parse switch_simps)

interpretation reflected: attribute_codec ReflectedFrom 8 canonical_address zero_atr_address
  address_octets "encodeAtrAddress4 ReflectedFrom"
  "\<lambda>m. \<not> hasReflectedFrom m \<and> reflectedFrom m = zero_atr_address"
  "\<lambda>b a m. m\<lparr> hasReflectedFrom := b, reflectedFrom := a \<rparr>"
  by unfold_locales (simp_all add: address_encode address_parse switch_simps)

interpretation change: attribute_codec ChangeRequest 4 "\<lambda>_. True" "\<lparr> changeValue = 0 \<rparr>"
  "\<lambda>c. be32 (changeValue c)" encodeAtrChangeRequest
  "\<lambda>m. \<not> hasChangeRequest m \<and> changeRequest m = \<lparr> changeValue = 0 \<rparr>"
  "\<lambda>b a m. m\<lparr> hasChangeRequest := b, changeRequest := a \<rparr>"
  by unfold_locales
    (simp_all add: encodeAtrChangeRequest_def encode32_def stunParseAtrChangeRequest_def switch_simps
      mem_read_def be32_def take_Cons' nth_Cons')

interpretation user: attribute_codec Username 255 canonical_string zero_atr_string
  string_octets "encodeAtrString Username"
  "\<lambda>m. \<not> hasUsername m \<and> username m = zero_atr_string"
  "\<lambda>b a m. m\<lparr> hasUsername := b, username := a \<rparr>"
  by unfold_locales
    (simp_all add: string_encode string_parse switch_simps, simp add: canonical_string_def STUN_MAX_STRING_def)

interpretation pass: attribute_codec Password 255 canonical_string zero_atr_string
  string_octets "encodeAtrString Password"
  "\<lambda>m. \<not> hasPassword m \<and> password m = zero_atr_string"
  "\<lambda>b a m. m\<lparr> hasPassword := b, password := a \<rparr>"
  by unfold_locales
    (simp_all add: string_encode string_parse switch_simps, simp add: canonical_string_def STUN_MAX_STRING_def)

interpretation integrity: attribute_codec MessageIntegrity 20 canonical_integrity zero_atr_integrity
  hash encodeAtrIntegrity
  "\<lambda>m. \<not> hasMessageIntegrity m \<and> messageIntegrity m = zero_atr_integrity"
  "\<lambda>b a m. m\<lparr> hasMessageIntegrity := b, messageIntegrity := a \<rparr>"
  by unfold_locales
    (simp_all add: encodeAtrIntegrity_def encode_def canonical_integrity_def sizeof_hash_def
      mem_read_def stunParseAtrIntegrity_def mem_write_def zero_atr_integrity_def switch_simps)

section \<open>A message through the wire\<close>

definition atr_ok :: "('a \<Rightarrow> bool) \<Rightarrow> 'a \<Rightarrow> bool \<Rightarrow> 'a \<Rightarrow> bool" where
  "atr_ok canon zero has a \<longleftrightarrow> (if has then canon a else a = zero)"

text \<open>A message that the encoder writes and the parser gives back: every attribute that is
  present is canonical, every other one is zero, and there is no ERROR-CODE and no
  UNKNOWN-ATTRIBUTES, whose encoders do not agree with their parsers.\<close>

definition canonical_message :: "StunMessage \<Rightarrow> bool" where
  "canonical_message m \<longleftrightarrow> length (msgId (msgHdr m)) = 16 \<and>
     atr_ok canonical_address zero_atr_address (hasMappedAddress m) (mappedAddress m) \<and>
     atr_ok canonical_address zero_atr_address (hasResponseAddress m) (responseAddress m) \<and>
     atr_ok (\<lambda>_. True) \<lparr> changeValue = 0 \<rparr> (hasChangeRequest m) (changeRequest m) \<and>
     atr_ok canonical_address zero_atr_address (hasSourceAddress m) (sourceAddress m) \<and>
     atr_ok canonical_address zero_atr_address (hasChangedAddress m) (changedAddress m) \<and>
     atr_ok canonical_string zero_atr_string (hasUsername m) (username m) \<and>
     atr_ok canonical_string zero_atr_string (hasPassword m) (password m) \<and>
     \<not> hasErrorCode m \<and> errorCode m = zero_atr_error \<and>
     \<not> hasUnknownAttributes m \<and> unknownAttributes m = zero_atr_unknown \<and>
     atr_ok canonical_address zero_atr_address (hasReflectedFrom m) (reflectedFrom m)"

lemma writes_attributes:
  assumes "canonical_message msg"
  shows "writes (encode_attributes msg) 586 (zero_message\<lparr> msgHdr := h \<rparr>)
    (msg\<lparr> msgHdr := h, hasMessageIntegrity := False, messageIntegrity := zero_atr_integrity \<rparr>)"
proof -
  let ?m = "zero_message\<lparr> msgHdr := h,
    hasMappedAddress := hasMappedAddress msg, mappedAddress := mappedAddress msg,
    hasResponseAddress := hasResponseAddress msg, responseAddress := responseAddress msg,
    hasChangeRequest := hasChangeRequest msg, changeRequest := changeRequest msg,
    hasSourceAddress := hasSourceAddress msg, sourceAddress := sourceAddress msg,
    hasChangedAddress := hasChangedAddress msg, changedAddress := changedAddress msg,
    hasUsername := hasUsername msg, username := username msg,
    hasPassword := hasPassword msg, password := password msg,
    hasReflectedFrom := hasReflectedFrom msg, reflectedFrom := reflectedFrom msg \<rparr>"
  note ok = assms [unfolded canonical_message_def atr_ok_def]
  have flags: "hasErrorCode msg = False" "hasUnknownAttributes msg = False" using ok by simp_all
  have "writes (encode_attributes msg)
      ((4 + 8) + ((4 + 8) + ((4 + 4) + ((4 + 8) + ((4 + 8) + ((4 + 255) + ((4 + 255) +
        (0 + (0 + (4 + 8)))))))))) (zero_message\<lparr> msgHdr := h \<rparr>) ?m"
    unfolding encode_attributes_def [abs_def] flags
    by (rule writes_seq [OF mapped.writes_atr writes_seq [OF response.writes_atr
          writes_seq [OF change.writes_atr writes_seq [OF source.writes_atr
          writes_seq [OF changed.writes_atr writes_seq [OF user.writes_atr
          writes_seq [OF pass.writes_atr writes_seq [OF writes_absent
          writes_seq [OF writes_absent reflected.writes_atr]]]]]]]]])
      (simp_all add: ok)
  moreover have "?m = msg\<lparr> msgHdr := h, hasMessageIntegrity := False,
      messageIntegrity := zero_atr_integrity \<rparr>"
    using ok by (cases msg) (simp add: zero_message_def)
  ultimately show ?thesis by simp
qed

lemma encode_attributes_ok:
  assumes "canonical_message msg"
  shows "\<exists>bs. encode_attributes msg ptr = Inr (ptr @ bs) \<and> length bs \<le> 586 \<and>
    (\<forall>h. parses bs (zero_message\<lparr> msgHdr := h \<rparr>)
      (msg\<lparr> msgHdr := h, hasMessageIntegrity := False, messageIntegrity := zero_atr_integrity \<rparr>))"
proof -
  note w = writes_attributes [OF assms, unfolded writes_def, rule_format, of ptr]
  then obtain bs where bs: "encode_attributes msg ptr = Inr (ptr @ bs)" "length bs \<le> 586" by blast
  then have "parses bs (zero_message\<lparr> msgHdr := h \<rparr>)
      (msg\<lparr> msgHdr := h, hasMessageIntegrity := False, messageIntegrity := zero_atr_integrity \<rparr>)" for h
    using w [of h] by auto
  with bs show ?thesis by blast
qed

lemma wire_length [simp]: "length (encode16 w) = 2"
  by (simp add: encode16_def)

lemma mem_write_length_field:
  "mem_write 2 (encode16 n) (encode16 t @ encode16 z @ rest) = Inr (encode16 t @ encode16 n @ rest)"
  by (simp add: mem_write_def encode16_def be16_def)

lemma stunParseMessage_wire:
  assumes "parses bs (zero_message\<lparr> msgHdr := \<lparr> msgType = t, msgLength = word_of_nat n,
      msgId = i \<rparr> \<rparr>) m'" "n = length bs" "length i = 16" "n < 2 ^ 16"
  shows "stunParseMessage (encode16 t @ encode16 (word_of_nat n) @ i @ bs @ rest) (20 + n) = Inr (True, m')"
proof -
  have "unat (word_of_nat n :: u16) = n"
    by (rule unat_u16_of_nat [OF assms(4)])
  then show ?thesis
    using parses_all [OF assms(1), of rest] assms(2,3)
    by (simp add: stunParseMessage_def sizeof_StunMsgHdr_def mem_read_def encode16_def be16_def
        take_Cons' drop_Cons' nth_Cons')
qed

text \<open>The signature the encoder appends when it has a password.\<close>

definition signs :: "hmac_fun \<Rightarrow> StunAtrString \<Rightarrow> bool" where
  "signs hmac pw \<longleftrightarrow> sizeValue pw = 0 \<or>
     unat (sizeValue pw) \<le> length (strValue pw) \<and> (\<forall>key input. length (hmac key input) = 20)"

definition signature :: "hmac_fun \<Rightarrow> StunAtrString \<Rightarrow> octet list \<Rightarrow> StunAtrIntegrity" where
  "signature hmac pw input = (if sizeValue pw = 0 then zero_atr_integrity
     else \<lparr> hash = hmac (take (unat (sizeValue pw)) (strValue pw)) input \<rparr>)"

lemma writes_signature:
  assumes "signs hmac pw" "\<not> hasMessageIntegrity m" "messageIntegrity m = zero_atr_integrity"
  shows "\<exists>bs. encode_signature hmac pw ptr = Inr (ptr @ bs) \<and>
    length bs = (if sizeValue pw = 0 then 0 else 24) \<and>
    parses bs m (m\<lparr> hasMessageIntegrity := sizeValue pw \<noteq> 0, messageIntegrity := signature hmac pw ptr \<rparr>)"
proof (cases "sizeValue pw = 0")
  case True
  then have "m\<lparr> hasMessageIntegrity := sizeValue pw \<noteq> 0, messageIntegrity := signature hmac pw ptr \<rparr> = m"
    using assms by (simp add: signature_def)
  with True show ?thesis by (simp add: parses_Nil encode_signature_def)
next
  case False
  let ?h = "hmac (take (unat (sizeValue pw)) (strValue pw)) ptr"
  have h: "length ?h = 20" and key: "unat (sizeValue pw) \<le> length (strValue pw)"
    using assms(1) False by (simp_all add: signs_def)
  have pos: "0 < sizeValue pw" using False by (simp add: word_neq_0_conv)
  have "writes (put_atr True (encodeAtrIntegrity \<lparr> hash = ?h \<rparr>)) (4 + 20) m
      (m\<lparr> hasMessageIntegrity := True, messageIntegrity := \<lparr> hash = ?h \<rparr> \<rparr>)"
    by (rule integrity.writes_atr) (simp_all add: canonical_integrity_def sizeof_hash_def h assms)
  then obtain bs where bs: "put_atr True (encodeAtrIntegrity \<lparr> hash = ?h \<rparr>) ptr = Inr (ptr @ bs)"
    "parses bs m (m\<lparr> hasMessageIntegrity := True, messageIntegrity := \<lparr> hash = ?h \<rparr> \<rparr>)"
    unfolding writes_def by blast
  have "length bs = 24" using bs(1) h
    by (auto simp: put_atr_def encodeAtrIntegrity_def encode_def mem_read_def sizeof_hash_def encode16_def)
  then show ?thesis
    using bs False h key pos
    by (intro exI [of _ bs])
      (simp add: encode_signature_def signature_def encode_def mem_read_def computeHmac_def)
qed

lemma stunEncode_parse:
  assumes "canonical_message msg" "signs hmac pw" "630 \<le> bufLen"
  shows "\<exists>d. stunEncodeMessage hmac msg bufLen pw = Inr d \<and> length d \<le> 630 \<and>
    (\<forall>rest. stunParseMessage (d @ rest) (length d) = Inr (True, msg\<lparr>
       msgHdr := (msgHdr msg)\<lparr> msgLength := word_of_nat (length d - sizeof_StunMsgHdr) \<rparr>,
       hasMessageIntegrity := sizeValue pw \<noteq> 0,
       messageIntegrity := signature hmac pw (take (length d - 24) (d[2 := 0, 3 := 0])) \<rparr>))"
proof -
  let ?t = "msgType (msgHdr msg)" and ?i = "msgId (msgHdr msg)"
  let ?p0 = "encode16 ?t @ encode16 0 @ ?i"
  let ?m = "\<lambda>h. msg\<lparr> msgHdr := h, hasMessageIntegrity := False, messageIntegrity := zero_atr_integrity \<rparr>"
  have i: "length ?i = 16" using assms(1) by (simp add: canonical_message_def)
  obtain bs where bs: "encode_attributes msg ?p0 = Inr (?p0 @ bs)" "length bs \<le> 586"
    "\<And>h. parses bs (zero_message\<lparr> msgHdr := h \<rparr>) (?m h)"
    using encode_attributes_ok [OF assms(1)] by blast
  let ?n = "length bs + (if sizeValue pw = 0 then 0 else 24)"
  let ?h = "\<lparr> msgType = ?t, msgLength = word_of_nat ?n, msgId = ?i \<rparr>"
  obtain cs where cs: "encode_signature hmac pw (?p0 @ bs) = Inr ((?p0 @ bs) @ cs)"
    "length cs = (if sizeValue pw = 0 then 0 else 24)"
    "parses cs (?m ?h) ((?m ?h)\<lparr> hasMessageIntegrity := sizeValue pw \<noteq> 0,
       messageIntegrity := signature hmac pw (?p0 @ bs) \<rparr>)"
    using writes_signature [OF assms(2), of "?m ?h" "?p0 @ bs"] by auto
  let ?d = "encode16 ?t @ encode16 (word_of_nat (length (bs @ cs))) @ ?i @ bs @ cs"
  have "stunEncodeMessage hmac msg bufLen pw = Inr ?d"
    using assms(3) i bs(1,2) cs(1,2)
    by (simp add: stunEncodeMessage_def sizeof_StunMsgHdr_def encode_def mem_read_def wire_length mem_write_length_field)
  moreover have "signature hmac pw (take (length ?d - 24) (?d[2 := 0, 3 := 0])) = signature hmac pw (?p0 @ bs)"
    using cs(2) i by (simp add: signature_def encode16_def be16_def numeral_2_eq_2 numeral_3_eq_3
        take_Cons')
  moreover have "stunParseMessage (?d @ rest) (length ?d) = Inr (True, (?m ?h)\<lparr>
      hasMessageIntegrity := sizeValue pw \<noteq> 0, messageIntegrity := signature hmac pw (?p0 @ bs) \<rparr>)" for rest
    using stunParseMessage_wire [OF parses_append [OF bs(3) cs(3)], of rest] i bs(2) cs(2) by simp
  moreover have "length ?d \<le> 630" using i bs(2) cs(2) by (simp add: wire_length)
  ultimately show ?thesis
    using cs(2) i by (intro exI [of _ ?d]) (simp add: sizeof_StunMsgHdr_def)
qed

text \<open>C6: a message with canonical attributes survives the wire. \<open>stunEncodeMessage\<close> returns at
  most 630 octets for it, and \<open>stunParseMessage\<close>, given these octets in any array that starts
  with them, accepts them and returns the message that was sent, with the length field filled
  in and with the MESSAGE-INTEGRITY attribute that a password adds: the keyed hash of everything
  before that attribute, taken while the length field was zero.\<close>

theorem stun_roundtrip:
  assumes "canonical_message msg" "signs hmac pw" "630 \<le> bufLen"
  shows "\<exists>d. stunEncodeMessage hmac msg bufLen pw = Inr d \<and> length d \<le> 630 \<and>
    (\<forall>rest. stunParseMessage (d @ rest) (length d) = Inr (True, msg\<lparr>
       msgHdr := (msgHdr msg)\<lparr> msgLength := word_of_nat (length d - sizeof_StunMsgHdr) \<rparr>,
       hasMessageIntegrity := sizeValue pw \<noteq> 0,
       messageIntegrity := signature hmac pw (take (length d - 24) (d[2 := 0, 3 := 0])) \<rparr>))"
  using assms by (rule stunEncode_parse)

definition example_request :: StunMessage where
  "example_request = zero_message\<lparr> msgHdr := \<lparr> msgType = BindRequestMsg, msgLength = 0, msgId = replicate 16 7 \<rparr>,
     hasChangeRequest := True, changeRequest := \<lparr> changeValue = 6 \<rparr> \<rparr>"

theorem stun_roundtrip_witness:
  "\<exists>d. stunEncodeMessage (\<lambda>_ _. replicate 20 0) example_request 2048 zero_atr_string = Inr d \<and>
    length d \<le> 630 \<and>
    stunParseMessage d (length d) = Inr (True, example_request\<lparr>
      msgHdr := (msgHdr example_request)\<lparr> msgLength := word_of_nat (length d - sizeof_StunMsgHdr) \<rparr> \<rparr>)"
proof -
  have c: "canonical_message example_request"
    by (simp add: example_request_def canonical_message_def atr_ok_def)
  have s: "signs (\<lambda>_ _. replicate 20 0) zero_atr_string"
    by (simp add: signs_def zero_atr_string_def)
  have "630 \<le> (2048 :: nat)" by simp
  from stun_roundtrip [OF c s this] obtain d where d:
    "stunEncodeMessage (\<lambda>_ _. replicate 20 0) example_request 2048 zero_atr_string = Inr d" "length d \<le> 630"
    "stunParseMessage (d @ []) (length d) = Inr (True, example_request\<lparr>
       msgHdr := (msgHdr example_request)\<lparr> msgLength := word_of_nat (length d - sizeof_StunMsgHdr) \<rparr>,
       hasMessageIntegrity := sizeValue zero_atr_string \<noteq> 0,
       messageIntegrity := signature (\<lambda>_ _. replicate 20 0) zero_atr_string
         (take (length d - 24) (d[2 := 0, 3 := 0])) \<rparr>)"
    by blast
  then show ?thesis
    by (intro exI [of _ d]) (simp add: signature_def zero_atr_string_def example_request_def)
qed

end
