(* ===== verification/Stun_Server.thy ===== *)
theory Stun_Server
  imports Stun_Message "HOL-Library.Char_ord"
begin

text \<open>
  The STUN server of \<open>src/stund/stun.cxx\<close> and the datagram functions of \<open>src/stund/udp.cxx\<close> that
  it uses: \<open>stunServerProcessMsg\<close> with the user names, passwords and responses it creates,
  \<open>stunInitServer\<close>, \<open>stunStopServer\<close> and one round of \<open>stunServerProcess\<close>.

  What the code gets from outside is a parameter: the keyed hash of OpenSSL, the clock, the
  random number, the answers of \<open>socket\<close>, \<open>bind\<close>, \<open>select\<close> and \<open>recvfrom\<close>, and the contents of
  local variables that the code leaves uninitialised.
\<close>

section \<open>C strings\<close>

text \<open>\<open>strcmp (v, s) == 0\<close>\<close>

definition c_streq :: "octet list \<Rightarrow> octet list \<Rightarrow> bool" where
  "c_streq v s \<longleftrightarrow> take (length s + 1) v = s @ [0]"

definition hexmap :: "octet list" where "hexmap = cstr ''0123456789abcdef''"

definition hex_octet :: "octet \<Rightarrow> octet list" where
  "hex_octet temp = [hexmap ! unat (drop_bit 4 (temp AND 0xf0)), hexmap ! unat (temp AND 0xf)]"

text \<open>The characters that \<open>toHex\<close> stores, with the terminating zero.\<close>

definition toHex :: "octet list \<Rightarrow> nat \<Rightarrow> octet list outcome" where
  "toHex buffer bufferSize =
     obind (mem_read 0 bufferSize buffer) (\<lambda>bs. Inr (concat (map hex_octet bs) @ [0]))"

text \<open>The conversion \<open>%08lx\<close> of a 32-bit value: eight digits, the most significant one first.\<close>

definition fmt_08lx :: "u32 \<Rightarrow> octet list" where
  "fmt_08lx w = concat (map hex_octet (be32 w))"

text \<open>
  The conversion \<open>%lx\<close> of \<open>sscanf\<close> into a 32-bit value: white space, a sign, the prefix \<open>0x\<close>,
  digits. None when there is no digit; the variable then keeps its value. A number that does
  not fit gives the largest one.
\<close>

definition hex_value :: "octet \<Rightarrow> nat option" where
  "hex_value c =
     (if 0x30 \<le> c \<and> c \<le> 0x39 then Some (unat (c - 0x30))
      else if 0x61 \<le> c \<and> c \<le> 0x66 then Some (unat (c - 0x61) + 10)
      else if 0x41 \<le> c \<and> c \<le> 0x46 then Some (unat (c - 0x41) + 10) else None)"

definition hex_digits :: "octet list \<Rightarrow> nat list" where
  "hex_digits s = map (\<lambda>c. the (hex_value c)) (takeWhile (\<lambda>c. hex_value c \<noteq> None) s)"

definition scan_lx :: "octet list \<Rightarrow> u32 option" where
  "scan_lx v =
     (let s = dropWhile (\<lambda>c. c = 0x20 \<or> 9 \<le> c \<and> c \<le> 13) (takeWhile (\<lambda>b. b \<noteq> 0) v);
          neg = (s \<noteq> [] \<and> hd s = 0x2D);
          s = (if s \<noteq> [] \<and> (hd s = 0x2D \<or> hd s = 0x2B) then tl s else s);
          s = (if take 2 s = cstr ''0x'' \<or> take 2 s = cstr ''0X'' then drop 2 s else s);
          n = foldl (\<lambda>acc d. 16 * acc + d) 0 (hex_digits s) in
      if hex_digits s = [] then None
      else if n \<ge> 2 ^ 32 then Some (- 1)
      else Some (if neg then - word_of_nat n else word_of_nat n))"

section \<open>User names, passwords and responses\<close>

text \<open>\<open>time % 20*60\<close> is \<open>(time % 20) * 60\<close>. The assertions on the length of the buffer are those
  of the code.\<close>

definition stunCreateUserName ::
    "hmac_fun \<Rightarrow> u64 \<Rightarrow> u32 \<Rightarrow> StunAddress4 \<Rightarrow> StunAtrString \<Rightarrow> StunAtrString outcome" where
  "stunCreateUserName hmac now rnd source name =
     (let time = now - (now mod 20 * 60);
          lotime = time AND 0xFFFFFFFF;
          buffer = fmt_08lx (addr source) @ cstr '':'' @ fmt_08lx rnd @ cstr '':'' @
            fmt_08lx (ucast lotime) @ cstr '':'' in
      oassert (length buffer < 1024)
       (oassert (length buffer + 41 < STUN_MAX_STRING)
        (obind (computeHmac hmac buffer (cstr ''Jason'')) (\<lambda>h.
         obind (toHex h 20) (\<lambda>hmacHex.
         let buffer = buffer @ take 40 hmacHex; l = length buffer in
         oassert (l + 1 < STUN_MAX_STRING)
          (obind (mem_write 0 (buffer @ [0]) (strValue name)) (\<lambda>v.
           Inr (name\<lparr> sizeValue := word_of_nat l, strValue := v \<rparr>))))))))"

definition stunCreatePassword ::
    "hmac_fun \<Rightarrow> StunAtrString \<Rightarrow> StunAtrString \<Rightarrow> StunAtrString outcome" where
  "stunCreatePassword hmac name pw =
     obind (c_strlen (strValue name)) (\<lambda>n.
     obind (computeHmac hmac (take n (strValue name)) (cstr ''Fluffy'')) (\<lambda>h.
     obind (toHex h 20) (\<lambda>hex.
     obind (mem_write 0 hex (strValue pw)) (\<lambda>v.
     obind (mem_write 40 [0] v) (\<lambda>v.
       Inr (pw\<lparr> sizeValue := 40, strValue := v \<rparr>))))))"

text \<open>The parts of the response that the functions do not mention keep their values: the reason
  phrase gets no size and an error response no transaction identifier.\<close>

definition stunCreateErrorResponse ::
    "StunMessage \<Rightarrow> octet \<Rightarrow> octet \<Rightarrow> string \<Rightarrow> StunMessage outcome" where
  "stunCreateErrorResponse response cl num msg =
     obind (mem_write 0 (cstr msg @ [0]) (reason (errorCode response))) (\<lambda>r.
       Inr (response\<lparr> msgHdr := (msgHdr response)\<lparr> msgType := BindErrorResponseMsg \<rparr>,
         hasErrorCode := True,
         errorCode := (errorCode response)\<lparr> errorClass := cl, number := num, reason := r \<rparr> \<rparr>))"

definition stunCreateSharedSecretResponse ::
    "hmac_fun \<Rightarrow> u64 \<Rightarrow> u32 \<Rightarrow> StunMessage \<Rightarrow> StunAddress4 \<Rightarrow> StunMessage \<Rightarrow> StunMessage outcome" where
  "stunCreateSharedSecretResponse hmac now rnd request source response =
     (let response = response\<lparr> msgHdr := (msgHdr response)\<lparr> msgType := SharedSecretResponseMsg,
            msgId := msgId (msgHdr request) \<rparr> \<rparr> in
      obind (stunCreateUserName hmac now rnd source (username response)) (\<lambda>name.
      obind (stunCreatePassword hmac name (password response)) (\<lambda>pw.
        Inr (response\<lparr> hasUsername := True, username := name, hasPassword := True, password := pw \<rparr>))))"

section \<open>Processing a message\<close>

text \<open>What \<open>stunServerProcessMsg\<close> returns through its pointers.\<close>

record ServerReply =
  resp :: StunMessage
  destination :: StunAddress4
  hmacPassword :: StunAtrString
  changePort :: bool
  changeIp :: bool

text \<open>
  The authentication part of a Binding Request: \<open>Inl r\<close> when the code returns with the response
  \<open>r\<close>, \<open>Inr r\<close> when it goes on. The request has a MESSAGE-INTEGRITY attribute here only if the
  datagram has at least 44 octets, so the subtraction does not wrap around. The comparison is
  with the first twenty octets of the datagram, as in the code.
\<close>

definition authenticate ::
    "hmac_fun \<Rightarrow> octet list \<Rightarrow> nat \<Rightarrow> StunMessage \<Rightarrow> StunMessage \<Rightarrow> (StunMessage + StunMessage) outcome" where
  "authenticate hmac buf bufLen req r =
     (if \<not> hasMessageIntegrity req then Inr (Inr r)
      else if \<not> hasUsername req then
        obind (stunCreateErrorResponse r 4 32 ''No UserName and contains MessageIntegrity'') (\<lambda>r. Inr (Inl r))
      else if c_streq (strValue (username req)) (cstr ''test'') then
        obind (mem_read 0 (bufLen - 20 - 4) buf) (\<lambda>input.
        obind (computeHmac hmac input (cstr ''1234'')) (\<lambda>h.
        obind (mem_read 0 20 buf) (\<lambda>b.
          if b \<noteq> h then
            obind (stunCreateErrorResponse r 4 3 ''Unknown username. Try test with password 1234'')
              (\<lambda>r. Inr (Inl r))
          else Inr (Inr (r\<lparr> hasMessageIntegrity := True, hasUsername := True, username := username req \<rparr>)))))
      else Inr (Inr r))"

text \<open>The flags of the request.\<close>

definition asks_ip :: "StunMessage \<Rightarrow> bool" where
  "asks_ip req \<longleftrightarrow> changeValue (changeRequest req) AND ChangeIpFlag \<noteq> 0"

definition asks_port :: "StunMessage \<Rightarrow> bool" where
  "asks_port req \<longleftrightarrow> changeValue (changeRequest req) AND ChangePortFlag \<noteq> 0"

text \<open>The parts of the Binding Response: the header and the three addresses; the user name, of
  which the characters are copied but not the size; the password for the hash; the address in
  a long user name, where \<open>indet\<close> is the value of the uninitialised local variable \<open>source\<close>.\<close>

definition response_addresses ::
    "StunMessage \<Rightarrow> StunAddress4 \<Rightarrow> StunAddress4 \<Rightarrow> StunAddress4 \<Rightarrow> StunMessage \<Rightarrow> StunMessage" where
  "response_addresses req src myAddr altAddr r =
     (let mapped = ipv4 (mappedAddress req);
          mapped = (if port mapped = 0 then src else mapped) in
      r\<lparr> msgHdr := (msgHdr r)\<lparr> msgType := BindResponseMsg, msgId := msgId (msgHdr req) \<rparr>,
         hasMappedAddress := True,
         mappedAddress := (mappedAddress r)\<lparr> ipv4 := mapped \<rparr>,
         hasSourceAddress := True,
         sourceAddress := (sourceAddress r)\<lparr> ipv4 :=
           \<lparr> port = (if asks_port req then port altAddr else port myAddr),
             addr = (if asks_ip req then addr altAddr else addr myAddr) \<rparr> \<rparr>,
         hasChangedAddress := True,
         changedAddress := (changedAddress r)\<lparr> ipv4 := altAddr \<rparr> \<rparr>)"

definition response_username :: "StunMessage \<Rightarrow> StunMessage \<Rightarrow> StunMessage outcome" where
  "response_username req r =
     (if hasUsername req \<and> sizeValue (username req) > 0
      then obind (mem_read 0 (unat (sizeValue (username req))) (strValue (username req))) (\<lambda>bs.
           obind (mem_write 0 bs (strValue (username r))) (\<lambda>v.
             Inr (r\<lparr> hasUsername := True, username := (username r)\<lparr> strValue := v \<rparr> \<rparr>)))
      else Inr r)"

definition response_password :: "hmac_fun \<Rightarrow> StunMessage \<Rightarrow> StunAtrString \<Rightarrow> StunAtrString outcome" where
  "response_password hmac req pw =
     (if hasMessageIntegrity req \<and> hasUsername req
      then stunCreatePassword hmac (username req) pw else Inr pw)"

definition response_reflected :: "u32 \<Rightarrow> StunMessage \<Rightarrow> StunMessage \<Rightarrow> StunMessage" where
  "response_reflected indet req r =
     (if hasUsername req \<and> sizeValue (username req) > 64
      then r\<lparr> hasReflectedFrom := True,
              reflectedFrom := (reflectedFrom r)\<lparr> ipv4 := \<lparr> port = 0,
                addr = (case scan_lx (strValue (username req)) of None \<Rightarrow> indet | Some a \<Rightarrow> a) \<rparr> \<rparr> \<rparr>
      else r)"

definition bind_response ::
    "hmac_fun \<Rightarrow> u32 \<Rightarrow> StunMessage \<Rightarrow> StunAddress4 \<Rightarrow> StunAddress4 \<Rightarrow> StunAddress4 \<Rightarrow>
     ServerReply \<Rightarrow> ServerReply outcome" where
  "bind_response hmac indet req src myAddr altAddr out =
     (let respondTo = ipv4 (responseAddress req);
          respondTo = (if port respondTo = 0 then src else respondTo) in
      obind (response_username req (response_addresses req src myAddr altAddr (resp out))) (\<lambda>r.
      obind (response_password hmac req (hmacPassword out)) (\<lambda>pw.
        Inr (out\<lparr> resp := response_reflected indet req r, hmacPassword := pw,
          changeIp := asks_ip req, changePort := asks_port req, destination := respondTo \<rparr>))))"

definition stunServerProcessMsg ::
    "hmac_fun \<Rightarrow> u64 \<Rightarrow> u32 \<Rightarrow> u32 \<Rightarrow> octet list \<Rightarrow> nat \<Rightarrow> StunAddress4 \<Rightarrow> StunAddress4 \<Rightarrow> StunAddress4 \<Rightarrow>
     StunAddress4 \<Rightarrow> StunAtrString \<Rightarrow> (bool \<times> ServerReply) outcome" where
  "stunServerProcessMsg hmac now rnd indet buf bufLen src myAddr altAddr dest pw =
     (let out = \<lparr> resp = zero_message, destination = dest, hmacPassword = pw,
                  changePort = False, changeIp = False \<rparr> in
      obind (stunParseMessage buf bufLen) (\<lambda>(ok, req).
      if \<not> ok then Inr (False, out)
      else if msgType (msgHdr req) = SharedSecretRequestMsg then
        obind (stunCreateSharedSecretResponse hmac now rnd req src (resp out)) (\<lambda>r.
          Inr (True, out\<lparr> resp := r \<rparr>))
      else if msgType (msgHdr req) = BindRequestMsg then
        obind (authenticate hmac buf bufLen req (resp out)) (\<lambda>auth.
          case auth of
            Inl r \<Rightarrow> Inr (True, out\<lparr> resp := r \<rparr>)
          | Inr r \<Rightarrow> obind (bind_response hmac indet req src myAddr altAddr (out\<lparr> resp := r \<rparr>)) (\<lambda>out.
              Inr (True, out)))
      else Inr (False, out)))"

section \<open>Sockets\<close>

type_synonym Socket = int

definition INVALID_SOCKET :: Socket where "INVALID_SOCKET = -1"

definition udpMaxMessageLength :: nat where "udpMaxMessageLength = 16 * 1024"

text \<open>The operating system as the server sees it: the descriptors that the coming calls of
  \<open>socket\<close> return, the descriptors that are open, and the address every bound one has.\<close>

record Os =
  nextFds :: "Socket list"
  openFds :: "Socket list"
  bound :: "(Socket \<times> StunAddress4) list"

definition os_socket :: "Os \<Rightarrow> Socket \<times> Os" where
  "os_socket os = (case nextFds os of [] \<Rightarrow> (INVALID_SOCKET, os)
     | fd # fds \<Rightarrow> (fd, os\<lparr> nextFds := fds, openFds := (if fd = INVALID_SOCKET then openFds os else fd # openFds os) \<rparr>))"

definition os_close :: "Socket \<Rightarrow> Os \<Rightarrow> Os" where
  "os_close fd os = os\<lparr> openFds := filter (\<lambda>f. f \<noteq> fd) (openFds os),
     bound := filter (\<lambda>(f, a). f \<noteq> fd) (bound os) \<rparr>"

text \<open>\<open>openPort\<close>; \<open>binds a\<close> says whether \<open>bind\<close> succeeds for the address \<open>a\<close>. A socket that
  cannot be bound stays open. The constant is that of the code.\<close>

definition openPort :: "(StunAddress4 \<Rightarrow> bool) \<Rightarrow> u16 \<Rightarrow> u32 \<Rightarrow> Os \<Rightarrow> Socket \<times> Os" where
  "openPort binds p interfaceIp os =
     (case os_socket os of (fd, os) \<Rightarrow>
        if fd = INVALID_SOCKET then (INVALID_SOCKET, os)
        else let a = \<lparr> port = p, addr = (if interfaceIp \<noteq> 0 \<and> interfaceIp \<noteq> 0x100007f then interfaceIp else 0) \<rparr> in
          if \<not> binds a then (INVALID_SOCKET, os)
          else (fd, os\<lparr> bound := (fd, a) # bound os \<rparr>))"

text \<open>
  \<open>getMessage\<close> on a buffer: the result of \<open>recvfrom\<close> is None on an error, or the octets of the
  datagram and its sender; \<open>recvfrom\<close> cuts the datagram at the size of the buffer. Returned are
  the verdict, the buffer, the length and the sender, which stays as it was on an error.
\<close>

definition getMessage ::
    "(octet list \<times> StunAddress4) option \<Rightarrow> Socket \<Rightarrow> octet list \<Rightarrow> StunAddress4 \<Rightarrow>
     (bool \<times> octet list \<times> int \<times> StunAddress4) outcome" where
  "getMessage received fd buf src =
     oassert (fd \<noteq> INVALID_SOCKET)
      (case received of
         None \<Rightarrow> Inr (False, buf, - 1, src)
       | Some (d, peer) \<Rightarrow>
           let d = take (length buf) d; n = length d; buf' = d @ drop n buf in
           if n = 0 then Inr (False, buf', 0, src)
           else if n + 1 \<ge> length buf then Inr (False, buf', int n, peer)
           else Inr (True, buf'[n := 0], int n, peer))"

text \<open>\<open>sendMessage\<close>: the datagram it hands to the operating system.\<close>

record Sent =
  sentOn :: Socket
  sentTo :: StunAddress4
  sentData :: "octet list"

definition sendMessage :: "Socket \<Rightarrow> octet list \<Rightarrow> StunAddress4 \<Rightarrow> Sent outcome" where
  "sendMessage fd buf dst =
     oassert (fd \<noteq> INVALID_SOCKET)
      (oassert (if port dst = 0 then addr dst = 0 else addr dst \<noteq> 0)
        (Inr \<lparr> sentOn = fd, sentTo = dst, sentData = buf \<rparr>))"

section \<open>The server\<close>

record StunServerInfo =
  myAddr :: StunAddress4
  altAddr :: StunAddress4
  myFd :: Socket
  altPortFd :: Socket
  altIpFd :: Socket
  altIpPortFd :: Socket

definition close_positive :: "Socket \<Rightarrow> Os \<Rightarrow> Os" where
  "close_positive fd os = (if fd > 0 then os_close fd os else os)"

definition stunStopServer :: "StunServerInfo \<Rightarrow> Os \<Rightarrow> Os" where
  "stunStopServer info os =
     close_positive (altIpPortFd info) (close_positive (altIpFd info)
       (close_positive (altPortFd info) (close_positive (myFd info) os)))"

definition stunInitServer ::
    "(StunAddress4 \<Rightarrow> bool) \<Rightarrow> StunAddress4 \<Rightarrow> StunAddress4 \<Rightarrow> Os \<Rightarrow> (bool \<times> StunServerInfo \<times> Os) outcome" where
  "stunInitServer binds my alt os =
     oassert (port my \<noteq> 0) (oassert (port alt \<noteq> 0) (oassert (addr my \<noteq> 0) (oassert (addr alt \<noteq> 0)
      (let info = \<lparr> myAddr = my, altAddr = alt, myFd = - 1, altPortFd = - 1, altIpFd = - 1, altIpPortFd = - 1 \<rparr>;
           (fd, os) = openPort binds (port my) (addr my) os;
           info = info\<lparr> myFd := fd \<rparr> in
       if fd = INVALID_SOCKET then Inr (False, info, stunStopServer info os)
       else let (fd, os) = openPort binds (port alt) (addr my) os; info = info\<lparr> altPortFd := fd \<rparr> in
       if fd = INVALID_SOCKET then Inr (False, info, stunStopServer info os)
       else let (fd, os) = openPort binds (port my) (addr alt) os; info = info\<lparr> altIpFd := fd \<rparr> in
       if fd = INVALID_SOCKET then Inr (False, info, stunStopServer info os)
       else let (fd, os) = openPort binds (port alt) (addr alt) os; info = info\<lparr> altIpPortFd := fd \<rparr> in
       if fd = INVALID_SOCKET then Inr (False, info, stunStopServer info os)
       else Inr (True, info, os)))))"

text \<open>
  What a round of the server meets: the result of \<open>select\<close>, the sockets that are ready, what
  \<open>recvfrom\<close> returns, the clock and the random number, and the uninitialised locals: the buffer
  \<open>msg\<close>, the addresses \<open>from\<close> and \<open>dest\<close>, the characters of \<open>hmacPassword\<close>, \<open>source\<close>.
\<close>

record Round =
  selected :: int
  ready :: "Socket \<Rightarrow> bool"
  received :: "(octet list \<times> StunAddress4) option"
  clock :: u64
  random :: u32
  junkMsg :: "octet list"
  junkFrom :: StunAddress4
  junkDest :: StunAddress4
  junkPassword :: "octet list"
  junkSource :: u32

definition wf_round :: "Round \<Rightarrow> bool" where
  "wf_round r \<longleftrightarrow> length (junkMsg r) = udpMaxMessageLength \<and> length (junkPassword r) = STUN_MAX_STRING"

text \<open>The socket the message is taken from and whether it has the alternate address.\<close>

definition received_on :: "StunServerInfo \<Rightarrow> Round \<Rightarrow> (Socket \<times> bool) option" where
  "received_on info r =
     (if ready r (myFd info) then Some (myFd info, False)
      else if ready r (altPortFd info) then Some (altPortFd info, False)
      else if ready r (altIpFd info) then Some (altIpFd info, True)
      else if ready r (altIpPortFd info) then Some (altIpPortFd info, True)
      else None)"

text \<open>The socket the response is sent on.\<close>

definition send_socket :: "StunServerInfo \<Rightarrow> bool \<Rightarrow> bool \<Rightarrow> bool \<Rightarrow> Socket" where
  "send_socket info recvAlt chIp chPort =
     (let sendAlt = False;
          sendAlt = (if recvAlt then \<not> sendAlt else sendAlt);
          sendAlt = (if chIp then \<not> sendAlt else sendAlt) in
      if \<not> chPort then (if \<not> sendAlt then myFd info else altIpFd info)
      else (if \<not> sendAlt then altPortFd info else altIpPortFd info))"

text \<open>The part of a round after a datagram has been received.\<close>

definition stunServerAnswer ::
    "hmac_fun \<Rightarrow> StunServerInfo \<Rightarrow> Round \<Rightarrow> bool \<Rightarrow> octet list \<Rightarrow> nat \<Rightarrow> StunAddress4 \<Rightarrow> Sent option outcome" where
  "stunServerAnswer hmac info r recvAlt msg msgLen src =
     obind (stunServerProcessMsg hmac (clock r) (random r) (junkSource r) msg msgLen src
       (if recvAlt then altAddr info else myAddr info) (if recvAlt then myAddr info else altAddr info)
       (junkDest r) \<lparr> strValue = junkPassword r, sizeValue = 0 \<rparr>) (\<lambda>(ok, out).
     if \<not> ok then Inr None
     else obind (stunEncodeMessage hmac (resp out) STUN_MAX_MESSAGE_SIZE (hmacPassword out)) (\<lambda>buf.
       let dest = destination out in
       if addr dest = 0 \<or> port dest = 0 then Inr None
       else obind (sendMessage (send_socket info recvAlt (changeIp out) (changePort out)) buf dest) (\<lambda>s.
         Inr (Some s))))"

text \<open>One call of \<open>stunServerProcess\<close>, which always returns true: the datagram it sends, if any.\<close>

definition stunServerProcess :: "hmac_fun \<Rightarrow> StunServerInfo \<Rightarrow> Round \<Rightarrow> Sent option outcome" where
  "stunServerProcess hmac info r =
     (if selected r < 0 then Inr None
      else case received_on info r of
        None \<Rightarrow> Inr None
      | Some (fd, recvAlt) \<Rightarrow>
          obind (getMessage (received r) fd (junkMsg r) (junkFrom r)) (\<lambda>(ok, msg, msgLen, src).
          if \<not> ok \<or> msgLen \<le> 0 then Inr None
          else stunServerAnswer hmac info r recvAlt msg (nat msgLen) src))"

end
