(* ===== verification/Stun_Safety.thy ===== *)
theory Stun_Safety
  imports Stun_Message
begin

text \<open>
  Memory safety of \<open>stunParseMessage\<close>: which datagrams the parser handles inside its arrays,
  which ones make it write past the reason phrase of an ERROR-CODE attribute, and that its
  answer depends on the octets of the datagram only, although it reads the header of an
  attribute before it knows that four octets are left.
\<close>

section \<open>Attributes\<close>

text \<open>The arrays inside the structures have their declared sizes.\<close>

definition wf_message :: "StunMessage \<Rightarrow> bool" where
  "wf_message m \<longleftrightarrow> length (strValue (username m)) = STUN_MAX_STRING \<and>
     length (strValue (password m)) = STUN_MAX_STRING \<and>
     length (hash (messageIntegrity m)) = sizeof_hash \<and>
     length (reason (errorCode m)) = STUN_MAX_STRING \<and>
     length (attrType (unknownAttributes m)) = STUN_MAX_UNKNOWN_ATTRIBUTES \<and>
     length (msgId (msgHdr m)) = 16"

lemma wf_zero_message: "wf_message zero_message"
  by (simp add: wf_message_def zero_atr_string_def zero_atr_integrity_def zero_atr_error_def
      zero_atr_unknown_def)

text \<open>The lengths of an ERROR-CODE attribute for which \<open>stunParseAtrError\<close> stays inside its
  array: its bound is the size of the structure, not the size of the array plus the header.\<close>

definition error_length_ok :: "nat \<Rightarrow> bool" where
  "error_length_ok n \<longleftrightarrow> 4 \<le> n \<and> n < 260 \<or> 262 \<le> n"

lemma reason_size:
  assumes "4 \<le> n" "n < 260"
  shows "unat ((word_of_nat n :: u16) - 4) = n - 4"
proof -
  obtain k where k: "n = k + 4" using assms(1) le_Suc_ex [of 4 n] by (auto simp: add.commute)
  then have "(word_of_nat n :: u16) - 4 = word_of_nat k" by simp
  with k assms(2) show ?thesis by (simp add: unsigned_of_nat take_bit_nat_eq_self)
qed

lemma parse_error_overflow:
  assumes "length (reason r) = STUN_MAX_STRING" "\<not> error_length_ok n"
  shows "stunParseAtrError body n r = Inl OutOfBounds"
proof -
  let ?sz = "(word_of_nat n :: u16) - 4"
  have n: "n < 4 \<or> n = 260 \<or> n = 261" using assms(2) by (auto simp: error_length_ok_def)
  then have "n < 262" by auto
  have sz: "256 \<le> unat ?sz"
  proof -
    consider "n = 0" | "n = 1" | "n = 2" | "n = 3" | "n = 260" | "n = 261" using n by linarith
    then show ?thesis by cases (simp_all add: unsigned_minus_1_eq_mask mask_eq_exp_minus_1)
  qed
  show ?thesis
    using assms(1) sz \<open>n < 262\<close>
    by (auto simp: stunParseAtrError_def sizeof_StunAtrError_def STUN_MAX_STRING_def mem_read_def
        mem_write_def Let_def)
qed

lemma parse_error_ok:
  assumes "length (reason r) = STUN_MAX_STRING" "error_length_ok n" "n \<le> length body"
  shows "\<exists>ok r'. stunParseAtrError body n r = Inr (ok, r') \<and> length (reason r') = STUN_MAX_STRING"
proof (cases "n < 262")
  case True
  with assms(2) have n: "4 \<le> n" "n < 260" by (auto simp: error_length_ok_def)
  show ?thesis
    using assms n reason_size [OF n] by (auto simp: stunParseAtrError_def sizeof_StunAtrError_def STUN_MAX_STRING_def
        mem_read_def mem_write_def Let_def)
next
  case False
  with assms show ?thesis by (auto simp: stunParseAtrError_def sizeof_StunAtrError_def STUN_MAX_STRING_def)
qed

lemma parse_error_local:
  assumes "length (reason r) = STUN_MAX_STRING" "n \<le> length bs"
  shows "stunParseAtrError (bs @ x) n r = stunParseAtrError (bs @ y) n r"
proof (cases "error_length_ok n \<and> n < 262")
  case True
  then have n: "4 \<le> n" "n < 260" by (auto simp: error_length_ok_def)
  with assms reason_size [OF n] show ?thesis by (simp add: stunParseAtrError_def mem_read_def Let_def)
next
  case False
  then show ?thesis
    using parse_error_overflow [OF assms(1)]
    by (cases "n < 262") (simp_all add: error_length_ok_def stunParseAtrError_def
        sizeof_StunAtrError_def STUN_MAX_STRING_def)
qed

lemma parse_unknown_loop_ok:
  assumes "2 * n \<le> length body" "i + n \<le> length types"
  shows "\<exists>ts. stunParseUnknownLoop n i body types = Inr ts \<and> length ts = length types"
  using assms
proof (induction n arbitrary: i body types)
  case (Suc n)
  let ?ts = "take i types @ [get16 (body ! 0) (body ! 1)] @ drop (i + 1) types"
  have ts: "length ?ts = length types" using Suc.prems by simp
  obtain us where us: "stunParseUnknownLoop n (Suc i) (drop 2 body) ?ts = Inr us" "length us = length ?ts"
    using Suc.IH [of "drop 2 body" "Suc i" ?ts] Suc.prems ts by fastforce
  have "take 2 body ! 0 = body ! 0" "take 2 body ! 1 = body ! 1" by simp_all
  with Suc.prems us ts show ?case by (simp add: mem_read_def mem_write_def)
qed simp

lemma parse_unknown_loop_local:
  "2 * n \<le> length bs \<Longrightarrow>
     stunParseUnknownLoop n i (bs @ x) types = stunParseUnknownLoop n i (bs @ y) types"
proof (induction n arbitrary: i bs types)
  case (Suc n)
  then have "stunParseUnknownLoop n (i + 1) (drop 2 bs @ x) = stunParseUnknownLoop n (i + 1) (drop 2 bs @ y)"
    by (intro ext Suc.IH) simp
  with Suc.prems show ?case by (simp add: mem_read_def)
qed simp

text \<open>A parser returned, with a structure whose arrays have their sizes.\<close>

definition stays :: "(bool \<times> StunMessage) outcome \<Rightarrow> bool" where
  "stays r \<longleftrightarrow> (\<exists>ok m. r = Inr (ok, m) \<and> wf_message m)"

lemma stays_if: "(c \<Longrightarrow> stays a) \<Longrightarrow> (\<not> c \<Longrightarrow> stays b) \<Longrightarrow> stays (if c then a else b)"
  by simp

text \<open>The contract of an attribute parser with respect to memory: on attributes of an
  acceptable length it stays inside its arrays and keeps their sizes, and whatever the length,
  the octets after the attribute do not matter.\<close>

locale attribute_reader =
  fixes parse :: "octet list \<Rightarrow> nat \<Rightarrow> 'a \<Rightarrow> (bool \<times> 'a) outcome"
    and wf :: "'a \<Rightarrow> bool" and okl :: "nat \<Rightarrow> bool"
  assumes returns: "wf r \<Longrightarrow> n \<le> length body \<Longrightarrow> okl n \<Longrightarrow>
      \<exists>ok r'. parse body n r = Inr (ok, r') \<and> wf r'"
    and local: "wf r \<Longrightarrow> n \<le> length bs \<Longrightarrow> parse (bs @ x) n r = parse (bs @ y) n r"
begin

lemma store_stays:
  assumes "wf r" "n \<le> length body" "okl n" "\<And>a. wf a \<Longrightarrow> wf_message (put a)"
  shows "stays (store_atr (parse body n r) put)"
  using returns [OF assms(1-3)] assms(4) by (auto simp: store_atr_def stays_def)

lemma store_local:
  "wf r \<Longrightarrow> n \<le> length bs \<Longrightarrow> store_atr (parse (bs @ x) n r) put = store_atr (parse (bs @ y) n r) put"
  using local [of r n bs x y] by simp

end

interpretation address_reader: attribute_reader stunParseAtrAddress "\<lambda>_. True" "\<lambda>_. True"
  by unfold_locales (auto simp: stunParseAtrAddress_def mem_read_def Let_def)

interpretation change_reader: attribute_reader stunParseAtrChangeRequest "\<lambda>_. True" "\<lambda>_. True"
  by unfold_locales (auto simp: stunParseAtrChangeRequest_def mem_read_def)

interpretation string_reader: attribute_reader stunParseAtrString
  "\<lambda>s. length (strValue s) = STUN_MAX_STRING" "\<lambda>_. True"
  by unfold_locales (auto simp: stunParseAtrString_def mem_read_def mem_write_def)

interpretation integrity_reader: attribute_reader stunParseAtrIntegrity
  "\<lambda>h. length (hash h) = sizeof_hash" "\<lambda>_. True"
  by unfold_locales (auto simp: stunParseAtrIntegrity_def mem_read_def mem_write_def sizeof_hash_def)

interpretation error_reader: attribute_reader stunParseAtrError
  "\<lambda>r. length (reason r) = STUN_MAX_STRING" error_length_ok
  using parse_error_ok parse_error_local by unfold_locales blast+

lemma parse_unknown_ok:
  assumes "length (attrType r) = STUN_MAX_UNKNOWN_ATTRIBUTES" "n \<le> length body"
  shows "\<exists>ok r'. stunParseAtrUnknown body n r = Inr (ok, r') \<and>
    length (attrType r') = STUN_MAX_UNKNOWN_ATTRIBUTES"
proof (cases "n < sizeof_StunAtrUnknown \<and> n mod 4 = 0")
  case True
  then have "2 * (n div 4) \<le> length body" "0 + n div 4 \<le> length (attrType r)"
    using assms by (auto simp: sizeof_StunAtrUnknown_def STUN_MAX_UNKNOWN_ATTRIBUTES_def)
  from parse_unknown_loop_ok [OF this] show ?thesis
    using True assms(1) by (auto simp: stunParseAtrUnknown_def)
next
  case False
  with assms(1) show ?thesis by (auto simp: stunParseAtrUnknown_def)
qed

interpretation unknown_reader: attribute_reader stunParseAtrUnknown
  "\<lambda>r. length (attrType r) = STUN_MAX_UNKNOWN_ATTRIBUTES" "\<lambda>_. True"
proof unfold_locales
  fix r :: StunAtrUnknown and n and bs x y :: "octet list"
  assume "n \<le> length bs"
  then have "2 * (n div 4) \<le> length bs" by simp
  then show "stunParseAtrUnknown (bs @ x) n r = stunParseAtrUnknown (bs @ y) n r"
    by (simp add: stunParseAtrUnknown_def parse_unknown_loop_local [of "n div 4" bs _ x _ y])
qed (use parse_unknown_ok in blast)

lemmas store_stays = address_reader.store_stays change_reader.store_stays
  string_reader.store_stays integrity_reader.store_stays error_reader.store_stays
  unknown_reader.store_stays

lemmas store_local = address_reader.store_local change_reader.store_local
  string_reader.store_local integrity_reader.store_local error_reader.store_local
  unknown_reader.store_local

lemma stunParseAttribute_ok:
  assumes "wf_message m" "n \<le> length body" "ty = ErrorCode \<longrightarrow> error_length_ok n"
  shows "stays (stunParseAttribute ty body n m)"
  unfolding stunParseAttribute_def
  by (intro stays_if store_stays) (use assms in \<open>simp_all add: wf_message_def stays_def\<close>)

lemma stunParseAttribute_local:
  assumes "wf_message m" "n \<le> length bs"
  shows "stunParseAttribute ty (bs @ x) n m = stunParseAttribute ty (bs @ y) n m"
  unfolding stunParseAttribute_def
  by (intro if_cong store_local refl) (use assms in \<open>simp_all add: wf_message_def\<close>)


lemma stunParseAttribute_bad_error:
  assumes "wf_message m" "\<not> error_length_ok n"
  shows "stunParseAttribute ErrorCode body n m = Inl OutOfBounds"
  using parse_error_overflow [of "errorCode m" n body] assms
  by (simp add: stunParseAttribute_def atr_types store_atr_def wf_message_def)

lemma stunParseAttribute_wf:
  assumes "wf_message m" "n \<le> length body" "stunParseAttribute ty body n m = Inr (ok, m')"
  shows "wf_message m'"
proof (cases "ty = ErrorCode \<longrightarrow> error_length_ok n")
  case True
  from stunParseAttribute_ok [OF assms(1,2) True] assms(3) show ?thesis by (simp add: stays_def)
next
  case False
  with stunParseAttribute_bad_error [OF assms(1)] assms(3) show ?thesis by auto
qed

section \<open>Messages\<close>




lemma stunParseAttributes_step:
  assumes "0 < sz" "4 \<le> length body"
  shows "stunParseAttributes body sz m =
    (let len = unat (get16 (body ! 2) (body ! 3)) in
     if len + 4 > sz then Inr (False, m)
     else obind (stunParseAttribute (get16 (body ! 0) (body ! 1)) (drop 4 body) len m) (\<lambda>(ok, m).
       if ok then stunParseAttributes (drop (4 + len) body) (sz - 4 - len) m else Inr (False, m)))"
  using assms by (subst stunParseAttributes.simps) (simp add: mem_read_def Let_def cong: if_cong)


lemma attributes_wf:
  "wf_message m \<Longrightarrow> sz + 3 \<le> length body \<Longrightarrow> stunParseAttributes body sz m = Inr (ok, m') \<Longrightarrow> wf_message m'"
proof (induction sz arbitrary: body m rule: less_induct)
  case (less sz)
  let ?ty = "get16 (body ! 0) (body ! 1)" and ?len = "unat (get16 (body ! 2) (body ! 3))"
  show ?case
  proof (cases "0 < sz \<and> ?len + 4 \<le> sz")
    case False
    then show ?thesis
      using less.prems stunParseAttributes_step [of sz body m]
      by (cases "sz = 0") (auto simp: stunParseAttributes.simps [of _ 0] Let_def)
  next
    case True
    have len: "?len \<le> length (drop 4 body)" using True less.prems(2) by auto
    obtain ok' m1 where m1: "stunParseAttribute ?ty (drop 4 body) ?len m = Inr (ok', m1)"
      "(if ok' then stunParseAttributes (drop (4 + ?len) body) (sz - 4 - ?len) m1 else Inr (False, m1)) = Inr (ok, m')"
      using less.prems stunParseAttributes_step [of sz body m] True by (auto simp: Let_def obind_eq_Inr)
    have "wf_message m1" by (rule stunParseAttribute_wf [OF less.prems(1) len m1(1)])
    then show ?thesis
      using m1(2) less.IH [of "sz - 4 - ?len" m1 "drop (4 + ?len) body"] True less.prems(2)
      by (cases ok') auto
  qed
qed

lemma attributes_local:
  "wf_message m \<Longrightarrow> 3 \<le> length x \<Longrightarrow> 3 \<le> length y \<Longrightarrow>
     stunParseAttributes (bs @ x) (length bs) m = stunParseAttributes (bs @ y) (length bs) m"
proof (induction "length bs" arbitrary: bs m rule: less_induct)
  case less
  let ?len = "unat (get16 (bs ! 2) (bs ! 3))"
  consider "length bs = 0" | "0 < length bs" "length bs < 4" | "4 \<le> length bs" by linarith
  then show ?case
  proof cases
    case 1
    then show ?thesis by (simp add: stunParseAttributes.simps [of _ 0])
  next
    case 2
    then have "4 \<le> length (bs @ x)" "4 \<le> length (bs @ y)"
      using less.prems(2,3) by (simp_all only: length_append)
    with 2 show ?thesis
      using stunParseAttributes_step [of "length bs" "bs @ x" m]
        stunParseAttributes_step [of "length bs" "bs @ y" m] by (simp add: Let_def)
  next
    case 3
    let ?ty = "get16 (bs ! 0) (bs ! 1)"
    have ne: "bs \<noteq> []" using 3 by auto
    show ?thesis
    proof (cases "?len + 4 \<le> length bs")
      case True
      let ?r = "stunParseAttribute ?ty (drop 4 bs @ x) ?len m"
      have len: "?len \<le> length (drop 4 bs)" using True by simp
      have eq: "stunParseAttribute ?ty (drop 4 bs @ y) ?len m = ?r"
        by (rule stunParseAttribute_local [OF less.prems(1) len])
      have "stunParseAttributes (drop (4 + ?len) bs @ x) (length bs - 4 - ?len) m' =
          stunParseAttributes (drop (4 + ?len) bs @ y) (length bs - 4 - ?len) m'" if "wf_message m'" for m'
        using less.hyps [of "drop (4 + ?len) bs" m'] less.prems(2,3) that 3 by simp
      moreover have "wf_message m'" if "?r = Inr (ok, m')" for ok m'
        using stunParseAttribute_wf [OF less.prems(1) _ that] len by simp
      ultimately show ?thesis
        using 3 ne True stunParseAttributes_step [of "length bs" "bs @ x" m]
          stunParseAttributes_step [of "length bs" "bs @ y" m] eq
        by (cases ?r) (auto simp: nth_append Let_def)
    next
      case False
      then show ?thesis
        using 3 ne stunParseAttributes_step [of "length bs" "bs @ x" m]
          stunParseAttributes_step [of "length bs" "bs @ y" m] by (auto simp: nth_append Let_def)
    qed
  qed
qed

lemma stunParseMessage_wf:
  assumes "bufLen + 3 \<le> length buf" "stunParseMessage buf bufLen = Inr (ok, m)"
  shows "wf_message m"
proof (cases "bufLen < 20")
  case True
  with assms(2) wf_zero_message show ?thesis by (simp add: stunParseMessage_def sizeof_StunMsgHdr_def)
next
  case False
  then have hdr: "wf_message (zero_message\<lparr> msgHdr := \<lparr> msgType = t, msgLength = l, msgId = drop 4 (take 20 buf) \<rparr> \<rparr>)" for t l
    using assms(1) wf_zero_message by (simp add: wf_message_def)
  show ?thesis
    using False assms hdr
    by (auto simp: stunParseMessage_def sizeof_StunMsgHdr_def mem_read_def Let_def
        split: if_splits elim!: attributes_wf [OF hdr, rotated])
qed


text \<open>the answer of \<open>stunParseMessage\<close>, an abort included, is a function of the octets of the
  datagram: what an earlier datagram left behind them in the receive buffer is read but has no
  influence.\<close>

theorem stunParseMessage_reads_datagram:
  assumes "3 \<le> length x" "3 \<le> length y"
  shows "stunParseMessage (d @ x) (length d) = stunParseMessage (d @ y) (length d)"
proof (cases "length d < 20")
  case True
  then show ?thesis by (simp add: stunParseMessage_def sizeof_StunMsgHdr_def)
next
  case False
  then have "wf_message (zero_message\<lparr> msgHdr := \<lparr> msgType = t, msgLength = l, msgId = drop 4 (take 20 d) \<rparr> \<rparr>)" for t l
    using wf_zero_message by (simp add: wf_message_def)
  from attributes_local [OF this assms, of "drop 20 d"]
  have "stunParseAttributes (drop 20 d @ x) n (zero_message\<lparr> msgHdr :=
      \<lparr> msgType = t, msgLength = l, msgId = drop 4 (take 20 d) \<rparr> \<rparr>) =
    stunParseAttributes (drop 20 d @ y) n (zero_message\<lparr> msgHdr :=
      \<lparr> msgType = t, msgLength = l, msgId = drop 4 (take 20 d) \<rparr> \<rparr>)" if "n + 20 = length d" for n t l
    using that [symmetric] by simp
  with False show ?thesis
    by (simp add: stunParseMessage_def sizeof_StunMsgHdr_def mem_read_def Let_def)
qed

text \<open>C34: a datagram of a few octets makes \<open>stunParseMessage\<close> write past the end of the array
  \<open>reason\<close> of 256 characters: a well-formed header followed by an ERROR-CODE attribute of less
  than four octets, or of 260 or 261 octets, ends in an access outside an array, whatever octets
  follow the datagram in memory and however many, so also when everything that is read exists and
  only the write to \<open>reason\<close> is left to fail. A length below four wraps around, in the 16 bits of
  \<open>sizeReason\<close>, to a copy of more than 65000 octets, far past the structure (and, from a shorter
  array, past the received octets). With 260 or 261 octets the check lets the attribute through
  because it compares with the size of the structure, 262: one or two octets fall behind the array,
  on the field \<open>sizeReason\<close> of the same structure.\<close>

theorem error_attribute_overflows:
  assumes "\<not> error_length_ok n" "length reasonOctets = n" "length mid = 16"
  shows "stunParseMessage
    (encode16 ty @ encode16 (word_of_nat (4 + n)) @ mid @
     encode16 ErrorCode @ encode16 (word_of_nat n) @ reasonOctets @ spare) (24 + n) = Inl OutOfBounds"
proof -
  let ?m = "zero_message\<lparr> msgHdr := \<lparr> msgType = ty, msgLength = word_of_nat (4 + n), msgId = mid \<rparr> \<rparr>"
  let ?body = "encode16 ErrorCode @ encode16 (word_of_nat n) @ reasonOctets @ spare"
  have "n < 2 ^ 16 - 4" using assms(1) by (auto simp: error_length_ok_def)
  then have w: "unat (word_of_nat n :: u16) = n" "unat (word_of_nat (4 + n) :: u16) = 4 + n"
    by (intro unat_u16_of_nat; simp)+
  have "wf_message ?m" using wf_zero_message assms(3) by (simp add: wf_message_def)
  from stunParseAttribute_bad_error [OF this assms(1)]
  have "stunParseAttributes ?body (4 + n) ?m = Inl OutOfBounds"
    by (subst stunParseAttributes_step) (simp_all add: encode16_def be16_def nth_Cons' w(1))
  then show ?thesis
    using assms(3) w(2)
    by (simp add: stunParseMessage_def sizeof_StunMsgHdr_def mem_read_def encode16_def be16_def
        take_Cons' drop_Cons' nth_Cons')
qed


section \<open>Witnesses\<close>

text \<open>A Binding Request that asks for a change of address and port, and the array it is in.\<close>

definition example_datagram :: "octet list" where
  "example_datagram = encode16 BindRequestMsg @ encode16 8 @ replicate 16 7 @
     encode16 ChangeRequest @ encode16 4 @ encode32 6"


theorem stunParseMessage_reads_datagram_witness:
  "stunParseMessage (example_datagram @ [0, 0, 0]) (length example_datagram) =
   stunParseMessage (example_datagram @ [1, 2, 3, 4]) (length example_datagram)"
  by (rule stunParseMessage_reads_datagram) simp_all

theorem error_attribute_overflows_witness:
  "stunParseMessage
    (encode16 BindRequestMsg @ encode16 4 @ replicate 16 7 @ encode16 ErrorCode @ encode16 0 @ [0, 0, 0]) 24
   = Inl OutOfBounds"
  using error_attribute_overflows [of 0 "[]" "replicate 16 7" BindRequestMsg "[0, 0, 0]"]
  by (simp add: error_length_ok_def)

end
