(* ===== verification/Stun_Service.thy ===== *)
theory Stun_Service
  imports Stun_Server Stun_Safety
begin

text \<open>
  What the STUN server does for its clients: the answer to a Binding Request and the socket it
  leaves by, the sockets after \<open>stunInitServer\<close>, and the requests that the server cannot answer
  (a shared secret request stops it, its error responses are not accepted by the parser, the
  value of a MESSAGE-INTEGRITY attribute is never looked at).
\<close>

section \<open>The address family on the wire\<close>

text \<open>The encoder writes the IPv4 family whatever the structure says, so the responses of the
  server, whose structures say zero, are canonical on the wire.\<close>

definition with_family :: "StunMessage \<Rightarrow> StunMessage" where
  "with_family m = m\<lparr>
     mappedAddress := (if hasMappedAddress m then (mappedAddress m)\<lparr> family := IPv4Family \<rparr> else mappedAddress m),
     sourceAddress := (if hasSourceAddress m then (sourceAddress m)\<lparr> family := IPv4Family \<rparr> else sourceAddress m),
     changedAddress := (if hasChangedAddress m then (changedAddress m)\<lparr> family := IPv4Family \<rparr> else changedAddress m) \<rparr>"

lemma encode_with_family:
  "stunEncodeMessage hmac (with_family m) n pw = stunEncodeMessage hmac m n pw"
  by (simp add: stunEncodeMessage_def encode_attributes_def encodeAtrAddress4_def with_family_def put_atr_def)

section \<open>The answer to a Binding Request\<close>

lemma encoded_request:
  assumes "canonical_message req" "stunEncodeMessage hmac req STUN_MAX_MESSAGE_SIZE zero_atr_string = Inr d"
  shows "0 < length d \<and> length d \<le> 630 \<and> (\<forall>rest. stunParseMessage (d @ rest) (length d) = Inr (True, req\<lparr>
    msgHdr := (msgHdr req)\<lparr> msgLength := word_of_nat (length d - sizeof_StunMsgHdr) \<rparr>,
    hasMessageIntegrity := False, messageIntegrity := zero_atr_integrity \<rparr>))"
proof -
  have "signs hmac zero_atr_string" "630 \<le> STUN_MAX_MESSAGE_SIZE"
    by (simp_all add: signs_def zero_atr_string_def STUN_MAX_MESSAGE_SIZE_def)
  from stunEncode_parse [OF assms(1) this] assms(2)
  have *: "length d \<le> 630" "stunParseMessage (d @ rest) (length d) = Inr (True, req\<lparr>
    msgHdr := (msgHdr req)\<lparr> msgLength := word_of_nat (length d - sizeof_StunMsgHdr) \<rparr>,
    hasMessageIntegrity := False, messageIntegrity := zero_atr_integrity \<rparr>)" for rest
    by (simp_all add: signature_def zero_atr_string_def)
  have "d \<noteq> []" using *(2) by (auto simp: stunParseMessage_def sizeof_StunMsgHdr_def)
  with * show ?thesis by simp
qed

text \<open>A round in which the server receives, from \<open>src\<close>, the Binding Request \<open>req\<close> as the encoder
  writes it, on a socket of its primary or alternate address; the request has no user name and
  no addresses of its own.\<close>

definition delivers :: "hmac_fun \<Rightarrow> StunServerInfo \<Rightarrow> Round \<Rightarrow> bool \<Rightarrow> StunMessage \<Rightarrow> StunAddress4 \<Rightarrow> bool" where
  "delivers hmac info r recvAlt req src \<longleftrightarrow> wf_round r \<and> 0 \<le> selected r \<and>
     (\<exists>fd. received_on info r = Some (fd, recvAlt)) \<and>
     (\<exists>d. stunEncodeMessage hmac req STUN_MAX_MESSAGE_SIZE zero_atr_string = Inr d \<and> received r = Some (d, src)) \<and>
     canonical_message req \<and> msgType (msgHdr req) = BindRequestMsg \<and>
     \<not> hasMappedAddress req \<and> \<not> hasResponseAddress req \<and> \<not> hasUsername req \<and>
     addr src \<noteq> 0 \<and> port src \<noteq> 0 \<and>
     INVALID_SOCKET \<notin> {myFd info, altPortFd info, altIpFd info, altIpPortFd info}"

text \<open>The response as the client parses it.\<close>

definition expected_response :: "StunServerInfo \<Rightarrow> bool \<Rightarrow> StunMessage \<Rightarrow> StunAddress4 \<Rightarrow> StunMessage" where
  "expected_response info recvAlt req src =
     (let my = (if recvAlt then altAddr info else myAddr info);
          alt = (if recvAlt then myAddr info else altAddr info) in
      zero_message\<lparr>
       msgHdr := \<lparr> msgType = BindResponseMsg, msgLength = 36, msgId = msgId (msgHdr req) \<rparr>,
       hasMappedAddress := True,
       mappedAddress := \<lparr> pad = 0, family = IPv4Family, ipv4 = src \<rparr>,
       hasSourceAddress := True,
       sourceAddress := \<lparr> pad = 0, family = IPv4Family, ipv4 =
         \<lparr> port = (if asks_port req then port alt else port my),
           addr = (if asks_ip req then addr alt else addr my) \<rparr> \<rparr>,
       hasChangedAddress := True,
       changedAddress := \<lparr> pad = 0, family = IPv4Family, ipv4 = alt \<rparr> \<rparr>)"

lemma getMessage_ok:
  assumes "fd \<noteq> INVALID_SOCKET" "0 < length d" "length d + 1 < length buf"
  shows "\<exists>rest. getMessage (Some (d, src)) fd buf src0 = Inr (True, d @ rest, int (length d), src)"
proof -
  have "(d @ drop (length d) buf)[length d := 0] = d @ (drop (length d) buf)[0 := 0]"
    using list_update_append [of d "drop (length d) buf" "length d" 0] by simp
  with assms show ?thesis by (auto simp: getMessage_def Let_def)
qed

lemma process_bind_request:
  assumes parse: "stunParseMessage buf n = Inr (True, req')"
    and req': "msgType (msgHdr req') = BindRequestMsg" "\<not> hasMessageIntegrity req'" "\<not> hasUsername req'"
    "port (ipv4 (mappedAddress req')) = 0" "port (ipv4 (responseAddress req')) = 0"
  shows "\<exists>out. stunServerProcessMsg hmac now rnd indet buf n src my alt dest pw = Inr (True, out) \<and>
    destination out = src \<and> hmacPassword out = pw \<and>
    changeIp out = asks_ip req' \<and> changePort out = asks_port req' \<and>
    with_family (resp out) = zero_message\<lparr>
       msgHdr := \<lparr> msgType = BindResponseMsg, msgLength = 0, msgId = msgId (msgHdr req') \<rparr>,
       hasMappedAddress := True,
       mappedAddress := \<lparr> pad = 0, family = IPv4Family, ipv4 = src \<rparr>,
       hasSourceAddress := True,
       sourceAddress := \<lparr> pad = 0, family = IPv4Family, ipv4 =
         \<lparr> port = (if asks_port req' then port alt else port my),
           addr = (if asks_ip req' then addr alt else addr my) \<rparr> \<rparr>,
       hasChangedAddress := True,
       changedAddress := \<lparr> pad = 0, family = IPv4Family, ipv4 = alt \<rparr> \<rparr>"
  using req'
  by (simp add: stunServerProcessMsg_def parse authenticate_def bind_response_def msg_types Let_def
      response_addresses_def response_username_def response_password_def response_reflected_def
      with_family_def zero_atr_address_def)


lemma response_length:
  assumes "stunEncodeMessage hmac (zero_message\<lparr> msgHdr := \<lparr> msgType = t, msgLength = 0, msgId = i \<rparr>,
      hasMappedAddress := True, mappedAddress := a, hasSourceAddress := True, sourceAddress := b,
      hasChangedAddress := True, changedAddress := c \<rparr>) n \<lparr> strValue = v, sizeValue = 0 \<rparr> = Inr d"
    "length i = 16"
  shows "length d = 56"
  using assms
  by (auto simp: stunEncodeMessage_def encode_attributes_def put_atr_def encode_def mem_read_def
      encodeAtrAddress4_def encode_signature_def encode32_def outcome_simps
      dest!: mem_write_length split: if_splits)

lemma response_wire:
  assumes "length i = 16" "canonical_address a" "canonical_address b" "canonical_address c"
  shows "\<exists>e. stunEncodeMessage hmac (zero_message\<lparr> msgHdr := \<lparr> msgType = t, msgLength = 0, msgId = i \<rparr>,
      hasMappedAddress := True, mappedAddress := a, hasSourceAddress := True, sourceAddress := b,
      hasChangedAddress := True, changedAddress := c \<rparr>) STUN_MAX_MESSAGE_SIZE \<lparr> strValue = v, sizeValue = 0 \<rparr> = Inr e \<and>
    length e = 56 \<and> (\<forall>rest. stunParseMessage (e @ rest) (length e) = Inr (True,
      zero_message\<lparr> msgHdr := \<lparr> msgType = t, msgLength = 36, msgId = i \<rparr>,
        hasMappedAddress := True, mappedAddress := a, hasSourceAddress := True, sourceAddress := b,
        hasChangedAddress := True, changedAddress := c \<rparr>))"
proof -
  let ?m = "zero_message\<lparr> msgHdr := \<lparr> msgType = t, msgLength = 0, msgId = i \<rparr>,
      hasMappedAddress := True, mappedAddress := a, hasSourceAddress := True, sourceAddress := b,
      hasChangedAddress := True, changedAddress := c \<rparr>"
  have "canonical_message ?m" using assms by (simp add: canonical_message_def atr_ok_def)
  moreover have "signs hmac \<lparr> strValue = v, sizeValue = 0 \<rparr>" "630 \<le> STUN_MAX_MESSAGE_SIZE"
    by (simp_all add: signs_def STUN_MAX_MESSAGE_SIZE_def)
  ultimately obtain e where e: "stunEncodeMessage hmac ?m STUN_MAX_MESSAGE_SIZE \<lparr> strValue = v, sizeValue = 0 \<rparr> = Inr e"
    "\<forall>rest. stunParseMessage (e @ rest) (length e) = Inr (True, ?m\<lparr>
       msgHdr := (msgHdr ?m)\<lparr> msgLength := word_of_nat (length e - sizeof_StunMsgHdr) \<rparr>,
       hasMessageIntegrity := False, messageIntegrity := zero_atr_integrity \<rparr>)"
    using stunEncode_parse [of ?m hmac "\<lparr> strValue = v, sizeValue = 0 \<rparr>" STUN_MAX_MESSAGE_SIZE]
    by (auto simp: signature_def)
  moreover have "length e = 56" using response_length [OF e(1) assms(1)] .
  ultimately show ?thesis by (simp add: sizeof_StunMsgHdr_def zero_message_def)
qed

lemma bind_request_reply:
  assumes "delivers hmac info r recvAlt req src"
  shows "\<exists>s. stunServerProcess hmac info r = Inr (Some s) \<and> sentTo s = src \<and>
    sentOn s = send_socket info recvAlt (asks_ip req) (asks_port req) \<and>
    length (sentData s) = 56 \<and> (\<forall>rest. stunParseMessage (sentData s @ rest) (length (sentData s)) =
       Inr (True, expected_response info recvAlt req src))"
proof -
  let ?my = "if recvAlt then altAddr info else myAddr info"
  let ?alt = "if recvAlt then myAddr info else altAddr info"
  let ?pw = "\<lparr> strValue = junkPassword r, sizeValue = 0 \<rparr>"
  obtain fd d where on: "received_on info r = Some (fd, recvAlt)"
    and d: "stunEncodeMessage hmac req STUN_MAX_MESSAGE_SIZE zero_atr_string = Inr d" "received r = Some (d, src)"
    and c: "canonical_message req"
    using assms by (auto simp: delivers_def)
  have fds: "fd \<noteq> INVALID_SOCKET" "send_socket info recvAlt ip pt \<noteq> INVALID_SOCKET" for ip pt
    using assms on by (auto simp: delivers_def received_on_def send_socket_def split: if_splits)
  define req' where "req' = req\<lparr> msgHdr := (msgHdr req)\<lparr> msgLength := word_of_nat (length d - sizeof_StunMsgHdr) \<rparr>,
    hasMessageIntegrity := False, messageIntegrity := zero_atr_integrity \<rparr>"
  have len: "0 < length d" "length d + 1 < length (junkMsg r)"
    and parse: "\<And>rest. stunParseMessage (d @ rest) (length d) = Inr (True, req')"
    using encoded_request [OF c d(1)] assms
    by (auto simp: req'_def delivers_def wf_round_def udpMaxMessageLength_def)
  obtain rest where got: "getMessage (received r) fd (junkMsg r) (junkFrom r) = Inr (True, d @ rest, int (length d), src)"
    using getMessage_ok [OF fds(1) len] d(2) by auto
  have simple: "msgType (msgHdr req') = BindRequestMsg" "\<not> hasMessageIntegrity req'" "\<not> hasUsername req'"
    "port (ipv4 (mappedAddress req')) = 0" "port (ipv4 (responseAddress req')) = 0"
    using assms c by (simp_all add: delivers_def req'_def canonical_message_def atr_ok_def
        zero_atr_address_def zero_address4_def)
  have asks: "asks_ip req' = asks_ip req" "asks_port req' = asks_port req" "msgId (msgHdr req') = msgId (msgHdr req)"
    by (simp_all add: req'_def asks_ip_def asks_port_def)
  obtain out where out: "stunServerProcessMsg hmac (clock r) (random r) (junkSource r) (d @ rest) (length d) src
      ?my ?alt (junkDest r) ?pw = Inr (True, out)" "destination out = src" "hmacPassword out = ?pw"
    "changeIp out = asks_ip req" "changePort out = asks_port req"
    and m: "with_family (resp out) = zero_message\<lparr>
       msgHdr := \<lparr> msgType = BindResponseMsg, msgLength = 0, msgId = msgId (msgHdr req) \<rparr>,
       hasMappedAddress := True, mappedAddress := \<lparr> pad = 0, family = IPv4Family, ipv4 = src \<rparr>,
       hasSourceAddress := True, sourceAddress := \<lparr> pad = 0, family = IPv4Family, ipv4 =
         \<lparr> port = (if asks_port req then port ?alt else port ?my),
           addr = (if asks_ip req then addr ?alt else addr ?my) \<rparr> \<rparr>,
       hasChangedAddress := True, changedAddress := \<lparr> pad = 0, family = IPv4Family, ipv4 = ?alt \<rparr> \<rparr>"
    using process_bind_request [OF parse [of rest] simple, of hmac "clock r" "random r" "junkSource r" src
      ?my ?alt "junkDest r" ?pw, unfolded asks] by blast
  have i: "length (msgId (msgHdr req)) = 16" using c by (simp add: canonical_message_def)
  have fam: "canonical_address \<lparr> pad = 0, family = IPv4Family, ipv4 = a \<rparr>" for a
    by (simp add: canonical_address_def)
  obtain e where e: "stunEncodeMessage hmac (with_family (resp out)) STUN_MAX_MESSAGE_SIZE ?pw = Inr e"
    "length e = 56 \<and> (\<forall>rest. stunParseMessage (e @ rest) (length e) = Inr (True, expected_response info recvAlt req src))"
    unfolding m expected_response_def Let_def
    using response_wire [OF i fam fam fam] by blast
  let ?s = "\<lparr> sentOn = send_socket info recvAlt (asks_ip req) (asks_port req), sentTo = src, sentData = e \<rparr>"
  have "stunServerAnswer hmac info r recvAlt (d @ rest) (length d) src = Inr (Some ?s)"
    using assms out e(1) fds(2)
    by (simp add: stunServerAnswer_def encode_with_family sendMessage_def delivers_def)
  then have "stunServerProcess hmac info r = Inr (Some ?s)"
    using assms on got len(1) by (simp add: stunServerProcess_def delivers_def)
  with e(2) show ?thesis by auto
qed

section \<open>Sockets\<close>

text \<open>The four sockets of a running server, by address.\<close>

definition serves :: "StunServerInfo \<Rightarrow> Os \<Rightarrow> bool" where
  "serves info os \<longleftrightarrow>
     map_of (bound os) (myFd info) = Some (myAddr info) \<and>
     map_of (bound os) (altPortFd info) = Some \<lparr> port = port (altAddr info), addr = addr (myAddr info) \<rparr> \<and>
     map_of (bound os) (altIpFd info) = Some \<lparr> port = port (myAddr info), addr = addr (altAddr info) \<rparr> \<and>
     map_of (bound os) (altIpPortFd info) = Some (altAddr info)"

text \<open>What \<open>openPort\<close> does to the operating system.\<close>

lemma openPort_cases:
  assumes "openPort binds p ip os = (fd, os')"
  obtains (failed) "fd = INVALID_SOCKET" "bound os' = bound os" "\<exists>fds. nextFds os = fds @ nextFds os'"
  | (opened) "fd \<noteq> INVALID_SOCKET" "nextFds os = fd # nextFds os'"
    "bound os' = (fd, \<lparr> port = p, addr = (if ip \<noteq> 0 \<and> ip \<noteq> 0x100007f then ip else 0) \<rparr>) # bound os"
  using assms
  by (auto simp: openPort_def os_socket_def Let_def split: list.splits prod.splits if_splits)

lemma openPort_opened:
  assumes "openPort binds p ip os = (fd, os')" "fd \<noteq> INVALID_SOCKET" "ip \<noteq> 0" "ip \<noteq> 0x100007f"
  shows "nextFds os = fd # nextFds os' \<and> bound os' = (fd, \<lparr> port = p, addr = ip \<rparr>) # bound os"
  using assms by (auto elim: openPort_cases)

text \<open>a server that \<open>stunInitServer\<close> has started has its four sockets bound to the four
  combinations of its two addresses and two ports, each descriptor to the combination that its
  name says (unless an address is the one \<open>openPort\<close> takes for the loopback interface).\<close>

theorem stunInitServer_binds:
  assumes "stunInitServer binds my alt os = Inr (True, info, os')" "distinct (nextFds os)"
    "addr my \<noteq> 0x100007f" "addr alt \<noteq> 0x100007f"
  shows "serves info os' \<and> myAddr info = my \<and> altAddr info = alt \<and>
    INVALID_SOCKET \<notin> {myFd info, altPortFd info, altIpFd info, altIpPortFd info}"
proof -
  obtain f1 o1 where 1: "openPort binds (port my) (addr my) os = (f1, o1)" by fastforce
  obtain f2 o2 where 2: "openPort binds (port alt) (addr my) o1 = (f2, o2)" by fastforce
  obtain f3 o3 where 3: "openPort binds (port my) (addr alt) o2 = (f3, o3)" by fastforce
  obtain f4 o4 where 4: "openPort binds (port alt) (addr alt) o3 = (f4, o4)" by fastforce
  note init = assms(1) [unfolded stunInitServer_def oassert_eq_Inr Let_def 1 split 2 3 4]
  have ok: "f1 \<noteq> INVALID_SOCKET" "f2 \<noteq> INVALID_SOCKET" "f3 \<noteq> INVALID_SOCKET" "f4 \<noteq> INVALID_SOCKET"
    and ne: "addr my \<noteq> 0" "addr alt \<noteq> 0" and info: "info = \<lparr> myAddr = my, altAddr = alt, myFd = f1,
      altPortFd = f2, altIpFd = f3, altIpPortFd = f4 \<rparr>" "os' = o4"
    using init by (auto split: if_splits)
  note opened = openPort_opened [OF 1 ok(1) ne(1) assms(3)] openPort_opened [OF 2 ok(2) ne(1) assms(3)]
    openPort_opened [OF 3 ok(3) ne(2) assms(4)] openPort_opened [OF 4 ok(4) ne(2) assms(4)]
  then have "distinct [f1, f2, f3, f4]" using assms(2) by auto
  with opened ok info show ?thesis by (simp add: serves_def)
qed

text \<open>C5: a Binding Request is answered as RFC 3489 (\<open>rfc3489.txt\<close>, Table 1) says. In a round in
  which a server with its four sockets bound receives, from \<open>src\<close> and on the socket of its primary
  address and port, the encoding of a Binding Request without USERNAME, RESPONSE-ADDRESS and
  MAPPED-ADDRESS (a MESSAGE-INTEGRITY that the encoder has no password for is not on the wire),
  it sends exactly one datagram, to \<open>src\<close>. The socket it sends it on is bound to the address
  and port of the table: the other address exactly if the request asks to change the IP address,
  the other port exactly if it asks to change the port. Whoever parses the datagram gets a
  Binding Response with the transaction identifier of the request, the address and port of \<open>src\<close>
  as MAPPED-ADDRESS, the address and port it was sent from as SOURCE-ADDRESS and the server's
  other address and port as CHANGED-ADDRESS. Requests that arrive on one of the other three
  sockets are answered too, but not always as the table says (\<open>answer_port_by_flags_only\<close>).\<close>

theorem bind_request_answered:
  assumes "delivers hmac info r False req src" "received_on info r = Some (myFd info, False)" "serves info os"
  shows "\<exists>s a. stunServerProcess hmac info r = Inr (Some s) \<and> sentTo s = src \<and>
    map_of (bound os) (sentOn s) = Some a \<and>
    a = \<lparr> port = port (if asks_port req then altAddr info else myAddr info),
          addr = addr (if asks_ip req then altAddr info else myAddr info) \<rparr> \<and>
    (\<forall>rest. stunParseMessage (sentData s @ rest) (length (sentData s)) = Inr (True, zero_message\<lparr>
       msgHdr := \<lparr> msgType = BindResponseMsg, msgLength = 36, msgId = msgId (msgHdr req) \<rparr>,
       hasMappedAddress := True, mappedAddress := \<lparr> pad = 0, family = IPv4Family, ipv4 = src \<rparr>,
       hasSourceAddress := True, sourceAddress := \<lparr> pad = 0, family = IPv4Family, ipv4 = a \<rparr>,
       hasChangedAddress := True, changedAddress := \<lparr> pad = 0, family = IPv4Family, ipv4 = altAddr info \<rparr>\<rparr>))"
proof -
  obtain s where s: "stunServerProcess hmac info r = Inr (Some s)" "sentTo s = src"
    "sentOn s = send_socket info False (asks_ip req) (asks_port req)"
    "\<forall>rest. stunParseMessage (sentData s @ rest) (length (sentData s)) = Inr (True, expected_response info False req src)"
    using bind_request_reply [OF assms(1)] by blast
  have "map_of (bound os) (sentOn s) = Some \<lparr> port = port (if asks_port req then altAddr info else myAddr info),
      addr = addr (if asks_ip req then altAddr info else myAddr info) \<rparr>"
    using assms(3) by (simp add: s(3) serves_def send_socket_def)
  with s(1,2,4) show ?thesis by (auto simp: expected_response_def Let_def if_distrib)
qed

text \<open>The port a request arrives on plays no part in the answer: the response leaves by the
  primary port unless the request asks to change the port, and the CHANGED-ADDRESS has the other
  port of the pair that belongs to the address of arrival. RFC 3489 asks for an answer from the
  port of arrival when no change is requested, and for the address with both parts changed.\<close>

theorem answer_port_by_flags_only:
  assumes "delivers hmac info r recvAlt req src" "serves info os"
  shows "\<exists>s a m. stunServerProcess hmac info r = Inr (Some s) \<and>
    map_of (bound os) (sentOn s) = Some a \<and>
    port a = port (if asks_port req then altAddr info else myAddr info) \<and>
    stunParseMessage (sentData s) (length (sentData s)) = Inr (True, m) \<and>
    ipv4 (changedAddress m) = (if recvAlt then myAddr info else altAddr info)"
proof -
  obtain s where s: "stunServerProcess hmac info r = Inr (Some s)"
    "sentOn s = send_socket info recvAlt (asks_ip req) (asks_port req)"
    "stunParseMessage (sentData s @ []) (length (sentData s)) = Inr (True, expected_response info recvAlt req src)"
    using bind_request_reply [OF assms(1)] by blast
  have "\<exists>a. map_of (bound os) (sentOn s) = Some a \<and> port a = port (if asks_port req then altAddr info else myAddr info)"
    using assms(2) by (auto simp: s(2) serves_def send_socket_def)
  with s show ?thesis by (auto simp: expected_response_def Let_def)
qed

text \<open>The address the server announces. When the request arrives at its primary address, the
  SOURCE-ADDRESS of the response is the address of the socket that sends it, whatever the
  request asks to be changed. When it arrives at the alternate address, the announced port is
  the other one of the two ports: \<open>stunServerProcess\<close> swaps addresses and ports when it tells
  \<open>stunServerProcessMsg\<close> which ones are its own, but selects the socket by swapping addresses
  only.\<close>

theorem announced_source:
  assumes "delivers hmac info r recvAlt req src" "serves info os"
  shows "\<exists>s a m. stunServerProcess hmac info r = Inr (Some s) \<and>
    map_of (bound os) (sentOn s) = Some a \<and>
    stunParseMessage (sentData s) (length (sentData s)) = Inr (True, m) \<and>
    addr (ipv4 (sourceAddress m)) = addr a \<and>
    (port (ipv4 (sourceAddress m)) = port a \<longleftrightarrow> \<not> recvAlt \<or> port (myAddr info) = port (altAddr info))"
proof -
  let ?m = "expected_response info recvAlt req src"
  obtain s where s: "stunServerProcess hmac info r = Inr (Some s)"
    "sentOn s = send_socket info recvAlt (asks_ip req) (asks_port req)"
    "stunParseMessage (sentData s @ []) (length (sentData s)) = Inr (True, ?m)"
    using bind_request_reply [OF assms(1)] by blast
  let ?a = "\<lparr> port = (if asks_port req then port (altAddr info) else port (myAddr info)),
    addr = (if recvAlt \<noteq> asks_ip req then addr (altAddr info) else addr (myAddr info)) \<rparr>"
  have "map_of (bound os) (sentOn s) = Some ?a"
    using assms(2) by (auto simp: s(2) serves_def send_socket_def)
  moreover have "addr (ipv4 (sourceAddress ?m)) = addr ?a"
    by (simp add: expected_response_def Let_def)
  moreover have "port (ipv4 (sourceAddress ?m)) = port ?a \<longleftrightarrow> \<not> recvAlt \<or> port (myAddr info) = port (altAddr info)"
    by (auto simp: expected_response_def Let_def)
  ultimately show ?thesis using s by auto
qed

section \<open>Requests the server cannot answer\<close>

lemma length_hex [simp]: "length (concat (map hex_octet bs)) = 2 * length bs"
  by (induction bs) (simp_all add: hex_octet_def)

lemma length_fmt_08lx [simp]: "length (fmt_08lx w) = 8"
  by (simp add: fmt_08lx_def)

lemma length_cstr [simp]: "length (cstr s) = length s"
  by (simp add: cstr_def)

lemma toHex_ok: "length h = 20 \<Longrightarrow> toHex h 20 = Inr (concat (map hex_octet h) @ [0])"
  by (simp add: toHex_def mem_read_def)

text \<open>A created user name has 67 characters: three groups of eight digits with a colon each, and
  the forty digits of the hash.\<close>

lemma stunCreateUserName_size:
  assumes "\<forall>key input. length (hmac key input) = 20" "length (strValue name) = STUN_MAX_STRING"
  shows "\<exists>v. stunCreateUserName hmac now rnd source name = Inr (name\<lparr> sizeValue := 67, strValue := v \<rparr>) \<and> 0 \<in> set v"
  using assms
  by (simp add: stunCreateUserName_def computeHmac_def toHex_ok Let_def mem_write_def STUN_MAX_STRING_def)
    (intro exI conjI, rule refl, simp)

lemma stunCreatePassword_size:
  assumes "\<forall>key input. length (hmac key input) = 20" "0 \<in> set (strValue name)"
    "length (strValue pw) = STUN_MAX_STRING"
  shows "\<exists>v. stunCreatePassword hmac name pw = Inr (pw\<lparr> sizeValue := 40, strValue := v \<rparr>) \<and> length v = STUN_MAX_STRING"
  using assms
  by (simp add: stunCreatePassword_def c_strlen_def computeHmac_def toHex_ok mem_write_def STUN_MAX_STRING_def)
    (intro exI conjI, rule refl, simp)

text \<open>A round in which the server receives the datagram \<open>d\<close>.\<close>

definition receives :: "StunServerInfo \<Rightarrow> Round \<Rightarrow> bool \<Rightarrow> octet list \<Rightarrow> StunAddress4 \<Rightarrow> bool" where
  "receives info r recvAlt d src \<longleftrightarrow> wf_round r \<and> 0 \<le> selected r \<and>
     (\<exists>fd. received_on info r = Some (fd, recvAlt) \<and> fd \<noteq> INVALID_SOCKET) \<and>
     received r = Some (d, src) \<and> 0 < length d \<and> length d + 1 < udpMaxMessageLength"

lemma receives_answer:
  assumes "receives info r recvAlt d src"
  shows "\<exists>rest. stunServerProcess hmac info r = stunServerAnswer hmac info r recvAlt (d @ rest) (length d) src"
proof -
  obtain fd where fd: "received_on info r = Some (fd, recvAlt)" "fd \<noteq> INVALID_SOCKET"
    using assms by (auto simp: receives_def)
  have len: "0 < length d" "length d + 1 < length (junkMsg r)" and d: "received r = Some (d, src)" "0 \<le> selected r"
    using assms by (auto simp: receives_def wf_round_def)
  obtain rest where "getMessage (Some (d, src)) fd (junkMsg r) (junkFrom r) = Inr (True, d @ rest, int (length d), src)"
    using getMessage_ok [OF fd(2) len] by blast
  then show ?thesis
    using d fd len by (intro exI [of _ rest]) (simp add: stunServerProcess_def)
qed

text \<open>A shared secret request stops the server. Whatever sends a datagram that parses as a
  Shared Secret Request to one of the server's sockets, \<open>stunServerProcess\<close> ends in a failed
  assertion: the user name it creates for the answer has 67 characters, and \<open>encodeAtrString\<close>
  asserts that the size is a multiple of four.\<close>

theorem shared_secret_request_aborts:
  assumes "receives info r recvAlt d src" "\<forall>key input. length (hmac key input) = 20"
    "\<forall>rest. stunParseMessage (d @ rest) (length d) = Inr (True, req)"
    "msgType (msgHdr req) = SharedSecretRequestMsg"
  shows "stunServerProcess hmac info r = Inl AssertFailed"
proof -
  obtain rest where rest: "stunServerProcess hmac info r = stunServerAnswer hmac info r recvAlt (d @ rest) (length d) src"
    using receives_answer [OF assms(1)] by blast
  have zero: "length (strValue zero_atr_string) = STUN_MAX_STRING" by (simp add: zero_atr_string_def)
  obtain v where v: "stunCreateUserName hmac (clock r) (random r) src zero_atr_string =
      Inr (zero_atr_string\<lparr> sizeValue := 67, strValue := v \<rparr>)" "0 \<in> set v"
    using stunCreateUserName_size [OF assms(2) zero] by blast
  obtain pw where "stunCreatePassword hmac (zero_atr_string\<lparr> sizeValue := 67, strValue := v \<rparr>) zero_atr_string = Inr pw"
    using stunCreatePassword_size [OF assms(2) _ zero, of "zero_atr_string\<lparr> sizeValue := 67, strValue := v \<rparr>"] v(2)
    by auto
  moreover have "length (msgId (msgHdr req)) = 16"
    using stunParseMessage_wf [of "length d" "d @ [0, 0, 0]"] assms(3) by (simp add: wf_message_def)
  ultimately show ?thesis
    using v assms(3,4) unfolding rest
    by (simp add: mem_read_def sizeof_StunMsgHdr_def STUN_MAX_MESSAGE_SIZE_def
        stunServerAnswer_def stunServerProcessMsg_def stunCreateSharedSecretResponse_def
        stunEncodeMessage_def encode_attributes_def put_atr_def encodeAtrString_def encode_def Let_def)
qed

lemma response_username_hdr: "response_username req r = Inr r' \<Longrightarrow> msgHdr r' = msgHdr r"
  by (auto simp: response_username_def obind_eq_Inr split: if_splits)

lemma response_reflected_hdr [simp]: "msgHdr (response_reflected indet req r) = msgHdr r"
  by (simp add: response_reflected_def)

lemma response_addresses_hdr [simp]: "msgType (msgHdr (response_addresses req src my alt r)) = BindResponseMsg"
  by (simp add: response_addresses_def Let_def)

lemma bind_response_type:
  assumes "bind_response hmac indet req src my alt out = Inr out'"
  shows "msgType (msgHdr (resp out')) = BindResponseMsg"
proof -
  obtain r pw where "response_username req (response_addresses req src my alt (resp out)) = Inr r"
    "resp out' = response_reflected indet req r"
    using assms unfolding bind_response_def Let_def obind_eq_Inr by auto
  then show ?thesis using response_username_hdr by (metis response_addresses_hdr response_reflected_hdr)
qed

lemma stunCreateErrorResponse_zero:
  assumes "stunCreateErrorResponse zero_message cl num msg = Inr r"
  shows "\<exists>v. r = zero_message\<lparr> msgHdr := \<lparr> msgType = BindErrorResponseMsg, msgLength = 0, msgId = replicate 16 0 \<rparr>,
    hasErrorCode := True, errorCode := zero_atr_error\<lparr> errorClass := cl, number := num, reason := v \<rparr> \<rparr>"
  using assms by (auto simp: stunCreateErrorResponse_def obind_eq_Inr)

lemma authenticate_error:
  assumes "authenticate hmac buf n req zero_message = Inr (Inl r)"
  shows "\<exists>cl num v. r = zero_message\<lparr> msgHdr := \<lparr> msgType = BindErrorResponseMsg, msgLength = 0, msgId = replicate 16 0 \<rparr>,
    hasErrorCode := True, errorCode := zero_atr_error\<lparr> errorClass := cl, number := num, reason := v \<rparr> \<rparr>"
  using assms
  by (auto simp: authenticate_def obind_eq_Inr dest!: stunCreateErrorResponse_zero split: if_splits)

lemma process_error:
  assumes "stunServerProcessMsg hmac now rnd indet buf n src my alt dest pw = Inr (True, out)"
    "msgType (msgHdr (resp out)) = BindErrorResponseMsg"
  shows "destination out = dest \<and> hmacPassword out = pw \<and> (\<exists>cl num v. resp out =
    zero_message\<lparr> msgHdr := \<lparr> msgType = BindErrorResponseMsg, msgLength = 0, msgId = replicate 16 0 \<rparr>,
      hasErrorCode := True, errorCode := zero_atr_error\<lparr> errorClass := cl, number := num, reason := v \<rparr> \<rparr>)"
proof -
  let ?out = "\<lparr> resp = zero_message, destination = dest, hmacPassword = pw, changePort = False, changeIp = False \<rparr>"
  obtain ok req where parse: "stunParseMessage buf n = Inr (ok, req)"
    using assms(1) by (auto simp: stunServerProcessMsg_def Let_def obind_eq_Inr)
  note p = assms(1) [unfolded stunServerProcessMsg_def Let_def parse obind_Inr split]
  have "msgType (msgHdr req) \<noteq> SharedSecretRequestMsg"
    using p assms(2) by (auto simp: obind_eq_Inr stunCreateSharedSecretResponse_def Let_def msg_types split: if_splits)
  with p have ok: ok "msgType (msgHdr req) = BindRequestMsg" by (auto split: if_splits)
  with p obtain auth where auth: "authenticate hmac buf n req zero_message = Inr auth"
    by (auto simp: obind_eq_Inr msg_types)
  show ?thesis
  proof (cases auth)
    case (Inl r)
    then have "out = ?out\<lparr> resp := r \<rparr>" using p ok auth by (simp add: msg_types)
    moreover have "\<exists>cl num v. r = zero_message\<lparr> msgHdr := \<lparr> msgType = BindErrorResponseMsg, msgLength = 0, msgId = replicate 16 0 \<rparr>,
      hasErrorCode := True, errorCode := zero_atr_error\<lparr> errorClass := cl, number := num, reason := v \<rparr> \<rparr>"
      using auth Inl authenticate_error by blast
    ultimately show ?thesis by simp
  next
    case (Inr r)
    then have "bind_response hmac indet req src my alt (?out\<lparr> resp := r \<rparr>) = Inr out"
      using p ok auth by (auto simp: msg_types obind_eq_Inr)
    from bind_response_type [OF this] assms(2) show ?thesis by (simp add: msg_types)
  qed
qed

text \<open>Nobody understands an error response. Whenever \<open>stunServerProcessMsg\<close> answers with a
  Binding Error Response, the response has the transaction identifier zero instead of that of
  the request and the destination is the uninitialised one of the caller; and the datagram
  that the encoder makes of it is refused by the parser, because \<open>encodeAtrError\<close> writes a
  length that is two octets more than the attribute has.\<close>

theorem error_response_refused:
  assumes "stunServerProcessMsg hmac now rnd indet buf n src my alt dest pw = Inr (True, out)"
    "msgType (msgHdr (resp out)) = BindErrorResponseMsg" "sizeValue pw = 0"
  shows "destination out = dest \<and> msgId (msgHdr (resp out)) = replicate 16 0 \<and>
    (\<exists>e. stunEncodeMessage hmac (resp out) STUN_MAX_MESSAGE_SIZE (hmacPassword out) = Inr e \<and>
      (\<forall>rest. \<exists>m. stunParseMessage (e @ rest) (length e) = Inr (False, m)))"
proof -
  obtain cl num v where r: "resp out = zero_message\<lparr>
      msgHdr := \<lparr> msgType = BindErrorResponseMsg, msgLength = 0, msgId = replicate 16 0 \<rparr>,
      hasErrorCode := True, errorCode := zero_atr_error\<lparr> errorClass := cl, number := num, reason := v \<rparr> \<rparr>"
    and out: "destination out = dest" "hmacPassword out = pw"
    using process_error [OF assms(1,2)] by blast
  let ?e = "encode16 BindErrorResponseMsg @ encode16 8 @ replicate 16 0 @
    encode16 ErrorCode @ encode16 6 @ encode16 0 @ [cl, num]"
  have "stunEncodeMessage hmac (resp out) STUN_MAX_MESSAGE_SIZE (hmacPassword out) = Inr ?e"
    using assms(3)
    by (simp add: r out stunEncodeMessage_def encode_attributes_def put_atr_def encodeAtrError_def
        zero_atr_error_def encode_signature_def encode_def mem_read_def sizeof_StunMsgHdr_def
        STUN_MAX_MESSAGE_SIZE_def mem_write_length_field)
  moreover have "\<exists>m. stunParseMessage (?e @ rest) (length ?e) = Inr (False, m)" for rest
  proof -
    let ?b = "encode16 ErrorCode @ encode16 6 @ encode16 0 @ [cl, num] @ rest"
    have "stunParseAttributes ?b 8 m = Inr (False, m)" for m
      by (subst stunParseAttributes_step) (simp_all add: encode16_def be16_def get16_def)
    then show ?thesis
      by (simp add: stunParseMessage_def sizeof_StunMsgHdr_def mem_read_def encode16_def be16_def
          get16_def take_Cons' drop_Cons' nth_Cons')
  qed
  ultimately show ?thesis using out r by auto
qed

lemma bind_response_integrity:
  "bind_response hmac indet (m\<lparr> messageIntegrity := h \<rparr>) src my alt out = bind_response hmac indet m src my alt out"
  by (simp add: bind_response_def response_username_def response_addresses_def response_password_def
      response_reflected_def asks_ip_def asks_port_def)

lemma authenticate_integrity:
  assumes "take n buf = take n buf'" "20 \<le> n" "n \<le> length buf" "n \<le> length buf'"
  shows "authenticate hmac buf (n + 24) (m\<lparr> messageIntegrity := h \<rparr>) r =
    authenticate hmac buf' (n + 24) (m\<lparr> messageIntegrity := h' \<rparr>) r"
proof -
  have "take 20 buf = take 20 buf'"
    using arg_cong [OF assms(1), of "take 20"] assms(2) by (simp add: min_def)
  with assms show ?thesis by (simp add: authenticate_def mem_read_def cong: if_cong)
qed

text \<open>A message that ends in a MESSAGE-INTEGRITY attribute with the value \<open>z\<close>.\<close>

definition signed_datagram :: "u16 \<Rightarrow> octet list \<Rightarrow> octet list \<Rightarrow> octet list \<Rightarrow> octet list" where
  "signed_datagram ty i bs z = encode16 ty @ encode16 (word_of_nat (length bs + 24)) @ i @ bs @
     encode16 MessageIntegrity @ encode16 20 @ z"

lemma signed_datagram_parse:
  assumes "parses bs (zero_message\<lparr> msgHdr := \<lparr> msgType = ty, msgLength = word_of_nat (length bs + 24), msgId = i \<rparr> \<rparr>) m"
    "length i = 16" "length bs + 24 < 2 ^ 16" "length (hash (messageIntegrity m)) = 20" "length z = 20"
  shows "stunParseMessage (signed_datagram ty i bs z @ rest) (length bs + 44) =
    Inr (True, m\<lparr> hasMessageIntegrity := True, messageIntegrity := \<lparr> hash = z \<rparr> \<rparr>)"
proof -
  let ?seg = "encode16 MessageIntegrity @ encode16 20 @ z"
  have "stunParseAttribute MessageIntegrity (z @ rest) (length z) m =
      Inr (True, m\<lparr> hasMessageIntegrity := True, messageIntegrity := \<lparr> hash = z \<rparr> \<rparr>)" for rest
    using assms(4,5) by (cases "messageIntegrity m") (simp add: stunParseAtrIntegrity_def mem_read_def mem_write_def switch_simps)
  from parses_attribute [OF this] assms(5)
  have "parses ?seg m (m\<lparr> hasMessageIntegrity := True, messageIntegrity := \<lparr> hash = z \<rparr> \<rparr>)"
    by (simp add: parses_def encode16_def)
  from stunParseMessage_wire [OF parses_append [OF assms(1) this], of rest] assms(2,3,5)
  show ?thesis by (simp add: signed_datagram_def add.commute)
qed

text \<open>The server never looks at the value of a MESSAGE-INTEGRITY attribute. Of two datagrams
  that differ only in the twenty octets of the hash at their end, \<open>stunServerProcessMsg\<close> makes
  the same answer, for every user name and every keyed hash: it compares the hash it computes
  with the first twenty octets of the datagram.\<close>

theorem integrity_value_ignored:
  assumes "parses bs (zero_message\<lparr> msgHdr := \<lparr> msgType = ty, msgLength = word_of_nat (length bs + 24), msgId = i \<rparr> \<rparr>) m"
    "length i = 16" "length bs + 24 < 2 ^ 16" "length (hash (messageIntegrity m)) = 20"
    "length x = 20" "length y = 20"
  shows "stunServerProcessMsg hmac now rnd indet (signed_datagram ty i bs x @ rest) (length bs + 44) src my alt dest pw =
    stunServerProcessMsg hmac now rnd indet (signed_datagram ty i bs y @ rest) (length bs + 44) src my alt dest pw"
proof -
  let ?d = "\<lambda>z. signed_datagram ty i bs z @ rest"
  let ?m = "m\<lparr> hasMessageIntegrity := True \<rparr>"
  have px: "stunParseMessage (?d x) (length bs + 44) = Inr (True, ?m\<lparr> messageIntegrity := \<lparr> hash = x \<rparr> \<rparr>)"
    and py: "stunParseMessage (?d y) (length bs + 44) = Inr (True, ?m\<lparr> messageIntegrity := \<lparr> hash = y \<rparr> \<rparr>)"
    using signed_datagram_parse [OF assms(1-4)] assms(5,6) by simp_all
  have "take (length bs + 20) (?d x) = take (length bs + 20) (?d y)"
    "length bs + 20 \<le> length (?d x)" "length bs + 20 \<le> length (?d y)"
    using assms(2) by (simp_all add: signed_datagram_def)
  then have "authenticate hmac (?d x) (length bs + 20 + 24) (?m\<lparr> messageIntegrity := \<lparr> hash = x \<rparr> \<rparr>) r =
      authenticate hmac (?d y) (length bs + 20 + 24) (?m\<lparr> messageIntegrity := \<lparr> hash = y \<rparr> \<rparr>) r" for r
    by (intro authenticate_integrity) simp_all
  then show ?thesis
    by (simp add: stunServerProcessMsg_def px py bind_response_integrity Let_def add.assoc
        stunCreateSharedSecretResponse_def del: StunMessage.update_convs)
qed

section \<open>Witnesses\<close>

text \<open>A server on the addresses 10.0.0.1 and 10.0.0.2 with the ports 3478 and 3479, and a round in
  which it receives a datagram on a socket.\<close>

definition example_os :: Os where
  "example_os = \<lparr> nextFds = [3, 4, 5, 6], openFds = [], bound = [] \<rparr>"

definition example_my :: StunAddress4 where "example_my = \<lparr> port = 3478, addr = 0x0a000001 \<rparr>"
definition example_alt :: StunAddress4 where "example_alt = \<lparr> port = 3479, addr = 0x0a000002 \<rparr>"
definition example_client :: StunAddress4 where "example_client = \<lparr> port = 4000, addr = 0xc0a80001 \<rparr>"

definition example_info :: StunServerInfo where
  "example_info = \<lparr> myAddr = example_my, altAddr = example_alt, myFd = 3, altPortFd = 4, altIpFd = 5, altIpPortFd = 6 \<rparr>"

definition example_os' :: Os where
  "example_os' = \<lparr> nextFds = [], openFds = [6, 5, 4, 3], bound =
     [(6, example_alt), (5, \<lparr> port = 3478, addr = 0x0a000002 \<rparr>), (4, \<lparr> port = 3479, addr = 0x0a000001 \<rparr>), (3, example_my)] \<rparr>"

definition example_round :: "Socket \<Rightarrow> octet list \<Rightarrow> Round" where
  "example_round fd d = \<lparr> selected = 1, ready = (\<lambda>s. s = fd), received = Some (d, example_client), clock = 0, random = 0,
     junkMsg = replicate udpMaxMessageLength 0, junkFrom = zero_address4, junkDest = zero_address4,
     junkPassword = replicate STUN_MAX_STRING 0, junkSource = 0 \<rparr>"

lemmas example_defs = example_os_def example_my_def example_alt_def example_client_def example_info_def
  example_os'_def example_round_def

text \<open>The octets of the example request.\<close>

lemma example_request_encoded:
  "stunEncodeMessage hmac example_request STUN_MAX_MESSAGE_SIZE zero_atr_string = Inr example_datagram"
  by (simp add: stunEncodeMessage_def example_request_def encode_attributes_def put_atr_def
      encodeAtrChangeRequest_def encode_def mem_read_def encode_signature_def zero_atr_string_def
      sizeof_StunMsgHdr_def STUN_MAX_MESSAGE_SIZE_def encode32_def example_datagram_def mem_write_length_field)

lemma example_delivers:
  "delivers (\<lambda>_ _. replicate 20 0) example_info (example_round 6 example_datagram) True example_request example_client"
  by (simp add: delivers_def wf_round_def received_on_def example_request_encoded)
    (simp add: example_defs INVALID_SOCKET_def example_request_def canonical_message_def atr_ok_def)

lemma example_delivers_primary:
  "delivers (\<lambda>_ _. replicate 20 0) example_info (example_round 3 example_datagram) False example_request example_client"
  by (simp add: delivers_def wf_round_def received_on_def example_request_encoded)
    (simp add: example_defs INVALID_SOCKET_def example_request_def canonical_message_def atr_ok_def)

theorem bind_request_answered_witness:
  "\<exists>s. stunServerProcess (\<lambda>_ _. replicate 20 0) example_info (example_round 3 example_datagram) = Inr (Some s) \<and>
     sentTo s = example_client \<and> map_of (bound example_os') (sentOn s) = Some example_alt \<and>
     stunParseMessage (sentData s @ [1, 2, 3]) (length (sentData s)) = Inr (True, zero_message\<lparr>
       msgHdr := \<lparr> msgType = BindResponseMsg, msgLength = 36, msgId = msgId (msgHdr example_request) \<rparr>,
       hasMappedAddress := True, mappedAddress := \<lparr> pad = 0, family = IPv4Family, ipv4 = example_client \<rparr>,
       hasSourceAddress := True, sourceAddress := \<lparr> pad = 0, family = IPv4Family, ipv4 = example_alt \<rparr>,
       hasChangedAddress := True, changedAddress := \<lparr> pad = 0, family = IPv4Family, ipv4 = example_alt \<rparr>\<rparr>)"
proof -
  have on: "received_on example_info (example_round 3 example_datagram) = Some (myFd example_info, False)"
    by (simp add: received_on_def example_defs)
  have s: "serves example_info example_os'" by (simp add: serves_def example_defs)
  have "asks_ip example_request" "asks_port example_request" "altAddr example_info = example_alt"
    by (simp_all add: asks_ip_def asks_port_def example_request_def ChangeIpFlag_def ChangePortFlag_def example_info_def)
  with bind_request_answered [OF example_delivers_primary on s] show ?thesis by auto
qed

theorem stunInitServer_binds_witness:
  "stunInitServer (\<lambda>_. True) example_my example_alt example_os = Inr (True, example_info, example_os') \<and>
   serves example_info example_os'"
proof -
  have "stunInitServer (\<lambda>_. True) example_my example_alt example_os = Inr (True, example_info, example_os')"
    by (simp add: stunInitServer_def openPort_def os_socket_def example_defs INVALID_SOCKET_def)
  moreover from stunInitServer_binds [OF this] have "serves example_info example_os'"
    by (simp add: example_defs)
  ultimately show ?thesis by simp
qed

theorem announced_source_witness:
  "\<exists>s a m. stunServerProcess (\<lambda>_ _. replicate 20 0) example_info (example_round 6 example_datagram) = Inr (Some s) \<and>
    map_of (bound example_os') (sentOn s) = Some a \<and>
    stunParseMessage (sentData s) (length (sentData s)) = Inr (True, m) \<and>
    addr (ipv4 (sourceAddress m)) = addr a \<and> port (ipv4 (sourceAddress m)) \<noteq> port a"
proof -
  have "serves example_info example_os'" by (simp add: serves_def example_defs)
  from announced_source [OF example_delivers this] show ?thesis by (fastforce simp: example_defs)
qed

text \<open>A Shared Secret Request without attributes.\<close>

definition example_secret :: "octet list" where
  "example_secret = encode16 SharedSecretRequestMsg @ encode16 0 @ replicate 16 9"

theorem shared_secret_request_aborts_witness:
  "stunServerProcess (\<lambda>_ _. replicate 20 0) example_info (example_round 3 example_secret) = Inl AssertFailed"
proof (rule shared_secret_request_aborts)
  show "receives example_info (example_round 3 example_secret) False example_secret example_client"
    by (simp add: receives_def wf_round_def received_on_def example_defs INVALID_SOCKET_def
        udpMaxMessageLength_def example_secret_def)
  let ?m = "zero_message\<lparr> msgHdr := \<lparr> msgType = SharedSecretRequestMsg, msgLength = 0, msgId = replicate 16 9 \<rparr> \<rparr>"
  have "parses [] ?m ?m" by (rule parses_Nil)
  then show "\<forall>rest. stunParseMessage (example_secret @ rest) (length example_secret) = Inr (True, ?m)"
    using stunParseMessage_wire [of "[]" SharedSecretRequestMsg 0 "replicate 16 9" ?m]
    by (simp add: example_secret_def)
qed simp_all

text \<open>A Binding Request with a MESSAGE-INTEGRITY attribute and no user name.\<close>

lemma example_signed_parse:
  "length z = 20 \<Longrightarrow> stunParseMessage (signed_datagram BindRequestMsg (replicate 16 7) [] z) 44 =
    Inr (True, zero_message\<lparr> msgHdr := \<lparr> msgType = BindRequestMsg, msgLength = 24, msgId = replicate 16 7 \<rparr>,
      hasMessageIntegrity := True, messageIntegrity := \<lparr> hash = z \<rparr> \<rparr>)"
  using signed_datagram_parse [of "[]" BindRequestMsg "replicate 16 7" _ z "[]", OF parses_Nil]
  by (simp add: zero_atr_integrity_def sizeof_hash_def)

theorem error_response_refused_witness:
  "\<exists>out. stunServerProcessMsg (\<lambda>_ _. replicate 20 0) 0 0 0 (signed_datagram BindRequestMsg (replicate 16 7) [] (replicate 20 5))
      44 example_client example_my example_alt zero_address4 zero_atr_string = Inr (True, out) \<and>
    errorClass (errorCode (resp out)) = 4 \<and> number (errorCode (resp out)) = 32 \<and>
    destination out = zero_address4 \<and>
    (\<exists>e m. stunEncodeMessage (\<lambda>_ _. replicate 20 0) (resp out) STUN_MAX_MESSAGE_SIZE (hmacPassword out) = Inr e \<and>
      stunParseMessage e (length e) = Inr (False, m))"
proof -
  have "BindRequestMsg \<noteq> SharedSecretRequestMsg" by (simp add: msg_types)
  then obtain out where out: "stunServerProcessMsg (\<lambda>_ _. replicate 20 0) 0 0 0
      (signed_datagram BindRequestMsg (replicate 16 7) [] (replicate 20 5))
      44 example_client example_my example_alt zero_address4 zero_atr_string = Inr (True, out)"
    "msgType (msgHdr (resp out)) = BindErrorResponseMsg"
    "errorClass (errorCode (resp out)) = 4" "number (errorCode (resp out)) = 32"
    by (simp add: stunServerProcessMsg_def example_signed_parse authenticate_def stunCreateErrorResponse_def
        Let_def zero_atr_error_def mem_write_def STUN_MAX_STRING_def)
  have "sizeValue zero_atr_string = 0" by (simp add: zero_atr_string_def)
  from error_response_refused [OF out(1,2) this] obtain e where
    "destination out = zero_address4"
    "stunEncodeMessage (\<lambda>_ _. replicate 20 0) (resp out) STUN_MAX_MESSAGE_SIZE (hmacPassword out) = Inr e"
    "\<forall>rest. \<exists>m. stunParseMessage (e @ rest) (length e) = Inr (False, m)" by blast
  moreover from this(3) obtain m where "stunParseMessage e (length e) = Inr (False, m)"
    using append_Nil2 [of e] by metis
  ultimately show ?thesis using out by blast
qed

theorem integrity_value_ignored_witness:
  "stunServerProcessMsg (\<lambda>_ _. replicate 20 0) 0 0 0 (signed_datagram BindRequestMsg (replicate 16 7) [] (replicate 20 5) @ [0])
     44 example_client example_my example_alt zero_address4 zero_atr_string =
   stunServerProcessMsg (\<lambda>_ _. replicate 20 0) 0 0 0 (signed_datagram BindRequestMsg (replicate 16 7) [] (replicate 20 6) @ [0])
     44 example_client example_my example_alt zero_address4 zero_atr_string"
  using integrity_value_ignored [of "[]" BindRequestMsg "replicate 16 7" _ "replicate 20 5" "replicate 20 6"
      "\<lambda>_ _. replicate 20 0" 0 0 0 "[0]", OF parses_Nil]
  by (simp add: zero_atr_integrity_def sizeof_hash_def)

end
