(* ===== verification/Stun_Client.thy ===== *)
theory Stun_Client
  imports Stun_Service
begin

text \<open>
  The STUN client of \<open>src/stund/stun.cxx\<close>: the requests of the tests (\<open>stunBuildReqSimple\<close>,
  \<open>stunSendTest\<close>) and the classification of the network address translator (\<open>stunNatType\<close>),
  with the rounds of its loop over what \<open>select\<close> and \<open>recvfrom\<close> return as the input.
\<close>

section \<open>The requests\<close>

text \<open>The sixteen octets of the transaction identifier from four random numbers.\<close>

definition random_id :: "(nat \<Rightarrow> u32) \<Rightarrow> octet list" where
  "random_id rnd = concat (map (\<lambda>i. let r = rnd i in
     [ucast r, ucast (drop_bit 8 r), ucast (drop_bit 16 r), ucast (drop_bit 24 r)]) [0, 1, 2, 3])"

definition stunBuildReqSimple :: "(nat \<Rightarrow> u32) \<Rightarrow> StunAtrString \<Rightarrow> bool \<Rightarrow> bool \<Rightarrow> u32 \<Rightarrow> StunMessage" where
  "stunBuildReqSimple rnd name chPort chIp ident =
     (let octets = random_id rnd;
          octets = (if ident \<noteq> 0 then octets[0 := ucast ident] else octets);
          msg = zero_message\<lparr> msgHdr := \<lparr> msgType = BindRequestMsg, msgLength = 0, msgId = octets \<rparr>,
            hasChangeRequest := True,
            changeRequest := \<lparr> changeValue = (if chIp then ChangeIpFlag else 0) OR (if chPort then ChangePortFlag else 0) \<rparr> \<rparr> in
      if sizeValue name > 0 then msg\<lparr> hasUsername := True, username := name \<rparr> else msg)"

text \<open>The flags of a test: change of port and change of address; None for an unknown number.\<close>

definition test_flags :: "u32 \<Rightarrow> (bool \<times> bool) option" where
  "test_flags testNum =
     (if testNum = 1 \<or> testNum = 10 then Some (False, False)
      else if testNum = 2 then Some (True, True)
      else if testNum = 3 then Some (True, False)
      else if testNum = 4 then Some (False, True)
      else if testNum = 5 then Some (False, False)
      else None)"

definition stunSendTest ::
    "hmac_fun \<Rightarrow> (nat \<Rightarrow> u32) \<Rightarrow> Socket \<Rightarrow> StunAddress4 \<Rightarrow> StunAtrString \<Rightarrow> StunAtrString \<Rightarrow> u32 \<Rightarrow> Sent outcome" where
  "stunSendTest hmac rnd fd dest name pw testNum =
     oassert (addr dest \<noteq> 0) (oassert (port dest \<noteq> 0)
      (case test_flags testNum of
         None \<Rightarrow> Inl AssertFailed
       | Some (chPort, chIp) \<Rightarrow>
           obind (stunEncodeMessage hmac (stunBuildReqSimple rnd name chPort chIp testNum) STUN_MAX_MESSAGE_SIZE pw)
             (\<lambda>buf. sendMessage fd buf dest)))"

section \<open>The classification\<close>

datatype NatType = StunTypeUnknown | StunTypeOpen | StunTypeConeNat | StunTypeRestrictedNat
  | StunTypePortRestrictedNat | StunTypeSymNat | StunTypeSymFirewall | StunTypeBlocked

text \<open>The local variables of \<open>stunNatType\<close>, and the datagrams sent so far. \<open>testIchangedAddr\<close> and
  \<open>testI2mappedAddr\<close> are not initialised; they are not read before they are set.\<close>

record NatState =
  respTestI :: bool
  testIchangedAddr :: StunAddress4
  testImappedAddr :: StunAddress4
  respTestI2 :: bool
  mappedIpSame :: bool
  testI2mappedAddr :: StunAddress4
  testI2dest :: StunAddress4
  respTestII :: bool
  respTestIII :: bool
  sentTests :: "Sent list"

text \<open>What \<open>select\<close> returns in a round: an error, a timeout, or data, with the result of
  \<open>recvfrom\<close>.\<close>

datatype Selected = SelectError | SelectTimeout | SelectData "(octet list \<times> StunAddress4) option"

text \<open>A test sent in a round, if its condition holds.\<close>

definition send_if ::
    "bool \<Rightarrow> (nat \<Rightarrow> u32) \<Rightarrow> hmac_fun \<Rightarrow> Socket \<Rightarrow> StunAddress4 \<Rightarrow> u32 \<Rightarrow> NatState \<Rightarrow> NatState outcome" where
  "send_if b rnd hmac fd dest testNum st =
     (if b then obind (stunSendTest hmac rnd fd dest zero_atr_string zero_atr_string testNum) (\<lambda>s.
        Inr (st\<lparr> sentTests := sentTests st @ [s] \<rparr>))
      else Inr st)"

text \<open>The random numbers of the request for a test in a round are \<open>rnd testNum\<close>. The local
  variables \<open>username\<close> and \<open>password\<close> have the size zero.\<close>

definition nat_timeout ::
    "hmac_fun \<Rightarrow> (u32 \<Rightarrow> nat \<Rightarrow> u32) \<Rightarrow> Socket \<Rightarrow> StunAddress4 \<Rightarrow> NatState \<Rightarrow> NatState outcome" where
  "nat_timeout hmac rnd fd dest st =
     obind (send_if (\<not> respTestI st) (rnd 1) hmac fd dest 1 st) (\<lambda>st.
     obind (send_if (\<not> respTestI2 st \<and> respTestI st \<and> addr (testI2dest st) \<noteq> 0 \<and> port (testI2dest st) \<noteq> 0)
       (rnd 10) hmac fd (testI2dest st) 10 st) (\<lambda>st.
     obind (send_if (\<not> respTestII st) (rnd 2) hmac fd dest 2 st) (\<lambda>st.
     send_if (\<not> respTestIII st) (rnd 3) hmac fd dest 3 st)))"

text \<open>The \<open>switch\<close> on the first octet of the transaction identifier.\<close>

definition nat_response :: "StunMessage \<Rightarrow> NatState \<Rightarrow> NatState" where
  "nat_response r st =
     (let t = hd (msgId (msgHdr r)) in
      if t = 1 then
        st\<lparr> testIchangedAddr := ipv4 (changedAddress r), testImappedAddr := ipv4 (mappedAddress r),
            respTestI := True,
            testI2dest := (testI2dest st)\<lparr> addr := addr (ipv4 (changedAddress r)) \<rparr> \<rparr>
      else if t = 2 then st\<lparr> respTestII := True \<rparr>
      else if t = 3 then st\<lparr> respTestIII := True \<rparr>
      else if t = 10 then
        st\<lparr> testI2mappedAddr := ipv4 (mappedAddress r), respTestI2 := True,
            mappedIpSame := (addr (ipv4 (mappedAddress r)) = addr (testImappedAddr st) \<and>
                             port (ipv4 (mappedAddress r)) = port (testImappedAddr st)) \<rparr>
      else st)"

text \<open>A round. The code ignores what \<open>getMessage\<close> and \<open>stunParseMessage\<close> return, and passes the
  length on as an unsigned number. \<open>junk\<close> is the uninitialised buffer.\<close>

definition nat_round ::
    "hmac_fun \<Rightarrow> (u32 \<Rightarrow> nat \<Rightarrow> u32) \<Rightarrow> octet list \<Rightarrow> Socket \<Rightarrow> StunAddress4 \<Rightarrow> Selected \<Rightarrow> NatState \<Rightarrow> NatState outcome" where
  "nat_round hmac rnd junk fd dest ev st =
     (case ev of
        SelectError \<Rightarrow> Inr st
      | SelectTimeout \<Rightarrow> nat_timeout hmac rnd fd dest st
      | SelectData rcv \<Rightarrow>
          if fd = INVALID_SOCKET then Inr st
          else obind (getMessage rcv fd junk zero_address4) (\<lambda>(ok, msg, msgLen, src).
               obind (stunParseMessage msg (nat (msgLen mod 2 ^ 32))) (\<lambda>(ok, r).
                 Inr (nat_response r st))))"

text \<open>The decision, once the rounds are over.\<close>

definition nat_decision :: "bool \<Rightarrow> NatState \<Rightarrow> NatType" where
  "nat_decision isNat st =
     (if respTestI st then
        if isNat then
          if respTestII st then StunTypeConeNat
          else if mappedIpSame st then
            if respTestIII st then StunTypeRestrictedNat else StunTypePortRestrictedNat
          else StunTypeSymNat
        else if respTestII st then StunTypeOpen else StunTypeSymFirewall
      else StunTypeBlocked)"

definition nat_start :: "StunAddress4 \<Rightarrow> NatState" where
  "nat_start dest = \<lparr> respTestI = False, testIchangedAddr = zero_address4, testImappedAddr = zero_address4,
     respTestI2 = False, mappedIpSame = True, testI2mappedAddr = zero_address4, testI2dest = dest,
     respTestII = False, respTestIII = False, sentTests = [] \<rparr>"

text \<open>\<open>stunNatType\<close>: the first request, ten rounds with what \<open>select\<close> returns in them, the attempt to
  bind a socket to the mapped address, the decision.\<close>

definition stunNatType ::
    "hmac_fun \<Rightarrow> (u32 \<Rightarrow> nat \<Rightarrow> u32) \<Rightarrow> octet list \<Rightarrow> (StunAddress4 \<Rightarrow> bool) \<Rightarrow> Os \<Rightarrow> StunAddress4 \<Rightarrow>
     Selected list \<Rightarrow> (NatType \<times> NatState) outcome" where
  "stunNatType hmac rnd junk binds os dest events =
     oassert (addr dest \<noteq> 0) (oassert (port dest \<noteq> 0)
      (case openPort binds 0 0 os of (fd, os) \<Rightarrow>
       obind (send_if True (rnd 1) hmac fd dest 1 (nat_start dest)) (\<lambda>st.
       obind (ofold (nat_round hmac rnd junk fd dest) (take 10 events) st) (\<lambda>st.
       case openPort binds 11000 (addr (testImappedAddr st)) os of (s, os) \<Rightarrow>
         Inr (nat_decision (s = INVALID_SOCKET) st, st)))))"

section \<open>Sending the tests\<close>

lemma length_random_id [simp]: "length (random_id rnd) = 16"
  by (simp add: random_id_def Let_def)

lemma stunBuildReqSimple_plain:
  "stunBuildReqSimple rnd zero_atr_string p i t = zero_message\<lparr>
     msgHdr := \<lparr> msgType = BindRequestMsg, msgLength = 0,
       msgId = (if t \<noteq> 0 then (random_id rnd)[0 := ucast t] else random_id rnd) \<rparr>,
     hasChangeRequest := True,
     changeRequest := \<lparr> changeValue = (if i then ChangeIpFlag else 0) OR (if p then ChangePortFlag else 0) \<rparr> \<rparr>"
  by (simp add: stunBuildReqSimple_def Let_def zero_atr_string_def)

lemma stunBuildReqSimple_canonical: "canonical_message (stunBuildReqSimple rnd zero_atr_string p i t)"
  by (simp add: stunBuildReqSimple_plain canonical_message_def atr_ok_def)

lemma stunBuildReqSimple_asks:
  "asks_ip (stunBuildReqSimple rnd zero_atr_string p i t) = i"
  "asks_port (stunBuildReqSimple rnd zero_atr_string p i t) = p"
  by (simp_all add: stunBuildReqSimple_plain asks_ip_def asks_port_def ChangeIpFlag_def ChangePortFlag_def)

lemma stunSendTest_ok:
  assumes "addr dest \<noteq> 0" "port dest \<noteq> 0" "fd \<noteq> INVALID_SOCKET" "test_flags t = Some (p, i)"
  shows "\<exists>d. stunSendTest hmac rnd fd dest zero_atr_string zero_atr_string t =
      Inr \<lparr> sentOn = fd, sentTo = dest, sentData = d \<rparr> \<and>
    stunEncodeMessage hmac (stunBuildReqSimple rnd zero_atr_string p i t) STUN_MAX_MESSAGE_SIZE zero_atr_string = Inr d"
proof -
  have "signs hmac zero_atr_string" "630 \<le> STUN_MAX_MESSAGE_SIZE"
    by (simp_all add: signs_def zero_atr_string_def STUN_MAX_MESSAGE_SIZE_def)
  from stunEncode_parse [OF stunBuildReqSimple_canonical this] obtain d where
    "stunEncodeMessage hmac (stunBuildReqSimple rnd zero_atr_string p i t) STUN_MAX_MESSAGE_SIZE zero_atr_string = Inr d"
    by blast
  with assms show ?thesis by (simp add: stunSendTest_def sendMessage_def)
qed

lemma send_if_ok:
  assumes "b \<longrightarrow> addr dest \<noteq> 0 \<and> port dest \<noteq> 0" "fd \<noteq> INVALID_SOCKET" "test_flags t \<noteq> None"
  shows "\<exists>ss. send_if b rnd hmac fd dest t st = Inr (st\<lparr> sentTests := ss \<rparr>)"
proof (cases b)
  case True
  obtain p i where "test_flags t = Some (p, i)" using assms(3) by auto
  from stunSendTest_ok [OF _ _ assms(2) this] assms(1) True
  obtain s where "stunSendTest hmac rnd fd dest zero_atr_string zero_atr_string t = Inr s" by blast
  with True show ?thesis by (auto simp: send_if_def)
next
  case False
  then show ?thesis by (intro exI [of _ "sentTests st"]) (simp add: send_if_def)
qed

lemma nat_timeout_ok:
  assumes "addr dest \<noteq> 0" "port dest \<noteq> 0" "fd \<noteq> INVALID_SOCKET"
  shows "\<exists>ss. nat_timeout hmac rnd fd dest st = Inr (st\<lparr> sentTests := ss \<rparr>)"
proof -
  have t: "test_flags 1 \<noteq> None" "test_flags 10 \<noteq> None" "test_flags 2 \<noteq> None" "test_flags 3 \<noteq> None"
    by (simp_all add: test_flags_def)
  have d: "b \<longrightarrow> addr dest \<noteq> 0 \<and> port dest \<noteq> 0" for b using assms by simp
  obtain s1 where 1: "send_if (\<not> respTestI st) (rnd 1) hmac fd dest 1 st = Inr (st\<lparr> sentTests := s1 \<rparr>)"
    using send_if_ok [OF d assms(3) t(1)] by blast
  let ?b = "\<not> respTestI2 st \<and> respTestI st \<and> addr (testI2dest st) \<noteq> 0 \<and> port (testI2dest st) \<noteq> 0"
  obtain s2 where 2: "send_if ?b (rnd 10) hmac fd (testI2dest st) 10 (st\<lparr> sentTests := s1 \<rparr>) = Inr (st\<lparr> sentTests := s2 \<rparr>)"
    using send_if_ok [of ?b "testI2dest st" fd 10 "rnd 10" hmac "st\<lparr> sentTests := s1 \<rparr>"] assms(3) t(2) by auto
  obtain s3 where 3: "send_if (\<not> respTestII st) (rnd 2) hmac fd dest 2 (st\<lparr> sentTests := s2 \<rparr>) = Inr (st\<lparr> sentTests := s3 \<rparr>)"
    using send_if_ok [OF d assms(3) t(3), of _ "rnd 2" hmac "st\<lparr> sentTests := s2 \<rparr>"] by auto
  obtain s4 where "send_if (\<not> respTestIII st) (rnd 3) hmac fd dest 3 (st\<lparr> sentTests := s3 \<rparr>) = Inr (st\<lparr> sentTests := s4 \<rparr>)"
    using send_if_ok [OF d assms(3) t(4), of _ "rnd 3" hmac "st\<lparr> sentTests := s3 \<rparr>"] by auto
  with 1 2 3 show ?thesis by (auto simp: nat_timeout_def)
qed

section \<open>What the client observes\<close>

text \<open>A round as the client understands it: nothing, or the response to a test with the mapped
  and the changed address it carries.\<close>

datatype Observation = Nothing | Reply octet StunAddress4 StunAddress4

definition carries :: "nat \<Rightarrow> octet list \<Rightarrow> octet \<Rightarrow> StunAddress4 \<Rightarrow> StunAddress4 \<Rightarrow> bool" where
  "carries n d t mapped changed \<longleftrightarrow> 0 < length d \<and> length d + 1 < n \<and>
     (\<exists>m. (\<forall>rest. stunParseMessage (d @ rest) (length d) = Inr (True, m)) \<and> hd (msgId (msgHdr m)) = t \<and>
       ipv4 (mappedAddress m) = mapped \<and> ipv4 (changedAddress m) = changed)"

fun observes :: "nat \<Rightarrow> Selected \<Rightarrow> Observation \<Rightarrow> bool" where
  "observes n (SelectData (Some (d, src))) (Reply t mapped changed) \<longleftrightarrow> carries n d t mapped changed \<and> n \<le> 2 ^ 31"
| "observes n SelectError Nothing \<longleftrightarrow> True"
| "observes n SelectTimeout Nothing \<longleftrightarrow> True"
| "observes n _ _ \<longleftrightarrow> False"

definition replies :: "Observation list \<Rightarrow> octet set" where
  "replies obs = {t. \<exists>m c. Reply t m c \<in> set obs}"

lemma nat_round_reply:
  assumes "observes (length junk) ev (Reply t mapped changed)" "fd \<noteq> INVALID_SOCKET"
  shows "\<exists>r. nat_round hmac rnd junk fd dest ev st = Inr (nat_response r st) \<and> hd (msgId (msgHdr r)) = t \<and>
    ipv4 (mappedAddress r) = mapped \<and> ipv4 (changedAddress r) = changed"
proof -
  obtain d src where ev: "ev = SelectData (Some (d, src))" and n: "length junk \<le> 2 ^ 31"
    and c: "carries (length junk) d t mapped changed"
    using assms(1) by (cases ev rule: Selected.exhaust) (auto split: option.splits elim!: observes.elims)
  obtain m where d: "0 < length d" "length d + 1 < length junk"
    and m: "\<And>rest. stunParseMessage (d @ rest) (length d) = Inr (True, m)" "hd (msgId (msgHdr m)) = t"
      "ipv4 (mappedAddress m) = mapped" "ipv4 (changedAddress m) = changed"
    using c by (auto simp: carries_def)
  obtain rest where "getMessage (Some (d, src)) fd junk zero_address4 = Inr (True, d @ rest, int (length d), src)"
    using getMessage_ok [OF assms(2) d] by blast
  moreover have "nat (int (length d) mod 2 ^ 32) = length d" using d(2) n by simp
  ultimately show ?thesis using m assms(2) by (intro exI [of _ m]) (simp add: nat_round_def ev)
qed

lemma nat_round_nothing:
  assumes "observes n ev Nothing" "addr dest \<noteq> 0" "port dest \<noteq> 0" "fd \<noteq> INVALID_SOCKET"
  shows "\<exists>ss. nat_round hmac rnd junk fd dest ev st = Inr (st\<lparr> sentTests := ss \<rparr>)"
proof (cases ev)
  case SelectError
  then show ?thesis by (intro exI [of _ "sentTests st"]) (simp add: nat_round_def)
next
  case SelectTimeout
  then show ?thesis using nat_timeout_ok [OF assms(2-4)] by (simp add: nat_round_def)
next
  case (SelectData x)
  then show ?thesis using assms(1) by (cases x) auto
qed

section \<open>The classification is right\<close>

text \<open>The responses to test I carry the address \<open>mI\<close>, those to the second test I, which is sent to
  the other address of the server, carry \<open>mI2\<close>, and none of the latter comes before one of the
  former.\<close>

fun consistent :: "StunAddress4 \<Rightarrow> StunAddress4 \<Rightarrow> bool \<Rightarrow> Observation list \<Rightarrow> bool" where
  "consistent mI mI2 seen [] \<longleftrightarrow> True"
| "consistent mI mI2 seen (Nothing # obs) \<longleftrightarrow> consistent mI mI2 seen obs"
| "consistent mI mI2 seen (Reply t m c # obs) \<longleftrightarrow>
     (t = 1 \<longrightarrow> m = mI) \<and> (t = 10 \<longrightarrow> m = mI2 \<and> seen) \<and> consistent mI mI2 (seen \<or> t = 1) obs"

text \<open>The state of the client after the replies in the set \<open>R\<close>.\<close>

definition knows :: "StunAddress4 \<Rightarrow> StunAddress4 \<Rightarrow> octet set \<Rightarrow> NatState \<Rightarrow> bool" where
  "knows mI mI2 R st \<longleftrightarrow> (respTestI st \<longleftrightarrow> 1 \<in> R) \<and> (respTestII st \<longleftrightarrow> 2 \<in> R) \<and> (respTestIII st \<longleftrightarrow> 3 \<in> R) \<and>
     (1 \<in> R \<longrightarrow> testImappedAddr st = mI) \<and> (mappedIpSame st \<longleftrightarrow> 10 \<notin> R \<or> mI = mI2)"

lemma knows_reply:
  assumes "knows mI mI2 R st" "hd (msgId (msgHdr r)) = t"
    "t = 1 \<longrightarrow> ipv4 (mappedAddress r) = mI" "t = 10 \<longrightarrow> ipv4 (mappedAddress r) = mI2 \<and> 1 \<in> R"
  shows "knows mI mI2 (insert t R) (nat_response r st)"
proof -
  consider "t = 1" | "t = 2" | "t = 3" | "t = 10" | "t \<notin> {1, 2, 3, 10}" by blast
  then show ?thesis
  proof cases
    case 4
    then have "testImappedAddr st = mI" "ipv4 (mappedAddress r) = mI2" using assms(1,4) by (auto simp: knows_def)
    moreover have "addr mI2 = addr mI \<and> port mI2 = port mI \<longleftrightarrow> mI = mI2"
      by (cases mI; cases mI2) auto
    ultimately show ?thesis using assms(1,2) 4 by (simp add: knows_def nat_response_def Let_def)
  qed (use assms in \<open>simp_all add: knows_def nat_response_def Let_def\<close>)
qed

lemma rounds_know:
  assumes "addr dest \<noteq> 0" "port dest \<noteq> 0" "fd \<noteq> INVALID_SOCKET"
  shows "list_all2 (observes (length junk)) evs obs \<Longrightarrow> consistent mI mI2 (1 \<in> R) obs \<Longrightarrow> knows mI mI2 R st \<Longrightarrow>
    \<exists>st'. ofold (nat_round hmac rnd junk fd dest) evs st = Inr st' \<and> knows mI mI2 (R \<union> replies obs) st'"
proof (induction evs obs arbitrary: R st rule: list_all2_induct)
  case Nil
  then show ?case by (simp add: replies_def)
next
  case (Cons ev evs ob obs)
  show ?case
  proof (cases ob)
    case Nothing
    obtain ss where ss: "nat_round hmac rnd junk fd dest ev st = Inr (st\<lparr> sentTests := ss \<rparr>)"
      using nat_round_nothing [of _ ev] Cons.hyps(1) assms unfolding Nothing by blast
    have "knows mI mI2 R (st\<lparr> sentTests := ss \<rparr>)" using Cons.prems(2) by (simp add: knows_def)
    from Cons.IH [OF _ this] Cons.prems(1) ss show ?thesis by (simp add: Nothing replies_def)
  next
    case (Reply t m c)
    obtain r where r: "nat_round hmac rnd junk fd dest ev st = Inr (nat_response r st)"
      "hd (msgId (msgHdr r)) = t" "ipv4 (mappedAddress r) = m"
      using nat_round_reply [of junk ev t m c] Cons.hyps(1) assms(3) unfolding Reply by blast
    have k: "knows mI mI2 (insert t R) (nat_response r st)"
      using Cons.prems r(2,3) by (intro knows_reply) (auto simp: Reply)
    have R: "insert t R \<union> replies obs = R \<union> replies (ob # obs)" by (auto simp: Reply replies_def)
    have "consistent mI mI2 (1 \<in> insert t R) obs" using Cons.prems(1) by (auto simp: Reply disj_commute)
    from Cons.IH [OF this k] r(1) show ?thesis unfolding R by simp
  qed
qed

text \<open>What each kind of network lets through: the tests that are answered, whether there is a
  translator, and whether it maps the client to the same address for both of the server's.\<close>

fun answered :: "NatType \<Rightarrow> octet set" where
  "answered StunTypeOpen = {1, 10, 2, 3}"
| "answered StunTypeConeNat = {1, 10, 2, 3}"
| "answered StunTypeRestrictedNat = {1, 10, 3}"
| "answered StunTypePortRestrictedNat = {1, 10}"
| "answered StunTypeSymNat = {1, 10}"
| "answered StunTypeSymFirewall = {1, 10}"
| "answered StunTypeBlocked = {}"
| "answered StunTypeUnknown = {}"

definition behind_nat :: "NatType \<Rightarrow> bool" where
  "behind_nat k \<longleftrightarrow> k \<in> {StunTypeConeNat, StunTypeRestrictedNat, StunTypePortRestrictedNat, StunTypeSymNat}"

text \<open>C16: the classification is right. In a network of the kind \<open>k\<close> (the tests that RFC 3489 says
  are answered there are answered, in any order, any number of times, between any number of
  errors and timeouts, the second test I after the first; the mapped address is the same for
  both tests I unless the translator is symmetric; a socket can be bound to the mapped address
  exactly if there is no translator), \<open>stunNatType\<close> returns \<open>k\<close>.\<close>

theorem stunNatType_classifies:
  assumes "addr dest \<noteq> 0" "port dest \<noteq> 0" "openPort binds 0 0 os = (fd, os')" "fd \<noteq> INVALID_SOCKET"
    and "length events \<le> 10" "list_all2 (observes (length junk)) events obs"
    and "consistent mI mI2 False obs" "replies obs = answered k" "k \<noteq> StunTypeUnknown"
    and "mI = mI2 \<longleftrightarrow> k \<noteq> StunTypeSymNat"
    and "fst (openPort binds 11000 (addr mI) os') = INVALID_SOCKET \<longleftrightarrow> behind_nat k"
  shows "\<exists>st. stunNatType hmac rnd junk binds os dest events = Inr (k, st)"
proof -
  have "test_flags 1 \<noteq> None" by (simp add: test_flags_def)
  with assms(1,2,4) obtain ss where
    ss: "send_if True (rnd 1) hmac fd dest 1 (nat_start dest) = Inr (nat_start dest\<lparr> sentTests := ss \<rparr>)"
    using send_if_ok [of True dest fd 1 "rnd 1" hmac "nat_start dest"] by blast
  have "knows mI mI2 {} (nat_start dest\<lparr> sentTests := ss \<rparr>)" by (simp add: knows_def nat_start_def)
  from rounds_know [OF assms(1,2,4,6) _ this] assms(7,8) obtain st where
    st: "ofold (nat_round hmac rnd junk fd dest) events (nat_start dest\<lparr> sentTests := ss \<rparr>) = Inr st"
      "knows mI mI2 (answered k) st"
    by fastforce
  obtain s os'' where bind: "openPort binds 11000 (addr (testImappedAddr st)) os' = (s, os'')" by fastforce
  have "nat_decision (s = INVALID_SOCKET) st = k"
    using st(2) bind assms(9,10,11) by (cases k) (auto simp: knows_def nat_decision_def behind_nat_def)
  then show ?thesis
    using assms(1-5) ss st(1) bind by (simp add: stunNatType_def)
qed

section \<open>Client and server\<close>

text \<open>C33: a test and its answer. When the datagram that \<open>stunSendTest\<close> sends for a test reaches the
  server on the socket of its primary address and port, the server answers the sender, from the
  socket that the test asks for (test II from the other address and port, test III from the other
  port, test IV from the other address, both tests I from the primary one), and the answer counts
  for the client as a reply to that test that carries its mapped address and the server's
  alternate address.\<close>

theorem test_request_reply:
  assumes "stunSendTest hmac rnd fd dest zero_atr_string zero_atr_string t = Inr s"
    and "receives info r False (sentData s) src" "addr src \<noteq> 0" "port src \<noteq> 0"
    and "INVALID_SOCKET \<notin> {myFd info, altPortFd info, altIpFd info, altIpPortFd info}" "57 < n"
    and "received_on info r = Some (myFd info, False)"
  shows "\<exists>s'. stunServerProcess hmac info r = Inr (Some s') \<and> sentTo s' = src \<and>
    sentOn s' = (if t = 2 then altIpPortFd info else if t = 3 then altPortFd info
      else if t = 4 then altIpFd info else myFd info) \<and>
    carries n (sentData s') (ucast t) src (altAddr info)"
proof -
  obtain p i where flags: "test_flags t = Some (p, i)"
    using assms(1) by (cases "test_flags t") (auto simp: stunSendTest_def oassert_eq_Inr)
  let ?req = "stunBuildReqSimple rnd zero_atr_string p i t"
  have enc: "stunEncodeMessage hmac ?req STUN_MAX_MESSAGE_SIZE zero_atr_string = Inr (sentData s)"
    using assms(1) flags by (auto simp: stunSendTest_def sendMessage_def outcome_simps)
  have req: "\<not> hasMappedAddress ?req" "\<not> hasResponseAddress ?req" "\<not> hasUsername ?req"
    "msgType (msgHdr ?req) = BindRequestMsg"
    by (simp_all add: stunBuildReqSimple_plain)
  have "t \<noteq> 0" using flags by (auto simp: test_flags_def split: if_splits)
  moreover obtain b bs where "random_id rnd = b # bs" by (cases "random_id rnd") (auto dest: arg_cong [of _ _ length])
  ultimately have id0: "hd (msgId (msgHdr ?req)) = ucast t"
    by (simp add: stunBuildReqSimple_plain)
  have "delivers hmac info r False ?req src"
    using assms(2-5) enc req stunBuildReqSimple_canonical by (auto simp: delivers_def receives_def)
  from bind_request_reply [OF this, unfolded stunBuildReqSimple_asks] obtain s' where
    s': "stunServerProcess hmac info r = Inr (Some s')" "sentTo s' = src" "sentOn s' = send_socket info False i p"
      "length (sentData s') = 56"
      "\<forall>rest. stunParseMessage (sentData s' @ rest) (length (sentData s')) = Inr (True, expected_response info False ?req src)"
    by blast
  have "carries n (sentData s') (ucast t) src (altAddr info)"
    unfolding carries_def using s'(4,5) assms(6) id0
    by (intro conjI exI [of _ "expected_response info False ?req src"]) (simp_all add: expected_response_def Let_def)
  moreover have "send_socket info False i p = (if t = 2 then altIpPortFd info else if t = 3 then altPortFd info
      else if t = 4 then altIpFd info else myFd info)"
    using flags by (auto simp: test_flags_def send_socket_def split: if_splits)
  ultimately show ?thesis using s'(1,2,3) by auto
qed

section \<open>Witnesses\<close>

theorem test_request_reply_witness:
  "\<exists>s s'. stunSendTest (\<lambda>_ _. replicate 20 0) (\<lambda>_. 0) 9 example_my zero_atr_string zero_atr_string 2 = Inr s \<and>
    stunServerProcess (\<lambda>_ _. replicate 20 0) example_info (example_round 3 (sentData s)) = Inr (Some s') \<and>
    sentTo s' = example_client \<and> sentOn s' = 6 \<and> carries 16384 (sentData s') 2 example_client example_alt"
proof -
  obtain d where d: "stunSendTest (\<lambda>_ _. replicate 20 0) (\<lambda>_. 0) 9 example_my zero_atr_string zero_atr_string 2 =
      Inr \<lparr> sentOn = 9, sentTo = example_my, sentData = d \<rparr>"
    "stunEncodeMessage (\<lambda>_ _. replicate 20 0) (stunBuildReqSimple (\<lambda>_. 0) zero_atr_string True True 2)
      STUN_MAX_MESSAGE_SIZE zero_atr_string = Inr d"
    using stunSendTest_ok [of example_my 9 2 True True "\<lambda>_ _. replicate 20 0" "\<lambda>_. 0"]
    by (auto simp: example_my_def INVALID_SOCKET_def test_flags_def)
  have "receives example_info (example_round 3 d) False d example_client"
    using encoded_request [OF stunBuildReqSimple_canonical d(2)]
    by (simp add: receives_def wf_round_def received_on_def example_defs INVALID_SOCKET_def udpMaxMessageLength_def)
  moreover have "received_on example_info (example_round 3 d) = Some (myFd example_info, False)"
    by (simp add: received_on_def example_defs)
  moreover have "addr example_client \<noteq> 0" "port example_client \<noteq> 0"
    "INVALID_SOCKET \<notin> {myFd example_info, altPortFd example_info, altIpFd example_info, altIpPortFd example_info}"
    "altAddr example_info = example_alt" "altIpPortFd example_info = 6"
    by (simp_all add: example_client_def example_info_def INVALID_SOCKET_def)
  ultimately obtain s' where
    "stunServerProcess (\<lambda>_ _. replicate 20 0) example_info (example_round 3 d) = Inr (Some s')"
    "sentTo s' = example_client" "sentOn s' = 6" "carries 16384 (sentData s') 2 example_client example_alt"
    using test_request_reply [OF d(1), of example_info "example_round 3 d" example_client 16384] by auto
  with d(1) show ?thesis by auto
qed

lemma example_reply: "\<exists>d. carries 16384 d t mapped changed"
proof -
  have f: "canonical_address \<lparr> pad = 0, family = IPv4Family, ipv4 = a \<rparr>" for a by (simp add: canonical_address_def)
  have i: "length (t # replicate 15 0) = 16" by simp
  obtain d where "length d = 56" "\<forall>rest. stunParseMessage (d @ rest) (length d) = Inr (True,
      zero_message\<lparr> msgHdr := \<lparr> msgType = BindResponseMsg, msgLength = 36, msgId = t # replicate 15 0 \<rparr>,
        hasMappedAddress := True, mappedAddress := \<lparr> pad = 0, family = IPv4Family, ipv4 = mapped \<rparr>,
        hasSourceAddress := True, sourceAddress := \<lparr> pad = 0, family = IPv4Family, ipv4 = mapped \<rparr>,
        hasChangedAddress := True, changedAddress := \<lparr> pad = 0, family = IPv4Family, ipv4 = changed \<rparr> \<rparr>)"
    using response_wire [OF i f f f] by blast
  then show ?thesis by (intro exI [of _ d]) (simp add: carries_def)
qed

text \<open>A translator that lets only answers from the address and port through to which the client
  has sent: test I is answered at both addresses, with the same mapped address.\<close>

theorem stunNatType_classifies_witness:
  "\<exists>d1 d10 st. stunNatType (\<lambda>_ _. replicate 20 0) (\<lambda>_ _. 0) (replicate 16384 0) (\<lambda>a. addr a = 0)
     \<lparr> nextFds = [3, 4], openFds = [], bound = [] \<rparr> example_my
     [SelectTimeout, SelectData (Some (d1, example_my)), SelectError, SelectData (Some (d10, example_alt))] =
   Inr (StunTypePortRestrictedNat, st)"
proof -
  obtain d1 d10 where d: "carries 16384 d1 1 example_client example_alt" "carries 16384 d10 10 example_client example_alt"
    using example_reply by blast
  let ?obs = "[Nothing, Reply 1 example_client example_alt, Nothing, Reply 10 example_client example_alt]"
  let ?os = "\<lparr> nextFds = [4], openFds = [3], bound = [(3, zero_address4)] \<rparr>"
  have "\<exists>st. stunNatType (\<lambda>_ _. replicate 20 0) (\<lambda>_ _. 0) (replicate 16384 0) (\<lambda>a. addr a = 0)
     \<lparr> nextFds = [3, 4], openFds = [], bound = [] \<rparr> example_my
     [SelectTimeout, SelectData (Some (d1, example_my)), SelectError, SelectData (Some (d10, example_alt))] =
     Inr (StunTypePortRestrictedNat, st)"
  proof (rule stunNatType_classifies [where obs = ?obs and mI = example_client and ?mI2.0 = example_client
        and fd = 3 and os' = ?os])
    show "list_all2 (observes (length (replicate 16384 (0 :: octet))))
      [SelectTimeout, SelectData (Some (d1, example_my)), SelectError, SelectData (Some (d10, example_alt))] ?obs"
      using d by simp
    show "replies ?obs = answered StunTypePortRestrictedNat" by (auto simp: replies_def)
  qed (simp_all add: example_defs openPort_def os_socket_def INVALID_SOCKET_def zero_address4_def behind_nat_def)
  then show ?thesis by blast
qed

end
