(* ===== verification/Sip_Headers.thy ===== *)
theory Sip_Headers
  imports Vocal_Prelude
begin

text \<open>
  \<open>sip/sipstack/SipRawHeaderContainer.cxx\<close>: the headers of a SIP message, a vector with one linked
  list of raw headers per header type. A list that starts at a pointer is a HOL list, so that
  following \<open>next\<close> is taking the tail; positions are C++ \<open>int\<close>s, of which several negative values
  have a meaning. The lemmas say what the pointer walks compute.
\<close>

section \<open>The list of one header type\<close>

type_synonym 'h chain = "'h list"

definition insertManyHeader :: "'h chain \<Rightarrow> 'h chain \<Rightarrow> 'h chain" where
  "insertManyHeader header chain = chain @ header"

fun insertHeader :: "'h \<Rightarrow> int \<Rightarrow> 'h chain \<Rightarrow> 'h chain outcome" where
  "insertHeader h pos [] = (if pos = 0 \<or> pos = -1 then Inr [h] else Inl AssertFailed)"
| "insertHeader h pos (x # xs) =
    (if pos = 0 then Inr (h # x # xs)
     else obind (insertHeader h (if pos > 0 then pos - 1 else pos) xs) (\<lambda>r. Inr (x # r)))"

fun getHeader :: "int \<Rightarrow> 'h chain \<Rightarrow> 'h chain outcome" where
  "getHeader index [] = (if index = 0 then Inr [] else Inl AssertFailed)"
| "getHeader index (x # xs) = (if index = 0 then Inr (x # xs) else getHeader (index - 1) xs)"

text \<open>
  \<open>getHeaderOrCreate\<close> is a const member that fills the list with empty entries up to the one it
  was asked for; \<open>e\<close> is such an entry.
\<close>

fun create_up_to :: "'h \<Rightarrow> nat \<Rightarrow> 'h chain \<Rightarrow> 'h \<times> 'h chain" where
  "create_up_to e 0 [] = (e, [e])"
| "create_up_to e 0 (x # xs) = (x, x # xs)"
| "create_up_to e (Suc n) [] = (case create_up_to e n [] of (y, r) \<Rightarrow> (y, e # r))"
| "create_up_to e (Suc n) (x # xs) = (case create_up_to e n xs of (y, r) \<Rightarrow> (y, x # r))"

definition getHeaderOrCreate :: "'h \<Rightarrow> int \<Rightarrow> 'h chain \<Rightarrow> 'h \<times> 'h chain" where
  "getHeaderOrCreate e index xs =
    (if index \<ge> 0 then create_up_to e (nat index) xs
     else (let xs = (if xs = [] then [e] else xs) in (last xs, xs)))"

definition getNumHeaders :: "'h chain \<Rightarrow> nat" where
  "getNumHeaders xs = length xs"

fun remove_walk :: "int \<Rightarrow> 'h chain \<Rightarrow> 'h chain outcome" where
  "remove_walk index [] = (if index \<noteq> 0 then Inl AssertFailed else Inr [])"
| "remove_walk index (x # xs) =
    (if index = 0 then Inr xs else obind (remove_walk (index - 1) xs) (\<lambda>r. Inr (x # r)))"

fun remove_last :: "'h chain \<Rightarrow> 'h chain" where
  "remove_last [] = []"
| "remove_last [x] = []"
| "remove_last (x # y # xs) = x # remove_last (y # xs)"

definition removeHeader :: "int \<Rightarrow> 'h chain \<Rightarrow> 'h chain outcome" where
  "removeHeader index xs = (if index \<noteq> -1 then remove_walk index xs else Inr (remove_last xs))"

fun cut_after :: "int \<Rightarrow> 'h chain \<Rightarrow> 'h chain" where
  "cut_after number [] = []"
| "cut_after number (x # xs) = (if number \<noteq> 0 then x # cut_after (number - 1) xs else [])"

definition setNumHeaders :: "int \<Rightarrow> 'h chain \<Rightarrow> 'h chain outcome" where
  "setNumHeaders number xs = oassert (number \<ge> 0) (Inr (cut_after number xs))"

section \<open>The container\<close>

text \<open>A container maps header types to lists; an empty list is a null entry of the vector.\<close>

type_synonym ('t, 'h) container = "'t \<Rightarrow> 'h chain"

definition copy_container :: "('t, 'h) container \<Rightarrow> ('t, 'h) container" where
  "copy_container src = (\<lambda>t. if src t \<noteq> [] then src t else [])"

definition assign_container :: "('t, 'h) container \<Rightarrow> ('t, 'h) container \<Rightarrow> ('t, 'h) container" where
  "assign_container src this = (\<lambda>t. if src t \<noteq> [] then src t else this t)"

definition replaceHeader :: "'t \<Rightarrow> 'h chain \<Rightarrow> ('t, 'h) container \<Rightarrow> ('t, 'h) container" where
  "replaceHeader t header c = c(t := header)"

definition appendHeader :: "'t \<Rightarrow> 'h \<Rightarrow> int \<Rightarrow> ('t, 'h) container \<Rightarrow> ('t, 'h) container outcome" where
  "appendHeader t h pos c = obind (insertHeader h pos (c t)) (\<lambda>xs. Inr (c(t := xs)))"

definition copyHeader :: "('t, 'h) container \<Rightarrow> 't \<Rightarrow> ('t, 'h) container \<Rightarrow> ('t, 'h) container outcome" where
  "copyHeader src t c = obind (getHeader 0 (src t)) (\<lambda>hdr. Inr (replaceHeader t hdr c))"

section \<open>What the walks compute\<close>

lemma nat_one_plus [simp]: "nat (1 + int n) = Suc n"
  by simp

lemma int_positive_cases:
  assumes "0 < i"
  obtains n where "i = 1 + int n" and "nat i = Suc n"
  using assms that [of "nat i - 1"] by simp

lemma insertHeader_spec:
  "insertHeader h pos xs =
    (if pos = -1 then Inr (xs @ [h])
     else if 0 \<le> pos \<and> nat pos \<le> length xs then Inr (take (nat pos) xs @ h # drop (nat pos) xs)
     else Inl AssertFailed)"
proof (induction xs arbitrary: pos)
  case Nil
  then show ?case
    by simp
next
  case (Cons x xs)
  show ?case
  proof (cases "pos > 0")
    case True
    then obtain n where "pos = 1 + int n"
      by (rule int_positive_cases)
    with Cons show ?thesis
      by simp
  qed (use Cons in auto)
qed

lemma getHeader_spec:
  "getHeader index xs =
    (if 0 \<le> index \<and> nat index \<le> length xs then Inr (drop (nat index) xs) else Inl AssertFailed)"
proof (induction xs arbitrary: index)
  case (Cons x xs)
  show ?case
  proof (cases "index > 0")
    case True
    then obtain n where "index = 1 + int n"
      by (rule int_positive_cases)
    with Cons show ?thesis
      by simp
  qed (use Cons in auto)
qed simp

lemma create_up_to_spec:
  "create_up_to e n xs =
    (if n < length xs then (xs ! n, xs) else (e, xs @ replicate (Suc n - length xs) e))"
  by (induction e n xs rule: create_up_to.induct) (auto simp: Suc_diff_le)

lemma remove_walk_spec:
  "remove_walk index xs =
    (if 0 \<le> index \<and> nat index \<le> length xs then Inr (take (nat index) xs @ drop (Suc (nat index)) xs)
     else Inl AssertFailed)"
proof (induction xs arbitrary: index)
  case (Cons x xs)
  show ?case
  proof (cases "index > 0")
    case True
    then obtain n where "index = 1 + int n"
      by (rule int_positive_cases)
    with Cons show ?thesis
      by simp
  qed (use Cons in auto)
qed simp

lemma remove_last_butlast [simp]: "remove_last xs = butlast xs"
  by (induction xs rule: remove_last.induct) simp_all

lemma cut_after_take: "number \<ge> 0 \<Longrightarrow> cut_after number xs = take (nat number) xs"
proof (induction xs arbitrary: number)
  case (Cons x xs)
  show ?case
  proof (cases "number = 0")
    case False
    with Cons.prems obtain n where "number = 1 + int n"
      by (metis int_positive_cases order_le_less)
    with Cons show ?thesis
      by simp
  qed simp
qed simp

lemma setNumHeaders_spec:
  "setNumHeaders number xs = (if number \<ge> 0 then Inr (take (nat number) xs) else Inl AssertFailed)"
  by (simp add: setNumHeaders_def oassert_def cut_after_take)

lemma removeHeader_spec:
  "removeHeader index xs =
    (if index = -1 then Inr (butlast xs)
     else if 0 \<le> index \<and> nat index \<le> length xs
       then Inr (take (nat index) xs @ drop (Suc (nat index)) xs)
     else Inl AssertFailed)"
  by (simp add: removeHeader_def remove_walk_spec)

text \<open>The positions that the message classes use.\<close>

lemma insertHeader_front [simp]: "insertHeader h 0 xs = Inr (h # xs)"
  by (simp add: insertHeader_spec)

lemma insertHeader_back [simp]: "insertHeader h (-1) xs = Inr (xs @ [h])"
  by (simp add: insertHeader_spec)

lemma removeHeader_front [simp]: "removeHeader 0 xs = Inr (drop 1 xs)"
  by (simp add: removeHeader_spec)

lemma setNumHeaders_zero [simp]: "setNumHeaders 0 xs = Inr []"
  by (simp add: setNumHeaders_spec)

lemma header_list_operations_lemma:
  "insertHeader h pos xs =
    (if pos = -1 then Inr (xs @ [h])
     else if 0 \<le> pos \<and> nat pos \<le> length xs then Inr (take (nat pos) xs @ h # drop (nat pos) xs)
     else Inl AssertFailed)
  \<and> removeHeader index ys =
    (if index = -1 then Inr (butlast ys)
     else if 0 \<le> index \<and> nat index \<le> length ys
       then Inr (take (nat index) ys @ drop (Suc (nat index)) ys)
     else Inl AssertFailed)
  \<and> setNumHeaders n ys = (if n \<ge> 0 then Inr (take (nat n) ys) else Inl AssertFailed)
  \<and> getHeader i ys = (if 0 \<le> i \<and> nat i \<le> length ys then Inr (drop (nat i) ys) else Inl AssertFailed)
  \<and> getHeaderOrCreate e k ys =
    (if k < 0 then (if ys = [] then (e, [e]) else (last ys, ys))
     else if nat k < length ys then (ys ! nat k, ys)
     else (e, ys @ replicate (Suc (nat k) - length ys) e))"
  by (simp add: insertHeader_spec removeHeader_spec setNumHeaders_spec getHeader_spec
      getHeaderOrCreate_def create_up_to_spec)

text \<open>C24: The pointer walks of the header container are the list operations they stand for, for every
  position: insertion before a position or at the end, removal at a position or of the last header,
  cutting to a number, the list from a position on, and access that creates the missing headers; a
  position outside the list stops the program in an assertion, except for the access that creates.\<close>

theorem header_list_operations:
  "insertHeader h pos xs =
    (if pos = -1 then Inr (xs @ [h])
     else if 0 \<le> pos \<and> nat pos \<le> length xs then Inr (take (nat pos) xs @ h # drop (nat pos) xs)
     else Inl AssertFailed)
  \<and> removeHeader index ys =
    (if index = -1 then Inr (butlast ys)
     else if 0 \<le> index \<and> nat index \<le> length ys
       then Inr (take (nat index) ys @ drop (Suc (nat index)) ys)
     else Inl AssertFailed)
  \<and> setNumHeaders n ys = (if n \<ge> 0 then Inr (take (nat n) ys) else Inl AssertFailed)
  \<and> getHeader i ys = (if 0 \<le> i \<and> nat i \<le> length ys then Inr (drop (nat i) ys) else Inl AssertFailed)
  \<and> getHeaderOrCreate e k ys =
    (if k < 0 then (if ys = [] then (e, [e]) else (last ys, ys))
     else if nat k < length ys then (ys ! nat k, ys)
     else (e, ys @ replicate (Suc (nat k) - length ys) e))"
  by (rule header_list_operations_lemma)

lemma assign_container_iff:
  "assign_container src this = copy_container src \<longleftrightarrow> (\<forall>t. src t = [] \<longrightarrow> this t = [])"
  by (auto simp: assign_container_def copy_container_def fun_eq_iff)

end
