(* ===== verification/Sip_Message.thy ===== *)
theory Sip_Message
  imports Sip_Headers
begin

text \<open>
  The messages that the call states of the user agent build and look at, with the constructors of
  \<open>sip/sipstack\<close> that make one message from another: \<open>StatusMsg\<close> of a command, \<open>AckMsg\<close> and \<open>ByeMsg\<close>
  of a response, \<open>ByeMsg\<close> and \<open>CancelMsg\<close> of a command.

  A message is a record with the headers that these constructors and the call states use. Headers
  and URLs are copied by the code whenever they are handed over (\<open>duplicateUrl\<close>, \<open>duplicate\<close>), so
  they are values. The operations on a list of headers occur at its two ends only, where
  \<open>insertHeader_front\<close>, \<open>insertHeader_back\<close>, \<open>removeHeader_front\<close> and \<open>setNumHeaders_zero\<close> say what they
  are.
\<close>

section \<open>Message data\<close>

datatype sip_method = SIP_UNKNOWN | SIP_INVITE | SIP_ACK | SIP_OPTIONS | SIP_BYE | SIP_CANCEL
  | SIP_REGISTER | SIP_INFO | SIP_TRANSFER | SIP_REFER | SIP_STATUS | SIP_SUBSCRIBE | SIP_NOTIFY
  | SIP_MESSAGE | SIP_UNKNOWNEXTN | SIP_INVALIDMSG

record sip_url =
  url_user :: string
  url_host :: string
  url_port :: string
  url_transport :: string
  url_maddr :: string

datatype base_url = SIP_URL sip_url | TEL_URL string | NULL_URL

definition getUserValue :: "base_url \<Rightarrow> string" where
  "getUserValue u = (case u of SIP_URL s \<Rightarrow> url_user s | TEL_URL n \<Rightarrow> n | NULL_URL \<Rightarrow> [])"

text \<open>\<open>SipTo\<close> and \<open>SipFrom\<close>.\<close>

record name_addr =
  na_url :: base_url
  na_display :: string
  na_tag :: string
  na_token :: string
  na_qstring :: string

definition getUser :: "name_addr \<Rightarrow> string" where
  "getUser a = getUserValue (na_url a)"

record sip_via =
  via_host :: string
  via_port :: string
  via_transport :: string
  via_branch :: string
  via_maddr :: string
  via_received :: "(string \<times> string) option"

definition default_via :: sip_via where
  "default_via = \<lparr> via_host = [], via_port = ''5060'', via_transport = ''UDP'', via_branch = [],
    via_maddr = [], via_received = None \<rparr>"

text \<open>
  Sequence numbers are decimal text that the code converts to \<open>int\<close> before every use; here they
  are the converted value. \<open>getNextCSeq\<close> stops at the largest \<open>int\<close>.
\<close>

record sip_cseq =
  cs_method :: sip_method
  cs_num :: u32

definition getNextCSeq :: "sip_cseq \<Rightarrow> u32" where
  "getNextCSeq c = (if cs_num c < 0x7fffffff then cs_num c + 1 else 0x7fffffff)"

definition incrCSeq :: "sip_cseq \<Rightarrow> sip_cseq" where
  "incrCSeq c = c\<lparr> cs_num := getNextCSeq c \<rparr>"

definition setCSeq :: "u32 \<Rightarrow> sip_cseq \<Rightarrow> sip_cseq" where
  "setCSeq seqnum c = c\<lparr> cs_num := (if seqnum < 0x80000000 then seqnum else 0x7fffffff) \<rparr>"

text \<open>A body: a session description, of which the connection address and the session matter here.\<close>

record sdp =
  sdp_session :: nat
  sdp_connection :: string

datatype content = SdpContent sdp | OtherContent string

record sip_msg =
  m_type :: sip_method
  m_status :: int
  m_url :: base_url
  m_via :: "sip_via list"
  m_from :: name_addr
  m_to :: name_addr
  m_callid :: string
  m_cseq :: sip_cseq
  m_record_route :: "base_url list"
  m_route :: "base_url list"
  m_contact :: "base_url list"
  m_allow :: "string list"
  m_content :: "content option"
  m_www_authenticate :: string
  m_proxy_authenticate :: string
  m_authorization :: string
  m_proxy_authorization :: string
  m_received_ip :: string
  m_received_port :: string
  m_max_forwards :: int

text \<open>The four headers of authentication are their text, empty where a header is missing.\<close>

text \<open>\<open>getContentData(0)\<close> converted with \<open>dynamicCast\<close> to a session description.\<close>

definition sdp_of :: "sip_msg \<Rightarrow> sdp option" where
  "sdp_of m = (case m_content m of Some (SdpContent s) \<Rightarrow> Some s | _ \<Rightarrow> None)"

text \<open>\<open>getVia(0)\<close> and \<open>getContact(-1)\<close> create an empty header where there is none.\<close>

definition getVia0 :: "sip_msg \<Rightarrow> sip_via" where
  "getVia0 m = (case m_via m of [] \<Rightarrow> default_via | v # _ \<Rightarrow> v)"

definition getContactLast :: "sip_msg \<Rightarrow> base_url" where
  "getContactLast m = (if m_contact m = [] then NULL_URL else last (m_contact m))"

section \<open>Constructors\<close>

text \<open>
  \<open>StatusMsg::StatusMsg(SipCommand&, int)\<close>. \<open>tag\<close> is the random number that the constructor draws
  where it has to add a tag.
\<close>

definition draws_tag :: "sip_msg \<Rightarrow> int \<Rightarrow> bool" where
  "draws_tag command statusCode \<longleftrightarrow>
    statusCode > 100 \<and> statusCode < 500 \<and> na_tag (m_to command) = []"

definition StatusMsg :: "string \<Rightarrow> sip_msg \<Rightarrow> int \<Rightarrow> sip_msg" where
  "StatusMsg tag command statusCode =
    \<lparr> m_type = SIP_STATUS, m_status = statusCode, m_url = NULL_URL,
      m_via = m_via command, m_from = m_from command,
      m_to = (if draws_tag command statusCode then (m_to command)\<lparr> na_tag := tag \<rparr> else m_to command),
      m_callid = m_callid command, m_cseq = m_cseq command,
      m_record_route = (if statusCode > 100 \<and> statusCode \<le> 200 then m_record_route command else []),
      m_route = [], m_contact = [], m_allow = [], m_content = None,
      m_www_authenticate = [], m_proxy_authenticate = [], m_authorization = [],
      m_proxy_authorization = [], m_received_ip = [], m_received_port = [], m_max_forwards = 70 \<rparr>"

text \<open>
  \<open>SipCommand::SipCommand(const StatusMsg&, ...)\<close>, the common part of an ACK and a BYE made from a
  response: the record routes of a 18x or 2xx response become the route, in reverse order.
\<close>

definition SipCommand_of_status :: "sip_method \<Rightarrow> sip_msg \<Rightarrow> sip_msg" where
  "SipCommand_of_status meth status =
    \<lparr> m_type = meth, m_status = 0,
      m_url = (case m_contact status of [] \<Rightarrow> NULL_URL | c # _ \<Rightarrow> c),
      m_via = [], m_from = m_from status, m_to = m_to status, m_callid = m_callid status,
      m_cseq = incrCSeq (m_cseq status), m_record_route = [],
      m_route = (if m_status status \<ge> 180 \<and> m_status status < 300
                 then fold (\<lambda>r rs. r # rs) (m_record_route status) [] else []),
      m_contact = [], m_allow = [], m_content = None,
      m_www_authenticate = [], m_proxy_authenticate = [], m_authorization = [],
      m_proxy_authorization = [], m_received_ip = [], m_received_port = [], m_max_forwards = 70 \<rparr>"

text \<open>
  The end of both constructors: the first route becomes the request URI, the contact of the
  response the last route.
\<close>

definition take_first_route :: "sip_msg \<Rightarrow> sip_msg" where
  "take_first_route m =
    (case m_route m of [] \<Rightarrow> m | dest # rs \<Rightarrow> m\<lparr> m_url := dest, m_route := rs \<rparr>)"

definition route_to_contact :: "sip_msg \<Rightarrow> sip_msg \<Rightarrow> sip_msg" where
  "route_to_contact status m =
    (case m_contact status of [] \<Rightarrow> m | c # _ \<Rightarrow> m\<lparr> m_route := m_route m @ [c] \<rparr>)"

definition AckMsg :: "sip_msg \<Rightarrow> sip_msg" where
  "AckMsg statusMsg =
    (let m = SipCommand_of_status SIP_ACK statusMsg;
         m = (case m_via statusMsg of [] \<Rightarrow> m | v # _ \<Rightarrow> m\<lparr> m_via := v # m_via m \<rparr>);
         m = m\<lparr> m_cseq := \<lparr> cs_method = SIP_ACK, cs_num = cs_num (m_cseq statusMsg) \<rparr> \<rparr>
     in route_to_contact statusMsg (take_first_route m))"

definition ByeMsg_of_status :: "sip_msg \<Rightarrow> sip_msg" where
  "ByeMsg_of_status statusMsg =
    (let m = SipCommand_of_status SIP_BYE statusMsg;
         m = m\<lparr> m_cseq := \<lparr> cs_method = SIP_BYE, cs_num = cs_num (m_cseq statusMsg) + 1 \<rparr> \<rparr>
     in route_to_contact statusMsg (take_first_route m))"

definition ByeMsg_of_command :: "sip_msg \<Rightarrow> sip_msg" where
  "ByeMsg_of_command src =
    src\<lparr> m_type := SIP_BYE,
         m_cseq := \<lparr> cs_method = SIP_BYE, cs_num = cs_num (m_cseq src) + 1 \<rparr>,
         m_to := m_from src, m_from := m_to src \<rparr>"

text \<open>
  \<open>CancelMsg::CancelMsg(const SipCommand&)\<close> copies the command with its \<open>Via\<close> headers and then puts
  the first of them in front once more. \<open>viaFront\<close> asserts that there is one.
\<close>

definition CancelMsg :: "sip_msg \<Rightarrow> sip_msg run" where
  "CancelMsg src =
    (case m_via src of [] \<Rightarrow> stop AssertFailed
     | v # vs \<Rightarrow> ret (src\<lparr> m_type := SIP_CANCEL, m_cseq := (m_cseq src)\<lparr> cs_method := SIP_CANCEL \<rparr>,
                          m_via := v # v # vs \<rparr>))"

lemma fold_Cons_rev: "fold (\<lambda>r rs. r # rs) xs ys = rev xs @ ys"
  by (induction xs arbitrary: ys) simp_all

lemma StatusMsg_simps [simp]:
  "m_type (StatusMsg tag c code) = SIP_STATUS"
  "m_status (StatusMsg tag c code) = code"
  "m_cseq (StatusMsg tag c code) = m_cseq c"
  "m_from (StatusMsg tag c code) = m_from c"
  "m_callid (StatusMsg tag c code) = m_callid c"
  "m_via (StatusMsg tag c code) = m_via c"
  "m_contact (StatusMsg tag c code) = []"
  "m_content (StatusMsg tag c code) = None"
  by (simp_all add: StatusMsg_def)

lemma AckMsg_simps [simp]:
  "m_type (AckMsg s) = SIP_ACK"
  "m_cseq (AckMsg s) = \<lparr> cs_method = SIP_ACK, cs_num = cs_num (m_cseq s) \<rparr>"
  "m_from (AckMsg s) = m_from s"
  "m_to (AckMsg s) = m_to s"
  "m_callid (AckMsg s) = m_callid s"
  by (simp_all add: AckMsg_def Let_def SipCommand_of_status_def take_first_route_def
      route_to_contact_def split: list.splits)

lemma ByeMsg_of_status_simps [simp]:
  "m_type (ByeMsg_of_status s) = SIP_BYE"
  "m_cseq (ByeMsg_of_status s) = \<lparr> cs_method = SIP_BYE, cs_num = cs_num (m_cseq s) + 1 \<rparr>"
  "m_from (ByeMsg_of_status s) = m_from s"
  "m_to (ByeMsg_of_status s) = m_to s"
  "m_callid (ByeMsg_of_status s) = m_callid s"
  by (simp_all add: ByeMsg_of_status_def Let_def SipCommand_of_status_def take_first_route_def
      route_to_contact_def split: list.splits)

end
