(* ===== verification/Ua_Agent.thy ===== *)
theory Ua_Agent
  imports Sip_Message
begin

text \<open>
  \<open>sip/libsipua\<close>: one leg of a call. \<open>UaBase\<close> with its base class \<open>SipCallLegData\<close> and its two
  subclasses \<open>UaClient\<close> and \<open>UaServer\<close> is a record; the virtual method \<open>sendBye\<close> is selected by the
  role, which the constructors of the subclasses set. What the leg hands to the SIP stack is the
  list \<open>ua_sent\<close>. The tags that \<open>StatusMsg\<close> draws are \<open>ua_random 0, ua_random 1, ...\<close>.

  The configuration (\<open>BaseFacade\<close>) is a record that the functions get as an argument; in it,
  \<open>cfg_ipName\<close> is the name resolution of \<open>NetworkAddress\<close>. Computations have the type \<open>run\<close>, because
  \<open>saveRouteList\<close> need not return.
\<close>

section \<open>The call leg\<close>

datatype UStateType = U_STATE_IDLE | U_STATE_S_TRYING | U_STATE_C_TRYING | U_STATE_RINGING
  | U_STATE_FAILURE | U_STATE_INCALL | U_STATE_END | U_STATE_REDIRECT | U_STATE_HOLD

datatype CallLegState = CLS_NONE | C_HOLD | C_LIVE | C_DISCONNECTED

datatype AgentRole = A_SERVER | A_CLIENT

datatype sent = Reply sip_msg | Async sip_msg | AsyncTo sip_msg string string

record uabase =
  myAgentRole :: AgentRole
  myState :: UStateType
  myRequestMsg :: sip_msg
  myResponseMsg :: "sip_msg option"
  myAckMsg :: "sip_msg option"
  myCallLegState :: CallLegState
  myLocalSdpData :: "sdp option"
  myRemoteSdpData :: "sdp option"
  myRouteList :: "base_url list"
  myLocalCSeq :: sip_cseq
  myControllerAgent :: bool
  ua_sent :: "sent list"
  ua_random :: "nat \<Rightarrow> string"
  ua_drawn :: nat

record facade =
  cfg_localIp :: string
  cfg_sipPort :: string
  cfg_natHost :: string
  cfg_transport :: int
  cfg_proxyIp :: string
  cfg_proxyPort :: string
  cfg_fixSdpForNat :: bool
  cfg_ipName :: "string \<Rightarrow> string"

definition isAClient :: "'a uabase_scheme \<Rightarrow> bool" where
  "isAClient ua \<longleftrightarrow> myAgentRole ua = A_CLIENT"

definition isAServer :: "'a uabase_scheme \<Rightarrow> bool" where
  "isAServer ua \<longleftrightarrow> myAgentRole ua = A_SERVER"

definition sendReply :: "sip_msg \<Rightarrow> 'a uabase_scheme \<Rightarrow> 'a uabase_scheme" where
  "sendReply m ua = ua\<lparr> ua_sent := ua_sent ua @ [Reply m] \<rparr>"

definition sendAsync :: "sip_msg \<Rightarrow> 'a uabase_scheme \<Rightarrow> 'a uabase_scheme" where
  "sendAsync m ua = ua\<lparr> ua_sent := ua_sent ua @ [Async m] \<rparr>"

definition sendAsyncTo :: "sip_msg \<Rightarrow> string \<Rightarrow> string \<Rightarrow> 'a uabase_scheme \<Rightarrow> 'a uabase_scheme" where
  "sendAsyncTo m host port ua = ua\<lparr> ua_sent := ua_sent ua @ [AsyncTo m host port] \<rparr>"

definition new_StatusMsg :: "sip_msg \<Rightarrow> int \<Rightarrow> 'a uabase_scheme \<Rightarrow> sip_msg \<times> 'a uabase_scheme" where
  "new_StatusMsg command code ua =
    (StatusMsg (ua_random ua (ua_drawn ua)) command code,
     if draws_tag command code then ua\<lparr> ua_drawn := Suc (ua_drawn ua) \<rparr> else ua)"

text \<open>\<open>SipCallLegData::setRequest\<close>, \<open>setResponse\<close>, \<open>setAck\<close>.\<close>

definition setRequest :: "sip_msg \<Rightarrow> 'a uabase_scheme \<Rightarrow> 'a uabase_scheme run" where
  "setRequest m ua = rassert (m_type m = SIP_INVITE) (ret (ua\<lparr> myRequestMsg := m \<rparr>))"

definition setResponse :: "sip_msg \<Rightarrow> 'a uabase_scheme \<Rightarrow> 'a uabase_scheme run" where
  "setResponse m ua = rassert (m_type m = SIP_STATUS) (ret (ua\<lparr> myResponseMsg := Some m \<rparr>))"

definition setAck :: "sip_msg \<Rightarrow> 'a uabase_scheme \<Rightarrow> 'a uabase_scheme run" where
  "setAck m ua = rassert (m_type m = SIP_ACK) (ret (ua\<lparr> myAckMsg := Some m \<rparr>))"

text \<open>
  The constructor \<open>UaBase\<close> with those of \<open>SipCallLegData\<close> and of the subclass for the role. The local
  session description starts as the one in the request, also when the request was received.
\<close>

definition new_UaBase ::
  "AgentRole \<Rightarrow> sip_msg \<Rightarrow> bool \<Rightarrow> (nat \<Rightarrow> string) \<Rightarrow> uabase" where
  "new_UaBase role reqMsg controllerAgent rnd =
    \<lparr> myAgentRole = role, myState = U_STATE_IDLE, myRequestMsg = reqMsg, myResponseMsg = None,
      myAckMsg = None, myCallLegState = CLS_NONE, myLocalSdpData = sdp_of reqMsg,
      myRemoteSdpData = None, myRouteList = [], myLocalCSeq = m_cseq reqMsg,
      myControllerAgent = controllerAgent, ua_sent = [], ua_random = rnd, ua_drawn = 0 \<rparr>"

section \<open>Operations of \<open>UaBase\<close>\<close>

definition sendReplyForRequest ::
  "sip_msg \<Rightarrow> int \<Rightarrow> content option \<Rightarrow> bool \<Rightarrow> 'a uabase_scheme \<Rightarrow> 'a uabase_scheme run" where
  "sendReplyForRequest sipMsg statusCode contentData memorizeResponse ua =
    rassert (m_type sipMsg \<noteq> SIP_STATUS)
      (let (m, ua) = new_StatusMsg sipMsg statusCode ua;
           m = (case contentData of None \<Rightarrow> m | Some c \<Rightarrow> m\<lparr> m_content := Some c \<rparr>);
           ua = sendReply m ua
       in if memorizeResponse then setResponse m ua else ret ua)"

definition ackStatus :: "sip_msg \<Rightarrow> sdp option \<Rightarrow> 'a uabase_scheme \<Rightarrow> 'a uabase_scheme run" where
  "ackStatus msg sipSdp ua =
    rassert (m_type msg = SIP_STATUS)
      (if m_status msg \<ge> 200 then
         rassert (m_type (myRequestMsg ua) \<noteq> SIP_STATUS)
           (let im = myRequestMsg ua;
                m = (AckMsg msg)\<lparr> m_via := [getVia0 im], m_route := drop 1 (myRouteList ua),
                                 m_url := (case m_url im of SIP_URL u \<Rightarrow> SIP_URL u | _ \<Rightarrow> NULL_URL) \<rparr>;
                m = (case sipSdp of None \<Rightarrow> m | Some s \<Rightarrow> m\<lparr> m_content := Some (SdpContent s) \<rparr>)
            in ret (sendAsync m ua))
       else ret ua)"

text \<open>
  \<open>saveRouteList\<close>: the loop over the record routes goes back to its condition without advancing
  when it finds a \<open>tel:\<close> URL.
\<close>

partial_function (option) saveRoutes ::
  "bool \<Rightarrow> base_url list \<Rightarrow> base_url list \<Rightarrow> base_url list run" where
  "saveRoutes reverse rrList routes =
    (case rrList of
       [] \<Rightarrow> ret routes
     | u # us \<Rightarrow>
         (case u of
            TEL_URL n \<Rightarrow> saveRoutes reverse (u # us) routes
          | NULL_URL \<Rightarrow> stop AssertFailed
          | SIP_URL s \<Rightarrow> saveRoutes reverse us (if reverse then u # routes else routes @ [u])))"

definition saveRouteList :: "sip_msg \<Rightarrow> bool \<Rightarrow> 'a uabase_scheme \<Rightarrow> 'a uabase_scheme run" where
  "saveRouteList msg reverse ua =
    rbind (saveRoutes reverse (m_record_route msg) []) (\<lambda>routes.
      ret (ua\<lparr> myRouteList :=
        (if m_contact msg \<noteq> [] then routes @ [last (m_contact msg)] else routes) \<rparr>))"

text \<open>
  \<open>fixSdpForNat\<close> changes the message in place: the connection address of its session description
  and, in a 200, the host of its contact.
\<close>

definition set_connection :: "string \<Rightarrow> sip_msg \<Rightarrow> sip_msg" where
  "set_connection natIp m =
    (case m_content m of
       Some (SdpContent s) \<Rightarrow> m\<lparr> m_content := Some (SdpContent (s\<lparr> sdp_connection := natIp \<rparr>)) \<rparr>
     | _ \<Rightarrow> m)"

definition fixSdpForNat :: "facade \<Rightarrow> sip_msg \<Rightarrow> string \<Rightarrow> sip_msg run" where
  "fixSdpForNat cfg m natIp =
    (if \<not> cfg_fixSdpForNat cfg then ret m
     else (let addr1 = via_host (getVia0 m) in
       if addr1 \<noteq> [] \<and> natIp \<noteq> [] \<and> m_record_route m \<noteq> [] then ret m
       else if addr1 \<noteq> [] \<and> natIp \<noteq> [] \<and> cfg_ipName cfg addr1 \<noteq> cfg_ipName cfg natIp then
         (if m_type m = SIP_STATUS then
            (if m_status m = 200 then
               (case getContactLast m of
                  SIP_URL u \<Rightarrow>
                    ret (set_connection natIp (m\<lparr> m_contact := [SIP_URL (u\<lparr> url_host := natIp \<rparr>)] \<rparr>))
                | _ \<Rightarrow> stop AssertFailed)
             else ret m)
          else if m_type m = SIP_INVITE \<or> m_type m = SIP_ACK then ret (set_connection natIp m)
          else ret m)
       else ret m))"

definition own_via :: "facade \<Rightarrow> sip_via" where
  "own_via cfg = default_via\<lparr> via_host := cfg_localIp cfg, via_port := cfg_sipPort cfg \<rparr>"

definition own_transport_via :: "facade \<Rightarrow> sip_via" where
  "own_transport_via cfg =
    (if cfg_transport cfg = 2 then (own_via cfg)\<lparr> via_transport := ''TCP'' \<rparr> else own_via cfg)"

text \<open>\<open>UaState::addSelfInVia\<close>.\<close>

definition addSelfInVia :: "facade \<Rightarrow> sip_msg \<Rightarrow> sip_msg" where
  "addSelfInVia cfg m = m\<lparr> m_via := [own_transport_via cfg] \<rparr>"

definition allowField :: string where
  "allowField = ''INVITE,ACK,CANCEL,BYE,OPTIONS''"

text \<open>\<open>createInvite\<close> as its one caller uses it, with the call id kept.\<close>

definition createInvite :: "facade \<Rightarrow> sip_msg \<Rightarrow> sip_msg run" where
  "createInvite cfg invMsg =
    (case na_url (m_from invMsg) of
       SIP_URL u \<Rightarrow>
         ret (invMsg\<lparr> m_allow := [allowField],
                      m_contact := [SIP_URL (u\<lparr> url_host := cfg_natHost cfg, url_port := cfg_sipPort cfg \<rparr>)],
                      m_via := [own_transport_via cfg], m_record_route := [], m_route := [] \<rparr>)
     | _ \<Rightarrow> stop AssertFailed)"

definition createReInvite ::
  "facade \<Rightarrow> sip_msg \<Rightarrow> 'a uabase_scheme \<Rightarrow> (sip_msg \<times> 'a uabase_scheme) run" where
  "createReInvite cfg invMsg ua =
    rbind (createInvite cfg invMsg) (\<lambda>m.
      (case myRouteList ua of
         [] \<Rightarrow> stop AssertFailed
       | r # rs \<Rightarrow>
           (let ua = ua\<lparr> myLocalCSeq := incrCSeq (myLocalCSeq ua) \<rparr>
            in ret (m\<lparr> m_route := rs, m_url := r, m_callid := m_callid (myRequestMsg ua),
                       m_cseq := myLocalCSeq ua \<rparr>, ua))))"

text \<open>\<open>UaClient::sendBye\<close> and \<open>UaServer::sendBye\<close>, with the part they share.\<close>

definition route_bye :: "facade \<Rightarrow> base_url list \<Rightarrow> sip_msg \<Rightarrow> sip_msg" where
  "route_bye cfg routes m =
    (case routes of [] \<Rightarrow> m | r # rs \<Rightarrow> m\<lparr> m_route := rs, m_url := r \<rparr>)\<lparr> m_via := [own_via cfg] \<rparr>"

definition sendBye :: "facade \<Rightarrow> 'a uabase_scheme \<Rightarrow> (sip_msg option \<times> 'a uabase_scheme) run" where
  "sendBye cfg ua =
    (case myAgentRole ua of
       A_CLIENT \<Rightarrow>
         (case myResponseMsg ua of
            None \<Rightarrow> stop AssertFailed
          | Some statusMsg \<Rightarrow>
              (let m = route_bye cfg (myRouteList ua) (ByeMsg_of_status statusMsg);
                   ua = ua\<lparr> myLocalCSeq := incrCSeq (myLocalCSeq ua) \<rparr>;
                   m = m\<lparr> m_cseq := setCSeq (cs_num (myLocalCSeq ua)) (m_cseq m) \<rparr>
               in ret (Some m, sendAsync m ua)))
     | A_SERVER \<Rightarrow>
         (case myAckMsg ua of
            None \<Rightarrow> ret (None, ua)
          | Some ackMsg \<Rightarrow>
              (let m = route_bye cfg (myRouteList ua) (ByeMsg_of_command ackMsg);
                   m = m\<lparr> m_cseq := setCSeq (getNextCSeq (myLocalCSeq ua)) (m_cseq m) \<rparr>
               in ret (Some m, sendAsync m ua))))"

end
