(* ===== verification/Ua_State.thy ===== *)
theory Ua_State
  imports Ua_Agent
begin

text \<open>
  The states of a call leg, \<open>sip/libsipua/uaState\<close>: what \<open>recvRequest\<close>, \<open>recvStatus\<close>, \<open>sendRequest\<close> and
  \<open>sendStatus\<close> do in each of them, and the dispatch of \<open>UaBase::receivedMsg\<close> and \<open>sendMsg\<close>. The
  methods of the call controller (\<open>BasicAgent\<close>) that the states call are the constructors of
  \<open>callback\<close>; the controller is the argument \<open>ba\<close>, a computation on the leg that may itself send
  messages over it. A method that returns an \<open>int\<close> returns it with the leg, or \<open>Thrown\<close> for
  the exception \<open>CInvalidStateException\<close>.
\<close>

section \<open>The controller\<close>

datatype callback =
    receivedRequest sip_msg
  | receivedStatus sip_msg
  | doCancel
  | endCall
  | callFailed
  | inCall
  | holdAndResumeReinvite sip_msg
  | reqResume sip_msg
  | dohold

type_synonym 'a controller = "callback \<Rightarrow> 'a uabase_scheme \<Rightarrow> 'a uabase_scheme run"

definition notify :: "'a controller \<Rightarrow> callback \<Rightarrow> 'a uabase_scheme \<Rightarrow> 'a uabase_scheme run" where
  "notify ba cb ua = (if myControllerAgent ua then ba cb ua else ret ua)"

datatype send_result = Returned int | Thrown

definition EINVAL :: int where
  "EINVAL = 22"

definition changeState :: "UStateType \<Rightarrow> 'a uabase_scheme \<Rightarrow> 'a uabase_scheme run" where
  "changeState s ua = ret (ua\<lparr> myState := s \<rparr>)"

text \<open>Ends of a \<open>send\<close> method.\<close>

definition returning :: "int \<Rightarrow> 'a uabase_scheme \<Rightarrow> (send_result \<times> 'a uabase_scheme) run" where
  "returning rv ua = ret (Returned rv, ua)"

definition change_and_return ::
  "UStateType \<Rightarrow> 'a uabase_scheme \<Rightarrow> (send_result \<times> 'a uabase_scheme) run" where
  "change_and_return s ua = rbind (changeState s ua) (returning 0)"

section \<open>Steps that several states take\<close>

text \<open>
  An ACK for a response that is not a success, with the request URI of the INVITE.
\<close>

definition send_ack :: "facade \<Rightarrow> sip_msg \<Rightarrow> 'a uabase_scheme \<Rightarrow> 'a uabase_scheme run" where
  "send_ack cfg statusMsg ua =
    rassert (m_type (myRequestMsg ua) \<noteq> SIP_STATUS)
      (ret (sendAsync ((addSelfInVia cfg (AckMsg statusMsg))\<lparr> m_url := m_url (myRequestMsg ua) \<rparr>) ua))"

text \<open>A CANCEL for the INVITE of the leg.\<close>

definition send_cancel :: "UStateType \<Rightarrow> 'a uabase_scheme \<Rightarrow> (send_result \<times> 'a uabase_scheme) run" where
  "send_cancel s ua =
    rbind (CancelMsg (myRequestMsg ua)) (\<lambda>m. change_and_return s (sendAsync m ua))"

text \<open>
  A response to the INVITE of the leg whose contact is the address the caller used, with
  the leg's own host and port; the code asserts that this address is a \<open>sip:\<close> URL.
\<close>

definition contact_reply ::
  "facade \<Rightarrow> string \<Rightarrow> int \<Rightarrow> content option \<Rightarrow> 'a uabase_scheme \<Rightarrow> (sip_msg \<times> 'a uabase_scheme) run" where
  "contact_reply cfg host statusCode body ua =
    rassert (m_type (myRequestMsg ua) \<noteq> SIP_STATUS)
      (let (m, ua) = new_StatusMsg (myRequestMsg ua) statusCode ua in
       (case na_url (m_to (myRequestMsg ua)) of
          SIP_URL u \<Rightarrow>
            ret (m\<lparr> m_content := body,
                    m_contact := [SIP_URL (u\<lparr> url_host := host, url_port := cfg_sipPort cfg \<rparr>)] \<rparr>, ua)
        | _ \<Rightarrow> stop AssertFailed))"

definition sdp_body :: "sip_msg \<Rightarrow> content option" where
  "sdp_body msg = map_option SdpContent (sdp_of msg)"

definition set_local_sdp :: "sip_msg \<Rightarrow> 'a uabase_scheme \<Rightarrow> 'a uabase_scheme" where
  "set_local_sdp msg ua =
    (case sdp_of msg of None \<Rightarrow> ua | Some s \<Rightarrow> ua\<lparr> myLocalSdpData := Some s \<rparr>)"

section \<open>\<open>UaStateIdle\<close>\<close>

definition Idle_recvRequest :: "sip_msg \<Rightarrow> 'a uabase_scheme \<Rightarrow> 'a uabase_scheme run" where
  "Idle_recvRequest msg ua =
    (if isAServer ua \<and> m_type msg = SIP_INVITE then
       rbind (saveRouteList msg False ua) (\<lambda>ua.
       rbind (sendReplyForRequest msg 100 None True ua) (\<lambda>ua.
         changeState U_STATE_S_TRYING
           (case sdp_of msg of None \<Rightarrow> ua | Some s \<Rightarrow> ua\<lparr> myRemoteSdpData := Some s \<rparr>)))
     else ret ua)"

definition Idle_sendRequest ::
  "facade \<Rightarrow> sip_msg \<Rightarrow> 'a uabase_scheme \<Rightarrow> (send_result \<times> 'a uabase_scheme) run" where
  "Idle_sendRequest cfg msg ua =
    (if isAClient ua \<and> m_type msg = SIP_INVITE then
       change_and_return U_STATE_C_TRYING
         (if cfg_proxyIp cfg \<noteq> [] \<and> cfg_proxyIp cfg \<noteq> ''0.0.0.0''
          then sendAsyncTo msg (cfg_proxyIp cfg) (cfg_proxyPort cfg) ua
          else sendAsync msg ua)
     else returning (-1) ua)"

section \<open>\<open>UasStateTrying\<close>\<close>

definition STrying_recvRequest ::
  "'a controller \<Rightarrow> sip_msg \<Rightarrow> 'a uabase_scheme \<Rightarrow> 'a uabase_scheme run" where
  "STrying_recvRequest ba msg ua =
    (if m_type msg = SIP_CANCEL \<or> m_type msg = SIP_BYE then
       rbind (sendReplyForRequest msg 200 None True ua) (\<lambda>ua.
       rbind (if m_type msg = SIP_CANCEL
              then rbind (sendReplyForRequest (myRequestMsg ua) 487 None True ua) (notify ba doCancel)
              else ret ua) (\<lambda>ua.
       rbind (notify ba (receivedRequest msg) ua) (changeState U_STATE_FAILURE)))
     else if m_type msg = SIP_INVITE then changeState U_STATE_S_TRYING ua
     else ret ua)"

definition STrying_sendStatus ::
  "facade \<Rightarrow> 'a controller \<Rightarrow> sip_msg \<Rightarrow> 'a uabase_scheme \<Rightarrow> (send_result \<times> 'a uabase_scheme) run" where
  "STrying_sendStatus cfg ba msg ua =
    (let code = m_status msg in
     if code = 100 then returning (-1) ua
     else if code \<ge> 180 \<and> code < 200 then
       rbind (sendReplyForRequest (myRequestMsg ua) code (sdp_body msg) True ua)
         (change_and_return U_STATE_RINGING)
     else if code \<ge> 300 \<and> code < 400 then
       rassert (m_type (myRequestMsg ua) \<noteq> SIP_STATUS)
         (let (m, ua) = new_StatusMsg (myRequestMsg ua) code ua;
              m = m\<lparr> m_contact := [getContactLast msg] \<rparr>
          in rbind (setResponse m (sendReply m ua)) (change_and_return U_STATE_FAILURE))
     else if code \<ge> 400 then
       rbind (sendReplyForRequest (myRequestMsg ua) code None True ua)
         (change_and_return U_STATE_FAILURE)
     else if code = 200 then
       rbind (contact_reply cfg (cfg_natHost cfg) code (sdp_body msg) ua) (\<lambda>(m, ua).
       rbind (setResponse m (sendReply m (set_local_sdp msg ua))) (\<lambda>ua.
       rbind (notify ba inCall ua) (\<lambda>ua.
         change_and_return U_STATE_INCALL (ua\<lparr> myCallLegState := C_LIVE \<rparr>))))
     else returning 0 ua)"

section \<open>\<open>UacStateTrying\<close>\<close>

definition CTrying_sendRequest :: "sip_msg \<Rightarrow> 'a uabase_scheme \<Rightarrow> (send_result \<times> 'a uabase_scheme) run" where
  "CTrying_sendRequest msg ua =
    (if m_type msg = SIP_CANCEL \<or> m_type msg = SIP_BYE then send_cancel U_STATE_FAILURE ua
     else if m_type msg = SIP_INVITE then returning 0 (sendAsync msg ua)
     else returning (- EINVAL) ua)"

text \<open>
  The response and the remote session description are pointers into the message that
  \<open>fixSdpForNat\<close> changes afterwards; the route list was copied before.
\<close>

definition CTrying_recvStatus ::
  "facade \<Rightarrow> 'a controller \<Rightarrow> sip_msg \<Rightarrow> 'a uabase_scheme \<Rightarrow> 'a uabase_scheme run" where
  "CTrying_recvStatus cfg ba msg ua =
    (let code = m_status msg in
     if code = 200 then
       rbind (saveRouteList msg True ua) (\<lambda>ua.
       rbind (fixSdpForNat cfg msg (m_received_ip msg)) (\<lambda>msg.
       rbind (setResponse msg ua) (\<lambda>ua.
       rbind (notify ba (receivedStatus msg) (ua\<lparr> myRemoteSdpData := sdp_of msg \<rparr>)) (\<lambda>ua.
         changeState U_STATE_INCALL (ua\<lparr> myCallLegState := C_LIVE \<rparr>)))))
     else if code > 200 then
       rbind (if code \<noteq> 408 then send_ack cfg msg ua else ret ua) (\<lambda>ua.
         if code = 401 \<or> code = 407 then notify ba (receivedStatus msg) ua
         else if code = 302 then
           (if m_contact msg \<noteq> [] then
              rbind (changeState U_STATE_REDIRECT ua) (notify ba (receivedStatus msg))
            else rbind (changeState U_STATE_IDLE ua) (notify ba callFailed))
         else rbind (changeState U_STATE_IDLE ua) (notify ba (receivedStatus msg)))
     else
       rbind (if code \<ge> 180 then changeState U_STATE_RINGING ua else ret ua)
         (notify ba (receivedStatus msg)))"

definition CTrying_recvRequest ::
  "'a controller \<Rightarrow> sip_msg \<Rightarrow> 'a uabase_scheme \<Rightarrow> 'a uabase_scheme run" where
  "CTrying_recvRequest ba msg ua = notify ba (receivedRequest msg) ua"

section \<open>\<open>UaStateRinging\<close>\<close>

definition Ringing_recvStatus ::
  "facade \<Rightarrow> 'a controller \<Rightarrow> sip_msg \<Rightarrow> 'a uabase_scheme \<Rightarrow> 'a uabase_scheme run" where
  "Ringing_recvStatus cfg ba msg ua =
    (let code = m_status msg in
     if code = 200 then
       rbind (fixSdpForNat cfg msg (m_received_ip msg)) (\<lambda>msg.
       rbind (setResponse msg ua) (\<lambda>ua.
       rbind (saveRouteList msg True ua) (\<lambda>ua.
       rbind (notify ba (receivedStatus msg)
               (ua\<lparr> myRemoteSdpData := sdp_of msg, myLocalCSeq := m_cseq msg \<rparr>)) (\<lambda>ua.
         changeState U_STATE_INCALL (ua\<lparr> myCallLegState := C_LIVE \<rparr>)))))
     else if code > 200 then
       rbind (if code \<noteq> 408 then send_ack cfg msg ua else ret ua) (\<lambda>ua.
       rbind (notify ba (receivedStatus msg) ua) (changeState U_STATE_IDLE))
     else ret ua)"

definition Ringing_sendStatus ::
  "facade \<Rightarrow> 'a controller \<Rightarrow> sip_msg \<Rightarrow> 'a uabase_scheme \<Rightarrow> (send_result \<times> 'a uabase_scheme) run" where
  "Ringing_sendStatus cfg ba msg ua =
    (let code = m_status msg in
     if code < 200 then returning (-1) ua
     else if (code > 200 \<and> code < 400) \<or> code > 500 then
       rbind (notify ba endCall ua) (change_and_return U_STATE_IDLE)
     else if code \<ge> 400 \<and> code < 500 then
       rbind (contact_reply cfg (cfg_natHost cfg) code None ua) (\<lambda>(m, ua).
       rbind (setResponse m (sendReply m ua)) (\<lambda>ua.
       rbind (notify ba callFailed (ua\<lparr> myCallLegState := C_LIVE \<rparr>))
         (change_and_return U_STATE_FAILURE)))
     else
       rassert (m_type (myRequestMsg ua) \<noteq> SIP_STATUS)
         (case na_url (m_to (myRequestMsg ua)) of
            SIP_URL u \<Rightarrow>
              rbind (contact_reply cfg (cfg_natHost cfg) code (sdp_body msg) ua) (\<lambda>(m, ua).
              rbind (setResponse m (sendReply m (set_local_sdp msg ua))) (\<lambda>ua.
              rbind (notify ba inCall ua) (\<lambda>ua.
              rbind (setResponse m (ua\<lparr> myCallLegState := C_LIVE \<rparr>))
                (change_and_return U_STATE_INCALL))))
          | _ \<Rightarrow>
              (let (m, ua) = new_StatusMsg (myRequestMsg ua) code ua
               in rbind (changeState U_STATE_IDLE (set_local_sdp msg ua)) (\<lambda>ua. ret (Thrown, ua)))))"

definition Ringing_recvRequest ::
  "'a controller \<Rightarrow> sip_msg \<Rightarrow> 'a uabase_scheme \<Rightarrow> 'a uabase_scheme run" where
  "Ringing_recvRequest ba msg ua =
    (if m_type msg = SIP_CANCEL \<or> m_type msg = SIP_BYE then
       rbind (sendReplyForRequest msg 200 None True ua) (\<lambda>ua.
       rbind (if m_type msg = SIP_CANCEL
              then sendReplyForRequest (myRequestMsg ua) 487 None True ua else ret ua) (\<lambda>ua.
       rbind (notify ba (receivedRequest msg) (ua\<lparr> myCallLegState := CLS_NONE \<rparr>))
         (changeState U_STATE_FAILURE)))
     else ret ua)"

definition Ringing_sendRequest :: "sip_msg \<Rightarrow> 'a uabase_scheme \<Rightarrow> (send_result \<times> 'a uabase_scheme) run" where
  "Ringing_sendRequest msg ua =
    (if m_type msg = SIP_CANCEL \<or> m_type msg = SIP_BYE
     then send_cancel U_STATE_FAILURE (ua\<lparr> myCallLegState := CLS_NONE \<rparr>)
     else returning (- EINVAL) ua)"

section \<open>\<open>UaStateFailure\<close>, \<open>UaStateEnd\<close>, \<open>UaStateRedirect\<close>\<close>

definition Failure_recvRequest ::
  "'a controller \<Rightarrow> sip_msg \<Rightarrow> 'a uabase_scheme \<Rightarrow> 'a uabase_scheme run" where
  "Failure_recvRequest ba msg ua =
    (if m_type msg = SIP_ACK \<and> isAServer ua
     then rbind (notify ba callFailed ua) (changeState U_STATE_IDLE) else ret ua)"

definition Failure_recvStatus ::
  "'a controller \<Rightarrow> sip_msg \<Rightarrow> 'a uabase_scheme \<Rightarrow> 'a uabase_scheme run" where
  "Failure_recvStatus ba msg ua =
    rassert (isAClient ua)
      (if m_status msg > 200 then
         rbind (if m_status msg = 487 then
                  rassert (m_type (myRequestMsg ua) = SIP_INVITE)
                    (let im = myRequestMsg ua
                     in ret (sendAsync ((AckMsg msg)\<lparr> m_via := [getVia0 im],
                          m_url := (case m_url im of SIP_URL u \<Rightarrow> SIP_URL u | _ \<Rightarrow> NULL_URL) \<rparr>) ua))
                else ret ua) (\<lambda>ua.
         rbind (if myControllerAgent ua
                then rbind (ba (receivedStatus msg) ua) (ba callFailed) else ret ua)
           (changeState U_STATE_IDLE))
       else ret ua)"

definition End_recvStatus ::
  "'a controller \<Rightarrow> sip_msg \<Rightarrow> 'a uabase_scheme \<Rightarrow> 'a uabase_scheme run" where
  "End_recvStatus ba msg ua = rbind (changeState U_STATE_IDLE ua) (notify ba (receivedStatus msg))"

definition Redirect_recvStatus ::
  "facade \<Rightarrow> 'a controller \<Rightarrow> sip_msg \<Rightarrow> 'a uabase_scheme \<Rightarrow> 'a uabase_scheme run" where
  "Redirect_recvStatus cfg ba msg ua =
    (let code = m_status msg in
     if code = 200 then
       rbind (setResponse msg ua) (\<lambda>ua.
       rbind (saveRouteList msg True ua) (\<lambda>ua.
       rbind (notify ba (receivedStatus msg) (ua\<lparr> myRemoteSdpData := sdp_of msg \<rparr>)) (\<lambda>ua.
         changeState U_STATE_INCALL (ua\<lparr> myCallLegState := C_LIVE \<rparr>))))
     else if code > 200 then
       rbind (if code \<noteq> 408 then send_ack cfg msg ua else ret ua) (\<lambda>ua.
       rbind (changeState U_STATE_IDLE ua) (notify ba (receivedStatus msg)))
     else
       rbind (if code \<ge> 180 then changeState U_STATE_RINGING ua else ret ua)
         (notify ba (receivedStatus msg)))"

section \<open>\<open>UaStateInCall\<close>\<close>

text \<open>What the two states of an established call do with BYE and CANCEL from the peer.\<close>

definition peer_bye :: "'a controller \<Rightarrow> sip_msg \<Rightarrow> 'a uabase_scheme \<Rightarrow> 'a uabase_scheme run" where
  "peer_bye ba msg ua =
    rbind (sendReplyForRequest msg 200 None True ua) (\<lambda>ua.
    rbind (if myControllerAgent ua
           then rbind (ba endCall ua) (ba (receivedRequest msg)) else ret ua)
      (changeState U_STATE_IDLE))"

definition peer_cancel :: "'a controller \<Rightarrow> sip_msg \<Rightarrow> 'a uabase_scheme \<Rightarrow> 'a uabase_scheme run" where
  "peer_cancel ba msg ua =
    rbind (sendReplyForRequest msg 200 None True ua) (\<lambda>ua.
    rbind (sendReplyForRequest msg 487 None True ua) (\<lambda>ua.
    rbind (if myControllerAgent ua
           then rbind (ba (receivedRequest msg) ua) (ba endCall) else ret ua)
      (changeState U_STATE_FAILURE)))"

definition InCall_recvRequest ::
  "'a controller \<Rightarrow> sip_msg \<Rightarrow> 'a uabase_scheme \<Rightarrow> 'a uabase_scheme run" where
  "InCall_recvRequest ba msg ua =
    (case m_type msg of
       SIP_INFO \<Rightarrow> rbind (sendReplyForRequest msg 200 None True ua) (notify ba (receivedRequest msg))
     | SIP_BYE \<Rightarrow> peer_bye ba msg ua
     | SIP_ACK \<Rightarrow> rbind (setAck msg ua) (notify ba (receivedRequest msg))
     | SIP_INVITE \<Rightarrow>
         rbind (sendReplyForRequest msg 100 None False ua) (\<lambda>ua.
         rbind (setRequest msg ua) (\<lambda>ua.
         rbind (notify ba (holdAndResumeReinvite msg) ua) (changeState U_STATE_HOLD)))
     | SIP_CANCEL \<Rightarrow> peer_cancel ba msg ua
     | SIP_OPTIONS \<Rightarrow>
         (let (m, ua) = new_StatusMsg msg 200 ua
          in ret (sendReply (m\<lparr> m_allow := [allowField] \<rparr>) ua))
     | _ \<Rightarrow> ret ua)"

text \<open>The tags of a re-INVITE, from the stored response, by the user names of the two ends.\<close>

definition reinvite_tags :: "sip_msg \<Rightarrow> sip_msg \<Rightarrow> sip_msg" where
  "reinvite_tags response im =
    im\<lparr> m_to := (m_to im)\<lparr> na_tag :=
             (if getUser (m_to im) = getUser (m_to response)
              then na_tag (m_to response) else na_tag (m_from response)) \<rparr>,
         m_from := (m_from im)\<lparr> na_tag :=
             (if getUser (m_from im) = getUser (m_from response)
              then na_tag (m_from response) else na_tag (m_to response)) \<rparr> \<rparr>"

definition send_reinvite ::
  "facade \<Rightarrow> UStateType \<Rightarrow> sip_msg \<Rightarrow> 'a uabase_scheme \<Rightarrow> (send_result \<times> 'a uabase_scheme) run" where
  "send_reinvite cfg s msg ua =
    rbind (createReInvite cfg msg ua) (\<lambda>(im, ua).
      (let im = im\<lparr> m_callid := m_callid (myRequestMsg ua) \<rparr> in
       (case myResponseMsg ua of
          None \<Rightarrow> stop NullDeref
        | Some response \<Rightarrow> change_and_return s (sendAsync (reinvite_tags response im) ua))))"

text \<open>
  \<open>UaStateInCall\<close> acknowledges with \<open>ackStatus\<close>; the second ACK that it builds is not sent.
\<close>

definition InCall_sendRequest ::
  "facade \<Rightarrow> sip_msg \<Rightarrow> 'a uabase_scheme \<Rightarrow> (send_result \<times> 'a uabase_scheme) run" where
  "InCall_sendRequest cfg msg ua =
    (case m_type msg of
       SIP_BYE \<Rightarrow> rbind (sendBye cfg ua) (\<lambda>(_, ua). change_and_return U_STATE_END ua)
     | SIP_INVITE \<Rightarrow> send_reinvite cfg U_STATE_HOLD msg ua
     | SIP_ACK \<Rightarrow>
         (case myResponseMsg ua of
            None \<Rightarrow> stop AssertFailed
          | Some sMsg \<Rightarrow>
              rbind (ackStatus sMsg (sdp_of msg) ua) (\<lambda>ua.
                returning 0
                  (case sdp_of msg of None \<Rightarrow> ua | Some s \<Rightarrow> ua\<lparr> myRemoteSdpData := Some s \<rparr>)))
     | SIP_CANCEL \<Rightarrow> send_cancel U_STATE_END ua
     | _ \<Rightarrow> returning (- EINVAL) ua)"

definition sync_cseq :: "sip_cseq \<Rightarrow> 'a uabase_scheme \<Rightarrow> 'a uabase_scheme run" where
  "sync_cseq c ua =
    (case myResponseMsg ua of
       None \<Rightarrow> stop NullDeref
     | Some r \<Rightarrow> ret (ua\<lparr> myResponseMsg := Some (r\<lparr> m_cseq := c \<rparr>) \<rparr>))"

definition InCall_recvStatus ::
  "facade \<Rightarrow> 'a controller \<Rightarrow> sip_msg \<Rightarrow> 'a uabase_scheme \<Rightarrow> 'a uabase_scheme run" where
  "InCall_recvStatus cfg ba msg ua =
    rbind (if m_status msg > 200 then
             rassert (m_type (myRequestMsg ua) \<noteq> SIP_STATUS)
               (ret (sendAsync ((addSelfInVia cfg (AckMsg msg))\<lparr> m_route := drop 1 (myRouteList ua),
                                  m_url := m_url (myRequestMsg ua) \<rparr>) ua))
           else ret ua) (\<lambda>ua.
    rbind (if m_status msg = 200 \<and> cs_method (m_cseq msg) = SIP_INVITE
           then rbind (sync_cseq (m_cseq msg) ua) (\<lambda>ua. ret (ua\<lparr> myLocalCSeq := m_cseq msg \<rparr>))
           else ret ua) (notify ba (receivedStatus msg)))"

definition established_sendStatus ::
  "facade \<Rightarrow> string \<Rightarrow> sip_msg \<Rightarrow> 'a uabase_scheme \<Rightarrow> (send_result \<times> 'a uabase_scheme) run" where
  "established_sendStatus cfg host msg ua =
    (if m_status msg = 200 then
       rbind (contact_reply cfg host 200 (m_content msg) ua) (\<lambda>(m, ua). returning 0 (sendReply m ua))
     else if m_status msg > 200 then
       rbind (sendReplyForRequest (myRequestMsg ua) (m_status msg) None True ua) (returning 0)
     else returning 0 ua)"

definition InCall_sendStatus ::
  "facade \<Rightarrow> sip_msg \<Rightarrow> 'a uabase_scheme \<Rightarrow> (send_result \<times> 'a uabase_scheme) run" where
  "InCall_sendStatus cfg msg ua = established_sendStatus cfg (cfg_natHost cfg) msg ua"

section \<open>\<open>UaStateInHold\<close>\<close>

definition InHold_recvStatus ::
  "facade \<Rightarrow> 'a controller \<Rightarrow> sip_msg \<Rightarrow> 'a uabase_scheme \<Rightarrow> 'a uabase_scheme run" where
  "InHold_recvStatus cfg ba msg ua =
    (let ua = (if m_status msg \<ge> 200 \<and> cs_method (m_cseq msg) = SIP_INVITE
               then sendAsync (addSelfInVia cfg (AckMsg msg)) ua else ua) in
     if m_status msg = 200 \<and> cs_method (m_cseq msg) = SIP_INVITE
     then rbind (sync_cseq (m_cseq msg) ua) (notify ba dohold)
     else notify ba (receivedStatus msg) ua)"

definition InHold_sendStatus ::
  "facade \<Rightarrow> sip_msg \<Rightarrow> 'a uabase_scheme \<Rightarrow> (send_result \<times> 'a uabase_scheme) run" where
  "InHold_sendStatus cfg msg ua = established_sendStatus cfg (cfg_localIp cfg) msg ua"

definition InHold_recvRequest ::
  "'a controller \<Rightarrow> sip_msg \<Rightarrow> 'a uabase_scheme \<Rightarrow> 'a uabase_scheme run" where
  "InHold_recvRequest ba msg ua =
    (case m_type msg of
       SIP_INFO \<Rightarrow> rbind (sendReplyForRequest msg 200 None True ua) (notify ba (receivedRequest msg))
     | SIP_BYE \<Rightarrow> peer_bye ba msg ua
     | SIP_ACK \<Rightarrow> rbind (setAck msg ua) (notify ba (receivedRequest msg))
     | SIP_INVITE \<Rightarrow>
         rbind (sendReplyForRequest msg 100 None False ua) (\<lambda>ua.
         rbind (setRequest msg ua) (\<lambda>ua.
         rbind (notify ba (reqResume msg) ua) (changeState U_STATE_INCALL)))
     | SIP_CANCEL \<Rightarrow> peer_cancel ba msg ua
     | _ \<Rightarrow> ret ua)"

definition InHold_sendRequest ::
  "facade \<Rightarrow> sip_msg \<Rightarrow> 'a uabase_scheme \<Rightarrow> (send_result \<times> 'a uabase_scheme) run" where
  "InHold_sendRequest cfg msg ua =
    (case m_type msg of
       SIP_BYE \<Rightarrow> rbind (sendBye cfg ua) (\<lambda>(_, ua). change_and_return U_STATE_END ua)
     | SIP_INVITE \<Rightarrow> send_reinvite cfg U_STATE_INCALL msg ua
     | SIP_ACK \<Rightarrow>
         (case myResponseMsg ua of
            None \<Rightarrow> stop AssertFailed
          | Some sMsg \<Rightarrow> returning 0 (sendAsync (addSelfInVia cfg (AckMsg sMsg)) ua))
     | SIP_CANCEL \<Rightarrow> send_cancel U_STATE_END ua
     | _ \<Rightarrow> returning (- EINVAL) ua)"

section \<open>Dispatch\<close>

text \<open>
  The methods of the object \<open>myState\<close>. A state that does not define a method inherits the one of
  \<open>UaState\<close>, which only writes to the log; \<open>UaStateIdle\<close> and \<open>UaStateFailure\<close> define some that do
  nothing.
\<close>

definition recvRequest ::
  "'a controller \<Rightarrow> sip_msg \<Rightarrow> 'a uabase_scheme \<Rightarrow> 'a uabase_scheme run" where
  "recvRequest ba msg ua =
    (case myState ua of
       U_STATE_IDLE \<Rightarrow> Idle_recvRequest msg ua
     | U_STATE_S_TRYING \<Rightarrow> STrying_recvRequest ba msg ua
     | U_STATE_C_TRYING \<Rightarrow> CTrying_recvRequest ba msg ua
     | U_STATE_RINGING \<Rightarrow> Ringing_recvRequest ba msg ua
     | U_STATE_FAILURE \<Rightarrow> Failure_recvRequest ba msg ua
     | U_STATE_INCALL \<Rightarrow> InCall_recvRequest ba msg ua
     | U_STATE_HOLD \<Rightarrow> InHold_recvRequest ba msg ua
     | U_STATE_END \<Rightarrow> ret ua
     | U_STATE_REDIRECT \<Rightarrow> ret ua)"

definition recvStatus ::
  "facade \<Rightarrow> 'a controller \<Rightarrow> sip_msg \<Rightarrow> 'a uabase_scheme \<Rightarrow> 'a uabase_scheme run" where
  "recvStatus cfg ba msg ua =
    (case myState ua of
       U_STATE_IDLE \<Rightarrow> ret ua
     | U_STATE_S_TRYING \<Rightarrow> ret ua
     | U_STATE_C_TRYING \<Rightarrow> CTrying_recvStatus cfg ba msg ua
     | U_STATE_RINGING \<Rightarrow> Ringing_recvStatus cfg ba msg ua
     | U_STATE_FAILURE \<Rightarrow> Failure_recvStatus ba msg ua
     | U_STATE_INCALL \<Rightarrow> InCall_recvStatus cfg ba msg ua
     | U_STATE_HOLD \<Rightarrow> InHold_recvStatus cfg ba msg ua
     | U_STATE_END \<Rightarrow> End_recvStatus ba msg ua
     | U_STATE_REDIRECT \<Rightarrow> Redirect_recvStatus cfg ba msg ua)"

definition sendRequest ::
  "facade \<Rightarrow> sip_msg \<Rightarrow> 'a uabase_scheme \<Rightarrow> (send_result \<times> 'a uabase_scheme) run" where
  "sendRequest cfg msg ua =
    (case myState ua of
       U_STATE_IDLE \<Rightarrow> Idle_sendRequest cfg msg ua
     | U_STATE_S_TRYING \<Rightarrow> returning (-1) ua
     | U_STATE_C_TRYING \<Rightarrow> CTrying_sendRequest msg ua
     | U_STATE_RINGING \<Rightarrow> Ringing_sendRequest msg ua
     | U_STATE_FAILURE \<Rightarrow> returning (-1) ua
     | U_STATE_INCALL \<Rightarrow> InCall_sendRequest cfg msg ua
     | U_STATE_HOLD \<Rightarrow> InHold_sendRequest cfg msg ua
     | U_STATE_END \<Rightarrow> returning (-1) ua
     | U_STATE_REDIRECT \<Rightarrow> returning 0 ua)"

definition sendStatus ::
  "facade \<Rightarrow> 'a controller \<Rightarrow> sip_msg \<Rightarrow> 'a uabase_scheme \<Rightarrow> (send_result \<times> 'a uabase_scheme) run" where
  "sendStatus cfg ba msg ua =
    (case myState ua of
       U_STATE_IDLE \<Rightarrow> returning (-1) ua
     | U_STATE_S_TRYING \<Rightarrow> STrying_sendStatus cfg ba msg ua
     | U_STATE_C_TRYING \<Rightarrow> returning (-1) ua
     | U_STATE_RINGING \<Rightarrow> Ringing_sendStatus cfg ba msg ua
     | U_STATE_FAILURE \<Rightarrow> returning (-1) ua
     | U_STATE_INCALL \<Rightarrow> InCall_sendStatus cfg msg ua
     | U_STATE_HOLD \<Rightarrow> InHold_sendStatus cfg msg ua
     | U_STATE_END \<Rightarrow> returning (-1) ua
     | U_STATE_REDIRECT \<Rightarrow> returning (-1) ua)"

definition receivedMsg ::
  "facade \<Rightarrow> 'a controller \<Rightarrow> sip_msg \<Rightarrow> 'a uabase_scheme \<Rightarrow> 'a uabase_scheme run" where
  "receivedMsg cfg ba msg ua =
    (if m_type msg = SIP_STATUS then recvStatus cfg ba msg ua else recvRequest ba msg ua)"

definition sendMsg ::
  "facade \<Rightarrow> 'a controller \<Rightarrow> sip_msg \<Rightarrow> 'a uabase_scheme \<Rightarrow> (send_result \<times> 'a uabase_scheme) run" where
  "sendMsg cfg ba msg ua =
    (if m_type msg = SIP_STATUS then sendStatus cfg ba msg ua else sendRequest cfg msg ua)"

end
