(* ===== verification/Ua_Call.thy ===== *)
theory Ua_Call
  imports Ua_State
begin

text \<open>
  The controller of a call in the soft phone: \<open>sip/gua/CallAgent.cxx\<close> and the control states of
  \<open>sip/gua/controlState\<close>. The record \<open>call\<close> extends the call leg that the agent controls
  (\<open>myInvokee\<close>) by the members of \<open>CallAgent\<close>; \<open>ca_invokee\<close> says whether the pointer to the leg is
  set, and a method called through it when it is not stops with \<open>NullDeref\<close>. What the agent tells the
  GUI, the media controller and the call map is the list \<open>ca_log\<close>. The answers of the media
  controller, the user's name and the credentials for a challenge are the argument \<open>md\<close>.

  Leg and agent call each other, and the methods of the agent call each other in loops. One
  function \<open>agent\<close> has all of them, selected by \<open>ca_op\<close>; its first argument bounds the depth of calls,
  and \<open>None\<close> means that the bound was reached. The last section shows that it never is.
\<close>

section \<open>State\<close>

datatype CStateType = INIT | TRYING | UAS_RINGING | UAC_RINGING | IN_CALL | HOLD | TEAR_DOWN

datatype ca_event =
    PostMsg string
  | PostSip sip_msg
  | FreeSession nat
  | ReleaseDevice
  | StartSession nat
  | SuspendSession nat
  | ResumeSession nat
  | CallEnded
  | AgentRemoved

record call = uabase +
  ca_state :: CStateType
  ca_invokee :: bool
  myActiveFlg :: bool
  freedMedia :: bool
  ca_log :: "ca_event list"

record media =
  md_createSession :: "sdp \<Rightarrow> sdp"
  md_getSdp :: "nat \<Rightarrow> sdp \<Rightarrow> sdp"
  md_resumeSession :: "nat \<Rightarrow> sdp \<Rightarrow> sdp \<Rightarrow> int"
  md_user :: string
  md_credentials :: "string \<Rightarrow> sip_msg \<Rightarrow> string"

definition post :: "ca_event \<Rightarrow> call \<Rightarrow> call" where
  "post e ca = ca\<lparr> ca_log := ca_log ca @ [e] \<rparr>"

text \<open>A member of the leg accessed through \<open>myInvokee\<close>, and its local session description.\<close>

definition with_invokee :: "call \<Rightarrow> 'a run \<Rightarrow> 'a run" where
  "with_invokee ca m = (if ca_invokee ca then m else stop NullDeref)"

definition local_sdp :: "call \<Rightarrow> (sdp \<Rightarrow> 'a run) \<Rightarrow> 'a run" where
  "local_sdp ca f = with_invokee ca
    (case myLocalSdpData ca of None \<Rightarrow> stop NullDeref | Some s \<Rightarrow> f s)"

section \<open>Control states\<close>

text \<open>
  The transitions of \<open>StateInit\<close>, \<open>StateTrying\<close>, \<open>StateUasRinging\<close>, \<open>StateUacRinging\<close>, \<open>StateInCall\<close>,
  \<open>StateInHold\<close> and \<open>StateTearDown\<close>; a method that a state does not define leaves the state.
\<close>

definition cs_ringing :: "call \<Rightarrow> call" where
  "cs_ringing ca =
    (case ca_state ca of INIT \<Rightarrow> ca\<lparr> ca_state := UAS_RINGING \<rparr> | TRYING \<Rightarrow> ca\<lparr> ca_state := UAC_RINGING \<rparr>
     | _ \<Rightarrow> ca)"

definition cs_inCall :: "call \<Rightarrow> call" where
  "cs_inCall ca =
    (if ca_state ca \<in> {TRYING, UAS_RINGING, UAC_RINGING, HOLD} then ca\<lparr> ca_state := IN_CALL \<rparr> else ca)"

definition cs_inHold :: "call \<Rightarrow> call" where
  "cs_inHold ca = (if ca_state ca = IN_CALL then ca\<lparr> ca_state := HOLD \<rparr> else ca)"

definition cs_bye :: "call \<Rightarrow> call" where
  "cs_bye ca = (if ca_state ca \<in> {IN_CALL, HOLD} then ca\<lparr> ca_state := TEAR_DOWN \<rparr> else ca)"

definition cs_cancel :: "call \<Rightarrow> call" where
  "cs_cancel ca =
    (if ca_state ca \<in> {TRYING, UAS_RINGING, UAC_RINGING} then ca\<lparr> ca_state := TEAR_DOWN \<rparr> else ca)"

definition canBye :: "call \<Rightarrow> bool" where
  "canBye ca \<longleftrightarrow> ca_state ca \<noteq> HOLD"

section \<open>Methods of the agent\<close>

datatype ca_op = Op_callback callback | Op_end | Op_endLoop | Op_busyLoop | Op_doBye | Op_sendBusy
  | Op_stopCall

type_synonym rec = "ca_op \<Rightarrow> call \<Rightarrow> (int \<times> call) run"

definition op_run :: "rec \<Rightarrow> ca_op \<Rightarrow> call \<Rightarrow> call run" where
  "op_run r op ca = rbind (r op ca) (\<lambda>(_, ca). ret ca)"

definition agent_of :: "rec \<Rightarrow> callback \<Rightarrow> call \<Rightarrow> call run" where
  "agent_of r cb = op_run r (Op_callback cb)"

definition freeMedia :: "call \<Rightarrow> call run" where
  "freeMedia ca =
    (if \<not> freedMedia ca then
       rbind (if ca_invokee ca
              then local_sdp ca (\<lambda>s. ret (post (FreeSession (sdp_session s)) ca)) else ret ca) (\<lambda>ca.
         ret ((post ReleaseDevice ca)\<lparr> freedMedia := True \<rparr>))
     else ret ca)"

text \<open>\<open>setDeleted\<close> dereferences \<open>myInvokee\<close>, which \<open>Sptr\<close> asserts to be set, and then clears it.\<close>

definition setDeleted :: "call \<Rightarrow> call run" where
  "setDeleted ca =
    rassert (ca_invokee ca) (ret ((post AgentRemoved ca)\<lparr> myActiveFlg := False, ca_invokee := False \<rparr>))"

definition startSession :: "call \<Rightarrow> call run" where
  "startSession ca =
    local_sdp ca (\<lambda>l. (case myRemoteSdpData ca of
        None \<Rightarrow> stop NullDeref
      | Some r \<Rightarrow> ret (post (StartSession (sdp_session l)) ca)))"

definition ca_inCall :: "call \<Rightarrow> call run" where
  "ca_inCall ca = startSession (cs_inCall ca)"

definition placeCall :: "facade \<Rightarrow> rec \<Rightarrow> call \<Rightarrow> call run" where
  "placeCall cfg r ca = with_invokee ca
    (let sipMsg = myRequestMsg ca in
     rbind (sendMsg cfg (agent_of r) sipMsg ca) (\<lambda>(_, ca). ret (post (PostSip sipMsg) ca)))"

definition sendCancel :: "facade \<Rightarrow> rec \<Rightarrow> call \<Rightarrow> (int \<times> call) run" where
  "sendCancel cfg r ca = with_invokee ca
    (rbind (CancelMsg (myRequestMsg ca)) (\<lambda>m.
     rbind (sendMsg cfg (agent_of r) m ca) (\<lambda>(rv, ca).
       ret ((case rv of Returned i \<Rightarrow> i | Thrown \<Rightarrow> -1), post (PostSip m) ca))))"

definition ca_doBye :: "facade \<Rightarrow> rec \<Rightarrow> call \<Rightarrow> call run" where
  "ca_doBye cfg r ca =
    (if \<not> canBye ca then op_run r (Op_callback endCall) ca
     else with_invokee ca
       (rbind (sendBye cfg ca) (\<lambda>(bMsg, ca).
          (case bMsg of
             Some m \<Rightarrow> op_run r (Op_callback endCall) (post (PostSip m) ca)
           | None \<Rightarrow> rbind (op_run r (Op_callback endCall) ca) (\<lambda>ca.
               ret (post (PostMsg ''L_HANGUP BYE'') ca))))))"

definition ca_endCall :: "rec \<Rightarrow> call \<Rightarrow> call run" where
  "ca_endCall r ca =
    (if \<not> myActiveFlg ca then ret ca
     else rbind (freeMedia ca) (\<lambda>ca.
          rbind (op_run r Op_endLoop (cs_bye ca)) (\<lambda>ca. ret (post CallEnded ca))))"

definition ca_doCancel :: "rec \<Rightarrow> call \<Rightarrow> call run" where
  "ca_doCancel r ca = rbind (freeMedia ca) (\<lambda>ca. op_run r Op_endLoop (cs_cancel ca))"

definition ca_callFailed :: "rec \<Rightarrow> call \<Rightarrow> call run" where
  "ca_callFailed r ca =
    rbind (op_run r Op_endLoop (cs_cancel ca)) (\<lambda>ca. ret (post (PostMsg ''L_HANGUP CALL_FAILED'') ca))"

definition ca_stopCall :: "rec \<Rightarrow> call \<Rightarrow> call run" where
  "ca_stopCall r ca = rbind (op_run r Op_endLoop ca) freeMedia"

text \<open>\<open>end\<close> of the control states, and the loops around it.\<close>

definition fail_to_tear_down :: "(int \<times> call) run \<Rightarrow> (int \<times> call) run" where
  "fail_to_tear_down m =
    rbind m (\<lambda>(rv, ca). ret (rv, if rv < 0 then ca\<lparr> ca_state := TEAR_DOWN \<rparr> else ca))"

definition cs_end :: "facade \<Rightarrow> rec \<Rightarrow> call \<Rightarrow> (int \<times> call) run" where
  "cs_end cfg r ca =
    (case ca_state ca of
       INIT \<Rightarrow> ret (0, ca)
     | TRYING \<Rightarrow> fail_to_tear_down (sendCancel cfg r ca)
     | UAC_RINGING \<Rightarrow> fail_to_tear_down (sendCancel cfg r ca)
     | UAS_RINGING \<Rightarrow> fail_to_tear_down (r Op_sendBusy ca)
     | IN_CALL \<Rightarrow> rbind (op_run r Op_doBye ca) (\<lambda>ca. ret (0, ca))
     | HOLD \<Rightarrow> rbind (op_run r Op_doBye ca) (\<lambda>ca. ret (0, ca))
     | TEAR_DOWN \<Rightarrow> rbind (setDeleted (ca\<lparr> ca_state := INIT \<rparr>)) (\<lambda>ca. ret (0, ca)))"

definition end_loop :: "rec \<Rightarrow> call \<Rightarrow> (int \<times> call) run" where
  "end_loop r ca =
    rbind (r Op_end ca) (\<lambda>(rv, ca). if rv < 0 then r Op_endLoop ca else ret (rv, ca))"

definition busy_loop :: "rec \<Rightarrow> call \<Rightarrow> (int \<times> call) run" where
  "busy_loop r ca =
    (if ca_state ca = UAS_RINGING then ret (-1, ca)
     else rbind (r Op_end ca) (\<lambda>(rv, ca). if rv \<ge> 0 then ret (rv, ca) else r Op_busyLoop ca))"

definition ca_sendBusy :: "facade \<Rightarrow> rec \<Rightarrow> call \<Rightarrow> (int \<times> call) run" where
  "ca_sendBusy cfg r ca = with_invokee ca
    (let (m, ca) = new_StatusMsg (myRequestMsg ca) 486 ca in
     rbind (sendMsg cfg (agent_of r) m ca) (\<lambda>(_, ca).
       r Op_busyLoop (cs_cancel (post (PostSip m) ca))))"

text \<open>Hold and resume.\<close>

definition own_contact :: "facade \<Rightarrow> media \<Rightarrow> base_url" where
  "own_contact cfg md =
    SIP_URL \<lparr> url_user = md_user md, url_host = cfg_localIp cfg, url_port = cfg_sipPort cfg,
      url_transport = [], url_maddr = [] \<rparr>"

definition doholdresume200OKstuff ::
  "facade \<Rightarrow> media \<Rightarrow> sdp \<Rightarrow> call \<Rightarrow> (sip_msg \<times> call) run" where
  "doholdresume200OKstuff cfg md remote ca =
    rassert (m_type (myRequestMsg ca) \<noteq> SIP_STATUS)
      (let (m, ca) = new_StatusMsg (myRequestMsg ca) 200 ca in
       local_sdp ca (\<lambda>l.
         ret (m\<lparr> m_contact := [own_contact cfg md],
                 m_content := Some (SdpContent (md_getSdp md (sdp_session l) remote)) \<rparr>, ca)))"

definition resume_session ::
  "media \<Rightarrow> rec \<Rightarrow> sdp \<Rightarrow> call \<Rightarrow> call run" where
  "resume_session md r remote ca =
    local_sdp ca (\<lambda>l.
      (let ca = post (ResumeSession (sdp_session l)) ca in
       if md_resumeSession md (sdp_session l) l remote < 0 then op_run r Op_stopCall ca
       else ret (cs_inCall (post (PostMsg ''INCALL_RESUME'') ca))))"

definition doResume :: "media \<Rightarrow> rec \<Rightarrow> sip_msg \<Rightarrow> call \<Rightarrow> call run" where
  "doResume md r msg ca = with_invokee ca
    (let ca = ca\<lparr> myRemoteSdpData := sdp_of msg \<rparr> in
     (case sdp_of msg of None \<Rightarrow> stop AssertFailed | Some remote \<Rightarrow> resume_session md r remote ca))"

definition ca_dohold :: "call \<Rightarrow> call run" where
  "ca_dohold ca = local_sdp ca (\<lambda>l. ret (cs_inHold (post (SuspendSession (sdp_session l)) ca)))"

text \<open>The common beginning of \<open>reqResume\<close> and \<open>holdAndResumeReinvite\<close>: answer the re-INVITE.\<close>

definition answer_reinvite ::
  "facade \<Rightarrow> media \<Rightarrow> rec \<Rightarrow> call \<Rightarrow> (sdp \<Rightarrow> sip_msg \<Rightarrow> call \<Rightarrow> call run) \<Rightarrow> call run" where
  "answer_reinvite cfg md r ca continue = with_invokee ca
    (rassert (m_type (myRequestMsg ca) \<noteq> SIP_STATUS)
      (case sdp_of (myRequestMsg ca) of
         None \<Rightarrow> stop AssertFailed
       | Some remote \<Rightarrow>
           rbind (doholdresume200OKstuff cfg md remote ca) (\<lambda>(m, ca).
           rbind (sendMsg cfg (agent_of r) m ca) (\<lambda>(rv, ca).
             (case rv of Thrown \<Rightarrow> ret ca | Returned _ \<Rightarrow> continue remote m ca)))))"

definition ca_reqResume :: "facade \<Rightarrow> media \<Rightarrow> rec \<Rightarrow> call \<Rightarrow> call run" where
  "ca_reqResume cfg md r ca =
    answer_reinvite cfg md r ca (\<lambda>remote m ca. resume_session md r remote ca)"

definition ca_holdAndResumeReinvite :: "facade \<Rightarrow> media \<Rightarrow> rec \<Rightarrow> call \<Rightarrow> call run" where
  "ca_holdAndResumeReinvite cfg md r ca =
    answer_reinvite cfg md r ca (\<lambda>remote m ca.
      local_sdp ca (\<lambda>l.
        (let ca = cs_inHold (post (PostSip m) (post (PostMsg ''R_HOLD'')
                    (post (SuspendSession (sdp_session l)) ca)))
         in resume_session md r remote (ca\<lparr> myRemoteSdpData := Some remote \<rparr>))))"

text \<open>\<open>recvReq\<close> and \<open>recvStatus\<close> of the control states.\<close>

text \<open>\<open>authenticateMessage\<close> of \<open>sip/gua/Authenticate.cxx\<close>.\<close>

definition authenticateMessage :: "media \<Rightarrow> sip_msg \<Rightarrow> sip_msg \<Rightarrow> sip_msg" where
  "authenticateMessage md status command =
    (if m_www_authenticate status \<noteq> [] then
       command\<lparr> m_authorization := md_credentials md (m_www_authenticate status) command \<rparr>
     else if m_proxy_authenticate status \<noteq> [] then
       command\<lparr> m_proxy_authorization := md_credentials md (m_proxy_authenticate status) command \<rparr>
     else command)"

definition doAuthentication :: "facade \<Rightarrow> media \<Rightarrow> rec \<Rightarrow> sip_msg \<Rightarrow> call \<Rightarrow> call run" where
  "doAuthentication cfg md r sMsg ca = with_invokee ca
    (let req = myRequestMsg ca;
         req = req\<lparr> m_cseq := incrCSeq (m_cseq req) \<rparr>
     in rassert (m_type req \<noteq> SIP_STATUS)
          (placeCall cfg r (ca\<lparr> myRequestMsg := authenticateMessage md sMsg req \<rparr>)))"

definition cs_recvReq :: "facade \<Rightarrow> media \<Rightarrow> rec \<Rightarrow> sip_msg \<Rightarrow> call \<Rightarrow> call run" where
  "cs_recvReq cfg md r msg ca =
    (if ca_state ca = UAS_RINGING \<and> m_type msg = SIP_BYE then op_run r (Op_callback doCancel) ca
     else if ca_state ca = HOLD \<and> m_type msg = SIP_INVITE then ca_reqResume cfg md r ca
     else ret ca)"

definition cs_recvStatus :: "facade \<Rightarrow> media \<Rightarrow> rec \<Rightarrow> sip_msg \<Rightarrow> call \<Rightarrow> call run" where
  "cs_recvStatus cfg md r msg ca =
    (let code = m_status msg in
     (case ca_state ca of
        TRYING \<Rightarrow>
          (if code = 200 then ca_inCall ca
           else if code = 401 \<or> code = 407 then doAuthentication cfg md r msg ca
           else if code = 302 \<and> cs_method (m_cseq msg) = SIP_INVITE then ret ca
           else if code > 200 then op_run r (Op_callback doCancel) ca
           else if code = 180 \<or> code = 183 then ret (cs_ringing ca)
           else ret ca)
      | UAC_RINGING \<Rightarrow>
          (if cs_method (m_cseq msg) = SIP_INVITE then
             (if code = 200 then ca_inCall ca
              else if code > 200 then op_run r (Op_callback doCancel) ca
              else ret ca)
           else ret ca)
      | HOLD \<Rightarrow>
          (if code = 200 \<and> cs_method (m_cseq msg) = SIP_INVITE then doResume md r msg ca
           else op_run r (Op_callback callFailed) ca)
      | _ \<Rightarrow> ret ca))"

text \<open>
  \<open>CallAgent::receivedStatus\<close>. The leg is a reference argument here, so that \<open>ackStatus\<close> does not
  depend on \<open>myInvokee\<close>; the redirection does.
\<close>

definition redirect_invite :: "sip_msg \<Rightarrow> call \<Rightarrow> call run" where
  "redirect_invite msg ca = with_invokee ca
    (case m_contact msg of
       [] \<Rightarrow> stop NullDeref
     | c # _ \<Rightarrow>
         if m_type (myRequestMsg ca) \<noteq> SIP_INVITE then stop NullDeref else
         (let cseq = incrCSeq (myLocalCSeq ca);
              m = (myRequestMsg ca)\<lparr> m_url := (case c of SIP_URL u \<Rightarrow> SIP_URL u | _ \<Rightarrow> NULL_URL),
                                     m_cseq := cseq \<rparr>
          in ret (sendAsync m (ca\<lparr> myRequestMsg := m, myLocalCSeq := cseq \<rparr>))))"

definition ca_receivedStatus :: "facade \<Rightarrow> media \<Rightarrow> rec \<Rightarrow> sip_msg \<Rightarrow> call \<Rightarrow> call run" where
  "ca_receivedStatus cfg md r msg ca =
    rbind (cs_recvStatus cfg md r msg ca) (\<lambda>ca.
    rassert (m_type msg = SIP_STATUS)
      (rbind (if m_status msg = 200 \<and> cs_method (m_cseq msg) = SIP_INVITE
              then ackStatus msg None ca else ret ca) (\<lambda>ca.
         if m_status msg = 302 then redirect_invite msg ca
         else if m_status msg = 480 then freeMedia ca
         else ret ca)))"

section \<open>The agent\<close>

definition agent_body :: "facade \<Rightarrow> media \<Rightarrow> rec \<Rightarrow> rec" where
  "agent_body cfg md r op ca =
    (case op of
       Op_callback cb \<Rightarrow>
         rbind (case cb of
                  receivedRequest msg \<Rightarrow> cs_recvReq cfg md r msg ca
                | receivedStatus msg \<Rightarrow> ca_receivedStatus cfg md r msg ca
                | doCancel \<Rightarrow> ca_doCancel r ca
                | endCall \<Rightarrow> ca_endCall r ca
                | callFailed \<Rightarrow> ca_callFailed r ca
                | inCall \<Rightarrow> ca_inCall ca
                | holdAndResumeReinvite msg \<Rightarrow> ca_holdAndResumeReinvite cfg md r ca
                | reqResume msg \<Rightarrow> ca_reqResume cfg md r ca
                | dohold \<Rightarrow> ca_dohold ca) (\<lambda>ca. ret (0, ca))
     | Op_end \<Rightarrow> cs_end cfg r ca
     | Op_endLoop \<Rightarrow> end_loop r ca
     | Op_busyLoop \<Rightarrow> busy_loop r ca
     | Op_doBye \<Rightarrow> rbind (ca_doBye cfg r ca) (\<lambda>ca. ret (0, ca))
     | Op_sendBusy \<Rightarrow> ca_sendBusy cfg r ca
     | Op_stopCall \<Rightarrow> rbind (ca_stopCall r ca) (\<lambda>ca. ret (0, ca)))"

primrec agent :: "nat \<Rightarrow> facade \<Rightarrow> media \<Rightarrow> rec" where
  "agent 0 cfg md = (\<lambda>op ca. None)"
| "agent (Suc n) cfg md = agent_body cfg md (agent n cfg md)"

definition acceptCall :: "facade \<Rightarrow> media \<Rightarrow> rec \<Rightarrow> call \<Rightarrow> call run" where
  "acceptCall cfg md r ca =
    (if myAgentRole ca \<noteq> A_SERVER then ret ca
     else with_invokee ca
       (rassert (m_type (myRequestMsg ca) \<noteq> SIP_STATUS)
         (let (m, ca) = new_StatusMsg (myRequestMsg ca) 200 ca in
          (case sdp_of (myRequestMsg ca) of
             None \<Rightarrow> ret ca
           | Some remote \<Rightarrow>
               (let m = m\<lparr> m_contact := [own_contact cfg md],
                           m_content := Some (SdpContent (md_createSession md remote)) \<rparr>
                in rbind (sendMsg cfg (agent_of r) m ca) (\<lambda>(rv, ca).
                     (case rv of Thrown \<Rightarrow> ret ca | Returned _ \<Rightarrow> ret (post (PostSip m) ca))))))))"

text \<open>
  The constructor of \<open>CallAgent\<close>: a client places the call, a server gives the INVITE to the leg and
  rings.
\<close>

definition leg_call :: "uabase \<Rightarrow> call" where
  "leg_call ua = uabase.extend ua
    \<lparr> ca_state = INIT, ca_invokee = True, myActiveFlg = True, freedMedia = False, ca_log = [] \<rparr>"

definition new_CallAgent ::
  "facade \<Rightarrow> rec \<Rightarrow> AgentRole \<Rightarrow> sip_msg \<Rightarrow> (nat \<Rightarrow> string) \<Rightarrow> call run" where
  "new_CallAgent cfg r aRole sipMsg rnd =
    (let ca = leg_call (new_UaBase aRole sipMsg True rnd) in
     (case aRole of
        A_CLIENT \<Rightarrow> placeCall cfg r (ca\<lparr> ca_state := TRYING \<rparr>)
      | A_SERVER \<Rightarrow> rbind (receivedMsg cfg (agent_of r) sipMsg ca) (\<lambda>ca. ret (cs_ringing ca))))"

section \<open>Inputs of a call\<close>

text \<open>
  What reaches a call from outside: a message that \<open>CallControl::processEvent\<close> finds the leg of, the
  180 that \<open>UaCallControl::processEvent\<close> sends for a new call, and the commands of the user. The call map
  and the call database lose the agent in \<open>setDeleted\<close>, after which nothing reaches it.
\<close>

datatype call_input = Received sip_msg | Ring | Accept | Stop | Purge | Hangup

definition call_depth :: nat where
  "call_depth = 13"

definition phone :: "facade \<Rightarrow> media \<Rightarrow> rec" where
  "phone cfg md = agent call_depth cfg md"

definition call_step :: "facade \<Rightarrow> media \<Rightarrow> call_input \<Rightarrow> call \<Rightarrow> call run" where
  "call_step cfg md i ca =
    (if \<not> myActiveFlg ca then ret ca
     else (case i of
         Received msg \<Rightarrow> receivedMsg cfg (agent_of (phone cfg md)) msg ca
       | Ring \<Rightarrow> with_invokee ca
           (let (m, ca) = new_StatusMsg (myRequestMsg ca) 180 ca
            in rbind (sendMsg cfg (agent_of (phone cfg md)) m ca) (\<lambda>(_, ca). ret ca))
       | Accept \<Rightarrow> acceptCall cfg md (phone cfg md) ca
       | Stop \<Rightarrow> op_run (phone cfg md) Op_stopCall ca
       | Purge \<Rightarrow> rbind (op_run (phone cfg md) Op_stopCall ca)
           (op_run (phone cfg md) (Op_callback endCall))
       | Hangup \<Rightarrow> op_run (phone cfg md) Op_doBye ca))"

end
