(* ===== verification/Ua_Invariant.thy ===== *)
theory Ua_Invariant
  imports Ua_Call
begin

text \<open>
  What holds of a call leg at all times, whatever messages it gets and whatever its controller
  does: the stored messages are of the right kind, a leg that is in a call has a final response
  stored, and client and server stay in their own states. The locale \<open>leg_controller\<close> is what the leg
  relies on in its controller; the second part shows that the call agent of the soft phone keeps
  it, and that an agent whose call has ended is always removed.
\<close>

section \<open>Conditions on the result of a computation\<close>

definition ensures :: "('a \<Rightarrow> bool) \<Rightarrow> 'a run \<Rightarrow> bool" where
  "ensures Q m \<longleftrightarrow> (\<forall>x. m = ret x \<longrightarrow> Q x)"

named_theorems ensures_intros \<open>conditions on results, by the structure of the computation\<close>

lemma ensures_simps [simp]:
  "ensures Q (ret x) \<longleftrightarrow> Q x" "ensures Q (stop e)" "ensures Q None"
  by (simp_all add: ensures_def)

lemma ensures_rbind: "ensures R m \<Longrightarrow> (\<And>x. R x \<Longrightarrow> ensures Q (f x)) \<Longrightarrow> ensures Q (rbind m f)"
  by (auto simp: ensures_def outcome_simps)

lemma ensures_rassert [ensures_intros]: "(b \<Longrightarrow> ensures Q m) \<Longrightarrow> ensures Q (rassert b m)"
  by (simp add: rassert_def)

lemma ensures_mono: "ensures R m \<Longrightarrow> (\<And>x. R x \<Longrightarrow> Q x) \<Longrightarrow> ensures Q m"
  by (simp add: ensures_def)

lemma ensuresD: "ensures Q m \<Longrightarrow> m = ret x \<Longrightarrow> Q x"
  by (simp add: ensures_def)

section \<open>The invariant of a leg\<close>

fun state_of_role :: "AgentRole \<Rightarrow> UStateType \<Rightarrow> bool" where
  "state_of_role A_SERVER s \<longleftrightarrow> s \<notin> {U_STATE_C_TRYING, U_STATE_REDIRECT}"
| "state_of_role A_CLIENT s \<longleftrightarrow> s \<noteq> U_STATE_S_TRYING"

definition leg_inv :: "'a uabase_scheme \<Rightarrow> bool" where
  "leg_inv ua \<longleftrightarrow>
    m_type (myRequestMsg ua) = SIP_INVITE
    \<and> (case myResponseMsg ua of None \<Rightarrow> True | Some m \<Rightarrow> m_type m = SIP_STATUS)
    \<and> (case myAckMsg ua of None \<Rightarrow> True | Some m \<Rightarrow> m_type m = SIP_ACK)
    \<and> (myState ua \<in> {U_STATE_INCALL, U_STATE_HOLD} \<longrightarrow> myResponseMsg ua \<noteq> None)
    \<and> state_of_role (myAgentRole ua) (myState ua)"

text \<open>
  \<open>evolves P b u ua\<close>: \<open>ua\<close> is a state that \<open>u\<close> may have become: the invariant and the condition \<open>P\<close> of the
  controller hold, the role is the same, and a response, once stored, stays (with \<open>b\<close>, one is
  stored).
\<close>

definition evolves ::
  "('a uabase_scheme \<Rightarrow> bool) \<Rightarrow> bool \<Rightarrow> 'a uabase_scheme \<Rightarrow> 'a uabase_scheme \<Rightarrow> bool" where
  "evolves P b u ua \<longleftrightarrow>
    leg_inv ua \<and> P ua \<and> myAgentRole ua = myAgentRole u
    \<and> (myResponseMsg u \<noteq> None \<or> b \<longrightarrow> myResponseMsg ua \<noteq> None)"

lemma evolves_refl: "leg_inv ua \<Longrightarrow> P ua \<Longrightarrow> (b \<Longrightarrow> myResponseMsg ua \<noteq> None) \<Longrightarrow> evolves P b ua ua"
  by (simp add: evolves_def)

lemma evolves_trans: "evolves P b u ua \<Longrightarrow> evolves P c ua ua' \<Longrightarrow> evolves P (b \<or> c) u ua'"
  by (auto simp: evolves_def)

lemma evolves_weaken: "evolves P b u ua \<Longrightarrow> (c \<Longrightarrow> b) \<Longrightarrow> evolves P c u ua"
  by (auto simp: evolves_def)

locale leg_controller =
  fixes ba :: "'a controller" and P :: "'a uabase_scheme \<Rightarrow> bool"
  assumes callback_evolves:
      "leg_inv ua \<Longrightarrow> P ua \<Longrightarrow> ba cb ua = ret ua' \<Longrightarrow> evolves P False ua ua'"
    and own_part: "uabase.more ua = uabase.more ua' \<Longrightarrow> P ua \<longleftrightarrow> P ua'"
begin

lemma ba_ensures:
  assumes "evolves P b u ua"
  shows "ensures (evolves P b u) (ba cb ua)"
proof -
  have "evolves P b u ua'" if "ba cb ua = ret ua'" for ua'
    using evolves_trans [OF assms callback_evolves [OF _ _ that]] assms
    by (auto simp: evolves_def)
  then show ?thesis
    by (simp add: ensures_def)
qed

lemma notify_ensures:
  "evolves P b u ua \<Longrightarrow> ensures (evolves P b u) (notify ba cb ua)"
  by (simp add: notify_def ba_ensures)

text \<open>Changes of the leg that do not touch what the invariant is about.\<close>

lemma quiet_update:
  assumes "evolves P b u ua" and "uabase.more ua' = uabase.more ua"
    and "myAgentRole ua' = myAgentRole ua" "myState ua' = myState ua" "myAckMsg ua' = myAckMsg ua"
      "myResponseMsg ua' = myResponseMsg ua" "m_type (myRequestMsg ua') = m_type (myRequestMsg ua)"
  shows "evolves P b u ua'"
  using assms own_part [OF assms(2)] by (auto simp: evolves_def leg_inv_def)

lemma setResponse_ensures:
  assumes "evolves P b u ua"
  shows "ensures (evolves P True u) (setResponse m ua)"
proof -
  have "P (ua\<lparr> myResponseMsg := Some m \<rparr>) = P ua"
    by (rule own_part) simp
  with assms show ?thesis
    by (auto simp: setResponse_def evolves_def leg_inv_def intro!: ensures_intros)
qed

lemma changeState_ensures:
  assumes "evolves P b u ua"
    and "s \<in> {U_STATE_INCALL, U_STATE_HOLD} \<Longrightarrow> b \<or> myResponseMsg u \<noteq> None"
    and "state_of_role (myAgentRole u) s"
  shows "ensures (evolves P b u) (changeState s ua)"
proof -
  have "P (ua\<lparr> myState := s \<rparr>) = P ua"
    by (rule own_part) simp
  with assms show ?thesis
    by (auto simp: changeState_def evolves_def leg_inv_def split: option.splits)
qed

lemma sendReply_evolves: "evolves P b u ua \<Longrightarrow> evolves P b u (sendReply m ua)"
  by (rule quiet_update) (simp_all add: sendReply_def)

lemma sendAsync_evolves: "evolves P b u ua \<Longrightarrow> evolves P b u (sendAsync m ua)"
  by (rule quiet_update) (simp_all add: sendAsync_def)

lemma new_StatusMsg_evolves:
  "evolves P b u ua \<Longrightarrow> new_StatusMsg m code ua = (m', ua') \<Longrightarrow> evolves P b u ua'"
  by (erule quiet_update) (auto simp: new_StatusMsg_def)

lemma sendReplyForRequest_ensures:
  assumes "evolves P b u ua"
  shows "ensures (evolves P (b \<or> memo) u) (sendReplyForRequest m code c memo ua)"
proof (cases "new_StatusMsg m code ua")
  case (Pair m' ua')
  have "ensures (evolves P True u) (setResponse m (sendReply k ua'))" for m k
    by (rule setResponse_ensures) (rule sendReply_evolves [OF new_StatusMsg_evolves [OF assms Pair]])
  moreover have "evolves P b u (sendReply k ua')" for k
    by (rule sendReply_evolves [OF new_StatusMsg_evolves [OF assms Pair]])
  ultimately show ?thesis
    using Pair by (auto simp: sendReplyForRequest_def Let_def intro!: ensures_intros)
qed

end

section \<open>Every handler keeps the invariant\<close>

lemma saveRouteList_result: "saveRouteList m r ua = ret ua' \<Longrightarrow> \<exists>rs. ua' = ua\<lparr> myRouteList := rs \<rparr>"
  by (auto simp: saveRouteList_def outcome_simps)

lemma ackStatus_result: "ackStatus m s ua = ret ua' \<Longrightarrow> ua' = ua \<or> (\<exists>k. ua' = sendAsync k ua)"
  by (auto simp: ackStatus_def outcome_simps Let_def split: if_splits)

lemma fixSdpForNat_type: "fixSdpForNat cfg m ip = ret m' \<Longrightarrow> m_type m' = m_type m"
  by (auto simp: fixSdpForNat_def Let_def set_connection_def
      split: if_splits base_url.splits option.splits content.splits)

lemma contact_reply_result:
  "contact_reply cfg h code b ua = ret (m, ua') \<Longrightarrow>
    \<exists>k. new_StatusMsg (myRequestMsg ua) code ua = (k, ua') \<and> m_type m = SIP_STATUS"
  by (auto simp: contact_reply_def outcome_simps new_StatusMsg_def split: base_url.splits)

context leg_controller
begin

definition sends :: "'a uabase_scheme \<Rightarrow> send_result \<times> 'a uabase_scheme \<Rightarrow> bool" where
  "sends u p \<longleftrightarrow> evolves P False u (snd p)"

lemma rbind_notify [ensures_intros]:
  "evolves P b u ua \<Longrightarrow> (\<And>ua'. evolves P b u ua' \<Longrightarrow> ensures Q (f ua')) \<Longrightarrow>
    ensures Q (rbind (notify ba cb ua) f)"
  by (rule ensures_rbind [OF notify_ensures])

lemma rbind_ba [ensures_intros]:
  "evolves P b u ua \<Longrightarrow> (\<And>ua'. evolves P b u ua' \<Longrightarrow> ensures Q (f ua')) \<Longrightarrow>
    ensures Q (rbind (ba cb ua) f)"
  by (rule ensures_rbind [OF ba_ensures])

lemma rbind_setResponse [ensures_intros]:
  "evolves P b u ua \<Longrightarrow> (\<And>ua'. evolves P True u ua' \<Longrightarrow> ensures Q (f ua')) \<Longrightarrow>
    ensures Q (rbind (setResponse m ua) f)"
  by (rule ensures_rbind [OF setResponse_ensures])

lemma rbind_reply [ensures_intros]:
  "evolves P b u ua \<Longrightarrow> (\<And>ua'. evolves P (b \<or> memo) u ua' \<Longrightarrow> ensures Q (f ua')) \<Longrightarrow>
    ensures Q (rbind (sendReplyForRequest m code c memo ua) f)"
  by (rule ensures_rbind [OF sendReplyForRequest_ensures])

lemma rbind_changeState [ensures_intros]:
  "evolves P b u ua \<Longrightarrow> (s \<in> {U_STATE_INCALL, U_STATE_HOLD} \<Longrightarrow> b \<or> myResponseMsg u \<noteq> None) \<Longrightarrow>
    state_of_role (myAgentRole u) s \<Longrightarrow> (\<And>ua'. evolves P b u ua' \<Longrightarrow> ensures Q (f ua')) \<Longrightarrow>
    ensures Q (rbind (changeState s ua) f)"
  by (rule ensures_rbind [OF changeState_ensures])

lemma rbind_saveRouteList [ensures_intros]:
  assumes "evolves P b u ua" and "\<And>ua'. evolves P b u ua' \<Longrightarrow> ensures Q (f ua')"
  shows "ensures Q (rbind (saveRouteList m r ua) f)"
proof (rule ensures_rbind)
  have "evolves P b u ua'" if "saveRouteList m r ua = ret ua'" for ua'
    using saveRouteList_result [OF that] assms(1) by (auto intro: quiet_update)
  then show "ensures (evolves P b u) (saveRouteList m r ua)"
    by (simp add: ensures_def)
qed (rule assms(2))

lemma rbind_send_ack [ensures_intros]:
  "evolves P b u ua \<Longrightarrow> (\<And>ua'. evolves P b u ua' \<Longrightarrow> ensures Q (f ua')) \<Longrightarrow>
    ensures Q (rbind (send_ack cfg m ua) f)"
  by (auto simp: send_ack_def rassert_def sendAsync_evolves)

lemma rbind_fixSdpForNat [ensures_intros]:
  "(\<And>m'. m_type m' = m_type m \<Longrightarrow> ensures Q (f m')) \<Longrightarrow> ensures Q (rbind (fixSdpForNat cfg m ip) f)"
  by (auto simp: ensures_def outcome_simps dest: fixSdpForNat_type)

lemma rbind_contact_reply [ensures_intros]:
  assumes "evolves P b u ua" and "\<And>m ua'. evolves P b u ua' \<Longrightarrow> ensures Q (f (m, ua'))"
  shows "ensures Q (rbind (contact_reply cfg h code body ua) f)"
proof (rule ensures_rbind)
  show "ensures (\<lambda>(m, ua'). evolves P b u ua') (contact_reply cfg h code body ua)"
    using new_StatusMsg_evolves [OF assms(1)]
    by (auto simp: ensures_def dest!: contact_reply_result)
qed (use assms(2) in auto)

lemma rbind_if [ensures_intros]:
  "(b \<Longrightarrow> ensures Q (rbind m f)) \<Longrightarrow> (\<not> b \<Longrightarrow> ensures Q (rbind m' f)) \<Longrightarrow>
    ensures Q (rbind (if b then m else m') f)"
  by simp

lemma rbind_rassert [ensures_intros]:
  "(b \<Longrightarrow> ensures Q (rbind m f)) \<Longrightarrow> ensures Q (rbind (rassert b m) f)"
  by (simp add: rassert_def)

lemma rbind_rbind [ensures_intros]:
  "ensures Q (rbind m (\<lambda>x. rbind (f x) g)) \<Longrightarrow> ensures Q (rbind (rbind m f) g)"
  by (simp add: rbind_assoc)

lemma final_evolves [ensures_intros]:
  "evolves P b u ua \<Longrightarrow> ensures (evolves P False u) (notify ba cb ua)"
  "evolves P b u ua \<Longrightarrow> ensures (evolves P False u) (ba cb ua)"
  "evolves P b u ua \<Longrightarrow> ensures (evolves P False u) (sendReplyForRequest m code c memo ua)"
  "evolves P b u ua \<Longrightarrow> (s \<in> {U_STATE_INCALL, U_STATE_HOLD} \<Longrightarrow> b \<or> myResponseMsg u \<noteq> None) \<Longrightarrow>
    state_of_role (myAgentRole u) s \<Longrightarrow> ensures (evolves P False u) (changeState s ua)"
  by (blast intro: ensures_mono [OF notify_ensures] ensures_mono [OF ba_ensures]
      ensures_mono [OF sendReplyForRequest_ensures] ensures_mono [OF changeState_ensures]
      evolves_weaken)+

lemma final_sends [ensures_intros]:
  "evolves P b u ua \<Longrightarrow> ensures (sends u) (returning rv ua)"
  "evolves P b u ua \<Longrightarrow> (s \<in> {U_STATE_INCALL, U_STATE_HOLD} \<Longrightarrow> b \<or> myResponseMsg u \<noteq> None) \<Longrightarrow>
    state_of_role (myAgentRole u) s \<Longrightarrow> ensures (sends u) (change_and_return s ua)"
  by (auto simp: returning_def change_and_return_def sends_def intro: evolves_weaken
      intro!: rbind_changeState)

text \<open>Assignments to the fields that the invariant does not mention.\<close>

lemma field_evolves [ensures_intros]:
  "evolves P b u ua \<Longrightarrow> evolves P b u (sendReply m ua)"
  "evolves P b u ua \<Longrightarrow> evolves P b u (sendAsync m ua)"
  "evolves P b u ua \<Longrightarrow> evolves P b u (sendAsyncTo m h p ua)"
  "evolves P b u ua \<Longrightarrow> evolves P b u (ua\<lparr> myCallLegState := s \<rparr>)"
  "evolves P b u ua \<Longrightarrow> evolves P b u (ua\<lparr> myRemoteSdpData := d \<rparr>)"
  "evolves P b u ua \<Longrightarrow> evolves P b u (ua\<lparr> myRemoteSdpData := d, myLocalCSeq := c \<rparr>)"
  "evolves P b u ua \<Longrightarrow> evolves P b u (ua\<lparr> myLocalCSeq := c \<rparr>)"
  "evolves P b u ua \<Longrightarrow> evolves P b u (set_local_sdp m ua)"
  by (erule quiet_update;
      simp add: sendReply_def sendAsync_def sendAsyncTo_def set_local_sdp_def split: option.splits)+

lemma Idle_recvRequest_keeps:
  "evolves P False ua ua \<Longrightarrow> ensures (evolves P False ua) (Idle_recvRequest m ua)"
  by (auto simp: Idle_recvRequest_def isAServer_def intro!: ensures_intros split: option.splits)

lemma STrying_recvRequest_keeps:
  "evolves P False ua ua \<Longrightarrow> myAgentRole ua = A_SERVER \<Longrightarrow>
    ensures (evolves P False ua) (STrying_recvRequest ba m ua)"
  by (auto simp: STrying_recvRequest_def intro!: ensures_intros)

lemma CTrying_recvStatus_keeps:
  "evolves P False ua ua \<Longrightarrow> myAgentRole ua = A_CLIENT \<Longrightarrow>
    ensures (evolves P False ua) (CTrying_recvStatus cfg ba m ua)"
  by (auto simp: CTrying_recvStatus_def Let_def intro!: ensures_intros)

lemma state_of_any_role [simp]:
  "s \<in> {U_STATE_IDLE, U_STATE_RINGING, U_STATE_FAILURE, U_STATE_INCALL, U_STATE_END, U_STATE_HOLD} \<Longrightarrow>
    state_of_role r s"
  by (cases r) auto

lemma Ringing_keeps:
  "evolves P False ua ua \<Longrightarrow> ensures (evolves P False ua) (Ringing_recvStatus cfg ba m ua)"
  "evolves P False ua ua \<Longrightarrow> ensures (evolves P False ua) (Ringing_recvRequest ba m ua)"
  by (auto simp: Ringing_recvStatus_def Ringing_recvRequest_def Let_def intro!: ensures_intros)

lemma Failure_keeps:
  "evolves P False ua ua \<Longrightarrow> ensures (evolves P False ua) (Failure_recvStatus ba m ua)"
  "evolves P False ua ua \<Longrightarrow> ensures (evolves P False ua) (Failure_recvRequest ba m ua)"
  by (auto simp: Failure_recvStatus_def Failure_recvRequest_def Let_def intro!: ensures_intros)

lemma Redirect_keeps:
  "evolves P False ua ua \<Longrightarrow> myAgentRole ua = A_CLIENT \<Longrightarrow>
    ensures (evolves P False ua) (Redirect_recvStatus cfg ba m ua)"
  by (auto simp: Redirect_recvStatus_def Let_def intro!: ensures_intros)

end

context leg_controller
begin

lemma rbind_setRequest [ensures_intros]:
  assumes "evolves P b u ua" and "\<And>ua'. evolves P b u ua' \<Longrightarrow> ensures Q (f ua')"
  shows "ensures Q (rbind (setRequest m ua) f)"
proof -
  have "evolves P b u (ua\<lparr> myRequestMsg := m \<rparr>)" if "m_type m = SIP_INVITE"
    using assms(1) that own_part [of "ua\<lparr> myRequestMsg := m \<rparr>" ua]
    by (auto simp: evolves_def leg_inv_def)
  with assms(2) show ?thesis
    by (auto simp: setRequest_def rassert_def)
qed

lemma rbind_setAck [ensures_intros]:
  assumes "evolves P b u ua" and "\<And>ua'. evolves P b u ua' \<Longrightarrow> ensures Q (f ua')"
  shows "ensures Q (rbind (setAck m ua) f)"
proof -
  have "evolves P b u (ua\<lparr> myAckMsg := Some m \<rparr>)" if "m_type m = SIP_ACK"
    using assms(1) that own_part [of "ua\<lparr> myAckMsg := Some m \<rparr>" ua]
    by (auto simp: evolves_def leg_inv_def)
  with assms(2) show ?thesis
    by (auto simp: setAck_def rassert_def)
qed

lemma rbind_sync_cseq [ensures_intros]:
  assumes "evolves P b u ua" and "\<And>ua'. evolves P b u ua' \<Longrightarrow> ensures Q (f ua')"
  shows "ensures Q (rbind (sync_cseq c ua) f)"
proof (cases "myResponseMsg ua")
  case (Some r)
  have "evolves P b u (ua\<lparr> myResponseMsg := Some (r\<lparr> m_cseq := c \<rparr>) \<rparr>)"
    using assms(1) Some own_part [of "ua\<lparr> myResponseMsg := Some (r\<lparr> m_cseq := c \<rparr>) \<rparr>" ua]
    by (auto simp: evolves_def leg_inv_def)
  with Some assms(2) show ?thesis
    by (simp add: sync_cseq_def)
qed (simp add: sync_cseq_def)

lemma peer_keeps [ensures_intros]:
  "evolves P b u ua \<Longrightarrow> ensures (evolves P False u) (peer_bye ba m ua)"
  "evolves P b u ua \<Longrightarrow> ensures (evolves P False u) (peer_cancel ba m ua)"
  by (auto simp: peer_bye_def peer_cancel_def intro!: ensures_intros)

lemma InCall_keeps:
  assumes "evolves P False ua ua" and "myResponseMsg ua \<noteq> None"
  shows "ensures (evolves P False ua) (InCall_recvRequest ba m ua)"
    and "ensures (evolves P False ua) (InCall_recvStatus cfg ba m ua)"
  using assms new_StatusMsg_evolves [OF assms(1)]
  by (auto simp: InCall_recvRequest_def InCall_recvStatus_def
      intro!: ensures_intros split: sip_method.splits prod.splits)

lemma InHold_keeps:
  assumes "evolves P False ua ua" and "myResponseMsg ua \<noteq> None"
  shows "ensures (evolves P False ua) (InHold_recvRequest ba m ua)"
    and "ensures (evolves P False ua) (InHold_recvStatus cfg ba m ua)"
  using assms
  by (auto simp: InHold_recvRequest_def InHold_recvStatus_def Let_def
      intro!: ensures_intros split: sip_method.splits)

lemma receivedMsg_keeps:
  assumes "leg_inv ua" and "P ua"
  shows "ensures (evolves P False ua) (receivedMsg cfg ba m ua)"
proof -
  have start: "evolves P False ua ua"
    using assms by (simp add: evolves_refl)
  have inv: "state_of_role (myAgentRole ua) (myState ua)"
    "myState ua \<in> {U_STATE_INCALL, U_STATE_HOLD} \<Longrightarrow> myResponseMsg ua \<noteq> None"
    using assms by (auto simp: leg_inv_def)
  have role: "myState ua = U_STATE_S_TRYING \<Longrightarrow> myAgentRole ua = A_SERVER"
    "myState ua \<in> {U_STATE_C_TRYING, U_STATE_REDIRECT} \<Longrightarrow> myAgentRole ua = A_CLIENT"
    using inv(1) by (cases "myAgentRole ua"; auto)+
  note keeps = Idle_recvRequest_keeps STrying_recvRequest_keeps CTrying_recvStatus_keeps Ringing_keeps
    Failure_keeps Redirect_keeps InCall_keeps InHold_keeps
  show ?thesis
    using start role inv(2) unfolding receivedMsg_def recvStatus_def recvRequest_def
    by (auto simp: CTrying_recvRequest_def End_recvStatus_def
        intro!: keeps ensures_intros split: UStateType.splits)
qed

text \<open>The sending side.\<close>

lemma sendBye_evolves:
  assumes "evolves P b u ua" and "sendBye cfg ua = ret (m, ua')"
  shows "evolves P b u ua'"
  using assms
  by (auto simp: sendBye_def Let_def intro!: ensures_intros split: AgentRole.splits option.splits)

lemma createReInvite_evolves:
  assumes "evolves P b u ua" and "createReInvite cfg m ua = ret (m', ua')"
  shows "evolves P b u ua'"
  using assms
  by (cases "myRouteList ua") (auto simp: createReInvite_def Let_def outcome_simps intro!: ensures_intros)

lemma send_cancel_sends [ensures_intros]:
  "evolves P b u ua \<Longrightarrow> state_of_role (myAgentRole u) s \<Longrightarrow> s \<notin> {U_STATE_INCALL, U_STATE_HOLD} \<Longrightarrow>
    ensures (sends u) (send_cancel s ua)"
  by (auto simp: send_cancel_def CancelMsg_def intro!: ensures_intros split: list.splits)

lemma send_bye_sends [ensures_intros]:
  assumes "evolves P b u ua"
  shows "ensures (sends u) (rbind (sendBye cfg ua) (\<lambda>(_, ua). change_and_return U_STATE_END ua))"
proof (rule ensures_rbind)
  show "ensures (\<lambda>(_, ua'). evolves P b u ua') (sendBye cfg ua)"
    using sendBye_evolves [OF assms] by (auto simp: ensures_def)
qed (auto intro!: ensures_intros)

lemma send_reinvite_sends [ensures_intros]:
  assumes "evolves P b u ua" and "s \<in> {U_STATE_INCALL, U_STATE_HOLD}" and "myResponseMsg u \<noteq> None"
  shows "ensures (sends u) (send_reinvite cfg s m ua)"
  unfolding send_reinvite_def
proof (rule ensures_rbind)
  show "ensures (\<lambda>(_, ua'). evolves P b u ua') (createReInvite cfg m ua)"
    using createReInvite_evolves [OF assms(1)] by (auto simp: ensures_def)
next
  fix x :: "sip_msg \<times> 'a uabase_scheme"
  assume "case x of (_, ua') \<Rightarrow> evolves P b u ua'"
  with assms(2,3) show "ensures (sends u) (case x of (im, ua) \<Rightarrow>
      let im = im\<lparr> m_callid := m_callid (myRequestMsg ua) \<rparr>
      in case myResponseMsg ua of None \<Rightarrow> stop NullDeref
         | Some response \<Rightarrow> change_and_return s (sendAsync (reinvite_tags response im) ua))"
    by (cases x) (auto simp: Let_def intro!: ensures_intros split: option.splits)
qed

lemma rbind_ackStatus [ensures_intros]:
  assumes "evolves P b u ua" and "\<And>ua'. evolves P b u ua' \<Longrightarrow> ensures Q (f ua')"
  shows "ensures Q (rbind (ackStatus m s ua) f)"
proof (rule ensures_rbind)
  show "ensures (evolves P b u) (ackStatus m s ua)"
    using assms(1) sendAsync_evolves [OF assms(1)] by (auto simp: ensures_def dest!: ackStatus_result)
qed (rule assms(2))

lemma early_sendRequest_keeps:
  assumes "evolves P False ua ua"
  shows "ensures (sends ua) (Idle_sendRequest cfg m ua)"
    and "ensures (sends ua) (CTrying_sendRequest m ua)"
    and "ensures (sends ua) (Ringing_sendRequest m ua)"
  using assms
  by (auto simp: Idle_sendRequest_def CTrying_sendRequest_def Ringing_sendRequest_def isAClient_def
      intro!: ensures_intros)

lemma InCall_sendRequest_keeps:
  assumes "evolves P False ua ua" and "myResponseMsg ua \<noteq> None"
  shows "ensures (sends ua) (InCall_sendRequest cfg m ua)"
  using assms
  by (cases "m_type m") (auto simp: InCall_sendRequest_def intro!: ensures_intros split: option.splits)

lemma InHold_sendRequest_keeps:
  assumes "evolves P False ua ua" and "myResponseMsg ua \<noteq> None"
  shows "ensures (sends ua) (InHold_sendRequest cfg m ua)"
  using assms
  by (cases "m_type m") (auto simp: InHold_sendRequest_def intro!: ensures_intros split: option.splits)

lemma sendRequest_keeps:
  assumes "leg_inv ua" and "P ua"
  shows "ensures (sends ua) (sendRequest cfg m ua)"
proof -
  have start: "evolves P False ua ua"
    using assms by (simp add: evolves_refl)
  have resp: "myState ua \<in> {U_STATE_INCALL, U_STATE_HOLD} \<Longrightarrow> myResponseMsg ua \<noteq> None"
    using assms by (auto simp: leg_inv_def)
  show ?thesis
    using start early_sendRequest_keeps [OF start] InCall_sendRequest_keeps [OF start]
      InHold_sendRequest_keeps [OF start] resp
    by (cases "myState ua") (simp_all add: sendRequest_def final_sends(1))
qed

lemma STrying_sendStatus_keeps:
  assumes "evolves P False ua ua"
  shows "ensures (sends ua) (STrying_sendStatus cfg ba m ua)"
proof (cases "new_StatusMsg (myRequestMsg ua) (m_status m) ua")
  case (Pair k ua')
  show ?thesis
    using assms new_StatusMsg_evolves [OF assms Pair] Pair
    by (auto simp: STrying_sendStatus_def Let_def intro!: ensures_intros)
qed

lemma Ringing_sendStatus_keeps:
  assumes "evolves P False ua ua"
  shows "ensures (sends ua) (Ringing_sendStatus cfg ba m ua)"
proof (cases "new_StatusMsg (myRequestMsg ua) (m_status m) ua")
  case (Pair k ua')
  have "ensures (sends ua) (rbind (changeState U_STATE_IDLE (set_local_sdp m ua'))
      (\<lambda>ua. ret (Thrown, ua)))"
    using new_StatusMsg_evolves [OF assms Pair] by (auto simp: sends_def intro!: ensures_intros)
  with assms Pair show ?thesis
    by (auto simp: Ringing_sendStatus_def Let_def intro!: ensures_intros split: base_url.splits)
qed

lemma established_sendStatus_keeps [ensures_intros]:
  "evolves P False ua ua \<Longrightarrow> ensures (sends ua) (established_sendStatus cfg h m ua)"
  by (auto simp: established_sendStatus_def intro!: ensures_intros)

lemma sendMsg_keeps:
  assumes "leg_inv ua" and "P ua"
  shows "ensures (sends ua) (sendMsg cfg ba m ua)"
proof -
  have start: "evolves P False ua ua"
    using assms by (simp add: evolves_refl)
  show ?thesis
    using start sendRequest_keeps [OF assms] STrying_sendStatus_keeps [OF start]
      Ringing_sendStatus_keeps [OF start]
    by (auto simp: sendMsg_def sendStatus_def InCall_sendStatus_def InHold_sendStatus_def
        intro!: ensures_intros split: UStateType.splits)
qed

end

end
