(* ===== verification/Ua_Returns.thy ===== *)
theory Ua_Returns
  imports Ua_Call
begin

text \<open>
  The methods of the call agent end. The control states must lead, in the words of a comment in
  \<open>CallAgent.cxx\<close>, \<open>eventually\<close> to a state in which \<open>end\<close> cannot fail: the lemmas follow the loops and
  the calls between agent and leg from \<open>StateTearDown\<close> upwards and count how deep they go.
\<close>

lemma agent_unfold: "0 < n \<Longrightarrow> agent n cfg md op ca = agent_body cfg md (agent (n - 1) cfg md) op ca"
  by (cases n) simp_all

section \<open>The leg\<close>

lemma setResponse_returns [simp]: "returns (setResponse m ua)"
  by (simp add: setResponse_def )

lemma CancelMsg_returns [simp]: "returns (CancelMsg m)"
  by (simp add: CancelMsg_def split: list.splits)

lemma sendReplyForRequest_returns [simp]: "returns (sendReplyForRequest m code c b ua)"
  by (simp add: sendReplyForRequest_def  new_StatusMsg_def Let_def)

lemma contact_reply_returns [simp]: "returns (contact_reply cfg h code b ua)"
  by (simp add: contact_reply_def  new_StatusMsg_def Let_def split: base_url.splits)

lemma send_ends_returns [simp]:
  "returns (changeState s ua)" "returns (returning rv ua)" "returns (change_and_return s ua)"
  by (simp_all add: changeState_def returning_def change_and_return_def)

lemma send_cancel_returns [simp]: "returns (send_cancel s ua)"
  by (simp add: send_cancel_def )

lemma createInvite_returns [simp]: "returns (createInvite cfg m)"
  by (simp add: createInvite_def split: base_url.splits)

lemma createReInvite_returns [simp]: "returns (createReInvite cfg m ua)"
  by (simp add: createReInvite_def  split: list.splits)

lemma send_reinvite_returns [simp]: "returns (send_reinvite cfg s m ua)"
  by (auto simp: send_reinvite_def  Let_def split: option.splits)

lemma sendBye_returns [simp]: "returns (sendBye cfg ua)"
  by (simp add: sendBye_def Let_def split: AgentRole.splits option.splits)

lemma ackStatus_returns [simp]: "returns (ackStatus m s ua)"
  by (simp add: ackStatus_def  Let_def)

lemma sendRequest_returns [simp]: "returns (sendRequest cfg m ua)"
  by (auto simp: sendRequest_def Idle_sendRequest_def CTrying_sendRequest_def Ringing_sendRequest_def
      InCall_sendRequest_def InHold_sendRequest_def 
      split: UStateType.splits sip_method.splits option.splits)

lemma notify_returns: "returns (ba cb ua) \<Longrightarrow> returns (notify ba cb ua)"
  by (simp add: notify_def)

lemma established_sendStatus_returns [simp]: "returns (established_sendStatus cfg h m ua)"
  by (auto simp: established_sendStatus_def )

text \<open>Sending a response calls the controller back in at most one way, by its code.\<close>

lemma sendStatus_returns:
  assumes "\<And>ua. m_status m = 200 \<Longrightarrow> returns (ba inCall ua)"
    and "\<And>ua. m_status m = 486 \<Longrightarrow> returns (ba callFailed ua)"
    and "m_status m = 200 \<or> m_status m = 486"
  shows "returns (sendStatus cfg ba m ua)"
  using assms
  by (auto simp: sendStatus_def STrying_sendStatus_def Ringing_sendStatus_def InCall_sendStatus_def
      InHold_sendStatus_def   Let_def notify_returns
      split: UStateType.splits base_url.splits prod.splits)

section \<open>The agent\<close>

lemma new_StatusMsg_keeps [simp]:
  "ca_state (snd (new_StatusMsg m code ca)) = ca_state ca"
  "ca_invokee (snd (new_StatusMsg m code ca)) = ca_invokee ca"
  by (simp_all add: new_StatusMsg_def)

lemma local_sdp_returns: "(\<And>s. returns (f s)) \<Longrightarrow> returns (local_sdp ca f)"
  by (simp add: local_sdp_def with_invokee_def split: option.splits)

lemma freeMedia_returns [simp]: "returns (freeMedia ca)"
  by (simp add: freeMedia_def  local_sdp_returns)

lemma freeMedia_keeps: "freeMedia ca = ret ca' \<Longrightarrow> ca_state ca' = ca_state ca"
  by (auto simp: freeMedia_def local_sdp_def with_invokee_def post_def outcome_simps
      split: if_splits option.splits)

lemma sendBye_keeps: "sendBye cfg ca = ret (m, ca') \<Longrightarrow> ca_state ca' = ca_state ca"
  by (auto simp: sendBye_def Let_def sendAsync_def split: AgentRole.splits option.splits)

lemma ca_inCall_returns [simp]: "returns (ca_inCall ca)"
  by (simp add: ca_inCall_def startSession_def local_sdp_def with_invokee_def split: option.splits)

lemma op_run_returns: "returns (op_run r op ca) \<longleftrightarrow> returns (r op ca)"
  by (auto simp: op_run_def )

lemma sendCancel_returns [simp]: "returns (sendCancel cfg r ca)"
  by (auto simp: sendCancel_def with_invokee_def  sendMsg_def CancelMsg_def
      split: list.splits)

lemma fail_to_tear_down_returns [simp]: "returns (fail_to_tear_down m) \<longleftrightarrow> returns m"
  by (auto simp: fail_to_tear_down_def )

lemma fail_to_tear_down_state:
  "fail_to_tear_down m = ret (rv, ca') \<Longrightarrow> rv < 0 \<Longrightarrow> ca_state ca' = TEAR_DOWN"
  by (auto simp: fail_to_tear_down_def outcome_simps split: if_splits)

text \<open>An \<open>end\<close> that fails leaves \<open>StateTearDown\<close> behind.\<close>

lemma cs_end_failed: "cs_end cfg r ca = ret (rv, ca') \<Longrightarrow> rv < 0 \<Longrightarrow> ca_state ca' = TEAR_DOWN"
  by (auto simp: cs_end_def outcome_simps dest: fail_to_tear_down_state split: CStateType.splits)

lemma agent_end_failed:
  "agent n cfg md Op_end ca = ret (rv, ca') \<Longrightarrow> rv < 0 \<Longrightarrow> ca_state ca' = TEAR_DOWN"
  by (cases n) (auto simp: agent_body_def dest: cs_end_failed)

lemma end_final_returns:
  assumes "1 \<le> n" and "ca_state ca \<in> {INIT, TEAR_DOWN}"
  shows "returns (agent n cfg md Op_end ca)"
  using assms by (auto simp: agent_unfold agent_body_def cs_end_def setDeleted_def )

text \<open>A loop around \<open>end\<close> runs at most twice.\<close>

lemma endLoop_returns:
  assumes "k \<le> n" and "\<And>m. k \<le> Suc m \<Longrightarrow> returns (agent m cfg md Op_end ca)" and "3 \<le> k"
  shows "returns (agent n cfg md Op_endLoop ca)"
proof -
  have tear: "returns (agent m cfg md Op_endLoop ca')" if "2 \<le> m" "ca_state ca' = TEAR_DOWN" for m ca'
    using that end_final_returns [of "m - 1" ca' cfg md]
    by (auto simp: agent_unfold agent_body_def end_loop_def  cs_end_def
        setDeleted_def outcome_simps)
  show ?thesis
    using assms tear [of "n - 1"] assms(2) [of "n - 1"]
    by (auto simp: agent_unfold [of n] agent_body_def end_loop_def 
        dest!: agent_end_failed)
qed

text \<open>Ending a call that is established or already torn down.\<close>

lemma endLoop_final_returns:
  assumes "3 \<le> n" and "ca_state ca \<in> {INIT, TEAR_DOWN}"
  shows "returns (agent n cfg md Op_endLoop ca)"
  by (rule endLoop_returns [of 3]) (use assms end_final_returns in auto)

lemma endCall_established_returns:
  assumes "4 \<le> n" and "ca_state ca \<in> {INIT, TEAR_DOWN, IN_CALL, HOLD}"
  shows "returns (agent n cfg md (Op_callback endCall) ca)"
proof -
  have "returns (agent (n - 1) cfg md Op_endLoop (cs_bye ca'))" if "freeMedia ca = ret ca'" for ca'
    using assms freeMedia_keeps [OF that] by (intro endLoop_final_returns) (auto simp: cs_bye_def)
  then show ?thesis
    using assms by (simp add: agent_unfold agent_body_def ca_endCall_def op_run_returns)
qed

lemma doBye_returns:
  assumes "5 \<le> n" and "ca_state ca \<in> {INIT, TEAR_DOWN, IN_CALL, HOLD}"
  shows "returns (agent n cfg md Op_doBye ca)"
proof -
  have *: "returns (agent (n - 1) cfg md (Op_callback endCall) ca')"
    if "ca_state ca' = ca_state ca" for ca'
    using assms that by (intro endCall_established_returns) auto
  show ?thesis
    using assms
    by (auto simp: agent_unfold [of n] agent_body_def ca_doBye_def op_run_returns with_invokee_def
        post_def sendBye_keeps intro!: * simp del: One_nat_def split: option.splits)
qed

lemma end_returns_not_ringing:
  assumes "6 \<le> n" and "ca_state ca \<noteq> UAS_RINGING"
  shows "returns (agent n cfg md Op_end ca)"
proof -
  have "returns (agent (n - 1) cfg md Op_doBye ca)" if "ca_state ca \<in> {IN_CALL, HOLD}"
    using assms that by (intro doBye_returns) auto
  then show ?thesis
    using assms
    by (auto simp: agent_unfold [of n] agent_body_def cs_end_def op_run_returns setDeleted_def
        split: CStateType.splits)
qed

lemma cs_cancel_not_ringing [simp]: "ca_state (cs_cancel ca) \<noteq> UAS_RINGING"
  by (simp add: cs_cancel_def)

lemma endLoop_returns_not_ringing:
  assumes "7 \<le> n" and "ca_state ca \<noteq> UAS_RINGING"
  shows "returns (agent n cfg md Op_endLoop ca)"
  by (rule endLoop_returns [of 7]) (use assms end_returns_not_ringing in auto)

lemma failing_callbacks_return:
  assumes "8 \<le> n"
  shows "returns (agent n cfg md (Op_callback callFailed) ca)"
    and "returns (agent n cfg md (Op_callback doCancel) ca)"
  using assms endLoop_returns_not_ringing [of "n - 1"]
  by (simp_all add: agent_unfold [of n] agent_body_def ca_callFailed_def ca_doCancel_def op_run_returns)

lemma inCall_callback_returns:
  "1 \<le> n \<Longrightarrow> returns (agent n cfg md (Op_callback inCall) ca)"
  by (simp add: agent_unfold agent_body_def)

text \<open>Rejecting a call that rings.\<close>

lemma busyLoop_returns:
  assumes "7 \<le> n"
  shows "returns (agent n cfg md Op_busyLoop ca)"
proof -
  have tear: "returns (agent m cfg md Op_busyLoop ca')" if "2 \<le> m" "ca_state ca' = TEAR_DOWN" for m ca'
    using that
    by (auto simp: agent_unfold agent_body_def busy_loop_def cs_end_def setDeleted_def outcome_simps)
  show ?thesis
    using assms tear [of "n - 1"] end_returns_not_ringing [of "n - 1" ca]
    by (auto simp: agent_unfold [of n] agent_body_def busy_loop_def dest!: agent_end_failed)
qed

lemma sendMsg_final_returns:
  assumes "8 \<le> n" and "m_status m = 200 \<or> m_status m = 486"
  shows "returns (sendMsg cfg (agent_of (agent n cfg md)) m ca)"
  using assms
  by (auto simp: sendMsg_def agent_of_def op_run_returns failing_callbacks_return
      inCall_callback_returns intro!: sendStatus_returns)

lemma sendBusy_returns:
  assumes "9 \<le> n"
  shows "returns (agent n cfg md Op_sendBusy ca)"
  using assms sendMsg_final_returns [of "n - 1"] busyLoop_returns [of "n - 1"]
  by (auto simp: agent_unfold [of n] agent_body_def ca_sendBusy_def with_invokee_def new_StatusMsg_def)

section \<open>Every method returns\<close>

lemma end_returns:
  assumes "10 \<le> n"
  shows "returns (agent n cfg md Op_end ca)"
proof (cases "ca_state ca = UAS_RINGING")
  case True
  then show ?thesis
    using assms sendBusy_returns [of "n - 1"]
    by (simp add: agent_unfold [of n] agent_body_def cs_end_def)
qed (use assms end_returns_not_ringing in auto)

lemma endLoop_all_returns: "11 \<le> n \<Longrightarrow> returns (agent n cfg md Op_endLoop ca)"
  by (rule endLoop_returns [of 11]) (use end_returns in auto)

lemma endCall_returns: "12 \<le> n \<Longrightarrow> returns (agent n cfg md (Op_callback endCall) ca)"
  using endLoop_all_returns [of "n - 1"]
  by (simp add: agent_unfold [of n] agent_body_def ca_endCall_def op_run_returns)

lemma stopCall_returns: "12 \<le> n \<Longrightarrow> returns (agent n cfg md Op_stopCall ca)"
  using endLoop_all_returns [of "n - 1"]
  by (simp add: agent_unfold [of n] agent_body_def ca_stopCall_def op_run_returns)

lemma placeCall_returns: "returns (placeCall cfg r (ca :: call))" if "m_type (myRequestMsg ca) \<noteq> SIP_STATUS"
  using that by (auto simp: placeCall_def with_invokee_def sendMsg_def Let_def)

lemma resume_session_returns:
  "12 \<le> n \<Longrightarrow> returns (resume_session md (agent n cfg md) remote ca)"
  by (auto simp: resume_session_def op_run_returns stopCall_returns Let_def intro!: local_sdp_returns)

lemma answer_reinvite_returns:
  assumes "8 \<le> n" and "\<And>remote m ca. returns (continue remote m ca)"
  shows "returns (answer_reinvite cfg md (agent n cfg md) ca continue)"
proof -
  have status: "m_status m = 200" if "doholdresume200OKstuff cfg md remote ca = ret (m, ca')" for remote m ca'
    using that by (auto simp: doholdresume200OKstuff_def new_StatusMsg_def local_sdp_def
        with_invokee_def Let_def outcome_simps split: option.splits if_splits)
  have "returns (doholdresume200OKstuff cfg md remote ca)" for remote
    by (auto simp: doholdresume200OKstuff_def new_StatusMsg_def Let_def intro!: local_sdp_returns)
  with assms show ?thesis
    by (auto simp: answer_reinvite_def with_invokee_def sendMsg_final_returns dest: status
        split: option.splits send_result.splits)
qed

lemma cs_recvReq_returns:
  "12 \<le> n \<Longrightarrow> returns (cs_recvReq cfg md (agent n cfg md) msg ca)"
  by (auto simp: cs_recvReq_def ca_reqResume_def op_run_returns failing_callbacks_return
      resume_session_returns intro!: answer_reinvite_returns)

lemma cs_recvStatus_returns:
  assumes "12 \<le> n" and "m_type (myRequestMsg ca) = SIP_INVITE"
  shows "returns (cs_recvStatus cfg md (agent n cfg md) msg ca)"
  using assms
  by (auto simp: cs_recvStatus_def op_run_returns failing_callbacks_return doAuthentication_def
      with_invokee_def Let_def doResume_def resume_session_returns authenticateMessage_def
      intro!: placeCall_returns split: CStateType.splits option.splits)

lemma receivedStatus_returns:
  assumes "12 \<le> n" and "m_type (myRequestMsg ca) = SIP_INVITE"
  shows "returns (ca_receivedStatus cfg md (agent n cfg md) msg ca)"
  using cs_recvStatus_returns [OF assms]
  by (auto simp: ca_receivedStatus_def redirect_invite_def with_invokee_def Let_def
      split: list.splits)

lemma agent_returns_lemma:
  assumes n: "13 \<le> n" and req: "m_type (myRequestMsg ca) = SIP_INVITE"
  shows "returns (agent n cfg md op ca)"
proof (cases op)
  case (Op_callback cb)
  have m: "12 \<le> n - 1"
    using n by simp
  show ?thesis
  proof (cases cb)
    case (receivedRequest msg)
    with n cs_recvReq_returns [OF m] Op_callback show ?thesis
      by (simp add: agent_unfold agent_body_def)
  next
    case (receivedStatus msg)
    with n receivedStatus_returns [OF m req] Op_callback show ?thesis
      by (simp add: agent_unfold agent_body_def)
  next
    case (holdAndResumeReinvite msg)
    have "returns (ca_holdAndResumeReinvite cfg md (agent (n - 1) cfg md) ca)"
      unfolding ca_holdAndResumeReinvite_def using m
      by (auto simp: Let_def resume_session_returns intro!: answer_reinvite_returns local_sdp_returns)
    with n Op_callback holdAndResumeReinvite show ?thesis
      by (simp add: agent_unfold agent_body_def)
  next
    case (reqResume msg)
    have "returns (ca_reqResume cfg md (agent (n - 1) cfg md) ca)"
      unfolding ca_reqResume_def using m
      by (auto simp: resume_session_returns intro!: answer_reinvite_returns)
    with n Op_callback reqResume show ?thesis
      by (simp add: agent_unfold agent_body_def)
  next
    case dohold
    have "returns (ca_dohold ca)"
      by (auto simp: ca_dohold_def intro!: local_sdp_returns)
    with n Op_callback dohold show ?thesis
      by (simp add: agent_unfold agent_body_def)
  qed (use n Op_callback failing_callbacks_return endCall_returns inCall_callback_returns in auto)
next
  case Op_doBye
  have "returns (agent (n - 1) cfg md (Op_callback endCall) ca')" for ca'
    using n by (intro endCall_returns) simp
  with n Op_doBye show ?thesis
    by (auto simp: agent_unfold [of n] agent_body_def ca_doBye_def op_run_returns with_invokee_def
        split: option.splits)
qed (use n end_returns endLoop_all_returns busyLoop_returns sendBusy_returns stopCall_returns in auto)

section \<open>The bound does not matter\<close>

text \<open>A computation that agrees with another wherever that one returns.\<close>

definition extends :: "'a run \<Rightarrow> 'a run \<Rightarrow> bool" where
  "extends m m' \<longleftrightarrow> (returns m \<longrightarrow> m' = m)"

definition rec_extends :: "rec \<Rightarrow> rec \<Rightarrow> bool" where
  "rec_extends r r' \<longleftrightarrow> (\<forall>op ca. extends (r op ca) (r' op ca))"

named_theorems extends_intros \<open>compatibility of the constructs with \<open>extends\<close>\<close>

lemma extends_refl [simp, extends_intros]: "extends m m"
  by (simp add: extends_def)

lemma extends_None [simp]: "extends None m"
  by (simp add: extends_def)

lemma extends_rbind [extends_intros]:
  "extends m m' \<Longrightarrow> (\<And>x. extends (f x) (f' x)) \<Longrightarrow> extends (rbind m f) (rbind m' f')"
  by (cases m) (auto simp: extends_def rbind_def split: option.splits sum.splits)

lemma extends_rassert [extends_intros]: "extends m m' \<Longrightarrow> extends (rassert b m) (rassert b m')"
  by (simp add: rassert_def)

lemma extends_with_invokee [extends_intros]:
  "extends m m' \<Longrightarrow> extends (with_invokee ca m) (with_invokee ca m')"
  by (simp add: with_invokee_def)

lemma extends_local_sdp [extends_intros]:
  "(\<And>s. extends (f s) (f' s)) \<Longrightarrow> extends (local_sdp ca f) (local_sdp ca f')"
  by (simp add: local_sdp_def with_invokee_def split: option.splits)

lemma extends_rec: "rec_extends r r' \<Longrightarrow> extends (r op ca) (r' op ca)"
  by (simp add: rec_extends_def)

lemma extends_op_run [extends_intros]:
  "rec_extends r r' \<Longrightarrow> extends (op_run r op ca) (op_run r' op ca)"
  unfolding op_run_def by (intro extends_intros extends_rec)

lemma extends_notify:
  "rec_extends r r' \<Longrightarrow> extends (notify (agent_of r) cb ca) (notify (agent_of r') cb ca)"
  by (simp add: notify_def agent_of_def extends_op_run)

lemma extends_sendMsg [extends_intros]:
  assumes "rec_extends r r'"
  shows "extends (sendMsg cfg (agent_of r) m ca) (sendMsg cfg (agent_of r') m ca)"
  using extends_notify [OF assms]
  by (auto simp: sendMsg_def sendStatus_def STrying_sendStatus_def Ringing_sendStatus_def Let_def
      intro!: extends_rbind extends_rassert split: UStateType.splits base_url.splits prod.splits)

lemma extends_agent_body:
  assumes "rec_extends r r'"
  shows "extends (agent_body cfg md r op ca) (agent_body cfg md r' op ca)"
proof -
  note r = assms
  have call: "extends (r op ca) (r' op ca)" for op ca
    by (rule extends_rec [OF r])
  have resume: "extends (resume_session md r s ca) (resume_session md r' s ca)" for s ca
    using r by (auto simp: resume_session_def Let_def intro!: extends_intros)
  have answer: "extends (answer_reinvite cfg md r ca f) (answer_reinvite cfg md r' ca f')"
    if "\<And>s m ca. extends (f s m ca) (f' s m ca)" for ca f f'
    using r that unfolding answer_reinvite_def
    by (auto intro!: extends_intros split: option.splits send_result.splits)
  have place: "extends (placeCall cfg r ca) (placeCall cfg r' ca)" for ca
    using r by (auto simp: placeCall_def Let_def intro!: extends_intros)
  have cancel: "extends (sendCancel cfg r ca) (sendCancel cfg r' ca)" for ca
    using r by (auto simp: sendCancel_def intro!: extends_intros)
  have bye: "extends (ca_doBye cfg r ca) (ca_doBye cfg r' ca)" for ca
    using r by (auto simp: ca_doBye_def intro!: extends_intros split: option.splits)
  have recv: "extends (cs_recvStatus cfg md r msg ca) (cs_recvStatus cfg md r' msg ca)" for msg ca
    using r resume place
    by (auto simp: cs_recvStatus_def Let_def doAuthentication_def doResume_def
        intro!: extends_intros split: CStateType.splits option.splits)
  have status: "extends (ca_receivedStatus cfg md r msg ca) (ca_receivedStatus cfg md r' msg ca)" for msg ca
    unfolding ca_receivedStatus_def by (intro extends_intros recv)
  have request: "extends (cs_recvReq cfg md r msg ca) (cs_recvReq cfg md r' msg ca)" for msg ca
    using r resume by (auto simp: cs_recvReq_def ca_reqResume_def intro!: extends_intros answer)
  have hold: "extends (ca_holdAndResumeReinvite cfg md r ca) (ca_holdAndResumeReinvite cfg md r' ca)" for ca
    using resume by (auto simp: ca_holdAndResumeReinvite_def Let_def intro!: extends_intros answer)
  have "extends (cs_end cfg r ca) (cs_end cfg r' ca)"
    using r cancel call
    by (auto simp: cs_end_def fail_to_tear_down_def intro!: extends_intros split: CStateType.splits)
  moreover have "extends (ca_sendBusy cfg r ca) (ca_sendBusy cfg r' ca)"
    using r call by (auto simp: ca_sendBusy_def intro!: extends_intros split: prod.splits)
  ultimately show ?thesis
    using r call resume bye status request hold
    by (auto simp: agent_body_def end_loop_def busy_loop_def ca_stopCall_def ca_doCancel_def
        ca_endCall_def ca_callFailed_def ca_reqResume_def intro!: extends_intros answer
        split: ca_op.splits callback.splits)
qed

lemma agent_Suc_extends: "rec_extends (agent n cfg md) (agent (Suc n) cfg md)"
  by (induction n) (simp_all add: rec_extends_def extends_agent_body)

lemma agent_mono: "n \<le> k \<Longrightarrow> returns (agent n cfg md op ca) \<Longrightarrow> agent k cfg md op ca = agent n cfg md op ca"
proof (induction k rule: dec_induct)
  case (step k)
  then show ?case
    using agent_Suc_extends [of k cfg md] by (auto simp: rec_extends_def extends_def)
qed simp

end
