(* ===== verification/Ua_Phone.thy ===== *)
theory Ua_Phone
  imports Ua_Invariant Ua_Returns
begin

text \<open>
  Call legs and call agents together. The call agent of \<open>Ua_Call\<close> keeps what a leg relies on in its
  controller, so the invariant of \<open>Ua_Invariant\<close> holds in every call of the soft phone; and between two
  inputs an agent is either at work, registered and bound to its leg, or it has ended and is removed.
\<close>

section \<open>Live agents\<close>

text \<open>The control states that an agent gets into, by the role of its leg: only a caller tries and waits
  for the answer of the other side, only a callee rings for its user.\<close>

fun control_of_role :: "AgentRole \<Rightarrow> CStateType \<Rightarrow> bool" where
  "control_of_role A_SERVER s \<longleftrightarrow> s \<notin> {TRYING, UAC_RINGING}"
| "control_of_role A_CLIENT s \<longleftrightarrow> s \<noteq> UAS_RINGING"

lemma control_of_role_simps [simp]:
  "control_of_role R INIT" "control_of_role R IN_CALL" "control_of_role R HOLD" "control_of_role R TEAR_DOWN"
  "control_of_role R TRYING \<Longrightarrow> control_of_role R UAC_RINGING"
  by (cases R; simp)+

definition live :: "AgentRole \<Rightarrow> call \<Rightarrow> bool" where
  "live R ca \<longleftrightarrow> (ca_state ca = INIT \<longleftrightarrow> \<not> ca_invokee ca) \<and> (ca_invokee ca \<longleftrightarrow> myActiveFlg ca)
    \<and> control_of_role R (ca_state ca)"

definition settled :: "AgentRole \<Rightarrow> call \<Rightarrow> bool" where
  "settled R ca \<longleftrightarrow> live R ca \<and> ca_state ca \<noteq> TEAR_DOWN"

lemma same_more:
  fixes ca ca' :: call
  assumes "uabase.more ca = uabase.more ca'"
  shows "ca_state ca = ca_state ca'" "ca_invokee ca = ca_invokee ca'" "myActiveFlg ca = myActiveFlg ca'"
  using assms by (cases ca; cases ca'; simp)+

lemma evolves_settled: "evolves (settled R) b u ca \<longleftrightarrow> evolves (live R) b u ca \<and> ca_state ca \<noteq> TEAR_DOWN"
  by (auto simp: evolves_def settled_def)

lemma evolves_call_update:
  assumes "evolves (live R) b u ca" and "live R ca \<Longrightarrow> live R ca'"
    and "myAgentRole ca' = myAgentRole ca" "myState ca' = myState ca" "myAckMsg ca' = myAckMsg ca"
      "myResponseMsg ca' = myResponseMsg ca" "m_type (myRequestMsg ca') = m_type (myRequestMsg ca)"
  shows "evolves (live R) b u ca'"
  using assms by (auto simp: evolves_def leg_inv_def)

lemma post_evolves [ensures_intros]: "evolves (live R) b u ca \<Longrightarrow> evolves (live R) b u (post e ca)"
  by (rule evolves_call_update) (auto simp: post_def live_def)

lemma cs_evolves [ensures_intros]:
  "evolves (live R) b u ca \<Longrightarrow> evolves (live R) b u (cs_cancel ca)"
  "evolves (live R) b u ca \<Longrightarrow> evolves (live R) b u (cs_bye ca)"
  "evolves (live R) b u ca \<Longrightarrow> evolves (live R) b u (cs_inCall ca)"
  "evolves (live R) b u ca \<Longrightarrow> evolves (live R) b u (cs_inHold ca)"
  by (erule evolves_call_update;
      auto simp: cs_cancel_def cs_bye_def cs_inCall_def cs_inHold_def live_def)+

lemma cs_not_tear_down [simp]:
  "ca_state ca \<noteq> TEAR_DOWN \<Longrightarrow> ca_state (cs_inCall ca) \<noteq> TEAR_DOWN"
  "ca_state ca \<noteq> TEAR_DOWN \<Longrightarrow> ca_state (cs_inHold ca) \<noteq> TEAR_DOWN"
  "ca_state (post e ca) = ca_state ca"
  "ca_invokee (post e ca) = ca_invokee ca"
  by (auto simp: cs_inCall_def cs_inHold_def post_def)

lemma leg_field_evolves [ensures_intros]:
  fixes ca :: call
  shows "evolves (live R) b u ca \<Longrightarrow> evolves (live R) b u (ca\<lparr> myRemoteSdpData := d \<rparr>)"
    and "evolves (live R) b u ca \<Longrightarrow> evolves (live R) b u (sendAsync m ca)"
  by (erule evolves_call_update; auto simp: live_def sendAsync_def)+

lemma ensures_with_invokee [ensures_intros]: "ensures Q m \<Longrightarrow> ensures Q (with_invokee ca m)"
  by (simp add: with_invokee_def)

lemma ensures_local_sdp [ensures_intros]: "(\<And>s. ensures Q (f s)) \<Longrightarrow> ensures Q (local_sdp ca f)"
  by (auto simp: local_sdp_def with_invokee_def split: option.splits)

lemma freeMedia_ensures:
  "evolves (live R) b u ca \<Longrightarrow> ensures (\<lambda>ca'. evolves (live R) b u ca' \<and> ca_state ca' = ca_state ca) (freeMedia ca)"
proof (unfold freeMedia_def, split if_split, intro conjI impI)
  assume ev: "evolves (live R) b u ca"
  have free: "evolves (live R) b u ((post ReleaseDevice ca')\<lparr> freedMedia := True \<rparr>)"
    if "evolves (live R) b u ca'" for ca'
    using that by (rule evolves_call_update) (auto simp: live_def post_def)
  show "ensures (\<lambda>ca'. evolves (live R) b u ca' \<and> ca_state ca' = ca_state ca)
      (rbind (if ca_invokee ca then local_sdp ca (\<lambda>s. ret (post (FreeSession (sdp_session s)) ca)) else ret ca)
        (\<lambda>ca. ret ((post ReleaseDevice ca)\<lparr> freedMedia := True \<rparr>)))"
    using ev
    by (intro ensures_rbind [of "\<lambda>ca'. evolves (live R) b u ca' \<and> ca_state ca' = ca_state ca"])
      (auto intro!: ensures_intros free)
qed simp

section \<open>The agent keeps its leg's invariant\<close>

definition rec_ok :: "rec \<Rightarrow> bool" where
  "rec_ok r \<longleftrightarrow> (\<forall>R op ca. leg_inv ca \<longrightarrow> live R ca \<longrightarrow>
      (op \<notin> {Op_end, Op_endLoop, Op_busyLoop} \<longrightarrow> ca_state ca \<noteq> TEAR_DOWN) \<longrightarrow>
      ensures (\<lambda>(rv, ca'). evolves (live R) False ca ca' \<and>
        (op = Op_end \<and> rv < 0 \<or> ca_state ca' \<noteq> TEAR_DOWN) \<and> (rv < 0 \<longrightarrow> ca_invokee ca')) (r op ca))"

lemma rec_ok_ensures:
  assumes "rec_ok r" and "evolves (live R) b u ca"
    and "op \<notin> {Op_end, Op_endLoop, Op_busyLoop} \<Longrightarrow> ca_state ca \<noteq> TEAR_DOWN"
  shows "ensures (\<lambda>(rv, ca'). evolves (live R) b u ca' \<and>
      (op = Op_end \<and> rv < 0 \<or> ca_state ca' \<noteq> TEAR_DOWN) \<and> (rv < 0 \<longrightarrow> ca_invokee ca')) (r op ca)"
proof -
  have "leg_inv ca" "live R ca"
    using assms(2) by (simp_all add: evolves_def)
  with assms(1,3) have "ensures (\<lambda>(rv, ca'). evolves (live R) False ca ca' \<and>
      (op = Op_end \<and> rv < 0 \<or> ca_state ca' \<noteq> TEAR_DOWN) \<and> (rv < 0 \<longrightarrow> ca_invokee ca')) (r op ca)"
    by (simp add: rec_ok_def)
  then show ?thesis
    by (rule ensures_mono) (use evolves_trans [OF assms(2), of False] in auto)
qed

lemma op_run_ensures [ensures_intros]:
  assumes "rec_ok r" and "evolves (live R) b u ca" and "op \<noteq> Op_end"
    and "op \<notin> {Op_endLoop, Op_busyLoop} \<Longrightarrow> ca_state ca \<noteq> TEAR_DOWN"
  shows "ensures (evolves (settled R) b u) (op_run r op ca)"
  unfolding op_run_def
  by (rule ensures_rbind [OF rec_ok_ensures [OF assms(1,2)]]) (use assms(3,4) in \<open>auto simp: evolves_settled\<close>)

lemma leg_controller_agent:
  assumes "rec_ok r"
  shows "leg_controller (agent_of r) (settled R)"
proof
  fix ua ua' :: call and cb
  assume "leg_inv ua" "settled R ua" "agent_of r cb ua = ret ua'"
  moreover from this have "ensures (evolves (settled R) False ua) (op_run r (Op_callback cb) ua)"
    by (intro op_run_ensures assms) (auto simp: settled_def intro: evolves_refl)
  ultimately show "evolves (settled R) False ua ua'"
    by (simp add: agent_of_def ensuresD)
next
  fix ua ua' :: call
  assume "uabase.more ua = uabase.more ua'"
  then show "settled R ua \<longleftrightarrow> settled R ua'"
    by (simp add: settled_def live_def same_more [of ua ua'])
qed

lemma sendMsg_ensures:
  assumes "rec_ok r" and "evolves (live R) b u ca" and "ca_state ca \<noteq> TEAR_DOWN"
  shows "ensures (\<lambda>(rv, ca'). evolves (settled R) b u ca') (sendMsg cfg (agent_of r) m ca)"
proof -
  have inv: "leg_inv ca" "settled R ca"
    using assms by (auto simp: evolves_def settled_def)
  have "evolves (settled R) b u ca"
    using assms by (simp add: evolves_settled)
  then show ?thesis
    using leg_controller.sendMsg_keeps [OF leg_controller_agent [OF assms(1)] inv]
      evolves_trans [of "settled R" b u ca False]
    by (auto simp: leg_controller.sends_def [OF leg_controller_agent [OF assms(1)]] ensures_def)
qed

lemma settledI [ensures_intros]:
  "evolves (live R) b u ca \<Longrightarrow> ca_state ca \<noteq> TEAR_DOWN \<Longrightarrow> evolves (settled R) False u ca"
  by (auto simp: evolves_settled intro: evolves_weaken)

lemma rbind_op_run [ensures_intros]:
  assumes "rec_ok r" and "evolves (live R) b u ca" and "op \<noteq> Op_end"
    and "op \<notin> {Op_endLoop, Op_busyLoop} \<Longrightarrow> ca_state ca \<noteq> TEAR_DOWN"
    and "\<And>ca'. evolves (live R) b u ca' \<Longrightarrow> ca_state ca' \<noteq> TEAR_DOWN \<Longrightarrow> ensures Q (f ca')"
  shows "ensures Q (rbind (op_run r op ca) f)"
  by (rule ensures_rbind [OF op_run_ensures [OF assms(1-4)]]) (use assms(5) in \<open>auto simp: evolves_settled\<close>)

lemma final_op_run [ensures_intros]:
  assumes "rec_ok r" and "evolves (live R) b u ca" and "op \<noteq> Op_end"
    and "op \<notin> {Op_endLoop, Op_busyLoop} \<Longrightarrow> ca_state ca \<noteq> TEAR_DOWN"
  shows "ensures (evolves (settled R) False u) (op_run r op ca)"
  by (rule ensures_mono [OF op_run_ensures [OF assms]]) (auto intro: evolves_weaken)

lemma rbind_freeMedia [ensures_intros]:
  "evolves (live R) b u ca \<Longrightarrow> (\<And>ca'. evolves (live R) b u ca' \<Longrightarrow> ca_state ca' = ca_state ca \<Longrightarrow> ensures Q (f ca')) \<Longrightarrow>
    ensures Q (rbind (freeMedia ca) f)"
  by (rule ensures_rbind [OF freeMedia_ensures]) auto

lemma final_freeMedia [ensures_intros]:
  "evolves (live R) b u ca \<Longrightarrow> ca_state ca \<noteq> TEAR_DOWN \<Longrightarrow> ensures (evolves (settled R) False u) (freeMedia ca)"
  by (rule ensures_mono [OF freeMedia_ensures]) (auto intro: settledI)

lemma rbind_sendMsg [ensures_intros]:
  assumes "rec_ok r" and "evolves (live R) b u ca" and "ca_state ca \<noteq> TEAR_DOWN"
    and "\<And>rv ca'. evolves (live R) b u ca' \<Longrightarrow> ca_state ca' \<noteq> TEAR_DOWN \<Longrightarrow> ensures Q (f (rv, ca'))"
  shows "ensures Q (rbind (sendMsg cfg (agent_of r) m ca) f)"
  by (rule ensures_rbind [OF sendMsg_ensures [OF assms(1-3)]])
    (use assms(4) in \<open>auto simp: evolves_settled\<close>)

lemma rbind_sendBye_call [ensures_intros]:
  fixes ca :: call
  assumes "evolves (live R) b u ca"
    and "\<And>m ca'. evolves (live R) b u ca' \<Longrightarrow> ca_state ca' = ca_state ca \<Longrightarrow> ensures Q (f (m, ca'))"
  shows "ensures Q (rbind (sendBye cfg ca) f)"
proof (rule ensures_rbind)
  have "evolves (live R) b u ca'" if "sendBye cfg ca = ret (m, ca')" for m ca'
    using assms(1) by (rule evolves_call_update)
      (use that in \<open>auto simp: sendBye_def Let_def sendAsync_def live_def split: AgentRole.splits option.splits\<close>)
  then show "ensures (\<lambda>(m, ca'). evolves (live R) b u ca' \<and> ca_state ca' = ca_state ca) (sendBye cfg ca)"
    using sendBye_keeps by (auto simp: ensures_def)
qed (use assms(2) in auto)

lemma new_StatusMsg_evolves_call:
  fixes ca :: call
  assumes "evolves (live R) b u ca" and "new_StatusMsg m code ca = (m', ca')"
  shows "evolves (live R) b u ca'" "ca_state ca' = ca_state ca"
  using assms(2) evolves_call_update [OF assms(1), of ca']
  by (auto simp: new_StatusMsg_def live_def split: if_splits)

text \<open>The methods, one by one.\<close>

lemma ending_keeps:
  assumes "rec_ok r" and "evolves (live R) False ca ca"
  shows "ensures (evolves (settled R) False ca) (ca_doCancel r ca)"
    and "ensures (evolves (settled R) False ca) (ca_callFailed r ca)"
    and "ensures (evolves (settled R) False ca) (ca_stopCall r ca)"
    and "ca_state ca \<noteq> TEAR_DOWN \<Longrightarrow> ensures (evolves (settled R) False ca) (ca_endCall r ca)"
    and "ca_state ca \<noteq> TEAR_DOWN \<Longrightarrow> ensures (evolves (settled R) False ca) (ca_doBye cfg r ca)"
  using assms
  by (auto simp: ca_doCancel_def ca_callFailed_def ca_stopCall_def ca_endCall_def ca_doBye_def
      intro!: ensures_intros split: option.splits)

lemma starting_keeps:
  assumes "evolves (live R) b u ca" and "ca_state ca \<noteq> TEAR_DOWN"
  shows "ensures (evolves (settled R) False u) (ca_inCall ca)"
    and "ensures (evolves (settled R) False u) (ca_dohold ca)"
  using assms
  by (auto simp: ca_inCall_def startSession_def ca_dohold_def intro!: ensures_intros split: option.splits)

lemma placeCall_keeps [ensures_intros]:
  "rec_ok r \<Longrightarrow> evolves (live R) b u ca \<Longrightarrow> ca_state ca \<noteq> TEAR_DOWN \<Longrightarrow>
    ensures (evolves (settled R) False u) (placeCall cfg r ca)"
  by (auto simp: placeCall_def Let_def intro!: ensures_intros)

lemma resume_session_keeps [ensures_intros]:
  assumes "rec_ok r" and "evolves (live R) b u ca" and "ca_state ca \<noteq> TEAR_DOWN"
  shows "ensures (evolves (settled R) False u) (resume_session md r s ca)"
  using assms by (auto simp: resume_session_def Let_def intro!: ensures_intros)

lemma answer_reinvite_keeps:
  assumes "rec_ok r" and "evolves (live R) b u ca" and "ca_state ca \<noteq> TEAR_DOWN"
    and cont: "\<And>s m ca. evolves (live R) b u ca \<Longrightarrow> ca_state ca \<noteq> TEAR_DOWN \<Longrightarrow>
      ensures (evolves (settled R) False u) (continue s m ca)"
  shows "ensures (evolves (settled R) False u) (answer_reinvite cfg md r ca continue)"
proof -
  have body: "ensures (\<lambda>(m, ca'). evolves (live R) b u ca' \<and> ca_state ca' \<noteq> TEAR_DOWN)
      (doholdresume200OKstuff cfg md s ca)" for s
    using new_StatusMsg_evolves_call [OF assms(2)] assms(3)
    by (auto simp: doholdresume200OKstuff_def intro!: ensures_intros split: prod.splits)
  show ?thesis
    unfolding answer_reinvite_def using assms(1-3)
    by (auto intro!: ensures_intros ensures_rbind [OF body] cont split: option.splits send_result.splits)
qed

lemma hold_resume_keeps:
  assumes "rec_ok r" and "evolves (live R) b u ca" and "ca_state ca \<noteq> TEAR_DOWN"
  shows "ensures (evolves (settled R) False u) (ca_reqResume cfg md r ca)"
    and "ensures (evolves (settled R) False u) (ca_holdAndResumeReinvite cfg md r ca)"
  using assms unfolding ca_reqResume_def ca_holdAndResumeReinvite_def
  by (auto simp: Let_def intro!: answer_reinvite_keeps ensures_intros)

lemma cs_recvReq_keeps:
  assumes "rec_ok r" and "evolves (live R) b u ca" and "ca_state ca \<noteq> TEAR_DOWN"
  shows "ensures (evolves (settled R) False u) (cs_recvReq cfg md r m ca)"
  using assms by (auto simp: cs_recvReq_def intro!: hold_resume_keeps ensures_intros)

lemma ringing_evolves [ensures_intros]:
  "evolves (live R) b u ca \<Longrightarrow> ca_state ca = TRYING \<Longrightarrow> evolves (live R) b u (ca\<lparr> ca_state := UAC_RINGING \<rparr>)"
  by (erule evolves_call_update) (auto simp: live_def)

lemma doAuthentication_keeps [ensures_intros]:
  assumes "rec_ok r" and "evolves (live R) b u ca" and "ca_state ca \<noteq> TEAR_DOWN"
  shows "ensures (evolves (settled R) False u) (doAuthentication cfg md r m ca)"
proof -
  have "evolves (live R) b u (ca\<lparr> myRequestMsg :=
      authenticateMessage md m ((myRequestMsg ca)\<lparr> m_cseq := incrCSeq (m_cseq (myRequestMsg ca)) \<rparr>) \<rparr>)"
    by (intro evolves_call_update [OF assms(2)]) (auto simp: live_def authenticateMessage_def)
  with assms(1,3) show ?thesis
    by (auto simp: doAuthentication_def Let_def intro!: ensures_intros)
qed

lemma cs_recvStatus_keeps:
  assumes "rec_ok r" and "evolves (live R) b u ca" and "ca_state ca \<noteq> TEAR_DOWN"
  shows "ensures (evolves (settled R) False u) (cs_recvStatus cfg md r m ca)"
  using assms
  by (auto simp: cs_recvStatus_def Let_def doResume_def cs_ringing_def [of ca]
      intro!: starting_keeps ensures_intros
      split: CStateType.splits option.splits)

lemma redirect_invite_keeps [ensures_intros]:
  assumes "evolves (live R) b u ca" and "ca_state ca \<noteq> TEAR_DOWN"
  shows "ensures (evolves (settled R) False u) (redirect_invite m ca)"
proof -
  have "evolves (live R) b u (ca\<lparr> myRequestMsg := k, myLocalCSeq := c \<rparr>)"
    if "m_type k = m_type (myRequestMsg ca)" for k c
    using that by (intro evolves_call_update [OF assms(1)]) (auto simp: live_def)
  then have "evolves (settled R) False u (sendAsync k (ca\<lparr> myRequestMsg := k, myLocalCSeq := c \<rparr>))"
    if "m_type k = m_type (myRequestMsg ca)" for k c
    using that assms(2) by (intro settledI leg_field_evolves(2)) (auto simp: sendAsync_def)
  then show ?thesis
    by (auto simp: redirect_invite_def Let_def intro!: ensures_intros split: list.splits)
qed

lemma rbind_ackStatus_call [ensures_intros]:
  fixes ca :: call
  assumes "evolves (live R) b u ca"
    and "\<And>ca'. evolves (live R) b u ca' \<Longrightarrow> ca_state ca' = ca_state ca \<Longrightarrow> ensures Q (f ca')"
  shows "ensures Q (rbind (ackStatus m s ca) f)"
proof (rule ensures_rbind)
  show "ensures (\<lambda>ca'. evolves (live R) b u ca' \<and> ca_state ca' = ca_state ca) (ackStatus m s ca)"
    using assms(1) by (auto simp: ensures_def sendAsync_def dest!: ackStatus_result
        intro!: ensures_intros evolves_call_update [OF assms(1)] simp: live_def)
qed (use assms(2) in auto)

lemma ca_receivedStatus_keeps:
  assumes "rec_ok r" and "evolves (live R) b u ca" and "ca_state ca \<noteq> TEAR_DOWN"
  shows "ensures (evolves (settled R) False u) (ca_receivedStatus cfg md r m ca)"
  unfolding ca_receivedStatus_def
proof (rule ensures_rbind [OF cs_recvStatus_keeps [OF assms]])
  fix ca'
  assume "evolves (settled R) False u ca'"
  then have "evolves (live R) False u ca'" "ca_state ca' \<noteq> TEAR_DOWN"
    by (simp_all add: evolves_settled)
  then show "ensures (evolves (settled R) False u)
      (rassert (m_type m = SIP_STATUS)
        (rbind (if m_status m = 200 \<and> cs_method (m_cseq m) = SIP_INVITE then ackStatus m None ca' else ret ca')
          (\<lambda>ca. if m_status m = 302 then redirect_invite m ca
               else if m_status m = 480 then freeMedia ca else ret ca)))"
    by (auto intro!: ensures_intros)
qed

definition ended :: "AgentRole \<Rightarrow> ca_op \<Rightarrow> call \<Rightarrow> int \<times> call \<Rightarrow> bool" where
  "ended R op ca = (\<lambda>(rv, ca'). evolves (live R) False ca ca' \<and>
    (op = Op_end \<and> rv < 0 \<or> ca_state ca' \<noteq> TEAR_DOWN) \<and> (rv < 0 \<longrightarrow> ca_invokee ca'))"

lemma ended_pair [simp]:
  "ended R op ca (rv, ca') \<longleftrightarrow> evolves (live R) False ca ca' \<and>
    (op = Op_end \<and> rv < 0 \<or> ca_state ca' \<noteq> TEAR_DOWN) \<and> (rv < 0 \<longrightarrow> ca_invokee ca')"
  by (simp add: ended_def)

lemma rbind_rec:
  assumes "rec_ok r" and "evolves (live R) b u ca"
    and "op \<notin> {Op_end, Op_endLoop, Op_busyLoop} \<Longrightarrow> ca_state ca \<noteq> TEAR_DOWN"
    and "\<And>rv ca'. evolves (live R) b u ca' \<Longrightarrow> op = Op_end \<and> rv < 0 \<or> ca_state ca' \<noteq> TEAR_DOWN \<Longrightarrow>
      (rv < 0 \<Longrightarrow> ca_invokee ca') \<Longrightarrow> ensures Q (f (rv, ca'))"
  shows "ensures Q (rbind (r op ca) f)"
  by (rule ensures_rbind [OF rec_ok_ensures [OF assms(1-3)]]) (use assms(4) in auto)

lemma rec_final:
  assumes "rec_ok r" and "evolves (live R) b u ca" and "op \<in> {Op_endLoop, Op_busyLoop, Op_sendBusy}"
    and "op = Op_sendBusy \<Longrightarrow> ca_state ca \<noteq> TEAR_DOWN"
  shows "ensures (ended R op' u) (r op ca)"
  by (rule ensures_mono [OF rec_ok_ensures [OF assms(1,2)]])
    (use assms(3,4) in \<open>auto intro: evolves_weaken\<close>)

lemma sendRequest_more:
  "sendRequest cfg m ua = ret (rv, ua') \<Longrightarrow> uabase.more ua' = uabase.more ua"
  by (cases "myState ua"; cases "m_type m"; cases "myRouteList ua")
    (auto simp: sendRequest_def Idle_sendRequest_def CTrying_sendRequest_def Ringing_sendRequest_def
      InCall_sendRequest_def InHold_sendRequest_def outcome_simps returning_def change_and_return_def
      changeState_def send_cancel_def sendAsync_def sendAsyncTo_def sendBye_def send_reinvite_def
      createReInvite_def ackStatus_def Let_def
      split: option.splits if_splits AgentRole.splits)

lemma sendCancel_keeps:
  assumes "rec_ok r" and "evolves (live R) b u ca" and "ca_state ca \<noteq> TEAR_DOWN"
  shows "ensures (\<lambda>(rv, ca'). evolves (live R) b u ca' \<and> ca_state ca' \<noteq> TEAR_DOWN \<and> ca_invokee ca')
    (sendCancel cfg r ca)"
proof (cases "ca_invokee ca")
  case True
  have send: "ensures (\<lambda>(rv, ca'). evolves (live R) b u ca' \<and> ca_state ca' \<noteq> TEAR_DOWN \<and> ca_invokee ca')
      (sendMsg cfg (agent_of r) m ca)" if "m_type m \<noteq> SIP_STATUS" for m
    using sendMsg_ensures [OF assms, of cfg m] that True same_more(2) [OF sendRequest_more]
    by (auto simp: ensures_def sendMsg_def evolves_settled)
  show ?thesis
    by (auto simp: sendCancel_def CancelMsg_def with_invokee_def
        intro!: ensures_rbind [OF send] ensures_intros split: list.splits)
qed (simp add: sendCancel_def with_invokee_def)


lemma fail_to_tear_down_keeps:
  assumes "ensures (\<lambda>(rv, ca'). evolves (live R) False u ca' \<and> ca_state ca' \<noteq> TEAR_DOWN \<and>
      (rv < 0 \<longrightarrow> ca_invokee ca')) m"
  shows "ensures (ended R Op_end u) (fail_to_tear_down m)"
proof -
  have "evolves (live R) False u (ca'\<lparr> ca_state := TEAR_DOWN \<rparr>)"
    if "evolves (live R) False u ca'" "ca_invokee ca'" for ca'
    using that(1) by (rule evolves_call_update) (use that(2) in \<open>auto simp: live_def\<close>)
  then show ?thesis
    unfolding fail_to_tear_down_def by (intro ensures_rbind [OF assms]) auto
qed

lemma tear_down_evolves:
  assumes "evolves (live R) b u ca"
  shows "evolves (live R) b u ((post AgentRemoved (ca\<lparr> ca_state := INIT \<rparr>))\<lparr> myActiveFlg := False, ca_invokee := False \<rparr>)"
  using assms by (rule evolves_call_update) (auto simp: post_def live_def)

lemma cs_end_keeps:
  assumes "rec_ok r" and "evolves (live R) False ca ca"
  shows "ensures (ended R Op_end ca) (cs_end cfg r ca)"
proof -
  have cancel: "ensures (ended R Op_end ca) (fail_to_tear_down (sendCancel cfg r ca))"
    if "ca_state ca \<noteq> TEAR_DOWN"
    by (rule fail_to_tear_down_keeps, rule ensures_mono [OF sendCancel_keeps [OF assms that]]) auto
  have busy: "ensures (ended R Op_end ca) (fail_to_tear_down (r Op_sendBusy ca))"
    if "ca_state ca \<noteq> TEAR_DOWN"
    by (rule fail_to_tear_down_keeps, rule ensures_mono [OF rec_ok_ensures [OF assms]])
      (use that in auto)
  have bye: "ensures (ended R Op_end ca) (rbind (op_run r Op_doBye ca) (\<lambda>ca. ret (0, ca)))"
    if "ca_state ca \<noteq> TEAR_DOWN"
    by (rule rbind_op_run [OF assms]) (use that in auto)
  have tear: "ensures (ended R Op_end ca) (rbind (setDeleted (ca\<lparr> ca_state := INIT \<rparr>)) (\<lambda>ca. ret (0, ca)))"
    using tear_down_evolves [OF assms(2)] by (auto simp: setDeleted_def rassert_def)
  show ?thesis
    using cancel busy bye tear assms(2) by (cases "ca_state ca") (simp_all add: cs_end_def)
qed

lemma loops_keep:
  assumes "rec_ok r" and "evolves (live R) False ca ca"
  shows "ensures (ended R Op_endLoop ca) (end_loop r ca)"
    and "ensures (ended R Op_busyLoop ca) (busy_loop r ca)"
proof -
  have "ca_state ca = UAS_RINGING \<Longrightarrow> ca_invokee ca"
    using assms(2) by (auto simp: evolves_def live_def)
  then show "ensures (ended R Op_busyLoop ca) (busy_loop r ca)"
    unfolding busy_loop_def using assms by (auto intro!: rbind_rec [OF assms(1)] rec_final [OF assms(1)])
  show "ensures (ended R Op_endLoop ca) (end_loop r ca)"
    unfolding end_loop_def using assms by (auto intro!: rbind_rec [OF assms(1)] rec_final [OF assms(1)])
qed

lemma ca_sendBusy_keeps:
  assumes "rec_ok r" and "evolves (live R) False ca ca" and "ca_state ca \<noteq> TEAR_DOWN"
  shows "ensures (ended R op ca) (ca_sendBusy cfg r ca)"
proof (cases "new_StatusMsg (myRequestMsg ca) 486 ca")
  case (Pair m ca')
  show ?thesis
    using assms Pair new_StatusMsg_evolves_call [OF assms(2) Pair]
    by (auto simp: ca_sendBusy_def Let_def intro!: ensures_intros rec_final [OF assms(1)])
qed

lemma agent_body_ok:
  assumes "rec_ok r"
  shows "rec_ok (agent_body cfg md r)"
  unfolding rec_ok_def ended_def [symmetric]
proof (intro allI impI)
  fix R op ca
  assume inv: "leg_inv ca" "live R ca"
    and ready: "op \<notin> {Op_end, Op_endLoop, Op_busyLoop} \<longrightarrow> ca_state ca \<noteq> TEAR_DOWN"
  have ev: "evolves (live R) False ca ca"
    using inv by (simp add: evolves_refl)
  have lift: "ensures (ended R op ca) (rbind m (\<lambda>ca. ret (0, ca)))"
    if "ensures (evolves (settled R) False ca) m" for m op
    by (rule ensures_rbind [OF that]) (simp add: evolves_settled)
  note ending = ending_keeps [OF assms(1) ev]
  show "ensures (ended R op ca) (agent_body cfg md r op ca)"
  proof (cases op)
    case (Op_callback cb)
    with ready have "ca_state ca \<noteq> TEAR_DOWN"
      by simp
    with assms ev ending show ?thesis
      unfolding agent_body_def Op_callback
      by (cases cb) (auto intro!: lift cs_recvReq_keeps ca_receivedStatus_keeps starting_keeps
          hold_resume_keeps)
  qed (use assms ev ready ending in \<open>auto simp: agent_body_def
      intro!: lift cs_end_keeps loops_keep ca_sendBusy_keeps\<close>)
qed

lemma agent_ok: "rec_ok (agent n cfg md)"
proof (induction n)
  case 0
  then show ?case
    by (simp add: rec_ok_def)
qed (simp add: agent_body_ok)

interpretation phone_leg: leg_controller "agent_of (agent n cfg md)" "settled R" for n cfg md R
  by (rule leg_controller_agent, rule agent_ok)

section \<open>Reachable calls\<close>

inductive reachable :: "facade \<Rightarrow> media \<Rightarrow> call \<Rightarrow> bool" for cfg md where
  start: "m_type msg = SIP_INVITE \<Longrightarrow> new_CallAgent cfg (phone cfg md) role msg rnd = ret ca \<Longrightarrow>
    reachable cfg md ca"
| step: "reachable cfg md ca \<Longrightarrow> call_step cfg md i ca = ret ca' \<Longrightarrow> reachable cfg md ca'"

text \<open>A new server is not live in the sense above until it rings; its leg never calls it back.\<close>

definition fresh :: "call \<Rightarrow> bool" where
  "fresh ca \<longleftrightarrow> ca_state ca = INIT \<and> ca_invokee ca \<and> myActiveFlg ca"

interpretation silent: leg_controller "\<lambda>cb (ca :: call). None" fresh
  by unfold_locales (auto simp: fresh_def dest: same_more)

lemma new_leg_inv:
  assumes "m_type msg = SIP_INVITE"
  shows "leg_inv (leg_call (new_UaBase role msg c rnd))" and "fresh (leg_call (new_UaBase role msg c rnd))"
  using assms by (simp_all add: leg_inv_def fresh_def leg_call_def new_UaBase_def uabase.defs)

lemma new_CallAgent_ok:
  assumes "m_type msg = SIP_INVITE" and "new_CallAgent cfg (phone cfg md) role msg rnd = ret ca"
  shows "leg_inv ca \<and> settled (myAgentRole ca) ca"
proof (cases role)
  case A_CLIENT
  let ?ca = "(leg_call (new_UaBase A_CLIENT msg True rnd))\<lparr> ca_state := TRYING \<rparr>"
  have "evolves (live A_CLIENT) False ?ca ?ca"
    using new_leg_inv [OF assms(1), of A_CLIENT True rnd]
    by (auto simp: evolves_def leg_inv_def live_def fresh_def)
  then have "ensures (evolves (settled A_CLIENT) False ?ca) (placeCall cfg (phone cfg md) ?ca)"
    unfolding phone_def by (intro placeCall_keeps agent_ok) simp_all
  with assms(2) A_CLIENT show ?thesis
    by (auto simp: new_CallAgent_def Let_def ensures_def evolves_def leg_call_def new_UaBase_def uabase.defs)
next
  case A_SERVER
  let ?ca = "leg_call (new_UaBase A_SERVER msg True rnd)"
  have ev: "evolves fresh False ?ca ?ca"
    using new_leg_inv [OF assms(1)] by (simp add: evolves_refl)
  from assms(2) A_SERVER obtain ca1 where "Idle_recvRequest msg ?ca = ret ca1" "ca = cs_ringing ca1"
    using assms(1)
    by (auto simp: new_CallAgent_def outcome_simps receivedMsg_def recvRequest_def leg_call_def
        new_UaBase_def uabase.defs)
  with silent.Idle_recvRequest_keeps [OF ev] have "leg_inv ca1" "fresh ca1" "myAgentRole ca1 = A_SERVER"
    by (auto simp: ensures_def evolves_def leg_call_def new_UaBase_def uabase.defs)
  with \<open>ca = cs_ringing ca1\<close> show ?thesis
    by (simp add: fresh_def leg_inv_def settled_def live_def cs_ringing_def)
qed

lemma call_step_ok:
  assumes "leg_inv ca" and "settled R ca" and "call_step cfg md i ca = ret ca'"
  shows "leg_inv ca' \<and> settled R ca' \<and> myAgentRole ca' = myAgentRole ca"
proof -
  have ev: "evolves (live R) False ca ca" and st: "ca_state ca \<noteq> TEAR_DOWN"
    using assms by (auto simp: evolves_def settled_def)
  note rec = agent_ok [of call_depth cfg md, folded phone_def]
  have draw: "evolves (live R) False ca ca1" "ca_state ca1 = ca_state ca"
    if "new_StatusMsg m code ca = (k, ca1)" for m code k ca1
    using new_StatusMsg_evolves_call [OF ev that] by auto
  have recv: "ensures (evolves (settled R) False ca) (receivedMsg cfg (agent_of (phone cfg md)) m ca)" for m
    unfolding phone_def by (rule phone_leg.receivedMsg_keeps [OF assms(1,2)])
  have "ensures (evolves (settled R) False ca) (call_step cfg md i ca)"
    unfolding call_step_def acceptCall_def using recv rec ev st draw
    by (auto simp: settledI Let_def intro!: ensures_intros
        split: call_input.splits option.splits send_result.splits prod.splits)
  with assms(3) show ?thesis
    by (auto simp: ensures_def evolves_def)
qed

lemma reachable_ok: "reachable cfg md ca \<Longrightarrow> leg_inv ca \<and> settled (myAgentRole ca) ca"
proof (induction rule: reachable.induct)
  case (step ca i ca')
  from call_step_ok [OF _ _ step.hyps(2), of "myAgentRole ca"] step.IH show ?case by simp
qed (rule new_CallAgent_ok)

end
