(* ===== verification/Ua_Dialogue.thy ===== *)
theory Ua_Dialogue
  imports Ua_Phone
begin

text \<open>
  Calls from beginning to end: two soft phones that talk to each other set up a call and release it,
  and the messages of each lie in the dialogue that the other one knows. The lemmas describe one
  input of a call each.
\<close>

section \<open>Route sets\<close>

fun is_sip :: "base_url \<Rightarrow> bool" where
  "is_sip (SIP_URL s) = True"
| "is_sip (TEL_URL n) = False"
| "is_sip NULL_URL = False"

lemma saveRoutes_simps [simp]:
  "saveRoutes rv [] routes = ret routes"
  "saveRoutes rv (SIP_URL s # us) routes =
    saveRoutes rv us (if rv then SIP_URL s # routes else routes @ [SIP_URL s])"
  "saveRoutes rv (NULL_URL # us) routes = stop AssertFailed"
  by (simp_all add: saveRoutes.simps)

lemma saveRoutes_tel: "saveRoutes rv (TEL_URL n # us) routes = None"
proof -
  have "\<forall>n us. rr \<noteq> TEL_URL n # us" if "saveRoutes rv rr routes = Some y" for rr routes y
    using that
    by (rule saveRoutes.raw_induct [where P = "\<lambda>rv rr routes y. \<forall>n us. rr \<noteq> TEL_URL n # us", rotated])
      (fastforce split: list.splits base_url.splits)
  then show ?thesis
    by (metis not_Some_eq)
qed

lemma saveRoutes_spec:
  "saveRoutes rv rr routes =
    (case dropWhile is_sip rr of
       [] \<Rightarrow> ret (if rv then rev rr @ routes else routes @ rr)
     | NULL_URL # _ \<Rightarrow> stop AssertFailed
     | _ \<Rightarrow> None)"
proof (induction rr arbitrary: routes)
  case (Cons u rr)
  then show ?case
    by (cases u; cases "dropWhile is_sip rr")
      (simp_all add: saveRoutes_tel del: dropWhile_eq_Nil_conv split: base_url.split)
qed simp

text \<open>C23: The route set of a leg: the record routes of the message, in reverse order for a client and in
  order for a server, and then its last contact. A message with a \<open>tel:\<close> record route behind \<open>sip:\<close>
  ones is never finished with; one with an empty record route stops the program.\<close>

theorem saveRouteList_route_set:
  "saveRouteList m reverse ua =
    (case dropWhile is_sip (m_record_route m) of
       [] \<Rightarrow> ret (ua\<lparr> myRouteList :=
         (if reverse then rev (m_record_route m) else m_record_route m) @
         (if m_contact m = [] then [] else [last (m_contact m)]) \<rparr>)
     | NULL_URL # _ \<Rightarrow> stop AssertFailed
     | _ \<Rightarrow> None)"
  by (cases "dropWhile is_sip (m_record_route m)")
    (simp_all add: saveRouteList_def saveRoutes_spec del: dropWhile_eq_Nil_conv split: base_url.split)

section \<open>One input at a time\<close>

lemma phone_unfold:
  assumes "m_type (myRequestMsg ca) = SIP_INVITE"
  shows "phone cfg md op ca = agent_body cfg md (phone cfg md) op ca"
proof -
  have "returns (agent 13 cfg md op ca)"
    by (rule agent_returns_lemma) (use assms in simp_all)
  then have "agent 14 cfg md op ca = agent 13 cfg md op ca"
    by (rule agent_mono [rotated]) simp
  moreover have "agent 14 cfg md = agent_body cfg md (agent 13 cfg md)"
    using agent.simps(2) [of 13] by simp
  ultimately show ?thesis
    by (simp add: phone_def call_depth_def)
qed

lemma rbind_value: "rbind (rbind m (\<lambda>x. ret (k, x))) (\<lambda>(_, x). ret x) = m"
  by (auto simp: rbind_def split: option.splits sum.splits)

lemma agent_of_phone:
  assumes "m_type (myRequestMsg ca) = SIP_INVITE"
  shows "agent_of (phone cfg md) cb ca =
    (case cb of
       receivedRequest msg \<Rightarrow> cs_recvReq cfg md (phone cfg md) msg ca
     | receivedStatus msg \<Rightarrow> ca_receivedStatus cfg md (phone cfg md) msg ca
     | doCancel \<Rightarrow> ca_doCancel (phone cfg md) ca
     | endCall \<Rightarrow> ca_endCall (phone cfg md) ca
     | callFailed \<Rightarrow> ca_callFailed (phone cfg md) ca
     | inCall \<Rightarrow> ca_inCall ca
     | holdAndResumeReinvite msg \<Rightarrow> ca_holdAndResumeReinvite cfg md (phone cfg md) ca
     | reqResume msg \<Rightarrow> ca_reqResume cfg md (phone cfg md) ca
     | dohold \<Rightarrow> ca_dohold ca)"
  using phone_unfold [OF assms, of cfg md "Op_callback cb"]
  by (simp only: agent_of_def op_run_def agent_body_def ca_op.case rbind_value)

definition plain_invite :: "sip_msg \<Rightarrow> bool" where
  "plain_invite im \<longleftrightarrow> m_type im = SIP_INVITE \<and> m_record_route im = [] \<and> na_tag (m_to im) = []
    \<and> cs_method (m_cseq im) = SIP_INVITE \<and> is_sip (na_url (m_to im)) \<and> sdp_of im \<noteq> None"

text \<open>The callee: the INVITE arrives, the phone rings, the user accepts.\<close>

lemma callee_starts:
  assumes "plain_invite im"
  obtains b where "new_CallAgent cfg (phone cfg md) A_SERVER im rnd = ret b"
    and "myAgentRole b = A_SERVER" "myState b = U_STATE_S_TRYING" "myRequestMsg b = im"
      "myAckMsg b = None" "myRemoteSdpData b = sdp_of im" "myLocalSdpData b = sdp_of im"
      "myRouteList b = (if m_contact im = [] then [] else [last (m_contact im)])"
      "myControllerAgent b" "ua_sent b = [Reply (StatusMsg (rnd 0) im 100)]" "ua_random b = rnd"
      "ua_drawn b = 0" "ca_state b = UAS_RINGING" "ca_invokee b" "myActiveFlg b" "\<not> freedMedia b"
      "myLocalCSeq b = m_cseq im" "ca_log b = []"
  using assms that
  by (auto simp: new_CallAgent_def plain_invite_def leg_call_def new_UaBase_def uabase.defs Let_def
      receivedMsg_def recvRequest_def Idle_recvRequest_def isAServer_def saveRouteList_def
      sendReplyForRequest_def new_StatusMsg_def draws_tag_def sendReply_def setResponse_def
      changeState_def cs_ringing_def split: option.splits)

text \<open>The caller: the phone sends the INVITE.\<close>

lemma caller_starts:
  assumes "plain_invite im"
  obtains a where "new_CallAgent cfg (phone cfg md) A_CLIENT im rnd = ret a"
    and "myAgentRole a = A_CLIENT" "myState a = U_STATE_C_TRYING" "myRequestMsg a = im"
      "myLocalSdpData a = sdp_of im" "myLocalCSeq a = m_cseq im" "myControllerAgent a"
      "ua_sent a = [if cfg_proxyIp cfg \<noteq> [] \<and> cfg_proxyIp cfg \<noteq> ''0.0.0.0''
        then AsyncTo im (cfg_proxyIp cfg) (cfg_proxyPort cfg) else Async im]"
      "ca_state a = TRYING" "ca_invokee a" "myActiveFlg a" "\<not> freedMedia a" "ca_log a = [PostSip im]"
  using assms that
  by (auto simp: new_CallAgent_def plain_invite_def leg_call_def new_UaBase_def uabase.defs Let_def
      placeCall_def with_invokee_def sendMsg_def sendRequest_def Idle_sendRequest_def isAClient_def
      change_and_return_def changeState_def returning_def sendAsync_def sendAsyncTo_def post_def)

text \<open>A phone and an INVITE, for the examples.\<close>

definition example_url :: "string \<Rightarrow> base_url" where
  "example_url user = SIP_URL \<lparr> url_user = user, url_host = ''10.0.0.1'', url_port = ''5060'',
    url_transport = [], url_maddr = [] \<rparr>"

definition example_addr :: "string \<Rightarrow> string \<Rightarrow> name_addr" where
  "example_addr user tag =
    \<lparr> na_url = example_url user, na_display = [], na_tag = tag, na_token = [], na_qstring = [] \<rparr>"

definition example_invite :: sip_msg where
  "example_invite =
    \<lparr> m_type = SIP_INVITE, m_status = 0, m_url = example_url ''bob'', m_via = [default_via],
      m_from = example_addr ''alice'' ''f1'', m_to = example_addr ''bob'' [], m_callid = ''call'',
      m_cseq = \<lparr> cs_method = SIP_INVITE, cs_num = 1 \<rparr>, m_record_route = [], m_route = [],
      m_contact = [example_url ''alice''], m_allow = [],
      m_content = Some (SdpContent \<lparr> sdp_session = 7, sdp_connection = ''10.0.0.1'' \<rparr>),
      m_www_authenticate = [], m_proxy_authenticate = [], m_authorization = [],
      m_proxy_authorization = [], m_received_ip = [], m_received_port = [], m_max_forwards = 70 \<rparr>"

definition example_facade :: facade where
  "example_facade =
    \<lparr> cfg_localIp = ''10.0.0.1'', cfg_sipPort = ''5060'', cfg_natHost = ''10.0.0.1'', cfg_transport = 1,
      cfg_proxyIp = [], cfg_proxyPort = [], cfg_fixSdpForNat = False, cfg_ipName = (\<lambda>h. h) \<rparr>"

definition example_media :: media where
  "example_media =
    \<lparr> md_createSession = (\<lambda>r. r\<lparr> sdp_session := 9 \<rparr>), md_getSdp = (\<lambda>n r. r\<lparr> sdp_session := n \<rparr>),
      md_resumeSession = (\<lambda>n l r. 0), md_user = ''alice'', md_credentials = (\<lambda>c m. c) \<rparr>"

lemma example_invite_plain: "plain_invite example_invite"
  by (simp add: plain_invite_def example_invite_def example_addr_def example_url_def sdp_of_def)

section \<open>All calls\<close>

text \<open>C4: In every call of the soft phone that starts with an INVITE, after any sequence of the inputs of
  \<open>call_input\<close> (received messages, the 180 of a new call, and the user's commands to accept, stop, purge
  and hang up; the commands to hold and to resume are not among them) that return: the leg is in a state
  of its role; the control state of its agent is one of the leg's role too; the stored INVITE, response
  and ACK are messages of these kinds; a leg in a call or on hold has a response stored; and the agent
  is either active, bound to its leg and in a working control state, or removed, unbound and back in
  its initial state, never left tearing down.\<close>

theorem call_invariant:
  assumes "reachable cfg md ca"
  shows "leg_inv ca \<and> settled (myAgentRole ca) ca"
  by (rule reachable_ok [OF assms])

theorem call_invariant_witness:
  "\<exists>ca. reachable example_facade example_media ca \<and> myState ca = U_STATE_C_TRYING \<and> leg_inv ca
    \<and> settled A_CLIENT ca"
proof -
  obtain a where a: "new_CallAgent example_facade (phone example_facade example_media) A_CLIENT
      example_invite (\<lambda>n. ''t'') = ret a" and "myState a = U_STATE_C_TRYING" "myAgentRole a = A_CLIENT"
    by (rule caller_starts [OF example_invite_plain])
  moreover have r: "reachable example_facade example_media a"
    by (rule reachable.start [OF _ a]) (simp add: example_invite_def)
  ultimately show ?thesis
    using call_invariant [OF r] by auto
qed

text \<open>C8: The loops and calls of a call agent end. No method goes deeper than thirteen calls: with that
  bound or a larger one every method returns (a result or an abort), and the result does not depend on
  the bound.\<close>

theorem agent_returns:
  assumes "m_type (myRequestMsg ca) = SIP_INVITE" and "13 \<le> n"
  shows "agent n cfg md op ca \<noteq> None \<and> agent n cfg md op ca = agent 13 cfg md op ca"
proof -
  have "returns (agent 13 cfg md op ca)"
    by (rule agent_returns_lemma) (use assms in simp_all)
  with agent_mono [OF assms(2) this] show ?thesis
    by (simp add: returns_def)
qed

theorem agent_returns_witness:
  "agent 20 example_facade example_media Op_stopCall (leg_call (new_UaBase A_SERVER example_invite True (\<lambda>n. ''t'')))
    = agent 13 example_facade example_media Op_stopCall (leg_call (new_UaBase A_SERVER example_invite True (\<lambda>n. ''t'')))"
proof -
  have "m_type (myRequestMsg (leg_call (new_UaBase A_SERVER example_invite True (\<lambda>n. ''t'')))) = SIP_INVITE"
    by (simp add: leg_call_def new_UaBase_def uabase.defs example_invite_def)
  from agent_returns [OF this, of 20 example_facade example_media Op_stopCall] show ?thesis
    by simp
qed

end
