(* ===== verification/Ua_Conversation.thy ===== *)
theory Ua_Conversation
  imports Ua_Dialogue
begin

text \<open>
  Two soft phones that talk to each other over a network that delivers every message once and in
  order. A conversation is the pair of calls with the messages that are on their way to each side; the
  theorems follow a call from the INVITE to its release, and the calls that end otherwise.
\<close>

section \<open>Conversations\<close>

datatype side = Caller | Callee

fun other :: "side \<Rightarrow> side" where
  "other Caller = Callee"
| "other Callee = Caller"

fun payload :: "sent \<Rightarrow> sip_msg" where
  "payload (Reply m) = m"
| "payload (Async m) = m"
| "payload (AsyncTo m host port) = m"

record conversation =
  calls :: "side \<Rightarrow> call"
  wire :: "side \<Rightarrow> sip_msg list"

record network =
  net_cfg :: "side \<Rightarrow> facade"
  net_media :: "side \<Rightarrow> media"
  net_ip :: "side \<Rightarrow> string"
  net_random :: "side \<Rightarrow> nat \<Rightarrow> string"

datatype event = Deliver side | User side call_input

text \<open>A message that arrives at a side carries the address it came from.\<close>

definition arriving :: "network \<Rightarrow> side \<Rightarrow> sip_msg \<Rightarrow> sip_msg" where
  "arriving net s m = m\<lparr> m_received_ip := net_ip net (other s) \<rparr>"

definition sent_since :: "call \<Rightarrow> call \<Rightarrow> sip_msg list" where
  "sent_since ca ca' = map payload (drop (length (ua_sent ca)) (ua_sent ca'))"

definition side_step :: "network \<Rightarrow> side \<Rightarrow> call_input \<Rightarrow> conversation \<Rightarrow> conversation run" where
  "side_step net s i c =
    rbind (call_step (net_cfg net s) (net_media net s) i (calls c s)) (\<lambda>ca.
      ret (c\<lparr> calls := (calls c)(s := ca),
              wire := (wire c)(other s := wire c (other s) @ sent_since (calls c s) ca) \<rparr>))"

fun exchange_step :: "network \<Rightarrow> event \<Rightarrow> conversation \<Rightarrow> conversation run" where
  "exchange_step net (User s i) c = side_step net s i c"
| "exchange_step net (Deliver s) c =
    (case wire c s of
       [] \<Rightarrow> ret c
     | m # ms \<Rightarrow> side_step net s (Received (arriving net s m)) (c\<lparr> wire := (wire c)(s := ms) \<rparr>))"

fun exchange :: "network \<Rightarrow> event list \<Rightarrow> conversation \<Rightarrow> conversation run" where
  "exchange net [] c = ret c"
| "exchange net (e # es) c = rbind (exchange_step net e c) (exchange net es)"

text \<open>The caller's phone sends the INVITE, and the callee's phone gets it.\<close>

definition new_agent :: "network \<Rightarrow> side \<Rightarrow> AgentRole \<Rightarrow> sip_msg \<Rightarrow> call run" where
  "new_agent net s role m =
    new_CallAgent (net_cfg net s) (phone (net_cfg net s) (net_media net s)) role m (net_random net s)"

definition place :: "network \<Rightarrow> sip_msg \<Rightarrow> conversation run" where
  "place net im =
    rbind (new_agent net Caller A_CLIENT im) (\<lambda>a.
    rbind (new_agent net Callee A_SERVER (arriving net Callee (payload (last (ua_sent a))))) (\<lambda>b.
      ret \<lparr> calls = (\<lambda>s. case s of Caller \<Rightarrow> a | Callee \<Rightarrow> b),
            wire = (\<lambda>s. case s of Caller \<Rightarrow> map payload (ua_sent b) | Callee \<Rightarrow> []) \<rparr>))"

section \<open>One input at a time\<close>

text \<open>The callee rings.\<close>

lemma callee_rings:
  fixes ca :: call
  assumes "myActiveFlg ca" "ca_invokee ca" "myState ca = U_STATE_S_TRYING"
    "m_type (myRequestMsg ca) = SIP_INVITE" "na_tag (m_to (myRequestMsg ca)) = []"
  defines "ringing \<equiv> StatusMsg (ua_random ca (Suc (ua_drawn ca))) (myRequestMsg ca) 180"
  shows "call_step cfg md Ring ca =
    ret (ca\<lparr> ua_drawn := Suc (Suc (ua_drawn ca)), ua_sent := ua_sent ca @ [Reply ringing],
             myResponseMsg := Some ringing, myState := U_STATE_RINGING \<rparr>)"
  using assms
  by (simp add: call_step_def with_invokee_def new_StatusMsg_def draws_tag_def sendMsg_def sendStatus_def
      STrying_sendStatus_def sendReplyForRequest_def sdp_body_def sdp_of_def sendReply_def setResponse_def
      change_and_return_def changeState_def returning_def)

text \<open>The callee accepts.\<close>

definition answer_of :: "facade \<Rightarrow> media \<Rightarrow> sdp \<Rightarrow> sip_url \<Rightarrow> string \<Rightarrow> sip_msg \<Rightarrow> sip_msg" where
  "answer_of cfg md offer u tag im =
    (StatusMsg tag im 200)\<lparr> m_content := Some (SdpContent (md_createSession md offer)),
       m_contact := [SIP_URL (u\<lparr> url_host := cfg_natHost cfg, url_port := cfg_sipPort cfg \<rparr>)] \<rparr>"

lemma callee_accepts:
  fixes ca :: call and cfg :: facade and md :: media and offer :: sdp and u :: sip_url
  assumes "myActiveFlg ca" "ca_invokee ca" "myState ca = U_STATE_RINGING" "myAgentRole ca = A_SERVER"
    "ca_state ca = UAS_RINGING" "myControllerAgent ca"
    "m_type (myRequestMsg ca) = SIP_INVITE" "na_tag (m_to (myRequestMsg ca)) = []"
    "sdp_of (myRequestMsg ca) = Some offer" "na_url (m_to (myRequestMsg ca)) = SIP_URL u"
    "myRemoteSdpData ca = Some remote"
  defines "answer \<equiv> answer_of cfg md offer u (ua_random ca (Suc (ua_drawn ca))) (myRequestMsg ca)"
    and "draft \<equiv> (StatusMsg (ua_random ca (ua_drawn ca)) (myRequestMsg ca) 200)\<lparr>
      m_contact := [own_contact cfg md], m_content := Some (SdpContent (md_createSession md offer)) \<rparr>"
  shows "call_step cfg md Accept ca =
    ret (ca\<lparr> ua_drawn := Suc (Suc (ua_drawn ca)), ua_sent := ua_sent ca @ [Reply answer],
             myLocalSdpData := Some (md_createSession md offer),
             myResponseMsg := Some answer, myCallLegState := C_LIVE, myState := U_STATE_INCALL,
             ca_state := IN_CALL,
             ca_log := ca_log ca @ [StartSession (sdp_session (md_createSession md offer)), PostSip draft] \<rparr>)"
  using assms
  by (simp add: call_step_def acceptCall_def with_invokee_def new_StatusMsg_def draws_tag_def sendMsg_def
      sendStatus_def Ringing_sendStatus_def contact_reply_def sdp_body_def sdp_of_def sendReply_def
      setResponse_def set_local_sdp_def notify_def agent_of_phone ca_inCall_def cs_inCall_def
      startSession_def local_sdp_def post_def answer_of_def
      change_and_return_def changeState_def returning_def Let_def)

text \<open>The caller gets the provisional responses and the answer.\<close>

lemma caller_gets_provisional:
  fixes ca :: call
  assumes "myActiveFlg ca" "ca_invokee ca" "myState ca = U_STATE_C_TRYING" "myControllerAgent ca"
    "ca_state ca = TRYING" "m_type (myRequestMsg ca) = SIP_INVITE" "m_type m = SIP_STATUS"
  shows "m_status m = 100 \<Longrightarrow> call_step cfg md (Received m) ca = ret ca"
    and "m_status m = 180 \<Longrightarrow> call_step cfg md (Received m) ca =
      ret (ca\<lparr> myState := U_STATE_RINGING, ca_state := UAC_RINGING \<rparr>)"
  using assms
  by (simp_all add: call_step_def receivedMsg_def recvStatus_def CTrying_recvStatus_def Let_def notify_def
      agent_of_phone ca_receivedStatus_def cs_recvStatus_def cs_ringing_def changeState_def)

definition ack_of :: "sip_msg \<Rightarrow> sip_msg \<Rightarrow> sip_msg" where
  "ack_of m im = (AckMsg m)\<lparr> m_via := [getVia0 im], m_route := [],
     m_url := (case m_url im of SIP_URL u \<Rightarrow> SIP_URL u | _ \<Rightarrow> NULL_URL) \<rparr>"

lemma caller_gets_answer:
  fixes ca :: call
  assumes "myActiveFlg ca" "ca_invokee ca" "myState ca = U_STATE_RINGING" "myControllerAgent ca"
    "ca_state ca = UAC_RINGING" "m_type (myRequestMsg ca) = SIP_INVITE" "m_type m = SIP_STATUS"
    "m_status m = 200" "cs_method (m_cseq m) = SIP_INVITE" "m_record_route m = []" "m_contact m = [contact]"
    "sdp_of m = Some remote" "myLocalSdpData ca = Some own" "\<not> cfg_fixSdpForNat cfg"
  shows "call_step cfg md (Received m) ca =
    ret (ca\<lparr> myResponseMsg := Some m, myRouteList := [contact], myRemoteSdpData := Some remote,
             myLocalCSeq := m_cseq m, ua_sent := ua_sent ca @ [Async (ack_of m (myRequestMsg ca))],
             myCallLegState := C_LIVE, myState := U_STATE_INCALL, ca_state := IN_CALL,
             ca_log := ca_log ca @ [StartSession (sdp_session own)] \<rparr>)"
  using assms
  by (simp add: call_step_def receivedMsg_def recvStatus_def Ringing_recvStatus_def Let_def notify_def
      agent_of_phone ca_receivedStatus_def cs_recvStatus_def changeState_def fixSdpForNat_def
      setResponse_def saveRouteList_def ca_inCall_def cs_inCall_def startSession_def local_sdp_def
      with_invokee_def post_def ackStatus_def sendAsync_def ack_of_def)

lemma callee_gets_ack:
  fixes ca :: call
  assumes "myActiveFlg ca" "myState ca = U_STATE_INCALL" "myControllerAgent ca" "ca_state ca = IN_CALL"
    "m_type (myRequestMsg ca) = SIP_INVITE" "m_type m = SIP_ACK"
  shows "call_step cfg md (Received m) ca = ret (ca\<lparr> myAckMsg := Some m \<rparr>)"
  using assms
  by (simp add: call_step_def receivedMsg_def recvRequest_def InCall_recvRequest_def setAck_def notify_def
      agent_of_phone cs_recvReq_def)

text \<open>The end of a call: the agent frees its media, tears down and is removed.\<close>

definition ended_call :: "call \<Rightarrow> call" where
  "ended_call ca =
    ca\<lparr> ca_state := INIT, ca_invokee := False, myActiveFlg := False, freedMedia := True,
        ca_log := ca_log ca @ (case myLocalSdpData ca of None \<Rightarrow> [] | Some l \<Rightarrow> [FreeSession (sdp_session l)])
          @ [ReleaseDevice, AgentRemoved, CallEnded] \<rparr>"

lemma endCall_ends:
  assumes "myActiveFlg ca" "ca_invokee ca" "\<not> freedMedia ca" "ca_state ca = IN_CALL \<or> ca_state ca = HOLD"
    "m_type (myRequestMsg ca) = SIP_INVITE" "myLocalSdpData ca = Some own"
  shows "ca_endCall (phone cfg md) ca = ret (ended_call ca)"
  using assms
  by (simp add: ca_endCall_def freeMedia_def local_sdp_def with_invokee_def post_def cs_bye_def op_run_def
      phone_unfold agent_body_def end_loop_def cs_end_def setDeleted_def ended_call_def)

lemma getNextCSeq_small [simp]: "setCSeq (getNextCSeq c) d = d\<lparr> cs_num := getNextCSeq c \<rparr>"
proof -
  have "getNextCSeq c < 0x80000000"
    unfolding getNextCSeq_def by unat_arith
  then show ?thesis
    by (simp add: setCSeq_def)
qed

lemma route_bye_simps [simp]:
  "m_type (route_bye cfg rs m) = m_type m" "m_cseq (route_bye cfg rs m) = m_cseq m"
  "m_from (route_bye cfg rs m) = m_from m" "m_to (route_bye cfg rs m) = m_to m"
  "m_callid (route_bye cfg rs m) = m_callid m"
  by (simp_all add: route_bye_def split: list.splits)

text \<open>The BYE of a leg, and hanging up.\<close>

definition bye_of :: "facade \<Rightarrow> call \<Rightarrow> sip_msg \<Rightarrow> sip_msg" where
  "bye_of cfg ca m =
    (route_bye cfg (myRouteList ca) (if isAClient ca then ByeMsg_of_status m else ByeMsg_of_command m))\<lparr>
      m_cseq := \<lparr> cs_method = SIP_BYE, cs_num = getNextCSeq (myLocalCSeq ca) \<rparr> \<rparr>"

lemma client_hangs_up:
  assumes "myActiveFlg ca" "ca_invokee ca" "\<not> freedMedia ca" "ca_state ca = IN_CALL"
    "m_type (myRequestMsg ca) = SIP_INVITE" "myLocalSdpData ca = Some own"
    "myAgentRole ca = A_CLIENT" "myResponseMsg ca = Some answer"
  shows "call_step cfg md Hangup ca =
    ret (ended_call (ca\<lparr> myLocalCSeq := incrCSeq (myLocalCSeq ca),
                         ua_sent := ua_sent ca @ [Async (bye_of cfg ca answer)],
                         ca_log := ca_log ca @ [PostSip (bye_of cfg ca answer)] \<rparr>))"
  using assms
  by (simp add: call_step_def op_run_def phone_unfold agent_body_def ca_doBye_def canBye_def with_invokee_def
      sendBye_def Let_def sendAsync_def post_def endCall_ends bye_of_def isAClient_def incrCSeq_def)

lemma server_hangs_up:
  assumes "myActiveFlg ca" "ca_invokee ca" "\<not> freedMedia ca" "ca_state ca = IN_CALL"
    "m_type (myRequestMsg ca) = SIP_INVITE" "myLocalSdpData ca = Some own"
    "myAgentRole ca = A_SERVER" "myAckMsg ca = Some ack"
  shows "call_step cfg md Hangup ca =
    ret (ended_call (ca\<lparr> ua_sent := ua_sent ca @ [Async (bye_of cfg ca ack)],
                         ca_log := ca_log ca @ [PostSip (bye_of cfg ca ack)] \<rparr>))"
  using assms
  by (simp add: call_step_def op_run_def phone_unfold agent_body_def ca_doBye_def canBye_def with_invokee_def
      sendBye_def Let_def sendAsync_def post_def endCall_ends bye_of_def isAClient_def ByeMsg_of_command_def)

text \<open>The other side answers the BYE and ends its call.\<close>

lemma peer_gets_bye:
  assumes "myActiveFlg ca" "ca_invokee ca" "\<not> freedMedia ca" "ca_state ca = IN_CALL"
    "m_type (myRequestMsg ca) = SIP_INVITE" "myLocalSdpData ca = Some own" "myState ca = U_STATE_INCALL"
    "myControllerAgent ca" "m_type m = SIP_BYE" "na_tag (m_to m) \<noteq> []"
  shows "call_step cfg md (Received m) ca =
    ret (ended_call (ca\<lparr> ua_sent := ua_sent ca @ [Reply (StatusMsg (ua_random ca (ua_drawn ca)) m 200)],
                         myResponseMsg := Some (StatusMsg (ua_random ca (ua_drawn ca)) m 200),
                         myState := U_STATE_IDLE \<rparr>))"
  using assms
  by (simp add: call_step_def receivedMsg_def recvRequest_def InCall_recvRequest_def peer_bye_def
      sendReplyForRequest_def new_StatusMsg_def draws_tag_def sendReply_def setResponse_def agent_of_phone
      endCall_ends changeState_def cs_recvReq_def ended_call_def)

section \<open>A call from beginning to end\<close>

text \<open>What a message says of its place in a dialogue.\<close>

definition gist :: "sip_msg \<Rightarrow> (sip_method \<times> int) \<times> sip_cseq \<times> string \<times> string \<times> string" where
  "gist m = ((m_type m, if m_type m = SIP_STATUS then m_status m else 0), m_cseq m, m_callid m, na_tag (m_from m), na_tag (m_to m))"

definition gists :: "call \<Rightarrow> ((sip_method \<times> int) \<times> sip_cseq \<times> string \<times> string \<times> string) list" where
  "gists ca = map (gist \<circ> payload) (ua_sent ca)"

fun is_session :: "ca_event \<Rightarrow> bool" where
  "is_session (StartSession n) = True"
| "is_session (FreeSession n) = True"
| "is_session (SuspendSession n) = True"
| "is_session (ResumeSession n) = True"
| "is_session _ = False"

definition sessions :: "call \<Rightarrow> ca_event list" where
  "sessions ca = filter is_session (ca_log ca)"

definition ring_up :: "event list" where
  "ring_up = [User Callee Ring, Deliver Caller, Deliver Caller]"

definition set_up :: "event list" where
  "set_up = ring_up @ [User Callee Accept, Deliver Caller, Deliver Callee]"

lemma exchange_append: "exchange net (es @ fs) = (\<lambda>c. rbind (exchange net es c) (exchange net fs))"
  by (induction es) (auto simp: rbind_assoc)

lemma exchange_after:
  assumes "rbind m (exchange net es) = ret c0" and "exchange net fs c0 = r"
  shows "rbind m (exchange net (es @ fs)) = r"
  using assms by (simp add: exchange_append flip: rbind_assoc)

text \<open>An established call: both sides are in the call, and what they have stored lies in one dialogue.\<close>

definition in_call :: "call \<Rightarrow> bool" where
  "in_call ca \<longleftrightarrow> myActiveFlg ca \<and> ca_invokee ca \<and> \<not> freedMedia ca \<and> ca_state ca = IN_CALL
    \<and> myState ca = U_STATE_INCALL \<and> myControllerAgent ca \<and> m_type (myRequestMsg ca) = SIP_INVITE"

definition own_tag :: "network \<Rightarrow> sip_msg \<Rightarrow> side \<Rightarrow> string" where
  "own_tag net im s = (case s of Caller \<Rightarrow> na_tag (m_from im) | Callee \<Rightarrow> net_random net Callee 3)"

definition session_of :: "network \<Rightarrow> sip_msg \<Rightarrow> side \<Rightarrow> nat" where
  "session_of net im s =
    sdp_session ((case s of Caller \<Rightarrow> (\<lambda>offer. offer) | Callee \<Rightarrow> md_createSession (net_media net Callee))
      (the (sdp_of im)))"

definition in_dialogue :: "network \<Rightarrow> sip_msg \<Rightarrow> sip_msg \<Rightarrow> bool" where
  "in_dialogue net im m \<longleftrightarrow> m_callid m = m_callid im \<and> cs_num (m_cseq m) = cs_num (m_cseq im)
    \<and> na_tag (m_from m) = own_tag net im Caller \<and> na_tag (m_to m) = own_tag net im Callee"

definition established :: "network \<Rightarrow> sip_msg \<Rightarrow> conversation \<Rightarrow> bool" where
  "established net im c \<longleftrightarrow>
    (\<forall>s. wire c s = [] \<and> in_call (calls c s) \<and> myLocalCSeq (calls c s) = m_cseq im
       \<and> map_option sdp_session (myLocalSdpData (calls c s)) = Some (session_of net im s)
       \<and> sessions (calls c s) = [StartSession (session_of net im s)])
    \<and> myAgentRole (calls c Caller) = A_CLIENT \<and> myAgentRole (calls c Callee) = A_SERVER
    \<and> (\<exists>m. myResponseMsg (calls c Caller) = Some m \<and> in_dialogue net im m)
    \<and> (\<exists>m. myAckMsg (calls c Callee) = Some m \<and> in_dialogue net im m)
    \<and> gists (calls c Caller) =
        [((SIP_INVITE, 0), m_cseq im, m_callid im, own_tag net im Caller, []),
         ((SIP_ACK, 0), (m_cseq im)\<lparr> cs_method := SIP_ACK \<rparr>, m_callid im, own_tag net im Caller, own_tag net im Callee)]
    \<and> gists (calls c Callee) =
        [((SIP_STATUS, 100), m_cseq im, m_callid im, own_tag net im Caller, []),
         ((SIP_STATUS, 180), m_cseq im, m_callid im, own_tag net im Caller, net_random net Callee 1),
         ((SIP_STATUS, 200), m_cseq im, m_callid im, own_tag net im Caller, own_tag net im Callee)]"

lemma all_sides: "(\<forall>s. P s) \<longleftrightarrow> P Caller \<and> P Callee"
  by (metis side.exhaust)

lemma StatusMsg_to: "m_to (StatusMsg tag im code) =
    (if draws_tag im code then (m_to im)\<lparr> na_tag := tag \<rparr> else m_to im)"
  "m_record_route (StatusMsg tag im code) = (if code > 100 \<and> code \<le> 200 then m_record_route im else [])"
  by (simp_all add: StatusMsg_def)

lemma arriving_simps [simp]:
  "m_type (arriving net s m) = m_type m" "m_status (arriving net s m) = m_status m"
  "m_cseq (arriving net s m) = m_cseq m" "m_callid (arriving net s m) = m_callid m"
  "m_from (arriving net s m) = m_from m" "m_to (arriving net s m) = m_to m"
  "m_content (arriving net s m) = m_content m" "m_contact (arriving net s m) = m_contact m"
  "m_record_route (arriving net s m) = m_record_route m" "sdp_of (arriving net s m) = sdp_of m"
  by (simp_all add: arriving_def sdp_of_def)

lemma plain_arriving [simp]: "plain_invite (arriving net s im) \<longleftrightarrow> plain_invite im"
  by (simp add: plain_invite_def)

lemma answer_of_simps [simp]:
  "m_type (answer_of cfg md offer u tag im) = SIP_STATUS" "m_status (answer_of cfg md offer u tag im) = 200"
  "m_cseq (answer_of cfg md offer u tag im) = m_cseq im" "m_callid (answer_of cfg md offer u tag im) = m_callid im"
  "m_from (answer_of cfg md offer u tag im) = m_from im"
  "sdp_of (answer_of cfg md offer u tag im) = Some (md_createSession md offer)"
  "m_record_route (answer_of cfg md offer u tag im) = m_record_route im"
  "m_contact (answer_of cfg md offer u tag im) =
    [SIP_URL (u\<lparr> url_host := cfg_natHost cfg, url_port := cfg_sipPort cfg \<rparr>)]"
  "m_to (answer_of cfg md offer u tag im) =
    (if na_tag (m_to im) = [] then (m_to im)\<lparr> na_tag := tag \<rparr> else m_to im)"
  by (simp_all add: answer_of_def sdp_of_def StatusMsg_to draws_tag_def)

text \<open>A call that rings.\<close>

definition ringing :: "network \<Rightarrow> sip_msg \<Rightarrow> conversation \<Rightarrow> bool" where
  "ringing net im c \<longleftrightarrow>
    (\<forall>s. wire c s = [] \<and> myActiveFlg (calls c s) \<and> ca_invokee (calls c s) \<and> \<not> freedMedia (calls c s)
       \<and> myState (calls c s) = U_STATE_RINGING \<and> myControllerAgent (calls c s)
       \<and> myLocalCSeq (calls c s) = m_cseq im \<and> sessions (calls c s) = []
       \<and> myLocalSdpData (calls c s) = sdp_of im)
    \<and> myAgentRole (calls c Caller) = A_CLIENT \<and> myAgentRole (calls c Callee) = A_SERVER
    \<and> ca_state (calls c Caller) = UAC_RINGING \<and> ca_state (calls c Callee) = UAS_RINGING
    \<and> myRequestMsg (calls c Caller) = im \<and> myRequestMsg (calls c Callee) = arriving net Callee im
    \<and> myRemoteSdpData (calls c Callee) = sdp_of im
    \<and> ua_random (calls c Callee) = net_random net Callee \<and> ua_drawn (calls c Callee) = 2
    \<and> gists (calls c Caller) = [((SIP_INVITE, 0), m_cseq im, m_callid im, na_tag (m_from im), [])]
    \<and> gists (calls c Callee) =
        [((SIP_STATUS, 100), m_cseq im, m_callid im, na_tag (m_from im), []),
         ((SIP_STATUS, 180), m_cseq im, m_callid im, na_tag (m_from im), net_random net Callee 1)]"

lemma call_rings:
  assumes "plain_invite im"
  obtains c where "rbind (place net im) (exchange net ring_up) = ret c" and "ringing net im c"
proof -
  let ?im = "arriving net Callee im"
  obtain a where a: "new_agent net Caller A_CLIENT im = ret a" "myAgentRole a = A_CLIENT"
      "myState a = U_STATE_C_TRYING" "myRequestMsg a = im" "myLocalSdpData a = sdp_of im"
      "myLocalCSeq a = m_cseq im" "myControllerAgent a" "payload (last (ua_sent a)) = im"
      "map (gist \<circ> payload) (ua_sent a) = [gist im]" "ca_state a = TRYING" "ca_invokee a"
      "myActiveFlg a" "\<not> freedMedia a" "ca_log a = [PostSip im]"
    unfolding new_agent_def
    by (rule caller_starts [OF assms(1), of "net_cfg net Caller" "net_media net Caller" "net_random net Caller"])
      (auto split: if_splits)
  obtain b where b: "new_agent net Callee A_SERVER ?im = ret b" "myAgentRole b = A_SERVER"
      "myState b = U_STATE_S_TRYING" "myRequestMsg b = ?im" "myRemoteSdpData b = sdp_of ?im"
      "myLocalSdpData b = sdp_of ?im" "myControllerAgent b"
      "ua_sent b = [Reply (StatusMsg (net_random net Callee 0) ?im 100)]"
      "ua_random b = net_random net Callee" "ua_drawn b = 0" "ca_state b = UAS_RINGING" "ca_invokee b"
      "myActiveFlg b" "\<not> freedMedia b" "myLocalCSeq b = m_cseq ?im" "ca_log b = []"
    unfolding new_agent_def
    by (rule callee_starts [of ?im "net_cfg net Callee" "net_media net Callee" "net_random net Callee"])
      (use assms(1) in auto)
  have "\<exists>c. rbind (place net im) (exchange net ring_up) = ret c \<and> ringing net im c"
    using assms
    by (simp add: place_def a b ring_up_def side_step_def sent_since_def callee_rings caller_gets_provisional
      plain_invite_def ringing_def all_sides sessions_def gists_def gist_def StatusMsg_to draws_tag_def
      numeral_2_eq_2)
  with that show ?thesis
    by blast
qed

lemma call_set_up:
  assumes "plain_invite im" and "\<not> cfg_fixSdpForNat (net_cfg net Caller)"
  obtains c where "rbind (place net im) (exchange net set_up) = ret c" and "established net im c"
proof -
  obtain offer where offer: "sdp_of im = Some offer"
    using assms(1) by (auto simp: plain_invite_def)
  obtain u where u: "na_url (m_to im) = SIP_URL u"
    using assms(1) by (cases "na_url (m_to im)") (auto simp: plain_invite_def)
  obtain c0 where c0: "rbind (place net im) (exchange net ring_up) = ret c0" and r: "ringing net im c0"
    by (rule call_rings [OF assms(1)])
  have "\<exists>c. exchange net [User Callee Accept, Deliver Caller, Deliver Callee] c0 = ret c \<and> established net im c"
    using assms r
    by (simp add: side_step_def sent_since_def callee_accepts caller_gets_answer callee_gets_ack
      plain_invite_def u offer established_def ringing_def all_sides in_call_def sessions_def session_of_def
      in_dialogue_def own_tag_def ack_of_def numeral_3_eq_3 numeral_2_eq_2 gists_def gist_def)
  with that exchange_after [OF c0] show ?thesis
    unfolding set_up_def by blast
qed

lemma ended_call_simps [simp]:
  "\<not> myActiveFlg (ended_call ca)" "\<not> ca_invokee (ended_call ca)" "ca_state (ended_call ca) = INIT"
  "ua_sent (ended_call ca) = ua_sent ca" "gists (ended_call ca) = gists ca"
  "myLocalSdpData ca = Some own \<Longrightarrow> sessions (ended_call ca) = sessions ca @ [FreeSession (sdp_session own)]"
  by (simp_all add: ended_call_def gists_def sessions_def)

lemma bye_of_simps [simp]:
  "m_type (bye_of cfg ca m) = SIP_BYE"
  "m_cseq (bye_of cfg ca m) = \<lparr> cs_method = SIP_BYE, cs_num = getNextCSeq (myLocalCSeq ca) \<rparr>"
  "m_callid (bye_of cfg ca m) = m_callid m"
  "m_from (bye_of cfg ca m) = (if isAClient ca then m_from m else m_to m)"
  "m_to (bye_of cfg ca m) = (if isAClient ca then m_to m else m_from m)"
  by (simp_all add: bye_of_def ByeMsg_of_command_def)

text \<open>One side of an established call hangs up, and the other side gets the BYE.\<close>

definition released :: "network \<Rightarrow> sip_msg \<Rightarrow> side \<Rightarrow> conversation \<Rightarrow> conversation \<Rightarrow> bool" where
  "released net im s c c' \<longleftrightarrow>
    (\<forall>t. \<not> myActiveFlg (calls c' t) \<and> \<not> ca_invokee (calls c' t) \<and> ca_state (calls c' t) = INIT
       \<and> sessions (calls c' t) = [StartSession (session_of net im t), FreeSession (session_of net im t)])
    \<and> (let place = (\<lparr> cs_method = SIP_BYE, cs_num = getNextCSeq (m_cseq im) \<rparr>, m_callid im,
                    own_tag net im s, own_tag net im (other s)) in
       gists (calls c' s) = gists (calls c s) @ [((SIP_BYE, 0), place)]
       \<and> gists (calls c' (other s)) = gists (calls c (other s)) @ [((SIP_STATUS, 200), place)])"

lemma call_release:
  assumes "established net im c" and "own_tag net im Caller \<noteq> []" "own_tag net im Callee \<noteq> []"
  shows "\<exists>c'. exchange net [User s Hangup, Deliver (other s)] c = ret c' \<and> released net im s c c'"
proof -
  obtain n k answer ack where "myLocalSdpData (calls c Caller) = Some n" "myLocalSdpData (calls c Callee) = Some k"
    "sdp_session n = session_of net im Caller" "sdp_session k = session_of net im Callee"
    "myResponseMsg (calls c Caller) = Some answer" "in_dialogue net im answer"
    "myAckMsg (calls c Callee) = Some ack" "in_dialogue net im ack"
    using assms(1) by (auto simp: established_def all_sides)
  then show ?thesis
    using assms unfolding established_def all_sides in_call_def in_dialogue_def
    by (cases s) (simp_all add: released_def all_sides side_step_def sent_since_def Let_def
        client_hangs_up server_hangs_up peer_gets_bye isAClient_def gists_def gist_def sessions_def
        StatusMsg_to draws_tag_def ended_call_def)
qed

text \<open>C2: Two phones set up a call and release it. For every INVITE without record routes that offers a
  session: when the callee's phone rings, the caller gets the provisional responses, the callee accepts
  and answer and ACK are delivered, both phones are in the call with their own media session started, and
  the stored response and ACK, from which later requests are made, carry the call id, the number and the
  tags of one dialogue. Then, whichever side hangs up, its BYE has the next number and names the two ends
  by their tags as the other side knows them; the other side answers it, and both agents have freed the
  session that they started and are removed. The tag of the 180 is another one than that of the 200.\<close>

theorem call_setup_and_release:
  assumes "plain_invite im" and "\<not> cfg_fixSdpForNat (net_cfg net Caller)"
    and "own_tag net im Caller \<noteq> []" and "own_tag net im Callee \<noteq> []"
  shows "\<exists>c. rbind (place net im) (exchange net set_up) = ret c \<and> established net im c
    \<and> (\<forall>s. \<exists>c'. exchange net [User s Hangup, Deliver (other s)] c = ret c' \<and> released net im s c c')"
proof -
  obtain c where "rbind (place net im) (exchange net set_up) = ret c" and "established net im c"
    by (rule call_set_up [OF assms(1,2)])
  with call_release [OF _ assms(3,4)] show ?thesis
    by blast
qed

definition example_network :: network where
  "example_network =
    \<lparr> net_cfg = (\<lambda>s. example_facade), net_media = (\<lambda>s. example_media), net_ip = (\<lambda>s. ''10.0.0.1''),
      net_random = (\<lambda>s n. replicate (Suc n) (CHR ''t'')) \<rparr>"

theorem call_setup_and_release_witness:
  "\<exists>c. rbind (place example_network example_invite) (exchange example_network set_up) = ret c
    \<and> established example_network example_invite c
    \<and> (\<forall>s. \<exists>c'. exchange example_network [User s Hangup, Deliver (other s)] c = ret c'
         \<and> released example_network example_invite s c c')"
  by (rule call_setup_and_release [OF example_invite_plain])
    (simp_all add: example_network_def example_facade_def own_tag_def example_invite_def example_addr_def)

section \<open>Calls that are not answered\<close>

lemma call_step_inactive: "\<not> myActiveFlg ca \<Longrightarrow> call_step cfg md i ca = ret ca"
  by (simp add: call_step_def)

text \<open>An agent that is removed without \<open>endCall\<close>.\<close>

definition removed_call :: "call \<Rightarrow> call" where
  "removed_call ca =
    ca\<lparr> ca_state := INIT, ca_invokee := False, myActiveFlg := False, ca_log := ca_log ca @ [AgentRemoved] \<rparr>"

lemma endLoop_tear_down:
  assumes "ca_invokee ca" "ca_state ca = TEAR_DOWN" "m_type (myRequestMsg ca) = SIP_INVITE"
  shows "phone cfg md Op_endLoop ca = ret (0, removed_call ca)"
  using assms
  by (simp add: phone_unfold agent_body_def end_loop_def cs_end_def setDeleted_def post_def removed_call_def)

lemma end_init:
  assumes "ca_state ca = INIT" "m_type (myRequestMsg ca) = SIP_INVITE"
  shows "phone cfg md Op_end ca = ret (0, ca)" "phone cfg md Op_endLoop ca = ret (0, ca)"
    "phone cfg md Op_busyLoop ca = ret (0, ca)"
  using assms by (simp_all add: phone_unfold agent_body_def end_loop_def busy_loop_def cs_end_def)

lemma callFailed_removes:
  assumes "ca_invokee ca" "ca_state ca \<in> {UAS_RINGING, UAC_RINGING}" "m_type (myRequestMsg ca) = SIP_INVITE"
  shows "ca_callFailed (phone cfg md) ca =
    ret (post (PostMsg ''L_HANGUP CALL_FAILED'') (removed_call ca))"
  using assms
  by (auto simp: ca_callFailed_def op_run_def cs_cancel_def endLoop_tear_down removed_call_def)

text \<open>The callee declines: the phone sends 486, and its agent is gone before the ACK comes.\<close>

definition decline_of :: "facade \<Rightarrow> sip_url \<Rightarrow> string \<Rightarrow> sip_msg \<Rightarrow> sip_msg" where
  "decline_of cfg u tag im = (StatusMsg tag im 486)\<lparr>
     m_contact := [SIP_URL (u\<lparr> url_host := cfg_natHost cfg, url_port := cfg_sipPort cfg \<rparr>)] \<rparr>"

lemma decline_of_simps [simp]:
  "m_type (decline_of cfg u tag im) = SIP_STATUS" "m_status (decline_of cfg u tag im) = 486"
  "m_cseq (decline_of cfg u tag im) = m_cseq im" "m_callid (decline_of cfg u tag im) = m_callid im"
  "m_from (decline_of cfg u tag im) = m_from im"
  "m_to (decline_of cfg u tag im) =
    (if na_tag (m_to im) = [] then (m_to im)\<lparr> na_tag := tag \<rparr> else m_to im)"
  by (simp_all add: decline_of_def StatusMsg_to draws_tag_def)

lemma callee_declines:
  assumes "myActiveFlg ca" "ca_invokee ca" "myState ca = U_STATE_RINGING" "ca_state ca = UAS_RINGING"
    "myControllerAgent ca" "m_type (myRequestMsg ca) = SIP_INVITE" "\<not> freedMedia ca"
    "na_tag (m_to (myRequestMsg ca)) = []" "na_url (m_to (myRequestMsg ca)) = SIP_URL u"
  shows "\<exists>ca'. call_step cfg md Stop ca = ret ca' \<and> \<not> myActiveFlg ca' \<and> \<not> ca_invokee ca' \<and> ca_state ca' = INIT
    \<and> freedMedia ca' \<and> sessions ca' = sessions ca
    \<and> ua_sent ca' = ua_sent ca @
        [Reply (decline_of cfg u (ua_random ca (Suc (ua_drawn ca))) (myRequestMsg ca))]"
  using assms
  by (simp add: call_step_def op_run_def phone_unfold [of ca] agent_body_def ca_stopCall_def end_loop_def
      cs_end_def fail_to_tear_down_def ca_sendBusy_def with_invokee_def new_StatusMsg_def draws_tag_def sendMsg_def
      sendStatus_def Ringing_sendStatus_def contact_reply_def sendReply_def setResponse_def notify_def
      agent_of_phone callFailed_removes removed_call_def post_def change_and_return_def changeState_def
      returning_def cs_cancel_def end_init decline_of_def freeMedia_def sessions_def Let_def)

text \<open>The caller gets a final response other than a success.\<close>

lemma caller_gets_failure:
  assumes "myActiveFlg ca" "ca_invokee ca" "myState ca = U_STATE_RINGING" "ca_state ca = UAC_RINGING"
    "myControllerAgent ca" "m_type (myRequestMsg ca) = SIP_INVITE" "\<not> freedMedia ca"
    "myLocalSdpData ca = Some own" "m_type m = SIP_STATUS" "m_status m = 486" "cs_method (m_cseq m) = SIP_INVITE"
  shows "\<exists>ca'. call_step cfg md (Received m) ca = ret ca' \<and> \<not> myActiveFlg ca' \<and> \<not> ca_invokee ca' \<and> ca_state ca' = INIT
    \<and> freedMedia ca' \<and> sessions ca' = sessions ca @ [FreeSession (sdp_session own)]
    \<and> ua_sent ca' = ua_sent ca @
        [Async ((addSelfInVia cfg (AckMsg m))\<lparr> m_url := m_url (myRequestMsg ca) \<rparr>)]"
  using assms
  by (simp add: call_step_def receivedMsg_def recvStatus_def Ringing_recvStatus_def Let_def send_ack_def
      sendAsync_def notify_def agent_of_phone ca_receivedStatus_def cs_recvStatus_def op_run_def
      phone_unfold [where op = "Op_callback doCancel"] agent_body_def ca_doCancel_def freeMedia_def
      local_sdp_def with_invokee_def post_def cs_cancel_def endLoop_tear_down removed_call_def changeState_def
      sessions_def)

text \<open>The caller cancels. Its agent waits for the final response to the INVITE.\<close>

definition cancel_of :: "sip_msg \<Rightarrow> sip_msg" where
  "cancel_of im = im\<lparr> m_type := SIP_CANCEL, m_cseq := (m_cseq im)\<lparr> cs_method := SIP_CANCEL \<rparr>,
     m_via := hd (m_via im) # m_via im \<rparr>"

lemma CancelMsg_cancel_of: "m_via im \<noteq> [] \<Longrightarrow> CancelMsg im = ret (cancel_of im)"
  by (cases "m_via im") (simp_all add: CancelMsg_def cancel_of_def)

lemma cancel_of_simps [simp]:
  "m_type (cancel_of im) = SIP_CANCEL" "m_cseq (cancel_of im) = (m_cseq im)\<lparr> cs_method := SIP_CANCEL \<rparr>"
  "m_callid (cancel_of im) = m_callid im" "m_from (cancel_of im) = m_from im" "m_to (cancel_of im) = m_to im"
  by (simp_all add: cancel_of_def)

lemma caller_cancels:
  assumes "myActiveFlg ca" "ca_invokee ca" "myState ca = U_STATE_RINGING" "ca_state ca = UAC_RINGING"
    "m_type (myRequestMsg ca) = SIP_INVITE" "\<not> freedMedia ca"
    "myLocalSdpData ca = Some own" "m_via (myRequestMsg ca) \<noteq> []"
  shows "call_step cfg md Stop ca =
    ret (ca\<lparr> myCallLegState := CLS_NONE, ua_sent := ua_sent ca @ [Async (cancel_of (myRequestMsg ca))],
             myState := U_STATE_FAILURE, freedMedia := True,
             ca_log := ca_log ca @ [PostSip (cancel_of (myRequestMsg ca)), FreeSession (sdp_session own), ReleaseDevice] \<rparr>)"
  using assms
  by (simp add: call_step_def op_run_def phone_unfold [of ca] agent_body_def ca_stopCall_def end_loop_def
      cs_end_def fail_to_tear_down_def sendCancel_def with_invokee_def CancelMsg_cancel_of sendMsg_def
      sendRequest_def Ringing_sendRequest_def send_cancel_def sendAsync_def change_and_return_def changeState_def
      returning_def post_def freeMedia_def local_sdp_def)

lemma callee_gets_cancel:
  fixes ca :: call
  assumes "myActiveFlg ca" "myState ca = U_STATE_RINGING" "ca_state ca = UAS_RINGING" "myControllerAgent ca"
    "m_type (myRequestMsg ca) = SIP_INVITE" "na_tag (m_to (myRequestMsg ca)) = []"
    "m_type m = SIP_CANCEL" "na_tag (m_to m) = []"
  shows "call_step cfg md (Received m) ca =
    ret (ca\<lparr> ua_drawn := Suc (Suc (ua_drawn ca)),
             ua_sent := ua_sent ca @ [Reply (StatusMsg (ua_random ca (ua_drawn ca)) m 200),
               Reply (StatusMsg (ua_random ca (Suc (ua_drawn ca))) (myRequestMsg ca) 487)],
             myResponseMsg := Some (StatusMsg (ua_random ca (Suc (ua_drawn ca))) (myRequestMsg ca) 487),
             myCallLegState := CLS_NONE, myState := U_STATE_FAILURE \<rparr>)"
  using assms
  by (simp add: call_step_def receivedMsg_def recvRequest_def Ringing_recvRequest_def sendReplyForRequest_def
      new_StatusMsg_def draws_tag_def sendReply_def setResponse_def notify_def agent_of_phone cs_recvReq_def
      changeState_def Let_def)

lemma caller_gets_cancel_ok:
  assumes "myState ca = U_STATE_FAILURE" "myAgentRole ca = A_CLIENT" "m_type m = SIP_STATUS" "m_status m = 200"
  shows "call_step cfg md (Received m) ca = ret ca"
  using assms
  by (simp add: call_step_def receivedMsg_def recvStatus_def Failure_recvStatus_def isAClient_def)

lemma caller_gets_terminated:
  assumes "myActiveFlg ca" "ca_invokee ca" "myState ca = U_STATE_FAILURE" "ca_state ca = UAC_RINGING"
    "myAgentRole ca = A_CLIENT" "myControllerAgent ca" "m_type (myRequestMsg ca) = SIP_INVITE" "freedMedia ca"
    "m_type m = SIP_STATUS" "m_status m = 487" "cs_method (m_cseq m) = SIP_INVITE"
  shows "\<exists>ca'. call_step cfg md (Received m) ca = ret ca' \<and> \<not> myActiveFlg ca' \<and> \<not> ca_invokee ca' \<and> ca_state ca' = INIT
    \<and> freedMedia ca' \<and> sessions ca' = sessions ca
    \<and> ua_sent ca' = ua_sent ca @ [Async ((AckMsg m)\<lparr> m_via := [getVia0 (myRequestMsg ca)],
        m_url := (case m_url (myRequestMsg ca) of SIP_URL u \<Rightarrow> SIP_URL u | _ \<Rightarrow> NULL_URL) \<rparr>)]"
  using assms
  by (simp add: call_step_def receivedMsg_def recvStatus_def Failure_recvStatus_def isAClient_def Let_def
      sendAsync_def agent_of_phone ca_receivedStatus_def cs_recvStatus_def op_run_def
      phone_unfold [where op = "Op_callback doCancel"] agent_body_def ca_doCancel_def freeMedia_def
      post_def cs_cancel_def endLoop_tear_down removed_call_def changeState_def ca_callFailed_def end_init
      sessions_def)

lemma callee_gets_failure_ack:
  assumes "myActiveFlg ca" "ca_invokee ca" "myState ca = U_STATE_FAILURE" "ca_state ca = UAS_RINGING"
    "myAgentRole ca = A_SERVER" "myControllerAgent ca" "m_type (myRequestMsg ca) = SIP_INVITE" "m_type m = SIP_ACK"
  shows "call_step cfg md (Received m) ca =
    ret ((post (PostMsg ''L_HANGUP CALL_FAILED'') (removed_call ca))\<lparr> myState := U_STATE_IDLE \<rparr>)"
  using assms
  by (simp add: call_step_def receivedMsg_def recvRequest_def Failure_recvRequest_def isAServer_def notify_def
      agent_of_phone callFailed_removes changeState_def)

text \<open>A call that has ended before it was answered.\<close>

definition gone :: "conversation \<Rightarrow> bool" where
  "gone c \<longleftrightarrow>
    (\<forall>s. \<not> myActiveFlg (calls c s) \<and> \<not> ca_invokee (calls c s) \<and> ca_state (calls c s) = INIT \<and> wire c s = [])"

lemma call_declined:
  assumes "plain_invite im" and "ringing net im c"
  shows "\<exists>c'. exchange net [User Callee Stop, Deliver Caller, Deliver Callee] c = ret c' \<and> gone c'
    \<and> sessions (calls c' Caller) = [FreeSession (session_of net im Caller)] \<and> sessions (calls c' Callee) = []
    \<and> gists (calls c' Callee) = gists (calls c Callee) @
        [((SIP_STATUS, 486), m_cseq im, m_callid im, own_tag net im Caller, own_tag net im Callee)]
    \<and> gists (calls c' Caller) = gists (calls c Caller) @
        [((SIP_ACK, 0), (m_cseq im)\<lparr> cs_method := SIP_ACK \<rparr>, m_callid im, own_tag net im Caller, own_tag net im Callee)]"
proof -
  obtain offer where offer: "sdp_of im = Some offer"
    using assms(1) by (auto simp: plain_invite_def)
  obtain u where u: "na_url (m_to im) = SIP_URL u"
    using assms(1) by (cases "na_url (m_to im)") (auto simp: plain_invite_def)
  let ?m = "decline_of (net_cfg net Callee) u (net_random net Callee 3) (arriving net Callee im)"
  have "\<exists>b. call_step (net_cfg net Callee) (net_media net Callee) Stop (calls c Callee) = ret b
      \<and> \<not> myActiveFlg b \<and> \<not> ca_invokee b \<and> ca_state b = INIT
      \<and> freedMedia b \<and> sessions b = sessions (calls c Callee) \<and> ua_sent b = ua_sent (calls c Callee) @ [Reply ?m]"
    using assms callee_declines [of "calls c Callee" u "net_cfg net Callee" "net_media net Callee"]
    by (simp add: ringing_def all_sides plain_invite_def u numeral_3_eq_3 numeral_2_eq_2)
  then obtain b where b: "call_step (net_cfg net Callee) (net_media net Callee) Stop (calls c Callee) = ret b"
    "\<not> myActiveFlg b" "\<not> ca_invokee b" "ca_state b = INIT" "sessions b = []"
    "ua_sent b = ua_sent (calls c Callee) @ [Reply ?m]"
    using assms(2) by (auto simp: ringing_def)
  obtain a where a: "call_step (net_cfg net Caller) (net_media net Caller) (Received (arriving net Caller ?m))
        (calls c Caller) = ret a"
    "\<not> myActiveFlg a" "\<not> ca_invokee a" "ca_state a = INIT" "sessions a = [FreeSession (sdp_session offer)]"
    "ua_sent a = ua_sent (calls c Caller) @
      [Async ((addSelfInVia (net_cfg net Caller) (AckMsg (arriving net Caller ?m)))\<lparr> m_url := m_url im \<rparr>)]"
    using assms caller_gets_failure [of "calls c Caller" offer "arriving net Caller ?m" "net_cfg net Caller" "net_media net Caller"]
    by (auto simp: ringing_def all_sides plain_invite_def offer)
  show ?thesis
    using assms
    by (simp add: side_step_def sent_since_def b a gone_def all_sides ringing_def session_of_def offer
      call_step_inactive gists_def gist_def own_tag_def plain_invite_def addSelfInVia_def)
qed

lemma call_cancelled:
  assumes "plain_invite im" and "ringing net im c" and "m_via im \<noteq> []"
  shows "\<exists>c'. exchange net [User Caller Stop, Deliver Callee, Deliver Caller, Deliver Caller, Deliver Callee] c = ret c'
    \<and> gone c'
    \<and> sessions (calls c' Caller) = [FreeSession (session_of net im Caller)] \<and> sessions (calls c' Callee) = []
    \<and> gists (calls c' Callee) = gists (calls c Callee) @
        [((SIP_STATUS, 200), (m_cseq im)\<lparr> cs_method := SIP_CANCEL \<rparr>, m_callid im, own_tag net im Caller, net_random net Callee 2),
         ((SIP_STATUS, 487), m_cseq im, m_callid im, own_tag net im Caller, own_tag net im Callee)]
    \<and> gists (calls c' Caller) = gists (calls c Caller) @
        [((SIP_CANCEL, 0), (m_cseq im)\<lparr> cs_method := SIP_CANCEL \<rparr>, m_callid im, own_tag net im Caller, []),
         ((SIP_ACK, 0), (m_cseq im)\<lparr> cs_method := SIP_ACK \<rparr>, m_callid im, own_tag net im Caller, own_tag net im Callee)]"
proof -
  obtain offer where offer: "sdp_of im = Some offer"
    using assms(1) by (auto simp: plain_invite_def)
  let ?a = "(calls c Caller)\<lparr> myCallLegState := CLS_NONE,
      ua_sent := ua_sent (calls c Caller) @ [Async (cancel_of im)], myState := U_STATE_FAILURE, freedMedia := True,
      ca_log := ca_log (calls c Caller) @ [PostSip (cancel_of im), FreeSession (sdp_session offer), ReleaseDevice] \<rparr>"
  let ?m = "StatusMsg (net_random net Callee 3) (arriving net Callee im) 487"
  obtain a where a: "call_step (net_cfg net Caller) (net_media net Caller) (Received (arriving net Caller ?m)) ?a = ret a"
    "\<not> myActiveFlg a" "\<not> ca_invokee a" "ca_state a = INIT" "sessions a = sessions ?a"
    "ua_sent a = ua_sent ?a @ [Async ((AckMsg (arriving net Caller ?m))\<lparr> m_via := [getVia0 im],
        m_url := (case m_url im of SIP_URL u \<Rightarrow> SIP_URL u | _ \<Rightarrow> NULL_URL) \<rparr>)]"
    using assms caller_gets_terminated [of ?a "arriving net Caller ?m" "net_cfg net Caller" "net_media net Caller"]
    by (auto simp: ringing_def all_sides plain_invite_def)
  show ?thesis
    using assms a(2-)
    by (simp add: side_step_def sent_since_def caller_cancels callee_gets_cancel caller_gets_cancel_ok
      callee_gets_failure_ack a(1) [unfolded numeral_3_eq_3]
      gone_def all_sides ringing_def session_of_def offer removed_call_def post_def numeral_2_eq_2 numeral_3_eq_3
      gists_def gist_def own_tag_def plain_invite_def StatusMsg_to draws_tag_def sessions_def)
qed

text \<open>C9: A call that rings and is not answered ends on both sides. When the callee declines, its phone
  sends 486 and the caller acknowledges it; when the caller gives up, the CANCEL is answered with 200 and
  the INVITE with 487, which the caller acknowledges. No message is left, both agents are removed, and the
  caller has freed the session of its offer; the sent messages are exactly the ones below.\<close>

theorem unanswered_call_ends:
  assumes "plain_invite im" and "m_via im \<noteq> []"
  shows "\<exists>c. rbind (place net im) (exchange net ring_up) = ret c \<and> ringing net im c
    \<and> (\<exists>c'. exchange net [User Callee Stop, Deliver Caller, Deliver Callee] c = ret c' \<and> gone c'
      \<and> sessions (calls c' Caller) = [FreeSession (session_of net im Caller)] \<and> sessions (calls c' Callee) = []
      \<and> gists (calls c' Callee) = gists (calls c Callee) @
          [((SIP_STATUS, 486), m_cseq im, m_callid im, own_tag net im Caller, own_tag net im Callee)]
      \<and> gists (calls c' Caller) = gists (calls c Caller) @
          [((SIP_ACK, 0), (m_cseq im)\<lparr> cs_method := SIP_ACK \<rparr>, m_callid im, own_tag net im Caller, own_tag net im Callee)])
    \<and> (\<exists>c'. exchange net [User Caller Stop, Deliver Callee, Deliver Caller, Deliver Caller, Deliver Callee] c = ret c'
      \<and> gone c'
      \<and> sessions (calls c' Caller) = [FreeSession (session_of net im Caller)] \<and> sessions (calls c' Callee) = []
      \<and> gists (calls c' Callee) = gists (calls c Callee) @
          [((SIP_STATUS, 200), (m_cseq im)\<lparr> cs_method := SIP_CANCEL \<rparr>, m_callid im, own_tag net im Caller, net_random net Callee 2),
           ((SIP_STATUS, 487), m_cseq im, m_callid im, own_tag net im Caller, own_tag net im Callee)]
      \<and> gists (calls c' Caller) = gists (calls c Caller) @
          [((SIP_CANCEL, 0), (m_cseq im)\<lparr> cs_method := SIP_CANCEL \<rparr>, m_callid im, own_tag net im Caller, []),
           ((SIP_ACK, 0), (m_cseq im)\<lparr> cs_method := SIP_ACK \<rparr>, m_callid im, own_tag net im Caller, own_tag net im Callee)])"
proof -
  obtain c where c: "rbind (place net im) (exchange net ring_up) = ret c" "ringing net im c"
    by (rule call_rings [OF assms(1)])
  with call_declined [OF assms(1) c(2)] call_cancelled [OF assms(1) c(2) assms(2)] show ?thesis
    by blast
qed

theorem unanswered_call_ends_witness:
  "\<exists>c c'. rbind (place example_network example_invite) (exchange example_network ring_up) = ret c
    \<and> exchange example_network [User Callee Stop, Deliver Caller, Deliver Callee] c = ret c' \<and> gone c'"
  using unanswered_call_ends [OF example_invite_plain, of example_network] by (auto simp: example_invite_def)

section \<open>Messages that end a phone or a call\<close>

lemma doCancel_removes:
  assumes "ca_invokee ca" "ca_state ca = UAC_RINGING" "m_type (myRequestMsg ca) = SIP_INVITE"
  shows "ca_doCancel (phone cfg md) ca =
    (if \<not> freedMedia ca \<and> myLocalSdpData ca = None then stop NullDeref
     else rbind (freeMedia ca) (\<lambda>ca. ret (removed_call ca)))"
  using assms
  by (auto simp: ca_doCancel_def freeMedia_def local_sdp_def with_invokee_def op_run_def cs_cancel_def post_def
      endLoop_tear_down removed_call_def split: option.splits)

text \<open>C35: A peer can stop a phone that waits for its answer. In every reachable call that rings at the
  callee, a 302 for the INVITE, whatever its contacts, makes the call agent follow a null pointer: the
  agent removes its leg before it looks for the INVITE to redirect. So does a 200 without a session
  description (and without record routes, on a phone that does not rewrite descriptions for a NAT):
  the agent follows the missing description when it starts the media session.\<close>

theorem ringing_caller_stopped:
  assumes "reachable cfg md ca" and "myState ca = U_STATE_RINGING" and "ca_state ca = UAC_RINGING"
    and "myControllerAgent ca" and "m_type m = SIP_STATUS" and "cs_method (m_cseq m) = SIP_INVITE"
  shows "(m_status m = 302 \<longrightarrow> call_step cfg md (Received m) ca = stop NullDeref)
    \<and> (m_status m = 200 \<and> sdp_of m = None \<and> m_record_route m = [] \<and> \<not> cfg_fixSdpForNat cfg \<longrightarrow>
        call_step cfg md (Received m) ca = stop NullDeref)"
proof -
  have ca: "m_type (myRequestMsg ca) = SIP_INVITE" "ca_invokee ca" "myActiveFlg ca"
    using reachable_ok [OF assms(1)] assms(3) by (auto simp: leg_inv_def settled_def live_def)
  have "call_step cfg md (Received m) ca = stop NullDeref" if "m_status m = 302"
    using assms ca that
    by (auto simp: call_step_def receivedMsg_def recvStatus_def Ringing_recvStatus_def Let_def send_ack_def
      sendAsync_def notify_def agent_of_phone ca_receivedStatus_def cs_recvStatus_def op_run_def
      phone_unfold [where op = "Op_callback doCancel"] agent_body_def doCancel_removes freeMedia_def
      local_sdp_def with_invokee_def post_def removed_call_def redirect_invite_def split: option.splits)
  moreover have "call_step cfg md (Received m) ca = stop NullDeref"
    if "m_status m = 200" "sdp_of m = None" "m_record_route m = []" "\<not> cfg_fixSdpForNat cfg"
    using assms ca that
    by (auto simp: call_step_def receivedMsg_def recvStatus_def Ringing_recvStatus_def Let_def notify_def
      agent_of_phone ca_receivedStatus_def cs_recvStatus_def fixSdpForNat_def setResponse_def saveRouteList_def
      ca_inCall_def cs_inCall_def startSession_def local_sdp_def with_invokee_def split: option.splits)
  ultimately show ?thesis
    by blast
qed

theorem ringing_caller_stopped_witness:
  "\<exists>ca. reachable example_facade example_media ca \<and> ca_state ca = UAC_RINGING
    \<and> call_step example_facade example_media (Received (StatusMsg ''x'' example_invite 302)) ca = stop NullDeref"
proof -
  obtain a where a: "new_CallAgent example_facade (phone example_facade example_media) A_CLIENT
      example_invite (\<lambda>n. ''t'') = ret a" "myRequestMsg a = example_invite"
    and f: "myState a = U_STATE_C_TRYING" "ca_state a = TRYING" "ca_invokee a" "myActiveFlg a" "myControllerAgent a"
    by (rule caller_starts [OF example_invite_plain])
  let ?b = "a\<lparr> myState := U_STATE_RINGING, ca_state := UAC_RINGING \<rparr>"
  have "call_step example_facade example_media (Received (StatusMsg ''x'' example_invite 180)) a = ret ?b"
    using a f by (intro caller_gets_provisional(2)) (simp_all add: example_invite_def)
  moreover have "reachable example_facade example_media a"
    by (rule reachable.start [OF _ a(1)]) (simp add: example_invite_def)
  ultimately have r: "reachable example_facade example_media ?b"
    by (rule reachable.step [rotated])
  then show ?thesis
    using ringing_caller_stopped [OF r, of "StatusMsg ''x'' example_invite 302"] f
    by (intro exI [of _ ?b]) (simp add: example_invite_def)
qed

lemma held_call_stops:
  assumes "myActiveFlg ca" "ca_invokee ca" "\<not> freedMedia ca" "ca_state ca = HOLD"
    "m_type (myRequestMsg ca) = SIP_INVITE" "myLocalSdpData ca = Some own"
  shows "phone cfg md Op_stopCall ca = ret (0, ended_call ca)"
  using assms
  by (simp add: phone_unfold [of ca] agent_body_def ca_stopCall_def op_run_def end_loop_def cs_end_def
      ca_doBye_def canBye_def endCall_ends ended_call_def freeMedia_def)

text \<open>C36: A re-INVITE whose session cannot be resumed. The phone has answered the re-INVITE with 200 when the
  media controller refuses; it is then in the state for held calls, from which it does not send a BYE:
  the call agent is removed, and the peer, which got 100 and 200, is left in the call.\<close>

theorem failed_resume_sends_no_bye:
  assumes "in_call ca" and "myLocalSdpData ca = Some own" and "m_type m = SIP_INVITE" and "sdp_of m = Some remote"
    and "is_sip (na_url (m_to m))" and "md_resumeSession md (sdp_session own) own remote < 0"
  shows "\<exists>ca'. call_step cfg md (Received m) ca = ret ca' \<and> \<not> myActiveFlg ca' \<and> \<not> ca_invokee ca'
    \<and> map (\<lambda>x. (m_type (payload x), m_status (payload x))) (ua_sent ca') =
        map (\<lambda>x. (m_type (payload x), m_status (payload x))) (ua_sent ca) @ [(SIP_STATUS, 100), (SIP_STATUS, 200)]"
proof -
  obtain u where u: "na_url (m_to m) = SIP_URL u"
    using assms(5) by (cases "na_url (m_to m)") auto
  show ?thesis
    using assms u
    by (simp add: in_call_def call_step_def receivedMsg_def recvRequest_def InCall_recvRequest_def
      sendReplyForRequest_def new_StatusMsg_def draws_tag_def sendReply_def setRequest_def notify_def agent_of_phone
      ca_holdAndResumeReinvite_def answer_reinvite_def with_invokee_def doholdresume200OKstuff_def Let_def
      local_sdp_def sendMsg_def sendStatus_def InCall_sendStatus_def established_sendStatus_def contact_reply_def
      returning_def resume_session_def op_run_def post_def cs_inHold_def held_call_stops ended_call_def changeState_def)
qed

theorem failed_resume_sends_no_bye_witness:
  "\<exists>ca'. call_step example_facade (example_media\<lparr> md_resumeSession := \<lambda>n l r. -1 \<rparr>) (Received example_invite)
      ((leg_call (new_UaBase A_SERVER example_invite True (\<lambda>n. ''t'')))\<lparr>
        myState := U_STATE_INCALL, ca_state := IN_CALL \<rparr>) = ret ca'
    \<and> \<not> myActiveFlg ca' \<and> map (\<lambda>x. (m_type (payload x), m_status (payload x))) (ua_sent ca') =
        [(SIP_STATUS, 100), (SIP_STATUS, 200)]"
  using failed_resume_sends_no_bye [of "(leg_call (new_UaBase A_SERVER example_invite True (\<lambda>n. ''t'')))\<lparr>
        myState := U_STATE_INCALL, ca_state := IN_CALL \<rparr>" "\<lparr> sdp_session = 7, sdp_connection = ''10.0.0.1'' \<rparr>"
      example_invite "\<lparr> sdp_session = 7, sdp_connection = ''10.0.0.1'' \<rparr>"
      "example_media\<lparr> md_resumeSession := \<lambda>n l r. -1 \<rparr>" example_facade]
  by (auto simp: in_call_def leg_call_def new_UaBase_def uabase.defs example_invite_def sdp_of_def
      example_addr_def example_url_def)

end
