(* ===== verification/Sip_Transaction.thy ===== *)
theory Sip_Transaction
  imports Sip_Message
begin

text \<open>
  The transaction databases of the SIP stack: \<open>sip/sipstack/SipTransactionId.cxx\<close>,
  \<open>SipMsgContainer.cxx\<close>, \<open>SipCallContainer.cxx\<close>, \<open>SipTransactionDB.cxx\<close>, \<open>SipSentRequestDB.cxx\<close> and
  \<open>SipSentResponseDB.cxx\<close>.

  A message container is shared: the database that remembers it and the queue of the transport hold
  the same object, and the database stops a retransmission by changing it. So containers live in a
  store, \<open>heap\<close>, and everything else refers to them by address. Call containers and pairs have one
  owner each and are values.
\<close>

section \<open>Transaction identifiers\<close>

definition removeSpaces :: "string \<Rightarrow> string" where
  "removeSpaces s = rev (dropWhile (\<lambda>c. c = CHR '' '') (rev (dropWhile (\<lambda>c. c = CHR '' '') s)))"

definition getUniqueKey :: "base_url \<Rightarrow> string" where
  "getUniqueKey u =
    (case u of
       SIP_URL s \<Rightarrow> ''sip:'' @ (if removeSpaces (url_user s) \<noteq> [] then url_user s @ ''@'' else [])
         @ url_host s @ (if url_port s \<noteq> [] \<and> url_port s \<noteq> ''0'' then '':'' @ url_port s else [])
     | TEL_URL n \<Rightarrow> n
     | NULL_URL \<Rightarrow> ''null-url'')"

text \<open>
  \<open>level2\<close> is the text of the number, the letter \<open>V\<close> and the branch of the first \<open>Via\<close>, of which the
  first two can be read off; it is a pair here. The model compares the numbers, not their texts: two
  messages whose CSeq differs in leading zeros only have one identifier here and two in the code.
  To and From always have a URL object here, \<open>NULL_URL\<close> if nothing else, so that the branch of the code
  for a null pointer, which marks the identifier as not valid, has no counterpart; only a cleared
  identifier is not valid. \<open>getLocalId\<close> is the call id up to the first \<open>@\<close>.
\<close>

record trans_id =
  level1 :: string
  level2 :: "u32 \<times> string"
  level3 :: sip_method
  call_id :: string
  tid_valid :: bool

definition getLocalId :: "string \<Rightarrow> string" where
  "getLocalId callid = takeWhile (\<lambda>c. c \<noteq> CHR ''@'') callid"

definition SipTransactionId :: "sip_msg \<Rightarrow> trans_id" where
  "SipTransactionId m =
    \<lparr> level1 = getUniqueKey (na_url (m_to m)) @ getUniqueKey (na_url (m_from m)) @ m_callid m,
      level2 = (cs_num (m_cseq m), via_branch (getVia0 m)), level3 = cs_method (m_cseq m),
      call_id = getLocalId (m_callid m), tid_valid = True \<rparr>"

definition cleared_id :: trans_id where
  "cleared_id =
    \<lparr> level1 = [], level2 = (0, []), level3 = SIP_UNKNOWN, call_id = [], tid_valid = False \<rparr>"

text \<open>\<open>operator==\<close>, which does not look at \<open>call_id\<close>.\<close>

definition same_id :: "trans_id \<Rightarrow> trans_id \<Rightarrow> bool" where
  "same_id i j \<longleftrightarrow>
    tid_valid i = tid_valid j \<and> level1 i = level1 j \<and> level2 i = level2 j \<and> level3 i = level3 j"

section \<open>Containers\<close>

text \<open>
  The cached text of a message is the message that it encodes, \<open>None\<close> while the text is empty.
  \<open>retransSoFar\<close> has no initial value in the code; the transport sets it before it reads it.
\<close>

record container =
  c_in :: "sip_msg option"
  c_encoded :: "sip_msg option"
  c_addr :: "(string \<times> int) option"
  c_transport :: string
  retransCount :: int
  retransSoFar :: int
  nextTx :: u64
  wait_period :: int
  c_id :: trans_id

definition cleared_container :: container where
  "cleared_container =
    \<lparr> c_in = None, c_encoded = None, c_addr = None, c_transport = [], retransCount = 1,
      retransSoFar = 0, nextTx = 0, wait_period = 0, c_id = cleared_id \<rparr>"

record msg_pair =
  mp_request :: "nat option"
  mp_response :: "nat option"

record call_container =
  cc_msgs :: "msg_pair list"
  cc_id :: trans_id
  curSeqNum :: int
  setSeq :: bool
  purgeAt :: u64

definition SipCallContainer :: "trans_id \<Rightarrow> call_container" where
  "SipCallContainer i = \<lparr> cc_msgs = [], cc_id = i, curSeqNum = 0, setSeq = False, purgeAt = 0 \<rparr>"

type_synonym transaction_db = "string \<rightharpoonup> call_container"

record stack =
  heap :: "nat \<Rightarrow> container"
  heap_lim :: nat
  sentRequestDB :: transaction_db
  sentResponseDB :: transaction_db
  st_random :: "nat \<Rightarrow> string"
  st_drawn :: nat

definition update :: "nat \<Rightarrow> (container \<Rightarrow> container) \<Rightarrow> 'a stack_scheme \<Rightarrow> 'a stack_scheme" where
  "update a f s = s\<lparr> heap := (heap s)(a := f (heap s a)) \<rparr>"

definition setRetransmitMax :: "int \<Rightarrow> nat \<Rightarrow> 'a stack_scheme \<Rightarrow> 'a stack_scheme" where
  "setRetransmitMax n a = update a (\<lambda>c. c\<lparr> retransCount := n \<rparr>)"

definition setMsgIn :: "sip_msg \<Rightarrow> nat \<Rightarrow> 'a stack_scheme \<Rightarrow> 'a stack_scheme" where
  "setMsgIn m a = update a (\<lambda>c. c\<lparr> c_in := Some m \<rparr>)"

definition setTransport :: "string \<Rightarrow> nat \<Rightarrow> 'a stack_scheme \<Rightarrow> 'a stack_scheme" where
  "setTransport t a = update a (\<lambda>c. c\<lparr> c_transport := t \<rparr>)"

definition new_SipMsgContainer :: "trans_id \<Rightarrow> 'a stack_scheme \<Rightarrow> nat \<times> 'a stack_scheme" where
  "new_SipMsgContainer i s =
    (heap_lim s, s\<lparr> heap := (heap s)(heap_lim s := cleared_container\<lparr> c_id := i \<rparr>),
                    heap_lim := Suc (heap_lim s) \<rparr>)"

definition matches :: "(nat \<Rightarrow> container) \<Rightarrow> trans_id \<Rightarrow> nat option \<Rightarrow> bool" where
  "matches h i p = (case p of None \<Rightarrow> False | Some a \<Rightarrow> same_id i (c_id (h a)))"

text \<open>The two \<open>findMsgPair\<close>: the position of the first pair that fits.\<close>

fun findMsgPair :: "(msg_pair \<Rightarrow> bool) \<Rightarrow> msg_pair list \<Rightarrow> nat option" where
  "findMsgPair P [] = None"
| "findMsgPair P (mp # ms) = (if P mp then Some 0 else map_option Suc (findMsgPair P ms))"

definition of_id :: "(nat \<Rightarrow> container) \<Rightarrow> trans_id \<Rightarrow> msg_pair \<Rightarrow> bool" where
  "of_id h i mp \<longleftrightarrow> matches h i (mp_request mp) \<or> matches h i (mp_response mp)"

definition holds_method :: "(nat \<Rightarrow> container) \<Rightarrow> sip_method \<Rightarrow> nat option \<Rightarrow> bool" where
  "holds_method h meth p =
    (case p of None \<Rightarrow> False
     | Some a \<Rightarrow> (case c_in (h a) of None \<Rightarrow> False | Some m \<Rightarrow> m_type m = meth))"

definition of_method :: "(nat \<Rightarrow> container) \<Rightarrow> sip_method \<Rightarrow> msg_pair \<Rightarrow> bool" where
  "of_method h meth mp \<longleftrightarrow> holds_method h meth (mp_request mp) \<or> holds_method h meth (mp_response mp)"

fun stopAllRetrans :: "msg_pair list \<Rightarrow> 'a stack_scheme \<Rightarrow> 'a stack_scheme" where
  "stopAllRetrans [] s = s"
| "stopAllRetrans (mp # ms) s =
    stopAllRetrans ms
      (case mp_request mp of
         None \<Rightarrow> s
       | Some a \<Rightarrow> if retransCount (heap s a) \<noteq> 0 then setRetransmitMax 0 a s else s)"

definition addMsgPair :: "msg_pair \<Rightarrow> call_container \<Rightarrow> call_container" where
  "addMsgPair mp cc = cc\<lparr> cc_msgs := cc_msgs cc @ [mp] \<rparr>"

definition set_response :: "nat \<Rightarrow> nat \<Rightarrow> call_container \<Rightarrow> call_container" where
  "set_response i a cc = cc\<lparr> cc_msgs := (cc_msgs cc)[i := (cc_msgs cc ! i)\<lparr> mp_response := Some a \<rparr>] \<rparr>"

definition setCurSeqNum :: "int \<Rightarrow> call_container \<Rightarrow> call_container" where
  "setCurSeqNum n cc = cc\<lparr> curSeqNum := n, setSeq := True \<rparr>"

section \<open>Purging\<close>

definition setPurgeTimer :: "trans_id \<Rightarrow> u64 \<Rightarrow> transaction_db \<Rightarrow> transaction_db" where
  "setPurgeTimer i expires_at db =
    (case db (call_id i) of None \<Rightarrow> db | Some cc \<Rightarrow> db(call_id i \<mapsto> cc\<lparr> purgeAt := expires_at \<rparr>))"

definition purgeOldCalls :: "u64 \<Rightarrow> transaction_db \<Rightarrow> transaction_db" where
  "purgeOldCalls now db = (\<lambda>k. case db k of None \<Rightarrow> None
     | Some cc \<Rightarrow> if purgeAt cc \<noteq> 0 \<and> purgeAt cc < now then None else Some cc)"

section \<open>\<open>SipSentRequestDB\<close>\<close>

definition MAX_RETRANS_COUNT :: int where
  "MAX_RETRANS_COUNT = 7"

definition FILTER_RETRANS_COUNT :: int where
  "FILTER_RETRANS_COUNT = 1"

text \<open>
  The transport parameter of the request URI. The code casts the URL to \<open>SipUrl\<close> without a check,
  so that for a \<open>tel:\<close> URL and for the \<open>NullUrl\<close> of an empty request line it reads outside the object.
\<close>

definition request_transport :: "base_url \<Rightarrow> string outcome" where
  "request_transport u =
    (case u of SIP_URL s \<Rightarrow> Inr (url_transport s) | TEL_URL n \<Rightarrow> Inl OutOfBounds | NULL_URL \<Rightarrow> Inl OutOfBounds)"

definition has_request :: "trans_id \<Rightarrow> call_container \<Rightarrow> 'a stack_scheme \<Rightarrow> bool" where
  "has_request i cc s =
    (case findMsgPair (of_id (heap s) i) (cc_msgs cc) of
       None \<Rightarrow> False | Some n \<Rightarrow> mp_request (cc_msgs cc ! n) \<noteq> None)"

definition add_request ::
  "u64 \<Rightarrow> sip_msg \<Rightarrow> nat \<Rightarrow> call_container \<Rightarrow> 'a stack_scheme \<Rightarrow> 'a stack_scheme" where
  "add_request now msg a cc s =
    (let s = (if m_type msg = SIP_CANCEL then stopAllRetrans (cc_msgs cc) s else s);
         cc = (if m_type msg = SIP_CANCEL \<or> m_type msg = SIP_BYE
               then cc\<lparr> purgeAt := now + 10 * 1000 \<rparr> else cc);
         cc = addMsgPair \<lparr> mp_request = Some a, mp_response = None \<rparr> cc
     in s\<lparr> sentRequestDB := (sentRequestDB s)(call_id (SipTransactionId msg) \<mapsto> cc) \<rparr>)"

definition request_processSend ::
  "u64 \<Rightarrow> sip_msg \<Rightarrow> 'a stack_scheme \<Rightarrow> (nat \<times> 'a stack_scheme) outcome" where
  "request_processSend now msg s =
    oassert (m_type msg \<noteq> SIP_STATUS)
      (let i = SipTransactionId msg;
           (a, s) = new_SipMsgContainer i s;
           s = setMsgIn msg a s
       in obind (request_transport (m_url msg)) (\<lambda>t.
            (let s = setTransport t a s;
                 s = (if m_type msg \<noteq> SIP_ACK then setRetransmitMax MAX_RETRANS_COUNT a s else s)
             in Inr (a,
                  (case sentRequestDB s (call_id i) of
                     None \<Rightarrow> add_request now msg a (SipCallContainer i) s
                   | Some cc \<Rightarrow> if has_request i cc s then s else add_request now msg a cc s)))))"

text \<open>
  A response arrives. The result is the queue for the application, or none. The entries of a queue
  are the message pointers of containers.
\<close>

type_synonym msg_queue = "sip_msg option list option"

definition response_processRecv ::
  "bool \<Rightarrow> nat \<Rightarrow> 'a stack_scheme \<Rightarrow> (msg_queue \<times> 'a stack_scheme) outcome" where
  "response_processRecv proxy a s =
    (case c_in (heap s a) of
       None \<Rightarrow> Inl AssertFailed
     | Some msg \<Rightarrow>
         oassert (m_type msg = SIP_STATUS)
           (let i = SipTransactionId msg in
            (case sentRequestDB s (call_id i) of
               None \<Rightarrow> Inr (None, s)
             | Some cc \<Rightarrow>
                 (case findMsgPair (of_id (heap s) i) (cc_msgs cc) of
                    None \<Rightarrow> Inr (None, s)
                  | Some n \<Rightarrow>
                      (let mp = cc_msgs cc ! n;
                           s = (case mp_request mp of None \<Rightarrow> s | Some r \<Rightarrow> setRetransmitMax 0 r s)
                       in if m_status msg < 200
                             \<or> proxy \<and> m_status msg = 200 \<and> cs_method (m_cseq msg) = SIP_INVITE
                          then Inr (Some [Some msg], s)
                          else if mp_response mp \<noteq> None then Inr (None, s)
                          else (case mp_request mp of
                                  None \<Rightarrow> Inl NullDeref
                                | Some r \<Rightarrow>
                                    Inr (Some [c_in (heap s r), Some msg],
                                      s\<lparr> sentRequestDB := (sentRequestDB s)(call_id i \<mapsto> set_response n a cc) \<rparr>)))))))"

section \<open>\<open>SipSentResponseDB\<close>\<close>

definition toBeRetransmitted :: "sip_msg \<Rightarrow> bool" where
  "toBeRetransmitted m \<longleftrightarrow> cs_method (m_cseq m) = SIP_INVITE \<and> m_status m \<ge> 200"

definition response_processSend ::
  "bool \<Rightarrow> sip_msg \<Rightarrow> 'a stack_scheme \<Rightarrow> (nat \<times> 'a stack_scheme) outcome" where
  "response_processSend proxy msg s =
    oassert (m_type msg = SIP_STATUS)
      (let i = SipTransactionId msg;
           (a, s) = new_SipMsgContainer i s;
           s = setTransport (via_transport (getVia0 msg)) a (setMsgIn msg a s)
       in Inr (a,
            if m_status msg \<ge> 200 then
              (case sentResponseDB s (call_id i) of
                 None \<Rightarrow> s
               | Some cc \<Rightarrow>
                   (let s = (case findMsgPair (of_id (heap s) i) (cc_msgs cc) of
                               None \<Rightarrow> s
                             | Some n \<Rightarrow>
                                 if mp_response (cc_msgs cc ! n) \<noteq> None then s
                                 else s\<lparr> sentResponseDB := (sentResponseDB s)(call_id i \<mapsto> set_response n a cc) \<rparr>)
                    in if toBeRetransmitted msg \<and> \<not> proxy then setRetransmitMax MAX_RETRANS_COUNT a s else s))
            else s))"

text \<open>A request that is not the first of its transaction.\<close>

definition repeated_request ::
  "trans_id \<Rightarrow> nat \<Rightarrow> nat \<Rightarrow> call_container \<Rightarrow> 'a stack_scheme \<Rightarrow> 'a stack_scheme" where
  "repeated_request i n a cc s =
    (case mp_response (cc_msgs cc ! n) of
       Some r \<Rightarrow>
         setRetransmitMax FILTER_RETRANS_COUNT a
           ((setRetransmitMax 0 r s)\<lparr>
              sentResponseDB := (sentResponseDB s)(call_id i \<mapsto> set_response n a cc) \<rparr>)
     | None \<Rightarrow> update a (\<lambda>c. cleared_container) s)"

text \<open>
  A request whose number is not larger than the last one: a 400 takes the place of the message in the
  container, and \<open>processSend\<close> records another one.
\<close>

definition reject_out_of_order ::
  "sip_msg \<Rightarrow> nat \<Rightarrow> 'a stack_scheme \<Rightarrow> 'a stack_scheme outcome" where
  "reject_out_of_order msg a s =
    (let status = StatusMsg (st_random s (st_drawn s)) msg 400;
         s = (if draws_tag msg 400 then s\<lparr> st_drawn := Suc (st_drawn s) \<rparr> else s);
         s = setRetransmitMax 1 a (setTransport (via_transport (getVia0 status)) a (setMsgIn status a s))
     in obind (response_processSend False status s) (\<lambda>(_, s). Inr s))"

text \<open>The queue for a request that goes up, which an ACK finds the INVITE and its response for.\<close>

definition request_queue ::
  "sip_msg \<Rightarrow> call_container \<Rightarrow> 'a stack_scheme \<Rightarrow> msg_queue \<times> 'a stack_scheme" where
  "request_queue msg cc s =
    (if m_type msg = SIP_ACK then
       (case findMsgPair (of_method (heap s) SIP_INVITE) (cc_msgs cc) of
          None \<Rightarrow> (Some [Some msg], s)
        | Some n \<Rightarrow>
            (let mp = cc_msgs cc ! n;
                 req = (case mp_request mp of None \<Rightarrow> [] | Some r \<Rightarrow> [c_in (heap s r)])
             in (case mp_response mp of
                   None \<Rightarrow> (Some (req @ [Some msg]), s)
                 | Some r \<Rightarrow> (Some (req @ [c_in (heap s r), Some msg]), setRetransmitMax 0 r s))))
     else (Some [Some msg], s))"

definition store_call :: "trans_id \<Rightarrow> call_container \<Rightarrow> 'a stack_scheme \<Rightarrow> 'a stack_scheme" where
  "store_call i cc s = s\<lparr> sentResponseDB := (sentResponseDB s)(call_id i \<mapsto> cc) \<rparr>"

definition first_request ::
  "bool \<Rightarrow> sip_msg \<Rightarrow> nat \<Rightarrow> nat option \<Rightarrow> call_container \<Rightarrow> 'a stack_scheme \<Rightarrow>
    (msg_queue \<times> 'a stack_scheme) outcome" where
  "first_request proxy msg a found cc s =
    (let i = SipTransactionId msg;
         seq = sint (cs_num (m_cseq msg));
         stored = curSeqNum cc
     in if proxy then Inr (request_queue msg cc s)
        else if m_type msg \<noteq> SIP_ACK \<and> m_type msg \<noteq> SIP_CANCEL then
          (let cc = (if found = None
                     then addMsgPair \<lparr> mp_request = Some a, mp_response = None \<rparr> cc else cc)
           in if setSeq cc \<and> seq > stored then
                (let cc = setCurSeqNum seq cc in Inr (request_queue msg cc (store_call i cc s)))
              else if setSeq cc then
                obind (reject_out_of_order msg a (store_call i cc s)) (\<lambda>s. Inr (None, s))
              else Inr (request_queue msg cc (store_call i cc s)))
        else
          (let cc = (if seq > stored then setCurSeqNum seq cc else cc)
           in Inr (request_queue msg cc (store_call i cc s))))"

definition request_processRecv ::
  "bool \<Rightarrow> nat \<Rightarrow> 'a stack_scheme \<Rightarrow> (msg_queue \<times> 'a stack_scheme) outcome" where
  "request_processRecv proxy a s =
    (case c_in (heap s a) of
       None \<Rightarrow> Inl AssertFailed
     | Some msg \<Rightarrow>
         oassert (m_type msg \<noteq> SIP_STATUS)
           (let i = SipTransactionId msg;
                s = (if sentResponseDB s (call_id i) = None \<and> m_type msg = SIP_INVITE
                     then store_call i (SipCallContainer i) s else s)
            in (case sentResponseDB s (call_id i) of
                  None \<Rightarrow> Inr (Some [Some msg], s)
                | Some cc \<Rightarrow>
                    (case findMsgPair (of_id (heap s) i) (cc_msgs cc) of
                       None \<Rightarrow> first_request proxy msg a None cc s
                     | Some n \<Rightarrow>
                         if mp_request (cc_msgs cc ! n) \<noteq> None
                         then Inr (None, repeated_request i n a cc s)
                         else first_request proxy msg a (Some n) cc s))))"

end
