(* ===== verification/Sip_Transceiver.thy ===== *)
theory Sip_Transceiver
  imports Sip_Transaction
begin

text \<open>
  The transport side of the SIP stack: \<open>sip/sipstack/SipUdpConnection.cxx\<close> with its queue of messages to
  send and to send again, and \<open>sip/sipstack/SipTransceiver.cxx\<close>, through which the application sends and
  receives.

  The record \<open>env\<close> is what the stack asks its surroundings: whether the application is a proxy, name
  resolution, the result of each attempt to hand a datagram to the socket (or that the test option
  \<open>randomLosePercent\<close> swallowed it), and the order of the heap behind \<open>sendQ\<close>, of which \<open>env_top\<close> gives
  the position of the top element for the list of keys. Messages for TCP are listed in \<open>tcp_out\<close>; the
  datagrams that the socket took, with the time and the container, in \<open>udp_out\<close>. \<open>SipMsg::decode\<close> of the
  cached text gives the message that was encoded.
\<close>

section \<open>State\<close>

datatype attempt = Swallowed | Result int

record env =
  env_proxy :: bool
  env_nat :: bool
  env_ipName :: "string \<Rightarrow> string"
  env_reachable :: "string \<Rightarrow> bool"
  env_top :: "u64 list \<Rightarrow> nat"
  env_udp :: "nat \<Rightarrow> attempt"

record transceiver = stack +
  sendQ :: "nat list"
  rcvFifo :: "nat list"
  tcp_out :: "(nat \<times> string \<times> string) list"
  udp_out :: "(u64 \<times> nat) list"
  st_attempt :: nat
  lastPurge :: u64

definition new_SipTransceiver :: "(nat \<Rightarrow> string) \<Rightarrow> transceiver" where
  "new_SipTransceiver rnd =
    \<lparr> heap = (\<lambda>a. cleared_container), heap_lim = 0, sentRequestDB = Map.empty, sentResponseDB = Map.empty,
      st_random = rnd, st_drawn = 0, sendQ = [], rcvFifo = [], tcp_out = [], udp_out = [],
      st_attempt = 0, lastPurge = 0 \<rparr>"

section \<open>Destinations\<close>

text \<open>\<open>Data::convertInt\<close>, whose \<open>int\<close> wraps around.\<close>

definition wrap_int :: "int \<Rightarrow> int" where
  "wrap_int v = sint (word_of_int v :: u32)"

fun digits_value :: "int \<Rightarrow> string \<Rightarrow> int" where
  "digits_value v [] = v"
| "digits_value v (c # cs) =
    (let n = (of_char c :: int)
     in if 48 \<le> n \<and> n \<le> 57 then digits_value (wrap_int (v * 10 + (n - 48))) cs else v)"

definition convertInt :: "string \<Rightarrow> int" where
  "convertInt s =
    (case dropWhile (\<lambda>c. c \<in> {CHR '' '', CHR 0x09, CHR 0x0A, CHR 0x0B, CHR 0x0C, CHR 0x0D}) s of
       [] \<Rightarrow> 0
     | c # cs \<Rightarrow> if c = CHR ''-'' then wrap_int (- digits_value 0 cs) else digits_value 0 (c # cs))"

definition SIP_PORT :: int where
  "SIP_PORT = 5060"

definition getHostPort :: "sip_msg \<Rightarrow> (string \<times> int) outcome" where
  "getHostPort m =
    obind (if m_type m = SIP_STATUS then
             oassert (m_via m \<noteq> [])
               (let via = getVia0 m in
                Inr (case via_received via of
                       Some (host, port) \<Rightarrow> (host, convertInt port)
                     | None \<Rightarrow> (if via_maddr via = [] then via_host via else via_maddr via,
                                convertInt (via_port via))))
           else
             (case m_url m of
                SIP_URL u \<Rightarrow> Inr (if url_maddr u \<noteq> [] then url_maddr u else url_host u, convertInt (url_port u))
              | _ \<Rightarrow> Inl AssertFailed))
      (\<lambda>(host, port). Inr (host, if port = 0 then SIP_PORT else port))"

section \<open>\<open>SipUdpConnection\<close>\<close>

text \<open>
  \<open>send\<close> finds the destination, when the message has not been encoded before, and queues the message.
  A destination whose name has no address is only noted in the log.
\<close>

definition find_destination ::
  "env \<Rightarrow> nat \<Rightarrow> string \<Rightarrow> string \<Rightarrow> transceiver \<Rightarrow> (bool \<times> transceiver) outcome" where
  "find_destination e a host port s =
    (if c_encoded (heap s a) = None then
       (case c_in (heap s a) of
          None \<Rightarrow> Inl AssertFailed
        | Some m \<Rightarrow>
            obind (if host \<noteq> [] then Inr (host, convertInt port) else getHostPort m) (\<lambda>(nhost, nport).
              (let s = update a (\<lambda>c. c\<lparr> c_encoded := Some m \<rparr>) s in
               if c_addr (heap s a) = None then
                 (if env_reachable e nhost
                  then Inr (True, update a (\<lambda>c. c\<lparr> c_addr := Some (nhost, nport) \<rparr>) s)
                  else Inr (False, s))
               else Inr (True, s))))
     else Inr (True, s))"

definition enqueue :: "nat \<Rightarrow> transceiver \<Rightarrow> transceiver outcome" where
  "enqueue a s =
    (let s = update a (\<lambda>c. c\<lparr> retransSoFar := 0 \<rparr>) s in
     (case c_addr (heap s a) of
        None \<Rightarrow> Inl NullDeref
      | Some (_, p) \<Rightarrow> oassert (p \<ge> 0) (Inr (s\<lparr> sendQ := sendQ s @ [a] \<rparr>))))"

definition udp_send ::
  "env \<Rightarrow> nat \<Rightarrow> string \<Rightarrow> string \<Rightarrow> transceiver \<Rightarrow> transceiver outcome" where
  "udp_send e a host port s =
    obind (find_destination e a host port s) (\<lambda>(reachable, s). if reachable then enqueue a s else Inr s)"

definition retransmitTimeInitial :: int where
  "retransmitTimeInitial = 500"

definition retransmitTimeMax :: int where
  "retransmitTimeMax = 4000"

text \<open>A final response that the stack makes itself, as if it had been received.\<close>

definition report :: "int \<Rightarrow> nat \<Rightarrow> transceiver \<Rightarrow> transceiver outcome" where
  "report code a s =
    (case c_encoded (heap s a) of
       None \<Rightarrow> Inl NullDeref
     | Some m \<Rightarrow>
         (let (b, s) = new_SipMsgContainer (SipTransactionId m) s;
              status = StatusMsg (st_random s (st_drawn s)) m code;
              s = (if draws_tag m code then s\<lparr> st_drawn := Suc (st_drawn s) \<rparr> else s)
          in Inr ((setMsgIn status b s)\<lparr> rcvFifo := rcvFifo s @ [b] \<rparr>)))"

text \<open>What \<open>tick\<close> does after an attempt: count it, and queue the message again or give it up.\<close>

definition next_wait :: "int \<Rightarrow> int" where
  "next_wait w = (if w = 0 then retransmitTimeInitial else if w < retransmitTimeMax then w * 2 else w)"

definition after_attempt :: "u64 \<Rightarrow> nat \<Rightarrow> int \<Rightarrow> transceiver \<Rightarrow> transceiver outcome" where
  "after_attempt now a code s =
    (let s = update a (\<lambda>c. c\<lparr> retransSoFar := retransSoFar c + 1 \<rparr>) s in
     if retransCount (heap s a) > retransSoFar (heap s a) then
       (let w = next_wait (wait_period (heap s a));
            s = update a (\<lambda>c. c\<lparr> wait_period := w, nextTx := now + word_of_int w \<rparr>) s
        in Inr (s\<lparr> sendQ := sendQ s @ [a] \<rparr>))
     else if code \<noteq> 0 then
       (case c_in (heap s a) of
          None \<Rightarrow> Inl NullDeref
        | Some m \<Rightarrow> if m_type m \<noteq> SIP_ACK \<and> m_type m \<noteq> SIP_STATUS then report code a s else Inr s)
     else Inr s)"

text \<open>The numbers of \<open>EINTR\<close>, \<open>EAGAIN\<close>, \<open>ECONNREFUSED\<close>, \<open>EHOSTDOWN\<close> and \<open>EHOSTUNREACH\<close>.\<close>

definition error_status :: "int \<Rightarrow> int" where
  "error_status rv = (if rv = -111 then 403 else if rv = -112 then 408 else if rv = -113 then 404 else 400)"

text \<open>One message of the loop in \<open>tick\<close>. The truth value says whether \<open>tick\<close> returns.\<close>

definition send_one :: "env \<Rightarrow> u64 \<Rightarrow> nat \<Rightarrow> transceiver \<Rightarrow> (bool \<times> transceiver) outcome" where
  "send_one e now a s =
    (if retransCount (heap s a) > retransSoFar (heap s a) then
       (let r = env_udp e (st_attempt s); s = s\<lparr> st_attempt := Suc (st_attempt s) \<rparr> in
        (case r of
           Swallowed \<Rightarrow> obind (after_attempt now a 0 s) (\<lambda>s. Inr (False, s))
         | Result rv \<Rightarrow>
             oassert (c_encoded (heap s a) \<noteq> None)
               (if rv = -11 \<or> rv = -4 \<or> rv = 0 then Inr (True, s\<lparr> sendQ := sendQ s @ [a] \<rparr>)
                else if rv < 0 then
                  obind (case c_in (heap s a) of
                           None \<Rightarrow> Inr s
                         | Some m \<Rightarrow> if m_type m \<noteq> SIP_STATUS then report (error_status rv) a s else Inr s) (\<lambda>s.
                  obind (after_attempt now a (error_status rv) s) (\<lambda>s. Inr (False, s)))
                else obind (after_attempt now a 0 (s\<lparr> udp_out := udp_out s @ [(now, a)] \<rparr>)) (\<lambda>s. Inr (False, s)))))
     else Inr (False, s))"

partial_function (option) tick_loop :: "env \<Rightarrow> u64 \<Rightarrow> transceiver \<Rightarrow> transceiver run" where
  "tick_loop e now s =
    (if sendQ s = [] then ret s
     else (let q = sendQ s; n = env_top e (map (\<lambda>a. nextTx (heap s a)) q) in
       if length q \<le> n then stop OutOfBounds
       else if nextTx (heap s (q ! n)) > now then ret s
       else (case send_one e now (q ! n) (s\<lparr> sendQ := take n q @ drop (Suc n) q \<rparr>) of
               Inl err \<Rightarrow> stop err
             | Inr (finished, s) \<Rightarrow> if finished then ret s else tick_loop e now s)))"

declare tick_loop.simps [code]

text \<open>A datagram that has arrived and decodes to a message.\<close>

definition udp_receive :: "sip_msg option \<Rightarrow> transceiver \<Rightarrow> transceiver" where
  "udp_receive incoming s =
    (case incoming of
       None \<Rightarrow> s
     | Some m \<Rightarrow>
         (let (a, s) = new_SipMsgContainer (SipTransactionId m) s
          in (setMsgIn m a s)\<lparr> rcvFifo := rcvFifo s @ [a] \<rparr>))"

definition udp_tick :: "env \<Rightarrow> u64 \<Rightarrow> sip_msg option \<Rightarrow> transceiver \<Rightarrow> transceiver run" where
  "udp_tick e now incoming s = tick_loop e now (udp_receive incoming s)"

section \<open>\<open>SipTransceiver\<close>\<close>

definition send :: "env \<Rightarrow> nat \<Rightarrow> string \<Rightarrow> string \<Rightarrow> transceiver \<Rightarrow> transceiver outcome" where
  "send e a host iport s =
    (let port = (if iport = ''0'' then ''5060'' else iport) in
     if c_transport (heap s a) = ''TCP'' \<or> c_transport (heap s a) = ''tcp''
     then Inr (s\<lparr> tcp_out := tcp_out s @ [(a, host, port)] \<rparr>)
     else udp_send e a host port s)"

definition checkMaxForwards :: "sip_msg \<Rightarrow> bool" where
  "checkMaxForwards m \<longleftrightarrow> m_max_forwards m \<ge> 0"

definition stack_sendAsync :: "env \<Rightarrow> u64 \<Rightarrow> sip_msg \<Rightarrow> transceiver \<Rightarrow> transceiver outcome" where
  "stack_sendAsync e now m s =
    (if \<not> checkMaxForwards m then Inr s
     else obind (request_processSend now m s) (\<lambda>(a, s). send e a [] [] s))"

definition stack_sendAsyncTo ::
  "env \<Rightarrow> u64 \<Rightarrow> sip_msg \<Rightarrow> string \<Rightarrow> string \<Rightarrow> transceiver \<Rightarrow> transceiver outcome" where
  "stack_sendAsyncTo e now m host iport s =
    (let port = (if iport = ''0'' \<or> iport = [] then ''5060'' else iport) in
     if \<not> checkMaxForwards m then Inr s
     else obind (request_processSend now m s) (\<lambda>(a, s). send e a host port s))"

definition stack_sendReply :: "env \<Rightarrow> sip_msg \<Rightarrow> transceiver \<Rightarrow> transceiver outcome" where
  "stack_sendReply e m s =
    obind (response_processSend (env_proxy e) m s) (\<lambda>(a, s). send e a [] [] s)"

definition setCallPurgeTimer :: "trans_id \<Rightarrow> u64 \<Rightarrow> transceiver \<Rightarrow> transceiver" where
  "setCallPurgeTimer i t s =
    s\<lparr> sentRequestDB := setPurgeTimer i t (sentRequestDB s),
       sentResponseDB := setPurgeTimer i t (sentResponseDB s) \<rparr>"

definition purge :: "u64 \<Rightarrow> transceiver \<Rightarrow> transceiver" where
  "purge now s =
    (if lastPurge s + 5000 < now
     then s\<lparr> sentRequestDB := purgeOldCalls now (sentRequestDB s),
             sentResponseDB := purgeOldCalls now (sentResponseDB s), lastPurge := now \<rparr>
     else s)"

definition stack_tick :: "env \<Rightarrow> u64 \<Rightarrow> sip_msg option \<Rightarrow> transceiver \<Rightarrow> transceiver run" where
  "stack_tick e now incoming s = rbind (udp_tick e now incoming s) (\<lambda>s. ret (purge now s))"

text \<open>The first \<open>Via\<close> of a message that came from another address than it says.\<close>

definition nat_via :: "env \<Rightarrow> sip_msg \<Rightarrow> sip_msg" where
  "nat_via e m =
    (let via = getVia0 m; addr1 = via_host via; addr2 = m_received_ip m in
     if env_nat e \<and> addr2 \<noteq> [] \<and> (env_ipName e addr1 \<noteq> env_ipName e addr2 \<or> addr1 = [])
     then m\<lparr> m_via := via\<lparr> via_received := Some (addr2, m_received_port m) \<rparr> # drop 1 (m_via m) \<rparr>
     else m)"

definition receiveNB :: "env \<Rightarrow> transceiver \<Rightarrow> (msg_queue \<times> transceiver) outcome" where
  "receiveNB e s =
    (case rcvFifo s of
       [] \<Rightarrow> Inr (None, s)
     | a # as \<Rightarrow>
         (case c_in (heap s a) of
            None \<Rightarrow> Inl NullDeref
          | Some m \<Rightarrow>
              (let s = setMsgIn (nat_via e m) a (s\<lparr> rcvFifo := as \<rparr>)
               in if m_type m = SIP_STATUS then response_processRecv (env_proxy e) a s
                  else request_processRecv (env_proxy e) a s)))"

end
