(* ===== verification/Sip_Retransmission.thy ===== *)
theory Sip_Retransmission
  imports Sip_Transceiver
begin

text \<open>
  How often and when the stack transmits a message. The count of transmissions is an invariant over
  everything the application and the network can do; the loop that sends returns; and an unanswered
  request is sent at fixed times and then forgotten.
\<close>

section \<open>The invariant\<close>

definition sent_count :: "nat \<Rightarrow> transceiver \<Rightarrow> nat" where
  "sent_count a s = count_list (map snd (udp_out s)) a"

definition counted :: "transceiver \<Rightarrow> bool" where
  "counted s \<longleftrightarrow>
    (\<forall>a. retransCount (heap s a) \<le> 7 \<and> int (sent_count a s) \<le> retransSoFar (heap s a)
       \<and> retransSoFar (heap s a) \<le> 7)
    \<and> (\<forall>a. heap_lim s \<le> a \<longrightarrow> sent_count a s = 0)
    \<and> (\<forall>a\<in>set (rcvFifo s). a < heap_lim s \<and> sent_count a s = 0 \<and> a \<notin> set (sendQ s))
    \<and> (\<forall>a\<in>set (sendQ s). a < heap_lim s \<and> c_encoded (heap s a) \<noteq> None \<and> c_in (heap s a) \<noteq> None)"

named_theorems counted_intros \<open>operations that keep the count\<close>

lemma counted_db [simp]:
  "counted (s\<lparr> sentRequestDB := d \<rparr>) \<longleftrightarrow> counted s" "counted (s\<lparr> sentResponseDB := d \<rparr>) \<longleftrightarrow> counted s"
  "counted (s\<lparr> st_drawn := n \<rparr>) \<longleftrightarrow> counted s" "counted (s\<lparr> st_attempt := n \<rparr>) \<longleftrightarrow> counted s"
  "counted (s\<lparr> tcp_out := t \<rparr>) \<longleftrightarrow> counted s" "counted (s\<lparr> lastPurge := p \<rparr>) \<longleftrightarrow> counted s"
  by (simp_all add: counted_def sent_count_def)

lemma counted_update:
  assumes "counted s" and "\<And>c. retransCount c \<le> 7 \<Longrightarrow> retransCount (f c) \<le> 7"
    and "\<And>c. retransSoFar (f c) = retransSoFar c" "\<And>c. c_encoded c \<noteq> None \<Longrightarrow> c_encoded (f c) \<noteq> None"
    and "\<And>c. c_in c \<noteq> None \<Longrightarrow> c_in (f c) \<noteq> None"
  shows "counted (update a f s)"
  using assms by (auto simp: counted_def update_def sent_count_def)

lemma counted_setRetransmitMax [counted_intros]: "n \<le> 7 \<Longrightarrow> counted s \<Longrightarrow> counted (setRetransmitMax n a s)"
  unfolding setRetransmitMax_def by (rule counted_update) simp_all

lemma counted_setMsgIn [counted_intros]: "counted s \<Longrightarrow> counted (setMsgIn m a s)"
  unfolding setMsgIn_def by (rule counted_update) simp_all

lemma counted_setTransport [counted_intros]: "counted s \<Longrightarrow> counted (setTransport t a s)"
  unfolding setTransport_def by (rule counted_update) simp_all

lemma counted_new: "counted s \<Longrightarrow> new_SipMsgContainer i s = (a, s') \<Longrightarrow> counted s'"
  by (auto simp: counted_def new_SipMsgContainer_def sent_count_def cleared_container_def less_Suc_eq)

lemma counted_stopAllRetrans [counted_intros]: "counted s \<Longrightarrow> counted (stopAllRetrans ms s)"
proof (induction ms arbitrary: s)
  case (Cons mp ms)
  then show ?case
    by (auto intro!: Cons.IH counted_setRetransmitMax split: option.splits)
qed simp

text \<open>What the databases leave alone.\<close>

definition queues_kept :: "transceiver \<Rightarrow> transceiver \<Rightarrow> bool" where
  "queues_kept s s' \<longleftrightarrow> sendQ s' = sendQ s \<and> rcvFifo s' = rcvFifo s \<and> udp_out s' = udp_out s
    \<and> heap_lim s \<le> heap_lim s'"

lemma update_simps [simp]:
  "heap (update a f s) = (heap s)(a := f (heap s a))" "heap_lim (update a f s) = heap_lim s"
  "sentRequestDB (update a f s) = sentRequestDB s" "sentResponseDB (update a f s) = sentResponseDB s"
  "sendQ (update a f (t :: transceiver)) = sendQ t" "rcvFifo (update a f t) = rcvFifo t"
  "udp_out (update a f t) = udp_out t" "st_random (update a f s) = st_random s"
  "st_drawn (update a f s) = st_drawn s"
  by (simp_all add: update_def)

lemma stopAllRetrans_simps [simp]:
  "heap_lim (stopAllRetrans ms s) = heap_lim s"
  "sentRequestDB (stopAllRetrans ms s) = sentRequestDB s"
  "sentResponseDB (stopAllRetrans ms s) = sentResponseDB s"
  "sendQ (stopAllRetrans ms (t :: transceiver)) = sendQ t" "rcvFifo (stopAllRetrans ms t) = rcvFifo t"
  "udp_out (stopAllRetrans ms t) = udp_out t"
  by (induction ms arbitrary: s t) (auto simp: setRetransmitMax_def split: option.splits)

text \<open>A container that a database makes for the transport.\<close>

definition unsent :: "nat \<Rightarrow> transceiver \<Rightarrow> bool" where
  "unsent a s \<longleftrightarrow> a < heap_lim s \<and> sent_count a s = 0 \<and> a \<notin> set (sendQ s) \<and> a \<notin> set (rcvFifo s)
    \<and> c_in (heap s a) \<noteq> None \<and> c_encoded (heap s a) = None"

lemma unsent_new:
  assumes "counted s" and "new_SipMsgContainer i s = (a, s')"
  shows "unsent a (setMsgIn m a s')" and "queues_kept s s'" and "counted s'"
    and "sentRequestDB s' = sentRequestDB s" "sentResponseDB s' = sentResponseDB s"
  using assms counted_new [OF assms]
  by (auto simp: unsent_def queues_kept_def counted_def new_SipMsgContainer_def sent_count_def
      cleared_container_def setMsgIn_def)

lemma unsent_simps [simp]:
  "unsent a (s\<lparr> sentRequestDB := d \<rparr>) \<longleftrightarrow> unsent a s" "unsent a (s\<lparr> sentResponseDB := d \<rparr>) \<longleftrightarrow> unsent a s"
  "unsent a (setRetransmitMax n b s) \<longleftrightarrow> unsent a s" "unsent a (setTransport t b s) \<longleftrightarrow> unsent a s"
  "unsent a (s\<lparr> st_drawn := n' \<rparr>) \<longleftrightarrow> unsent a s"
  by (auto simp: unsent_def sent_count_def setRetransmitMax_def setTransport_def)

lemma unsent_stopAllRetrans [simp]: "unsent a (stopAllRetrans ms s) \<longleftrightarrow> unsent a s"
  by (induction ms arbitrary: s) (auto split: option.splits)

lemma queues_kept_simps [simp]:
  "queues_kept s (t\<lparr> sentRequestDB := d \<rparr>) \<longleftrightarrow> queues_kept s t"
  "queues_kept s (t\<lparr> sentResponseDB := d \<rparr>) \<longleftrightarrow> queues_kept s t"
  "queues_kept s (t\<lparr> st_drawn := n' \<rparr>) \<longleftrightarrow> queues_kept s t"
  "queues_kept s (update b f t) \<longleftrightarrow> queues_kept s t"
  "queues_kept s (setMsgIn m b t) \<longleftrightarrow> queues_kept s t"
  "queues_kept s (setRetransmitMax n b t) \<longleftrightarrow> queues_kept s t" "queues_kept s (setTransport p b t) \<longleftrightarrow> queues_kept s t"
  "queues_kept s (stopAllRetrans ms t) \<longleftrightarrow> queues_kept s t" "queues_kept s s"
  by (simp_all add: queues_kept_def setRetransmitMax_def setTransport_def setMsgIn_def)

lemma queues_kept_trans: "queues_kept s t \<Longrightarrow> queues_kept t u \<Longrightarrow> queues_kept s u"
  by (simp add: queues_kept_def)

text \<open>The databases keep the count.\<close>

lemma request_processSend_ok:
  assumes "counted s" and "request_processSend now m s = Inr (a, s')"
  shows "counted s' \<and> unsent a s' \<and> queues_kept s s'"
proof -
  obtain b s1 where n: "new_SipMsgContainer (SipTransactionId m) s = (b, s1)"
    by fastforce
  note u = unsent_new [OF assms(1) n]
  show ?thesis
    using assms(2) n u
    by (auto simp: request_processSend_def outcome_simps Let_def add_request_def MAX_RETRANS_COUNT_def
        intro!: counted_intros split: option.splits if_splits)
qed

lemma response_processSend_ok:
  assumes "counted s" and "response_processSend proxy m s = Inr (a, s')"
  shows "counted s' \<and> unsent a s' \<and> queues_kept s s'"
proof -
  obtain b s1 where n: "new_SipMsgContainer (SipTransactionId m) s = (b, s1)"
    by fastforce
  note u = unsent_new [OF assms(1) n]
  show ?thesis
    using assms(2) n u
    by (auto simp: response_processSend_def outcome_simps Let_def MAX_RETRANS_COUNT_def
        intro!: counted_intros split: option.splits if_splits)
qed

lemma response_processRecv_ok:
  assumes "counted s" and "response_processRecv proxy a s = Inr (q, s')"
  shows "counted s' \<and> queues_kept s s'"
  using assms
  by (auto simp: response_processRecv_def outcome_simps Let_def intro!: counted_intros
      split: option.splits if_splits)

lemma request_queue_ok: "counted s \<Longrightarrow> request_queue m cc s = (q, s') \<Longrightarrow> counted s' \<and> queues_kept s s'"
  by (auto simp: request_queue_def Let_def intro!: counted_intros split: option.splits if_splits)

lemma store_call_ok [simp]: "counted (store_call i cc s) \<longleftrightarrow> counted s" "queues_kept s (store_call i cc t) \<longleftrightarrow> queues_kept s t"
  by (simp_all add: store_call_def)

lemma reject_out_of_order_ok:
  assumes "counted s" and "reject_out_of_order m a s = Inr s'"
  shows "counted s' \<and> queues_kept s s'"
proof -
  let ?t = "setRetransmitMax 1 a (setTransport (via_transport (getVia0 m)) a
      (setMsgIn (StatusMsg (st_random s (st_drawn s)) m 400) a (if draws_tag m 400 then s\<lparr>st_drawn := Suc (st_drawn s)\<rparr> else s)))"
  have "counted ?t" and k: "queues_kept s ?t"
    using assms(1) by (auto intro!: counted_intros)
  moreover obtain b where "response_processSend False (StatusMsg (st_random s (st_drawn s)) m 400) ?t = Inr (b, s')"
    using assms(2) by (auto simp: reject_out_of_order_def Let_def outcome_simps getVia0_def)
  ultimately show ?thesis
    using response_processSend_ok [of ?t] queues_kept_trans [OF k] by blast
qed

lemma first_request_ok:
  assumes "counted s" and "first_request proxy m a found cc s = Inr (q, s')"
  shows "counted s' \<and> queues_kept s s'"
proof -
  have q: "counted t' \<and> queues_kept s t'" if "request_queue m cc' (store_call i cc' s) = (q, t')" for q t' cc' i
    using request_queue_ok [OF _ that] assms(1) queues_kept_trans [of s "store_call i cc' s" t'] by simp
  have r: "counted t' \<and> queues_kept s t'" if "reject_out_of_order m a (store_call i cc' s) = Inr t'" for t' cc' i
    using reject_out_of_order_ok [OF _ that] assms(1) queues_kept_trans [of s "store_call i cc' s" t'] by simp
  show ?thesis
    using assms q r request_queue_ok [OF assms(1)]
    by (auto simp: first_request_def Let_def outcome_simps split: if_splits)
qed

lemma counted_clear:
  "counted s \<Longrightarrow> sent_count a s = 0 \<Longrightarrow> a \<notin> set (sendQ s) \<Longrightarrow> counted (update a (\<lambda>c. cleared_container) s)"
  by (auto simp: counted_def sent_count_def cleared_container_def)

lemma repeated_request_ok:
  assumes "counted s" and "sent_count a s = 0" "a \<notin> set (sendQ s)"
  shows "counted (repeated_request i n a cc s) \<and> queues_kept s (repeated_request i n a cc s)"
  using assms counted_clear [OF assms]
  by (auto simp: repeated_request_def FILTER_RETRANS_COUNT_def intro!: counted_intros split: option.splits)

text \<open>The three ways that a received request can take.\<close>

lemma request_processRecv_cases:
  assumes "request_processRecv proxy a s = Inr (q, s')"
  obtains m t where "c_in (heap s a) = Some m" "m_type m \<noteq> SIP_STATUS"
    and "t = (if sentResponseDB s (call_id (SipTransactionId m)) = None \<and> m_type m = SIP_INVITE
      then store_call (SipTransactionId m) (SipCallContainer (SipTransactionId m)) s else s)"
    and "sentResponseDB t (call_id (SipTransactionId m)) = None \<and> q = Some [Some m] \<and> s' = t
      \<or> (\<exists>cc n. sentResponseDB t (call_id (SipTransactionId m)) = Some cc
          \<and> findMsgPair (of_id (heap t) (SipTransactionId m)) (cc_msgs cc) = Some n
          \<and> mp_request (cc_msgs cc ! n) \<noteq> None \<and> q = None \<and> s' = repeated_request (SipTransactionId m) n a cc t)
      \<or> (\<exists>cc f. sentResponseDB t (call_id (SipTransactionId m)) = Some cc
          \<and> f = findMsgPair (of_id (heap t) (SipTransactionId m)) (cc_msgs cc)
          \<and> (\<forall>n. f = Some n \<longrightarrow> mp_request (cc_msgs cc ! n) = None)
          \<and> first_request proxy m a f cc t = Inr (q, s'))"
proof -
  obtain m where m: "c_in (heap s a) = Some m" "m_type m \<noteq> SIP_STATUS"
    using assms by (auto simp: request_processRecv_def outcome_simps split: option.splits)
  from m assms show ?thesis
    by (intro that [OF m refl]) (auto simp: request_processRecv_def Let_def split: option.splits if_splits)
qed

lemma request_processRecv_ok:
  assumes "counted s" and "sent_count a s = 0" "a \<notin> set (sendQ s)"
    and "request_processRecv proxy a s = Inr (q, s')"
  shows "counted s' \<and> queues_kept s s'"
proof (rule request_processRecv_cases [OF assms(4)], goal_cases)
  case (1 m t)
  from 1(3) assms have t: "counted t" "queues_kept s t" "sent_count a t = 0" "a \<notin> set (sendQ t)"
    by (auto simp: sent_count_def store_call_def)
  from 1(4) show ?case
    using t repeated_request_ok [OF t(1,3,4)] first_request_ok [OF t(1)] queues_kept_trans [OF t(2)] by blast
qed

text \<open>So does the transport.\<close>

lemma enqueue_ok:
  assumes "counted s" and "a < heap_lim s" "sent_count a s = 0" "a \<notin> set (rcvFifo s)"
    and "c_in (heap s a) \<noteq> None" "c_encoded (heap s a) \<noteq> None" and "enqueue a s = Inr s'"
  shows "counted s'"
proof -
  have "s' = (update a (\<lambda>c. c\<lparr> retransSoFar := 0 \<rparr>) s)\<lparr> sendQ := sendQ s @ [a] \<rparr>"
    using assms(7) by (auto simp: enqueue_def Let_def outcome_simps split: option.splits)
  with assms(1-6) show ?thesis
    unfolding counted_def sent_count_def by (simp add: ball_Un) blast
qed

lemma find_destination_ok:
  assumes "counted s" and "unsent a s" and "find_destination e a host port s = Inr (r, s')"
  shows "counted s' \<and> a < heap_lim s' \<and> sent_count a s' = 0 \<and> a \<notin> set (rcvFifo s')
    \<and> c_in (heap s' a) \<noteq> None \<and> c_encoded (heap s' a) \<noteq> None"
proof -
  have keep: "counted (update a f t)" if "counted t" "f = (\<lambda>c. c\<lparr> c_encoded := Some m \<rparr>) \<or> f = (\<lambda>c. c\<lparr> c_addr := Some d \<rparr>)"
    for f t m d
    using that by (auto intro!: counted_update)
  show ?thesis
    using assms
    by (auto simp: find_destination_def Let_def outcome_simps unsent_def sent_count_def intro!: keep
        split: option.splits if_splits)
qed

lemma udp_send_ok:
  assumes "counted s" and "unsent a s" and "udp_send e a host port s = Inr s'"
  shows "counted s'"
proof -
  obtain r s1 where s1: "find_destination e a host port s = Inr (r, s1)" "(if r then enqueue a s1 else Inr s1) = Inr s'"
    using assms(3) by (auto simp: udp_send_def outcome_simps)
  with find_destination_ok [OF assms(1,2) s1(1)] show ?thesis
    by (auto split: if_splits dest!: enqueue_ok [rotated -1])
qed

lemma send_ok: "counted s \<Longrightarrow> unsent a s \<Longrightarrow> send e a host port s = Inr s' \<Longrightarrow> counted s'"
  by (auto simp: send_def Let_def udp_send_ok split: if_splits)

lemma counted_queued: "counted s \<Longrightarrow> b \<in> set (sendQ s) \<Longrightarrow> b < heap_lim s"
  by (simp add: counted_def)

text \<open>One attempt. Between two of them the message is in no queue: it is \<open>held\<close>.\<close>

definition held :: "nat \<Rightarrow> transceiver \<Rightarrow> bool" where
  "held a s \<longleftrightarrow> a < heap_lim s \<and> a \<notin> set (rcvFifo s) \<and> c_in (heap s a) \<noteq> None \<and> c_encoded (heap s a) \<noteq> None"

lemma held_simps [simp]:
  "held a (s\<lparr> sendQ := q \<rparr>) \<longleftrightarrow> held a s" "held a (s\<lparr> st_attempt := n \<rparr>) \<longleftrightarrow> held a s"
  "held a (s\<lparr> udp_out := u \<rparr>) \<longleftrightarrow> held a s"
  by (simp_all add: held_def)

lemma counted_sendQ:
  "counted s \<Longrightarrow> held a s \<Longrightarrow> set q \<subseteq> insert a (set (sendQ s)) \<Longrightarrow> counted (s\<lparr> sendQ := q \<rparr>)"
  unfolding counted_def held_def sent_count_def by simp (blast dest: subsetD)

text \<open>The attempts that the queued messages have left.\<close>

definition work :: "transceiver \<Rightarrow> nat" where
  "work s = (\<Sum>b\<leftarrow>sendQ s. Suc (nat (retransCount (heap s b) - retransSoFar (heap s b))))"

lemma work_le:
  assumes "sendQ s' = sendQ s" and "\<And>b. b \<in> set (sendQ s) \<Longrightarrow>
    retransCount (heap s' b) - retransSoFar (heap s' b) \<le> retransCount (heap s b) - retransSoFar (heap s b)"
  shows "work s' \<le> work s"
  unfolding work_def assms(1) by (rule sum_list_mono) (use assms(2) in \<open>simp add: nat_mono\<close>)

lemma report_ok:
  assumes "counted s" and "held a s"
  obtains s' where "report code a s = Inr s'" "counted s'" "held a s'" "sendQ s' = sendQ s"
    "udp_out s' = udp_out s" "\<forall>b<heap_lim s. heap s' b = heap s b" "heap_lim s \<le> heap_lim s'"
proof -
  obtain m where m: "c_encoded (heap s a) = Some m"
    using assms(2) by (auto simp: held_def)
  obtain b s1 where n: "new_SipMsgContainer (SipTransactionId m) s = (b, s1)"
    by fastforce
  let ?s2 = "if draws_tag m code then s1\<lparr> st_drawn := Suc (st_drawn s1) \<rparr> else s1"
  let ?s3 = "setMsgIn (StatusMsg (st_random s1 (st_drawn s1)) m code) b ?s2"
  have "counted ?s3"
    using counted_new [OF assms(1) n] by (auto intro!: counted_intros)
  moreover have "b < heap_lim ?s3" "sent_count b ?s3 = 0" "b \<notin> set (sendQ ?s3)"
    using n assms(1) by (auto simp: counted_def new_SipMsgContainer_def sent_count_def setMsgIn_def)
  ultimately have c: "counted (?s3\<lparr> rcvFifo := rcvFifo ?s3 @ [b] \<rparr>)"
    unfolding counted_def sent_count_def by (simp add: ball_Un)
  have r: "report code a s = Inr (?s3\<lparr> rcvFifo := rcvFifo ?s3 @ [b] \<rparr>)"
    using m n by (simp add: report_def Let_def setMsgIn_def)
  have h: "held a (?s3\<lparr> rcvFifo := rcvFifo ?s3 @ [b] \<rparr>)"
    using assms(2) n by (auto simp: held_def new_SipMsgContainer_def setMsgIn_def)
  show ?thesis
    by (rule that [OF r c h]) (use n in \<open>auto simp: new_SipMsgContainer_def setMsgIn_def\<close>)
qed

lemma counted_attempt:
  assumes "counted s" and "held a s" and "retransSoFar (heap s a) < retransCount (heap s a)"
  shows "counted (update a (\<lambda>c. c\<lparr> retransSoFar := retransSoFar c + 1 \<rparr>) s)"
    and "counted (update a (\<lambda>c. c\<lparr> retransSoFar := retransSoFar c + 1 \<rparr>) (s\<lparr> udp_out := udp_out s @ [(now, a)] \<rparr>))"
proof -
  have "retransCount (heap s a) \<le> 7" "int (sent_count a s) \<le> retransSoFar (heap s a)"
    using assms(1) unfolding counted_def by blast+
  with assms(3) have "retransSoFar (heap s a) + 1 \<le> 7"
    "int (count_list (map snd (udp_out s)) a) \<le> retransSoFar (heap s a) + 1"
    unfolding sent_count_def by linarith+
  then show "counted (update a (\<lambda>c. c\<lparr> retransSoFar := retransSoFar c + 1 \<rparr>) s)"
    and "counted (update a (\<lambda>c. c\<lparr> retransSoFar := retransSoFar c + 1 \<rparr>) (s\<lparr> udp_out := udp_out s @ [(now, a)] \<rparr>))"
    using assms(1,2) unfolding counted_def sent_count_def held_def by (auto dest: spec)
qed

lemma after_attempt_ok:
  assumes "counted (update a (\<lambda>c. c\<lparr> retransSoFar := retransSoFar c + 1 \<rparr>) s)" and "held a s"
  obtains s' where "after_attempt now a code s = Inr s'" "counted s'"
    "work s' \<le> work s + nat (retransCount (heap s a) - retransSoFar (heap s a))"
proof -
  let ?s1 = "update a (\<lambda>c. c\<lparr> retransSoFar := retransSoFar c + 1 \<rparr>) s"
  have h: "held a ?s1"
    using assms(2) by (simp add: held_def)
  have w: "work ?s1 \<le> work s"
    by (rule work_le) simp_all
  show ?thesis
  proof (cases "retransCount (heap ?s1 a) > retransSoFar (heap ?s1 a)")
    case True
    let ?w = "next_wait (wait_period (heap ?s1 a))"
    let ?s2 = "update a (\<lambda>c. c\<lparr> wait_period := ?w, nextTx := now + word_of_int ?w \<rparr>) ?s1"
    have "counted ?s2"
      using assms(1) by (rule counted_update) simp_all
    then have "counted (?s2\<lparr> sendQ := sendQ ?s2 @ [a] \<rparr>)"
      by (rule counted_sendQ) (use h in \<open>auto simp: held_def\<close>)
    moreover have "work (?s2\<lparr> sendQ := sendQ ?s2 @ [a] \<rparr>) =
        work ?s2 + Suc (nat (retransCount (heap s a) - (retransSoFar (heap s a) + 1)))"
      by (simp add: work_def)
    moreover have "work ?s2 \<le> work ?s1"
      by (rule work_le) simp_all
    moreover have "Suc (nat (retransCount (heap s a) - (retransSoFar (heap s a) + 1))) =
        nat (retransCount (heap s a) - retransSoFar (heap s a))"
      using True by simp
    moreover have "after_attempt now a code s = Inr (?s2\<lparr> sendQ := sendQ ?s2 @ [a] \<rparr>)"
      using True by (simp add: after_attempt_def Let_def)
    ultimately show ?thesis
      using w by (intro that [of "?s2\<lparr> sendQ := sendQ ?s2 @ [a] \<rparr>"]) linarith+
  next
    case False
    obtain m where m: "c_in (heap s a) = Some m"
      using assms(2) by (auto simp: held_def)
    obtain s' where s': "report code a ?s1 = Inr s'" "counted s'" and "held a s'"
      and q: "sendQ s' = sendQ ?s1" and "udp_out s' = udp_out ?s1"
      and eq: "\<forall>b<heap_lim ?s1. heap s' b = heap ?s1 b" and "heap_lim ?s1 \<le> heap_lim s'"
      by (rule report_ok [OF assms(1) h, of code])
    have "work s' \<le> work ?s1"
      by (rule work_le [OF q]) (use eq counted_queued [OF assms(1)] in simp)
    then have "work s' \<le> work s + nat (retransCount (heap s a) - retransSoFar (heap s a))"
      "work ?s1 \<le> work s + nat (retransCount (heap s a) - retransSoFar (heap s a))"
      using w by linarith+
    moreover have "after_attempt now a code s =
        (if code \<noteq> 0 \<and> m_type m \<noteq> SIP_ACK \<and> m_type m \<noteq> SIP_STATUS then report code a ?s1 else Inr ?s1)"
      using False m by (simp add: after_attempt_def Let_def)
    ultimately show ?thesis
      using that s'(1,2) assms(1) by (simp split: if_splits)
  qed
qed

lemma send_one_ok:
  assumes "counted s" and "held a s"
  obtains finished s' where "send_one e now a s = Inr (finished, s')" "counted s'"
    "\<not> finished \<Longrightarrow> work s' < work s + Suc (nat (retransCount (heap s a) - retransSoFar (heap s a)))"
proof (cases "retransCount (heap s a) > retransSoFar (heap s a)")
  case False
  then show ?thesis
    using assms(1) by (intro that [of False s]) (simp_all add: send_one_def)
next
  case True
  let ?s = "s\<lparr> st_attempt := Suc (st_attempt s) \<rparr>"
  have h: "counted ?s" "held a ?s" and left: "retransSoFar (heap ?s a) < retransCount (heap ?s a)"
    using assms True by simp_all
  have w: "work (s\<lparr> st_attempt := n \<rparr>) = work s" "work (s\<lparr> st_attempt := n, udp_out := u \<rparr>) = work s" for n u
    by (simp_all add: work_def)
  have enc: "c_encoded (heap s a) \<noteq> None"
    using assms(2) by (simp add: held_def)
  have attempt: "\<exists>s'. obind (after_attempt now a code t) (\<lambda>s. Inr (False, s)) = Inr (False, s') \<and> counted s'
      \<and> work s' < work s + Suc (nat (retransCount (heap s a) - retransSoFar (heap s a)))"
    if t: "counted (update a (\<lambda>c. c\<lparr> retransSoFar := retransSoFar c + 1 \<rparr>) t)" "held a t"
      "work t \<le> work s" "heap t a = heap s a" for t code
  proof -
    obtain s' where "after_attempt now a code t = Inr s'" "counted s'"
      "work s' \<le> work t + nat (retransCount (heap t a) - retransSoFar (heap t a))"
      by (rule after_attempt_ok [OF t(1,2)])
    with t(3,4) show ?thesis
      by auto
  qed
  have failed: "\<exists>t. (case c_in (heap ?s a) of None \<Rightarrow> Inr ?s
        | Some m \<Rightarrow> if m_type m \<noteq> SIP_STATUS then report code a ?s else Inr ?s) = Inr t
      \<and> counted t \<and> held a t \<and> work t \<le> work s \<and> heap t a = heap s a" for code
  proof -
    obtain t where t: "report code a ?s = Inr t" "counted t" "held a t" and q: "sendQ t = sendQ ?s"
      and "udp_out t = udp_out ?s" and eq: "\<forall>b<heap_lim ?s. heap t b = heap ?s b" and "heap_lim ?s \<le> heap_lim t"
      by (rule report_ok [OF h, of code])
    have "work t \<le> work ?s"
      by (rule work_le [OF q]) (use eq counted_queued [OF h(1)] in simp)
    moreover have "heap t a = heap s a"
      using h(2) eq by (simp add: held_def)
    ultimately show ?thesis
      using t h w by (auto split: option.splits)
  qed
  have "\<exists>finished s'. send_one e now a s = Inr (finished, s') \<and> counted s'
      \<and> (\<not> finished \<longrightarrow> work s' < work s + Suc (nat (retransCount (heap s a) - retransSoFar (heap s a))))"
  proof (cases "env_udp e (st_attempt s)")
    case Swallowed
    then show ?thesis
      using True attempt [OF counted_attempt(1) [OF h left] h(2), of 0] w
      by (auto simp: send_one_def)
  next
    case (Result rv)
    consider "rv = -11 \<or> rv = -4 \<or> rv = 0" | "rv < 0" "rv \<noteq> -11" "rv \<noteq> -4" | "rv > 0"
      by linarith
    then show ?thesis
    proof cases
      case 1
      have "counted (?s\<lparr> sendQ := sendQ ?s @ [a] \<rparr>)"
        by (rule counted_sendQ [OF h]) auto
      with 1 Result True enc show ?thesis
        by (auto simp: send_one_def)
    next
      case 2
      obtain t where t: "(case c_in (heap ?s a) of None \<Rightarrow> Inr ?s
          | Some m \<Rightarrow> if m_type m \<noteq> SIP_STATUS then report (error_status rv) a ?s else Inr ?s) = Inr t"
        "counted t" "held a t" "work t \<le> work s" "heap t a = heap s a"
        using failed by blast
      have "counted (update a (\<lambda>c. c\<lparr> retransSoFar := retransSoFar c + 1 \<rparr>) t)"
        using t True by (intro counted_attempt) simp_all
      from attempt [OF this t(3-5), of "error_status rv"] 2 Result True enc t(1) show ?thesis
        by (auto simp: send_one_def Let_def)
    next
      case 3
      with Result True enc
        attempt [OF counted_attempt(2) [OF h left, of now], of 0] h(2) w show ?thesis
        by (auto simp: send_one_def Let_def)
    qed
  qed
  with that show ?thesis
    by blast
qed

text \<open>The loop returns, because every round uses up an attempt or a place in the queue.\<close>

definition top_ok :: "env \<Rightarrow> bool" where
  "top_ok e \<longleftrightarrow> (\<forall>ks. ks \<noteq> [] \<longrightarrow> env_top e ks < length ks)"

lemma top_okD: "top_ok e \<Longrightarrow> q \<noteq> [] \<Longrightarrow> env_top e (map f q) < length q"
  unfolding top_ok_def by (metis length_map map_is_Nil_conv)

lemma popped:
  assumes "n < length (sendQ s)" and "s' = s\<lparr> sendQ := take n (sendQ s) @ drop (Suc n) (sendQ s) \<rparr>" and "a = sendQ s ! n"
  shows "work s = work s' + Suc (nat (retransCount (heap s' a) - retransSoFar (heap s' a)))"
    and "counted s \<Longrightarrow> counted s' \<and> held a s'"
proof -
  have q: "sendQ s = take n (sendQ s) @ a # drop (Suc n) (sendQ s)"
    using assms(1,3) by (simp add: id_take_nth_drop)
  show "work s = work s' + Suc (nat (retransCount (heap s' a) - retransSoFar (heap s' a)))"
    unfolding work_def assms(2) by (subst q) simp
  assume c: "counted s"
  have "a \<in> set (sendQ s)"
    using assms(1,3) by simp
  with c have "held a s"
    unfolding counted_def held_def by blast
  moreover have "set (take n (sendQ s) @ drop (Suc n) (sendQ s)) \<subseteq> insert a (set (sendQ s))"
    by (auto dest: in_set_takeD in_set_dropD)
  ultimately show "counted s' \<and> held a s'"
    unfolding assms(2) using counted_sendQ [OF c] by simp
qed

lemma tick_loop_ok:
  assumes "counted s" and "top_ok e"
  shows "\<exists>s'. tick_loop e now s = ret s' \<and> counted s'"
  using assms(1)
proof (induction "work s" arbitrary: s rule: less_induct)
  case less
  let ?n = "env_top e (map (\<lambda>a. nextTx (heap s a)) (sendQ s))"
  let ?s = "s\<lparr> sendQ := take ?n (sendQ s) @ drop (Suc ?n) (sendQ s) \<rparr>"
  show ?case
  proof (cases "sendQ s = [] \<or> nextTx (heap s (sendQ s ! ?n)) > now")
    case True
    moreover have "sendQ s \<noteq> [] \<Longrightarrow> ?n < length (sendQ s)"
      by (rule top_okD [OF assms(2)])
    ultimately show ?thesis
      using less.prems by (subst tick_loop.simps) (auto simp: Let_def not_le [symmetric])
  next
    case False
    then have n: "?n < length (sendQ s)"
      by (intro top_okD [OF assms(2)]) simp
    note p = popped [OF n refl refl]
    obtain finished s' where s': "send_one e now (sendQ s ! ?n) ?s = Inr (finished, s')" "counted s'"
      "\<not> finished \<Longrightarrow> work s' < work ?s + Suc (nat (retransCount (heap ?s (sendQ s ! ?n)) - retransSoFar (heap ?s (sendQ s ! ?n))))"
      using p(2) [OF less.prems] send_one_ok by blast
    then have "tick_loop e now s = (if finished then ret s' else tick_loop e now s')"
      using False n by (subst tick_loop.simps) (simp add: Let_def)
    moreover have "\<not> finished \<Longrightarrow> \<exists>s''. tick_loop e now s' = ret s'' \<and> counted s''"
      using less.hyps [of s'] s'(2,3) p(1) by simp
    ultimately show ?thesis
      using s'(2) by (cases finished) simp_all
  qed
qed

lemma udp_receive_ok: "counted s \<Longrightarrow> counted (udp_receive incoming s)"
proof (cases incoming)
  case (Some m)
  assume c: "counted s"
  obtain a s1 where n: "new_SipMsgContainer (SipTransactionId m) s = (a, s1)"
    by fastforce
  have "counted (setMsgIn m a s1)"
    using counted_new [OF c n] by (rule counted_intros)
  moreover have "unsent a (setMsgIn m a s1)"
    using unsent_new [OF c n] by simp
  moreover have "rcvFifo (setMsgIn m a s1) = rcvFifo s1"
    by (simp add: setMsgIn_def)
  ultimately show ?thesis
    using Some n by (simp add: udp_receive_def counted_def unsent_def sent_count_def ball_Un)
qed (simp add: udp_receive_def)

lemma stack_tick_ok:
  assumes "counted s" and "top_ok e"
  shows "\<exists>s'. stack_tick e now incoming s = ret s' \<and> counted s'"
  using tick_loop_ok [OF udp_receive_ok [OF assms(1)] assms(2), of now incoming]
  by (auto simp: stack_tick_def udp_tick_def purge_def)

lemma counted_fifo: "counted s \<Longrightarrow> set q \<subseteq> set (rcvFifo s) \<Longrightarrow> counted (s\<lparr> rcvFifo := q \<rparr>)"
  unfolding counted_def sent_count_def by (simp, blast)

lemma receiveNB_ok:
  assumes "counted s" and "receiveNB e s = Inr (q, s')"
  shows "counted s'"
proof (cases "rcvFifo s")
  case (Cons a as)
  obtain m where m: "c_in (heap s a) = Some m"
    using assms(2) Cons by (auto simp: receiveNB_def split: option.splits)
  let ?s = "setMsgIn (nat_via e m) a (s\<lparr> rcvFifo := as \<rparr>)"
  have c: "counted ?s"
    using assms(1) Cons by (intro counted_intros counted_fifo) auto
  have "sent_count a ?s = 0" "a \<notin> set (sendQ ?s)"
    using assms(1) Cons by (auto simp: counted_def sent_count_def setMsgIn_def)
  with c show ?thesis
    using assms(2) Cons m request_processRecv_ok [OF c] response_processRecv_ok [OF c]
    by (auto simp: receiveNB_def Let_def split: if_splits)
qed (use assms in \<open>simp add: receiveNB_def\<close>)

section \<open>Executions\<close>

text \<open>
  Everything the application and the network can do with the stack, with what each step hands to the
  application.
\<close>

inductive stack_step :: "env \<Rightarrow> transceiver \<Rightarrow> msg_queue \<Rightarrow> transceiver \<Rightarrow> bool" for e where
  sends_request: "stack_sendAsync e now m s = Inr s' \<Longrightarrow> stack_step e s None s'"
| sends_request_to: "stack_sendAsyncTo e now m host port s = Inr s' \<Longrightarrow> stack_step e s None s'"
| sends_reply: "stack_sendReply e m s = Inr s' \<Longrightarrow> stack_step e s None s'"
| ticks: "stack_tick e now incoming s = ret s' \<Longrightarrow> stack_step e s None s'"
| receives: "receiveNB e s = Inr (q, s') \<Longrightarrow> stack_step e s q s'"
| sets_purge_timer: "stack_step e s None (setCallPurgeTimer i t s)"

inductive runs :: "('s \<Rightarrow> 'o \<Rightarrow> 's \<Rightarrow> bool) \<Rightarrow> 's \<Rightarrow> 'o list \<Rightarrow> 's \<Rightarrow> bool" for step where
  run_nil: "runs step s [] s"
| run_step: "runs step s qs s' \<Longrightarrow> step s' q s'' \<Longrightarrow> runs step s (qs @ [q]) s''"

abbreviation stack_run :: "env \<Rightarrow> transceiver \<Rightarrow> msg_queue list \<Rightarrow> transceiver \<Rightarrow> bool" where
  "stack_run e \<equiv> runs (stack_step e)"

lemma counted_new_SipTransceiver: "counted (new_SipTransceiver rnd)"
  by (simp add: counted_def new_SipTransceiver_def sent_count_def cleared_container_def)

lemma request_sent_ok:
  assumes "counted s" and "obind (request_processSend now m s) (\<lambda>(a, s). send e a host port s) = Inr s'"
  shows "counted s'"
proof -
  obtain a t where "request_processSend now m s = Inr (a, t)" "send e a host port t = Inr s'"
    using assms(2) by (auto simp: outcome_simps)
  with request_processSend_ok [OF assms(1)] show ?thesis
    by (blast intro: send_ok)
qed

lemma reply_sent_ok:
  assumes "counted s" and "stack_sendReply e m s = Inr s'"
  shows "counted s'"
proof -
  obtain a t where "response_processSend (env_proxy e) m s = Inr (a, t)" "send e a [] [] t = Inr s'"
    using assms(2) by (auto simp: stack_sendReply_def outcome_simps)
  with response_processSend_ok [OF assms(1)] show ?thesis
    by (blast intro: send_ok)
qed

lemma stack_step_ok:
  assumes "stack_step e s q s'" and "counted s" and "top_ok e"
  shows "counted s'"
  using assms(1)
proof cases
  case sends_request
  then show ?thesis
    using assms(2) by (auto simp: stack_sendAsync_def intro: request_sent_ok split: if_splits)
next
  case sends_request_to
  then show ?thesis
    using assms(2) by (auto simp: stack_sendAsyncTo_def Let_def intro: request_sent_ok split: if_splits)
next
  case sends_reply
  then show ?thesis
    using reply_sent_ok [OF assms(2)] by simp
next
  case (ticks now incoming)
  with stack_tick_ok [OF assms(2,3), of now incoming] show ?thesis
    by simp
next
  case receives
  with assms(2) show ?thesis
    by (rule receiveNB_ok)
next
  case sets_purge_timer
  then show ?thesis
    using assms(2) by (simp add: setCallPurgeTimer_def)
qed

lemma stack_run_ok: "stack_run e s qs s' \<Longrightarrow> counted s \<Longrightarrow> top_ok e \<Longrightarrow> counted s'"
  by (induction rule: runs.induct) (auto intro: stack_step_ok)

lemma counted_limit: "counted s \<Longrightarrow> sent_count a s \<le> 7"
proof -
  assume "counted s"
  then have "int (sent_count a s) \<le> retransSoFar (heap s a) \<and> retransSoFar (heap s a) \<le> 7"
    unfolding counted_def by blast
  then show ?thesis
    by linarith
qed

section \<open>The timer of one message\<close>

text \<open>
  Of the times at which the stack is ticked, those at which a message with \<open>left\<close> attempts, the
  waiting period \<open>w\<close> and the due time \<open>due\<close> is sent.
\<close>

fun timer :: "nat \<Rightarrow> int \<Rightarrow> u64 \<Rightarrow> u64 list \<Rightarrow> u64 list" where
  "timer left w due [] = []"
| "timer left w due (t # ts) =
    (if 0 < left \<and> due \<le> t
     then t # timer (left - 1) (next_wait w) (t + word_of_int (next_wait w)) ts
     else timer left w due ts)"

text \<open>
  The specification of the retransmissions does not know the rule of the code: a message is sent at
  the first tick from \<open>due\<close> on, and then, for each period of the list, at the first tick that is so
  many milliseconds after the tick before.
\<close>

fun paced :: "nat list \<Rightarrow> nat \<Rightarrow> u64 list \<Rightarrow> u64 list" where
  "paced ps due [] = []"
| "paced ps due (t # ts) =
    (if due \<le> unat t then t # (case ps of [] \<Rightarrow> [] | p # ps \<Rightarrow> paced ps (unat t + p) ts)
     else paced ps due ts)"

fun waits :: "int \<Rightarrow> nat list \<Rightarrow> bool" where
  "waits w [] = True"
| "waits w (p # ps) \<longleftrightarrow> next_wait w = int p \<and> p \<le> 4000 \<and> waits (int p) ps"

lemma timer_none: "timer 0 w due ts = []"
  by (induction ts) auto

lemma timer_paced:
  assumes "waits w ps" "\<forall>t\<in>set ts. unat t + 4000 < 2 ^ 64"
  shows "timer (Suc (length ps)) w due ts = paced ps (unat due) ts"
  using assms
proof (induction ts arbitrary: ps w due)
  case (Cons t ts)
  show ?case
  proof (cases "due \<le> t")
    case True
    then show ?thesis
    proof (cases ps)
      case (Cons p qs)
      with Cons.prems have w: "next_wait w = int p" "waits (int p) qs" and l: "unat t + p < 2 ^ 64"
        by auto
      have "unat (t + word_of_int (int p)) = unat t + p"
        using l by (simp add: unat_word_ariths unsigned_of_nat take_bit_nat_eq_self)
      with Cons.IH [OF w(2), of "t + word_of_int (int p)"] Cons.prems(2) w(1) True Cons show ?thesis
        by (simp add: word_le_nat_alt)
    qed (simp add: word_le_nat_alt timer_none)
  next
    case False
    with Cons.IH [OF Cons.prems(1)] Cons.prems(2) show ?thesis by (simp add: word_le_nat_alt)
  qed
qed simp

lemma retransmission_periods: "waits 0 [500, 1000, 2000, 4000, 4000, 4000]"
  by (simp add: next_wait_def retransmitTimeInitial_def retransmitTimeMax_def)

fun stack_ticks :: "env \<Rightarrow> u64 list \<Rightarrow> transceiver \<Rightarrow> transceiver run" where
  "stack_ticks e [] s = ret s"
| "stack_ticks e (t # ts) s = rbind (stack_tick e t None s) (stack_ticks e ts)"

definition wait_ok :: "int \<Rightarrow> bool" where
  "wait_ok w \<longleftrightarrow> w \<in> {0, 500, 1000, 2000, 4000}"

lemma next_wait_ok:
  fixes t :: u64
  assumes "wait_ok w" and "unat t + 4000 < 2 ^ 64"
  shows "wait_ok (next_wait w)" and "t < t + word_of_int (next_wait w)"
proof -
  from assms(1) have w: "next_wait w \<in> {500, 1000, 2000, 4000}"
    by (auto simp: wait_ok_def next_wait_def retransmitTimeInitial_def retransmitTimeMax_def)
  then show "wait_ok (next_wait w)"
    by (auto simp: wait_ok_def)
  from w assms(2) show "t < t + word_of_int (next_wait w)"
    by (auto simp: word_less_nat_alt unat_word_ariths)
qed

definition waiting :: "nat \<Rightarrow> sip_msg \<Rightarrow> nat \<Rightarrow> int \<Rightarrow> u64 \<Rightarrow> transceiver \<Rightarrow> bool" where
  "waiting a m left w due s \<longleftrightarrow>
    c_encoded (heap s a) = Some m \<and> c_in (heap s a) \<noteq> None \<and> sendQ s = (if left = 0 then [] else [a])
    \<and> 0 \<le> retransSoFar (heap s a)
    \<and> (left \<noteq> 0 \<longrightarrow> retransCount (heap s a) - retransSoFar (heap s a) = int left
         \<and> wait_period (heap s a) = w \<and> nextTx (heap s a) = due)"

text \<open>What the ticks between two datagrams leave alone.\<close>

definition tick_keeps :: "transceiver \<Rightarrow> transceiver \<Rightarrow> bool" where
  "tick_keeps s s' \<longleftrightarrow> rcvFifo s' = rcvFifo s \<and> heap_lim s' = heap_lim s
    \<and> (\<forall>b. c_id (heap s' b) = c_id (heap s b) \<and> c_in (heap s' b) = c_in (heap s b))
    \<and> (\<forall>k cc. sentRequestDB s k = Some cc \<and> purgeAt cc = 0 \<longrightarrow> sentRequestDB s' k = Some cc)"

lemma tick_keeps_refl [simp]: "tick_keeps s s"
  by (simp add: tick_keeps_def)

lemma tick_keeps_trans: "tick_keeps s t \<Longrightarrow> tick_keeps t u \<Longrightarrow> tick_keeps s u"
  by (simp add: tick_keeps_def)

lemma purge_simps [simp]:
  "waiting a m left w due (purge now s) \<longleftrightarrow> waiting a m left w due s" "udp_out (purge now s) = udp_out s"
  "sendQ (purge now s) = sendQ s" "heap (purge now s) = heap s" "tick_keeps s (purge now s)"
  by (simp_all add: purge_def waiting_def tick_keeps_def purgeOldCalls_def)

definition accepting :: "env \<Rightarrow> bool" where
  "accepting e \<longleftrightarrow> (\<forall>n. case env_udp e n of Swallowed \<Rightarrow> False | Result rv \<Rightarrow> rv > 0)"

lemma top_one: "top_ok e \<Longrightarrow> env_top e [k] = 0"
  unfolding top_ok_def by (metis length_0_conv length_Cons less_Suc0 list.distinct(1))

lemma tick_loop_idle:
  assumes "waiting a m left w due s" and "top_ok e" and "left = 0 \<or> now < due"
  shows "tick_loop e now s = ret s"
  using assms top_one [OF assms(2)]
  by (subst tick_loop.simps) (auto simp: waiting_def Let_def)

lemma tick_loop_due:
  assumes "waiting a m (Suc left) w due s" and "top_ok e" and "accepting e" and "due \<le> now"
    and "wait_ok w" and "unat now + 4000 < 2 ^ 64"
  shows "\<exists>s'. tick_loop e now s = ret s' \<and> udp_out s' = udp_out s @ [(now, a)] \<and> tick_keeps s s'
    \<and> waiting a m left (next_wait w) (now + word_of_int (next_wait w)) s'"
proof -
  let ?s = "s\<lparr> sendQ := [], st_attempt := Suc (st_attempt s), udp_out := udp_out s @ [(now, a)] \<rparr>"
  let ?s1 = "update a (\<lambda>c. c\<lparr> retransSoFar := retransSoFar c + 1 \<rparr>) ?s"
  let ?s2 = "(update a (\<lambda>c. c\<lparr> wait_period := next_wait w, nextTx := now + word_of_int (next_wait w) \<rparr>) ?s1)\<lparr> sendQ := [a] \<rparr>"
  let ?t = "if left = 0 then ?s1 else ?s2"
  have s: "sendQ s = [a]" "nextTx (heap s a) = due" "retransCount (heap s a) - retransSoFar (heap s a) = int (Suc left)"
    "wait_period (heap s a) = w" "c_encoded (heap s a) = Some m" "c_in (heap s a) \<noteq> None"
    "0 \<le> retransSoFar (heap s a)"
    using assms(1) by (simp_all add: waiting_def)
  have top: "env_top e [due] = 0"
    using assms(2) by (rule top_one)
  obtain rv where rv: "env_udp e (st_attempt s) = Result rv" "rv > 0"
    using assms(3) [unfolded accepting_def, rule_format, of "st_attempt s"] by (auto split: attempt.splits)
  have "after_attempt now a 0 ?s = Inr ?t"
    using s by (auto simp: after_attempt_def Let_def)
  then have "send_one e now a (s\<lparr> sendQ := [] \<rparr>) = Inr (False, ?t)"
    using s rv by (simp add: send_one_def Let_def outcome_simps)
  then have "tick_loop e now s = tick_loop e now ?t"
    using s top assms(4) [folded not_less] by (subst tick_loop.simps) (simp add: Let_def)
  moreover have w: "waiting a m left (next_wait w) (now + word_of_int (next_wait w)) ?t"
    using s by (auto simp: waiting_def)
  moreover have "tick_keeps s ?t"
    by (simp add: tick_keeps_def)
  moreover have "tick_loop e now ?t = ret ?t"
    by (rule tick_loop_idle [OF w assms(2)]) (use next_wait_ok(2) [OF assms(5,6)] in simp)
  ultimately show ?thesis
    by simp
qed

lemma stack_tick_alone: "stack_tick e now None s = rbind (tick_loop e now s) (\<lambda>s. ret (purge now s))"
  by (simp add: stack_tick_def udp_tick_def udp_receive_def)

lemma stack_tick_waiting:
  assumes "waiting a m left w due s" and "top_ok e" and "accepting e" and "wait_ok w" and "unat now + 4000 < 2 ^ 64"
  obtains s' where "rbind (tick_loop e now s) (\<lambda>s. ret (purge now s)) = ret s'" "tick_keeps s s'"
    and "if 0 < left \<and> due \<le> now
      then udp_out s' = udp_out s @ [(now, a)] \<and> waiting a m (left - 1) (next_wait w) (now + word_of_int (next_wait w)) s'
      else udp_out s' = udp_out s \<and> waiting a m left w due s'"
proof (cases "0 < left \<and> due \<le> now")
  case True
  then obtain k where k: "left = Suc k"
    using gr0_implies_Suc by blast
  obtain t where "tick_loop e now s = ret t" "udp_out t = udp_out s @ [(now, a)]" "tick_keeps s t"
    "waiting a m k (next_wait w) (now + word_of_int (next_wait w)) t"
    using tick_loop_due [of a m k w due s e now] True assms k by blast
  with k True show ?thesis
    by (intro that [of "purge now t"]) (auto intro: tick_keeps_trans)
next
  case False
  then have "tick_loop e now s = ret s"
    using tick_loop_idle [OF assms(1,2)] by (auto simp: not_le)
  with False assms(1) show ?thesis
    by (intro that [of "purge now s"]) simp_all
qed

lemma stack_ticks_waiting:
  assumes "waiting a m left w due s" and "wait_ok w" and "top_ok e" and "accepting e"
    and "\<forall>t\<in>set ts. unat t + 4000 < 2 ^ 64"
  shows "\<exists>s' left' w' due'. stack_ticks e ts s = ret s'
    \<and> udp_out s' = udp_out s @ map (\<lambda>t. (t, a)) (timer left w due ts)
    \<and> tick_keeps s s' \<and> waiting a m left' w' due' s' \<and> wait_ok w'"
  using assms(1,2,5)
proof (induction ts arbitrary: left w due s)
  case Nil
  then show ?case
    by auto
next
  case (Cons t ts)
  from Cons.prems have t: "unat t + 4000 < 2 ^ 64" "\<forall>t\<in>set ts. unat t + 4000 < 2 ^ 64"
    by simp_all
  obtain s' where s': "rbind (tick_loop e t s) (\<lambda>s. ret (purge t s)) = ret s'" "tick_keeps s s'"
    and c: "if 0 < left \<and> due \<le> t
      then udp_out s' = udp_out s @ [(t, a)] \<and> waiting a m (left - 1) (next_wait w) (t + word_of_int (next_wait w)) s'
      else udp_out s' = udp_out s \<and> waiting a m left w due s'"
    by (rule stack_tick_waiting [OF Cons.prems(1) assms(3,4) Cons.prems(2) t(1)])
  show ?case
  proof (cases "0 < left \<and> due \<le> t")
    case True
    with c have u: "udp_out s' = udp_out s @ [(t, a)]" and
      w: "waiting a m (left - 1) (next_wait w) (t + word_of_int (next_wait w)) s'"
      by simp_all
    from Cons.IH [OF w next_wait_ok(1) [OF Cons.prems(2) t(1)] t(2)] u s'(1) True show ?thesis
      by (auto simp: stack_tick_alone intro: tick_keeps_trans [OF s'(2)])
  next
    case False
    with c have u: "udp_out s' = udp_out s" and w: "waiting a m left w due s'"
      by simp_all
    from Cons.IH [OF w Cons.prems(2) t(2)] u s'(1) False show ?thesis
      by (auto simp: stack_tick_alone intro: tick_keeps_trans [OF s'(2)])
  qed
qed

text \<open>A message whose retransmission has been stopped is dropped at its next turn.\<close>

definition silenced :: "nat \<Rightarrow> transceiver \<Rightarrow> bool" where
  "silenced a s \<longleftrightarrow> sendQ s \<in> {[], [a]} \<and> retransCount (heap s a) \<le> retransSoFar (heap s a)"

lemma tick_loop_silenced:
  assumes "silenced a s" and "top_ok e"
  shows "\<exists>s'. tick_loop e now s = ret s' \<and> udp_out s' = udp_out s \<and> silenced a s'"
proof -
  have [simp]: "tick_loop e now (s\<lparr> sendQ := [] \<rparr>) = ret (s\<lparr> sendQ := [] \<rparr>)" "sendQ s = [] \<Longrightarrow> tick_loop e now s = ret s"
    by (simp_all add: tick_loop.simps)
  have "tick_loop e now s = ret (if sendQ s = [a] \<and> nextTx (heap s a) \<le> now then s\<lparr> sendQ := [] \<rparr> else s)"
  proof (cases "sendQ s = [a]")
    case True
    with assms top_one [OF assms(2)] show ?thesis
      by (subst tick_loop.simps) (auto simp: Let_def silenced_def send_one_def not_less)
  qed (use assms(1) in \<open>auto simp: silenced_def\<close>)
  with assms(1) show ?thesis
    by (auto simp: silenced_def)
qed

lemma stack_ticks_silenced:
  "silenced a s \<Longrightarrow> top_ok e \<Longrightarrow> \<exists>s'. stack_ticks e ts s = ret s' \<and> udp_out s' = udp_out s"
proof (induction ts arbitrary: s)
  case (Cons t ts)
  obtain s' where "tick_loop e t s = ret s'" "udp_out s' = udp_out s" "silenced a s'"
    using tick_loop_silenced [OF Cons.prems] by blast
  with Cons.IH [of "purge t s'"] Cons.prems(2) show ?case
    by (simp add: stack_tick_alone silenced_def)
qed simp

text \<open>A request that the application sends is such a message.\<close>

definition asked :: "nat \<Rightarrow> sip_msg \<Rightarrow> transceiver \<Rightarrow> bool" where
  "asked a m s \<longleftrightarrow> a < heap_lim s \<and> c_in (heap s a) = Some m \<and> c_id (heap s a) = SipTransactionId m
    \<and> (\<exists>cc. sentRequestDB s (call_id (SipTransactionId m)) = Some cc \<and> purgeAt cc = 0
         \<and> cc_msgs cc = [\<lparr> mp_request = Some a, mp_response = None \<rparr>])"

lemma asked_tick_keeps: "asked a m s \<Longrightarrow> tick_keeps s s' \<Longrightarrow> asked a m s'"
  by (auto simp: asked_def tick_keeps_def)

lemma sent_request_waits:
  assumes "sendQ s = []" and "m_type m \<notin> {SIP_STATUS, SIP_ACK, SIP_CANCEL}" and "checkMaxForwards m"
    and "m_url m = SIP_URL u" and "url_transport u \<notin> {''TCP'', ''tcp''}"
    and "getHostPort m = Inr (host, port)" "port \<ge> 0" "env_reachable e host"
  shows "\<exists>s'. stack_sendAsync e now m s = Inr s' \<and> waiting (heap_lim s) m 7 0 0 s'
    \<and> udp_out s' = udp_out s \<and> rcvFifo s' = rcvFifo s
    \<and> (m_type m \<noteq> SIP_BYE \<and> sentRequestDB s (call_id (SipTransactionId m)) = None \<longrightarrow> asked (heap_lim s) m s')"
proof -
  let ?a = "heap_lim s"
  obtain s1 where s1: "request_processSend now m s = Inr (?a, s1)"
    and keep: "sendQ s1 = []" "udp_out s1 = udp_out s" "rcvFifo s1 = rcvFifo s"
      "heap s1 ?a = cleared_container\<lparr> c_id := SipTransactionId m, c_in := Some m,
         c_transport := url_transport u, retransCount := 7 \<rparr>"
    and asked: "m_type m \<noteq> SIP_BYE \<and> sentRequestDB s (call_id (SipTransactionId m)) = None \<longrightarrow> asked ?a m s1"
    using assms(1,2,4)
    by (auto simp: request_processSend_def request_transport_def new_SipMsgContainer_def add_request_def
        MAX_RETRANS_COUNT_def setMsgIn_def setTransport_def setRetransmitMax_def outcome_simps Let_def
        asked_def SipCallContainer_def addMsgPair_def split: option.splits)
  let ?s2 = "update ?a (\<lambda>c. c\<lparr> c_addr := Some (host, port) \<rparr>) (update ?a (\<lambda>c. c\<lparr> c_encoded := Some m \<rparr>) s1)"
  let ?s3 = "(update ?a (\<lambda>c. c\<lparr> retransSoFar := 0 \<rparr>) ?s2)\<lparr> sendQ := [?a] \<rparr>"
  have "find_destination e ?a [] [] s1 = Inr (True, ?s2)"
    using keep assms(6,8) by (simp add: find_destination_def cleared_container_def outcome_simps)
  then have "send e ?a [] [] s1 = Inr ?s3"
    using keep assms(5,7) by (simp add: send_def udp_send_def enqueue_def outcome_simps Let_def)
  then have "stack_sendAsync e now m s = Inr ?s3"
    using s1 assms(3) by (simp add: stack_sendAsync_def outcome_simps)
  moreover have "asked ?a m s1 \<Longrightarrow> asked ?a m ?s3"
    by (simp add: asked_def)
  ultimately show ?thesis
    using keep asked by (simp add: waiting_def cleared_container_def)
qed

text \<open>A response arrives while the request waits for its next transmission.\<close>

lemma same_id_refl [simp]: "same_id i i"
  by (simp add: same_id_def)

lemma response_arrives:
  assumes "asked a m s" and "waiting a m left w due s" and "rcvFifo s = []" and "wait_ok w"
    and "top_ok e" "accepting e" "unat now + 4000 < 2 ^ 64" and "\<not> env_proxy e" "\<not> env_nat e"
    and "m_type r = SIP_STATUS" and "SipTransactionId r = SipTransactionId m"
  shows "\<exists>s' s''. stack_tick e now (Some r) s = ret s'
    \<and> receiveNB e s' = Inr (Some (if m_status r < 200 then [Some r] else [Some m, Some r]), s'')
    \<and> udp_out s'' = udp_out s' \<and> silenced a s''"
proof -
  let ?b = "heap_lim s"
  let ?t = "udp_receive (Some r) s"
  have a: "a < heap_lim s" "a \<noteq> ?b"
    using assms(1) by (simp_all add: asked_def)
  have t: "heap ?t a = heap s a" "heap_lim ?t = Suc ?b" "rcvFifo ?t = [?b]" "sendQ ?t = sendQ s"
    "sentRequestDB ?t = sentRequestDB s" "c_in (heap ?t ?b) = Some r"
    using a assms(3) by (simp_all add: udp_receive_def new_SipMsgContainer_def setMsgIn_def)
  then have w: "waiting a m left w due ?t" and ask: "asked a m ?t"
    using assms(1,2) by (simp_all add: waiting_def asked_def)
  obtain s' where s': "rbind (tick_loop e now ?t) (\<lambda>s. ret (purge now s)) = ret s'" "tick_keeps ?t s'"
    and c: "if 0 < left \<and> due \<le> now
      then udp_out s' = udp_out ?t @ [(now, a)] \<and> waiting a m (left - 1) (next_wait w) (now + word_of_int (next_wait w)) s'
      else udp_out s' = udp_out ?t \<and> waiting a m left w due s'"
    by (rule stack_tick_waiting [OF w assms(5,6,4,7)])
  have w': "sendQ s' \<in> {[], [a]}" "0 \<le> retransSoFar (heap s' a)"
    using c by (auto simp: waiting_def split: if_splits)
  have f: "rcvFifo s' = [?b]" "c_in (heap s' ?b) = Some r"
    using s'(2) t by (simp_all add: tick_keeps_def)
  obtain cc where cc: "sentRequestDB s' (call_id (SipTransactionId m)) = Some cc"
    "cc_msgs cc = [\<lparr> mp_request = Some a, mp_response = None \<rparr>]" "c_id (heap s' a) = SipTransactionId m"
    "c_in (heap s' a) = Some m"
    using asked_tick_keeps [OF ask s'(2)] by (auto simp: asked_def)
  let ?s = "setRetransmitMax 0 a (setMsgIn r ?b (s'\<lparr> rcvFifo := [] \<rparr>))"
  have "receiveNB e s' = Inr (Some (if m_status r < 200 then [Some r] else [Some m, Some r]),
      if m_status r < 200 then ?s
      else ?s\<lparr> sentRequestDB := (sentRequestDB ?s)(call_id (SipTransactionId m) \<mapsto> set_response 0 ?b cc) \<rparr>)"
    using assms(8-11) f cc a
    by (simp add: receiveNB_def nat_via_def response_processRecv_def outcome_simps Let_def of_id_def matches_def
        setMsgIn_def setRetransmitMax_def)
  with s'(1) w' a show ?thesis
    by (auto simp: stack_tick_def udp_tick_def silenced_def setRetransmitMax_def setMsgIn_def)
qed

section \<open>Properties\<close>

text \<open>Heaps as \<open>std::priority_queue\<close> has them answer with a position of the queue: the first of the
  earliest, for example.\<close>

fun least_at :: "u64 list \<Rightarrow> nat" where
  "least_at [] = 0"
| "least_at (k # ks) = (let n = least_at ks in if ks = [] \<or> k \<le> ks ! n then 0 else Suc n)"

lemma least_at_less: "ks \<noteq> [] \<Longrightarrow> least_at ks < length ks"
  by (induction ks) (auto simp: Let_def)

definition example_env :: env where
  "example_env =
    \<lparr> env_proxy = False, env_nat = False, env_ipName = id, env_reachable = (\<lambda>host. host \<noteq> []),
      env_top = least_at, env_udp = (\<lambda>n. Result 400) \<rparr>"

definition example_request :: sip_msg where
  "example_request =
    \<lparr> m_type = SIP_INVITE, m_status = 0,
      m_url = SIP_URL \<lparr> url_user = ''bob'', url_host = ''10.0.0.2'', url_port = ''5060'',
        url_transport = [], url_maddr = [] \<rparr>,
      m_via = [default_via\<lparr> via_host := ''10.0.0.1'' \<rparr>],
      m_from = \<lparr> na_url = SIP_URL \<lparr> url_user = ''alice'', url_host = ''10.0.0.1'', url_port = [],
        url_transport = [], url_maddr = [] \<rparr>, na_display = [], na_tag = ''1'', na_token = [], na_qstring = [] \<rparr>,
      m_to = \<lparr> na_url = SIP_URL \<lparr> url_user = ''bob'', url_host = ''10.0.0.2'', url_port = [],
        url_transport = [], url_maddr = [] \<rparr>, na_display = [], na_tag = [], na_token = [], na_qstring = [] \<rparr>,
      m_callid = ''77@10.0.0.1'', m_cseq = \<lparr> cs_method = SIP_INVITE, cs_num = 1 \<rparr>,
      m_record_route = [], m_route = [], m_contact = [], m_allow = [], m_content = None,
      m_www_authenticate = [], m_proxy_authenticate = [], m_authorization = [],
      m_proxy_authorization = [], m_received_ip = [], m_received_port = [], m_max_forwards = 70 \<rparr>"

lemma example_env_ok: "top_ok example_env" "accepting example_env"
  by (simp_all add: top_ok_def accepting_def example_env_def least_at_less)

lemma example_request_port: "getHostPort example_request = Inr (''10.0.0.2'', 5060)"
  by (simp add: getHostPort_def example_request_def outcome_simps convertInt_def wrap_int_def)

lemma SipTransactionId_StatusMsg [simp]: "SipTransactionId (StatusMsg tag m code) = SipTransactionId m"
  by (simp add: SipTransactionId_def getVia0_def) (simp add: StatusMsg_def)

text \<open>C11: Whatever the application does and whatever arrives, no message is transmitted more than seven
  times, and the loop that empties the queue returns.\<close>

theorem retransmission_bounded:
  assumes "stack_run e (new_SipTransceiver rnd) qs s" and "top_ok e"
  shows "sent_count a s \<le> 7 \<and> (\<exists>s'. stack_tick e now incoming s = ret s')"
  using stack_run_ok [OF assms(1) counted_new_SipTransceiver assms(2)] stack_tick_ok [OF _ assms(2)]
  by (blast intro: counted_limit)

text \<open>C12: An unanswered request that is sent over UDP is transmitted at the first tick, and then at the
  first tick that is half a second, one second, two and three times four seconds after the one before.
  After seven transmissions it is forgotten: nothing is put into the queue of the application, a 408
  neither.\<close>

theorem retransmission_schedule:
  assumes "top_ok e" and "accepting e" and "sendQ s = []"
    and "m_type m \<notin> {SIP_STATUS, SIP_ACK, SIP_CANCEL}" and "checkMaxForwards m"
    and "m_url m = SIP_URL u" and "url_transport u \<notin> {''TCP'', ''tcp''}"
    and "getHostPort m = Inr (host, port)" "port \<ge> 0" "env_reachable e host"
    and "\<forall>t\<in>set ts. unat t + 4000 < 2 ^ 64"
  shows "\<exists>s' s''. stack_sendAsync e now m s = Inr s' \<and> stack_ticks e ts s' = ret s''
    \<and> udp_out s'' = udp_out s @ map (\<lambda>t. (t, heap_lim s)) (paced [500, 1000, 2000, 4000, 4000, 4000] 0 ts)
    \<and> c_encoded (heap s'' (heap_lim s)) = Some m \<and> rcvFifo s'' = rcvFifo s"
proof -
  obtain s' where s': "stack_sendAsync e now m s = Inr s'" "waiting (heap_lim s) m 7 0 0 s'"
    "udp_out s' = udp_out s" "rcvFifo s' = rcvFifo s"
    using sent_request_waits [OF assms(3-10)] by blast
  have "wait_ok 0"
    by (simp add: wait_ok_def)
  have n: "Suc (length [500, 1000, 2000, 4000, 4000, 4000 :: nat]) = 7"
    by simp
  have "timer 7 0 0 ts = paced [500, 1000, 2000, 4000, 4000, 4000] 0 ts"
    using timer_paced [OF retransmission_periods assms(11), of 0] unfolding n by simp
  with stack_ticks_waiting [OF s'(2) \<open>wait_ok 0\<close> assms(1,2,11)] s' show ?thesis
    by (auto simp: tick_keeps_def waiting_def)
qed

text \<open>C13: The first response to a request, when the application takes it from the stack, ends the
  retransmission of the request for good. The application gets a provisional response alone and a
  final one with its request.\<close>

theorem response_ends_retransmission:
  assumes "top_ok e" and "accepting e" and "\<not> env_proxy e" "\<not> env_nat e" and "sendQ s = []" "rcvFifo s = []"
    and "m_type m \<notin> {SIP_STATUS, SIP_ACK, SIP_CANCEL, SIP_BYE}" and "checkMaxForwards m"
    and "m_url m = SIP_URL u" and "url_transport u \<notin> {''TCP'', ''tcp''}"
    and "getHostPort m = Inr (host, port)" "port \<ge> 0" "env_reachable e host"
    and "sentRequestDB s (call_id (SipTransactionId m)) = None"
    and "\<forall>t\<in>set (t1 # ts). unat t + 4000 < 2 ^ 64"
    and "m_type r = SIP_STATUS" and "SipTransactionId r = SipTransactionId m"
  shows "\<exists>s1 s2 s3 s4. stack_sendAsync e now m s = Inr s1 \<and> stack_ticks e ts s1 = ret s2
    \<and> stack_tick e t1 (Some r) s2 = ret s3
    \<and> receiveNB e s3 = Inr (Some (if m_status r < 200 then [Some r] else [Some m, Some r]), s4)
    \<and> (\<forall>ts'. \<exists>s5. stack_ticks e ts' s4 = ret s5 \<and> udp_out s5 = udp_out s3)"
proof -
  have "m_type m \<notin> {SIP_STATUS, SIP_ACK, SIP_CANCEL}"
    using assms(7) by blast
  from sent_request_waits [OF assms(5) this assms(8-13)] assms(6,7,14)
  obtain s1 where s1: "stack_sendAsync e now m s = Inr s1" "waiting (heap_lim s) m 7 0 0 s1"
    "rcvFifo s1 = []" "asked (heap_lim s) m s1"
    by auto
  have "wait_ok 0" and ts: "\<forall>t\<in>set ts. unat t + 4000 < 2 ^ 64" "unat t1 + 4000 < 2 ^ 64"
    using assms(15) by (simp_all add: wait_ok_def)
  from stack_ticks_waiting [OF s1(2) this(1) assms(1,2) ts(1)]
  obtain s2 left w due where s2: "stack_ticks e ts s1 = ret s2" "waiting (heap_lim s) m left w due s2" "wait_ok w"
    and k: "tick_keeps s1 s2"
    by blast
  have "asked (heap_lim s) m s2" "rcvFifo s2 = []"
    using asked_tick_keeps [OF s1(4) k] k s1(3) by (simp_all add: tick_keeps_def)
  from response_arrives [OF this(1) s2(2) this(2) s2(3) assms(1,2) ts(2) assms(3,4,16,17)]
  obtain s3 s4 where "stack_tick e t1 (Some r) s2 = ret s3"
    "receiveNB e s3 = Inr (Some (if m_status r < 200 then [Some r] else [Some m, Some r]), s4)"
    "udp_out s4 = udp_out s3" and quiet: "silenced (heap_lim s) s4"
    by blast
  with s1(1) s2(1) stack_ticks_silenced [OF quiet assms(1)] show ?thesis
    by metis
qed

theorem retransmission_schedule_witness:
  "\<exists>s' s''. stack_sendAsync example_env 900 example_request (new_SipTransceiver (\<lambda>n. ''t'')) = Inr s'
    \<and> stack_ticks example_env [1000, 1499, 1500, 2500, 2600, 4500, 8500, 12500, 16499, 16500, 20500, 24500] s' = ret s''
    \<and> map fst (udp_out s'') = [1000, 1500, 2500, 4500, 8500, 12500, 16500] \<and> rcvFifo s'' = []"
proof -
  let ?ts = "[1000, 1499, 1500, 2500, 2600, 4500, 8500, 12500, 16499, 16500, 20500, 24500] :: u64 list"
  have t: "paced [500, 1000, 2000, 4000, 4000, 4000] 0 ?ts = [1000, 1500, 2500, 4500, 8500, 12500, 16500]"
    by simp
  have n: "udp_out (new_SipTransceiver (\<lambda>n. ''t'')) = []" "rcvFifo (new_SipTransceiver (\<lambda>n. ''t'')) = []"
    "sendQ (new_SipTransceiver (\<lambda>n. ''t'')) = []"
    by (simp_all add: new_SipTransceiver_def)
  obtain s' s'' where "stack_sendAsync example_env 900 example_request (new_SipTransceiver (\<lambda>n. ''t'')) = Inr s'"
    "stack_ticks example_env ?ts s' = ret s''"
    "udp_out s'' = udp_out (new_SipTransceiver (\<lambda>n. ''t'')) @
       map (\<lambda>t. (t, heap_lim (new_SipTransceiver (\<lambda>n. ''t'')))) (paced [500, 1000, 2000, 4000, 4000, 4000] 0 ?ts)"
    "rcvFifo s'' = rcvFifo (new_SipTransceiver (\<lambda>n. ''t''))"
    using retransmission_schedule [OF example_env_ok n(3) _ _ _ _ example_request_port, of _ ?ts 900]
    by (auto simp: example_request_def example_env_def checkMaxForwards_def)
  with n t show ?thesis
    by (auto simp: comp_def)
qed

theorem response_ends_retransmission_witness:
  "\<exists>s1 s2 s3 s4. stack_sendAsync example_env 900 example_request (new_SipTransceiver (\<lambda>n. ''t'')) = Inr s1
    \<and> stack_ticks example_env [1000] s1 = ret s2
    \<and> stack_tick example_env 1200 (Some (StatusMsg ''b'' example_request 200)) s2 = ret s3
    \<and> receiveNB example_env s3 = Inr (Some [Some example_request, Some (StatusMsg ''b'' example_request 200)], s4)
    \<and> (\<forall>ts'. \<exists>s5. stack_ticks example_env ts' s4 = ret s5 \<and> udp_out s5 = udp_out s3)"
  using response_ends_retransmission [OF example_env_ok _ _ _ _ _ _ _ _ example_request_port,
      of "new_SipTransceiver (\<lambda>n. ''t'')" _ 1200 "[1000]" "StatusMsg ''b'' example_request 200" 900]
  by (simp add: example_env_def new_SipTransceiver_def checkMaxForwards_def) (simp add: example_request_def)

theorem retransmission_bounded_witness:
  "\<exists>s. stack_run example_env (new_SipTransceiver (\<lambda>n. ''t'')) [None] s \<and> sendQ s \<noteq> [] \<and> sent_count 0 s \<le> 7
    \<and> (\<exists>s'. stack_tick example_env 1000 None s = ret s')"
proof -
  let ?s = "new_SipTransceiver (\<lambda>n. ''t'')"
  obtain s where s: "stack_sendAsync example_env 900 example_request ?s = Inr s" "waiting (heap_lim ?s) example_request 7 0 0 s"
    using sent_request_waits [of ?s example_request, OF _ _ _ _ _ example_request_port, of _ example_env 900]
    by (auto simp: new_SipTransceiver_def example_request_def example_env_def checkMaxForwards_def)
  have "stack_run example_env ?s [None] s"
    using runs.run_step [of "stack_step example_env", OF runs.run_nil stack_step.sends_request [OF s(1)]] by simp
  with s(2) retransmission_bounded [OF this example_env_ok(1), of 0 1000 None] show ?thesis
    by (auto simp: waiting_def)
qed

end
