(* ===== verification/Sip_Database.thy ===== *)
theory Sip_Database
  imports Sip_Retransmission
begin

text \<open>
  The invariant of the two transaction databases, and that every operation of the stack keeps it: the
  containers of a pair belong to one transaction, and a database and the fifo of received messages share
  no container. A step only adds pairs to a call and responses to pairs; \<open>purge\<close> removes whole calls.
\<close>

section \<open>Invariant of the databases\<close>

text \<open>
  Every pair has a request, and its response belongs to the same transaction. No container of a
  database waits to be received, and those that do know the transaction of their message.
\<close>

definition pair_ok :: "transceiver \<Rightarrow> msg_pair \<Rightarrow> bool" where
  "pair_ok s mp \<longleftrightarrow> (\<exists>r. mp_request mp = Some r \<and> r < heap_lim s \<and> r \<notin> set (rcvFifo s)
    \<and> (\<forall>p. mp_response mp = Some p \<longrightarrow> p < heap_lim s \<and> p \<notin> set (rcvFifo s)
         \<and> same_id (c_id (heap s r)) (c_id (heap s p))))"

definition db_ok :: "transceiver \<Rightarrow> transaction_db \<Rightarrow> bool" where
  "db_ok s db \<longleftrightarrow> (\<forall>k cc. db k = Some cc \<longrightarrow> (\<forall>mp\<in>set (cc_msgs cc). pair_ok s mp))"

definition fifo_ok :: "transceiver \<Rightarrow> bool" where
  "fifo_ok s \<longleftrightarrow> distinct (rcvFifo s) \<and> (\<forall>a\<in>set (rcvFifo s). a < heap_lim s
    \<and> (\<exists>m. c_in (heap s a) = Some m \<and> c_id (heap s a) = SipTransactionId m))"

definition filter_ok :: "transceiver \<Rightarrow> bool" where
  "filter_ok s \<longleftrightarrow> fifo_ok s \<and> db_ok s (sentRequestDB s) \<and> db_ok s (sentResponseDB s)"

text \<open>How a state may change.\<close>

definition widens :: "transceiver \<Rightarrow> transceiver \<Rightarrow> bool" where
  "widens s s' \<longleftrightarrow> heap_lim s \<le> heap_lim s'
    \<and> (\<forall>b<heap_lim s. b \<notin> set (rcvFifo s) \<longrightarrow> c_id (heap s' b) = c_id (heap s b))
    \<and> set (rcvFifo s') \<subseteq> set (rcvFifo s) \<union> {heap_lim s..}"

definition pair_grows :: "msg_pair \<Rightarrow> msg_pair \<Rightarrow> bool" where
  "pair_grows mp mp' \<longleftrightarrow> mp_request mp' = mp_request mp \<and> (mp_response mp \<noteq> None \<longrightarrow> mp_response mp' \<noteq> None)"

definition call_grows :: "call_container \<Rightarrow> call_container \<Rightarrow> bool" where
  "call_grows cc cc' \<longleftrightarrow> length (cc_msgs cc) \<le> length (cc_msgs cc')
    \<and> (\<forall>j<length (cc_msgs cc). pair_grows (cc_msgs cc ! j) (cc_msgs cc' ! j))"

definition db_grows :: "transaction_db \<Rightarrow> transaction_db \<Rightarrow> bool" where
  "db_grows db db' \<longleftrightarrow> (\<forall>k cc. db k = Some cc \<longrightarrow> (\<exists>cc'. db' k = Some cc' \<and> call_grows cc cc'))"

definition develops :: "transceiver \<Rightarrow> transceiver \<Rightarrow> bool" where
  "develops s s' \<longleftrightarrow> widens s s' \<and> db_grows (sentRequestDB s) (sentRequestDB s')
    \<and> db_grows (sentResponseDB s) (sentResponseDB s')"

lemma pair_grows_refl [simp]: "pair_grows mp mp"
  by (simp add: pair_grows_def)

lemma call_grows_refl [simp]: "call_grows cc cc"
  by (simp add: call_grows_def)

lemma db_grows_refl [simp]: "db_grows db db"
  by (simp add: db_grows_def)

lemma widens_refl [simp]: "widens s s"
  by (auto simp: widens_def)

lemma pair_grows_trans: "pair_grows p q \<Longrightarrow> pair_grows q r \<Longrightarrow> pair_grows p r"
  by (simp add: pair_grows_def)

lemma call_grows_trans: "call_grows c d \<Longrightarrow> call_grows d e \<Longrightarrow> call_grows c e"
  unfolding call_grows_def
proof (elim conjE, intro conjI allI impI, goal_cases)
  case (2 j)
  then have "pair_grows (cc_msgs c ! j) (cc_msgs d ! j)" "pair_grows (cc_msgs d ! j) (cc_msgs e ! j)"
    by simp_all
  then show ?case
    by (rule pair_grows_trans)
qed simp

lemma db_grows_trans: "db_grows c d \<Longrightarrow> db_grows d e \<Longrightarrow> db_grows c e"
  unfolding db_grows_def by (blast intro: call_grows_trans)

lemma widens_trans:
  assumes "widens s t" and "widens t u"
  shows "widens s u"
proof -
  have "c_id (heap u b) = c_id (heap s b)" if "b < heap_lim s" "b \<notin> set (rcvFifo s)" for b
  proof -
    have "b < heap_lim t" "b \<notin> set (rcvFifo t)" "c_id (heap t b) = c_id (heap s b)"
      using assms(1) that by (auto simp: widens_def subset_iff not_le [symmetric])
    with assms(2) show ?thesis
      by (simp add: widens_def)
  qed
  moreover have "set (rcvFifo u) \<subseteq> set (rcvFifo s) \<union> {heap_lim s..}"
    using assms unfolding widens_def by (meson Un_iff atLeast_iff order_trans subset_iff)
  ultimately show ?thesis
    using assms by (simp add: widens_def)
qed

lemma develops_trans: "develops s t \<Longrightarrow> develops t u \<Longrightarrow> develops s u"
  unfolding develops_def by (blast intro: widens_trans db_grows_trans)

lemma pair_ok_extends: "widens s s' \<Longrightarrow> pair_ok s mp \<Longrightarrow> pair_ok s' mp"
  unfolding pair_ok_def widens_def by (fastforce simp: subset_iff)

lemma db_ok_extends: "widens s s' \<Longrightarrow> db_ok s db \<Longrightarrow> db_ok s' db"
  unfolding db_ok_def by (blast intro: pair_ok_extends)

lemma db_ok_update: "db_ok s db \<Longrightarrow> (\<And>mp. mp \<in> set (cc_msgs cc) \<Longrightarrow> pair_ok s mp) \<Longrightarrow> db_ok s (db(k \<mapsto> cc))"
  by (simp add: db_ok_def)

lemma db_grows_update: "(\<And>old. db k = Some old \<Longrightarrow> call_grows old cc) \<Longrightarrow> db_grows db (db(k \<mapsto> cc))"
  by (simp add: db_grows_def)

lemma call_grows_add [simp]: "call_grows cc (addMsgPair mp cc)"
  by (simp add: call_grows_def addMsgPair_def nth_append)

lemma call_grows_response [simp]: "call_grows cc (set_response n a cc)"
proof -
  have "pair_grows (cc_msgs cc ! j) (cc_msgs (set_response n a cc) ! j)" if "j < length (cc_msgs cc)" for j
    using that by (cases "n = j") (simp_all add: set_response_def pair_grows_def)
  then show ?thesis
    by (simp add: call_grows_def) (simp add: set_response_def)
qed

section \<open>Finding a pair\<close>

lemma findMsgPair_Some:
  "findMsgPair P ms = Some n \<longleftrightarrow> n < length ms \<and> P (ms ! n) \<and> (\<forall>j<n. \<not> P (ms ! j))"
  by (induction ms arbitrary: n) (auto simp: less_Suc_eq_0_disj nth_Cons split: nat.splits)

lemma same_id_sym: "same_id i j \<Longrightarrow> same_id j i"
  by (simp add: same_id_def)

lemma same_id_trans: "same_id i j \<Longrightarrow> same_id j k \<Longrightarrow> same_id i k"
  by (simp add: same_id_def)

lemma of_id_request:
  "pair_ok s mp \<Longrightarrow> of_id (heap s) i mp \<longleftrightarrow> same_id i (c_id (heap s (the (mp_request mp))))"
  by (auto simp: pair_ok_def of_id_def matches_def same_id_def split: option.splits)

definition found :: "transceiver \<Rightarrow> transaction_db \<Rightarrow> trans_id \<Rightarrow> msg_pair option" where
  "found s db i = (case db (call_id i) of None \<Rightarrow> None
     | Some cc \<Rightarrow> map_option ((!) (cc_msgs cc)) (findMsgPair (of_id (heap s) i) (cc_msgs cc)))"

lemma findMsgPair_None: "findMsgPair P ms = None \<longleftrightarrow> (\<forall>mp\<in>set ms. \<not> P mp)"
  by (induction ms) auto

lemma position_evolves:
  assumes "widens s s'" "\<forall>mp\<in>set (cc_msgs cc). pair_ok s mp" "\<forall>mp\<in>set (cc_msgs cc'). pair_ok s' mp" "call_grows cc cc'"
    and "findMsgPair (of_id (heap s) i) (cc_msgs cc) = Some n"
  shows "findMsgPair (of_id (heap s') i) (cc_msgs cc') = Some n"
proof -
  have n: "n < length (cc_msgs cc)"
    using assms(5) by (simp add: findMsgPair_Some)
  have "of_id (heap s') i (cc_msgs cc' ! j) \<longleftrightarrow> of_id (heap s) i (cc_msgs cc ! j)" if "j < length (cc_msgs cc)" for j
  proof -
    have p: "pair_ok s (cc_msgs cc ! j)" "pair_ok s' (cc_msgs cc' ! j)" "pair_grows (cc_msgs cc ! j) (cc_msgs cc' ! j)"
      using assms(2-4) that by (auto simp: call_grows_def)
    then have "c_id (heap s' (the (mp_request (cc_msgs cc ! j)))) = c_id (heap s (the (mp_request (cc_msgs cc ! j))))"
      using assms(1) by (auto simp: pair_ok_def widens_def)
    with p show ?thesis
      by (simp add: of_id_request pair_grows_def)
  qed
  with assms(4,5) n show ?thesis
    by (auto simp: findMsgPair_Some call_grows_def)
qed

lemma found_evolves:
  assumes "widens s s'" "db_grows db db'" "db_ok s db" "db_ok s' db'" and "found s db i = Some mp"
  shows "\<exists>mp'. found s' db' i = Some mp' \<and> pair_grows mp mp'"
proof -
  obtain cc n where cc: "db (call_id i) = Some cc" "findMsgPair (of_id (heap s) i) (cc_msgs cc) = Some n" "mp = cc_msgs cc ! n"
    using assms(5) by (auto simp: found_def split: option.splits)
  obtain cc' where cc': "db' (call_id i) = Some cc'" and g: "call_grows cc cc'"
    using assms(2) cc(1) by (auto simp: db_grows_def)
  have "findMsgPair (of_id (heap s') i) (cc_msgs cc') = Some n"
    using assms(3,4) cc(1) cc' by (intro position_evolves [OF assms(1) _ _ g cc(2)]) (auto simp: db_ok_def)
  moreover have "n < length (cc_msgs cc)"
    using cc(2) by (simp add: findMsgPair_Some)
  ultimately show ?thesis
    using cc cc' g by (auto simp: found_def call_grows_def)
qed

section \<open>Every operation keeps the invariant\<close>

text \<open>A step that leaves the identifiers, the fifo and the databases alone.\<close>

definition same_ids :: "transceiver \<Rightarrow> transceiver \<Rightarrow> bool" where
  "same_ids s s' \<longleftrightarrow> heap_lim s' = heap_lim s \<and> rcvFifo s' = rcvFifo s \<and> sentRequestDB s' = sentRequestDB s
    \<and> sentResponseDB s' = sentResponseDB s \<and> (\<forall>b. c_id (heap s' b) = c_id (heap s b))
    \<and> (\<forall>b\<in>set (rcvFifo s). c_in (heap s' b) = c_in (heap s b))"

lemma same_ids_refl [simp]: "same_ids s s"
  by (simp add: same_ids_def)

lemma same_ids_trans: "same_ids s t \<Longrightarrow> same_ids t u \<Longrightarrow> same_ids s u"
  by (simp add: same_ids_def)

lemma same_ids_update:
  "c_id (f (heap s a)) = c_id (heap s a) \<Longrightarrow> c_in (f (heap s a)) = c_in (heap s a) \<or> a \<notin> set (rcvFifo s) \<Longrightarrow>
    same_ids s (update a f s)"
  by (auto simp: same_ids_def)

lemma same_ids_simps [simp]:
  "same_ids s (setRetransmitMax n a t) \<longleftrightarrow> same_ids s t" "same_ids s (setTransport p a t) \<longleftrightarrow> same_ids s t"
  "same_ids s (t\<lparr> st_drawn := d \<rparr>) \<longleftrightarrow> same_ids s t" "same_ids s (t\<lparr> sendQ := q \<rparr>) \<longleftrightarrow> same_ids s t"
  "same_ids s (t\<lparr> udp_out := u \<rparr>) \<longleftrightarrow> same_ids s t" "same_ids s (t\<lparr> tcp_out := v \<rparr>) \<longleftrightarrow> same_ids s t"
  "same_ids s (t\<lparr> st_attempt := x \<rparr>) \<longleftrightarrow> same_ids s t" "same_ids s (t\<lparr> lastPurge := y \<rparr>) \<longleftrightarrow> same_ids s t"
  by (auto simp: same_ids_def setRetransmitMax_def setTransport_def)

lemma same_ids_stop [simp]: "same_ids s (stopAllRetrans ms t) \<longleftrightarrow> same_ids s t"
  by (induction ms arbitrary: t) (auto split: option.splits)

definition keeps :: "transceiver \<Rightarrow> transceiver \<Rightarrow> bool" where
  "keeps s s' \<longleftrightarrow> (filter_ok s \<longrightarrow> filter_ok s' \<and> develops s s')"

lemma pair_ok_cong: "same_ids s s' \<Longrightarrow> pair_ok s' mp \<longleftrightarrow> pair_ok s mp"
  by (simp add: same_ids_def pair_ok_def)

lemma keeps_same_ids: "same_ids s s' \<Longrightarrow> keeps s s'"
proof -
  assume a: "same_ids s s'"
  then have "db_ok s' db \<longleftrightarrow> db_ok s db" for db
    by (simp add: db_ok_def pair_ok_cong)
  with a show ?thesis
    by (auto simp: keeps_def filter_ok_def fifo_ok_def develops_def widens_def same_ids_def)
qed

lemma keeps_trans: "keeps s t \<Longrightarrow> keeps t u \<Longrightarrow> keeps s u"
  unfolding keeps_def by (blast intro: develops_trans)

lemma keeps_refl [simp]: "keeps s s"
  by (simp add: keeps_def develops_def)

text \<open>A new container, a message that arrives in one, a new entry of a database.\<close>

lemma keeps_new: "new_SipMsgContainer i s = (a, t) \<Longrightarrow> keeps s t"
proof -
  assume n: "new_SipMsgContainer i s = (a, t)"
  have e: "widens s t"
    using n by (auto simp: widens_def new_SipMsgContainer_def)
  moreover have "filter_ok s \<Longrightarrow> fifo_ok t"
    using n by (auto simp: filter_ok_def fifo_ok_def new_SipMsgContainer_def less_Suc_eq)
  moreover have "sentRequestDB t = sentRequestDB s" "sentResponseDB t = sentResponseDB s"
    using n by (auto simp: new_SipMsgContainer_def)
  ultimately show ?thesis
    by (simp add: keeps_def filter_ok_def develops_def db_ok_extends)
qed

text \<open>A container that is neither received any more nor in use.\<close>

definition taken :: "nat \<Rightarrow> trans_id \<Rightarrow> transceiver \<Rightarrow> bool" where
  "taken a i s \<longleftrightarrow> a < heap_lim s \<and> a \<notin> set (rcvFifo s) \<and> c_id (heap s a) = i"

lemma taken_new: "new_SipMsgContainer i s = (a, t) \<Longrightarrow> filter_ok s \<Longrightarrow> taken a i t"
  by (auto simp: taken_def new_SipMsgContainer_def filter_ok_def fifo_ok_def)

lemma taken_same_ids: "same_ids s t \<Longrightarrow> taken a i t \<longleftrightarrow> taken a i s"
  by (auto simp: taken_def same_ids_def)

lemma keeps_request_entry:
  assumes "\<And>old. sentRequestDB s k = Some old \<Longrightarrow> call_grows old cc"
    and "filter_ok s \<Longrightarrow> (\<forall>mp\<in>set (cc_msgs cc). pair_ok s mp)"
  shows "keeps s (s\<lparr> sentRequestDB := (sentRequestDB s)(k \<mapsto> cc) \<rparr>)"
proof -
  let ?t = "s\<lparr> sentRequestDB := (sentRequestDB s)(k \<mapsto> cc) \<rparr>"
  have p: "pair_ok ?t mp \<longleftrightarrow> pair_ok s mp" "widens s ?t" for mp
    by (auto simp: pair_ok_def widens_def)
  then have "db_ok ?t db \<longleftrightarrow> db_ok s db" for db
    by (simp add: db_ok_def)
  with p assms show ?thesis
    by (auto simp: keeps_def filter_ok_def fifo_ok_def develops_def intro!: db_ok_update db_grows_update)
qed

lemma keeps_response_entry:
  assumes "\<And>old. sentResponseDB s k = Some old \<Longrightarrow> call_grows old cc"
    and "filter_ok s \<Longrightarrow> (\<forall>mp\<in>set (cc_msgs cc). pair_ok s mp)"
  shows "keeps s (s\<lparr> sentResponseDB := (sentResponseDB s)(k \<mapsto> cc) \<rparr>)"
proof -
  let ?t = "s\<lparr> sentResponseDB := (sentResponseDB s)(k \<mapsto> cc) \<rparr>"
  have p: "pair_ok ?t mp \<longleftrightarrow> pair_ok s mp" "widens s ?t" for mp
    by (auto simp: pair_ok_def widens_def)
  then have "db_ok ?t db \<longleftrightarrow> db_ok s db" for db
    by (simp add: db_ok_def)
  with p assms show ?thesis
    by (auto simp: keeps_def filter_ok_def fifo_ok_def develops_def intro!: db_ok_update db_grows_update)
qed

text \<open>The two ways in which a call changes: a new pair, or the response of a pair that was found.\<close>

lemma pairs_add:
  "\<forall>mp\<in>set (cc_msgs cc). pair_ok s mp \<Longrightarrow> taken a i s \<Longrightarrow>
    \<forall>mp\<in>set (cc_msgs (addMsgPair \<lparr> mp_request = Some a, mp_response = None \<rparr> cc)). pair_ok s mp"
  by (auto simp: addMsgPair_def pair_ok_def taken_def)

lemma pairs_set_response:
  assumes "\<forall>mp\<in>set (cc_msgs cc). pair_ok s mp" and "taken a i s"
    and "findMsgPair (of_id (heap s) i) (cc_msgs cc) = Some n"
  shows "\<forall>mp\<in>set (cc_msgs (set_response n a cc)). pair_ok s mp"
proof -
  have n: "n < length (cc_msgs cc)" "of_id (heap s) i (cc_msgs cc ! n)"
    using assms(3) by (simp_all add: findMsgPair_Some)
  then have p: "pair_ok s (cc_msgs cc ! n)"
    using assms(1) by simp
  with n(2) have "same_id i (c_id (heap s (the (mp_request (cc_msgs cc ! n)))))"
    by (simp add: of_id_request)
  with p assms(2) have "pair_ok s ((cc_msgs cc ! n)\<lparr> mp_response := Some a \<rparr>)"
    by (auto simp: pair_ok_def taken_def dest: same_id_sym)
  with assms(1) show ?thesis
    using set_update_subset_insert [of "cc_msgs cc" n] by (fastforce simp: set_response_def)
qed

lemma calls_pairs:
  "filter_ok s \<Longrightarrow> sentRequestDB s k = Some cc \<Longrightarrow> \<forall>mp\<in>set (cc_msgs cc). pair_ok s mp"
  "filter_ok s \<Longrightarrow> sentResponseDB s k = Some cc \<Longrightarrow> \<forall>mp\<in>set (cc_msgs cc). pair_ok s mp"
  by (simp_all add: filter_ok_def db_ok_def)

lemma new_call_pairs [simp]: "cc_msgs (SipCallContainer i) = []" "cc_msgs (cc\<lparr> purgeAt := t \<rparr>) = cc_msgs cc"
  "cc_msgs (setCurSeqNum n cc) = cc_msgs cc"
  by (simp_all add: SipCallContainer_def setCurSeqNum_def)

lemma add_request_keeps:
  assumes "filter_ok s \<Longrightarrow> taken a (SipTransactionId msg) s"
    and "sentRequestDB s (call_id (SipTransactionId msg)) = None \<and> cc = SipCallContainer i
      \<or> sentRequestDB s (call_id (SipTransactionId msg)) = Some cc"
  shows "keeps s (add_request now msg a cc s)"
proof -
  let ?s = "if m_type msg = SIP_CANCEL then stopAllRetrans (cc_msgs cc) s else s"
  let ?cc = "if m_type msg = SIP_CANCEL \<or> m_type msg = SIP_BYE then cc\<lparr> purgeAt := now + 10 * 1000 \<rparr> else cc"
  let ?k = "call_id (SipTransactionId msg)"
  have i: "same_ids s ?s"
    by simp
  then have db: "sentRequestDB ?s ?k = sentRequestDB s ?k"
    by (simp add: same_ids_def)
  have msgs: "cc_msgs ?cc = cc_msgs cc"
    by simp
  have grows: "call_grows cc (addMsgPair mp ?cc)" for mp
    by (simp add: call_grows_def addMsgPair_def nth_append)
  have "\<forall>mp\<in>set (cc_msgs (addMsgPair \<lparr> mp_request = Some a, mp_response = None \<rparr> ?cc)). pair_ok ?s mp"
    if ok: "filter_ok ?s"
  proof -
    have f: "filter_ok s"
      using keeps_same_ids [of ?s s] ok i unfolding keeps_def same_ids_def by simp
    then have "\<forall>mp\<in>set (cc_msgs ?cc). pair_ok ?s mp"
      using assms(2) calls_pairs(1) by (auto simp: msgs pair_ok_cong [OF i])
    then show ?thesis
      using assms(1) [OF f] by (intro pairs_add) (simp_all add: taken_same_ids [OF i])
  qed
  then have "keeps ?s (?s\<lparr> sentRequestDB := (sentRequestDB ?s)(?k \<mapsto> addMsgPair \<lparr> mp_request = Some a, mp_response = None \<rparr> ?cc) \<rparr>)"
    using assms(2) grows by (intro keeps_request_entry) (auto simp: db)
  then show ?thesis
    using keeps_trans [OF keeps_same_ids [OF i]] by (simp add: add_request_def Let_def)
qed

lemma keeps_prepared:
  assumes "new_SipMsgContainer i s = (a, t)" and "u = f (setMsgIn m a t)" and "\<And>s. same_ids s (f s)"
  shows "keeps s u \<and> (filter_ok s \<longrightarrow> taken a i u)
    \<and> sentRequestDB u = sentRequestDB s \<and> sentResponseDB u = sentResponseDB s"
proof -
  have k: "keeps s t"
    using assms(1) by (rule keeps_new)
  have same: "same_ids t (setMsgIn m a t)" if "filter_ok s"
    using taken_new [OF assms(1) that] unfolding setMsgIn_def by (intro same_ids_update) (auto simp: taken_def)
  then have same: "same_ids t u" if "filter_ok s"
    using assms(3) [of "setMsgIn m a t"] that unfolding assms(2) by (blast intro: same_ids_trans)
  have "keeps s u"
    using k keeps_same_ids [OF same] unfolding keeps_def by (blast intro: develops_trans)
  moreover have "filter_ok s \<longrightarrow> taken a i u"
    using taken_new [OF assms(1)] taken_same_ids [OF same] by blast
  moreover have "sentRequestDB u = sentRequestDB s" "sentResponseDB u = sentResponseDB s"
    using assms(3) [of "setMsgIn m a t"] assms(1) unfolding assms(2)
    by (auto simp: same_ids_def setMsgIn_def new_SipMsgContainer_def)
  ultimately show ?thesis
    by blast
qed

lemma request_processSend_keeps:
  assumes "request_processSend now m s = Inr (a, s')"
  shows "keeps s s'"
proof -
  obtain t where n: "new_SipMsgContainer (SipTransactionId m) s = (a, t)"
    using assms by (auto simp: request_processSend_def outcome_simps Let_def split: prod.splits)
  obtain p where p: "request_transport (m_url m) = Inr p"
    using assms by (auto simp: request_processSend_def outcome_simps Let_def split: prod.splits)
  let ?f = "\<lambda>s. if m_type m \<noteq> SIP_ACK then setRetransmitMax MAX_RETRANS_COUNT a (setTransport p a s) else setTransport p a s"
  let ?u = "?f (setMsgIn m a t)"
  have f: "same_ids s (?f s)" for s
    by simp
  note u = keeps_prepared [where f = ?f, OF n refl f]
  have "s' = (case sentRequestDB ?u (call_id (SipTransactionId m)) of
      None \<Rightarrow> add_request now m a (SipCallContainer (SipTransactionId m)) ?u
    | Some cc \<Rightarrow> if has_request (SipTransactionId m) cc ?u then ?u else add_request now m a cc ?u)"
    using assms n p by (auto simp: request_processSend_def outcome_simps Let_def split: if_splits)
  moreover have "keeps s (add_request now m a cc ?u)"
    if "sentRequestDB ?u (call_id (SipTransactionId m)) = None \<and> cc = SipCallContainer (SipTransactionId m)
      \<or> sentRequestDB ?u (call_id (SipTransactionId m)) = Some cc" for cc
  proof -
    have "filter_ok s \<Longrightarrow> keeps ?u (add_request now m a cc ?u)"
      using u that by (intro add_request_keeps) auto
    with u show ?thesis
      unfolding keeps_def by (blast intro: develops_trans)
  qed
  ultimately show ?thesis
    using u by (auto split: option.splits if_splits)
qed

lemma keeps_under: "(filter_ok s \<Longrightarrow> keeps t u) \<Longrightarrow> keeps s t \<Longrightarrow> keeps s u"
  unfolding keeps_def by (blast intro: develops_trans)

lemma set_response_keeps:
  assumes "sentResponseDB s k = Some cc" and "filter_ok s \<Longrightarrow> taken a i s"
    and "findMsgPair (of_id (heap s) i) (cc_msgs cc) = Some n"
  shows "keeps s (s\<lparr> sentResponseDB := (sentResponseDB s)(k \<mapsto> set_response n a cc) \<rparr>)"
proof (rule keeps_response_entry)
  show "\<forall>mp\<in>set (cc_msgs (set_response n a cc)). pair_ok s mp" if "filter_ok s"
    using pairs_set_response [OF calls_pairs(2) [OF that assms(1)] assms(2) [OF that] assms(3)] .
qed (use assms(1) in simp)

lemma response_processSend_keeps:
  assumes "response_processSend proxy m s = Inr (a, s')"
  shows "keeps s s'"
proof -
  obtain t where n: "new_SipMsgContainer (SipTransactionId m) s = (a, t)"
    using assms by (auto simp: response_processSend_def outcome_simps Let_def split: prod.splits)
  let ?i = "SipTransactionId m"
  let ?f = "setTransport (via_transport (getVia0 m)) a"
  let ?u = "?f (setMsgIn m a t)"
  have f: "same_ids s (?f s)" for s
    by simp
  note u = keeps_prepared [where f = ?f, OF n refl f]
  have set: "keeps s (?u\<lparr> sentResponseDB := (sentResponseDB ?u)(call_id ?i \<mapsto> set_response k a cc) \<rparr>)"
    if "sentResponseDB ?u (call_id ?i) = Some cc" "findMsgPair (of_id (heap ?u) ?i) (cc_msgs cc) = Some k" for cc k
    using u by (intro keeps_under [OF set_response_keeps [OF that(1) _ that(2)]]) auto
  have max: "keeps s (setRetransmitMax x a v)" if "keeps s v" for v x
    using that by (rule keeps_trans) (simp add: keeps_same_ids)
  show ?thesis
    using assms n u set
    by (auto simp: response_processSend_def outcome_simps Let_def intro!: max split: option.splits if_splits)
qed

text \<open>The transport.\<close>

lemma find_destination_same_ids:
  assumes "find_destination e a host port s = Inr (r, s')"
  shows "same_ids s s'"
proof -
  have "same_ids s (update a (\<lambda>c. c\<lparr> c_encoded := x \<rparr>) s)" "same_ids s (update a (\<lambda>c. c\<lparr> c_addr := d \<rparr>) (update a (\<lambda>c. c\<lparr> c_encoded := x \<rparr>) s))" for x d
    by (simp_all add: same_ids_def)
  with assms show ?thesis
    by (auto simp: find_destination_def outcome_simps Let_def split: option.splits if_splits)
qed

lemma enqueue_same_ids: "enqueue a s = Inr s' \<Longrightarrow> same_ids s s'"
  by (auto simp: enqueue_def outcome_simps Let_def same_ids_def split: option.splits)

lemma send_keeps: "send e a host port s = Inr s' \<Longrightarrow> keeps s s'"
proof -
  assume "send e a host port s = Inr s'"
  then have "same_ids s s'"
    by (auto simp: send_def udp_send_def outcome_simps Let_def split: if_splits
        dest: find_destination_same_ids enqueue_same_ids intro: same_ids_trans)
  then show ?thesis
    by (rule keeps_same_ids)
qed

text \<open>A message that is put into the fifo in a new container.\<close>

lemma arrival_keeps:
  assumes "new_SipMsgContainer i s = (a, t)" and "SipTransactionId m = i" and "same_ids t u"
  shows "keeps s ((setMsgIn m a u)\<lparr> rcvFifo := rcvFifo u @ [a] \<rparr>)"
proof -
  let ?v = "(setMsgIn m a u)\<lparr> rcvFifo := rcvFifo u @ [a] \<rparr>"
  have t: "a = heap_lim s" "heap_lim t = Suc (heap_lim s)" "rcvFifo t = rcvFifo s" "sentRequestDB t = sentRequestDB s"
    "sentResponseDB t = sentResponseDB s" "c_id (heap t a) = i" "\<And>b. b \<noteq> a \<Longrightarrow> heap t b = heap s b"
    using assms(1) by (auto simp: new_SipMsgContainer_def)
  then have e: "widens s ?v"
    using assms(3) by (auto simp: widens_def setMsgIn_def same_ids_def)
  moreover have "fifo_ok ?v" if "filter_ok s"
    using that assms(2,3) t by (auto simp: filter_ok_def fifo_ok_def setMsgIn_def same_ids_def less_Suc_eq)
  moreover have "sentRequestDB ?v = sentRequestDB s" "sentResponseDB ?v = sentResponseDB s"
    using assms(3) t by (simp_all add: setMsgIn_def same_ids_def)
  ultimately show ?thesis
    by (simp add: keeps_def filter_ok_def develops_def db_ok_extends)
qed

lemma report_keeps: "report code a s = Inr s' \<Longrightarrow> keeps s s'"
proof -
  assume r: "report code a s = Inr s'"
  obtain m where m: "c_encoded (heap s a) = Some m"
    using r by (auto simp: report_def split: option.splits)
  obtain b t where n: "new_SipMsgContainer (SipTransactionId m) s = (b, t)"
    by fastforce
  let ?u = "if draws_tag m code then t\<lparr> st_drawn := Suc (st_drawn t) \<rparr> else t"
  have "keeps s ((setMsgIn (StatusMsg (st_random t (st_drawn t)) m code) b ?u)\<lparr> rcvFifo := rcvFifo ?u @ [b] \<rparr>)"
    by (rule arrival_keeps [OF n]) simp_all
  with r m n show ?thesis
    by (simp add: report_def Let_def)
qed

lemma same_ids_attempt:
  "same_ids s (update a (\<lambda>c. c\<lparr> retransSoFar := x c \<rparr>) s)"
  "same_ids s (update a (\<lambda>c. c\<lparr> wait_period := w, nextTx := t \<rparr>) s)"
  by (auto intro!: same_ids_update)

lemma after_attempt_keeps:
  assumes "after_attempt now a code s = Inr s'"
  shows "keeps s s'"
proof -
  let ?s = "update a (\<lambda>c. c\<lparr> retransSoFar := retransSoFar c + 1 \<rparr>) s"
  have i: "same_ids s ?s" and k: "keeps s ?s"
    by (auto intro: same_ids_attempt(1) keeps_same_ids)
  have "same_ids ?s (update a (\<lambda>c. c\<lparr> wait_period := w, nextTx := t \<rparr>) ?s)" for w t
    by (rule same_ids_attempt)
  then have "keeps s ((update a (\<lambda>c. c\<lparr> wait_period := w, nextTx := t \<rparr>) ?s)\<lparr> sendQ := q \<rparr>)" for w t q
    using i by (intro keeps_same_ids) (auto intro: same_ids_trans)
  with assms k show ?thesis
    using keeps_trans [OF k report_keeps]
    by (auto simp: after_attempt_def Let_def split: if_splits option.splits)
qed

lemma send_one_keeps:
  assumes "send_one e now a s = Inr (finished, s')"
  shows "keeps s s'"
proof -
  have i: "keeps s (s\<lparr> st_attempt := n \<rparr>)" "keeps s (s\<lparr> st_attempt := n, sendQ := q \<rparr>)" "keeps s (s\<lparr> st_attempt := n, udp_out := u \<rparr>)" for n q u
    by (simp_all add: keeps_same_ids)
  note after = keeps_trans [OF i(1) after_attempt_keeps] keeps_trans [OF i(3) after_attempt_keeps]
    keeps_trans [OF keeps_trans [OF i(1) report_keeps] after_attempt_keeps]
  show ?thesis
    using assms i after
    by (auto simp: send_one_def Let_def outcome_simps split: if_splits attempt.splits option.splits)
qed

lemma tick_loop_keeps:
  assumes "tick_loop e now s = ret s'"
  shows "keeps s s'"
proof -
  have "\<forall>s'. r = Inr s' \<longrightarrow> keeps s s'" if "tick_loop e now s = Some r" for r
  proof (rule tick_loop.raw_induct [where P = "\<lambda>e now s r. \<forall>s'. r = Inr s' \<longrightarrow> keeps s s'", OF _ that], goal_cases)
    case (1 f e now s r)
    let ?n = "env_top e (map (\<lambda>a. nextTx (heap s a)) (sendQ s))"
    let ?t = "s\<lparr> sendQ := take ?n (sendQ s) @ drop (Suc ?n) (sendQ s) \<rparr>"
    have t: "keeps s ?t"
      by (simp add: keeps_same_ids)
    show ?case
    proof (cases "r = Inr s")
      case False
      show ?thesis
      proof (intro allI impI)
        fix s'
        assume r: "r = Inr s'"
        with False 1(2) obtain finished u where u: "send_one e now (sendQ s ! ?n) ?t = Inr (finished, u)"
          and rest: "if finished then r = Inr u else f e now u = Some r"
          by (auto simp: Let_def split: if_splits sum.splits)
        have k: "keeps s u"
          using t send_one_keeps [OF u] by (rule keeps_trans)
        show "keeps s s'"
        proof (cases finished)
          case False
          with rest 1(1) r have "keeps u s'"
            by simp
          with k show ?thesis
            by (rule keeps_trans)
        qed (use rest r k in simp)
      qed
    qed simp
  qed
  with assms show ?thesis
    by blast
qed

lemma udp_receive_keeps: "keeps s (udp_receive incoming s)"
proof (cases incoming)
  case (Some m)
  obtain a t where n: "new_SipMsgContainer (SipTransactionId m) s = (a, t)"
    by fastforce
  with arrival_keeps [OF n, of m t] Some show ?thesis
    by (simp add: udp_receive_def)
qed (simp add: udp_receive_def)

text \<open>Purging only removes calls.\<close>

lemma purge_ok:
  "filter_ok s \<Longrightarrow> filter_ok (purge now s)"
  "sentRequestDB (purge now s) k = sentRequestDB s k \<or> sentRequestDB (purge now s) k = None"
  "sentResponseDB (purge now s) k = sentResponseDB s k \<or> sentResponseDB (purge now s) k = None"
proof -
  have "pair_ok (purge now s) mp \<longleftrightarrow> pair_ok s mp" for mp
    by (simp add: pair_ok_def purge_def)
  then show "filter_ok s \<Longrightarrow> filter_ok (purge now s)"
    by (auto simp: filter_ok_def fifo_ok_def db_ok_def purge_def purgeOldCalls_def split: option.splits if_splits)
qed (auto simp: purge_def purgeOldCalls_def split: option.splits)

lemma setPurgeTimer_keeps: "keeps s (setCallPurgeTimer i t s)"
proof -
  let ?s = "setCallPurgeTimer i t s"
  have p: "pair_ok ?s mp \<longleftrightarrow> pair_ok s mp" "widens s ?s" for mp
    by (auto simp: pair_ok_def widens_def setCallPurgeTimer_def)
  have "db_grows db (setPurgeTimer i t db)" for db
    by (auto simp: db_grows_def setPurgeTimer_def call_grows_def split: option.splits)
  moreover have "db_ok ?s (setPurgeTimer i t db)" if "db_ok s db" for db
    using that p by (auto simp: db_ok_def setPurgeTimer_def split: option.splits)
  ultimately show ?thesis
    using p(2) by (auto simp: keeps_def filter_ok_def develops_def fifo_ok_def setCallPurgeTimer_def)
qed

section \<open>Receiving\<close>

lemma nat_via_simps [simp]:
  "m_type (nat_via e m) = m_type m" "m_status (nat_via e m) = m_status m"
  "SipTransactionId (nat_via e m) = SipTransactionId m"
  by (simp_all add: nat_via_def Let_def SipTransactionId_def getVia0_def)

text \<open>The message at the head of the fifo is taken.\<close>

lemma head_taken:
  assumes "filter_ok s" and "rcvFifo s = a # as" and "c_in (heap s a) = Some m"
    and "t = setMsgIn (nat_via e m) a (s\<lparr> rcvFifo := as \<rparr>)"
  shows "filter_ok t" and "develops s t" and "taken a (SipTransactionId m) t" and "c_in (heap t a) = Some (nat_via e m)"
    and "sentRequestDB t = sentRequestDB s" and "sentResponseDB t = sentResponseDB s"
proof -
  have e: "widens s t"
    unfolding assms(4) using assms(2) by (auto simp: widens_def setMsgIn_def)
  show db: "sentRequestDB t = sentRequestDB s" "sentResponseDB t = sentResponseDB s"
    by (simp_all add: assms(4) setMsgIn_def)
  have "fifo_ok t"
    using assms by (auto simp: filter_ok_def fifo_ok_def setMsgIn_def)
  with e db assms(1) show "filter_ok t" "develops s t"
    by (simp_all add: filter_ok_def develops_def db_ok_extends)
  show "taken a (SipTransactionId m) t" "c_in (heap t a) = Some (nat_via e m)"
    using assms by (auto simp: taken_def filter_ok_def fifo_ok_def setMsgIn_def)
qed

lemma request_response_keeps:
  assumes "sentRequestDB s k = Some cc" and "taken a i s" and "findMsgPair (of_id (heap s) i) (cc_msgs cc) = Some n"
  shows "keeps s (s\<lparr> sentRequestDB := (sentRequestDB s)(k \<mapsto> set_response n a cc) \<rparr>)"
proof (rule keeps_request_entry)
  show "\<forall>mp\<in>set (cc_msgs (set_response n a cc)). pair_ok s mp" if "filter_ok s"
    using pairs_set_response [OF calls_pairs(1) [OF that assms(1)] assms(2,3)] .
qed (use assms(1) in simp)

lemma of_id_setRetransmitMax [simp]: "of_id (heap (setRetransmitMax n a s)) i = of_id (heap s) i"
  by (auto simp: fun_eq_iff of_id_def matches_def setRetransmitMax_def split: option.splits)

lemma setRetransmitMax_simps [simp]:
  "sentRequestDB (setRetransmitMax n a s) = sentRequestDB s" "sentResponseDB (setRetransmitMax n a s) = sentResponseDB s"
  "c_in (heap (setRetransmitMax n a s) b) = c_in (heap s b)"
  by (simp_all add: setRetransmitMax_def)

text \<open>The cases of \<open>SipSentRequestDB::processRecv\<close> for a user agent.\<close>

lemma response_processRecv_cases:
  assumes "response_processRecv False a s = Inr (q, s')" and "c_in (heap s a) = Some m" and "filter_ok s"
  obtains (none) "q = None" "same_ids s s'"
  | (provisional) "m_status m < 200" "q = Some [Some m]" "same_ids s s'"
  | (final) cc n r where "200 \<le> m_status m" "sentRequestDB s (call_id (SipTransactionId m)) = Some cc"
      "findMsgPair (of_id (heap s) (SipTransactionId m)) (cc_msgs cc) = Some n" "mp_response (cc_msgs cc ! n) = None"
      "q = Some [c_in (heap s r), Some m]"
      "s' = (setRetransmitMax 0 r s)\<lparr> sentRequestDB := (sentRequestDB s)(call_id (SipTransactionId m) \<mapsto> set_response n a cc) \<rparr>"
proof -
  let ?i = "SipTransactionId m"
  have st: "m_type m = SIP_STATUS"
    using assms(1,2) by (auto simp: response_processRecv_def outcome_simps)
  show ?thesis
  proof (cases "found s (sentRequestDB s) ?i")
    case None
    then have "q = None" "s' = s"
      using assms(1,2) st by (auto simp: response_processRecv_def found_def outcome_simps Let_def split: option.splits)
    then show ?thesis
      using none by simp
  next
    case (Some mp)
    then obtain cc n where cc: "sentRequestDB s (call_id ?i) = Some cc"
      "findMsgPair (of_id (heap s) ?i) (cc_msgs cc) = Some n" "mp = cc_msgs cc ! n"
      by (auto simp: found_def split: option.splits)
    then have "pair_ok s mp"
      using calls_pairs(1) [OF assms(3) cc(1)] by (simp add: findMsgPair_Some)
    then obtain r where r: "mp_request mp = Some r"
      by (auto simp: pair_ok_def)
    show ?thesis
    proof (cases "m_status m < 200")
      case True
      with assms(1,2) st cc r have "q = Some [Some m]" "s' = setRetransmitMax 0 r s"
        by (simp_all add: response_processRecv_def outcome_simps Let_def)
      with True provisional show ?thesis
        by simp
    next
      case False
      show ?thesis
      proof (cases "mp_response mp")
        case None
        with False assms(1,2) st cc r show ?thesis
          by (intro final [of cc n r]) (simp_all add: response_processRecv_def outcome_simps Let_def)
      next
        case (Some p)
        with False assms(1,2) st cc r have "q = None" "s' = setRetransmitMax 0 r s"
          by (simp_all add: response_processRecv_def outcome_simps Let_def)
        with none show ?thesis
          by simp
      qed
    qed
  qed
qed

lemma response_processRecv_keeps:
  assumes "response_processRecv False a s = Inr (q, s')" and "c_in (heap s a) = Some m" and "filter_ok s"
    and "taken a (SipTransactionId m) s"
  shows "keeps s s'"
  using assms(1-3)
proof (cases rule: response_processRecv_cases)
  case (final cc n r)
  let ?s = "setRetransmitMax 0 r s"
  have i: "same_ids s ?s"
    by simp
  have "keeps ?s (?s\<lparr> sentRequestDB := (sentRequestDB ?s)(call_id (SipTransactionId m) \<mapsto> set_response n a cc) \<rparr>)"
    by (rule request_response_keeps [where i = "SipTransactionId m"])
      (use final assms(4) in \<open>simp_all add: taken_same_ids [OF i]\<close>)
  with keeps_trans [OF keeps_same_ids [OF i]] final show ?thesis
    by simp
qed (simp_all add: keeps_same_ids)

text \<open>The request side.\<close>

lemma request_queue_same_ids: "request_queue m cc s = (q, s') \<Longrightarrow> same_ids s s'"
  by (auto simp: request_queue_def Let_def split: if_splits option.splits)

lemma request_queue_last: "request_queue m cc s = (q, s') \<Longrightarrow> \<exists>l. q = Some (l @ [Some m])"
  by (auto simp: request_queue_def Let_def split: if_splits option.splits)

lemma store_call_keeps:
  assumes "\<And>old. sentResponseDB s (call_id i) = Some old \<Longrightarrow> call_grows old cc"
    and "filter_ok s \<Longrightarrow> (\<forall>mp\<in>set (cc_msgs cc). pair_ok s mp)"
  shows "keeps s (store_call i cc s)"
  unfolding store_call_def by (rule keeps_response_entry) (use assms in auto)

lemma reject_keeps:
  assumes "reject_out_of_order m a s = Inr s'" and "a \<notin> set (rcvFifo s)"
  shows "keeps s s'"
proof -
  let ?m = "StatusMsg (st_random s (st_drawn s)) m 400"
  let ?s = "if draws_tag m 400 then s\<lparr> st_drawn := Suc (st_drawn s) \<rparr> else s"
  let ?t = "setRetransmitMax 1 a (setTransport (via_transport (getVia0 ?m)) a (setMsgIn ?m a ?s))"
  obtain b where b: "response_processSend False ?m ?t = Inr (b, s')"
    using assms(1) by (auto simp: reject_out_of_order_def Let_def outcome_simps split: prod.splits)
  have "same_ids s ?t"
    using assms(2) by (auto simp: same_ids_def setMsgIn_def setTransport_def setRetransmitMax_def)
  then show ?thesis
    using keeps_trans keeps_same_ids response_processSend_keeps [OF b] by blast
qed

text \<open>The call as \<open>first_request\<close> stores it.\<close>

lemma first_request_cases:
  assumes "first_request False m a None cc s = Inr (q, s')"
  obtains cc' where "cc_msgs cc' = (if m_type m = SIP_ACK \<or> m_type m = SIP_CANCEL then cc_msgs cc
      else cc_msgs cc @ [\<lparr> mp_request = Some a, mp_response = None \<rparr>])"
    and "request_queue m cc' (store_call (SipTransactionId m) cc' s) = (q, s')
      \<or> reject_out_of_order m a (store_call (SipTransactionId m) cc' s) = Inr s' \<and> q = None"
proof -
  let ?seq = "sint (cs_num (m_cseq m))"
  let ?quiet = "m_type m = SIP_ACK \<or> m_type m = SIP_CANCEL"
  let ?cc = "if ?quiet then cc else addMsgPair \<lparr> mp_request = Some a, mp_response = None \<rparr> cc"
  let ?cc' = "if curSeqNum cc < ?seq \<and> (?quiet \<or> setSeq cc) then setCurSeqNum ?seq ?cc else ?cc"
  have "setSeq (addMsgPair mp cc) = setSeq cc" for mp
    by (simp add: addMsgPair_def)
  with assms show ?thesis
    by (intro that [of ?cc'])
      (auto simp: first_request_def Let_def outcome_simps addMsgPair_def setCurSeqNum_def split: if_splits)
qed

lemma first_request_keeps:
  assumes "first_request False m a None cc s = Inr (q, s')" and "taken a (SipTransactionId m) s"
    and "sentResponseDB s (call_id (SipTransactionId m)) = Some cc"
  shows "keeps s s'"
proof -
  let ?i = "SipTransactionId m"
  from assms(1) obtain cc' where msgs: "cc_msgs cc' = (if m_type m = SIP_ACK \<or> m_type m = SIP_CANCEL then cc_msgs cc
      else cc_msgs cc @ [\<lparr> mp_request = Some a, mp_response = None \<rparr>])"
    and r: "request_queue m cc' (store_call ?i cc' s) = (q, s') \<or> reject_out_of_order m a (store_call ?i cc' s) = Inr s' \<and> q = None"
    by (rule first_request_cases)
  have "keeps s (store_call ?i cc' s)"
  proof (rule store_call_keeps)
    show "call_grows old cc'" if "sentResponseDB s (call_id ?i) = Some old" for old
      using that assms(3) msgs by (simp add: call_grows_def nth_append)
    show "\<forall>mp\<in>set (cc_msgs cc'). pair_ok s mp" if "filter_ok s"
      using calls_pairs(2) [OF that assms(3)] assms(2) msgs by (auto simp: pair_ok_def taken_def)
  qed
  moreover have "keeps (store_call ?i cc' s) s'"
    using r
  proof
    assume "request_queue m cc' (store_call ?i cc' s) = (q, s')"
    then show ?thesis
      by (intro keeps_same_ids request_queue_same_ids)
  next
    assume "reject_out_of_order m a (store_call ?i cc' s) = Inr s' \<and> q = None"
    then show ?thesis
      using assms(2) by (intro reject_keeps [of m a]) (simp_all add: taken_def store_call_def)
  qed
  ultimately show ?thesis
    by (rule keeps_trans)
qed

lemma repeated_request_keeps:
  assumes "mp_response (cc_msgs cc ! n) = Some r" and "sentResponseDB s (call_id i) = Some cc" and "taken a i s"
    and "findMsgPair (of_id (heap s) i) (cc_msgs cc) = Some n"
  shows "keeps s (repeated_request i n a cc s)"
proof -
  let ?s = "setRetransmitMax 0 r s"
  let ?t = "?s\<lparr> sentResponseDB := (sentResponseDB ?s)(call_id i \<mapsto> set_response n a cc) \<rparr>"
  have i: "same_ids s ?s"
    by simp
  have "keeps ?s ?t"
    by (rule set_response_keeps [where i = i]) (use assms in \<open>simp_all add: taken_same_ids [OF i]\<close>)
  then have "keeps s ?t"
    using keeps_trans [OF keeps_same_ids [OF i]] by blast
  moreover have "keeps ?t (setRetransmitMax FILTER_RETRANS_COUNT a ?t)"
    by (simp add: keeps_same_ids)
  ultimately show ?thesis
    using assms(1) keeps_trans by (simp add: repeated_request_def)
qed

lemma empty_call [simp]: "findMsgPair P (cc_msgs (SipCallContainer i)) = None"
  by simp

lemma request_received:
  assumes "filter_ok s" and "rcvFifo s = a # as" and "c_in (heap s a) = Some m"
    and t: "t = setMsgIn (nat_via e m) a (s\<lparr> rcvFifo := as \<rparr>)" and "request_processRecv False a t = Inr (q, s')"
    and i: "i = SipTransactionId m"
  obtains (unknown) "m_type m \<noteq> SIP_STATUS" "m_type m \<noteq> SIP_INVITE" "q = Some [Some (nat_via e m)]" "s' = t"
  | (repeated) cc n where "m_type m \<noteq> SIP_STATUS" "sentResponseDB t (call_id i) = Some cc"
      "findMsgPair (of_id (heap t) i) (cc_msgs cc) = Some n" "q = None" "s' = repeated_request i n a cc t"
  | (first) cc u where "m_type m \<noteq> SIP_STATUS" "sentResponseDB u (call_id i) = Some cc"
      "findMsgPair (of_id (heap u) i) (cc_msgs cc) = None" "first_request False (nat_via e m) a None cc u = Inr (q, s')"
      "keeps s u" "taken a i u" "sentResponseDB t (call_id i) = None \<or> u = t"
proof (rule request_processRecv_cases [OF assms(5)], goal_cases)
  case (1 m' u)
  note h = head_taken [OF assms(1-4)]
  have m': "m' = nat_via e m" "SipTransactionId m' = i"
    using h(4) 1(4) i by simp_all
  have "keeps t u"
    unfolding 1(6) by (auto intro!: store_call_keeps)
  then have su: "keeps s u" and u: "filter_ok u"
    using h(1,2) unfolding keeps_def by (blast intro: develops_trans)+
  have taken: "taken a i u"
    using h(3) unfolding 1(6) i by (simp add: taken_def store_call_def)
  have st: "m_type m \<noteq> SIP_STATUS"
    using 1(5) m' by simp
  from 1(7) show ?case
    unfolding m'(2)
  proof (elim disjE exE conjE)
    assume "sentResponseDB u (call_id i) = None" "q = Some [Some m']" "s' = u"
    with 1(6) m' st show ?thesis
      by (intro unknown) (auto simp: store_call_def split: if_splits)
  next
    fix cc n
    assume cc: "sentResponseDB u (call_id i) = Some cc" "findMsgPair (of_id (heap u) i) (cc_msgs cc) = Some n"
      "q = None" "s' = repeated_request i n a cc u"
    have "u = t"
      using cc 1(6) m' by (auto simp: store_call_def split: if_splits)
    with cc st show ?thesis
      by (intro repeated) simp_all
  next
    fix cc f
    assume cc: "sentResponseDB u (call_id i) = Some cc" "f = findMsgPair (of_id (heap u) i) (cc_msgs cc)"
      "\<forall>n. f = Some n \<longrightarrow> mp_request (cc_msgs cc ! n) = None" "first_request False m' a f cc u = Inr (q, s')"
    have "f = None"
    proof (cases f)
      case (Some n)
      then have "pair_ok u (cc_msgs cc ! n)"
        using cc(2) calls_pairs(2) [OF u cc(1)] by (simp add: findMsgPair_Some)
      with cc(3) Some show ?thesis
        by (auto simp: pair_ok_def)
    qed
    moreover have "sentResponseDB t (call_id i) = None \<or> u = t"
      using 1(6) m' by auto
    ultimately show ?thesis
      using cc st su taken m' by (intro first [of u cc]) simp_all
  qed
qed

lemma request_processRecv_keeps:
  assumes "filter_ok s" and "rcvFifo s = a # as" and "c_in (heap s a) = Some m"
    and t: "t = setMsgIn (nat_via e m) a (s\<lparr> rcvFifo := as \<rparr>)" and "request_processRecv False a t = Inr (q, s')"
  shows "keeps s s'"
  using assms refl
proof (cases rule: request_received)
  note h = head_taken [OF assms(1-4)]
  have st: "keeps s t"
    using h(1,2) by (simp add: keeps_def)
  {
    case unknown
    then show ?thesis
      using st by simp
  next
    case (repeated cc n)
    show ?thesis
    proof (cases "mp_response (cc_msgs cc ! n)")
      case (Some r)
      then show ?thesis
        using keeps_trans [OF st repeated_request_keeps [OF Some repeated(2) h(3) repeated(3)]] repeated(5) by simp
    next
      case None
      then have "s' = update a (\<lambda>c. cleared_container) t"
        using repeated(5) by (simp add: repeated_request_def)
      moreover have "widens s (update a (\<lambda>c. cleared_container) t)"
        unfolding t using assms(2) by (auto simp: widens_def setMsgIn_def)
      moreover have "fifo_ok (update a (\<lambda>c. cleared_container) t)"
        using h(1,3) by (auto simp: filter_ok_def fifo_ok_def taken_def)
      ultimately show ?thesis
        using h(5,6) by (simp add: keeps_def filter_ok_def develops_def db_ok_extends)
    qed
  next
    case (first cc u)
    then have "keeps u s'"
      by (intro first_request_keeps [where m = "nat_via e m" and a = a and cc = cc and q = q]) simp_all
    with first(5) show ?thesis
      by (rule keeps_trans)
  }
qed

lemma receiveNB_keeps:
  assumes "receiveNB e s = Inr (q, s')" and "\<not> env_proxy e"
  shows "keeps s s'"
proof (cases "filter_ok s")
  case ok: True
  show ?thesis
  proof (cases "rcvFifo s")
    case (Cons a as)
    obtain m where m: "c_in (heap s a) = Some m"
      using assms(1) Cons by (auto simp: receiveNB_def split: option.splits)
    let ?t = "setMsgIn (nat_via e m) a (s\<lparr> rcvFifo := as \<rparr>)"
    note h = head_taken [OF ok Cons m refl, of e]
    have "keeps s ?t"
      using h(1,2) by (simp add: keeps_def)
    then have "keeps s u" if "response_processRecv False a ?t = Inr (q, u)" for q u
      using response_processRecv_keeps [OF that h(4,1)] h(3) by (auto intro: keeps_trans)
    then show ?thesis
      using assms Cons m request_processRecv_keeps [OF ok Cons m refl]
      by (auto simp: receiveNB_def Let_def split: if_splits)
  qed (use assms in \<open>simp add: receiveNB_def\<close>)
qed (simp add: keeps_def)

end
