(* ===== verification/Sip_Filter.thy ===== *)
theory Sip_Filter
  imports Sip_Database
begin

text \<open>
  What the application sees of repeated messages. The databases of sent requests and of sent responses
  let each final response and each INVITE through once, as long as the call is not purged. The two
  filters have one contract, the locale \<open>duplicate_filter\<close>. The last section shows what a repeated
  INVITE does to the answer that is on its way.
\<close>

section \<open>The contract of a filter\<close>

locale duplicate_filter =
  fixes step :: "'s \<Rightarrow> 'o \<Rightarrow> 's \<Rightarrow> bool" and inv :: "'s \<Rightarrow> bool" and recorded :: "'s \<Rightarrow> bool" and hit :: "'o \<Rightarrow> bool"
  assumes inv_step: "step s q s' \<Longrightarrow> inv s \<Longrightarrow> inv s'"
    and recorded_step: "step s q s' \<Longrightarrow> inv s \<Longrightarrow> recorded s \<Longrightarrow> recorded s'"
    and hit_recorded: "step s q s' \<Longrightarrow> inv s \<Longrightarrow> hit q \<Longrightarrow> recorded s'"
    and recorded_no_hit: "step s q s' \<Longrightarrow> inv s \<Longrightarrow> recorded s \<Longrightarrow> \<not> hit q"
begin

lemma at_most_once:
  assumes "runs step s qs s'" and "inv s"
  shows "inv s' \<and> length (filter hit qs) \<le> 1 \<and> (filter hit qs \<noteq> [] \<longrightarrow> recorded s')"
  using assms
proof (induction rule: runs.induct)
  case (run_step s qs s' q s'')
  then show ?case
    using inv_step hit_recorded recorded_step recorded_no_hit by (cases "filter hit qs") auto
qed simp

end

section \<open>The two filters\<close>

lemma stack_step_keeps:
  assumes "stack_step e s q s'" and "\<not> env_proxy e"
  shows "\<exists>t. keeps s t \<and> (s' = t \<or> (\<exists>now. s' = purge now t))"
  using assms(1)
proof cases
  case (sends_request now m)
  then have "keeps s s'"
    by (auto simp: stack_sendAsync_def outcome_simps intro: keeps_trans [OF request_processSend_keeps send_keeps] split: if_splits)
  then show ?thesis
    by blast
next
  case (sends_request_to now m host port)
  then have "keeps s s'"
    by (auto simp: stack_sendAsyncTo_def outcome_simps Let_def intro: keeps_trans [OF request_processSend_keeps send_keeps]
        split: if_splits)
  then show ?thesis
    by blast
next
  case (sends_reply m)
  then have "keeps s s'"
    by (auto simp: stack_sendReply_def outcome_simps intro: keeps_trans [OF response_processSend_keeps send_keeps])
  then show ?thesis
    by blast
next
  case (ticks now incoming)
  then obtain t where "tick_loop e now (udp_receive incoming s) = ret t" "s' = purge now t"
    by (auto simp: stack_tick_def udp_tick_def outcome_simps)
  then show ?thesis
    using keeps_trans [OF udp_receive_keeps tick_loop_keeps] by blast
next
  case receives
  then show ?thesis
    using receiveNB_keeps assms(2) by blast
next
  case sets_purge_timer
  then show ?thesis
    using setPurgeTimer_keeps by blast
qed

text \<open>What the application is given.\<close>

definition final_response :: "trans_id \<Rightarrow> msg_queue \<Rightarrow> bool" where
  "final_response i q = (case q of None \<Rightarrow> False | Some l \<Rightarrow> l \<noteq> [] \<and>
     (case last l of None \<Rightarrow> False | Some m \<Rightarrow> m_type m = SIP_STATUS \<and> 200 \<le> m_status m \<and> SipTransactionId m = i))"

definition new_invite :: "trans_id \<Rightarrow> msg_queue \<Rightarrow> bool" where
  "new_invite i q = (case q of None \<Rightarrow> False | Some l \<Rightarrow> l \<noteq> [] \<and>
     (case last l of None \<Rightarrow> False | Some m \<Rightarrow> m_type m = SIP_INVITE \<and> SipTransactionId m = i))"

lemma delivered_simps [simp]:
  "\<not> final_response i None" "\<not> new_invite i None"
  "final_response i (Some (l @ [Some m])) \<longleftrightarrow> m_type m = SIP_STATUS \<and> 200 \<le> m_status m \<and> SipTransactionId m = i"
  "new_invite i (Some (l @ [Some m])) \<longleftrightarrow> m_type m = SIP_INVITE \<and> SipTransactionId m = i"
  by (simp_all add: final_response_def new_invite_def)

definition answered :: "trans_id \<Rightarrow> transceiver \<Rightarrow> bool" where
  "answered i s = (case found s (sentRequestDB s) i of None \<Rightarrow> False | Some mp \<Rightarrow> mp_response mp \<noteq> None)"

definition received :: "trans_id \<Rightarrow> transceiver \<Rightarrow> bool" where
  "received i s \<longleftrightarrow> found s (sentResponseDB s) i \<noteq> None"

text \<open>A step of a user agent that does not purge the call.\<close>

definition unpurged_step :: "env \<Rightarrow> trans_id \<Rightarrow> transceiver \<Rightarrow> msg_queue \<Rightarrow> transceiver \<Rightarrow> bool" where
  "unpurged_step e i s q s' \<longleftrightarrow> stack_step e s q s' \<and> \<not> env_proxy e
    \<and> (sentRequestDB s (call_id i) \<noteq> None \<longrightarrow> sentRequestDB s' (call_id i) \<noteq> None)
    \<and> (sentResponseDB s (call_id i) \<noteq> None \<longrightarrow> sentResponseDB s' (call_id i) \<noteq> None)"

lemma filter_ok_step: "unpurged_step e i s q s' \<Longrightarrow> filter_ok s \<Longrightarrow> filter_ok s'"
  using stack_step_keeps purge_ok(1) unfolding unpurged_step_def keeps_def by blast

lemma found_purge:
  "sentRequestDB (purge now s) (call_id i) \<noteq> None \<Longrightarrow> found (purge now s) (sentRequestDB (purge now s)) i = found s (sentRequestDB s) i"
  "sentResponseDB (purge now s) (call_id i) \<noteq> None \<Longrightarrow> found (purge now s) (sentResponseDB (purge now s)) i = found s (sentResponseDB s) i"
  using purge_ok(2,3) [of now s "call_id i"] by (auto simp: found_def)

lemma found_db: "found s db i = Some mp \<Longrightarrow> db (call_id i) \<noteq> None"
  by (auto simp: found_def split: option.splits)

lemma found_step:
  assumes "unpurged_step e i s q s'" and "filter_ok s"
  shows "found s (sentRequestDB s) i = Some mp \<Longrightarrow> \<exists>mp'. found s' (sentRequestDB s') i = Some mp' \<and> pair_grows mp mp'"
    and "found s (sentResponseDB s) i = Some mp \<Longrightarrow> \<exists>mp'. found s' (sentResponseDB s') i = Some mp' \<and> pair_grows mp mp'"
proof -
  obtain t where "keeps s t" and t: "s' = t \<or> (\<exists>now. s' = purge now t)"
    using assms(1) stack_step_keeps unfolding unpurged_step_def by blast
  then have k: "filter_ok t" "develops s t"
    using assms(2) by (simp_all add: keeps_def)
  show "found s (sentRequestDB s) i = Some mp \<Longrightarrow> \<exists>mp'. found s' (sentRequestDB s') i = Some mp' \<and> pair_grows mp mp'"
    using found_evolves [of s t "sentRequestDB s" "sentRequestDB t" i mp] assms k t found_purge(1) [of _ t i]
    by (auto simp: develops_def filter_ok_def unpurged_step_def dest: found_db)
  show "found s (sentResponseDB s) i = Some mp \<Longrightarrow> \<exists>mp'. found s' (sentResponseDB s') i = Some mp' \<and> pair_grows mp mp'"
    using found_evolves [of s t "sentResponseDB s" "sentResponseDB t" i mp] assms k t found_purge(2) [of _ t i]
    by (auto simp: develops_def filter_ok_def unpurged_step_def dest: found_db)
qed

lemma answered_step: "unpurged_step e i s q s' \<Longrightarrow> filter_ok s \<Longrightarrow> answered i s \<Longrightarrow> answered i s'"
  using found_step(1) unfolding answered_def pair_grows_def by (fastforce split: option.splits)

lemma received_step: "unpurged_step e i s q s' \<Longrightarrow> filter_ok s \<Longrightarrow> received i s \<Longrightarrow> received i s'"
  using found_step(2) unfolding received_def by fastforce

text \<open>A response that goes up is recorded, and was not before.\<close>

lemma request_not_final:
  assumes "filter_ok s" and "rcvFifo s = a # as" and "c_in (heap s a) = Some m"
    and "request_processRecv False a (setMsgIn (nat_via e m) a (s\<lparr> rcvFifo := as \<rparr>)) = Inr (q, s')"
  shows "q = None \<or> (\<exists>l. q = Some (l @ [Some (nat_via e m)])) \<and> m_type m \<noteq> SIP_STATUS"
  using assms(1-3) refl assms(4) refl
proof (cases rule: request_received)
  case (first cc u)
  from first(4) show ?thesis
    by (rule first_request_cases) (use first(1) in \<open>auto dest: request_queue_last\<close>)
qed auto

lemma final_delivered:
  assumes "receiveNB e s = Inr (q, s')" and "\<not> env_proxy e" and "filter_ok s" and "final_response i q"
  shows "\<not> answered i s \<and> answered i s'"
proof -
  obtain a as where f: "rcvFifo s = a # as"
    using assms(1,4) by (cases "rcvFifo s") (auto simp: receiveNB_def final_response_def)
  obtain m where m: "c_in (heap s a) = Some m"
    using assms(1) f by (auto simp: receiveNB_def split: option.splits)
  let ?t = "setMsgIn (nat_via e m) a (s\<lparr> rcvFifo := as \<rparr>)"
  note h = head_taken [OF assms(3) f m refl, of e]
  have "m_type m = SIP_STATUS"
  proof (rule ccontr)
    assume "m_type m \<noteq> SIP_STATUS"
    then have "request_processRecv False a ?t = Inr (q, s')"
      using assms(1,2) f m by (simp add: receiveNB_def Let_def)
    from request_not_final [OF assms(3) f m this] assms(4) show False
      by auto
  qed
  then have r: "response_processRecv False a ?t = Inr (q, s')"
    using assms(1,2) f m by (simp add: receiveNB_def Let_def)
  then show ?thesis
    using h(4,1)
  proof (cases rule: response_processRecv_cases)
    case (final cc n r)
    have i: "SipTransactionId m = i"
      using final(5) assms(4) by (simp add: final_response_def)
    have t: "db_ok ?t (sentRequestDB s)" "widens s ?t"
      using h(1,2,5) by (simp_all add: filter_ok_def develops_def)
    have cc: "sentRequestDB s (call_id i) = Some cc" "findMsgPair (of_id (heap ?t) i) (cc_msgs cc) = Some n"
      using final(2,3) h(5) i by simp_all
    then have n: "n < length (cc_msgs cc)"
      by (simp add: findMsgPair_Some)
    have k: "filter_ok s'" "widens ?t s'" "sentRequestDB s' (call_id i) = Some (set_response n a cc)"
      using response_processRecv_keeps [OF r h(4,1)] h(1,3) final(6) i by (simp_all add: keeps_def develops_def)
    have "findMsgPair (of_id (heap s') i) (cc_msgs (set_response n a cc)) = Some n"
      using calls_pairs(1) [OF h(1)] cc(1) h(5) calls_pairs(1) [OF k(1,3)]
      by (intro position_evolves [OF k(2) _ _ _ cc(2)]) simp_all
    then have "answered i s'"
      using k(3) n by (simp add: answered_def found_def set_response_def)
    moreover have "\<not> answered i s"
    proof
      assume "answered i s"
      then obtain mp where mp: "found s (sentRequestDB s) i = Some mp" "mp_response mp \<noteq> None"
        by (auto simp: answered_def split: option.splits)
      have "db_ok s (sentRequestDB s)"
        using assms(3) by (simp add: filter_ok_def)
      then obtain mp' where "found ?t (sentRequestDB s) i = Some mp'" "mp_response mp' \<noteq> None"
        using found_evolves [OF t(2) db_grows_refl _ t(1) mp(1)] mp(2) unfolding pair_grows_def by blast
      with cc final(4) show False
        by (simp add: found_def)
    qed
    ultimately show ?thesis
      by simp
  qed (use assms(4) in \<open>simp_all add: final_response_def\<close>)
qed

text \<open>So is an INVITE.\<close>

lemma invite_delivered:
  assumes "receiveNB e s = Inr (q, s')" and "\<not> env_proxy e" and "filter_ok s" and "new_invite i q"
  shows "\<not> received i s \<and> received i s'"
proof -
  obtain a as where f: "rcvFifo s = a # as"
    using assms(1,4) by (cases "rcvFifo s") (auto simp: receiveNB_def new_invite_def)
  obtain m where m: "c_in (heap s a) = Some m"
    using assms(1) f by (auto simp: receiveNB_def split: option.splits)
  let ?t = "setMsgIn (nat_via e m) a (s\<lparr> rcvFifo := as \<rparr>)"
  note h = head_taken [OF assms(3) f m refl, of e]
  have r: "request_processRecv False a ?t = Inr (q, s')"
  proof (cases "m_type m = SIP_STATUS")
    case True
    then have "response_processRecv False a ?t = Inr (q, s')"
      using assms(1,2) f m by (simp add: receiveNB_def Let_def)
    then have False
      using h(4,1) by (cases rule: response_processRecv_cases) (use assms(4) True in \<open>simp_all add: new_invite_def\<close>)
    then show ?thesis ..
  qed (use assms(1,2) f m in \<open>simp add: receiveNB_def Let_def\<close>)
  have q: "m_type m = SIP_INVITE" "SipTransactionId m = i"
    using request_not_final [OF assms(3) f m r] assms(4) by auto
  from assms(3) f m refl r refl show ?thesis
  proof (cases rule: request_received)
    case (first cc u)
    from first(4) obtain cc' where msgs: "cc_msgs cc' = cc_msgs cc @ [\<lparr> mp_request = Some a, mp_response = None \<rparr>]"
      and "request_queue (nat_via e m) cc' (store_call i cc' u) = (q, s')"
      by (rule first_request_cases) (use q assms(4) in \<open>auto simp: new_invite_def\<close>)
    then have same: "same_ids (store_call i cc' u) s'"
      by (intro request_queue_same_ids)
    have "of_id (heap s') i \<lparr> mp_request = Some a, mp_response = None \<rparr>"
      using same first(6) q by (simp add: same_ids_def of_id_def matches_def taken_def store_call_def)
    then have "findMsgPair (of_id (heap s') i) (cc_msgs cc') \<noteq> None"
      unfolding findMsgPair_None msgs by auto
    moreover have "sentResponseDB s' (call_id i) = Some cc'"
      using same by (simp add: same_ids_def store_call_def)
    ultimately have "received i s'"
      by (auto simp: received_def found_def)
    moreover have "\<not> received i s"
    proof
      assume "received i s"
      then obtain mp where mp: "found s (sentResponseDB s) i = Some mp"
        by (auto simp: received_def)
      with found_evolves [of s ?t _ _ i mp, OF _ db_grows_refl] h(1,2,6) assms(3)
      obtain mp' where mp': "found ?t (sentResponseDB s) i = Some mp'"
        by (auto simp: filter_ok_def develops_def)
      with first(2,3,7) h(6) q show False
        by (auto simp: found_def split: option.splits)
    qed
    ultimately show ?thesis
      by simp
  qed (use q assms(4) in \<open>simp_all add: new_invite_def\<close>)
qed

lemma delivered_by_receive: "stack_step e s q s' \<Longrightarrow> q \<noteq> None \<Longrightarrow> receiveNB e s = Inr (q, s')"
  by (auto elim: stack_step.cases)

interpretation responses: duplicate_filter "unpurged_step e i" filter_ok "answered i" "final_response i" for e i
proof
  fix s q s'
  assume step: "unpurged_step e i s q s'" and ok: "filter_ok s"
  have d: "final_response i q \<Longrightarrow> \<not> answered i s \<and> answered i s'"
    using step ok unfolding unpurged_step_def by (metis delivered_by_receive delivered_simps(1) final_delivered)
  show "filter_ok s'"
    using step ok by (rule filter_ok_step)
  show "answered i s \<Longrightarrow> answered i s'"
    using step ok by (rule answered_step)
  show "final_response i q \<Longrightarrow> answered i s'" "answered i s \<Longrightarrow> \<not> final_response i q"
    using d by blast+
qed

interpretation invites: duplicate_filter "unpurged_step e i" filter_ok "received i" "new_invite i" for e i
proof
  fix s q s'
  assume step: "unpurged_step e i s q s'" and ok: "filter_ok s"
  have d: "new_invite i q \<Longrightarrow> \<not> received i s \<and> received i s'"
    using step ok unfolding unpurged_step_def by (metis delivered_by_receive delivered_simps(2) invite_delivered)
  show "filter_ok s'"
    using step ok by (rule filter_ok_step)
  show "received i s \<Longrightarrow> received i s'"
    using step ok by (rule received_step)
  show "new_invite i q \<Longrightarrow> received i s'" "received i s \<Longrightarrow> \<not> new_invite i q"
    using d by blast+
qed

lemma filter_ok_new: "filter_ok (new_SipTransceiver rnd)"
  by (simp add: filter_ok_def fifo_ok_def db_ok_def new_SipTransceiver_def)

text \<open>C10: In every execution of a user agent, whatever is sent, repeated, lost or reordered, the
  application is given at most one final response of a transaction and at most one INVITE of a
  transaction, as long as the call is not purged from the databases.\<close>

theorem duplicates_filtered:
  assumes "runs (unpurged_step e i) (new_SipTransceiver rnd) qs s"
  shows "length (filter (final_response i) qs) \<le> 1 \<and> length (filter (new_invite i) qs) \<le> 1"
  using responses.at_most_once [OF assms filter_ok_new] invites.at_most_once [OF assms filter_ok_new] by blast

text \<open>A request, its answer, and the answer once more.\<close>

lemma example_exchange:
  "case stack_sendAsync example_env 900 example_request (new_SipTransceiver (\<lambda>n. ''t'')) of Inl x \<Rightarrow> False | Inr s1 \<Rightarrow>
    (case stack_tick example_env 1000 (Some (StatusMsg ''b'' example_request 200)) s1 of Some (Inr s2) \<Rightarrow>
      (case receiveNB example_env s2 of Inl x \<Rightarrow> False | Inr (q3, s3) \<Rightarrow>
        (case stack_tick example_env 1100 (Some (StatusMsg ''b'' example_request 200)) s3 of Some (Inr s4) \<Rightarrow>
          (case receiveNB example_env s4 of Inl x \<Rightarrow> False | Inr (q5, s5) \<Rightarrow>
             q3 = Some [Some example_request, Some (StatusMsg ''b'' example_request 200)] \<and> q5 = None
             \<and> list_all (\<lambda>s. sentRequestDB s ''77'' \<noteq> None \<and> sentResponseDB s ''77'' = None) [s1, s2, s3, s4, s5])
         | _ \<Rightarrow> False))
     | _ \<Rightarrow> False)"
  by code_simp

lemma case_holds:
  "(case x of Inl e \<Rightarrow> False | Inr y \<Rightarrow> P y) \<longleftrightarrow> (\<exists>y. x = Inr y \<and> P y)"
  "(case r of None \<Rightarrow> False | Some z \<Rightarrow> Q z) \<longleftrightarrow> (\<exists>z. r = Some z \<and> Q z)"
  "(case p of (u, v) \<Rightarrow> R u v) \<longleftrightarrow> (\<exists>u v. p = (u, v) \<and> R u v)"
  by (auto split: sum.split option.split prod.split)

lemma unpurged_stepI:
  "stack_step e s q s' \<Longrightarrow> \<not> env_proxy e \<Longrightarrow> sentRequestDB s' (call_id i) \<noteq> None \<Longrightarrow> sentResponseDB s (call_id i) = None \<Longrightarrow>
    unpurged_step e i s q s'"
  by (simp add: unpurged_step_def)

theorem duplicates_filtered_witness:
  "\<exists>s. runs (unpurged_step example_env (SipTransactionId example_request)) (new_SipTransceiver (\<lambda>n. ''t''))
      [None, None, Some [Some example_request, Some (StatusMsg ''b'' example_request 200)], None, None] s
    \<and> length (filter (final_response (SipTransactionId example_request))
        [None, None, Some [Some example_request, Some (StatusMsg ''b'' example_request 200)], None, None]) \<le> 1"
proof -
  let ?s = "new_SipTransceiver (\<lambda>n. ''t'')"
  let ?r = "StatusMsg ''b'' example_request 200"
  let ?step = "unpurged_step example_env (SipTransactionId example_request)"
  obtain s1 s2 s3 s4 s5 where steps: "stack_sendAsync example_env 900 example_request ?s = Inr s1"
    "stack_tick example_env 1000 (Some ?r) s1 = ret s2" "receiveNB example_env s2 = Inr (Some [Some example_request, Some ?r], s3)"
    "stack_tick example_env 1100 (Some ?r) s3 = ret s4" "receiveNB example_env s4 = Inr (None, s5)"
    and db: "list_all (\<lambda>s. sentRequestDB s ''77'' \<noteq> None \<and> sentResponseDB s ''77'' = None) [s1, s2, s3, s4, s5]"
    using example_exchange unfolding case_holds by blast
  have i: "call_id (SipTransactionId example_request) = ''77''" "\<not> env_proxy example_env" "sentResponseDB ?s ''77'' = None"
    by (simp_all add: SipTransactionId_def getLocalId_def example_request_def example_env_def new_SipTransceiver_def)
  note step = unpurged_stepI [of example_env _ _ _ "SipTransactionId example_request"]
  have "?step ?s None s1" "?step s1 None s2" "?step s2 (Some [Some example_request, Some ?r]) s3"
    "?step s3 None s4" "?step s4 None s5"
    using steps db i by (auto intro!: step intro: stack_step.intros)
  then have "runs ?step ?s ((((([] @ [None]) @ [None]) @ [Some [Some example_request, Some ?r]]) @ [None]) @ [None]) s5"
    by (meson runs.intros)
  then have "runs ?step ?s [None, None, Some [Some example_request, Some ?r], None, None] s5"
    by simp
  with duplicates_filtered [OF this] show ?thesis
    by blast
qed

section \<open>A repeated INVITE\<close>

lemma filter_ok_run: "stack_run e s qs s' \<Longrightarrow> filter_ok s \<Longrightarrow> \<not> env_proxy e \<Longrightarrow> filter_ok s'"
proof (induction rule: runs.induct)
  case (run_step s qs s' q s'')
  then show ?case
    using stack_step_keeps [OF run_step.hyps(2)] purge_ok(1) unfolding keeps_def by blast
qed simp

lemma found_received:
  assumes "filter_ok s" and "rcvFifo s = a # as" and "c_in (heap s a) = Some m"
    and "t = setMsgIn (nat_via e m) a (s\<lparr> rcvFifo := as \<rparr>)"
    and "found s (sentResponseDB s) (SipTransactionId m) = Some mp"
  obtains cc n where "sentResponseDB t (call_id (SipTransactionId m)) = Some cc"
    and "findMsgPair (of_id (heap t) (SipTransactionId m)) (cc_msgs cc) = Some n" and "cc_msgs cc ! n = mp"
proof -
  have h: "heap t a = (heap s a)\<lparr> c_in := Some (nat_via e m) \<rparr>" "\<And>b. b \<noteq> a \<Longrightarrow> heap t b = heap s b" "sentResponseDB t = sentResponseDB s"
    by (simp_all add: assms(4) setMsgIn_def)
  then have "c_id (heap t b) = c_id (heap s b)" for b
    by (cases "b = a") simp_all
  then have "of_id (heap t) i = of_id (heap s) i" for i
    by (simp add: fun_eq_iff of_id_def matches_def split: option.splits)
  with assms(5) h(3) that show ?thesis
    by (auto simp: found_def split: option.splits)
qed

text \<open>C37: A repeated INVITE ends the retransmission of the final response that it asks for. The database
  takes the repeated request for the response, the transport is not told to send anything, and the
  response that waits in its queue is dropped: until the application sends again, the caller gets no
  more copies of the answer, whether or not one has reached it.\<close>

theorem repeated_invite_silences_answer:
  assumes "stack_run e (new_SipTransceiver rnd) qs s" and "top_ok e" and "\<not> env_proxy e"
    and "rcvFifo s = a # as" and "c_in (heap s a) = Some m" and "m_type m = SIP_INVITE"
    and "found s (sentResponseDB s) (SipTransactionId m) = Some mp" and "mp_response mp = Some r" and "sendQ s = [r]"
  shows "\<exists>s'. receiveNB e s = Inr (None, s') \<and> retransCount (heap s' r) = 0
    \<and> (\<exists>mp'. found s' (sentResponseDB s') (SipTransactionId m) = Some mp' \<and> mp_response mp' = Some a)
    \<and> (\<forall>ts. \<exists>s''. stack_ticks e ts s' = ret s'' \<and> udp_out s'' = udp_out s)"
proof -
  let ?i = "SipTransactionId m"
  let ?t = "setMsgIn (nat_via e m) a (s\<lparr> rcvFifo := as \<rparr>)"
  have ok: "filter_ok s"
    using filter_ok_run [OF assms(1) filter_ok_new assms(3)] .
  have "counted s"
    using stack_run_ok [OF assms(1) counted_new_SipTransceiver assms(2)] .
  then have "int (sent_count r s) \<le> retransSoFar (heap s r)"
    unfolding counted_def by blast
  then have so_far: "0 \<le> retransSoFar (heap s r)"
    by linarith
  obtain cc n where cc: "sentResponseDB ?t (call_id ?i) = Some cc" "findMsgPair (of_id (heap ?t) ?i) (cc_msgs cc) = Some n"
    "cc_msgs cc ! n = mp"
    by (rule found_received [OF ok assms(4,5) refl assms(7)])
  note h = head_taken [OF ok assms(4,5) refl, of e]
  have n: "n < length (cc_msgs cc)"
    using cc(2) by (simp add: findMsgPair_Some)
  then have "pair_ok ?t mp"
    using calls_pairs(2) [OF h(1) cc(1)] cc(3) by auto
  moreover have "pair_ok s mp"
  proof -
    have "mp \<in> set (cc_msgs cc)"
      using n cc(3) by auto
    moreover have "sentResponseDB s (call_id ?i) = Some cc"
      using cc(1) by (simp add: setMsgIn_def)
    ultimately show ?thesis
      using calls_pairs(2) [OF ok] by blast
  qed
  ultimately have "r \<noteq> a" and req: "mp_request mp \<noteq> None"
    using assms(4,8) by (auto simp: pair_ok_def)
  let ?s' = "setRetransmitMax 1 a ((setRetransmitMax 0 r ?t)\<lparr> sentResponseDB := (sentResponseDB ?t)(call_id ?i \<mapsto> set_response n a cc) \<rparr>)"
  have "repeated_request ?i n a cc ?t = ?s'"
    using assms(8) cc(3) by (simp add: repeated_request_def FILTER_RETRANS_COUNT_def)
  then have "request_processRecv False a ?t = Inr (None, ?s')"
    using h(4) assms(6) cc req by (simp add: request_processRecv_def Let_def outcome_simps)
  then have r: "receiveNB e s = Inr (None, ?s')"
    using assms(3-6) by (simp add: receiveNB_def Let_def)
  then have k: "filter_ok ?s'"
    using receiveNB_keeps [OF r assms(3)] ok by (simp add: keeps_def)
  have e: "widens ?t ?s'" and db: "sentResponseDB ?s' (call_id ?i) = Some (set_response n a cc)"
    by (auto simp: widens_def setRetransmitMax_def)
  have "findMsgPair (of_id (heap ?s') ?i) (cc_msgs (set_response n a cc)) = Some n"
    by (rule position_evolves [OF e calls_pairs(2) [OF h(1) cc(1)] calls_pairs(2) [OF k db] call_grows_response cc(2)])
  then have "found ?s' (sentResponseDB ?s') ?i = Some (mp\<lparr> mp_response := Some a \<rparr>)"
    using n cc(3) by (simp add: found_def set_response_def setRetransmitMax_def)
  moreover have "silenced r ?s'" "retransCount (heap ?s' r) = 0" "udp_out ?s' = udp_out s"
    using \<open>r \<noteq> a\<close> so_far assms(9) by (simp_all add: silenced_def setRetransmitMax_def setMsgIn_def)
  ultimately show ?thesis
    using r stack_ticks_silenced [OF _ assms(2), of r ?s'] by (intro exI [of _ ?s']) auto
qed

text \<open>An INVITE arrives, is answered, and arrives again before the answer's second transmission.\<close>

lemma example_repetition:
  "case stack_tick example_env 1000 (Some example_request) (new_SipTransceiver (\<lambda>n. ''t'')) of Some (Inr s1) \<Rightarrow>
    (case receiveNB example_env s1 of Inl x \<Rightarrow> False | Inr (q2, s2) \<Rightarrow>
      (case stack_sendReply example_env (StatusMsg ''b'' example_request 200) s2 of Inl x \<Rightarrow> False | Inr s3 \<Rightarrow>
        (case stack_tick example_env 1100 (Some example_request) s3 of Some (Inr s4) \<Rightarrow>
           rcvFifo s4 = [2] \<and> c_in (heap s4 2) = Some example_request \<and> sendQ s4 = [1]
           \<and> found s4 (sentResponseDB s4) (SipTransactionId example_request) = Some \<lparr> mp_request = Some 0, mp_response = Some 1 \<rparr>
           \<and> udp_out s4 = [(1100, 1)]
         | _ \<Rightarrow> False)))
   | _ \<Rightarrow> False"
  by code_simp

theorem repeated_invite_silences_answer_witness:
  "\<exists>s s'. receiveNB example_env s = Inr (None, s') \<and> udp_out s = [(1100, 1)]
    \<and> (\<forall>ts. \<exists>s''. stack_ticks example_env ts s' = ret s'' \<and> udp_out s'' = [(1100, 1)])"
proof -
  let ?s = "new_SipTransceiver (\<lambda>n. ''t'')"
  obtain s1 q2 s2 s3 s4 where steps: "stack_tick example_env 1000 (Some example_request) ?s = ret s1"
    "receiveNB example_env s1 = Inr (q2, s2)" "stack_sendReply example_env (StatusMsg ''b'' example_request 200) s2 = Inr s3"
    "stack_tick example_env 1100 (Some example_request) s3 = ret s4"
    and s4: "rcvFifo s4 = [2]" "c_in (heap s4 2) = Some example_request" "sendQ s4 = [1]"
    "found s4 (sentResponseDB s4) (SipTransactionId example_request) = Some \<lparr> mp_request = Some 0, mp_response = Some 1 \<rparr>"
    "udp_out s4 = [(1100, 1)]"
    using example_repetition unfolding case_holds by blast
  have "stack_step example_env ?s None s1" "stack_step example_env s1 q2 s2" "stack_step example_env s2 None s3"
    "stack_step example_env s3 None s4"
    using steps by (blast intro: stack_step.intros)+
  then have r: "stack_run example_env ?s (((([] @ [None]) @ [q2]) @ [None]) @ [None]) s4"
    by (meson runs.intros)
  have m: "\<not> env_proxy example_env" "m_type example_request = SIP_INVITE"
    by (simp_all add: example_env_def example_request_def)
  from repeated_invite_silences_answer [OF r example_env_ok(1) m(1) s4(1,2) m(2) s4(4) _ s4(3)] s4(5) show ?thesis
    by auto
qed

end
