(* ===== verification/Spec2Isabelle.thy ===== *)
theory Spec2Isabelle
  imports Rtp_Robustness Rtcp_Statistics Session_Setup Event_Exchange Stun_Client Ua_Conversation Sip_Filter
begin

text \<open>
  Verification of VOCAL: the telephone's calls, its SIP transactions, its voice packets and its
  traversal of NATs.

  \<^bold>\<open>The program.\<close> VOCAL is a SIP telephony system in C++. The soft phone (\<open>src/sip/gua\<close>) has a call
  agent for each call, which controls a call leg (\<open>src/sip/libsipua\<close>) and the media. The leg hands
  messages to the SIP stack (\<open>src/sip/sipstack\<close>), which repeats them until they are answered and filters
  what it receives. The voice travels in RTP (\<open>src/rtp\<close>), and the addresses that a call announces
  are found with STUN (\<open>src/stund\<close>). RTCP, in \<open>src/rtp\<close> too, reports on the quality of the stream.

  \<^bold>\<open>How the modelled parts interact.\<close>
  \<^item> An input of a call (\<open>UaCallControl::processEvent\<close>: a message, or what the user did) goes to its
    \<open>CallAgent\<close> and through it to the leg \<open>UaBase\<close>, whose state object handles it
    (\<open>recvRequest\<close>, \<open>recvStatus\<close>, \<open>sendRequest\<close>, \<open>sendStatus\<close>); the leg calls the agent back
    (\<open>inCall\<close>, \<open>doBye\<close>, \<open>endCall\<close>, ...), and the agent calls itself until its control state is done.
  \<^item> \<open>SipTransceiver::sendAsync\<close> and \<open>sendReply\<close> record a message in one of two databases and queue it in
    \<open>SipUdpConnection\<close>; \<open>tick\<close> transmits what is due and puts what arrived into a fifo, from which
    \<open>receiveNB\<close> gives the application what the databases let through. Database and queue share the
    message containers: a response stops a retransmission by changing a container in the queue.
  \<^item> \<open>RtpTransmitter::transmitRaw\<close> makes one packet of the samples it is given, numbers and stamps it,
    and hands it to the UDP stack. \<open>RtpReceiver::readNetwork\<close> checks a datagram (\<open>isValid\<close>), finds out
    whom it comes from (\<open>updateSource\<close>, which keeps the transmitter list of \<open>RtcpReceiver\<close> in step),
    gives telephone events to \<open>RtpEventReceiver\<close> and puts audio into the jitter buffer
    (\<open>insertPacket\<close>), out of which \<open>retrieve\<close> plays one packet per call.
  \<^item> \<open>RtpSession\<close> holds the two directions of a stream and guards their use by its state. While voice
    is sent, it looks whether a report is due (\<open>checkInterval\<close>) and lets \<open>RtcpTransmitter\<close> compose one:
    the state of the RTP transmitter, what the RTP receiver got and the description of the source
    (\<open>addSR\<close>, \<open>addSDES\<close>, \<open>addBYE\<close>). \<open>RtcpReceiver\<close> checks and reads such packets and keeps the list of
    transmitters, which the RTP receiver extends and from which the next report is made. Keys that are
    pressed travel as RTP events (\<open>transmitEvent\<close>).
  \<^item> A STUN client (\<open>stunNatType\<close>) sends requests (\<open>stunSendTest\<close>), the server (\<open>stunServerProcess\<close>,
    \<open>stunServerProcessMsg\<close>) answers them over four sockets, and both use the one message codec
    (\<open>stunParseMessage\<close>, \<open>stunEncodeMessage\<close>).

  \<^bold>\<open>Theories and sources.\<close>
  \<^item> \<open>Vocal_Prelude\<close>: words, octets, byte order, the types \<open>outcome\<close> (a value, or the failure with
    which the program stops: a false assertion, an access outside an array, ...) and \<open>run\<close> (an outcome,
    or none when the program does not return), queues.
  \<^item> \<open>Sip_Headers\<close> (\<open>sip/sipstack/SipRawHeaderContainer.cxx\<close>): the lists of headers of a message and
    the walks along them. \<open>Sip_Message\<close>: a message as the record of the headers that the modelled code
    reads, and the constructors that make one message from another (\<open>StatusMsg\<close>, \<open>AckMsg\<close>, \<open>ByeMsg\<close>,
    \<open>CancelMsg\<close>).
  \<^item> \<open>Ua_Agent\<close> and \<open>Ua_State\<close> (\<open>sip/libsipua\<close>): the record of a leg, and one function for each handler
    of its nine states. \<open>Ua_Call\<close> (\<open>sip/gua/CallAgent.cxx\<close>, \<open>sip/gua/controlState\<close>): the record extended
    by the agent, and its methods. \<open>Ua_Returns\<close>, \<open>Ua_Invariant\<close>, \<open>Ua_Phone\<close>, \<open>Ua_Dialogue\<close> and
    \<open>Ua_Conversation\<close> hold proofs: termination, the invariant, its preservation, what each message of a
    dialogue does, and two phones that talk to each other.
  \<^item> \<open>Sip_Transaction\<close> (\<open>SipTransactionId\<close>, \<open>SipMsgContainer\<close>, \<open>SipCallContainer\<close>, \<open>SipTransactionDB\<close>,
    \<open>SipSentRequestDB\<close>, \<open>SipSentResponseDB\<close>) and \<open>Sip_Transceiver\<close> (\<open>SipUdpConnection\<close>,
    \<open>SipTransceiver\<close>): containers are objects of a store, the databases and queues hold their addresses.
    \<open>Sip_Retransmission\<close>, \<open>Sip_Database\<close> and \<open>Sip_Filter\<close> hold proofs about executions, which are
    sequences of anything that the application and the network can do.
  \<^item> \<open>Rtp_Tools\<close> (\<open>rtp/rtpTools.cxx\<close>), \<open>Rtp_Packet\<close> (\<open>rtp/RtpPacket.cxx\<close>), \<open>Ntp_Time\<close>
    (\<open>rtp/NtpTime.cxx\<close>): the values that the others compute with. A packet is its octets, and its
    header fields are reads and writes of them.
  \<^item> \<open>Jitter_Buffer\<close>, \<open>Rtp_Receiver\<close> (\<open>rtp/RtpReceiver.cxx\<close>, the transmitter list of
    \<open>rtp/RtcpReceiver.cxx\<close>), \<open>Rtp_Event\<close> (\<open>rtp/RtpEventReceiver.cxx\<close>): the members of the class
    \<open>RtpReceiver\<close> are the fields of a record that extends the record of the ring; each method is a
    function on that record. \<open>Rtp_Transmitter\<close> (\<open>rtp/RtpTransmitter.cxx\<close>): the same for the sender;
    the UDP stack is the list of datagrams handed to it.
  \<^item> \<open>Playout\<close>, \<open>Rtp_Session\<close>, \<open>Rtp_Sources\<close>, \<open>Rtp_Robustness\<close>: specifications and proofs about the
    receiver; a session is any interleaving of arrivals and plays.
  \<^item> \<open>Rtcp_Packet\<close> (\<open>rtp/RtcpPacket.cxx\<close>, the RTCP structures of \<open>rtp/rtpTypes.h\<close>), \<open>Rtcp_Receiver\<close>
    (\<open>rtp/RtcpReceiver.cxx\<close>), \<open>Rtcp_Transmitter\<close> (\<open>rtp/RtcpTransmitter.cxx\<close>), \<open>Session_Control\<close> and
    \<open>Session_Setup\<close> (\<open>rtp/RtpSession.cxx\<close>): a packet is an array of 2048 octets into which every
    assignment of the code writes at its offset; pointers are offsets, and the objects of a session are
    the fields of one record. \<open>Rtcp_Wire\<close> gives the octets that the operations leave, \<open>Rtcp_Exchange\<close>
    what the receiver makes of them, \<open>Rtcp_Sessions\<close>, \<open>Rtcp_Statistics\<close> and \<open>Event_Exchange\<close> hold
    properties of two sessions that talk to each other.
  \<^item> \<open>Stun_Message\<close>, \<open>Stun_Server\<close>, \<open>Stun_Client\<close> (\<open>stund/stun.cxx\<close>, \<open>stund/stun.h\<close>,
    \<open>stund/udp.cxx\<close>): structures as records, the parsers and encoders on octets, the server with the
    operating system's sockets as a table, the client with the answers of \<open>select\<close> and \<open>recvfrom\<close> as
    its input. \<open>Stun_Safety\<close> and \<open>Stun_Service\<close> hold proofs about them.

  \<^bold>\<open>What is proved.\<close>
  \<^item> Calls: in every state that a call reaches through messages and the user's commands other than hold
    and resume, the states of leg and agent are those of the call's role, the stored messages are of
    their kinds, and the agent is either active and bound to its leg or removed (\<open>call_invariant\<close>); two
    phones set up and release a call, with the kinds of messages, the numbers and the tags fixed message
    by message (\<open>call_setup_and_release\<close>), and a call that is declined or cancelled ends on both sides; which inputs make the agent follow a null pointer or
    leave the peer without a BYE.
  \<^item> SIP transactions: an application gets each final response and each INVITE once; no message is
    transmitted more than seven times; an unanswered request is transmitted at the first ticks 0.5, 1, 2, 4, 4 and 4 seconds after one
    another (\<open>paced\<close>), and a response
    ends its retransmission; a repeated INVITE ends the retransmission of the answer as well.
  \<^item> Header lists: the pointer walks are list operations.
  \<^item> RTP values: the sequence and time comparisons are the signed distance on a circle; the header
    fields of a packet are read and written as RFC 1889 lays them out, each without touching the others; NTP sums and differences are exact or wrap where stated.
  \<^item> Jitter buffer: \<open>verifyJbSanity\<close> decides the invariant of the ring; insertion and playing refine
    a specification with unbounded positions (\<open>receiver_refines_playout\<close>), so that a receiver plays
    only what arrived, in order, after a constant delay; what a transmitter sends in order is what the
    receiver plays (\<open>transmitter_to_receiver\<close>).
  \<^item> Receiver under any input: \<open>readNetwork\<close> returns; admission of sources keeps receiver and
    transmitter list in agreement; the two datagrams that stop the program.
  \<^item> RTCP: the report of a session is accepted by its peer, which then knows the sender's clock and name
    (\<open>report_delivered\<close>); the packet that ends a session removes its source (\<open>bye_delivered\<close>); all packets
    fit into their memory (\<open>rtcp_packets_fit\<close>); the round-trip time comes out exact up to a millisecond
    and a known wrap-around (\<open>round_trip_measured\<close>); reports are due every 2.5 to 8 seconds
    (\<open>reports_bounded\<close>); where the loss count, the RTP time, the stored texts and the name are wrong.
  \<^item> Telephone events: a key press is reported once, and the packet that ends it stops the peer
    (\<open>key_press_ends_peer\<close>).
  \<^item> STUN codec: decoding inverts encoding; parsing stays inside its arrays except for one attribute
    whose length the code does not bound; the answer does not depend on octets outside the datagram.
  \<^item> STUN service: the answer to a Binding Request on the primary socket is the one of RFC 3489, from the
    address of its Table 1; on the other sockets the port of the answer is not (\<open>answer_port_by_flags_only\<close>);
    the classification that
    \<open>stunNatType\<close> makes of the answers, and the requests the server cannot serve.

  \<^bold>\<open>Interfaces.\<close> Each of these locales is interpreted on the definitions of the code, and the theorems
  use the facts of the interpretations: \<open>bounded_queue\<close> (the ring as a queue), \<open>header_register\<close> (a field
  of the packet header), \<open>attribute_codec\<close> (an encoder and the parser that inverts it),
  \<open>attribute_reader\<close> (a parser that stays inside its input), \<open>leg_controller\<close> (what a leg relies on of its
  controller, interpreted for the call agent and for a leg without one) and \<open>duplicate_filter\<close> (a
  database that lets a message through once, interpreted for responses and for requests).

  \<^bold>\<open>Termination.\<close> \<open>silencePatch\<close>, \<open>saveRoutes\<close> and \<open>tick_loop\<close> are \<open>partial_function\<close>s into \<open>option\<close>,
  because their loops end only when a number is reached, a URL has the right type, or a queue is empty.
  \<open>readNetwork_returns\<close> and \<open>retransmission_bounded\<close> show that the first and the last always end,
  \<open>saveRouteList_route_set\<close> when the second does. The agent's methods, which call each other and the leg,
  are one function with a bound on the depth of calls; thirteen levels are enough for every state that a
  call can reach (\<open>agent_returns\<close>), and the result does not depend on the bound. \<open>stunParseAttributes\<close>
  recurses on the number of octets left, and the loops over the parts and items of an RTCP packet on the
  number of octets of the packet. The STUN client is a function of the finite list of what the
  sockets returned.

  \<^bold>\<open>Parameters.\<close> The clock, the random numbers and tags, the sockets' answers, name resolution, the
  position of the top element in the heap behind \<open>std::priority_queue\<close>, the answers of the media
  controller, the user's credentials, the keyed hash of OpenSSL, process number and host name, and the
  contents of uninitialised locals and of new memory are arguments of the definitions.

  \<^bold>\<open>Not modelled.\<close> Parsing and printing of SIP messages, and with it the text of headers; the TCP
  connection; registration, console and configuration of the phone; the user's own hold and resume
  (\<open>processHold\<close>, \<open>processResume\<close>), which change a session description that INVITE and leg share; SDP,
  RTSP, RADIUS and CDR, which are parts of their own; codecs, which are signal processing; opening and
  exchanging the sockets of a session (\<open>setReceiver\<close>, \<open>reserveRtpPort\<close> and their counterparts), which delete
  objects that others may still point to; printing; programs, GUIs, installation tools
  and vendored libraries.
\<close>

end
